(* ===== verification/Moos_Prelude.thy ===== *)
theory Moos_Prelude
  imports Complex_Main "HOL-Library.Word" "HOL-Library.Char_ord" "HOL-Library.List_Lexorder"
    "HOL-Library.Product_Lexorder"
begin

text \<open>
  What every component of the model shares.

  \<^item> \<open>std::map\<close> with its iteration order: an association list strictly sorted by key
    (\<open>map_ok\<close>), read by \<open>map_of\<close>, written by \<open>map_set\<close> (\<open>m[k] = v\<close>) and
    \<open>map_erase\<close>. The locale \<open>assoc_store\<close> is the interface the components rely on,
    and \<open>store\<close> interprets it on these lists.
  \<^item> \<open>std::set\<close>: a strictly sorted list, written by the library's \<open>insort_insert\<close>.
  \<^item> \<open>std::string\<close>: a \<open>char\<close> list; \<open>std::string::npos\<close> is \<open>None\<close>. Strings and keys
    compare lexicographically by unsigned byte, as \<open>std::string::operator<\<close> does.
  \<^item> \<open>moos_simps\<close>: the equations the component proofs unfold together.
\<close>

named_theorems moos_simps \<open>defining equations of the model's small operations\<close>

section \<open>Ordered maps\<close>

type_synonym ('k, 'v) omap = "('k \<times> 'v) list"

definition map_ok :: "('k::linorder, 'v) omap \<Rightarrow> bool" where
  "map_ok m \<longleftrightarrow> sorted_wrt (<) (map fst m)"

fun map_set :: "'k::linorder \<Rightarrow> 'v \<Rightarrow> ('k, 'v) omap \<Rightarrow> ('k, 'v) omap" where
  "map_set k v [] = [(k, v)]"
| "map_set k v (e # m) =
     (if fst e < k then e # map_set k v m
      else if fst e = k then (k, v) # m
      else (k, v) # e # m)"

definition map_erase :: "'k \<Rightarrow> ('k, 'v) omap \<Rightarrow> ('k, 'v) omap" where
  "map_erase k m = filter (\<lambda>e. fst e \<noteq> k) m"

text \<open>A \<open>for\<close> loop over a map that may change the mapped values, in key order.\<close>

definition map_vals :: "('k \<Rightarrow> 'v \<Rightarrow> 'w) \<Rightarrow> ('k, 'v) omap \<Rightarrow> ('k, 'w) omap" where
  "map_vals f m = map (\<lambda>e. (fst e, f (fst e) (snd e))) m"

text \<open>\<open>m[k]\<close> of a C++ map as an rvalue of a value-initialised type: the default when absent.\<close>

definition map_get :: "'v \<Rightarrow> ('k, 'v) omap \<Rightarrow> 'k \<Rightarrow> 'v" where
  "map_get d m k = (case map_of m k of None \<Rightarrow> d | Some v \<Rightarrow> v)"

lemma map_ok_Nil [simp]: "map_ok []"
  by (simp add: map_ok_def)

lemma map_ok_Cons: "map_ok (e # m) \<longleftrightarrow> (\<forall>k \<in> fst ` set m. fst e < k) \<and> map_ok m"
  by (auto simp: map_ok_def)

lemma fst_set_map_set: "fst ` set (map_set k v m) = insert k (fst ` set m)"
  by (induction m) auto

lemma map_ok_set [simp, intro]: "map_ok m \<Longrightarrow> map_ok (map_set k v m)"
proof (induction m)
  case Nil
  then show ?case by (simp add: map_ok_def)
next
  case (Cons e m)
  then show ?case by (auto simp: map_ok_Cons fst_set_map_set)
qed

lemma map_of_above: "\<forall>k \<in> fst ` set m. (a::'k::linorder) < k \<Longrightarrow> map_of m a = None"
  by (induction m) auto

lemma map_of_set [simp]: "map_of (map_set k v m) = (map_of m)(k \<mapsto> v)"
  by (induction m) (auto simp: fun_eq_iff)

lemma map_ok_erase [simp, intro]: "map_ok m \<Longrightarrow> map_ok (map_erase k m)"
  by (auto simp: map_ok_def map_erase_def sorted_wrt_map intro: sorted_wrt_filter)

lemma map_of_erase [simp]: "map_of (map_erase k m) = (map_of m)(k := None)"
  by (induction m) (auto simp: map_erase_def fun_eq_iff)

lemma fst_map_vals [simp]: "map fst (map_vals f m) = map fst m"
  by (simp add: map_vals_def comp_def)

lemma map_ok_vals [simp]: "map_ok (map_vals f m) \<longleftrightarrow> map_ok m"
  by (simp add: map_ok_def)

lemma map_of_vals [simp]: "map_of (map_vals f m) k = map_option (f k) (map_of m k)"
  by (induction m) (auto simp: map_vals_def)

lemma map_ok_distinct: "map_ok m \<Longrightarrow> distinct (map fst m)"
  by (simp add: map_ok_def strict_sorted_iff)

lemma map_ok_in_iff: "map_ok m \<Longrightarrow> (k, v) \<in> set m \<longleftrightarrow> map_of m k = Some v"
  by (simp add: map_ok_distinct)

lemma map_ok_ext:
  assumes "map_ok m" and "map_ok m'" and "map_of m = map_of m'"
  shows "m = m'"
proof (rule map_sorted_distinct_set_unique [where f = fst])
  show s: "set m = set m'"
    using assms by (auto simp: map_ok_in_iff)
  show "inj_on fst (set m \<union> set m')"
    using map_ok_distinct [OF assms(1)] s by (simp add: distinct_map)
qed (use assms in \<open>auto simp: map_ok_def strict_sorted_iff\<close>)

lemma map_set_same [simp]: "map_ok m \<Longrightarrow> map_of m k = Some v \<Longrightarrow> map_set k v m = m"
  by (rule map_ok_ext) (auto simp: fun_eq_iff)

lemma map_set_twice [simp]: "map_ok m \<Longrightarrow> map_set k v (map_set k w m) = map_set k v m"
  by (rule map_ok_ext) auto

lemma set_map_erase: "set (map_erase k m) = {e \<in> set m. fst e \<noteq> k}"
  by (simp add: map_erase_def)

lemma map_set_elem: "x \<in> set (map_set k v m) \<Longrightarrow> x = (k, v) \<or> x \<in> set m"
  by (induction m) (auto split: if_splits)

lemma map_of_None_notin: "map_of m k = None \<longleftrightarrow> k \<notin> fst ` set m"
  by (simp add: map_of_eq_None_iff)

section \<open>The interface of a store\<close>

text \<open>
  What the components use of \<open>std::map\<close>: \<open>find\<close>, \<open>operator[]\<close> as an lvalue and \<open>erase\<close>.
  The laws are those of a finite map; the derived lemmas are proved once here.
\<close>

locale assoc_store =
  fixes ok :: "'m \<Rightarrow> bool"
    and find :: "'m \<Rightarrow> 'k \<Rightarrow> 'v option"
    and put :: "'k \<Rightarrow> 'v \<Rightarrow> 'm \<Rightarrow> 'm"
    and del :: "'k \<Rightarrow> 'm \<Rightarrow> 'm"
  assumes ok_put: "ok m \<Longrightarrow> ok (put k v m)"
    and ok_del: "ok m \<Longrightarrow> ok (del k m)"
    and find_put: "ok m \<Longrightarrow> find (put k v m) = (find m)(k \<mapsto> v)"
    and find_del: "ok m \<Longrightarrow> find (del k m) = (find m)(k := None)"
begin

lemma find_put_same: "ok m \<Longrightarrow> find (put k v m) k = Some v"
  by (simp add: find_put)

lemma find_put_other: "ok m \<Longrightarrow> k \<noteq> k' \<Longrightarrow> find (put k v m) k' = find m k'"
  by (simp add: find_put)

lemma find_del_same: "ok m \<Longrightarrow> find (del k m) k = None"
  by (simp add: find_del)

lemma find_del_other: "ok m \<Longrightarrow> k \<noteq> k' \<Longrightarrow> find (del k m) k' = find m k'"
  by (simp add: find_del)

lemma ok_fold_put: "ok m \<Longrightarrow> ok (fold (\<lambda>k. put k (f k)) ks m)"
  by (induction ks arbitrary: m) (auto intro: ok_put)

lemma find_fold_put:
  "ok m \<Longrightarrow> find (fold (\<lambda>k. put k (f k)) ks m) k = (if k \<in> set ks then Some (f k) else find m k)"
  by (induction ks arbitrary: m) (auto simp: find_put ok_put)

end

interpretation store: assoc_store map_ok map_of map_set map_erase
  by unfold_locales auto

section \<open>Ordered sets\<close>

abbreviation set_insert :: "'a::linorder \<Rightarrow> 'a list \<Rightarrow> 'a list" where
  "set_insert \<equiv> insort_insert"

definition set_ok :: "'a::linorder list \<Rightarrow> bool" where
  "set_ok xs \<longleftrightarrow> sorted_wrt (<) xs"

lemma set_ok_Nil [simp]: "set_ok []"
  by (simp add: set_ok_def)

lemma set_ok_insert [simp, intro]: "set_ok xs \<Longrightarrow> set_ok (set_insert x xs)"
  by (simp add: set_ok_def strict_sorted_iff sorted_insort_insert distinct_insort_insert)

lemma set_ok_filter [simp, intro]: "set_ok xs \<Longrightarrow> set_ok (filter P xs)"
  by (simp add: set_ok_def sorted_wrt_filter)

declare set_insort_insert [simp]

section \<open>Lists and options\<close>

lemma fold_inv: "(\<And>x s. x \<in> set xs \<Longrightarrow> P s \<Longrightarrow> P (f x s)) \<Longrightarrow> P s \<Longrightarrow> P (fold f xs s)"
  by (induction xs arbitrary: s) auto

lemma takeWhile_all: "(\<And>x. x \<in> set xs \<Longrightarrow> P x) \<Longrightarrow> takeWhile P xs = xs"
  by (simp add: takeWhile_eq_all_conv)

lemma dropWhile_none: "xs = [] \<or> \<not> P (hd xs) \<Longrightarrow> dropWhile P xs = xs"
  by (cases xs) auto

text \<open>\<open>c_str()\<close>: what a C string function sees of a \<open>std::string\<close>, up to the first NUL.\<close>

definition c_str :: "string \<Rightarrow> string" where
  "c_str s = takeWhile (\<lambda>c. c \<noteq> CHR 0x00) s"

lemma c_str_id: "CHR 0x00 \<notin> set s \<Longrightarrow> c_str s = s"
  by (auto simp: c_str_def intro: takeWhile_all)

lemma c_str_no_nul [simp]: "CHR 0x00 \<notin> set (c_str s)"
  by (auto simp: c_str_def dest: set_takeWhileD)

end
