(* ===== verification/Moos_Strings.thy ===== *)
theory Moos_Strings
  imports Moos_Prelude
begin

text \<open>
  The string routines of \<open>Utils/MOOSUtilityFunctions.cpp\<close> that the database, the clients
  and the configuration reader are built on: case folding, searching, chomping, trimming,
  character removal, numeric tests and the splitting of lists and paths. A routine that
  changes a string through a reference returns the new string beside its result. The
  character classification is the one of the C locale.
\<close>

section \<open>Characters\<close>

definition toupper :: "char \<Rightarrow> char" where
  "toupper c = (if CHR ''a'' \<le> c \<and> c \<le> CHR ''z'' then char_of (of_char c - 32 :: nat) else c)"

definition tolower :: "char \<Rightarrow> char" where
  "tolower c = (if CHR ''A'' \<le> c \<and> c \<le> CHR ''Z'' then char_of (of_char c + 32 :: nat) else c)"

definition isdigit :: "char \<Rightarrow> bool" where
  "isdigit c \<longleftrightarrow> CHR ''0'' \<le> c \<and> c \<le> CHR ''9''"

definition isspace :: "char \<Rightarrow> bool" where
  "isspace c \<longleftrightarrow> c \<in> {CHR '' '', CHR 0x09, CHR 0x0A, CHR 0x0B, CHR 0x0C, CHR 0x0D}"

definition digit_val :: "char \<Rightarrow> nat" where
  "digit_val c = of_char c - 48"

section \<open>Positions in strings\<close>

text \<open>\<open>find_first_of\<close> and \<open>find_first_not_of\<close> from a position on: the first index whose
  character satisfies \<open>P\<close>. \<open>None\<close> is \<open>npos\<close>.\<close>

definition find_first :: "(char \<Rightarrow> bool) \<Rightarrow> nat \<Rightarrow> string \<Rightarrow> nat option" where
  "find_first P p s =
     (let i = p + length (takeWhile (\<lambda>c. \<not> P c) (drop p s))
      in if i < length s then Some i else None)"

text \<open>\<open>find_last_of\<close> and \<open>find_last_not_of\<close>: the last index whose character satisfies \<open>P\<close>.\<close>

definition find_last :: "(char \<Rightarrow> bool) \<Rightarrow> string \<Rightarrow> nat option" where
  "find_last P s =
     (let k = length (takeWhile (\<lambda>c. \<not> P c) (rev s))
      in if k < length s then Some (length s - 1 - k) else None)"

fun prefix_by :: "(char \<Rightarrow> char \<Rightarrow> bool) \<Rightarrow> string \<Rightarrow> string \<Rightarrow> bool" where
  "prefix_by eq [] s = True"
| "prefix_by eq (t # ts) [] = False"
| "prefix_by eq (t # ts) (c # s) = (eq c t \<and> prefix_by eq ts s)"

text \<open>\<open>std::search\<close> and \<open>std::string::find\<close>: the first position the token occurs at.\<close>

fun search_by :: "(char \<Rightarrow> char \<Rightarrow> bool) \<Rightarrow> string \<Rightarrow> string \<Rightarrow> nat option" where
  "search_by eq [] tok = (if tok = [] then Some 0 else None)"
| "search_by eq (c # s) tok =
     (if prefix_by eq tok (c # s) then Some 0 else map_option Suc (search_by eq s tok))"

definition CompareInsensitive :: "char \<Rightarrow> char \<Rightarrow> bool" where
  "CompareInsensitive lhs rhs \<longleftrightarrow> toupper lhs = toupper rhs"

definition MOOSStrFind :: "string \<Rightarrow> string \<Rightarrow> bool \<Rightarrow> nat option" where
  "MOOSStrFind sSource sToken bInsensitive =
     (if sToken = [] then None
      else if bInsensitive then search_by CompareInsensitive sSource sToken
      else search_by (=) sSource sToken)"

section \<open>Case, trimming, removal\<close>

definition MOOSToUpper :: "string \<Rightarrow> string" where
  "MOOSToUpper s = map toupper s"

definition MOOSToLower :: "string \<Rightarrow> string" where
  "MOOSToLower s = map tolower s"

definition MOOSStrCmp :: "string \<Rightarrow> string \<Rightarrow> bool" where
  "MOOSStrCmp s1 s2 \<longleftrightarrow> MOOSToUpper s1 = MOOSToUpper s2"

definition moos_white :: "char \<Rightarrow> bool" where
  "moos_white c \<longleftrightarrow> c \<in> {CHR '' '', CHR 0x09, CHR 0x0A, CHR 0x0D}"

definition MOOSTrimWhiteSpace :: "string \<Rightarrow> string" where
  "MOOSTrimWhiteSpace s =
     (if s = [] then s
      else case (find_first (\<lambda>c. \<not> moos_white c) 0 s, find_last (\<lambda>c. \<not> moos_white c) s) of
        (Some p, Some q) \<Rightarrow> take (q - p + 1) (drop p s)
      | _ \<Rightarrow> [])"

text \<open>One pass of \<open>remove\<close> and \<open>resize\<close> for each character of the token, as the loop does.\<close>

fun MOOSRemoveChars :: "string \<Rightarrow> string \<Rightarrow> string" where
  "MOOSRemoveChars s [] = s"
| "MOOSRemoveChars s (t # tok) = MOOSRemoveChars (filter (\<lambda>c. c \<noteq> t) s) tok"

definition MOOSIsNumeric :: "string \<Rightarrow> bool" where
  "MOOSIsNumeric s \<longleftrightarrow>
     find_first (\<lambda>c. c \<notin> set ''1234567890.eE-+'') 0 (MOOSTrimWhiteSpace s) = None"

section \<open>Chomping and splitting\<close>

text \<open>\<open>MOOSChomp\<close> returns what precedes the token and leaves what follows it in \<open>sStr\<close>.\<close>

definition MOOSChomp :: "string \<Rightarrow> string \<Rightarrow> bool \<Rightarrow> string \<times> string" where
  "MOOSChomp sStr sTk bInsensitive =
     (case MOOSStrFind sStr sTk bInsensitive of
        Some nPos \<Rightarrow> (take nPos sStr, drop (nPos + length sTk) sStr)
      | None \<Rightarrow> (sStr, []))"

lemma search_by_bound: "search_by eq s tok = Some p \<Longrightarrow> p + length tok \<le> length s"
proof (induction s arbitrary: p)
  case Nil
  then show ?case by (simp split: if_splits)
next
  case (Cons c s)
  have pre: "prefix_by eq tok u \<Longrightarrow> length tok \<le> length u" for u
    by (induction eq tok u rule: prefix_by.induct) auto
  from Cons show ?case by (auto split: if_splits dest: pre)
qed

lemma MOOSStrFind_bound: "MOOSStrFind s tok b = Some p \<Longrightarrow> p + length tok \<le> length s \<and> tok \<noteq> []"
  by (auto simp: MOOSStrFind_def split: if_splits dest: search_by_bound)

lemma MOOSChomp_shorter:
  assumes "s \<noteq> []"
  shows "length (snd (MOOSChomp s tok b)) < length s"
proof (cases "MOOSStrFind s tok b")
  case None
  with assms show ?thesis by (simp add: MOOSChomp_def)
next
  case (Some p)
  then have "p + length tok \<le> length s" "tok \<noteq> []" by (auto dest: MOOSStrFind_bound)
  with Some assms show ?thesis by (cases tok) (simp_all add: MOOSChomp_def)
qed

function StringListToVector :: "string \<Rightarrow> string \<Rightarrow> string list" where
  "StringListToVector L tok =
     (if L = [] then []
      else fst (MOOSChomp L tok False) # StringListToVector (snd (MOOSChomp L tok False)) tok)"
  by pat_completeness auto
termination
  by (relation "measure (\<lambda>(L, tok). length L)") (simp_all add: MOOSChomp_shorter)

declare StringListToVector.simps [simp del]

text \<open>\<open>MOOSGetValueFromToken\<close>: the value of the first line \<open>token=value\<close> of a configuration
  block, with blanks, tabs and carriage returns removed; \<open>None\<close> leaves the caller's variable
  as it was.\<close>

fun MOOSGetValueFromToken :: "string list \<Rightarrow> string \<Rightarrow> string option" where
  "MOOSGetValueFromToken [] sToken = None"
| "MOOSGetValueFromToken (sLine # sParams) sToken =
     (if find_first (\<lambda>c. c = CHR ''='') 0 sLine \<noteq> None
      then (let (sTok, rest) =
                  MOOSChomp (MOOSRemoveChars sLine [CHR '' '', CHR 0x09, CHR 0x0D]) ''='' False
            in if MOOSStrCmp sTok sToken then Some rest
               else MOOSGetValueFromToken sParams sToken)
      else MOOSGetValueFromToken sParams sToken)"

text \<open>\<open>MOOSFileParts\<close>, the branch for systems other than Windows: path, stem, extension.\<close>

definition MOOSFileParts :: "string \<Rightarrow> string \<times> string \<times> string" where
  "MOOSFileParts sFullPath =
     (let (sPath, sFullFile) =
            (case find_last (\<lambda>c. c = CHR ''/'') sFullPath of
               None \<Rightarrow> ([], sFullPath)
             | Some nBreak \<Rightarrow> (take nBreak sFullPath, drop (nBreak + 1) sFullPath))
      in case find_last (\<lambda>c. c = CHR ''.'') sFullFile of
           None \<Rightarrow> (sPath, sFullFile, [])
         | Some nDot \<Rightarrow> (sPath, take nDot sFullFile, drop (nDot + 1) sFullFile))"

section \<open>What searching finds\<close>

lemma prefix_by_eq: "prefix_by (=) t s \<longleftrightarrow> take (length t) s = t"
  by (induction "(=) :: char \<Rightarrow> char \<Rightarrow> bool" t s rule: prefix_by.induct) auto

lemma prefix_by_append [simp]: "prefix_by (=) t (t @ s)"
  by (simp add: prefix_by_eq)

lemma search_by_Some:
  "search_by (=) s t = Some p \<Longrightarrow> s = take p s @ t @ drop (p + length t) s"
proof (induction s arbitrary: p)
  case Nil
  then show ?case by (simp split: if_splits)
next
  case (Cons c s)
  show ?case
  proof (cases "prefix_by (=) t (c # s)")
    case True
    with Cons.prems have "p = 0" by simp
    with True show ?thesis
      by (metis append_Nil append_take_drop_id plus_nat.add_0 prefix_by_eq take0)
  next
    case False
    with Cons.prems obtain q where "search_by (=) s t = Some q" "p = Suc q" by auto
    with Cons.IH [of q] show ?thesis by simp
  qed
qed

lemma search_by_first:
  "search_by (=) s t = Some p \<Longrightarrow> q < p \<Longrightarrow> \<not> prefix_by (=) t (drop q s)"
proof (induction s arbitrary: p q)
  case Nil
  then show ?case by (simp split: if_splits)
next
  case (Cons c s)
  then show ?case by (cases q) (auto split: if_splits)
qed

lemma search_by_None: "search_by (=) s t = None \<Longrightarrow> q \<le> length s \<Longrightarrow> \<not> prefix_by (=) t (drop q s)"
proof (induction s arbitrary: q)
  case Nil
  then show ?case by (cases t) (auto split: if_splits)
next
  case (Cons c s)
  then show ?case by (cases q) (auto split: if_splits)
qed

lemma search_by_at: "search_by (=) s t = Some p \<Longrightarrow> prefix_by (=) t (drop p s)"
proof (induction s arbitrary: p)
  case Nil
  then show ?case by (cases t) (auto split: if_splits)
next
  case (Cons c s)
  then show ?case by (cases p) (auto split: if_splits)
qed

lemma search_by_SomeI:
  assumes "p \<le> length s" and "prefix_by (=) t (drop p s)"
    and "\<And>q. q < p \<Longrightarrow> \<not> prefix_by (=) t (drop q s)"
  shows "search_by (=) s t = Some p"
proof (cases "search_by (=) s t")
  case None
  from search_by_None [OF None assms(1)] assms(2) show ?thesis by simp
next
  case (Some r)
  have "\<not> r < p" using assms(3) search_by_at [OF Some] by blast
  moreover have "\<not> p < r" using search_by_first [OF Some] assms(2) by blast
  ultimately show ?thesis using Some by simp
qed

text \<open>A one-character token is found where the character is.\<close>

lemma search_by_char:
  "search_by (=) s [c] =
     (if c \<in> set s then Some (length (takeWhile (\<lambda>x. x \<noteq> c) s)) else None)"
  by (induction s) auto

lemma drop_takeWhile: "drop (length (takeWhile P s)) s = dropWhile P s"
  by (metis dropWhile_eq_drop)

lemma take_takeWhile: "take (length (takeWhile P s)) s = takeWhile P s"
  by (metis append_eq_conv_conj takeWhile_dropWhile_id)

lemma MOOSChomp_char:
  "MOOSChomp s [c] False = (takeWhile (\<lambda>x. x \<noteq> c) s, drop 1 (dropWhile (\<lambda>x. x \<noteq> c) s))"
proof (cases "c \<in> set s")
  case True
  have "drop (length (takeWhile (\<lambda>x. x \<noteq> c) s) + 1) s = drop 1 (dropWhile (\<lambda>x. x \<noteq> c) s)"
    by (metis add.commute drop_drop drop_takeWhile)
  with True show ?thesis
    by (simp add: MOOSChomp_def MOOSStrFind_def search_by_char take_takeWhile)
next
  case False
  have t: "takeWhile (\<lambda>x. x \<noteq> c) s = s" and d: "dropWhile (\<lambda>x. x \<noteq> c) s = []"
    using False by (auto simp: dropWhile_eq_Nil_conv intro: takeWhile_all)
  show ?thesis
    unfolding t d using False by (simp add: MOOSChomp_def MOOSStrFind_def search_by_char)
qed

lemma MOOSChomp_piece:
  "c \<notin> set a \<Longrightarrow> MOOSChomp (a @ c # b) [c] False = (a, b)"
  by (subst MOOSChomp_char) (simp add: takeWhile_append dropWhile_append takeWhile_all)

lemma MOOSChomp_last: "c \<notin> set a \<Longrightarrow> MOOSChomp a [c] False = (a, [])"
  by (simp add: MOOSChomp_def MOOSStrFind_def search_by_char)

lemmas chomp_simps = MOOSChomp_piece MOOSChomp_last

section \<open>Joining and splitting\<close>

text \<open>The separated list that the database and the clients send in one string.\<close>

fun join_with :: "string \<Rightarrow> string list \<Rightarrow> string" where
  "join_with sep [] = []"
| "join_with sep [x] = x"
| "join_with sep (x # xs) = x @ sep @ join_with sep xs"

lemma join_with_Nil_iff: "\<forall>x \<in> set xs. x \<noteq> [] \<Longrightarrow> join_with sep xs = [] \<longleftrightarrow> xs = []"
  by (induction sep xs rule: join_with.induct) auto

lemma set_join_with: "set (join_with sep xs) \<subseteq> set sep \<union> \<Union> (set ` set xs)"
  by (induction sep xs rule: join_with.induct) auto

lemma split_join:
  assumes "\<forall>x \<in> set xs. x \<noteq> [] \<and> c \<notin> set x"
  shows "StringListToVector (join_with [c] xs) [c] = xs"
  using assms
proof (induction "[c]" xs rule: join_with.induct)
  case 1
  show ?case by (subst StringListToVector.simps) simp
next
  case (2 x)
  then show ?case
    by (subst StringListToVector.simps) (simp add: chomp_simps StringListToVector.simps)
next
  case (3 x y ys)
  then show ?case
    by (subst StringListToVector.simps) (simp add: chomp_simps)
qed

section \<open>Trimming and removing\<close>

lemma find_first_0: "find_first P 0 s =
    (if \<exists>c \<in> set s. P c then Some (length (takeWhile (\<lambda>c. \<not> P c) s)) else None)"
proof (cases "\<exists>c \<in> set s. P c")
  case True
  then have "takeWhile (\<lambda>c. \<not> P c) s \<noteq> s" by (metis takeWhile_eq_all_conv)
  then have "length (takeWhile (\<lambda>c. \<not> P c) s) < length s"
    by (metis append_eq_conv_conj le_neq_implies_less length_takeWhile_le
        take_all_iff takeWhile_dropWhile_id order_refl)
  with True show ?thesis by (simp add: find_first_def)
next
  case False
  then show ?thesis by (simp add: find_first_def takeWhile_all)
qed

lemma find_last_rev: "find_last P s = map_option (\<lambda>i. length s - 1 - i) (find_first P 0 (rev s))"
  by (simp add: find_last_def find_first_def Let_def)

lemma takeWhile_rev_dropWhile:
  assumes "\<exists>c \<in> set s. \<not> P c"
  shows "takeWhile P (rev s) = takeWhile P (rev (dropWhile P s))"
proof -
  obtain x where x: "x \<in> set (dropWhile P s)" "\<not> P x"
    using assms by (metis dropWhile_eq_Nil_conv hd_dropWhile hd_in_set)
  have "rev s = rev (dropWhile P s) @ rev (takeWhile P s)"
    by (metis rev_append takeWhile_dropWhile_id)
  with x show ?thesis by (simp add: takeWhile_append1)
qed

lemma strip_positions:
  assumes "\<exists>c \<in> set s. \<not> P c"
  defines "n \<equiv> length (takeWhile P s)" and "k \<equiv> length (takeWhile P (rev s))"
  shows "take (length s - 1 - k - n + 1) (drop n s) = rev (dropWhile P (rev (dropWhile P s)))"
proof -
  define u where "u = dropWhile P s"
  have u: "\<exists>c \<in> set u. \<not> P c"
    unfolding u_def using assms(1) by (metis dropWhile_eq_Nil_conv hd_dropWhile hd_in_set)
  have dr: "drop n s = u" and len: "length s = n + length u"
    by (simp_all add: n_def u_def drop_takeWhile flip: length_append)
  have k: "k = length (takeWhile P (rev u))"
    using takeWhile_rev_dropWhile [OF assms(1)] by (simp add: k_def u_def)
  have "takeWhile P (rev u) \<noteq> rev u"
    using u by (metis set_rev takeWhile_eq_all_conv)
  then have ku: "k < length u"
    unfolding k by (metis length_rev length_takeWhile_le order_le_imp_less_or_eq
        take_takeWhile take_all_iff order_refl)
  have "length s - 1 - k - n + 1 = length u - k"
    using ku len by arith
  then have "take (length s - 1 - k - n + 1) (drop n s) = take (length u - k) u"
    using dr by simp
  also have "\<dots> = rev (drop k (rev u))"
    using ku by (simp add: rev_drop)
  also have "\<dots> = rev (dropWhile P (rev u))"
    by (simp add: k drop_takeWhile)
  finally show ?thesis by (simp add: u_def)
qed

lemma trim_eq:
  "MOOSTrimWhiteSpace s = rev (dropWhile moos_white (rev (dropWhile moos_white s)))"
proof (cases "\<exists>c \<in> set s. \<not> moos_white c")
  case False
  then have d: "dropWhile moos_white s = []" by (auto simp: dropWhile_eq_Nil_conv)
  show ?thesis
    unfolding d using False by (auto simp: MOOSTrimWhiteSpace_def find_first_0)
next
  case True
  then have "s \<noteq> []" by auto
  with True show ?thesis
    using strip_positions [OF True]
    by (simp add: MOOSTrimWhiteSpace_def find_last_rev find_first_0)
qed

lemma trim_id: "s = [] \<or> (\<not> moos_white (hd s) \<and> \<not> moos_white (last s)) \<Longrightarrow> MOOSTrimWhiteSpace s = s"
  by (subst trim_eq) (auto simp: dropWhile_none hd_rev)

lemma trim_Nil_iff: "MOOSTrimWhiteSpace s = [] \<longleftrightarrow> (\<forall>c \<in> set s. moos_white c)"
proof -
  have "dropWhile moos_white (rev (dropWhile moos_white s)) = [] \<longleftrightarrow> dropWhile moos_white s = []"
    by (metis dropWhile.simps(1) dropWhile_eq_Nil_conv hd_dropWhile hd_in_set rev.simps(1) set_rev)
  then show ?thesis by (simp add: trim_eq dropWhile_eq_Nil_conv)
qed

lemma trim_ends:
  assumes "MOOSTrimWhiteSpace s \<noteq> []"
  shows "\<not> moos_white (hd (MOOSTrimWhiteSpace s)) \<and> \<not> moos_white (last (MOOSTrimWhiteSpace s))"
proof -
  define u where "u = dropWhile moos_white s"
  define v where "v = dropWhile moos_white (rev u)"
  have t: "MOOSTrimWhiteSpace s = rev v" by (simp add: trim_eq u_def v_def)
  with assms have v: "v \<noteq> []" by simp
  then have u: "u \<noteq> []" by (auto simp: v_def)
  have "last v = last (rev u)"
    using v by (metis last_appendR takeWhile_dropWhile_id v_def)
  with u have "last v = hd u" by (simp add: last_rev)
  moreover have "\<not> moos_white (hd u)" using u by (simp add: u_def hd_dropWhile)
  moreover have "\<not> moos_white (hd v)" using v by (simp add: v_def hd_dropWhile)
  ultimately show ?thesis using v by (simp add: t hd_rev last_rev)
qed

lemma trim_trim [simp]: "MOOSTrimWhiteSpace (MOOSTrimWhiteSpace s) = MOOSTrimWhiteSpace s"
  using trim_ends by (intro trim_id) blast

lemma MOOSRemoveChars_eq: "MOOSRemoveChars s tok = filter (\<lambda>c. c \<notin> set tok) s"
  by (induction s tok rule: MOOSRemoveChars.induct) (auto intro!: filter_cong)

section \<open>Properties\<close>

text \<open>Splitting a list that was joined with a separator character gives the list back, when
  no element is empty or holds the separator.\<close>

theorem split_join_roundtrip:
  assumes "\<forall>x \<in> set xs. x \<noteq> [] \<and> c \<notin> set x"
  shows "StringListToVector (join_with [c] xs) [c] = xs"
  using assms by (rule split_join)

theorem split_join_roundtrip_witness:
  "StringListToVector (join_with '','' [''nav'', ''gps'']) '','' = [''nav'', ''gps'']"
  by (rule split_join_roundtrip) simp

text \<open>Trimming removes white space at both ends and nothing else: what is left is a substring
  between two blank runs, has no white space at its ends, and trimming again changes nothing.\<close>

theorem trim_correct:
  "(\<exists>a b. s = a @ MOOSTrimWhiteSpace s @ b \<and> (\<forall>c \<in> set a \<union> set b. moos_white c))
   \<and> (MOOSTrimWhiteSpace s = [] \<or>
       \<not> moos_white (hd (MOOSTrimWhiteSpace s)) \<and> \<not> moos_white (last (MOOSTrimWhiteSpace s)))
   \<and> MOOSTrimWhiteSpace (MOOSTrimWhiteSpace s) = MOOSTrimWhiteSpace s"
proof -
  define u where "u = dropWhile moos_white s"
  have s: "s = takeWhile moos_white s @ u" by (simp add: u_def)
  have "rev u = takeWhile moos_white (rev u) @ dropWhile moos_white (rev u)" by simp
  then have "u = rev (dropWhile moos_white (rev u)) @ rev (takeWhile moos_white (rev u))"
    by (metis rev_append rev_rev_ident)
  with s have "s = takeWhile moos_white s @ MOOSTrimWhiteSpace s @ rev (takeWhile moos_white (rev u))"
    by (simp add: trim_eq u_def)
  moreover have "\<forall>c \<in> set (takeWhile moos_white s) \<union> set (rev (takeWhile moos_white (rev u))). moos_white c"
    by (auto dest: set_takeWhileD)
  ultimately show ?thesis using trim_ends [of s] by (intro conjI) (blast, blast, simp)
qed

theorem trim_correct_witness:
  "\<exists>a b. ''  a b '' = a @ MOOSTrimWhiteSpace ''  a b '' @ b \<and> MOOSTrimWhiteSpace ''  a b '' = ''a b''"
proof -
  have "MOOSTrimWhiteSpace ''  a b '' = ''a b''" by code_simp
  with trim_correct [of "''  a b ''"] show ?thesis by blast
qed

end
