(* ===== verification/Moos_Params.thy ===== *)
theory Moos_Params
  imports Moos_Strings
begin

text \<open>
  The parameter strings \<open>tok=value,tok=value\<close> of \<open>Utils/MOOSUtilityFunctions.cpp\<close>: numbers
  in and out of strings (\<open>atoi\<close>, \<open>strtod\<close>, the stream and \<open>printf\<close> formats the sources
  use), \<open>MOOSAddValToString\<close> and the \<open>MOOSValFromString\<close> family. Doubles are real numbers:
  no rounding, and no infinities, NaN or hexadecimal input. A reader that fails leaves the
  caller's variable alone; it is \<open>None\<close> here.
\<close>

section \<open>Numbers in strings\<close>

definition nat_of_digits :: "string \<Rightarrow> nat" where
  "nat_of_digits ds = foldl (\<lambda>a c. 10 * a + digit_val c) 0 ds"

definition take_sign :: "string \<Rightarrow> int \<times> string" where
  "take_sign s =
     (case s of [] \<Rightarrow> (1, s)
      | c # s' \<Rightarrow> if c = CHR ''-'' then (-1, s') else if c = CHR ''+'' then (1, s') else (1, s))"

definition atoi :: "string \<Rightarrow> int" where
  "atoi s = (let (g, t) = take_sign (dropWhile isspace s)
             in g * int (nat_of_digits (takeWhile isdigit t)))"

definition scale10 :: "real \<Rightarrow> int \<Rightarrow> real" where
  "scale10 x e = (if 0 \<le> e then x * 10 ^ nat e else x / 10 ^ nat (- e))"

text \<open>\<open>strtod\<close> on decimal input: the value and what follows it; \<open>None\<close> when nothing converts.\<close>

definition strtod :: "string \<Rightarrow> (real \<times> string) option" where
  "strtod s =
     (let (g, t) = take_sign (dropWhile isspace s);
          ip = takeWhile isdigit t; r = dropWhile isdigit t;
          fp = (if r \<noteq> [] \<and> hd r = CHR ''.'' then takeWhile isdigit (tl r) else []);
          r2 = (if r \<noteq> [] \<and> hd r = CHR ''.'' then dropWhile isdigit (tl r) else r);
          m = of_int g * real (nat_of_digits (ip @ fp)) / 10 ^ length fp
      in if ip = [] \<and> fp = [] then None
         else if r2 \<noteq> [] \<and> hd r2 \<in> {CHR ''e'', CHR ''E''}
         then (let (eg, r3) = take_sign (tl r2); ed = takeWhile isdigit r3
               in if ed = [] then Some (m, r2)
                  else Some (scale10 m (eg * int (nat_of_digits ed)), dropWhile isdigit r3))
         else Some (m, r2))"

definition atof :: "string \<Rightarrow> real" where
  "atof s = (case strtod s of None \<Rightarrow> 0 | Some (v, _) \<Rightarrow> v)"

fun digits_of :: "nat \<Rightarrow> string" where
  "digits_of n = (if n < 10 then [char_of (48 + n)] else digits_of (n div 10) @ [char_of (48 + n mod 10)])"

declare digits_of.simps [simp del]

definition show_int :: "int \<Rightarrow> string" where
  "show_int i = (if i < 0 then CHR ''-'' # digits_of (nat (- i)) else digits_of (nat i))"

definition round_even :: "real \<Rightarrow> nat" where
  "round_even y = (let f = nat \<lfloor>y\<rfloor>; d = y - of_nat f
                   in if d < 1/2 then f else if d > 1/2 then f + 1 else if even f then f else f + 1)"

text \<open>\<open>std::fixed << std::setprecision(n)\<close> and \<open>%.nf\<close>.\<close>

definition show_fixed :: "nat \<Rightarrow> real \<Rightarrow> string" where
  "show_fixed n x =
     (let m = round_even (\<bar>x\<bar> * 10 ^ n); f = digits_of (m mod 10 ^ n)
      in (if x < 0 then ''-'' else []) @ digits_of (m div 10 ^ n)
         @ (if n = 0 then [] else CHR ''.'' # replicate (n - length f) CHR ''0'' @ f))"

text \<open>The default format of \<open>operator<<\<close> for doubles (\<open>%g\<close>, six significant digits). The
  decimal exponent is searched among those a double can have.\<close>

definition dec_exp :: "real \<Rightarrow> int" where
  "dec_exp a = hd (filter (\<lambda>e. scale10 1 e \<le> a) (map (\<lambda>k. 330 - int k) [0..<661]))"

definition strip_zeros :: "string \<Rightarrow> string" where
  "strip_zeros s = rev (dropWhile (\<lambda>c. c = CHR ''0'') (rev s))"

definition show_g :: "real \<Rightarrow> string" where
  "show_g x =
     (if x = 0 then ''0''
      else let a = \<bar>x\<bar>; e0 = dec_exp a; m0 = round_even (scale10 a (5 - e0));
               (m, e) = (if m0 = 10 ^ 6 then (10 ^ 5, e0 + 1) else (m0, e0));
               ds = digits_of m; dot = (\<lambda>f. if f = [] then [] else CHR ''.'' # f)
           in (if x < 0 then ''-'' else [])
              @ (if e < -4 \<or> 6 \<le> e
                 then hd ds # dot (strip_zeros (tl ds)) @ (if e < 0 then ''e-'' else ''e+'')
                      @ (let ed = digits_of (nat \<bar>e\<bar>) in replicate (2 - length ed) CHR ''0'' @ ed)
                 else if e < 0
                 then ''0.'' @ replicate (nat (- e) - 1) CHR ''0'' @ strip_zeros ds
                 else take (nat e + 1) ds @ dot (strip_zeros (drop (nat e + 1) ds))))"

section \<open>Writing and reading parameters\<close>

text \<open>\<open>MOOSAddValToString\<close>, with the value as \<open>operator<<\<close> prints it.\<close>

definition MOOSAddValToString :: "string \<Rightarrow> string \<Rightarrow> string \<Rightarrow> string" where
  "MOOSAddValToString sIn sTok sVal =
     sIn @ (if sIn \<noteq> [] then '','' else []) @ sTok @ ''='' @ sVal"

abbreviation blank :: "char \<Rightarrow> bool" where
  "blank c \<equiv> c = CHR '' '' \<or> c = CHR 0x09"

text \<open>Where the field around position \<open>nPos\<close> starts: the first character that is not a blank
  after the last comma at or before \<open>nPos\<close> (from the start of the string if there is none).\<close>

definition vfs_start :: "string \<Rightarrow> nat \<Rightarrow> nat option" where
  "vfs_start sStr nPos =
     (case find_last (\<lambda>c. c = CHR '','') (take (nPos + 1) sStr) of
        None \<Rightarrow> find_first (\<lambda>c. \<not> blank c) 0 sStr
      | Some nLastComma \<Rightarrow> find_first (\<lambda>c. \<not> blank c) (nLastComma + 1) sStr)"

text \<open>The value after the \<open>=\<close> at \<open>nEqualsPos\<close>: up to the next comma; without one,
  \<open>int(npos) = -1\<close> makes the length huge and \<open>append\<close> clips it to the end of the string.\<close>

definition vfs_value :: "string \<Rightarrow> nat \<Rightarrow> string" where
  "vfs_value sStr nEqualsPos =
     MOOSTrimWhiteSpace
       (case find_first (\<lambda>c. c = CHR '','') nEqualsPos sStr of
          None \<Rightarrow> drop (nEqualsPos + 1) sStr
        | Some nCommaPos \<Rightarrow> take (nCommaPos - nEqualsPos - 1) (drop (nEqualsPos + 1) sStr))"

text \<open>What the loop of \<open>MOOSValFromString\<close> does at one occurrence \<open>nPos\<close> of the token:
  \<open>None\<close> to look further, \<open>Some r\<close> to return \<open>r\<close>. A token holding \<open>=\<close> makes the length of
  \<open>t\<close> wrap around, and \<open>substr\<close> clips it to the end of the string.\<close>

definition vfs_at :: "string \<Rightarrow> string \<Rightarrow> nat \<Rightarrow> string option option" where
  "vfs_at sStr sTk nPos =
     (if vfs_start sStr nPos \<noteq> Some nPos then None
      else case find_first (\<lambda>c. c = CHR ''='') nPos sStr of
          None \<Rightarrow> Some None
        | Some nEqualsPos \<Rightarrow>
            (let t = (if nPos + length sTk \<le> nEqualsPos
                      then take (nEqualsPos - (nPos + length sTk)) (drop (nPos + length sTk) sStr)
                      else drop (nPos + length sTk) sStr)
             in if MOOSTrimWhiteSpace t \<noteq> [] then None
                else Some (Some (vfs_value sStr nEqualsPos))))"

function vfs_loop :: "string \<Rightarrow> string \<Rightarrow> bool \<Rightarrow> nat \<Rightarrow> string option" where
  "vfs_loop sStr sTk bInsensitive k =
     (case MOOSStrFind (drop k sStr) sTk bInsensitive of
        None \<Rightarrow> None
      | Some p \<Rightarrow>
          (case vfs_at sStr sTk (p + k) of
             None \<Rightarrow> vfs_loop sStr sTk bInsensitive (p + k + 1)
           | Some r \<Rightarrow> r))"
  by pat_completeness auto
termination
proof (relation "measure (\<lambda>(sStr, sTk, b, k). length sStr - k)")
  fix sStr sTk :: string and b :: bool and k p :: nat
  assume "MOOSStrFind (drop k sStr) sTk b = Some p"
  then have "p + length sTk \<le> length sStr - k" "sTk \<noteq> []"
    by (auto dest: MOOSStrFind_bound)
  then show "((sStr, sTk, b, p + k + 1), sStr, sTk, b, k)
      \<in> measure (\<lambda>(sStr, sTk, b, k). length sStr - k)"
    by (cases sTk) auto
qed simp

declare vfs_loop.simps [simp del]

definition MOOSValFromString :: "string \<Rightarrow> string \<Rightarrow> bool \<Rightarrow> string option" where
  "MOOSValFromString sStr sTk bInsensitive =
     (if find_first (\<lambda>c. c = CHR '','') 0 sTk \<noteq> None then None
      else vfs_loop sStr sTk bInsensitive 0)"

text \<open>The numeric readers accept a value whose first non-blank character can start a number.\<close>

definition starts_with :: "(char \<Rightarrow> bool) \<Rightarrow> string \<Rightarrow> bool" where
  "starts_with P sVal =
     (case find_first (\<lambda>c. c \<noteq> CHR '' '') 0 sVal of None \<Rightarrow> False | Some nPos \<Rightarrow> P (sVal ! nPos))"

definition MOOSValFromString_int :: "string \<Rightarrow> string \<Rightarrow> bool \<Rightarrow> int option" where
  "MOOSValFromString_int sStr sTk bInsensitive =
     (case MOOSValFromString sStr sTk bInsensitive of
        None \<Rightarrow> None
      | Some sVal \<Rightarrow>
          if starts_with (\<lambda>c. isdigit c \<or> c = CHR ''-'' \<or> c = CHR ''+'') sVal
          then Some (atoi sVal) else None)"

definition MOOSValFromString_unsigned :: "string \<Rightarrow> string \<Rightarrow> bool \<Rightarrow> int option" where
  "MOOSValFromString_unsigned sStr sTk bInsensitive =
     map_option (\<lambda>n. n mod 2 ^ 32) (MOOSValFromString_int sStr sTk bInsensitive)"

definition MOOSValFromString_bool :: "string \<Rightarrow> string \<Rightarrow> bool \<Rightarrow> bool option" where
  "MOOSValFromString_bool sStr sTk bInsensitive =
     (case MOOSValFromString sStr sTk bInsensitive of
        None \<Rightarrow> None
      | Some sVal \<Rightarrow>
          (let v = MOOSRemoveChars sVal '' '' in
           if MOOSStrCmp v ''true'' \<or> MOOSStrCmp v ''1'' then Some True
           else if MOOSStrCmp v ''false'' \<or> MOOSStrCmp v ''0'' then Some False
           else None))"

definition MOOSValFromString_double :: "string \<Rightarrow> string \<Rightarrow> bool \<Rightarrow> real option" where
  "MOOSValFromString_double sStr sTk bInsensitive =
     (case MOOSValFromString sStr sTk bInsensitive of
        None \<Rightarrow> None
      | Some sVal \<Rightarrow>
          if starts_with (\<lambda>c. isdigit c \<or> c = CHR ''.'' \<or> c = CHR ''-'' \<or> c = CHR ''+'') sVal
          then Some (atof sVal) else None)"

text \<open>\<open>MOOS::StringToDouble\<close>: \<open>None\<close> is the \<open>std::runtime_error\<close> it throws.\<close>

definition StringToDouble :: "string \<Rightarrow> real option" where
  "StringToDouble sNum = (if \<not> MOOSIsNumeric sNum then None else Some (atof (c_str sNum)))"

section \<open>The search loop\<close>

lemma MOOSStrFind_sensitive: "tk \<noteq> [] \<Longrightarrow> MOOSStrFind s tk False = search_by (=) s tk"
  by (simp add: MOOSStrFind_def)

text \<open>Occurrences at which the loop looks further can be skipped.\<close>

lemma vfs_loop_skip:
  assumes "tk \<noteq> []" and "k \<le> m" and "m \<le> length s"
    and "\<And>q. k \<le> q \<Longrightarrow> q < m \<Longrightarrow> prefix_by (=) tk (drop q s) \<Longrightarrow> vfs_at s tk q = None"
  shows "vfs_loop s tk False k = vfs_loop s tk False m"
  using assms(2,4)
proof (induction "m - k" arbitrary: k rule: less_induct)
  case less
  note unfold = vfs_loop.simps [of s tk False k] vfs_loop.simps [of s tk False m]
    MOOSStrFind_sensitive [OF assms(1)]
  show ?case
  proof (cases "search_by (=) (drop k s) tk")
    case None
    have "search_by (=) (drop m s) tk = None"
    proof (rule ccontr)
      assume "search_by (=) (drop m s) tk \<noteq> None"
      then obtain p where p: "search_by (=) (drop m s) tk = Some p" by blast
      have "p + m - k \<le> length (drop k s)"
        using search_by_bound [OF p] assms(3) less.prems(1) unfolding length_drop by arith
      with search_by_at [OF p] less.prems(1) show False
        using search_by_None [OF None, of "p + m - k"] by simp
    qed
    with None show ?thesis by (simp add: unfold)
  next
    case (Some p)
    have occ: "prefix_by (=) tk (drop (p + k) s)"
      using search_by_at [OF Some] by simp
    show ?thesis
    proof (cases "p + k < m")
      case True
      then have "vfs_at s tk (p + k) = None"
        using less.prems occ by simp
      moreover have "vfs_loop s tk False (p + k + 1) = vfs_loop s tk False m"
        using True less.prems by (intro less.hyps) auto
      ultimately show ?thesis
        using Some by (simp add: unfold)
    next
      case False
      have "search_by (=) (drop m s) tk = Some (p + k - m)"
      proof (rule search_by_SomeI)
        show "p + k - m \<le> length (drop m s)"
          using search_by_bound [OF Some] assms(3) less.prems(1) False unfolding length_drop by arith
        show "prefix_by (=) tk (drop (p + k - m) (drop m s))"
          using occ False by simp
        show "\<not> prefix_by (=) tk (drop q (drop m s))" if "q < p + k - m" for q
          using search_by_first [OF Some, of "q + m - k"] that less.prems(1) by simp
      qed
      with Some False show ?thesis by (simp add: unfold split: option.split)
    qed
  qed
qed

lemma vfs_loop_here:
  assumes "tk \<noteq> []" and "prefix_by (=) tk (drop k s)"
  shows "vfs_loop s tk False k =
    (case vfs_at s tk k of None \<Rightarrow> vfs_loop s tk False (k + 1) | Some r \<Rightarrow> r)"
proof -
  have "search_by (=) (drop k s) tk = Some 0"
    using assms(2) by (intro search_by_SomeI) simp_all
  then show ?thesis
    by (simp add: vfs_loop.simps [of s tk False k] MOOSStrFind_sensitive [OF assms(1)]
        split: option.split)
qed

section \<open>Reading one field of a parameter string\<close>

text \<open>A field \<open>key=value\<close> between commas, in a string cut into what precedes the field
  (empty, or ending in a comma) and what follows it (empty, or starting with one).\<close>

definition field_before :: "string \<Rightarrow> bool" where
  "field_before pre \<longleftrightarrow> pre = [] \<or> last pre = CHR '',''"

definition field_after :: "string \<Rightarrow> bool" where
  "field_after suf \<longleftrightarrow> suf = [] \<or> hd suf = CHR '',''"

definition key_ok :: "string \<Rightarrow> bool" where
  "key_ok key \<longleftrightarrow> key \<noteq> [] \<and> (\<forall>c \<in> set key. c \<noteq> CHR '','' \<and> c \<noteq> CHR ''='' \<and> \<not> moos_white c)"

lemma find_first_append:
  assumes "p \<le> length a" and "\<forall>c \<in> set (drop p a). \<not> P c"
  shows "find_first P p (a @ b) = map_option (\<lambda>i. length a + i) (find_first P 0 b)"
  using assms by (simp add: find_first_def takeWhile_append Let_def)

lemma find_first_here: "p < length s \<Longrightarrow> P (s ! p) \<Longrightarrow> find_first P p s = Some p"
  by (simp add: find_first_def Cons_nth_drop_Suc [symmetric])

lemma find_last_append:
  assumes "\<forall>c \<in> set b. \<not> P c"
  shows "find_last P (a @ b) = find_last P a"
proof -
  have "takeWhile (\<lambda>c. \<not> P c) (rev b @ rev a) = rev b @ takeWhile (\<lambda>c. \<not> P c) (rev a)"
    using assms by (simp add: takeWhile_append)
  then show ?thesis by (simp add: find_last_def Let_def)
qed

lemma find_last_snoc: "P c \<Longrightarrow> find_last P (a @ [c]) = Some (length a)"
  by (simp add: find_last_def)

lemma vfs_start_field:
  assumes "field_before pre" and "\<forall>c \<in> set u. c \<noteq> CHR '',''" and "take (nPos + 1) s = pre @ u"
  shows "vfs_start s nPos = find_first (\<lambda>c. \<not> blank c) (length pre) s"
proof (cases "pre = []")
  case True
  then show ?thesis
    using assms find_last_append [of u "\<lambda>c. c = CHR '',''" "[]"]
    by (simp add: vfs_start_def find_last_def)
next
  case False
  with assms(1) obtain p where "pre = p @ [CHR '','']"
    by (metis append_butlast_last_id field_before_def)
  then show ?thesis
    using assms find_last_append [of u "\<lambda>c. c = CHR '',''" "p @ [CHR '','']"]
    by (simp add: vfs_start_def find_last_snoc)
qed

text \<open>Inside a field only its first character can be the start of a parameter name.\<close>

lemma vfs_at_inside:
  assumes "field_before pre" and "\<forall>c \<in> set f. c \<noteq> CHR '',''" and "f \<noteq> []" and "\<not> blank (hd f)"
    and "0 < i" and "i < length f"
  shows "vfs_at (pre @ f @ suf) tk (length pre + i) = None"
proof -
  let ?s = "pre @ f @ suf"
  have "take (length pre + i + 1) ?s = pre @ take (i + 1) f"
    using assms(6) by simp
  moreover have "\<forall>c \<in> set (take (i + 1) f). c \<noteq> CHR '',''"
    using assms(2) by (auto dest: in_set_takeD)
  ultimately have "vfs_start ?s (length pre + i) = find_first (\<lambda>c. \<not> blank c) (length pre) ?s"
    using assms(1) by (intro vfs_start_field)
  also have "\<dots> = Some (length pre)"
    using assms(3,4) by (intro find_first_here) (auto simp: nth_append hd_conv_nth)
  finally show ?thesis using assms(5) by (simp add: vfs_at_def)
qed

lemma vfs_value_field:
  assumes "field_after suf" and "\<forall>c \<in> set val. c \<noteq> CHR '',''"
  shows "vfs_value (a @ ''='' @ val @ suf) (length a) = MOOSTrimWhiteSpace val"
proof -
  have "find_first (\<lambda>c. c = CHR '','') (length a) ((a @ ''='' @ val) @ suf) =
      map_option (\<lambda>i. length (a @ ''='' @ val) + i) (find_first (\<lambda>c. c = CHR '','') 0 suf)"
    using assms(2) by (intro find_first_append) auto
  moreover have "find_first (\<lambda>c. c = CHR '','') 0 suf = (if suf = [] then None else Some 0)"
    using assms(1) by (cases suf) (auto simp: field_after_def find_first_def)
  ultimately show ?thesis by (simp add: vfs_value_def)
qed

lemma key_prefix:
  assumes "key_ok key" and "key_ok tk" and "prefix_by (=) tk (key @ ''='' @ rest)"
  shows "length tk \<le> length key"
    and "MOOSTrimWhiteSpace (drop (length tk) key) = [] \<longleftrightarrow> key = tk"
proof -
  have tk: "take (length tk) (key @ ''='' @ rest) = tk"
    using assms(3) by (simp add: prefix_by_eq)
  show le: "length tk \<le> length key"
  proof (rule ccontr)
    assume "\<not> length tk \<le> length key"
    then have "CHR ''='' \<in> set (take (length tk) (key @ ''='' @ rest))"
      by (simp add: take_Cons')
    with tk assms(2) show False by (auto simp: key_ok_def)
  qed
  show "MOOSTrimWhiteSpace (drop (length tk) key) = [] \<longleftrightarrow> key = tk"
  proof
    assume "MOOSTrimWhiteSpace (drop (length tk) key) = []"
    then have "drop (length tk) key = []"
      using assms(1) by (metis in_set_dropD key_ok_def last_in_set trim_Nil_iff)
    with tk le show "key = tk" by simp
  qed (simp add: trim_Nil_iff)
qed

lemma vfs_at_head:
  assumes "field_before pre" and "field_after suf" and "key_ok key" and "\<forall>c \<in> set val. c \<noteq> CHR '',''"
    and "key_ok tk" and "prefix_by (=) tk (key @ ''='' @ val @ suf)"
  shows "vfs_at (pre @ key @ ''='' @ val @ suf) tk (length pre) =
    (if key = tk then Some (Some (MOOSTrimWhiteSpace val)) else None)"
proof -
  let ?s = "pre @ key @ ''='' @ val @ suf"
  obtain c key' where key: "key = c # key'" using assms(3) by (cases key) (auto simp: key_ok_def)
  have c: "c \<noteq> CHR '',''" "\<not> blank c"
    using assms(3) by (auto simp: key key_ok_def moos_white_def)
  have "vfs_start ?s (length pre) = find_first (\<lambda>c. \<not> blank c) (length pre) ?s"
    using c by (intro vfs_start_field [OF assms(1), of "[c]"]) (simp_all add: key)
  also have "\<dots> = Some (length pre)"
    using c by (intro find_first_here) (auto simp: nth_append key)
  finally have start: "vfs_start ?s (length pre) = Some (length pre)" .
  have eq: "find_first (\<lambda>c. c = CHR ''='') (length pre) ?s = Some (length pre + length key)"
    using assms(3) find_first_append [of "length pre" "pre @ key" "\<lambda>c. c = CHR ''=''" "''='' @ val @ suf"]
    by (auto simp: key_ok_def find_first_def)
  have val: "vfs_value ?s (length pre + length key) = MOOSTrimWhiteSpace val"
    using vfs_value_field [OF assms(2,4), of "pre @ key"] by simp
  note kp = key_prefix [OF assms(3,5,6)]
  have "take (length pre + length key - (length pre + length tk)) (drop (length pre + length tk) ?s)
      = drop (length tk) key"
    using kp(1) by simp
  with kp start eq val show ?thesis
    by (cases "key = tk") (simp_all add: vfs_at_def del: append.append_Cons)
qed

text \<open>The loop at the start of a field: it returns the field's value or moves on to the next.\<close>

lemma vfs_loop_field:
  assumes "field_before pre" and "field_after suf" and "key_ok key" and "\<forall>c \<in> set val. c \<noteq> CHR '',''"
    and "key_ok tk"
  defines "f \<equiv> key @ ''='' @ val"
  shows "vfs_loop (pre @ f @ suf) tk False (length pre) =
    (if key = tk then Some (MOOSTrimWhiteSpace val)
     else vfs_loop (pre @ f @ suf) tk False (length pre + length f))"
proof (cases "key = tk")
  case True
  have "prefix_by (=) tk (drop (length pre) (pre @ f @ suf))"
    by (simp add: f_def True)
  with True assms show ?thesis
    using vfs_at_head [of pre suf key val tk]
    by (simp add: vfs_loop_here key_ok_def)
next
  case False
  have f: "f \<noteq> []" "\<not> blank (hd f)" "\<forall>c \<in> set f. c \<noteq> CHR '',''"
    using assms(3,4) by (auto simp: f_def key_ok_def moos_white_def hd_append)
  have "vfs_loop (pre @ f @ suf) tk False (length pre) =
      vfs_loop (pre @ f @ suf) tk False (length pre + length f)"
  proof (rule vfs_loop_skip)
    fix q assume q: "length pre \<le> q" "q < length pre + length f"
      and occ: "prefix_by (=) tk (drop q (pre @ f @ suf))"
    show "vfs_at (pre @ f @ suf) tk q = None"
    proof (cases "q = length pre")
      case True
      with occ False assms show ?thesis
        using vfs_at_head [of pre suf key val tk] by (simp add: f_def)
    next
      case False
      then show ?thesis
        using vfs_at_inside [OF assms(1) f(3,1,2), of "q - length pre"] q by simp
    qed
  qed (use assms(5) in \<open>auto simp: key_ok_def\<close>)
  with False show ?thesis by simp
qed

section \<open>What is written can be read\<close>

text \<open>The parameter string for a list of pairs, as repeated \<open>MOOSAddValToString\<close> builds it.\<close>

definition add_params :: "string \<Rightarrow> (string \<times> string) list \<Rightarrow> string" where
  "add_params s kvs = foldl (\<lambda>s kv. MOOSAddValToString s (fst kv) (snd kv)) s kvs"

definition params_ok :: "(string \<times> string) list \<Rightarrow> bool" where
  "params_ok kvs \<longleftrightarrow> (\<forall>(k, v) \<in> set kvs. key_ok k \<and> (\<forall>c \<in> set v. c \<noteq> CHR '',''))"

lemma MOOSAddValToString_ne: "MOOSAddValToString s k v \<noteq> []"
  by (simp add: MOOSAddValToString_def)

lemma add_params_prefix: "\<exists>r. add_params s kvs = s @ r \<and> (s \<noteq> [] \<longrightarrow> field_after r)"
proof (induction kvs rule: rev_induct)
  case Nil
  then show ?case by (simp add: add_params_def field_after_def)
next
  case (snoc kv kvs)
  then obtain r where "add_params s kvs = s @ r" "s \<noteq> [] \<longrightarrow> field_after r" by blast
  then show ?case
    by (cases r) (auto simp: add_params_def MOOSAddValToString_def field_after_def)
qed

lemma vfs_loop_end: "tk \<noteq> [] \<Longrightarrow> vfs_loop s tk False (length s) = None"
  by (simp add: vfs_loop.simps MOOSStrFind_def)

lemma vfs_loop_params:
  assumes "params_ok kvs" and "key_ok tk"
  shows "vfs_loop (add_params s kvs) tk False (length s) =
    map_option MOOSTrimWhiteSpace (map_of kvs tk)"
  using assms(1)
proof (induction kvs arbitrary: s)
  case Nil
  then show ?case using assms(2) by (simp add: add_params_def vfs_loop_end key_ok_def)
next
  case (Cons kv kvs)
  obtain k v where kv: "kv = (k, v)" by (cases kv)
  let ?pre = "s @ (if s \<noteq> [] then '','' else [])" and ?f = "k @ ''='' @ v"
  let ?s1 = "MOOSAddValToString s k v"
  have s1: "?s1 = ?pre @ ?f" by (simp add: MOOSAddValToString_def)
  obtain r where r: "add_params ?s1 kvs = ?s1 @ r" "field_after r"
    using add_params_prefix [of ?s1 kvs] MOOSAddValToString_ne by blast
  let ?t = "add_params ?s1 kvs"
  have t: "?t = ?pre @ ?f @ r" using r s1 by simp
  have tk: "tk \<noteq> []" "CHR '','' \<notin> set tk" using assms(2) by (auto simp: key_ok_def)
  have skip: "vfs_loop ?t tk False (length s) = vfs_loop ?t tk False (length ?pre)"
  proof (rule vfs_loop_skip)
    fix q assume "length s \<le> q" "q < length ?pre" and occ: "prefix_by (=) tk (drop q ?t)"
    then have "s \<noteq> []" "q = length s" by (auto split: if_splits)
    with occ tk show "vfs_at ?t tk q = None"
      by (cases tk) (auto simp: t)
  qed (use tk t in auto)
  have "vfs_loop ?t tk False (length ?pre) =
      (if k = tk then Some (MOOSTrimWhiteSpace v) else vfs_loop ?t tk False (length ?pre + length ?f))"
    unfolding t using Cons.prems assms(2) r(2)
    by (intro vfs_loop_field) (auto simp: kv params_ok_def field_before_def)
  moreover have "vfs_loop ?t tk False (length ?s1) = map_option MOOSTrimWhiteSpace (map_of kvs tk)"
    using Cons.prems by (intro Cons.IH) (auto simp: params_ok_def)
  moreover have "add_params s (kv # kvs) = ?t"
    by (simp add: add_params_def kv)
  moreover have "length ?s1 = length ?pre + length ?f" by (simp add: s1)
  ultimately show ?case by (simp add: skip kv)
qed

lemma MOOSValFromString_params:
  assumes "params_ok kvs" and "key_ok tk"
  shows "MOOSValFromString (add_params [] kvs) tk False = map_option MOOSTrimWhiteSpace (map_of kvs tk)"
proof -
  have "find_first (\<lambda>c. c = CHR '','') 0 tk = None"
    using assms(2) by (simp add: find_first_0 key_ok_def)
  with vfs_loop_params [OF assms, of "[]"] show ?thesis
    by (simp add: MOOSValFromString_def)
qed

text \<open>what \<open>MOOSAddValToString\<close> writes \<open>MOOSValFromString\<close> reads: from the string built of any
  parameters whose names hold no comma, equals sign or white space and whose values hold no
  comma, a name gives the first value written under it, without the white space around it, and
  nothing if it was never written.\<close>

theorem params_roundtrip:
  assumes "params_ok kvs" and "key_ok tk"
  shows "MOOSValFromString (add_params [] kvs) tk False = map_option MOOSTrimWhiteSpace (map_of kvs tk)"
  using assms by (rule MOOSValFromString_params)

theorem params_roundtrip_witness:
  "MOOSValFromString (add_params [] [(''AppPattern'', ''p*''), (''Interval'', '' 0.5'')]) ''Interval'' False = Some ''0.5''"
proof -
  have "params_ok [(''AppPattern'', ''p*''), (''Interval'', '' 0.5'')]" and "key_ok ''Interval''"
    by code_simp+
  moreover have "MOOSTrimWhiteSpace '' 0.5'' = ''0.5''" by code_simp
  ultimately show ?thesis by (simp add: params_roundtrip)
qed

section \<open>Printed numbers\<close>

definition number_char :: "char \<Rightarrow> bool" where
  "number_char c \<longleftrightarrow> isdigit c \<or> c \<in> {CHR ''.'', CHR ''-'', CHR ''+'', CHR ''e''}"

lemma digits_of_digits: "c \<in> set (digits_of n) \<Longrightarrow> isdigit c"
proof (induction n rule: digits_of.induct)
  case (1 n)
  have d: "isdigit (char_of (48 + k))" if "k < 10" for k :: nat
    using that by (auto simp: isdigit_def of_char_of less_eq_char_def)
  show ?case
    using 1 d [of n] d [of "n mod 10"] by (auto simp: digits_of.simps [of n] split: if_splits)
qed

lemma number_char_simps [simp]:
  "isdigit c \<Longrightarrow> number_char c" "number_char CHR ''.''" "number_char CHR ''-''" "number_char CHR ''e''"
  "number_char CHR ''+''" "number_char CHR ''0''"
  by (simp_all add: number_char_def isdigit_def)

lemma digits_of_ne: "digits_of n \<noteq> []"
  by (simp add: digits_of.simps [of n])

definition number_text :: "string \<Rightarrow> bool" where
  "number_text s \<longleftrightarrow> (\<forall>c \<in> set s. number_char c)"

lemma number_text_simps [simp]:
  "number_text []" "number_text (c # s) \<longleftrightarrow> number_char c \<and> number_text s"
  "number_text (s @ t) \<longleftrightarrow> number_text s \<and> number_text t"
  "number_text (digits_of n)" "number_text (replicate k CHR ''0'')"
  by (auto simp: number_text_def digits_of_digits)

lemma number_text_parts [simp]:
  "number_text s \<Longrightarrow> number_text (take k s)" "number_text s \<Longrightarrow> number_text (drop k s)"
  "number_text s \<Longrightarrow> number_text (tl s)" "number_text s \<Longrightarrow> number_text (strip_zeros s)"
  "number_text s \<Longrightarrow> s \<noteq> [] \<Longrightarrow> number_char (hd s)"
  by (cases s; force simp: number_text_def strip_zeros_def dest: in_set_takeD in_set_dropD set_dropWhileD)+

lemma number_text_show_g: "number_text (show_g x)"
  by (simp add: show_g_def Let_def case_prod_beta digits_of_ne)

text \<open>The first character of a printed number can start a number.\<close>

definition number_start :: "string \<Rightarrow> bool" where
  "number_start s \<longleftrightarrow> s \<noteq> [] \<and> (isdigit (hd s) \<or> hd s = CHR ''-'')"

lemma number_start_simps [simp]:
  "number_start (CHR ''-'' # s)" "number_start (CHR ''0'' # s)" "number_start (digits_of n)"
  "number_start s \<Longrightarrow> number_start (s @ t)" "number_start s \<Longrightarrow> number_start (hd s # t)"
  "number_start s \<Longrightarrow> number_start (take (Suc k) s)"
  using digits_of_ne [of n] digits_of_digits [of "hd (digits_of n)" n]
  by (auto simp: number_start_def isdigit_def)

lemma number_start_show_g: "number_start (show_g x)"
  by (simp add: show_g_def Let_def case_prod_beta)

lemma white_number: "number_char c \<Longrightarrow> \<not> moos_white c" "number_char c \<Longrightarrow> c \<noteq> CHR '',''"
  by (auto simp: number_char_def moos_white_def isdigit_def less_eq_char_def)

lemma trim_show_g: "MOOSTrimWhiteSpace (show_g x) = show_g x"
proof (rule trim_id)
  have "number_char (hd (show_g x))" "number_char (last (show_g x))"
    using number_text_show_g [of x] number_start_show_g [of x]
    by (simp_all add: number_text_def number_start_def)
  then show "show_g x = [] \<or> \<not> moos_white (hd (show_g x)) \<and> \<not> moos_white (last (show_g x))"
    by (simp add: white_number)
qed

lemma starts_show_g: "starts_with (\<lambda>c. isdigit c \<or> c = CHR ''.'' \<or> c = CHR ''-'' \<or> c = CHR ''+'') (show_g x)"
proof -
  obtain c s where c: "show_g x = c # s" "isdigit c \<or> c = CHR ''-''"
    using number_start_show_g [of x] by (cases "show_g x") (auto simp: number_start_def)
  then have "c \<noteq> CHR '' ''" by (auto simp: isdigit_def)
  then have "find_first (\<lambda>c. c \<noteq> CHR '' '') 0 (show_g x) = Some 0"
    by (simp add: c(1) find_first_here)
  then show ?thesis using c by (auto simp: starts_with_def)
qed

end
