(* ===== verification/Moos_Msg.thy ===== *)
theory Moos_Msg
  imports Moos_Params
begin

text \<open>
  \<open>CMOOSMsg\<close> of \<open>Comms/MOOSMsg.h\<close> and \<open>Comms/MOOSMsg.cpp\<close>: the record the database and its
  clients exchange, its constructors, its queries and its equality. The record is polymorphic
  in the type of its \<open>double\<close> fields: \<open>real\<close> where the code computes with them, the 64-bit
  pattern where it only copies bytes (theory \<open>Moos_Wire\<close>). A constructor that reads the clock
  takes the reading as an argument.
\<close>

section \<open>Message and data types\<close>

abbreviation (input) MOOS_NOTIFY :: char where "MOOS_NOTIFY \<equiv> CHR ''N''"
abbreviation (input) MOOS_REGISTER :: char where "MOOS_REGISTER \<equiv> CHR ''R''"
abbreviation (input) MOOS_UNREGISTER :: char where "MOOS_UNREGISTER \<equiv> CHR ''U''"
abbreviation (input) MOOS_WILDCARD_REGISTER :: char where "MOOS_WILDCARD_REGISTER \<equiv> CHR ''*''"
abbreviation (input) MOOS_WILDCARD_UNREGISTER :: char where "MOOS_WILDCARD_UNREGISTER \<equiv> CHR ''/''"
abbreviation (input) MOOS_NOT_SET :: char where "MOOS_NOT_SET \<equiv> CHR ''~''"
abbreviation (input) MOOS_COMMAND :: char where "MOOS_COMMAND \<equiv> CHR ''C''"
abbreviation (input) MOOS_NULL_MSG :: char where "MOOS_NULL_MSG \<equiv> CHR ''.''"
abbreviation (input) MOOS_DATA :: char where "MOOS_DATA \<equiv> CHR ''i''"
abbreviation (input) MOOS_POISON :: char where "MOOS_POISON \<equiv> CHR ''K''"
abbreviation (input) MOOS_WELCOME :: char where "MOOS_WELCOME \<equiv> CHR ''W''"
abbreviation (input) MOOS_SERVER_REQUEST :: char where "MOOS_SERVER_REQUEST \<equiv> CHR ''Q''"
abbreviation (input) MOOS_TIMING :: char where "MOOS_TIMING \<equiv> CHR ''T''"
abbreviation (input) MOOS_TERMINATE_CONNECTION :: char where "MOOS_TERMINATE_CONNECTION \<equiv> CHR ''^''"
abbreviation (input) MOOS_DOUBLE :: char where "MOOS_DOUBLE \<equiv> CHR ''D''"
abbreviation (input) MOOS_STRING :: char where "MOOS_STRING \<equiv> CHR ''S''"
abbreviation (input) MOOS_BINARY_STRING :: char where "MOOS_BINARY_STRING \<equiv> CHR ''B''"

definition MOOS_SERVER_REQUEST_ID :: "32 word" where
  "MOOS_SERVER_REQUEST_ID = - 2"

text \<open>What a client announces when it connects.\<close>

definition MOOS_PROTOCOL_STRING :: string where
  "MOOS_PROTOCOL_STRING = ''ELKS CAN'' @ [CHR 0x27] @ ''T DANCE 2/8/10''"

section \<open>The message record\<close>

record 'd msg =
  m_cMsgType :: char
  m_cDataType :: char
  m_sKey :: string
  m_nID :: "32 word"
  m_dfTime :: 'd
  m_dfVal :: 'd
  m_dfVal2 :: 'd
  m_sVal :: string
  m_sSrc :: string
  m_sSrcAux :: string
  m_sOriginatingCommunity :: string

type_synonym moos_msg = "real msg"

definition new_msg :: moos_msg where
  "new_msg = \<lparr>m_cMsgType = MOOS_NULL_MSG, m_cDataType = MOOS_DOUBLE, m_sKey = [], m_nID = - 1,
     m_dfTime = -1, m_dfVal = -1, m_dfVal2 = -1, m_sVal = [], m_sSrc = [], m_sSrcAux = [],
     m_sOriginatingCommunity = []\<rparr>"

text \<open>The clock \<open>now\<close> stands for \<open>MOOSTime()\<close>, read when \<open>dfTime\<close> is -1.\<close>

definition msg_double :: "char \<Rightarrow> string \<Rightarrow> real \<Rightarrow> real \<Rightarrow> real \<Rightarrow> moos_msg" where
  "msg_double cMsgType sKey dfVal dfTime now =
     new_msg\<lparr>m_cMsgType := cMsgType, m_cDataType := MOOS_DOUBLE, m_sKey := sKey,
       m_dfTime := (if dfTime = -1 then now else dfTime), m_dfVal := dfVal\<rparr>"

definition msg_string :: "char \<Rightarrow> string \<Rightarrow> string \<Rightarrow> real \<Rightarrow> real \<Rightarrow> moos_msg" where
  "msg_string cMsgType sKey sVal dfTime now =
     new_msg\<lparr>m_cMsgType := cMsgType, m_cDataType := MOOS_STRING, m_sKey := sKey,
       m_dfTime := (if dfTime = -1 then now else dfTime), m_sVal := sVal\<rparr>"

definition msg_binary :: "char \<Rightarrow> string \<Rightarrow> string \<Rightarrow> real \<Rightarrow> real \<Rightarrow> moos_msg" where
  "msg_binary cMsgType sKey sData dfTime now =
     new_msg\<lparr>m_cMsgType := cMsgType, m_cDataType := MOOS_BINARY_STRING, m_sKey := sKey,
       m_dfTime := (if dfTime = -1 then now else dfTime), m_sVal := sData\<rparr>"

section \<open>Queries\<close>

definition IsType :: "'d msg \<Rightarrow> char \<Rightarrow> bool" where
  "IsType M cType \<longleftrightarrow> m_cMsgType M = cType"

definition IsDataType :: "'d msg \<Rightarrow> char \<Rightarrow> bool" where
  "IsDataType M cDataType \<longleftrightarrow> m_cDataType M = cDataType"

definition IsDouble :: "'d msg \<Rightarrow> bool" where
  "IsDouble M \<longleftrightarrow> IsDataType M MOOS_DOUBLE"

definition IsString :: "'d msg \<Rightarrow> bool" where
  "IsString M \<longleftrightarrow> IsDataType M MOOS_STRING \<or> IsDataType M MOOS_BINARY_STRING"

definition IsBinary :: "'d msg \<Rightarrow> bool" where
  "IsBinary M \<longleftrightarrow> IsDataType M MOOS_BINARY_STRING"

definition MarkAsBinary :: "'d msg \<Rightarrow> 'd msg" where
  "MarkAsBinary M = M\<lparr>m_cDataType := MOOS_BINARY_STRING\<rparr>"

definition GetBinaryDataSize :: "'d msg \<Rightarrow> nat" where
  "GetBinaryDataSize M = (if \<not> IsBinary M then 0 else length (m_sVal M))"

text \<open>\<open>GetBinaryData(v)\<close>: the new contents of the vector, \<open>None\<close> when it returns false.\<close>

definition GetBinaryData :: "'d msg \<Rightarrow> string option" where
  "GetBinaryData M = (if \<not> IsBinary M then None else Some (m_sVal M))"

definition GetBinaryDataAsVector :: "'d msg \<Rightarrow> string" where
  "GetBinaryDataAsVector M = (case GetBinaryData M of None \<Rightarrow> [] | Some v \<Rightarrow> v)"

definition IsName :: "'d msg \<Rightarrow> string \<Rightarrow> bool" where
  "IsName M sName \<longleftrightarrow> MOOSStrCmp (m_sKey M) sName"

definition IsYoungerThan :: "moos_msg \<Rightarrow> real \<Rightarrow> bool" where
  "IsYoungerThan M dfAge \<longleftrightarrow> dfAge \<le> m_dfTime M"

definition SKEW_TOLERANCE :: real where
  "SKEW_TOLERANCE = 5"

text \<open>\<open>IsSkewed\<close> returns the verdict and the skew it stores through \<open>pdfSkew\<close>.\<close>

definition IsSkewed :: "moos_msg \<Rightarrow> real \<Rightarrow> bool \<times> real" where
  "IsSkewed M dfTimeNow =
     (let dfSkew = \<bar>dfTimeNow - m_dfTime M\<bar> in (SKEW_TOLERANCE < dfSkew, dfSkew))"

text \<open>\<open>setw\<close> with \<open>ios::left\<close>.\<close>

definition pad_left :: "nat \<Rightarrow> string \<Rightarrow> string" where
  "pad_left w s = s @ replicate (w - length s) CHR '' ''"

text \<open>\<open>GetAsString\<close>; \<open>ends\<close> writes a NUL.\<close>

definition GetAsString :: "moos_msg \<Rightarrow> nat \<Rightarrow> nat \<Rightarrow> string" where
  "GetAsString M nFieldWidth nNumDP =
     (if m_dfTime M \<noteq> -1
      then (if IsDataType M MOOS_DOUBLE then pad_left nFieldWidth (show_fixed nNumDP (m_dfVal M))
            else if IsDataType M MOOS_BINARY_STRING
            then ''BINARY DATA ['' @ show_g (real (length (m_sVal M)) / 1000) @ '' kB]''
            else m_sVal M)
      else pad_left nFieldWidth ''NotSet'' @ [CHR 0x00])"

text \<open>\<open>operator==\<close>, with the comparison of \<open>m_sSrc\<close> to the other side's \<open>m_sSrcAux\<close> and no
  comparison of \<open>m_sVal\<close>, as in the source. \<open>epsilon()\<close> of \<open>double\<close> is \<open>2^-52\<close>.\<close>

definition double_epsilon :: real where
  "double_epsilon = 1 / 2 ^ 52"

definition msg_eq :: "moos_msg \<Rightarrow> moos_msg \<Rightarrow> bool" where
  "msg_eq A M \<longleftrightarrow>
     m_cMsgType A = m_cMsgType M \<and>
     m_cDataType A = m_cDataType M \<and>
     m_sKey A = m_sKey M \<and>
     m_sOriginatingCommunity A = m_sOriginatingCommunity M \<and>
     m_sSrcAux A = m_sSrcAux M \<and>
     m_sSrc A = m_sSrcAux M \<and>
     \<bar>m_dfVal A - m_dfVal M\<bar> < 2 * double_epsilon \<and>
     \<bar>m_dfVal2 A - m_dfVal2 M\<bar> < 2 * double_epsilon \<and>
     \<bar>m_dfTime A - m_dfTime M\<bar> < 2 * double_epsilon \<and>
     m_nID A = m_nID M"

text \<open>\<open>operator<\<close>: messages sort by time.\<close>

definition msg_less :: "moos_msg \<Rightarrow> moos_msg \<Rightarrow> bool" where
  "msg_less A M \<longleftrightarrow> m_dfTime A < m_dfTime M"

declare new_msg_def [moos_simps] msg_double_def [moos_simps] msg_string_def [moos_simps]
  IsType_def [moos_simps] IsDataType_def [moos_simps]

section \<open>Equality\<close>

text \<open>\<open>operator==\<close> compares a message's source with the other's auxiliary source, so a message
  equals itself only when the two are the same string.\<close>

theorem msg_eq_self: "msg_eq M M \<longleftrightarrow> m_sSrc M = m_sSrcAux M"
  by (auto simp: msg_eq_def double_epsilon_def)

end
