(* ===== verification/Moos_WildCmp.thy ===== *)
theory Moos_WildCmp
  imports Moos_Strings
begin

text \<open>
  \<open>MOOSWildCmp\<close> of \<open>Utils/MOOSUtilityFunctions.cpp\<close>: the matcher with \<open>*\<close> and \<open>?\<close> behind
  wildcard subscriptions, client filters and wildcard mail queues. The code walks two C
  pointers and backtracks through a saved pair \<open>mp\<close>, \<open>cp\<close>; a pointer into a string is here
  the suffix it points at, with \<open>[]\<close> for the terminating NUL. The second loop has no
  obvious bound, so it is a \<open>partial_function\<close>: \<open>None\<close> is a loop that does not return or the
  dereference of the NULL \<open>mp\<close>. \<open>wild_run_glob\<close> shows that neither happens and that the
  result is the recursive specification \<open>glob\<close>.
\<close>

section \<open>The code\<close>

text \<open>First loop: lock step until the first \<open>*\<close> or the end of the string; \<open>None\<close> is
  \<open>return false\<close>.\<close>

fun wild_lockstep :: "string \<Rightarrow> string \<Rightarrow> (string \<times> string) option" where
  "wild_lockstep sWild [] = Some (sWild, [])"
| "wild_lockstep [] (c # sStr) = None"
| "wild_lockstep (q # sWild) (c # sStr) =
     (if q = CHR ''*'' then Some (q # sWild, c # sStr)
      else if q \<noteq> c \<and> q \<noteq> CHR ''?'' then None
      else wild_lockstep sWild sStr)"

text \<open>Second loop and the final skip over trailing stars. The first argument is the pair
  \<open>mp\<close>, \<open>cp\<close>, absent while both are NULL.\<close>

partial_function (option) wild_scan :: "(string \<times> string) option \<Rightarrow> string \<Rightarrow> string \<Rightarrow> bool option"
  where
  "wild_scan m sWild sStr =
     (case sStr of
        [] \<Rightarrow> Some (dropWhile (\<lambda>c. c = CHR ''*'') sWild = [])
      | c # sStr' \<Rightarrow>
          (case sWild of
             [] \<Rightarrow> (case m of None \<Rightarrow> None
                     | Some (mp, cp) \<Rightarrow> wild_scan (Some (mp, drop 1 cp)) mp cp)
           | q # sWild' \<Rightarrow>
               if q = CHR ''*''
               then (if sWild' = [] then Some True
                     else wild_scan (Some (sWild', sStr')) sWild' sStr)
               else if q = c \<or> q = CHR ''?'' then wild_scan m sWild' sStr'
               else (case m of None \<Rightarrow> None
                     | Some (mp, cp) \<Rightarrow> wild_scan (Some (mp, drop 1 cp)) mp cp)))"

definition wild_run :: "string \<Rightarrow> string \<Rightarrow> bool option" where
  "wild_run sPattern sString =
     (case wild_lockstep (c_str sPattern) (c_str sString) of
        None \<Rightarrow> Some False
      | Some (sWild, sStr) \<Rightarrow> wild_scan None sWild sStr)"

definition MOOSWildCmp :: "string \<Rightarrow> string \<Rightarrow> bool" where
  "MOOSWildCmp sPattern sString \<longleftrightarrow> wild_run sPattern sString = Some True"

section \<open>The specification\<close>

fun glob :: "string \<Rightarrow> string \<Rightarrow> bool" where
  "glob [] s = (s = [])"
| "glob (q # p) [] = (q = CHR ''*'' \<and> glob p [])"
| "glob (q # p) (c # s) =
     (if q = CHR ''*'' then glob p (c # s) \<or> glob (q # p) s
      else (q = CHR ''?'' \<or> q = c) \<and> glob p s)"

lemma glob_Nil: "glob p [] \<longleftrightarrow> dropWhile (\<lambda>c. c = CHR ''*'') p = []"
  by (induction p) auto

lemma glob_star: "glob (CHR ''*'' # p) s \<longleftrightarrow> (\<exists>k \<le> length s. glob p (drop k s))"
proof (induction s)
  case Nil
  then show ?case by simp
next
  case (Cons c s)
  have "(\<exists>k \<le> length (c # s). glob p (drop k (c # s))) \<longleftrightarrow>
      glob p (c # s) \<or> (\<exists>k \<le> length s. glob p (drop k s))"
    by (metis One_nat_def Suc_le_mono drop0 drop_Suc_Cons length_Cons not0_implies_Suc zero_le)
  with Cons show ?case by simp
qed

lemma glob_star_skip: "glob (CHR ''*'' # p) (drop n s) \<Longrightarrow> glob (CHR ''*'' # p) s"
proof (induction n arbitrary: s)
  case (Suc n)
  then show ?case by (cases s) auto
qed simp

lemma glob_literal:
  "CHR ''*'' \<notin> set u \<Longrightarrow> glob (u @ w) s \<Longrightarrow> length u \<le> length s \<and> glob w (drop (length u) s)"
proof (induction u arbitrary: s)
  case (Cons q u)
  then show ?case by (cases s) auto
qed simp

section \<open>The second loop computes the specification\<close>

text \<open>
  While \<open>mp\<close> is set, the pattern left is what remains of \<open>mp\<close> after a star-free part \<open>u\<close>
  that was matched from the character before \<open>cp\<close> on.
\<close>

definition wild_inv :: "string \<Rightarrow> string \<Rightarrow> string \<Rightarrow> string \<Rightarrow> bool" where
  "wild_inv mp cp w s \<longleftrightarrow>
     (\<exists>u x. mp = u @ w \<and> CHR ''*'' \<notin> set u \<and> length u \<le> Suc (length cp)
            \<and> s = drop (length u) (x # cp))"

lemma wild_inv_start: "wild_inv w s w (x # s)"
  by (auto simp: wild_inv_def)

lemma wild_inv_advance:
  assumes "wild_inv mp cp (q # w) (c # s)" and "q \<noteq> CHR ''*''"
  shows "wild_inv mp cp w s"
proof -
  obtain u x where u: "mp = u @ q # w" "CHR ''*'' \<notin> set u" "c # s = drop (length u) (x # cp)"
    using assms(1) by (auto simp: wild_inv_def)
  then have "s = drop (length (u @ [q])) (x # cp)"
    by (metis drop_Suc length_append_singleton list.sel(3) tl_drop)
  moreover have "length u < length (x # cp)"
    using u(3) by (metis drop_eq_Nil leI list.distinct(1))
  ultimately show ?thesis
    using u(1,2) assms(2) unfolding wild_inv_def
    by (intro exI [of _ "u @ [q]"] exI [of _ x]) simp
qed

lemma wild_inv_star_skip:
  assumes "wild_inv mp cp (CHR ''*'' # w) s" and "glob (CHR ''*'' # mp) cp"
  shows "glob (CHR ''*'' # w) s"
proof -
  obtain u x where u: "mp = u @ CHR ''*'' # w" "CHR ''*'' \<notin> set u" "s = drop (length u) (x # cp)"
    using assms(1) by (auto simp: wild_inv_def)
  obtain k where "k \<le> length cp" "glob (u @ CHR ''*'' # w) (drop k cp)"
    using assms(2) u(1) by (auto simp: glob_star [of "u @ CHR ''*'' # w"])
  then have "glob (CHR ''*'' # w) (drop (length u) (drop k cp))"
    using glob_literal [OF u(2)] by blast
  then have "glob (CHR ''*'' # w) (drop (Suc k) s)"
    by (simp add: u(3) add.commute flip: drop_drop del: glob.simps)
       (simp add: drop_drop add.commute)
  then show ?thesis by (rule glob_star_skip)
qed

lemma wild_inv_end:
  assumes "wild_inv mp cp w []"
  shows "\<not> glob (CHR ''*'' # mp) cp"
proof
  assume g: "glob (CHR ''*'' # mp) cp"
  obtain u x where u: "mp = u @ w" "CHR ''*'' \<notin> set u" "length cp < length u"
    using assms by (auto simp: wild_inv_def)
  obtain k where "glob (u @ w) (drop k cp)"
    using g u(1) by (auto simp: glob_star [of "u @ w"])
  then have "length u \<le> length (drop k cp)"
    using glob_literal [OF u(2)] by blast
  with u(3) show False by simp
qed

lemma wild_scan_back:
  assumes "wild_inv mp cp w (c # s)" and no: "\<not> glob w (c # s)"
    and IH: "\<And>x cp'. cp = x # cp' \<Longrightarrow>
      wild_scan (Some (mp, cp')) mp cp = Some (glob mp cp \<or> glob (CHR ''*'' # mp) cp')"
  shows "wild_scan (Some (mp, drop 1 cp)) mp cp = Some (glob w (c # s) \<or> glob (CHR ''*'' # mp) cp)"
proof (cases cp)
  case Nil
  with no show ?thesis by (subst wild_scan.simps) (simp add: glob_Nil)
next
  case (Cons x cp')
  from IH [OF Cons] Cons no show ?thesis by simp
qed

lemma wild_scan_glob:
  "wild_inv mp cp w s \<Longrightarrow> wild_scan (Some (mp, cp)) w s = Some (glob w s \<or> glob (CHR ''*'' # mp) cp)"
proof (induction "(length mp, length cp, length s)" arbitrary: mp cp w s
    rule: wf_induct_rule [OF wf_lex_prod [OF wf_less_than wf_lex_prod [OF wf_less_than wf_less_than]]])
  case (1 mp cp s w)
  note IH = "1.hyps" and inv = "1.prems"
  show ?case
  proof (cases s)
    case Nil
    with inv wild_inv_end show ?thesis
      by (subst wild_scan.simps) (auto simp: glob_Nil)
  next
    case s: (Cons c s')
    have bt: "\<not> glob w s \<Longrightarrow>
        wild_scan (Some (mp, drop 1 cp)) mp cp = Some (glob w s \<or> glob (CHR ''*'' # mp) cp)"
      using inv unfolding s
      by (intro wild_scan_back) (auto intro!: IH wild_inv_start)
    show ?thesis
    proof (cases w)
      case Nil
      with s bt show ?thesis by (subst wild_scan.simps) simp
    next
      case w: (Cons q w')
      consider (star) "q = CHR ''*''" | (step) "q \<noteq> CHR ''*''" "q = c \<or> q = CHR ''?''"
        | (miss) "q \<noteq> CHR ''*''" "q \<noteq> c" "q \<noteq> CHR ''?''" by blast
      then show ?thesis
      proof cases
        case star
        have len: "length w' < length mp"
          using inv by (auto simp: wild_inv_def w)
        have skip: "glob (CHR ''*'' # mp) cp \<Longrightarrow> glob w s"
          using wild_inv_star_skip [of mp cp w' s] inv star w by simp
        have "wild_scan (Some (w', s')) w' s = Some (glob w' s \<or> glob (CHR ''*'' # w') s')"
          using len wild_inv_start [of w' s' c] by (intro IH) (simp_all add: s)
        with star skip s w show ?thesis
          by (subst wild_scan.simps) (auto simp: glob_star [of "[]"])
      next
        case step
        have "wild_scan (Some (mp, cp)) w' s' = Some (glob w' s' \<or> glob (CHR ''*'' # mp) cp)"
          using wild_inv_advance [of mp cp q w' c s'] inv step s w by (intro IH) simp_all
        with step s w show ?thesis by (subst wild_scan.simps) auto
      next
        case miss
        with s w bt show ?thesis by (subst wild_scan.simps) auto
      qed
    qed
  qed
qed

lemma wild_lockstep_glob:
  "(case wild_lockstep w s of None \<Rightarrow> Some False | Some (w', s') \<Rightarrow> wild_scan None w' s') = Some (glob w s)"
proof (induction w s rule: wild_lockstep.induct)
  case (1 w)
  show ?case by (simp add: wild_scan.simps glob_Nil)
next
  case (2 c s)
  show ?case by simp
next
  case (3 q w c s)
  show ?case
  proof (cases "q = CHR ''*''")
    case True
    have "wild_scan (Some (w, s)) w (c # s) = Some (glob w (c # s) \<or> glob (CHR ''*'' # w) s)"
      by (rule wild_scan_glob [OF wild_inv_start])
    with True show ?thesis
      by (auto simp: wild_scan.simps [of None] glob_star [of "[]"])
  next
    case False
    with 3 show ?thesis by auto
  qed
qed

lemma wild_run_eq: "wild_run p s = Some (glob (c_str p) (c_str s))"
  by (simp add: wild_run_def wild_lockstep_glob)

lemma MOOSWildCmp_glob: "MOOSWildCmp p s \<longleftrightarrow> glob (c_str p) (c_str s)"
  by (simp add: MOOSWildCmp_def wild_run_eq)

lemma MOOSWildCmp_star: "MOOSWildCmp ''*'' s"
  by (auto simp: MOOSWildCmp_glob c_str_id glob_star [of "[]"])

text \<open>the wildcard comparison ends on every input and decides the glob relation: literals
  match themselves, \<open>?\<close> one character, \<open>*\<close> any run of characters.\<close>

theorem wildcmp_total: "wild_run p s = Some (glob (c_str p) (c_str s))"
  by (rule wild_run_eq)

end
