(* ===== verification/Moos_DBVar.thy ===== *)
theory Moos_DBVar
  imports Moos_Msg Moos_WildCmp
begin

text \<open>
  What the database keeps per variable: \<open>CMOOSRegisterInfo\<close> (\<open>DB/MOOSRegisterInfo.cpp\<close>),
  \<open>CMOOSDBVar\<close> (\<open>DB/MOOSDBVar.cpp\<close>) and the wildcard filters \<open>MOOS::MsgFilter\<close>
  (\<open>DB/MsgFilter.cpp\<close>). \<open>m_Subscribers\<close> is an ordered map, \<open>m_Writers\<close> an ordered set. The
  counters are unbounded integers: the \<open>int\<close> of the source holds for fewer than \<open>2^31\<close> writes.
\<close>

section \<open>Subscriptions\<close>

record reg_info =
  r_dfPeriod :: real
  r_sClientName :: string
  r_dfLastTimeSent :: real

definition new_reg_info :: reg_info where
  "new_reg_info = \<lparr>r_dfPeriod = 1/2, r_sClientName = [], r_dfLastTimeSent = 0\<rparr>"

definition Expired :: "reg_info \<Rightarrow> real \<Rightarrow> bool" where
  "Expired r dfTimeNow \<longleftrightarrow> r_dfPeriod r = 0 \<or> r_dfPeriod r \<le> dfTimeNow - r_dfLastTimeSent r"

definition SetLastTimeSent :: "real \<Rightarrow> reg_info \<Rightarrow> reg_info" where
  "SetLastTimeSent dfTimeSent r = r\<lparr>r_dfLastTimeSent := dfTimeSent\<rparr>"

section \<open>Variables\<close>

record db_var =
  v_cDataType :: char
  v_sName :: string
  v_dfTime :: real
  v_dfVal :: real
  v_dfWriteFreq :: real
  v_dfWrittenTime :: real
  v_sVal :: string
  v_sWhoChangedMe :: string
  v_sSrcAux :: string
  v_sOriginatingCommunity :: string
  v_dfLastStatsTime :: real
  v_nLastStatsWrites :: int
  v_nWrittenTo :: int
  v_Subscribers :: "(string, reg_info) omap"
  v_Writers :: "string list"

definition new_var :: "string \<Rightarrow> db_var" where
  "new_var sName =
     \<lparr>v_cDataType = MOOS_NOT_SET, v_sName = sName, v_dfTime = -1, v_dfVal = -1,
      v_dfWriteFreq = 0, v_dfWrittenTime = -1, v_sVal = [], v_sWhoChangedMe = [],
      v_sSrcAux = [], v_sOriginatingCommunity = [], v_dfLastStatsTime = -1,
      v_nLastStatsWrites = 0, v_nWrittenTo = 0, v_Subscribers = [], v_Writers = []\<rparr>"

definition HasSubscriber :: "db_var \<Rightarrow> string \<Rightarrow> bool" where
  "HasSubscriber v sClient \<longleftrightarrow> v_Subscribers v \<noteq> [] \<and> map_of (v_Subscribers v) sClient \<noteq> None"

definition GetUpdatePeriod :: "db_var \<Rightarrow> string \<Rightarrow> real option" where
  "GetUpdatePeriod v sClient =
     (if \<not> HasSubscriber v sClient then None
      else map_option r_dfPeriod (map_of (v_Subscribers v) sClient))"

definition AddSubscriber :: "string \<Rightarrow> real \<Rightarrow> db_var \<Rightarrow> bool \<times> db_var" where
  "AddSubscriber sClient dfPeriod v =
     (if sClient = [] then (False, v)
      else (True, v\<lparr>v_Subscribers := map_set sClient
              (new_reg_info\<lparr>r_sClientName := sClient, r_dfPeriod := dfPeriod\<rparr>) (v_Subscribers v)\<rparr>))"

definition RemoveSubscriber :: "string \<Rightarrow> db_var \<Rightarrow> db_var" where
  "RemoveSubscriber sWho v =
     (if map_of (v_Subscribers v) sWho \<noteq> None
      then v\<lparr>v_Subscribers := map_erase sWho (v_Subscribers v)\<rparr> else v)"

text \<open>\<open>Reset\<close> leaves the data type, the name, the statistics and the subscribers.\<close>

definition Reset :: "db_var \<Rightarrow> db_var" where
  "Reset v = v\<lparr>v_dfTime := -1, v_dfVal := -1, v_sVal := [], v_sWhoChangedMe := [],
     v_Writers := [], v_dfWrittenTime := -1, v_nWrittenTo := 0, v_dfWriteFreq := 0\<rparr>"

section \<open>Wildcard filters\<close>

record msg_filter =
  f_filters :: "string \<times> string"
  f_period :: real

definition new_filter :: "string \<Rightarrow> string \<Rightarrow> real \<Rightarrow> msg_filter" where
  "new_filter A V p = \<lparr>f_filters = (A, V), f_period = p\<rparr>"

definition app_filter :: "msg_filter \<Rightarrow> string" where "app_filter F = fst (f_filters F)"
definition var_filter :: "msg_filter \<Rightarrow> string" where "var_filter F = snd (f_filters F)"

definition filter_as_string :: "msg_filter \<Rightarrow> string" where
  "filter_as_string F = var_filter F @ '':'' @ app_filter F"

definition Matches :: "msg_filter \<Rightarrow> 'd msg \<Rightarrow> bool" where
  "Matches F M \<longleftrightarrow> MOOSWildCmp (app_filter F) (m_sSrc M) \<and> MOOSWildCmp (var_filter F) (m_sKey M)"

definition filter_less :: "msg_filter \<Rightarrow> msg_filter \<Rightarrow> bool" where
  "filter_less F G \<longleftrightarrow> f_filters F < f_filters G"

text \<open>\<open>std::set<MsgFilter>::insert\<close>: ordered by \<open>filter_less\<close>, which ignores the period, so an
  equivalent filter already present is kept and the new one dropped.\<close>

fun filter_insert :: "msg_filter \<Rightarrow> msg_filter list \<Rightarrow> msg_filter list" where
  "filter_insert F [] = [F]"
| "filter_insert F (G # fs) =
     (if filter_less G F then G # filter_insert F fs
      else if filter_less F G then F # G # fs
      else G # fs)"

section \<open>Well-formed variables\<close>

text \<open>A variable knows its own name and each subscription is filed under the name of its
  client, which is not empty.\<close>

definition subs_ok :: "(string, reg_info) omap \<Rightarrow> bool" where
  "subs_ok m \<longleftrightarrow> map_ok m \<and> (\<forall>c r. map_of m c = Some r \<longrightarrow> r_sClientName r = c \<and> c \<noteq> [])"

definition var_ok :: "string \<Rightarrow> db_var \<Rightarrow> bool" where
  "var_ok k v \<longleftrightarrow> v_sName v = k \<and> subs_ok (v_Subscribers v) \<and> set_ok (v_Writers v) \<and> 0 \<le> v_nWrittenTo v"

lemma subs_ok_Nil [simp]: "subs_ok []"
  by (simp add: subs_ok_def)

lemma var_ok_new [simp]: "var_ok k (new_var k)"
  by (simp add: var_ok_def new_var_def)

lemma var_ok_AddSubscriber [simp, intro]: "var_ok k v \<Longrightarrow> var_ok k (snd (AddSubscriber c p v))"
  by (auto simp: var_ok_def AddSubscriber_def subs_ok_def)

lemma var_ok_RemoveSubscriber [simp, intro]: "var_ok k v \<Longrightarrow> var_ok k (RemoveSubscriber c v)"
  by (auto simp: var_ok_def RemoveSubscriber_def subs_ok_def)

lemma var_ok_Reset [simp, intro]: "var_ok k v \<Longrightarrow> var_ok k (Reset v)"
  by (auto simp: var_ok_def Reset_def)

lemma HasSubscriber_iff: "HasSubscriber v c \<longleftrightarrow> map_of (v_Subscribers v) c \<noteq> None"
  by (auto simp: HasSubscriber_def)

lemma HasSubscriber_Add: "HasSubscriber (snd (AddSubscriber c p v)) d \<longleftrightarrow> (c \<noteq> [] \<and> d = c) \<or> HasSubscriber v d"
  by (auto simp: HasSubscriber_iff AddSubscriber_def)

lemma HasSubscriber_Remove: "HasSubscriber (RemoveSubscriber c v) d \<longleftrightarrow> d \<noteq> c \<and> HasSubscriber v d"
  by (auto simp: HasSubscriber_iff RemoveSubscriber_def)

lemma GetUpdatePeriod_Add: "c \<noteq> [] \<Longrightarrow> GetUpdatePeriod (snd (AddSubscriber c p v)) c = Some p"
  by (simp add: GetUpdatePeriod_def HasSubscriber_iff AddSubscriber_def)

text \<open>Fields the subscription operations leave alone.\<close>

lemma AddSubscriber_frame [simp]:
  "v_cDataType (snd (AddSubscriber c p v)) = v_cDataType v"
  "v_sName (snd (AddSubscriber c p v)) = v_sName v"
  "v_nWrittenTo (snd (AddSubscriber c p v)) = v_nWrittenTo v"
  "v_Writers (snd (AddSubscriber c p v)) = v_Writers v"
  "v_dfVal (snd (AddSubscriber c p v)) = v_dfVal v"
  "v_sVal (snd (AddSubscriber c p v)) = v_sVal v"
  by (simp_all add: AddSubscriber_def)

lemma RemoveSubscriber_frame [simp]:
  "v_cDataType (RemoveSubscriber c v) = v_cDataType v"
  "v_sName (RemoveSubscriber c v) = v_sName v"
  "v_nWrittenTo (RemoveSubscriber c v) = v_nWrittenTo v"
  "v_Writers (RemoveSubscriber c v) = v_Writers v"
  by (simp_all add: RemoveSubscriber_def)

lemma filter_less_iff: "\<not> filter_less F G \<Longrightarrow> \<not> filter_less G F \<Longrightarrow> f_filters F = f_filters G"
  by (simp add: filter_less_def)

text \<open>After an insertion some filter with the same patterns is in the set.\<close>

lemma filter_insert_covers: "\<exists>G \<in> set (filter_insert F fs). f_filters G = f_filters F"
proof (induction fs)
  case (Cons G fs)
  then show ?case
    using filter_less_iff [of F G] by (cases "filter_less G F"; cases "filter_less F G") auto
qed simp

lemma set_filter_insert: "set fs \<subseteq> set (filter_insert F fs) \<and> set (filter_insert F fs) \<subseteq> insert F (set fs)"
  by (induction fs) auto

lemma Matches_cong: "f_filters F = f_filters G \<Longrightarrow> Matches F M = Matches G M"
  by (simp add: Matches_def app_filter_def var_filter_def)

end
