(* ===== verification/Moos_DB.thy ===== *)
theory Moos_DB
  imports Moos_DBVar
begin

text \<open>
  The database \<open>CMOOSDB\<close> (\<open>DB/MOOSDB.cpp\<close>, \<open>DB/MOOSDB.h\<close>): its state, one definition per
  handler, composed as the code composes them, with \<open>OnRxPkt\<close>, \<open>OnFetchAllMail\<close>,
  \<open>OnConnect\<close> and \<open>OnDisconnect\<close> as the entries the communications server calls.

  \<^item> The clock is part of the state: \<open>db_clock n\<close> is the \<open>n\<close>-th reading of \<open>MOOSTime()\<close>, and a
    handler that reads the clock several times sees several readings.
  \<^item> What the database asks of its communications server and of the time zone is the argument
    \<open>server_view\<close> of the handlers that ask.
  \<^item> A reference to a variable is a copy that is written back under its key; a message changed
    through a reference is returned.
  \<^item> Console output is left out; the event log is the list of the events handed to the logger.
\<close>

section \<open>State\<close>

record db =
  db_sDBName :: string
  db_sCommunityName :: string
  db_dfStartTime :: real
  db_dfSummaryTime :: real
  db_HeldMailMap :: "(string, moos_msg list) omap"
  db_VarMap :: "(string, db_var) omap"
  db_ClientFilters :: "(string, msg_filter list) omap"
  db_bLogging :: bool
  db_EventLog :: "(string \<times> string \<times> string) list"
  db_clock :: "nat \<Rightarrow> real"
  db_tick :: nat

record server_view =
  sv_ClientNames :: "string list"
  sv_TimingSummary :: "string option"
  sv_TimeToDate :: "real \<Rightarrow> string"

definition MOOSTime :: "db \<Rightarrow> real \<times> db" where
  "MOOSTime s = (db_clock s (db_tick s), s\<lparr>db_tick := Suc (db_tick s)\<rparr>)"

text \<open>\<open>MOOSFormat\<close> of a result that fits the 2048 byte buffer with its NUL.\<close>

definition MOOSFormat :: "string \<Rightarrow> string" where
  "MOOSFormat s = take 2047 (c_str s)"

text \<open>The logger keeps an event only while its thread runs, with the name in upper case.\<close>

definition AddEvent :: "string \<Rightarrow> string \<Rightarrow> string \<Rightarrow> db \<Rightarrow> db" where
  "AddEvent sEvent sClient sDetails s =
     (if db_bLogging s
      then s\<lparr>db_EventLog := db_EventLog s @ [(MOOSToUpper sEvent, sClient, sDetails)]\<rparr> else s)"

definition put_var :: "string \<Rightarrow> db_var \<Rightarrow> db \<Rightarrow> db" where
  "put_var k v s = s\<lparr>db_VarMap := map_set k v (db_VarMap s)\<rparr>"

definition VariableExists :: "string \<Rightarrow> db \<Rightarrow> bool" where
  "VariableExists sVar s \<longleftrightarrow> db_VarMap s \<noteq> [] \<and> map_of (db_VarMap s) sVar \<noteq> None"

section \<open>Variables and mail boxes\<close>

definition GetOrMakeVar :: "moos_msg \<Rightarrow> db \<Rightarrow> db_var \<times> db" where
  "GetOrMakeVar Msg s =
     (case map_of (db_VarMap s) (m_sKey Msg) of
        Some v \<Rightarrow> (v, s)
      | None \<Rightarrow>
          (let NewVar = new_var (m_sKey Msg);
               NewVar = (if m_cMsgType Msg = MOOS_REGISTER then NewVar\<lparr>v_cDataType := MOOS_NOT_SET\<rparr>
                         else if m_cMsgType Msg = MOOS_NOTIFY then NewVar\<lparr>v_cDataType := m_cDataType Msg\<rparr>
                         else NewVar)
           in (NewVar, AddEvent ''create'' (m_sSrc Msg) (m_sKey Msg) (put_var (m_sKey Msg) NewVar s))))"

definition Var2Msg :: "db_var \<Rightarrow> moos_msg \<Rightarrow> moos_msg" where
  "Var2Msg Var Msg =
     (let Msg = Msg\<lparr>m_dfTime := v_dfTime Var, m_cDataType := v_cDataType Var,
            m_sSrc := v_sWhoChangedMe Var, m_sSrcAux := v_sSrcAux Var, m_sKey := v_sName Var,
            m_sOriginatingCommunity := v_sOriginatingCommunity Var\<rparr>
      in if v_cDataType Var = MOOS_DOUBLE then Msg\<lparr>m_dfVal := v_dfVal Var\<rparr>
         else if v_cDataType Var \<in> {MOOS_STRING, MOOS_BINARY_STRING} then Msg\<lparr>m_sVal := v_sVal Var\<rparr>
         else Msg)"

type_synonym mail_map = "(string, moos_msg list) omap"

definition AddMessageToClientBox :: "string \<Rightarrow> moos_msg \<Rightarrow> mail_map \<Rightarrow> mail_map" where
  "AddMessageToClientBox sClient Msg held =
     map_set sClient (map_get [] held sClient @ [Msg]) held"

section \<open>Notification\<close>

text \<open>On the first write of a variable every matching wildcard filter subscribes its owner.\<close>

definition apply_filters :: "moos_msg \<Rightarrow> (string, msg_filter list) omap \<Rightarrow> db_var \<Rightarrow> db_var" where
  "apply_filters Msg filters v =
     fold (\<lambda>(client, fs). fold (\<lambda>h v. if Matches h Msg then snd (AddSubscriber client (f_period h) v) else v) fs)
       filters v"

text \<open>The write itself; \<open>Msg\<close> already carries its community. \<open>dfAlpha\<close> is 0.5, and no write
  since the last statistics makes \<open>df\<close> infinite and its term 0.\<close>

definition write_var :: "moos_msg \<Rightarrow> real \<Rightarrow> db_var \<Rightarrow> db_var" where
  "write_var Msg dfTimeNow v =
     (let v = v\<lparr>v_dfWrittenTime := dfTimeNow, v_dfTime := m_dfTime Msg, v_sWhoChangedMe := m_sSrc Msg,
            v_sSrcAux := m_sSrcAux Msg, v_sOriginatingCommunity := m_sOriginatingCommunity Msg\<rparr>;
          v = (if v_cDataType v = MOOS_DOUBLE then v\<lparr>v_dfVal := m_dfVal Msg\<rparr>
               else if v_cDataType v \<in> {MOOS_STRING, MOOS_BINARY_STRING} then v\<lparr>v_sVal := m_sVal Msg\<rparr>
               else v);
          v = v\<lparr>v_Writers := set_insert (m_sSrc Msg) (v_Writers v), v_nWrittenTo := v_nWrittenTo v + 1\<rparr>;
          dfDT = dfTimeNow - v_dfLastStatsTime v;
          nWrites = v_nWrittenTo v - v_nLastStatsWrites v
      in if dfDT > 1/2
         then v\<lparr>v_dfWriteFreq :=
                  (if dfDT > 10 then 0
                   else 1/2 * v_dfWriteFreq v
                        + (if nWrites = 0 then 0 else (1 - 1/2) / (dfDT / of_int nWrites))),
                v_nLastStatsWrites := v_nWrittenTo v,
                v_dfLastStatsTime := dfTimeNow\<rparr>
         else v)"

text \<open>The loop over the subscribers: whose period has run out gets the message.\<close>

fun notify_subscribers :: "real \<Rightarrow> moos_msg \<Rightarrow> (string, reg_info) omap \<Rightarrow> mail_map \<Rightarrow>
    (string, reg_info) omap \<times> mail_map" where
  "notify_subscribers dfTimeNow Msg [] held = ([], held)"
| "notify_subscribers dfTimeNow Msg ((k, rInfo) # ps) held =
     (if Expired rInfo dfTimeNow
      then (let (ps', held') =
                  notify_subscribers dfTimeNow Msg ps (AddMessageToClientBox (r_sClientName rInfo) Msg held)
            in ((k, SetLastTimeSent dfTimeNow rInfo) # ps', held'))
      else (let (ps', held') = notify_subscribers dfTimeNow Msg ps held
            in ((k, rInfo) # ps', held')))"

definition set_community :: "string \<Rightarrow> moos_msg \<Rightarrow> moos_msg" where
  "set_community sCommunityName Msg =
     (if m_sOriginatingCommunity Msg = [] then Msg\<lparr>m_sOriginatingCommunity := sCommunityName\<rparr> else Msg)"

definition OnNotify :: "moos_msg \<Rightarrow> db \<Rightarrow> db" where
  "OnNotify Msg s =
     (let (dfTimeNow, s) = MOOSTime s;
          (rVar, s) = GetOrMakeVar Msg s;
          rVar = (if v_nWrittenTo rVar = 0
                  then apply_filters Msg (db_ClientFilters s) (rVar\<lparr>v_cDataType := m_cDataType Msg\<rparr>)
                  else rVar)
      in if v_cDataType rVar = m_cDataType Msg
         then (let Msg = set_community (db_sCommunityName s) Msg;
                   rVar = write_var Msg dfTimeNow rVar;
                   (subs, held) = notify_subscribers dfTimeNow (Msg\<lparr>m_cMsgType := MOOS_NOTIFY\<rparr>)
                                    (v_Subscribers rVar) (db_HeldMailMap s)
               in (put_var (m_sKey Msg) (rVar\<lparr>v_Subscribers := subs\<rparr>) s)\<lparr>db_HeldMailMap := held\<rparr>)
         else put_var (m_sKey Msg) rVar s)"

section \<open>Registration\<close>

text \<open>A subscription to one variable: the branch \<open>MOOS_REGISTER\<close> of \<open>OnRegister\<close>.\<close>

definition RegisterOne :: "moos_msg \<Rightarrow> db \<Rightarrow> bool \<times> db" where
  "RegisterOne Msg s =
     (let bAlreadyThere = VariableExists (m_sKey Msg) s;
          (rVar, s) = GetOrMakeVar Msg s;
          (bAdded, rVar) = AddSubscriber (m_sSrc Msg) (m_dfVal Msg) rVar
      in if \<not> bAdded then (False, put_var (m_sKey Msg) rVar s)
         else case GetUpdatePeriod rVar (m_sSrc Msg) of
             None \<Rightarrow> (False, put_var (m_sKey Msg) rVar s)
           | Some dfActualPeriod \<Rightarrow>
               (let s = AddEvent ''register'' (m_sSrc Msg)
                          (MOOSFormat (c_str (v_sName rVar) @ ''@'' @ show_fixed 1 dfActualPeriod))
                          (put_var (m_sKey Msg) rVar s)
                in if bAlreadyThere \<and> v_nWrittenTo rVar \<noteq> 0
                   then (let ReplyMsg = (Var2Msg rVar new_msg)\<lparr>m_cMsgType := MOOS_NOTIFY\<rparr>;
                             s = s\<lparr>db_HeldMailMap := AddMessageToClientBox (m_sSrc Msg) ReplyMsg (db_HeldMailMap s)\<rparr>;
                             (dfNow, s) = MOOSTime s;
                             subs = map_set (m_sSrc Msg)
                                      (SetLastTimeSent dfNow
                                        (map_get new_reg_info (v_Subscribers rVar) (m_sSrc Msg)))
                                      (v_Subscribers rVar)
                         in (True, put_var (m_sKey Msg) (rVar\<lparr>v_Subscribers := subs\<rparr>) s))
                   else (True, s)))"

text \<open>The pattern parameters of a wildcard message; a missing one is the empty string, or 0.\<close>

definition app_pattern :: "moos_msg \<Rightarrow> string" where
  "app_pattern Msg = (case MOOSValFromString (m_sVal Msg) ''AppPattern'' False of None \<Rightarrow> [] | Some p \<Rightarrow> p)"

definition var_pattern :: "moos_msg \<Rightarrow> string" where
  "var_pattern Msg = (case MOOSValFromString (m_sVal Msg) ''VarPattern'' False of None \<Rightarrow> [] | Some p \<Rightarrow> p)"

definition interval :: "moos_msg \<Rightarrow> real" where
  "interval Msg = (case MOOSValFromString_double (m_sVal Msg) ''Interval'' False of None \<Rightarrow> 0 | Some p \<Rightarrow> p)"

text \<open>The loop over the existing variables. It changes no key of the map, so its keys are those
  at the start; each variable is read when its turn comes.\<close>

definition register_existing :: "msg_filter \<Rightarrow> string \<Rightarrow> string \<Rightarrow> db \<Rightarrow> db" where
  "register_existing F sSrc k s =
     (case map_of (db_VarMap s) k of
        None \<Rightarrow> s
      | Some v \<Rightarrow>
          (let M = Var2Msg v new_msg
           in if Matches F M
              then snd (RegisterOne (M\<lparr>m_cMsgType := MOOS_REGISTER, m_cDataType := MOOS_DOUBLE,
                                       m_dfVal := f_period F, m_sSrc := sSrc\<rparr>) s)
              else s))"

definition OnRegister :: "moos_msg \<Rightarrow> db \<Rightarrow> bool \<times> db" where
  "OnRegister Msg s =
     (if IsType Msg MOOS_REGISTER then RegisterOne Msg s
      else if IsType Msg MOOS_WILDCARD_REGISTER
      then (let F = new_filter (app_pattern Msg) (var_pattern Msg) (interval Msg);
                s = s\<lparr>db_ClientFilters :=
                        map_set (m_sSrc Msg) (filter_insert F (map_get [] (db_ClientFilters s) (m_sSrc Msg)))
                          (db_ClientFilters s)\<rparr>;
                s = AddEvent ''wildcard'' (m_sSrc Msg) (m_sVal Msg) s
            in (True, fold (register_existing F (m_sSrc Msg)) (map fst (db_VarMap s)) s))
      else (True, s))"

text \<open>The branch \<open>MOOS_UNREGISTER\<close> of \<open>OnUnRegister\<close>, then the wildcard branch, which keeps the
  filter that \<open>OnRegister\<close> stored.\<close>

definition UnRegisterOne :: "moos_msg \<Rightarrow> db \<Rightarrow> db" where
  "UnRegisterOne Msg s =
     (if VariableExists (m_sKey Msg) s
      then (let (rVar, s) = GetOrMakeVar Msg s
            in put_var (m_sKey Msg) (RemoveSubscriber (m_sSrc Msg) rVar) s)
      else s)"

definition unregister_existing :: "msg_filter \<Rightarrow> string \<Rightarrow> string \<Rightarrow> db \<Rightarrow> db" where
  "unregister_existing F sSrc k s =
     (case map_of (db_VarMap s) k of
        None \<Rightarrow> s
      | Some v \<Rightarrow>
          (let M = Var2Msg v new_msg
           in if Matches F M
              then UnRegisterOne (M\<lparr>m_cMsgType := MOOS_UNREGISTER, m_cDataType := MOOS_STRING,
                                    m_sSrc := sSrc, m_sKey := k\<rparr>) s
              else s))"

definition OnUnRegister :: "moos_msg \<Rightarrow> db \<Rightarrow> bool \<times> db" where
  "OnUnRegister Msg s =
     (if IsType Msg MOOS_UNREGISTER then (True, UnRegisterOne Msg s)
      else if IsType Msg MOOS_WILDCARD_UNREGISTER
      then (let F = new_filter (app_pattern Msg) (var_pattern Msg) 0
            in (True, fold (unregister_existing F (m_sSrc Msg)) (map fst (db_VarMap s)) s))
      else (True, s))"

end
