(* ===== verification/Moos_DBServer.thy ===== *)
theory Moos_DBServer
  imports Moos_DB
begin

text \<open>
  The rest of \<open>CMOOSDB\<close> (\<open>DB/MOOSDB.cpp\<close>): the variables the database writes itself, the
  server requests, the dispatch of a message and the callbacks the communications server
  makes: \<open>OnRxPkt\<close>, \<open>OnFetchAllMail\<close>, \<open>OnConnect\<close>, \<open>OnDisconnect\<close>. Replies to the calling
  client are the list \<open>MsgListTx\<close>, passed in and out. \<open>new_db\<close> is the constructor.
\<close>

section \<open>The variables the database writes\<close>

text \<open>The message the database posts to itself; the constructor of the message reads the clock.\<close>

definition OwnString :: "string \<Rightarrow> string \<Rightarrow> db \<Rightarrow> moos_msg \<times> db" where
  "OwnString sKey sVal s =
     (let (now, s) = MOOSTime s
      in ((msg_string MOOS_NOTIFY sKey sVal (-1) now)
            \<lparr>m_sOriginatingCommunity := db_sCommunityName s, m_sSrc := db_sDBName s\<rparr>, s))"

definition OwnDouble :: "string \<Rightarrow> real \<Rightarrow> db \<Rightarrow> moos_msg \<times> db" where
  "OwnDouble sKey dfVal s =
     (let (now, s) = MOOSTime s
      in ((msg_double MOOS_NOTIFY sKey dfVal (-1) now)
            \<lparr>m_sOriginatingCommunity := db_sCommunityName s, m_sSrc := db_sDBName s\<rparr>, s))"

definition UpdateDBTimeVars :: "db \<Rightarrow> db" where
  "UpdateDBTimeVars s =
     (let (t, s) = MOOSTime s;
          (DBT, s) = OwnDouble ''DB_TIME'' t s;
          s = OnNotify DBT s;
          (u, s) = MOOSTime s;
          (DBUpT, s) = OwnDouble ''DB_UPTIME'' (u - db_dfStartTime s) s
      in OnNotify DBUpT s)"

definition UpdateDBClientsVar :: "server_view \<Rightarrow> db \<Rightarrow> db" where
  "UpdateDBClientsVar sv s =
     (let (DBC, s) = OwnString ''DB_CLIENTS'' (concat (map (\<lambda>c. c @ '','') (sv_ClientNames sv))) s
      in OnNotify DBC s)"

definition UpdateQoSVar :: "server_view \<Rightarrow> db \<Rightarrow> db" where
  "UpdateQoSVar sv s =
     (let (DBQOS, s) = OwnString ''DB_QOS'' [] s
      in case sv_TimingSummary sv of
           None \<Rightarrow> s
         | Some t \<Rightarrow> OnNotify (DBQOS\<lparr>m_sVal := t\<rparr>) s)"

text \<open>\<open>Sub[c].push_back(v)\<close> on a map of lists.\<close>

definition push_to :: "string \<Rightarrow> string \<Rightarrow> (string, string list) omap \<Rightarrow> (string, string list) omap" where
  "push_to c v m = map_set c (map_get [] m c @ [v]) m"

definition collect_subs :: "(string, db_var) omap \<Rightarrow> (string, string list) omap" where
  "collect_subs vars =
     fold (\<lambda>(_, rVar) m. fold (\<lambda>(_, r) m. push_to (r_sClientName r) (v_sName rVar) m) (v_Subscribers rVar) m)
       vars []"

definition collect_pubs :: "(string, db_var) omap \<Rightarrow> (string, string list) omap" where
  "collect_pubs vars =
     fold (\<lambda>(_, rVar) m. fold (\<lambda>w m. push_to w (v_sName rVar) m) (v_Writers rVar) m) vars []"

definition rw_summary :: "string list \<Rightarrow> (string, db_var) omap \<Rightarrow> string" where
  "rw_summary Clients vars =
     join_with '',''
       (map (\<lambda>q. q @ ''='' @ join_with '':'' (map_get [] (collect_subs vars) q)
              @ ''&'' @ join_with '':'' (map_get [] (collect_pubs vars) q)) Clients)"

definition UpdateReadWriteSummaryVar :: "server_view \<Rightarrow> db \<Rightarrow> db" where
  "UpdateReadWriteSummaryVar sv s =
     (let (DBS, s) = OwnString ''DB_RWSUMMARY'' (rw_summary (sv_ClientNames sv) (db_VarMap s)) s
      in OnNotify DBS s)"

text \<open>One line of \<open>DB_VARSUMMARY\<close>. \<open>std::fixed\<close> and the precision 1 of the frequency are still
  set when the double is printed.\<close>

definition var_value_text :: "db_var \<Rightarrow> string" where
  "var_value_text v =
     (let n = length (v_sVal v)
      in if v_cDataType v = MOOS_DOUBLE then show_fixed 1 (v_dfVal v)
         else if v_cDataType v = MOOS_STRING
         then (if n > 25 then take 22 (v_sVal v) @ ''...'' else v_sVal v)
         else if v_cDataType v = MOOS_BINARY_STRING
         then (if n < 1024 then ''*binary* '' @ pad_left 4 (show_int (int n)) @ '' B''
               else if n < 1024 * 1024 then ''*binary* '' @ show_fixed 3 (real n / 1024) @ '' KB''
               else ''*binary* '' @ show_fixed 3 (real n / (1024 * 1024)) @ '' MB'')
         else [])"

definition var_summary_line :: "(real \<Rightarrow> string) \<Rightarrow> string \<Rightarrow> db_var \<Rightarrow> string" where
  "var_summary_line TimeToDate k v =
     pad_left 20 k @ '' '' @ pad_left 20 (TimeToDate (v_dfWrittenTime v)) @ '' ''
     @ (if v_sWhoChangedMe v = [] then pad_left 20 ''(write pending)'' @ '' ''
        else pad_left 20 (v_sWhoChangedMe v) @ '' '')
     @ pad_left 4 (show_fixed 1 (v_dfWriteFreq v)) @ ''Hz ''
     @ pad_left 2 [v_cDataType v] @ '' '' @ var_value_text v @ [CHR 0x0A]"

definition UpdateSummaryVar :: "server_view \<Rightarrow> db \<Rightarrow> db" where
  "UpdateSummaryVar sv s =
     (let (DBC, s) = OwnString ''DB_VARSUMMARY''
            (concat (map (\<lambda>(k, v). var_summary_line (sv_TimeToDate sv) k v) (db_VarMap s))) s
      in OnNotify DBC s)"

section \<open>Server requests\<close>

text \<open>Every reply is pushed to the front of \<open>MsgTxList\<close>.\<close>

definition process_summary :: "string \<Rightarrow> (string, db_var) omap \<Rightarrow> string" where
  "process_summary sWho vars =
     (let sPublished = ''PUBLISHED='' @
            concat (map (\<lambda>(_, v). if sWho \<in> set (v_Writers v) then '','' @ v_sName v else []) vars);
          sSubscribed = ''SUBSCRIBED='' @
            concat (map (\<lambda>(_, v). if map_of (v_Subscribers v) sWho \<noteq> None
                                  then '','' @ v_sName v else []) vars)
      in sWho @ '':'' @ sSubscribed @ '','' @ sPublished)"

definition process_reply :: "moos_msg \<Rightarrow> string \<Rightarrow> moos_msg list \<times> db \<Rightarrow> moos_msg list \<times> db" where
  "process_reply Msg sWho st =
     (let (tx, s) = st; (now, s) = MOOSTime s
      in (new_msg\<lparr>m_nID := m_nID Msg, m_cMsgType := MOOS_NOTIFY, m_cDataType := MOOS_STRING,
            m_dfTime := now - db_dfStartTime s, m_sSrc := db_sDBName s, m_sKey := ''PROC_SUMMARY'',
            m_sVal := process_summary sWho (db_VarMap s), m_dfVal := -1\<rparr> # tx, s))"

definition OnProcessSummaryRequested ::
    "server_view \<Rightarrow> moos_msg \<Rightarrow> moos_msg list \<Rightarrow> db \<Rightarrow> bool \<times> moos_msg list \<times> db" where
  "OnProcessSummaryRequested sv Msg MsgTxList s =
     (True, fold (process_reply Msg) (sv_ClientNames sv) (MsgTxList, s))"

definition server_all_msg :: "moos_msg \<Rightarrow> real \<Rightarrow> db_var \<Rightarrow> moos_msg" where
  "server_all_msg Msg dfStart v =
     (let dfTime = v_dfWrittenTime v - dfStart
      in new_msg\<lparr>m_nID := m_nID Msg, m_cMsgType := MOOS_NOTIFY, m_cDataType := v_cDataType v,
           m_dfTime := (if dfTime < 0 then -1 else dfTime), m_sSrc := v_sWhoChangedMe v,
           m_sKey := v_sName v, m_sVal := v_sVal v, m_sSrcAux := v_sSrcAux v, m_dfVal := v_dfVal v,
           m_dfVal2 := v_dfWriteFreq v, m_sOriginatingCommunity := v_sOriginatingCommunity v\<rparr>)"

definition OnServerAllRequested :: "moos_msg \<Rightarrow> moos_msg list \<Rightarrow> db \<Rightarrow> bool \<times> moos_msg list \<times> db" where
  "OnServerAllRequested Msg MsgTxList s =
     (True, fold (\<lambda>(_, v) tx. server_all_msg Msg (db_dfStartTime s) v # tx) (db_VarMap s) MsgTxList, s)"

definition OnVarSummaryRequested :: "moos_msg \<Rightarrow> moos_msg list \<Rightarrow> db \<Rightarrow> bool \<times> moos_msg list \<times> db" where
  "OnVarSummaryRequested Msg MsgTxList s =
     (let (now, s) = MOOSTime s
      in (True, new_msg\<lparr>m_nID := m_nID Msg, m_cMsgType := MOOS_NOTIFY, m_cDataType := MOOS_STRING,
            m_dfTime := now, m_sSrc := db_sDBName s, m_sKey := ''VAR_SUMMARY'',
            m_sVal := join_with '','' (map fst (db_VarMap s)), m_dfVal := -1\<rparr> # MsgTxList, s))"

definition LogStartTime :: "db \<Rightarrow> db" where
  "LogStartTime s = (let (t, s) = MOOSTime s in s\<lparr>db_dfStartTime := t\<rparr>)"

definition OnClearRequested :: "moos_msg list \<Rightarrow> db \<Rightarrow> bool \<times> moos_msg list \<times> db" where
  "OnClearRequested MsgTxList s =
     (let s = s\<lparr>db_VarMap := map_vals (\<lambda>_ v. Reset v) (db_VarMap s),
                db_HeldMailMap := map_vals (\<lambda>_ _. []) (db_HeldMailMap s)\<rparr>
      in (True, MsgTxList, LogStartTime s))"

definition contains :: "string \<Rightarrow> string \<Rightarrow> bool" where
  "contains s t \<longleftrightarrow> search_by (=) s t \<noteq> None"

definition DoServerRequest ::
    "server_view \<Rightarrow> moos_msg \<Rightarrow> moos_msg list \<Rightarrow> db \<Rightarrow> bool \<times> moos_msg list \<times> db" where
  "DoServerRequest sv Msg MsgTxList s =
     (if m_sKey Msg = ''ALL'' then OnServerAllRequested Msg MsgTxList s
      else if contains (m_sKey Msg) ''PROC_SUMMARY'' then OnProcessSummaryRequested sv Msg MsgTxList s
      else if contains (m_sKey Msg) ''VAR_SUMMARY'' then OnVarSummaryRequested Msg MsgTxList s
      else if contains (m_sKey Msg) ''DB_CLEAR'' then OnClearRequested MsgTxList s
      else (False, MsgTxList, s))"

section \<open>Dispatch and callbacks\<close>

definition ProcessMsg :: "server_view \<Rightarrow> moos_msg \<Rightarrow> moos_msg list \<Rightarrow> db \<Rightarrow> bool \<times> moos_msg list \<times> db" where
  "ProcessMsg sv MsgRx MsgListTx s =
     (if m_cMsgType MsgRx = MOOS_NOTIFY then (True, MsgListTx, OnNotify MsgRx s)
      else if m_cMsgType MsgRx \<in> {MOOS_WILDCARD_UNREGISTER, MOOS_UNREGISTER}
      then (let (ok, s) = OnUnRegister MsgRx s in (ok, MsgListTx, s))
      else if m_cMsgType MsgRx \<in> {MOOS_REGISTER, MOOS_WILDCARD_REGISTER}
      then (let (ok, s) = OnRegister MsgRx s in (ok, MsgListTx, s))
      else if m_cMsgType MsgRx = MOOS_SERVER_REQUEST then DoServerRequest sv MsgRx MsgListTx s
      else (True, MsgListTx, s))"

text \<open>The loop of \<open>OnRxPkt\<close>, which ignores what \<open>ProcessMsg\<close> returns.\<close>

definition process_all :: "server_view \<Rightarrow> moos_msg list \<Rightarrow> moos_msg list \<Rightarrow> db \<Rightarrow> moos_msg list \<times> db" where
  "process_all sv MsgListRx MsgListTx s =
     fold (\<lambda>m (tx, s). snd (ProcessMsg sv m tx s)) MsgListRx (MsgListTx, s)"

definition UpdateOwnVars :: "server_view \<Rightarrow> db \<Rightarrow> db" where
  "UpdateOwnVars sv s =
     UpdateReadWriteSummaryVar sv (UpdateQoSVar sv (UpdateSummaryVar sv
       (UpdateDBClientsVar sv (UpdateDBTimeVars s))))"

definition OnRxPkt ::
    "server_view \<Rightarrow> string \<Rightarrow> moos_msg list \<Rightarrow> moos_msg list \<Rightarrow> db \<Rightarrow> bool \<times> moos_msg list \<times> db" where
  "OnRxPkt sv sClient MsgListRx MsgListTx s =
     (let (MsgListTx, s) = process_all sv MsgListRx MsgListTx s;
          (dfNow, s) = MOOSTime s;
          s = (if dfNow - db_dfSummaryTime s > 2
               then UpdateOwnVars sv (s\<lparr>db_dfSummaryTime := dfNow\<rparr>) else s)
      in if MsgListRx \<noteq> []
         then (True, map_get [] (db_HeldMailMap s) sClient @ MsgListTx,
               s\<lparr>db_HeldMailMap := map_set sClient [] (db_HeldMailMap s)\<rparr>)
         else (True, MsgListTx, s))"

definition OnFetchAllMail :: "string \<Rightarrow> moos_msg list \<Rightarrow> db \<Rightarrow> bool \<times> moos_msg list \<times> db" where
  "OnFetchAllMail sWho MsgListTx s =
     (case map_of (db_HeldMailMap s) sWho of
        None \<Rightarrow> (True, MsgListTx, s)
      | Some held \<Rightarrow>
          (if held \<noteq> []
           then (True, held @ MsgListTx, s\<lparr>db_HeldMailMap := map_set sWho [] (db_HeldMailMap s)\<rparr>)
           else (True, MsgListTx, s)))"

definition OnConnect :: "string \<Rightarrow> db \<Rightarrow> bool \<times> db" where
  "OnConnect sClient s =
     (let s = AddEvent ''connect'' sClient ''client connects'' s;
          (DBC, s) = OwnString ''DB_EVENT'' (MOOSFormat (''connected='' @ c_str sClient)) s
      in (True, OnNotify DBC s))"

definition OnDisconnect :: "string \<Rightarrow> db \<Rightarrow> bool \<times> db" where
  "OnDisconnect sClient s =
     (let s = s\<lparr>db_VarMap := map_vals (\<lambda>_ v. RemoveSubscriber sClient v) (db_VarMap s)\<rparr>;
          s = (if map_of (db_ClientFilters s) sClient \<noteq> None
               then s\<lparr>db_ClientFilters := map_set sClient [] (db_ClientFilters s)\<rparr> else s);
          s = s\<lparr>db_HeldMailMap := map_erase sClient (db_HeldMailMap s)\<rparr>;
          s = AddEvent ''disconnect'' sClient ''client disconnects'' s;
          (DBC, s) = OwnString ''DB_EVENT'' (MOOSFormat (''disconnected='' @ c_str sClient)) s
      in (True, OnNotify DBC s))"

section \<open>Construction\<close>

text \<open>\<open>m_dfStartTime\<close> is set by \<open>LogStartTime\<close> when the server runs and holds an arbitrary value
  \<open>dfStart\<close> before.\<close>

definition own_var :: "char \<Rightarrow> real \<Rightarrow> string \<Rightarrow> db \<Rightarrow> db" where
  "own_var cType dfVal sName s =
     (let (t, s) = MOOSTime s
      in put_var sName ((new_var sName)\<lparr>v_cDataType := cType, v_dfVal := dfVal,
           v_sWhoChangedMe := db_sDBName s, v_sOriginatingCommunity := db_sCommunityName s,
           v_dfWrittenTime := t\<rparr>) s)"

definition own_var_now :: "char \<Rightarrow> string \<Rightarrow> db \<Rightarrow> db" where
  "own_var_now cType sName s = (let (t, s) = MOOSTime s in own_var cType t sName s)"

definition new_db :: "(nat \<Rightarrow> real) \<Rightarrow> real \<Rightarrow> bool \<Rightarrow> db" where
  "new_db clock dfStart bLogging =
     (let s = \<lparr>db_sDBName = ''MOOSDB#1'', db_sCommunityName = ''#1'', db_dfStartTime = dfStart,
               db_dfSummaryTime = clock 0, db_HeldMailMap = [], db_VarMap = [],
               db_ClientFilters = [], db_bLogging = bLogging, db_EventLog = [],
               db_clock = clock, db_tick = 1\<rparr>;
          s = own_var_now MOOS_DOUBLE ''DB_TIME'' s;
          s = own_var MOOS_DOUBLE 0 ''DB_UPTIME'' s;
          s = own_var_now MOOS_DOUBLE ''DB_CLIENTS'' s;
          s = own_var_now MOOS_STRING ''DB_EVENT'' s;
          s = own_var_now MOOS_STRING ''DB_VARSUMMARY'' s;
          s = own_var_now MOOS_STRING ''DB_QOS'' s;
          s = own_var_now MOOS_STRING ''DB_RWSUMMARY'' s
      in s)"

end
