(* ===== verification/Moos_DBProps.thy ===== *)
theory Moos_DBProps
  imports Moos_DBServer
begin

text \<open>
  What the handlers of the database do to its state: projections of each handler, the
  well-formedness invariant \<open>db_ok\<close> and its preservation, and the delivery rule. The
  observations are \<open>var_of\<close> (a variable), \<open>box\<close> (the mail held for a client),
  \<open>filters_of\<close> (its wildcard filters) and \<open>sub_of\<close> (its subscription to a variable).
\<close>

section \<open>Observations and well-formedness\<close>

abbreviation var_of :: "db \<Rightarrow> string \<Rightarrow> db_var option" where
  "var_of s k \<equiv> map_of (db_VarMap s) k"

abbreviation box :: "db \<Rightarrow> string \<Rightarrow> moos_msg list" where
  "box s c \<equiv> map_get [] (db_HeldMailMap s) c"

abbreviation filters_of :: "db \<Rightarrow> string \<Rightarrow> msg_filter list" where
  "filters_of s c \<equiv> map_get [] (db_ClientFilters s) c"

definition sub_of :: "db \<Rightarrow> string \<Rightarrow> string \<Rightarrow> reg_info option" where
  "sub_of s c k = (case var_of s k of None \<Rightarrow> None | Some v \<Rightarrow> map_of (v_Subscribers v) c)"

definition now_of :: "db \<Rightarrow> real" where
  "now_of s = db_clock s (db_tick s)"

definition filters_sorted :: "msg_filter list \<Rightarrow> bool" where
  "filters_sorted fs \<longleftrightarrow> sorted_wrt filter_less fs"

definition mail_ok :: "(string, db_var) omap \<Rightarrow> moos_msg \<Rightarrow> bool" where
  "mail_ok vars m \<longleftrightarrow> m_cMsgType m = MOOS_NOTIFY \<and> map_of vars (m_sKey m) \<noteq> None"

definition db_ok :: "db \<Rightarrow> bool" where
  "db_ok s \<longleftrightarrow> map_ok (db_VarMap s) \<and> map_ok (db_HeldMailMap s) \<and> map_ok (db_ClientFilters s)
     \<and> (\<forall>k v. var_of s k = Some v \<longrightarrow> var_ok k v)
     \<and> (\<forall>c. filters_sorted (filters_of s c))
     \<and> (\<forall>c m. m \<in> set (box s c) \<longrightarrow> mail_ok (db_VarMap s) m)
     \<and> box s [] = []"

lemma db_okD:
  assumes "db_ok s"
  shows "map_ok (db_VarMap s)" "map_ok (db_HeldMailMap s)" "map_ok (db_ClientFilters s)"
    "var_of s k = Some v \<Longrightarrow> var_ok k v" "box s [] = []"
    "m \<in> set (box s c) \<Longrightarrow> mail_ok (db_VarMap s) m"
  using assms by (auto simp: db_ok_def)

lemma map_get_set: "map_get d (map_set k v m) k' = (if k' = k then v else map_get d m k')"
  by (simp add: map_get_def)

lemma map_get_erase: "map_get d (map_erase k m) k' = (if k' = k then d else map_get d m k')"
  by (simp add: map_get_def)

lemma map_get_vals: "map_get (f k d) (map_vals f m) k = f k (map_get d m k)"
  by (simp add: map_get_def split: option.split)

lemma map_get_Nil [simp]: "map_get d [] k = d"
  by (simp add: map_get_def)

declare map_get_set [simp] map_get_erase [simp]

lemma fst_map_set_same: "map_ok m \<Longrightarrow> map_of m k \<noteq> None \<Longrightarrow> map fst (map_set k v m) = map fst m"
proof (rule sorted_distinct_set_unique)
  assume "map_ok m" "map_of m k \<noteq> None"
  then show "set (map fst (map_set k v m)) = set (map fst m)"
    by (simp add: fst_set_map_set insert_absorb map_of_None_notin)
qed (use map_ok_set [of m k v] in \<open>auto simp: map_ok_def strict_sorted_iff\<close>)

section \<open>Projections of the small operations\<close>

lemma MOOSTime_eq [simp]:
  "MOOSTime s = (now_of s, s\<lparr>db_tick := Suc (db_tick s)\<rparr>)"
  by (simp add: MOOSTime_def now_of_def)

lemma now_of_upd [simp]:
  "now_of (s\<lparr>db_HeldMailMap := h\<rparr>) = now_of s" "now_of (s\<lparr>db_VarMap := v\<rparr>) = now_of s"
  "now_of (s\<lparr>db_ClientFilters := f\<rparr>) = now_of s" "now_of (s\<lparr>db_dfSummaryTime := x\<rparr>) = now_of s"
  by (simp_all add: now_of_def)

lemma AddEvent_frame [simp]:
  "db_sDBName (AddEvent e c d s) = db_sDBName s"
  "db_sCommunityName (AddEvent e c d s) = db_sCommunityName s"
  "db_dfStartTime (AddEvent e c d s) = db_dfStartTime s"
  "db_dfSummaryTime (AddEvent e c d s) = db_dfSummaryTime s"
  "db_HeldMailMap (AddEvent e c d s) = db_HeldMailMap s"
  "db_VarMap (AddEvent e c d s) = db_VarMap s"
  "db_ClientFilters (AddEvent e c d s) = db_ClientFilters s"
  "db_clock (AddEvent e c d s) = db_clock s"
  "db_tick (AddEvent e c d s) = db_tick s"
  "now_of (AddEvent e c d s) = now_of s"
  by (simp_all add: AddEvent_def now_of_def)

lemma put_var_frame [simp]:
  "db_sDBName (put_var k v s) = db_sDBName s"
  "db_sCommunityName (put_var k v s) = db_sCommunityName s"
  "db_dfStartTime (put_var k v s) = db_dfStartTime s"
  "db_dfSummaryTime (put_var k v s) = db_dfSummaryTime s"
  "db_HeldMailMap (put_var k v s) = db_HeldMailMap s"
  "db_VarMap (put_var k v s) = map_set k v (db_VarMap s)"
  "db_ClientFilters (put_var k v s) = db_ClientFilters s"
  "db_clock (put_var k v s) = db_clock s"
  "db_tick (put_var k v s) = db_tick s"
  "now_of (put_var k v s) = now_of s"
  by (simp_all add: put_var_def now_of_def)

lemma VariableExists_iff: "VariableExists k s \<longleftrightarrow> var_of s k \<noteq> None"
  by (auto simp: VariableExists_def)

text \<open>The variable a message is about: the one in the map, or the one \<open>GetOrMakeVar\<close> makes.\<close>

definition made_var :: "moos_msg \<Rightarrow> db_var" where
  "made_var Msg = (new_var (m_sKey Msg))
     \<lparr>v_cDataType := (if m_cMsgType Msg = MOOS_NOTIFY then m_cDataType Msg else MOOS_NOT_SET)\<rparr>"

definition current_var :: "moos_msg \<Rightarrow> db \<Rightarrow> db_var" where
  "current_var Msg s = (case var_of s (m_sKey Msg) of Some v \<Rightarrow> v | None \<Rightarrow> made_var Msg)"

lemma GetOrMakeVar_fst: "fst (GetOrMakeVar Msg s) = current_var Msg s"
  by (auto simp: GetOrMakeVar_def current_var_def made_var_def new_var_def Let_def split: option.split)

lemma GetOrMakeVar_frame [simp]:
  "db_sDBName (snd (GetOrMakeVar Msg s)) = db_sDBName s"
  "db_sCommunityName (snd (GetOrMakeVar Msg s)) = db_sCommunityName s"
  "db_dfStartTime (snd (GetOrMakeVar Msg s)) = db_dfStartTime s"
  "db_dfSummaryTime (snd (GetOrMakeVar Msg s)) = db_dfSummaryTime s"
  "db_HeldMailMap (snd (GetOrMakeVar Msg s)) = db_HeldMailMap s"
  "db_ClientFilters (snd (GetOrMakeVar Msg s)) = db_ClientFilters s"
  "db_clock (snd (GetOrMakeVar Msg s)) = db_clock s"
  "db_tick (snd (GetOrMakeVar Msg s)) = db_tick s"
  "now_of (snd (GetOrMakeVar Msg s)) = now_of s"
  by (auto simp: GetOrMakeVar_def Let_def split: option.split)

lemma GetOrMakeVar_vars:
  "map_ok (db_VarMap s) \<Longrightarrow>
   db_VarMap (snd (GetOrMakeVar Msg s)) = map_set (m_sKey Msg) (current_var Msg s) (db_VarMap s)"
  by (auto simp: GetOrMakeVar_def current_var_def made_var_def new_var_def Let_def split: option.split)

lemma GetOrMakeVar_eq: "GetOrMakeVar Msg s = (current_var Msg s, snd (GetOrMakeVar Msg s))"
  by (metis GetOrMakeVar_fst prod.collapse)

lemma var_ok_made [simp]: "var_ok (m_sKey Msg) (made_var Msg)"
  by (simp add: made_var_def var_ok_def new_var_def)

lemma var_ok_current: "db_ok s \<Longrightarrow> var_ok (m_sKey Msg) (current_var Msg s)"
  by (auto simp: current_var_def db_ok_def split: option.split)

lemma current_var_tick [simp]: "current_var Msg (s\<lparr>db_tick := n\<rparr>) = current_var Msg s"
  by (simp add: current_var_def)

section \<open>Notification\<close>

subsection \<open>The subscriber loop\<close>

lemma notify_subscribers_subs:
  "fst (notify_subscribers t M ps h)
     = map_vals (\<lambda>_ r. if Expired r t then SetLastTimeSent t r else r) ps"
  by (induction t M ps h rule: notify_subscribers.induct)
    (auto simp: map_vals_def Let_def split: prod.split)

text \<open>Who is due a message: its subscription, if any, has expired.\<close>

definition due :: "real \<Rightarrow> (string, reg_info) omap \<Rightarrow> string \<Rightarrow> bool" where
  "due t ps c \<longleftrightarrow> (case map_of ps c of None \<Rightarrow> False | Some r \<Rightarrow> Expired r t)"

lemma due_Cons: "due t ((k, r) # ps) c \<longleftrightarrow> (if c = k then Expired r t else due t ps c)"
  by (simp add: due_def)

lemma notify_subscribers_ok: "map_ok h \<Longrightarrow> map_ok (snd (notify_subscribers t M ps h))"
  by (induction t M ps h rule: notify_subscribers.induct)
    (auto simp: Let_def AddMessageToClientBox_def split: prod.split)

lemma notify_subscribers_box:
  assumes "distinct (map fst ps)" and "\<forall>(k, r) \<in> set ps. r_sClientName r = k"
  shows "map_get [] (snd (notify_subscribers t M ps h)) c
     = map_get [] h c @ (if due t ps c then [M] else [])"
  using assms
proof (induction t M ps h rule: notify_subscribers.induct)
  case (1 t M h)
  then show ?case by (simp add: due_def)
next
  case (2 t M k r ps h)
  have "map_of ps k = None" using "2.prems"(1) by (simp add: map_of_eq_None_iff)
  then have skip: "c = k \<Longrightarrow> \<not> due t ps c" by (simp add: due_def)
  have name: "r_sClientName r = k" using "2.prems"(2) by simp
  show ?case
  proof (cases "Expired r t")
    case True
    with "2.IH"(1) "2.prems" name have "map_get [] (snd (notify_subscribers t M ps (AddMessageToClientBox k M h))) c
        = map_get [] (AddMessageToClientBox k M h) c @ (if due t ps c then [M] else [])"
      by simp
    with True name skip show ?thesis
      by (simp add: split_beta AddMessageToClientBox_def due_Cons)
  next
    case False
    with "2.IH"(2) "2.prems" have "map_get [] (snd (notify_subscribers t M ps h)) c
        = map_get [] h c @ (if due t ps c then [M] else [])"
      by simp
    with False skip show ?thesis
      by (simp add: split_beta due_Cons)
  qed
qed

lemma subs_ok_names: "subs_ok ps \<Longrightarrow> \<forall>(k, r) \<in> set ps. r_sClientName r = k"
  by (auto simp: subs_ok_def map_ok_in_iff)

lemma subs_ok_box:
  "subs_ok ps \<Longrightarrow> map_get [] (snd (notify_subscribers t M ps h)) c
     = map_get [] h c @ (if due t ps c then [M] else [])"
  by (rule notify_subscribers_box) (simp_all add: subs_ok_names subs_ok_def map_ok_distinct)

lemma subs_ok_notified:
  "subs_ok ps \<Longrightarrow> subs_ok (map_vals (\<lambda>_ r. if Expired r t then SetLastTimeSent t r else r) ps)"
  by (auto simp: subs_ok_def SetLastTimeSent_def split: if_splits)

subsection \<open>Wildcard filters at the first write\<close>

definition filter_sub :: "string \<Rightarrow> msg_filter list \<Rightarrow> moos_msg \<Rightarrow> reg_info option" where
  "filter_sub c fs Msg =
     (case filter (\<lambda>h. Matches h Msg) fs of
        [] \<Rightarrow> None
      | h # hs \<Rightarrow> if c = [] then None
                  else Some (new_reg_info\<lparr>r_sClientName := c, r_dfPeriod := f_period (last (h # hs))\<rparr>))"

abbreviation apply_client :: "moos_msg \<Rightarrow> string \<Rightarrow> msg_filter list \<Rightarrow> db_var \<Rightarrow> db_var" where
  "apply_client Msg client fs \<equiv>
     fold (\<lambda>h v. if Matches h Msg then snd (AddSubscriber client (f_period h) v) else v) fs"

lemma map_of_AddSubscriber [simp]:
  "map_of (v_Subscribers (snd (AddSubscriber c p v))) d =
     (if c \<noteq> [] \<and> d = c then Some (new_reg_info\<lparr>r_sClientName := c, r_dfPeriod := p\<rparr>)
      else map_of (v_Subscribers v) d)"
  by (simp add: AddSubscriber_def)

lemma apply_client_other: "c \<noteq> client \<Longrightarrow>
    map_of (v_Subscribers (apply_client Msg client fs v)) c = map_of (v_Subscribers v) c"
  by (induction fs arbitrary: v) auto

lemma apply_client_same:
  "map_of (v_Subscribers (apply_client Msg c fs v)) c =
     (case filter_sub c fs Msg of None \<Rightarrow> map_of (v_Subscribers v) c | Some r \<Rightarrow> Some r)"
proof (induction fs rule: rev_induct)
  case Nil
  then show ?case by (simp add: filter_sub_def)
next
  case (snoc h fs)
  then show ?case
    by (auto simp: filter_sub_def last_append split: list.splits if_splits option.splits)
qed

lemma apply_client_frame [simp]:
  "v_cDataType (apply_client Msg c fs v) = v_cDataType v"
  "v_sName (apply_client Msg c fs v) = v_sName v"
  "v_nWrittenTo (apply_client Msg c fs v) = v_nWrittenTo v"
  "v_Writers (apply_client Msg c fs v) = v_Writers v"
  by (induction fs arbitrary: v) auto

lemma var_ok_apply_client: "var_ok k v \<Longrightarrow> var_ok k (apply_client Msg c fs v)"
  by (induction fs arbitrary: v) auto

lemma apply_filters_Cons:
  "apply_filters Msg ((c, fs) # m) v = apply_filters Msg m (apply_client Msg c fs v)"
  by (simp add: apply_filters_def)

lemma apply_filters_Nil [simp]: "apply_filters Msg [] v = v"
  by (simp add: apply_filters_def)

lemma apply_filters_frame [simp]:
  "v_cDataType (apply_filters Msg m v) = v_cDataType v"
  "v_sName (apply_filters Msg m v) = v_sName v"
  "v_nWrittenTo (apply_filters Msg m v) = v_nWrittenTo v"
  "v_Writers (apply_filters Msg m v) = v_Writers v"
  by (induction m arbitrary: v) (auto simp: apply_filters_Cons)

lemma var_ok_apply_filters: "var_ok k v \<Longrightarrow> var_ok k (apply_filters Msg m v)"
proof (induction m arbitrary: v)
  case (Cons e m)
  then show ?case by (cases e) (simp add: apply_filters_Cons var_ok_apply_client)
qed simp

lemma apply_filters_sub:
  assumes "map_ok m"
  shows "map_of (v_Subscribers (apply_filters Msg m v)) c =
     (case filter_sub c (map_get [] m c) Msg of None \<Rightarrow> map_of (v_Subscribers v) c | Some r \<Rightarrow> Some r)"
  using assms
proof (induction m arbitrary: v)
  case Nil
  then show ?case by (simp add: filter_sub_def)
next
  case (Cons e m)
  obtain d fs where e: "e = (d, fs)" by fastforce
  have rest: "c = d \<Longrightarrow> map_get [] m c = []"
    using Cons.prems by (auto simp: e map_ok_Cons map_get_def map_of_above split: option.split)
  have "filter_sub c [] Msg = None" by (simp add: filter_sub_def)
  then show ?case
    using Cons rest
    by (cases "c = d")
      (simp_all add: e apply_filters_Cons map_ok_Cons apply_client_other apply_client_same map_get_def
        cong: option.case_cong)
qed

subsection \<open>The handler\<close>

text \<open>The variable as the handler sees it before the write, whether the message is accepted,
  the message that is delivered and the variable afterwards.\<close>

definition first_write :: "moos_msg \<Rightarrow> db \<Rightarrow> bool" where
  "first_write Msg s \<longleftrightarrow> v_nWrittenTo (current_var Msg s) = 0"

definition seen_var :: "moos_msg \<Rightarrow> db \<Rightarrow> db_var" where
  "seen_var Msg s =
     (if first_write Msg s
      then apply_filters Msg (db_ClientFilters s) ((current_var Msg s)\<lparr>v_cDataType := m_cDataType Msg\<rparr>)
      else current_var Msg s)"

definition accepted :: "moos_msg \<Rightarrow> db \<Rightarrow> bool" where
  "accepted Msg s \<longleftrightarrow> first_write Msg s \<or> v_cDataType (current_var Msg s) = m_cDataType Msg"

definition sent_msg :: "moos_msg \<Rightarrow> db \<Rightarrow> moos_msg" where
  "sent_msg Msg s = (set_community (db_sCommunityName s) Msg)\<lparr>m_cMsgType := MOOS_NOTIFY\<rparr>"

definition written_var :: "moos_msg \<Rightarrow> db \<Rightarrow> db_var" where
  "written_var Msg s =
     (write_var (set_community (db_sCommunityName s) Msg) (now_of s) (seen_var Msg s))
       \<lparr>v_Subscribers := map_vals (\<lambda>_ r. if Expired r (now_of s) then SetLastTimeSent (now_of s) r else r)
          (v_Subscribers (seen_var Msg s))\<rparr>"

lemma write_var_frame [simp]:
  "v_Subscribers (write_var M t v) = v_Subscribers v"
  "v_sName (write_var M t v) = v_sName v"
  "v_cDataType (write_var M t v) = v_cDataType v"
  "v_nWrittenTo (write_var M t v) = v_nWrittenTo v + 1"
  "v_Writers (write_var M t v) = set_insert (m_sSrc M) (v_Writers v)"
  "v_dfTime (write_var M t v) = m_dfTime M"
  "v_dfWrittenTime (write_var M t v) = t"
  "v_sWhoChangedMe (write_var M t v) = m_sSrc M"
  "v_sSrcAux (write_var M t v) = m_sSrcAux M"
  "v_sOriginatingCommunity (write_var M t v) = m_sOriginatingCommunity M"
  by (simp_all add: write_var_def Let_def)

lemma write_var_value:
  "v_dfVal (write_var M t v) = (if v_cDataType v = MOOS_DOUBLE then m_dfVal M else v_dfVal v)"
  "v_sVal (write_var M t v) =
     (if v_cDataType v \<in> {MOOS_STRING, MOOS_BINARY_STRING} then m_sVal M else v_sVal v)"
  by (simp_all add: write_var_def Let_def)

lemma set_community_frame [simp]:
  "m_sKey (set_community n M) = m_sKey M" "m_cMsgType (set_community n M) = m_cMsgType M"
  "m_cDataType (set_community n M) = m_cDataType M" "m_sSrc (set_community n M) = m_sSrc M"
  "m_sSrcAux (set_community n M) = m_sSrcAux M" "m_sVal (set_community n M) = m_sVal M"
  "m_dfVal (set_community n M) = m_dfVal M" "m_dfTime (set_community n M) = m_dfTime M"
  by (simp_all add: set_community_def)

lemma seen_var_frame [simp]:
  "v_sName (seen_var Msg s) = v_sName (current_var Msg s)"
  "v_nWrittenTo (seen_var Msg s) = v_nWrittenTo (current_var Msg s)"
  "v_Writers (seen_var Msg s) = v_Writers (current_var Msg s)"
  by (simp_all add: seen_var_def)

lemma accepted_iff: "accepted Msg s \<longleftrightarrow> v_cDataType (seen_var Msg s) = m_cDataType Msg"
  by (simp add: accepted_def seen_var_def)

text \<open>The value the handler computes, field by field.\<close>

lemma OnNotify_alt:
  "OnNotify Msg s =
     (let s1 = snd (GetOrMakeVar Msg (s\<lparr>db_tick := Suc (db_tick s)\<rparr>))
      in if accepted Msg s
         then (put_var (m_sKey Msg) (written_var Msg s) s1)
                \<lparr>db_HeldMailMap := snd (notify_subscribers (now_of s) (sent_msg Msg s)
                    (v_Subscribers (seen_var Msg s)) (db_HeldMailMap s))\<rparr>
         else put_var (m_sKey Msg) (seen_var Msg s) s1)"
proof -
  have eq: "GetOrMakeVar Msg (s\<lparr>db_tick := Suc (db_tick s)\<rparr>)
      = (current_var Msg s, snd (GetOrMakeVar Msg (s\<lparr>db_tick := Suc (db_tick s)\<rparr>)))"
    by (metis GetOrMakeVar_eq current_var_tick)
  show ?thesis
    unfolding OnNotify_def MOOSTime_eq Let_def prod.case
    apply (subst eq)
    by (simp add: accepted_def seen_var_def first_write_def split_beta written_var_def sent_msg_def
        notify_subscribers_subs)
qed

lemma OnNotify_frame [simp]:
  "db_sDBName (OnNotify Msg s) = db_sDBName s"
  "db_sCommunityName (OnNotify Msg s) = db_sCommunityName s"
  "db_dfStartTime (OnNotify Msg s) = db_dfStartTime s"
  "db_dfSummaryTime (OnNotify Msg s) = db_dfSummaryTime s"
  "db_ClientFilters (OnNotify Msg s) = db_ClientFilters s"
  "db_clock (OnNotify Msg s) = db_clock s"
  "db_tick (OnNotify Msg s) = Suc (db_tick s)"
  by (simp_all add: OnNotify_alt Let_def)

lemma OnNotify_vars:
  "map_ok (db_VarMap s) \<Longrightarrow>
   db_VarMap (OnNotify Msg s) =
     map_set (m_sKey Msg) (if accepted Msg s then written_var Msg s else seen_var Msg s) (db_VarMap s)"
  by (simp add: OnNotify_alt Let_def GetOrMakeVar_vars)

lemma OnNotify_held:
  "db_HeldMailMap (OnNotify Msg s) =
     (if accepted Msg s
      then snd (notify_subscribers (now_of s) (sent_msg Msg s) (v_Subscribers (seen_var Msg s)) (db_HeldMailMap s))
      else db_HeldMailMap s)"
  by (simp add: OnNotify_alt Let_def)

lemma var_ok_seen: "db_ok s \<Longrightarrow> var_ok (m_sKey Msg) (seen_var Msg s)"
proof -
  assume "db_ok s"
  then have c: "var_ok (m_sKey Msg) (current_var Msg s)" by (rule var_ok_current)
  then have "var_ok (m_sKey Msg) ((current_var Msg s)\<lparr>v_cDataType := m_cDataType Msg\<rparr>)"
    by (simp add: var_ok_def)
  with c show ?thesis by (simp add: seen_var_def var_ok_apply_filters)
qed

lemma subs_ok_seen: "db_ok s \<Longrightarrow> subs_ok (v_Subscribers (seen_var Msg s))"
  using var_ok_seen by (simp add: var_ok_def)

lemma var_ok_written: "db_ok s \<Longrightarrow> var_ok (m_sKey Msg) (written_var Msg s)"
  using var_ok_seen [of s Msg] by (simp add: written_var_def var_ok_def subs_ok_notified)

definition delivered_to :: "moos_msg \<Rightarrow> db \<Rightarrow> string \<Rightarrow> bool" where
  "delivered_to Msg s c \<longleftrightarrow> accepted Msg s \<and> due (now_of s) (v_Subscribers (seen_var Msg s)) c"

lemma OnNotify_box:
  "db_ok s \<Longrightarrow>
   box (OnNotify Msg s) c = box s c @ (if delivered_to Msg s c then [sent_msg Msg s] else [])"
  by (simp add: OnNotify_held subs_ok_box subs_ok_seen delivered_to_def)

lemma not_delivered_empty: "db_ok s \<Longrightarrow> \<not> delivered_to Msg s []"
  using subs_ok_seen [of s Msg] by (auto simp: delivered_to_def due_def subs_ok_def split: option.split)

section \<open>Preservation of the invariant\<close>

lemma db_ok_cong:
  "db_VarMap s' = db_VarMap s \<Longrightarrow> db_HeldMailMap s' = db_HeldMailMap s \<Longrightarrow>
   db_ClientFilters s' = db_ClientFilters s \<Longrightarrow> db_ok s' = db_ok s"
  by (simp add: db_ok_def)

lemma db_ok_tick [simp]: "db_ok (s\<lparr>db_tick := n\<rparr>) = db_ok s"
  and db_ok_summary [simp]: "db_ok (s\<lparr>db_dfSummaryTime := x\<rparr>) = db_ok s"
  and db_ok_start [simp]: "db_ok (s\<lparr>db_dfStartTime := x\<rparr>) = db_ok s"
  and db_ok_event [simp]: "db_ok (AddEvent e c d s) = db_ok s"
  by (rule db_ok_cong, simp_all)+

lemma mail_ok_map_set: "mail_ok vars m \<Longrightarrow> mail_ok (map_set k v vars) m"
  by (simp add: mail_ok_def)

lemma db_ok_put [simp, intro]: "db_ok s \<Longrightarrow> var_ok k v \<Longrightarrow> db_ok (put_var k v s)"
  by (simp add: db_ok_def mail_ok_map_set)

lemma db_ok_made: "db_ok s \<Longrightarrow> db_ok (snd (GetOrMakeVar Msg s))"
  by (subst db_ok_cong [where s = "put_var (m_sKey Msg) (current_var Msg s) s"])
    (simp_all add: GetOrMakeVar_vars db_okD var_ok_current)

lemma db_ok_OnNotify [simp, intro]:
  assumes "db_ok s"
  shows "db_ok (OnNotify Msg s)"
proof -
  note ok = db_okD [OF assms]
  have "mail_ok (db_VarMap (OnNotify Msg s)) m" if "m \<in> set (box (OnNotify Msg s) c)" for c m
    using that assms ok(6) by (auto simp: OnNotify_box OnNotify_vars ok(1) mail_ok_def sent_msg_def split: if_splits)
  moreover have "box (OnNotify Msg s) [] = []"
    using assms ok(5) by (simp add: OnNotify_box not_delivered_empty)
  moreover have "map_ok (db_HeldMailMap (OnNotify Msg s))"
    using ok(2) by (simp add: OnNotify_held notify_subscribers_ok)
  ultimately show ?thesis
    using assms by (auto simp: db_ok_def OnNotify_vars var_ok_written [OF assms] var_ok_seen [OF assms])
qed

subsection \<open>Registration\<close>

text \<open>Whether the register message is answered at once, and what with.\<close>

definition answered :: "moos_msg \<Rightarrow> db \<Rightarrow> bool" where
  "answered Msg s \<longleftrightarrow> m_sSrc Msg \<noteq> [] \<and>
     (case var_of s (m_sKey Msg) of None \<Rightarrow> False | Some v \<Rightarrow> v_nWrittenTo v \<noteq> 0)"

definition reply_msg :: "db_var \<Rightarrow> moos_msg" where
  "reply_msg v = (Var2Msg v new_msg)\<lparr>m_cMsgType := MOOS_NOTIFY\<rparr>"

definition registration :: "moos_msg \<Rightarrow> db \<Rightarrow> reg_info" where
  "registration Msg s =
     (let r = new_reg_info\<lparr>r_sClientName := m_sSrc Msg, r_dfPeriod := m_dfVal Msg\<rparr>
      in if answered Msg s then SetLastTimeSent (now_of s) r else r)"

definition registered_var :: "moos_msg \<Rightarrow> db \<Rightarrow> db_var" where
  "registered_var Msg s =
     (let v = current_var Msg s
      in if m_sSrc Msg = [] then v
         else v\<lparr>v_Subscribers := map_set (m_sSrc Msg) (registration Msg s) (v_Subscribers v)\<rparr>)"

lemma Var2Msg_frame [simp]:
  "m_sKey (Var2Msg v M) = v_sName v" "m_sSrc (Var2Msg v M) = v_sWhoChangedMe v"
  "m_cDataType (Var2Msg v M) = v_cDataType v" "m_dfTime (Var2Msg v M) = v_dfTime v"
  "m_cMsgType (Var2Msg v M) = m_cMsgType M"
  "m_sOriginatingCommunity (Var2Msg v M) = v_sOriginatingCommunity v"
  by (auto simp: Var2Msg_def Let_def)

lemma Var2Msg_subs [simp]: "Var2Msg (v\<lparr>v_Subscribers := x\<rparr>) M = Var2Msg v M"
  by (simp add: Var2Msg_def Let_def)

lemma answered_current:
  "answered Msg s \<longleftrightarrow> m_sSrc Msg \<noteq> [] \<and> var_of s (m_sKey Msg) \<noteq> None \<and> v_nWrittenTo (current_var Msg s) \<noteq> 0"
  by (auto simp: answered_def current_var_def split: option.split)

lemma RegisterOne_alt:
  assumes "db_ok s"
  shows "RegisterOne Msg s =
     (let s1 = snd (GetOrMakeVar Msg s);
          e = MOOSFormat (c_str (m_sKey Msg) @ ''@'' @ show_fixed 1 (m_dfVal Msg))
      in if m_sSrc Msg = [] then (False, put_var (m_sKey Msg) (registered_var Msg s) s1)
         else if answered Msg s
         then (True, put_var (m_sKey Msg) (registered_var Msg s)
                 ((AddEvent ''register'' (m_sSrc Msg) e
                     (put_var (m_sKey Msg) (snd (AddSubscriber (m_sSrc Msg) (m_dfVal Msg) (current_var Msg s))) s1))
                    \<lparr>db_HeldMailMap := AddMessageToClientBox (m_sSrc Msg) (reply_msg (current_var Msg s)) (db_HeldMailMap s),
                     db_tick := Suc (db_tick s)\<rparr>))
         else (True, AddEvent ''register'' (m_sSrc Msg) e (put_var (m_sKey Msg) (registered_var Msg s) s1)))"
proof -
  let ?c = "current_var Msg s"
  have eq: "GetOrMakeVar Msg s = (?c, snd (GetOrMakeVar Msg s))" by (rule GetOrMakeVar_eq)
  have name: "v_sName ?c = m_sKey Msg" using var_ok_current [OF assms] by (simp add: var_ok_def)
  have sub: "map_ok (v_Subscribers ?c)"
    using var_ok_current [OF assms] by (simp add: var_ok_def subs_ok_def)
  have add: "m_sSrc Msg \<noteq> [] \<Longrightarrow> AddSubscriber (m_sSrc Msg) (m_dfVal Msg) ?c =
      (True, ?c\<lparr>v_Subscribers := map_set (m_sSrc Msg) (new_reg_info\<lparr>r_sClientName := m_sSrc Msg,
         r_dfPeriod := m_dfVal Msg\<rparr>) (v_Subscribers ?c)\<rparr>)"
    by (simp add: AddSubscriber_def)
  have period: "m_sSrc Msg \<noteq> [] \<Longrightarrow>
      GetUpdatePeriod (snd (AddSubscriber (m_sSrc Msg) (m_dfVal Msg) ?c)) (m_sSrc Msg) = Some (m_dfVal Msg)"
    by (rule GetUpdatePeriod_Add)
  show ?thesis
  proof (cases "m_sSrc Msg = []")
    case True
    then show ?thesis
      unfolding RegisterOne_def
      by (subst eq) (simp add: AddSubscriber_def registered_var_def)
  next
    case False
    note exp = period [OF False, unfolded add [OF False] snd_conv]
    from False show ?thesis
      unfolding RegisterOne_def
      apply (subst eq)
      apply (simp add: add exp VariableExists_iff name Let_def)
      apply (auto simp: answered_current registered_var_def registration_def reply_msg_def map_get_def
          sub Let_def)
      done
  qed
qed

lemma RegisterOne_frame [simp]:
  assumes "db_ok s"
  shows "fst (RegisterOne Msg s) \<longleftrightarrow> m_sSrc Msg \<noteq> []"
    "db_sDBName (snd (RegisterOne Msg s)) = db_sDBName s"
    "db_sCommunityName (snd (RegisterOne Msg s)) = db_sCommunityName s"
    "db_dfStartTime (snd (RegisterOne Msg s)) = db_dfStartTime s"
    "db_dfSummaryTime (snd (RegisterOne Msg s)) = db_dfSummaryTime s"
    "db_ClientFilters (snd (RegisterOne Msg s)) = db_ClientFilters s"
    "db_clock (snd (RegisterOne Msg s)) = db_clock s"
  by (simp_all add: RegisterOne_alt [OF assms] Let_def)

lemma RegisterOne_vars:
  "db_ok s \<Longrightarrow>
   db_VarMap (snd (RegisterOne Msg s)) = map_set (m_sKey Msg) (registered_var Msg s) (db_VarMap s)"
  by (simp add: RegisterOne_alt Let_def GetOrMakeVar_vars db_okD(1))

lemma RegisterOne_held:
  "db_ok s \<Longrightarrow>
   db_HeldMailMap (snd (RegisterOne Msg s)) =
     (if answered Msg s
      then AddMessageToClientBox (m_sSrc Msg) (reply_msg (current_var Msg s)) (db_HeldMailMap s)
      else db_HeldMailMap s)"
  by (simp add: RegisterOne_alt Let_def answered_current)

lemma RegisterOne_box:
  "db_ok s \<Longrightarrow>
   box (snd (RegisterOne Msg s)) c =
     box s c @ (if answered Msg s \<and> c = m_sSrc Msg then [reply_msg (current_var Msg s)] else [])"
  by (simp add: RegisterOne_held AddMessageToClientBox_def)

lemma var_ok_registered: "db_ok s \<Longrightarrow> var_ok (m_sKey Msg) (registered_var Msg s)"
  using var_ok_current [of s Msg]
  by (auto simp: registered_var_def var_ok_def subs_ok_def registration_def SetLastTimeSent_def Let_def)

lemma reply_msg_frame [simp]:
  "m_cMsgType (reply_msg v) = MOOS_NOTIFY" "m_sKey (reply_msg v) = v_sName v"
  by (simp_all add: reply_msg_def)

lemma db_ok_RegisterOne [simp, intro]:
  assumes "db_ok s"
  shows "db_ok (snd (RegisterOne Msg s))"
proof -
  let ?s = "snd (RegisterOne Msg s)"
  note ok = db_okD [OF assms]
  have name: "v_sName (current_var Msg s) = m_sKey Msg"
    using var_ok_current [OF assms] by (simp add: var_ok_def)
  have "mail_ok (db_VarMap ?s) m" if "m \<in> set (box ?s c)" for c m
    using that ok(6) [of m c]
    by (auto simp: RegisterOne_box RegisterOne_vars assms mail_ok_def name split: if_splits)
  moreover have "box ?s [] = []"
    using ok(5) by (auto simp: RegisterOne_box assms answered_def)
  moreover have "map_ok (db_HeldMailMap ?s)"
    using ok(2) by (simp add: RegisterOne_held assms AddMessageToClientBox_def)
  ultimately show ?thesis
    using assms by (auto simp: db_ok_def RegisterOne_vars [OF assms] var_ok_registered [OF assms])
qed

lemma filter_insert_sorted: "filters_sorted fs \<Longrightarrow> filters_sorted (filter_insert F fs)"
proof (induction fs)
  case Nil
  then show ?case by (simp add: filters_sorted_def)
next
  case (Cons G fs)
  then show ?case
    using set_filter_insert [of fs F]
    by (auto simp: filters_sorted_def filter_less_def)
qed

definition add_filter :: "msg_filter \<Rightarrow> string \<Rightarrow> db \<Rightarrow> db" where
  "add_filter F c s =
     s\<lparr>db_ClientFilters := map_set c (filter_insert F (filters_of s c)) (db_ClientFilters s)\<rparr>"

lemma db_ok_add_filter [simp]: "db_ok s \<Longrightarrow> db_ok (add_filter F c s)"
  by (simp add: db_ok_def add_filter_def filter_insert_sorted)

lemma db_ok_register_existing [simp]: "db_ok s \<Longrightarrow> db_ok (register_existing F c k s)"
  by (auto simp: register_existing_def Let_def split: option.split)

lemma db_ok_fold:
  "(\<And>x s. db_ok s \<Longrightarrow> db_ok (f x s)) \<Longrightarrow> db_ok s \<Longrightarrow> db_ok (fold f xs s)"
  by (induction xs arbitrary: s) auto

abbreviation msg_filter_of :: "moos_msg \<Rightarrow> msg_filter" where
  "msg_filter_of Msg \<equiv> new_filter (app_pattern Msg) (var_pattern Msg) (interval Msg)"

lemma OnRegister_one: "m_cMsgType Msg = MOOS_REGISTER \<Longrightarrow> OnRegister Msg s = RegisterOne Msg s"
  by (simp add: OnRegister_def IsType_def)

lemma OnRegister_wild:
  "m_cMsgType Msg = MOOS_WILDCARD_REGISTER \<Longrightarrow> OnRegister Msg s =
     (True, fold (register_existing (msg_filter_of Msg) (m_sSrc Msg)) (map fst (db_VarMap s))
        (AddEvent ''wildcard'' (m_sSrc Msg) (m_sVal Msg) (add_filter (msg_filter_of Msg) (m_sSrc Msg) s)))"
  by (simp add: OnRegister_def IsType_def Let_def add_filter_def)

lemma OnRegister_other:
  "m_cMsgType Msg \<noteq> MOOS_REGISTER \<Longrightarrow> m_cMsgType Msg \<noteq> MOOS_WILDCARD_REGISTER \<Longrightarrow> OnRegister Msg s = (True, s)"
  by (simp add: OnRegister_def IsType_def)

lemma db_ok_OnRegister [simp, intro]: "db_ok s \<Longrightarrow> db_ok (snd (OnRegister Msg s))"
  by (cases "m_cMsgType Msg = MOOS_REGISTER"; cases "m_cMsgType Msg = MOOS_WILDCARD_REGISTER")
    (simp_all add: OnRegister_one OnRegister_wild OnRegister_other db_ok_fold)

subsection \<open>Unregistration, clearing and disconnection\<close>

lemma UnRegisterOne_alt:
  "map_ok (db_VarMap s) \<Longrightarrow>
   UnRegisterOne Msg s =
     (case var_of s (m_sKey Msg) of None \<Rightarrow> s
      | Some v \<Rightarrow> put_var (m_sKey Msg) (RemoveSubscriber (m_sSrc Msg) v) s)"
  by (auto simp: UnRegisterOne_def VariableExists_iff GetOrMakeVar_def split: option.split)

lemma map_of_RemoveSubscriber [simp]:
  "map_of (v_Subscribers (RemoveSubscriber c v)) d = (if d = c then None else map_of (v_Subscribers v) d)"
  by (simp add: RemoveSubscriber_def)

lemma UnRegisterOne_sub:
  "db_ok s \<Longrightarrow>
   sub_of (UnRegisterOne Msg s) c k =
     (if c = m_sSrc Msg \<and> k = m_sKey Msg then None else sub_of s c k)"
  by (auto simp: UnRegisterOne_alt db_okD(1) sub_of_def split: option.split)

lemma UnRegisterOne_frame:
  assumes "db_ok s"
  shows "db_HeldMailMap (UnRegisterOne Msg s) = db_HeldMailMap s"
    "db_ClientFilters (UnRegisterOne Msg s) = db_ClientFilters s"
    "map fst (db_VarMap (UnRegisterOne Msg s)) = map fst (db_VarMap s)"
    "db_tick (UnRegisterOne Msg s) = db_tick s"
  using assms
  by (auto simp: UnRegisterOne_alt db_okD(1) fst_map_set_same split: option.split)

lemma db_ok_UnRegisterOne [simp]: "db_ok s \<Longrightarrow> db_ok (UnRegisterOne Msg s)"
  by (auto simp: UnRegisterOne_alt db_okD split: option.split)

lemma db_ok_unregister_existing [simp]: "db_ok s \<Longrightarrow> db_ok (unregister_existing F c k s)"
  by (auto simp: unregister_existing_def Let_def split: option.split)

lemma OnUnRegister_one: "m_cMsgType Msg = MOOS_UNREGISTER \<Longrightarrow> OnUnRegister Msg s = (True, UnRegisterOne Msg s)"
  by (simp add: OnUnRegister_def IsType_def)

lemma OnUnRegister_wild:
  "m_cMsgType Msg = MOOS_WILDCARD_UNREGISTER \<Longrightarrow> OnUnRegister Msg s =
     (True, fold (unregister_existing (new_filter (app_pattern Msg) (var_pattern Msg) 0) (m_sSrc Msg))
        (map fst (db_VarMap s)) s)"
  by (simp add: OnUnRegister_def IsType_def)

lemma OnUnRegister_other:
  "m_cMsgType Msg \<noteq> MOOS_UNREGISTER \<Longrightarrow> m_cMsgType Msg \<noteq> MOOS_WILDCARD_UNREGISTER \<Longrightarrow>
   OnUnRegister Msg s = (True, s)"
  by (simp add: OnUnRegister_def IsType_def)

lemma db_ok_OnUnRegister [simp, intro]: "db_ok s \<Longrightarrow> db_ok (snd (OnUnRegister Msg s))"
  by (cases "m_cMsgType Msg = MOOS_UNREGISTER"; cases "m_cMsgType Msg = MOOS_WILDCARD_UNREGISTER")
    (simp_all add: OnUnRegister_one OnUnRegister_wild OnUnRegister_other db_ok_fold)

lemma mail_ok_map_vals [simp]: "mail_ok (map_vals f vars) m = mail_ok vars m"
  by (simp add: mail_ok_def)

lemma db_ok_vals:
  "db_ok s \<Longrightarrow> (\<And>k v. var_ok k v \<Longrightarrow> var_ok k (f k v)) \<Longrightarrow> db_ok (s\<lparr>db_VarMap := map_vals f (db_VarMap s)\<rparr>)"
  by (auto simp: db_ok_def)

lemma db_ok_erase_box: "db_ok s \<Longrightarrow> db_ok (s\<lparr>db_HeldMailMap := map_erase c (db_HeldMailMap s)\<rparr>)"
  by (auto simp: db_ok_def split: if_splits)

lemma db_ok_empty_box: "db_ok s \<Longrightarrow> db_ok (s\<lparr>db_HeldMailMap := map_set c [] (db_HeldMailMap s)\<rparr>)"
  by (auto simp: db_ok_def split: if_splits)

lemma db_ok_no_filters: "db_ok s \<Longrightarrow> db_ok (s\<lparr>db_ClientFilters := map_set c [] (db_ClientFilters s)\<rparr>)"
  by (auto simp: db_ok_def filters_sorted_def)

lemma box_cleared [simp]: "map_get [] (map_vals (\<lambda>_ _. []) m) c = []"
  by (simp add: map_get_def split: option.split)

lemma db_ok_cleared: "db_ok s \<Longrightarrow> db_ok (s\<lparr>db_HeldMailMap := map_vals (\<lambda>_ _. []) (db_HeldMailMap s)\<rparr>)"
  by (auto simp: db_ok_def)

lemma LogStartTime_eq: "LogStartTime s = s\<lparr>db_tick := Suc (db_tick s), db_dfStartTime := now_of s\<rparr>"
  by (simp add: LogStartTime_def)

end
