(* ===== verification/Moos_DBSteps.thy ===== *)
theory Moos_DBSteps
  imports Moos_DBProps
begin

text \<open>
  The database as a state machine: its steps are the calls the communications server makes.
  The locale \<open>db_invariant\<close> is the contract of a state predicate with the elementary
  updates; inside it the predicate is carried through every handler, request and callback.
  It is interpreted for well-formedness (\<open>db_inv\<close>), for a client that never registered or
  has left (\<open>quiet\<close>) and for the type of a written variable (\<open>typed\<close>).
\<close>

section \<open>Elementary updates\<close>

definition forget :: "string \<Rightarrow> db \<Rightarrow> db" where
  "forget c s =
     s\<lparr>db_VarMap := map_vals (\<lambda>_ v. RemoveSubscriber c v) (db_VarMap s),
       db_ClientFilters := (if map_of (db_ClientFilters s) c \<noteq> None
                            then map_set c [] (db_ClientFilters s) else db_ClientFilters s),
       db_HeldMailMap := map_erase c (db_HeldMailMap s)\<rparr>"

definition cleared :: "db \<Rightarrow> db" where
  "cleared s = s\<lparr>db_VarMap := map_vals (\<lambda>_ v. Reset v) (db_VarMap s),
                 db_HeldMailMap := map_vals (\<lambda>_ _. []) (db_HeldMailMap s)\<rparr>"

definition take_mail :: "string \<Rightarrow> db \<Rightarrow> db" where
  "take_mail c s = s\<lparr>db_HeldMailMap := map_set c [] (db_HeldMailMap s)\<rparr>"

definition own_string :: "string \<Rightarrow> string \<Rightarrow> db \<Rightarrow> moos_msg" where
  "own_string k x s = fst (OwnString k x s)"

definition own_double :: "string \<Rightarrow> real \<Rightarrow> db \<Rightarrow> moos_msg" where
  "own_double k x s = fst (OwnDouble k x s)"

lemma OwnString_eq: "OwnString k x s = (own_string k x s, s\<lparr>db_tick := Suc (db_tick s)\<rparr>)"
  by (simp add: own_string_def OwnString_def)

lemma OwnDouble_eq: "OwnDouble k x s = (own_double k x s, s\<lparr>db_tick := Suc (db_tick s)\<rparr>)"
  by (simp add: own_double_def OwnDouble_def)

lemma own_string_frame [simp]:
  "m_cMsgType (own_string k x s) = MOOS_NOTIFY" "m_sKey (own_string k x s) = k"
  "m_sVal (own_string k x s) = x" "m_sSrc (own_string k x s) = db_sDBName s"
  "m_cDataType (own_string k x s) = MOOS_STRING"
  by (simp_all add: own_string_def OwnString_def msg_string_def new_msg_def)

lemma own_double_frame [simp]:
  "m_cMsgType (own_double k x s) = MOOS_NOTIFY" "m_sKey (own_double k x s) = k"
  "m_dfVal (own_double k x s) = x" "m_sSrc (own_double k x s) = db_sDBName s"
  "m_cDataType (own_double k x s) = MOOS_DOUBLE"
  by (simp_all add: own_double_def OwnDouble_def msg_double_def new_msg_def)

text \<open>The handlers in terms of these.\<close>

lemma OnClearRequested_eq:
  "OnClearRequested tx s =
     (True, tx, (cleared s)\<lparr>db_tick := Suc (db_tick s), db_dfStartTime := now_of s\<rparr>)"
  by (simp add: OnClearRequested_def cleared_def LogStartTime_eq now_of_def)

lemma OnDisconnect_eq:
  "OnDisconnect c s =
     (let s1 = AddEvent ''disconnect'' c ''client disconnects'' (forget c s)
      in (True, OnNotify (own_string ''DB_EVENT'' (MOOSFormat (''disconnected='' @ c_str c)) s1)
                  (s1\<lparr>db_tick := Suc (db_tick s1)\<rparr>)))"
  by (simp add: OnDisconnect_def forget_def OwnString_eq Let_def)

lemma OnConnect_eq:
  "OnConnect c s =
     (let s1 = AddEvent ''connect'' c ''client connects'' s
      in (True, OnNotify (own_string ''DB_EVENT'' (MOOSFormat (''connected='' @ c_str c)) s1)
                  (s1\<lparr>db_tick := Suc (db_tick s1)\<rparr>)))"
  by (simp add: OnConnect_def OwnString_eq Let_def)

lemma OnFetchAllMail_eq:
  "map_ok (db_HeldMailMap s) \<Longrightarrow>
   OnFetchAllMail c tx s =
     (True, box s c @ tx, if map_of (db_HeldMailMap s) c = None then s else take_mail c s)"
  by (auto simp: OnFetchAllMail_def take_mail_def map_get_def split: option.split)

lemma OnRxPkt_eq:
  "OnRxPkt sv c rx tx s =
     (let (tx1, s1) = process_all sv rx tx s;
          s2 = s1\<lparr>db_tick := Suc (db_tick s1)\<rparr>;
          s3 = (if now_of s1 - db_dfSummaryTime s1 > 2
                then UpdateOwnVars sv (s2\<lparr>db_dfSummaryTime := now_of s1\<rparr>) else s2)
      in if rx \<noteq> [] then (True, box s3 c @ tx1, take_mail c s3) else (True, tx1, s3))"
  by (simp add: OnRxPkt_def take_mail_def Let_def split: prod.split)

text \<open>Which request clears the database.\<close>

definition is_clear :: "moos_msg \<Rightarrow> bool" where
  "is_clear Msg \<longleftrightarrow> m_cMsgType Msg = MOOS_SERVER_REQUEST \<and> m_sKey Msg \<noteq> ''ALL''
     \<and> \<not> contains (m_sKey Msg) ''PROC_SUMMARY'' \<and> \<not> contains (m_sKey Msg) ''VAR_SUMMARY''
     \<and> contains (m_sKey Msg) ''DB_CLEAR''"

lemma process_reply_state:
  "\<exists>n. snd (fold (process_reply Msg) ws (tx, s)) = s\<lparr>db_tick := n\<rparr>"
proof (induction ws arbitrary: tx s)
  case Nil
  then show ?case by (auto intro: exI [where x = "db_tick s"])
next
  case (Cons w ws)
  obtain tx' where st: "process_reply Msg w (tx, s) = (tx', s\<lparr>db_tick := Suc (db_tick s)\<rparr>)"
    by (simp add: process_reply_def)
  from Cons.IH [of tx' "s\<lparr>db_tick := Suc (db_tick s)\<rparr>"] show ?case
    by (auto simp: st)
qed

lemma DoServerRequest_state:
  assumes "m_cMsgType Msg = MOOS_SERVER_REQUEST"
  shows "\<exists>n. snd (snd (DoServerRequest sv Msg tx s)) =
     (if is_clear Msg then (cleared s)\<lparr>db_tick := n, db_dfStartTime := now_of s\<rparr> else s\<lparr>db_tick := n\<rparr>)"
proof -
  have same: "\<exists>n. s = s\<lparr>db_tick := n\<rparr>" by (rule exI [where x = "db_tick s"]) simp
  obtain n where n: "snd (fold (process_reply Msg) (sv_ClientNames sv) (tx, s)) = s\<lparr>db_tick := n\<rparr>"
    using process_reply_state by blast
  show ?thesis
    using assms same n
    by (auto simp: DoServerRequest_def is_clear_def OnServerAllRequested_def OnProcessSummaryRequested_def
        OnVarSummaryRequested_def OnClearRequested_eq)
qed

section \<open>Invariants of the handlers\<close>

text \<open>\<open>A\<close> says which sources may change subscriptions, \<open>clears\<close> whether \<open>DB_CLEAR\<close> is
  requested, \<open>D\<close> which clients may disconnect and \<open>E\<close> which may collect mail.\<close>

locale db_invariant =
  fixes P :: "db \<Rightarrow> bool" and A :: "string \<Rightarrow> bool" and clears :: bool and D :: "string \<Rightarrow> bool"
    and E :: "string \<Rightarrow> bool"
  assumes wf: "P s \<Longrightarrow> db_ok s"
    and tick: "P s \<Longrightarrow> P (s\<lparr>db_tick := n\<rparr>)"
    and summary: "P s \<Longrightarrow> P (s\<lparr>db_dfSummaryTime := x\<rparr>)"
    and start: "P s \<Longrightarrow> P (s\<lparr>db_dfStartTime := x\<rparr>)"
    and event: "P s \<Longrightarrow> P (AddEvent e c d s)"
    and notify: "P s \<Longrightarrow> P (OnNotify Msg s)"
    and register: "P s \<Longrightarrow> A (m_sSrc Msg) \<Longrightarrow> P (snd (RegisterOne Msg s))"
    and wildcard: "P s \<Longrightarrow> A c \<Longrightarrow> P (add_filter F c s)"
    and unregister: "P s \<Longrightarrow> A (m_sSrc Msg) \<Longrightarrow> P (UnRegisterOne Msg s)"
    and clear: "P s \<Longrightarrow> clears \<Longrightarrow> P (cleared s)"
    and mail: "P s \<Longrightarrow> E c \<Longrightarrow> P (take_mail c s)"
    and leave: "P s \<Longrightarrow> D c \<Longrightarrow> P (forget c s)"
begin

definition allowed :: "moos_msg \<Rightarrow> bool" where
  "allowed Msg \<longleftrightarrow> A (m_sSrc Msg) \<and> (clears \<or> \<not> is_clear Msg)"

lemma inv_fold: "(\<And>x s. P s \<Longrightarrow> P (f x s)) \<Longrightarrow> P s \<Longrightarrow> P (fold f xs s)"
  by (induction xs arbitrary: s) auto

lemma inv_register_existing: "P s \<Longrightarrow> A c \<Longrightarrow> P (register_existing F c k s)"
  by (simp add: register_existing_def register Let_def split: option.split)

lemma inv_OnRegister:
  assumes "P s" and "A (m_sSrc Msg)"
  shows "P (snd (OnRegister Msg s))"
  using assms
  by (cases "m_cMsgType Msg = MOOS_REGISTER"; cases "m_cMsgType Msg = MOOS_WILDCARD_REGISTER")
    (simp_all add: OnRegister_one OnRegister_wild OnRegister_other register wildcard event
      inv_fold inv_register_existing)

lemma inv_unregister_existing: "P s \<Longrightarrow> A c \<Longrightarrow> P (unregister_existing F c k s)"
  by (simp add: unregister_existing_def unregister Let_def split: option.split)

lemma inv_OnUnRegister:
  assumes "P s" and "A (m_sSrc Msg)"
  shows "P (snd (OnUnRegister Msg s))"
  using assms
  by (cases "m_cMsgType Msg = MOOS_UNREGISTER"; cases "m_cMsgType Msg = MOOS_WILDCARD_UNREGISTER")
    (simp_all add: OnUnRegister_one OnUnRegister_wild OnUnRegister_other unregister
      inv_fold inv_unregister_existing)

lemma inv_request:
  assumes "P s" and "clears \<or> \<not> is_clear Msg" and "m_cMsgType Msg = MOOS_SERVER_REQUEST"
  shows "P (snd (snd (DoServerRequest sv Msg tx s)))"
proof -
  obtain n where "snd (snd (DoServerRequest sv Msg tx s)) =
     (if is_clear Msg then (cleared s)\<lparr>db_tick := n, db_dfStartTime := now_of s\<rparr> else s\<lparr>db_tick := n\<rparr>)"
    using DoServerRequest_state [OF assms(3)] by blast
  with assms show ?thesis by (auto intro: tick start clear)
qed

lemma inv_ProcessMsg: "P s \<Longrightarrow> allowed Msg \<Longrightarrow> P (snd (snd (ProcessMsg sv Msg tx s)))"
  using inv_OnRegister [of s Msg] inv_OnUnRegister [of s Msg] inv_request [of s Msg sv tx]
  by (auto simp: ProcessMsg_def allowed_def notify split_beta)

lemma inv_process_all:
  "P s \<Longrightarrow> \<forall>m \<in> set rx. allowed m \<Longrightarrow> P (snd (process_all sv rx tx s))"
proof (induction rx arbitrary: tx s)
  case Nil
  then show ?case by (simp add: process_all_def)
next
  case (Cons m rx)
  obtain tx' s' where st: "snd (ProcessMsg sv m tx s) = (tx', s')" by fastforce
  then have "P s'" using inv_ProcessMsg [of s m sv tx] Cons.prems by simp
  with Cons show ?case by (simp add: process_all_def st)
qed

lemma inv_own: "P s \<Longrightarrow> P (OnNotify Msg (s\<lparr>db_tick := n\<rparr>))"
  by (intro notify tick)

lemma inv_UpdateOwnVars: "P s \<Longrightarrow> P (UpdateOwnVars sv s)"
  by (simp add: UpdateOwnVars_def UpdateDBTimeVars_def UpdateDBClientsVar_def UpdateSummaryVar_def
      UpdateQoSVar_def UpdateReadWriteSummaryVar_def OwnString_eq OwnDouble_eq inv_own tick Let_def
      split: option.split)

lemma inv_OnRxPkt_processed:
  assumes "P (snd (process_all sv rx tx s))" and "E c"
  shows "P (snd (snd (OnRxPkt sv c rx tx s)))"
proof -
  obtain tx1 s1 where st: "process_all sv rx tx s = (tx1, s1)" by fastforce
  then have "P s1" using assms(1) by simp
  with assms(2) show ?thesis
    by (simp add: OnRxPkt_eq st Let_def mail tick summary inv_UpdateOwnVars)
qed

lemma inv_OnRxPkt:
  "P s \<Longrightarrow> \<forall>m \<in> set rx. allowed m \<Longrightarrow> E c \<Longrightarrow> P (snd (snd (OnRxPkt sv c rx tx s)))"
  by (rule inv_OnRxPkt_processed) (rule inv_process_all)

lemma inv_OnFetchAllMail: "P s \<Longrightarrow> E c \<Longrightarrow> P (snd (snd (OnFetchAllMail c tx s)))"
  by (simp add: OnFetchAllMail_eq wf db_okD(2) mail)

lemma inv_OnConnect: "P s \<Longrightarrow> P (snd (OnConnect c s))"
  by (simp add: OnConnect_eq Let_def inv_own event)

lemma inv_OnDisconnect: "P s \<Longrightarrow> D c \<Longrightarrow> P (snd (OnDisconnect c s))"
  by (simp add: OnDisconnect_eq Let_def inv_own event leave)

end

end
