(* ===== verification/Moos_DBRuns.thy ===== *)
theory Moos_DBRuns
  imports Moos_DBSteps
begin

text \<open>
  Runs of the database: the calls of the communications server as a datatype, their execution,
  the reachable states, and the interpretations of \<open>db_invariant\<close> on the invariants the
  properties need.
\<close>

section \<open>Calls and reachable states\<close>

datatype db_call =
  RxPkt server_view string "moos_msg list" "moos_msg list"
| FetchAllMail string "moos_msg list"
| Connect string
| Disconnect string

fun db_exec :: "db_call \<Rightarrow> db \<Rightarrow> moos_msg list \<times> db" where
  "db_exec (RxPkt sv c rx tx) s = snd (OnRxPkt sv c rx tx s)"
| "db_exec (FetchAllMail c tx) s = snd (OnFetchAllMail c tx s)"
| "db_exec (Connect c) s = ([], snd (OnConnect c s))"
| "db_exec (Disconnect c) s = ([], snd (OnDisconnect c s))"

definition db_run :: "db_call list \<Rightarrow> db \<Rightarrow> db" where
  "db_run calls s = fold (\<lambda>call s. snd (db_exec call s)) calls s"

fun call_msgs :: "db_call \<Rightarrow> moos_msg list" where
  "call_msgs (RxPkt sv c rx tx) = rx"
| "call_msgs _ = []"

fun taker :: "db_call \<Rightarrow> string option" where
  "taker (RxPkt sv c rx tx) = Some c"
| "taker (FetchAllMail c tx) = Some c"
| "taker _ = None"

fun leaver :: "db_call \<Rightarrow> string option" where
  "leaver (Disconnect c) = Some c"
| "leaver _ = None"

text \<open>What \<open>Run\<close> does to the state before it starts the server: the names and the start time.\<close>

definition StartDB :: "string \<Rightarrow> db \<Rightarrow> db" where
  "StartDB sCommunityName s =
     LogStartTime (s\<lparr>db_sCommunityName := sCommunityName, db_sDBName := ''MOOSDB_'' @ sCommunityName\<rparr>)"

inductive db_reach :: "db \<Rightarrow> bool" where
  reach_start: "db_reach (StartDB sCommunityName (new_db clock dfStart bLogging))"
| reach_step: "db_reach s \<Longrightarrow> db_reach (snd (db_exec call s))"

context db_invariant
begin

definition call_allowed :: "db_call \<Rightarrow> bool" where
  "call_allowed call \<longleftrightarrow> (\<forall>m \<in> set (call_msgs call). allowed m)
     \<and> (case leaver call of None \<Rightarrow> True | Some c \<Rightarrow> D c)
     \<and> (case taker call of None \<Rightarrow> True | Some c \<Rightarrow> E c)"

lemma inv_exec: "P s \<Longrightarrow> call_allowed call \<Longrightarrow> P (snd (db_exec call s))"
  by (cases call)
    (simp_all add: call_allowed_def inv_OnRxPkt inv_OnFetchAllMail inv_OnConnect inv_OnDisconnect)

lemma inv_run: "P s \<Longrightarrow> \<forall>call \<in> set calls. call_allowed call \<Longrightarrow> P (db_run calls s)"
  by (induction calls arbitrary: s) (simp_all add: db_run_def inv_exec)

end

section \<open>Well-formedness\<close>

lemma db_ok_forget: "db_ok s \<Longrightarrow> db_ok (forget c s)"
  by (auto simp: db_ok_def forget_def filters_sorted_def split: if_splits)

lemma db_ok_cleared': "db_ok s \<Longrightarrow> db_ok (cleared s)"
  by (auto simp: db_ok_def cleared_def)

lemma db_ok_take_mail: "db_ok s \<Longrightarrow> db_ok (take_mail c s)"
  by (simp add: take_mail_def db_ok_empty_box)

interpretation db_inv: db_invariant db_ok "\<lambda>_. True" True "\<lambda>_. True" "\<lambda>_. True"
  by unfold_locales (simp_all add: db_ok_forget db_ok_cleared' db_ok_take_mail)

lemma db_inv_allowed [simp]: "db_inv.allowed m"
  by (simp add: db_inv.allowed_def)

lemma db_inv_call_allowed [simp]: "db_inv.call_allowed call"
  by (simp add: db_inv.call_allowed_def split: option.split)

lemma db_ok_own_var: "db_ok s \<Longrightarrow> db_ok (own_var t x k s)"
  by (simp add: own_var_def var_ok_def new_var_def)

lemma db_ok_own_var_now: "db_ok s \<Longrightarrow> db_ok (own_var_now t k s)"
  by (simp add: own_var_now_def db_ok_own_var)

lemma db_ok_empty: "db_VarMap s = [] \<Longrightarrow> db_HeldMailMap s = [] \<Longrightarrow> db_ClientFilters s = [] \<Longrightarrow> db_ok s"
  by (simp add: db_ok_def filters_sorted_def)

lemma db_ok_new: "db_ok (new_db clock dfStart bLogging)"
  by (simp add: new_db_def Let_def db_ok_own_var db_ok_own_var_now db_ok_empty)

lemma db_ok_StartDB: "db_ok s \<Longrightarrow> db_ok (StartDB n s)"
  by (simp add: StartDB_def LogStartTime_eq) (simp add: db_ok_def)

section \<open>Clients that do not subscribe\<close>

definition quiet :: "string \<Rightarrow> db \<Rightarrow> bool" where
  "quiet c s \<longleftrightarrow> db_ok s \<and> (\<forall>k. sub_of s c k = None) \<and> filters_of s c = [] \<and> box s c = []"

lemma quiet_current: "quiet c s \<Longrightarrow> map_of (v_Subscribers (current_var Msg s)) c = None"
  by (auto simp: quiet_def sub_of_def current_var_def made_var_def new_var_def split: option.splits)

lemma quiet_seen: "quiet c s \<Longrightarrow> map_of (v_Subscribers (seen_var Msg s)) c = None"
  using quiet_current [of c s Msg]
  by (simp add: seen_var_def apply_filters_sub quiet_def db_okD(3) filter_sub_def)

lemma quiet_cong:
  "quiet c s \<Longrightarrow> db_VarMap s' = db_VarMap s \<Longrightarrow> db_HeldMailMap s' = db_HeldMailMap s \<Longrightarrow>
   db_ClientFilters s' = db_ClientFilters s \<Longrightarrow> quiet c s'"
  by (simp add: quiet_def sub_of_def db_ok_def)

lemma quiet_notify:
  assumes "quiet c s"
  shows "quiet c (OnNotify Msg s)"
proof -
  have ok: "db_ok s" using assms by (simp add: quiet_def)
  have sub: "map_of (v_Subscribers (written_var Msg s)) c = None"
    using quiet_seen [OF assms, of Msg] by (simp add: written_var_def)
  have "\<not> delivered_to Msg s c"
    using quiet_seen [OF assms, of Msg] by (simp add: delivered_to_def due_def)
  then show ?thesis
    using assms ok sub quiet_seen [OF assms, of Msg]
    by (auto simp: quiet_def OnNotify_box sub_of_def OnNotify_vars db_okD(1))
qed

lemma quiet_register:
  assumes "quiet c s" and "m_sSrc Msg \<noteq> c"
  shows "quiet c (snd (RegisterOne Msg s))"
proof -
  have ok: "db_ok s" using assms by (simp add: quiet_def)
  show ?thesis
    using assms ok quiet_current [OF assms(1), of Msg]
    by (auto simp: quiet_def RegisterOne_box sub_of_def RegisterOne_vars registered_var_def Let_def)
qed

lemma quiet_unregister:
  assumes "quiet c s"
  shows "quiet c (UnRegisterOne Msg s)"
proof -
  have ok: "db_ok s" using assms by (simp add: quiet_def)
  with assms show ?thesis
    by (simp add: quiet_def UnRegisterOne_sub UnRegisterOne_frame)
qed

lemma quiet_forget: "quiet c s \<Longrightarrow> quiet c (forget d s)"
  using db_ok_forget [of s d]
  by (auto simp: quiet_def forget_def sub_of_def RemoveSubscriber_def split: option.splits)

lemma quiet_clear: "quiet c s \<Longrightarrow> quiet c (cleared s)"
  using db_ok_cleared' [of s]
  by (auto simp: quiet_def cleared_def sub_of_def Reset_def split: option.splits)

lemma quiet_mail: "quiet c s \<Longrightarrow> quiet c (take_mail d s)"
  using db_ok_take_mail [of s d]
  by (auto simp: quiet_def take_mail_def sub_of_def)

lemma quiet_wildcard: "quiet c s \<Longrightarrow> d \<noteq> c \<Longrightarrow> quiet c (add_filter F d s)"
  using db_ok_add_filter [of s F d]
  by (auto simp: quiet_def add_filter_def sub_of_def)

lemma quiet_forgotten: "db_ok s \<Longrightarrow> quiet c (forget c s)"
  using db_ok_forget [of s c]
  by (auto simp: quiet_def forget_def sub_of_def RemoveSubscriber_def map_get_def split: option.splits)

interpretation silent: db_invariant "quiet c" "\<lambda>x. x \<noteq> c" True "\<lambda>_. True" "\<lambda>_. True" for c
proof unfold_locales
  show "quiet c s \<Longrightarrow> db_ok s" for s by (simp add: quiet_def)
qed (simp_all add: quiet_notify quiet_register quiet_unregister quiet_forget quiet_clear quiet_mail
      quiet_wildcard quiet_cong)

section \<open>Types of written variables\<close>

definition typed :: "string \<Rightarrow> char \<Rightarrow> int \<Rightarrow> db \<Rightarrow> bool" where
  "typed k T n s \<longleftrightarrow> db_ok s \<and>
     (case var_of s k of None \<Rightarrow> False | Some v \<Rightarrow> v_cDataType v = T \<and> 0 < n \<and> n \<le> v_nWrittenTo v)"

lemma typed_cong:
  "typed k T n s \<Longrightarrow> db_VarMap s' = db_VarMap s \<Longrightarrow> db_HeldMailMap s' = db_HeldMailMap s \<Longrightarrow>
   db_ClientFilters s' = db_ClientFilters s \<Longrightarrow> typed k T n s'"
  by (simp add: typed_def db_ok_def)

lemma typed_notify: "typed k T n s \<Longrightarrow> typed k T n (OnNotify Msg s)"
  by (auto simp: typed_def OnNotify_vars db_okD(1) written_var_def seen_var_def first_write_def
      current_var_def split: option.splits)

lemma typed_register: "typed k T n s \<Longrightarrow> typed k T n (snd (RegisterOne Msg s))"
  by (auto simp: typed_def RegisterOne_vars registered_var_def current_var_def Let_def split: option.splits)

lemma typed_unregister: "typed k T n s \<Longrightarrow> typed k T n (UnRegisterOne Msg s)"
  using db_ok_UnRegisterOne [of s Msg]
  by (auto simp: typed_def UnRegisterOne_alt db_okD(1) split: option.splits)

interpretation stable: db_invariant "typed k T n" "\<lambda>_. True" False "\<lambda>_. True" "\<lambda>_. True" for k T n
proof unfold_locales
  show "typed k T n s \<Longrightarrow> db_ok s" for s by (simp add: typed_def)
  show "typed k T n s \<Longrightarrow> typed k T n (forget c s)" for s c
    using db_ok_forget [of s c] by (auto simp: typed_def forget_def split: option.splits)
  show "typed k T n s \<Longrightarrow> typed k T n (take_mail c s)" for s c
    using db_ok_take_mail [of s c] by (auto simp: typed_def take_mail_def)
  show "typed k T n s \<Longrightarrow> typed k T n (add_filter F c s)" for s c F
    using db_ok_add_filter [of s F c] by (auto simp: typed_def add_filter_def)
qed (simp_all add: typed_notify typed_register typed_unregister typed_cong)

section \<open>Mail is kept until it is collected\<close>

definition keeps :: "string \<Rightarrow> moos_msg list \<Rightarrow> db \<Rightarrow> bool" where
  "keeps c b s \<longleftrightarrow> db_ok s \<and> (\<exists>new. box s c = b @ new)"

lemma keeps_cong:
  "keeps c b s \<Longrightarrow> db_VarMap s' = db_VarMap s \<Longrightarrow> db_HeldMailMap s' = db_HeldMailMap s \<Longrightarrow>
   db_ClientFilters s' = db_ClientFilters s \<Longrightarrow> keeps c b s'"
  by (simp add: keeps_def db_ok_def)

interpretation kept: db_invariant "keeps c b" "\<lambda>_. True" False "\<lambda>x. x \<noteq> c" "\<lambda>x. x \<noteq> c" for c b
proof unfold_locales
  show "keeps c b s \<Longrightarrow> db_ok s" for s by (simp add: keeps_def)
  show "keeps c b s \<Longrightarrow> d \<noteq> c \<Longrightarrow> keeps c b (forget d s)" for s d
    using db_ok_forget [of s d] by (auto simp: keeps_def forget_def)
  show "keeps c b s \<Longrightarrow> d \<noteq> c \<Longrightarrow> keeps c b (take_mail d s)" for s d
    using db_ok_take_mail [of s d] by (auto simp: keeps_def take_mail_def)
  show "keeps c b s \<Longrightarrow> keeps c b (add_filter F d s)" for s d F
    using db_ok_add_filter [of s F d] by (auto simp: keeps_def add_filter_def)
  show "keeps c b s \<Longrightarrow> keeps c b (OnNotify Msg s)" for s Msg
    by (auto simp: keeps_def OnNotify_box)
  show "keeps c b s \<Longrightarrow> keeps c b (snd (RegisterOne Msg s))" for s Msg
    by (auto simp: keeps_def RegisterOne_box)
  show "keeps c b s \<Longrightarrow> keeps c b (UnRegisterOne Msg s)" for s Msg
    using UnRegisterOne_frame(1) [of s Msg] by (auto simp: keeps_def)
qed (simp_all add: keeps_cong)

end
