(* ===== verification/Moos_DBSpec.thy ===== *)
theory Moos_DBSpec
  imports Moos_DBRuns
begin

text \<open>
  What the database promises, without its maps and records: a store of the last accepted
  value of each variable, a table of subscriptions, the wildcard filters and one mail box per
  client. \<open>abs_db\<close> reads this view off the model's state; the handlers implement the
  operations \<open>spec_notify\<close>, \<open>spec_register\<close> and so on of the view.
\<close>

section \<open>The abstract store\<close>

record pubsub =
  ps_value :: "string \<Rightarrow> moos_msg option"
  ps_sub :: "string \<Rightarrow> string \<Rightarrow> reg_info option"
  ps_pats :: "string \<Rightarrow> msg_filter list"
  ps_box :: "string \<Rightarrow> moos_msg list"

text \<open>The value a late subscriber is told: only the field of the variable's type is filled in.\<close>

definition last_value :: "moos_msg \<Rightarrow> moos_msg" where
  "last_value M = new_msg
     \<lparr>m_cMsgType := MOOS_NOTIFY, m_dfTime := m_dfTime M, m_cDataType := m_cDataType M,
      m_sSrc := m_sSrc M, m_sSrcAux := m_sSrcAux M, m_sKey := m_sKey M,
      m_sOriginatingCommunity := m_sOriginatingCommunity M,
      m_dfVal := (if m_cDataType M = MOOS_DOUBLE then m_dfVal M else -1),
      m_sVal := (if m_cDataType M \<in> {MOOS_STRING, MOOS_BINARY_STRING} then m_sVal M else [])\<rparr>"

definition spec_accepts :: "moos_msg \<Rightarrow> pubsub \<Rightarrow> bool" where
  "spec_accepts Msg p \<longleftrightarrow>
     (case ps_value p (m_sKey Msg) of None \<Rightarrow> True | Some m \<Rightarrow> m_cDataType m = m_cDataType Msg)"

text \<open>The subscription of \<open>c\<close> that decides about a message: at the first write of a variable a
  matching wildcard filter takes precedence.\<close>

definition spec_wants :: "moos_msg \<Rightarrow> pubsub \<Rightarrow> string \<Rightarrow> reg_info option" where
  "spec_wants Msg p c =
     (if ps_value p (m_sKey Msg) = None
      then case filter_sub c (ps_pats p c) Msg of
             Some r \<Rightarrow> Some r
           | None \<Rightarrow> ps_sub p c (m_sKey Msg)
      else ps_sub p c (m_sKey Msg))"

definition spec_notify :: "string \<Rightarrow> real \<Rightarrow> moos_msg \<Rightarrow> pubsub \<Rightarrow> pubsub" where
  "spec_notify community now Msg p =
     (let M = (set_community community Msg)\<lparr>m_cMsgType := MOOS_NOTIFY\<rparr>;
          ready = (\<lambda>c. case spec_wants Msg p c of None \<Rightarrow> False | Some r \<Rightarrow> Expired r now)
      in if spec_accepts Msg p
         then p\<lparr>ps_value := (ps_value p)(m_sKey Msg \<mapsto> last_value M),
                ps_sub := (\<lambda>c k. if k = m_sKey Msg
                   then map_option (\<lambda>r. if Expired r now then SetLastTimeSent now r else r) (spec_wants Msg p c)
                   else ps_sub p c k),
                ps_box := (\<lambda>c. ps_box p c @ (if ready c then [M] else []))\<rparr>
         else p)"

definition spec_register :: "string \<Rightarrow> string \<Rightarrow> real \<Rightarrow> real \<Rightarrow> pubsub \<Rightarrow> pubsub" where
  "spec_register c k period now p =
     (if c = [] then p
      else let r = new_reg_info\<lparr>r_sClientName := c, r_dfPeriod := period\<rparr>
           in case ps_value p k of
                None \<Rightarrow> p\<lparr>ps_sub := (ps_sub p)(c := (ps_sub p c)(k \<mapsto> r))\<rparr>
              | Some m \<Rightarrow> p\<lparr>ps_sub := (ps_sub p)(c := (ps_sub p c)(k \<mapsto> SetLastTimeSent now r)),
                           ps_box := (ps_box p)(c := ps_box p c @ [m])\<rparr>)"

definition spec_unregister :: "string \<Rightarrow> string \<Rightarrow> pubsub \<Rightarrow> pubsub" where
  "spec_unregister c k p = p\<lparr>ps_sub := (ps_sub p)(c := (ps_sub p c)(k := None))\<rparr>"

definition spec_leave :: "string \<Rightarrow> pubsub \<Rightarrow> pubsub" where
  "spec_leave c p = p\<lparr>ps_sub := (ps_sub p)(c := (\<lambda>_. None)), ps_pats := (ps_pats p)(c := []),
                      ps_box := (ps_box p)(c := [])\<rparr>"

definition spec_clear :: "pubsub \<Rightarrow> pubsub" where
  "spec_clear p = p\<lparr>ps_value := (\<lambda>_. None), ps_box := (\<lambda>_. [])\<rparr>"

section \<open>The abstraction\<close>

definition abs_value :: "db \<Rightarrow> string \<Rightarrow> moos_msg option" where
  "abs_value s k =
     (case var_of s k of None \<Rightarrow> None
      | Some v \<Rightarrow> if v_nWrittenTo v = 0 then None else Some (reply_msg v))"

definition abs_db :: "db \<Rightarrow> pubsub" where
  "abs_db s = \<lparr>ps_value = abs_value s, ps_sub = sub_of s, ps_pats = filters_of s, ps_box = box s\<rparr>"

lemma abs_db_sel [simp]:
  "ps_value (abs_db s) = abs_value s" "ps_sub (abs_db s) = sub_of s"
  "ps_pats (abs_db s) = filters_of s" "ps_box (abs_db s) = box s"
  by (simp_all add: abs_db_def)

lemma abs_value_None: "abs_value s (m_sKey Msg) = None \<longleftrightarrow> first_write Msg s"
  by (auto simp: abs_value_def first_write_def current_var_def made_var_def new_var_def split: option.split)

lemma abs_value_Some:
  "abs_value s (m_sKey Msg) = Some m \<Longrightarrow> m = reply_msg (current_var Msg s)"
  by (auto simp: abs_value_def current_var_def split: option.splits if_splits)

lemma reply_msg_type [simp]: "m_cDataType (reply_msg v) = v_cDataType v"
  by (simp add: reply_msg_def)

lemma spec_accepts_iff: "spec_accepts Msg (abs_db s) = accepted Msg s"
  using abs_value_Some [of s Msg] abs_value_None [of s Msg]
  by (auto simp: spec_accepts_def accepted_def split: option.split)

lemma sub_of_current:
  "map_of (v_Subscribers (current_var Msg s)) c = sub_of s c (m_sKey Msg)"
  by (auto simp: sub_of_def current_var_def made_var_def new_var_def split: option.split)

lemma spec_wants_iff:
  "db_ok s \<Longrightarrow> spec_wants Msg (abs_db s) c = map_of (v_Subscribers (seen_var Msg s)) c"
  by (auto simp: spec_wants_def abs_value_None seen_var_def apply_filters_sub db_okD(3) sub_of_current
      split: option.split)

lemma reply_written:
  "v_sName (current_var Msg s) = m_sKey Msg \<Longrightarrow> v_cDataType (seen_var Msg s) = m_cDataType Msg \<Longrightarrow>
   reply_msg (written_var Msg s) = last_value (sent_msg Msg s)"
  by (auto simp: reply_msg_def written_var_def last_value_def sent_msg_def Var2Msg_def new_msg_def
      write_var_value Let_def)

lemma current_name: "db_ok s \<Longrightarrow> v_sName (current_var Msg s) = m_sKey Msg"
  using var_ok_current [of s Msg] by (simp add: var_ok_def)

lemma written_count: "db_ok s \<Longrightarrow> v_nWrittenTo (written_var Msg s) > 0"
  using var_ok_current [of s Msg] by (simp add: written_var_def var_ok_def)

text \<open>A rejected message changes nothing of the view: the variable exists with its own type.\<close>

lemma rejected_seen: "\<not> accepted Msg s \<Longrightarrow> seen_var Msg s = current_var Msg s"
  by (simp add: accepted_def seen_var_def)

lemma rejected_exists: "\<not> accepted Msg s \<Longrightarrow> var_of s (m_sKey Msg) = Some (current_var Msg s)"
  by (auto simp: accepted_def first_write_def current_var_def made_var_def new_var_def split: option.splits)

lemma OnNotify_rejected: "db_ok s \<Longrightarrow> \<not> accepted Msg s \<Longrightarrow> db_VarMap (OnNotify Msg s) = db_VarMap s"
  by (simp add: OnNotify_vars db_okD(1) rejected_seen rejected_exists)

lemma abs_value_notify:
  "db_ok s \<Longrightarrow> accepted Msg s \<Longrightarrow>
   abs_value (OnNotify Msg s) = (abs_value s)(m_sKey Msg \<mapsto> last_value (sent_msg Msg s))"
  using written_count [of s Msg]
  by (auto simp: abs_value_def fun_eq_iff OnNotify_vars db_okD(1) reply_written current_name accepted_iff)

lemma sub_of_notify:
  "db_ok s \<Longrightarrow> accepted Msg s \<Longrightarrow>
   sub_of (OnNotify Msg s) c k =
     (if k = m_sKey Msg
      then map_option (\<lambda>r. if Expired r (now_of s) then SetLastTimeSent (now_of s) r else r)
             (map_of (v_Subscribers (seen_var Msg s)) c)
      else sub_of s c k)"
  by (simp add: sub_of_def OnNotify_vars db_okD(1) written_var_def)

lemma pubsub_eqI:
  "ps_value p = ps_value q \<Longrightarrow> ps_sub p = ps_sub q \<Longrightarrow> ps_pats p = ps_pats q \<Longrightarrow> ps_box p = ps_box q \<Longrightarrow>
   p = (q :: pubsub)"
  by simp

section \<open>Refinement\<close>

lemma notify_abs:
  assumes "db_ok s"
  shows "abs_db (OnNotify Msg s) = spec_notify (db_sCommunityName s) (now_of s) Msg (abs_db s)"
proof (cases "accepted Msg s")
  case True
  show ?thesis
  proof (rule pubsub_eqI)
    show "ps_value (abs_db (OnNotify Msg s)) = ps_value (spec_notify (db_sCommunityName s) (now_of s) Msg (abs_db s))"
      using True assms by (simp add: spec_notify_def spec_accepts_iff abs_value_notify sent_msg_def Let_def)
    show "ps_sub (abs_db (OnNotify Msg s)) = ps_sub (spec_notify (db_sCommunityName s) (now_of s) Msg (abs_db s))"
      using True assms
      by (auto simp: spec_notify_def spec_accepts_iff sub_of_notify spec_wants_iff Let_def fun_eq_iff)
    show "ps_box (abs_db (OnNotify Msg s)) = ps_box (spec_notify (db_sCommunityName s) (now_of s) Msg (abs_db s))"
      using True assms
      by (auto simp: spec_notify_def spec_accepts_iff OnNotify_box delivered_to_def due_def spec_wants_iff
          sent_msg_def Let_def fun_eq_iff)
  qed (simp add: spec_notify_def Let_def)
next
  case False
  have spec: "spec_notify (db_sCommunityName s) (now_of s) Msg (abs_db s) = abs_db s"
    using False by (simp add: spec_notify_def spec_accepts_iff Let_def)
  show ?thesis
    unfolding spec
    by (rule pubsub_eqI)
      (use False assms in \<open>simp_all add: abs_value_def sub_of_def fun_eq_iff OnNotify_rejected OnNotify_held\<close>)
qed

text \<open>C7: \<open>OnNotify\<close> implements the abstract notification: the value is stored if its type is
  that of the last value (or there is none), wildcard filters subscribe their owners at the
  first write, and exactly the clients whose effective subscription has expired get the
  message, once, at the end of their box.\<close>

theorem notify_refines:
  assumes "db_ok s"
  shows "abs_db (OnNotify Msg s) = spec_notify (db_sCommunityName s) (now_of s) Msg (abs_db s)"
  using assms by (rule notify_abs)

lemma sub_of_register:
  "db_ok s \<Longrightarrow>
   sub_of (snd (RegisterOne Msg s)) c k =
     (if m_sSrc Msg \<noteq> [] \<and> c = m_sSrc Msg \<and> k = m_sKey Msg then Some (registration Msg s)
      else sub_of s c k)"
  by (auto simp: sub_of_def RegisterOne_vars registered_var_def Let_def current_var_def made_var_def
      new_var_def split: option.split)

lemma abs_value_register:
  "db_ok s \<Longrightarrow> abs_value (snd (RegisterOne Msg s)) = abs_value s"
  by (auto simp: abs_value_def RegisterOne_vars registered_var_def Let_def current_var_def made_var_def
      new_var_def reply_msg_def fun_eq_iff split: option.split)

lemma answered_iff: "answered Msg s \<longleftrightarrow> m_sSrc Msg \<noteq> [] \<and> abs_value s (m_sKey Msg) \<noteq> None"
  by (auto simp: answered_def abs_value_def split: option.splits)

lemma register_abs:
  assumes "db_ok s" and "m_cMsgType Msg = MOOS_REGISTER"
  shows "abs_db (snd (OnRegister Msg s)) =
     spec_register (m_sSrc Msg) (m_sKey Msg) (m_dfVal Msg) (now_of s) (abs_db s)"
proof -
  let ?q = "spec_register (m_sSrc Msg) (m_sKey Msg) (m_dfVal Msg) (now_of s) (abs_db s)"
  have reg: "snd (OnRegister Msg s) = snd (RegisterOne Msg s)"
    by (simp add: OnRegister_one assms(2))
  show ?thesis
    unfolding reg
  proof (rule pubsub_eqI)
    show "ps_value (abs_db (snd (RegisterOne Msg s))) = ps_value ?q"
      using assms(1) by (simp add: spec_register_def abs_value_register Let_def split: option.split)
    show "ps_sub (abs_db (snd (RegisterOne Msg s))) = ps_sub ?q"
      using assms(1)
      by (auto simp: spec_register_def sub_of_register registration_def answered_iff Let_def fun_eq_iff
          split: option.split)
    show "ps_pats (abs_db (snd (RegisterOne Msg s))) = ps_pats ?q"
      using assms(1) by (simp add: spec_register_def Let_def split: option.split)
    show "ps_box (abs_db (snd (RegisterOne Msg s))) = ps_box ?q"
      using assms(1) abs_value_Some [of s Msg]
      by (auto simp: spec_register_def RegisterOne_box answered_iff Let_def fun_eq_iff split: option.split)
  qed
qed

text \<open>C20: a register message implements the abstract registration: the client's period is set,
  and a variable that has been written is answered at once with its last value.\<close>

theorem register_refines:
  assumes "db_ok s" and "m_cMsgType Msg = MOOS_REGISTER"
  shows "abs_db (snd (OnRegister Msg s)) =
     spec_register (m_sSrc Msg) (m_sKey Msg) (m_dfVal Msg) (now_of s) (abs_db s)"
  using assms by (rule register_abs)

end
