(* ===== verification/Moos_DBWild.thy ===== *)
theory Moos_DBWild
  imports Moos_DBSpec
begin

text \<open>
  The remaining registrations of the database: removing a subscription, the two wildcard
  messages over the existing variables, disconnection and clearing, stated on the view of
  \<open>Moos_DBSpec\<close>.
\<close>

section \<open>One client, one variable\<close>

lemma UnRegisterOne_value: "db_ok s \<Longrightarrow> abs_value (UnRegisterOne Msg s) = abs_value s"
  by (auto simp: abs_value_def UnRegisterOne_alt db_okD(1) RemoveSubscriber_def reply_msg_def fun_eq_iff
      split: option.split)

text \<open>unregistering removes exactly that client's subscription to that variable.\<close>

theorem unregister_refines:
  assumes "db_ok s" and "m_cMsgType Msg = MOOS_UNREGISTER"
  shows "abs_db (snd (OnUnRegister Msg s)) = spec_unregister (m_sSrc Msg) (m_sKey Msg) (abs_db s)"
  using assms
  by (intro pubsub_eqI)
    (auto simp: OnUnRegister_one spec_unregister_def UnRegisterOne_value UnRegisterOne_sub
      UnRegisterOne_frame fun_eq_iff)

section \<open>Wildcards over the existing variables\<close>

definition hits :: "msg_filter \<Rightarrow> db \<Rightarrow> string \<Rightarrow> bool" where
  "hits F s k = (case var_of s k of None \<Rightarrow> False | Some v \<Rightarrow> Matches F (Var2Msg v new_msg))"

definition value_list :: "db \<Rightarrow> string \<Rightarrow> moos_msg list" where
  "value_list s k = (case abs_value s k of None \<Rightarrow> [] | Some m \<Rightarrow> [m])"

definition wild_msg :: "msg_filter \<Rightarrow> string \<Rightarrow> db_var \<Rightarrow> moos_msg" where
  "wild_msg F c v = (Var2Msg v new_msg)\<lparr>m_cMsgType := MOOS_REGISTER, m_cDataType := MOOS_DOUBLE,
     m_dfVal := f_period F, m_sSrc := c\<rparr>"

lemma register_existing_eq:
  "register_existing F c k s =
     (if hits F s k then snd (RegisterOne (wild_msg F c (the (var_of s k))) s) else s)"
  by (auto simp: register_existing_def hits_def wild_msg_def Let_def split: option.split)

lemma wild_msg_frame [simp]:
  "m_sSrc (wild_msg F c v) = c" "m_sKey (wild_msg F c v) = v_sName v" "m_dfVal (wild_msg F c v) = f_period F"
  by (simp_all add: wild_msg_def)

lemma hits_var: "db_ok s \<Longrightarrow> hits F s k \<Longrightarrow> \<exists>v. var_of s k = Some v \<and> v_sName v = k"
  by (auto simp: hits_def var_ok_def dest: db_okD(4) split: option.splits)

lemma register_existing_step:
  assumes "db_ok s" and "c \<noteq> []"
  shows "map_option r_dfPeriod (sub_of (register_existing F c k s) d k') =
      (if d = c \<and> k' = k \<and> hits F s k then Some (f_period F) else map_option r_dfPeriod (sub_of s d k'))"
    and "box (register_existing F c k s) d =
      box s d @ (if d = c \<and> hits F s k then value_list s k else [])"
    and "abs_value (register_existing F c k s) = abs_value s"
    and "hits F (register_existing F c k s) = hits F s"
proof -
  show "map_option r_dfPeriod (sub_of (register_existing F c k s) d k') =
      (if d = c \<and> k' = k \<and> hits F s k then Some (f_period F) else map_option r_dfPeriod (sub_of s d k'))"
    using assms hits_var [OF assms(1)]
    by (fastforce simp: register_existing_eq sub_of_register registration_def SetLastTimeSent_def Let_def)
  show "abs_value (register_existing F c k s) = abs_value s"
    using assms by (simp add: register_existing_eq abs_value_register)
  show "box (register_existing F c k s) d = box s d @ (if d = c \<and> hits F s k then value_list s k else [])"
    using assms hits_var [OF assms(1), of F k] abs_value_Some [of s "wild_msg F c (the (var_of s k))"]
    by (auto simp: register_existing_eq RegisterOne_box answered_iff value_list_def split: option.split)
  show "hits F (register_existing F c k s) = hits F s"
  proof (cases "hits F s k")
    case True
    then obtain v where v: "var_of s k = Some v" "v_sName v = k"
      using hits_var [OF assms(1)] by blast
    then have "registered_var (wild_msg F c v) s =
        v\<lparr>v_Subscribers := map_set c (registration (wild_msg F c v) s) (v_Subscribers v)\<rparr>"
      using assms by (simp add: registered_var_def current_var_def Let_def)
    then show ?thesis
      using True v assms
      by (auto simp: register_existing_eq hits_def RegisterOne_vars fun_eq_iff split: option.split)
  qed (simp add: register_existing_eq)
qed

lemma register_existing_all:
  assumes "db_ok s" and "c \<noteq> []"
  shows "map_option r_dfPeriod (sub_of (fold (register_existing F c) ks s) d k) =
      (if d = c \<and> k \<in> set ks \<and> hits F s k then Some (f_period F) else map_option r_dfPeriod (sub_of s d k))"
    and "box (fold (register_existing F c) ks s) d =
      box s d @ (if d = c then concat (map (value_list s) (filter (hits F s) ks)) else [])"
  using assms
proof (induction ks arbitrary: s)
  case Nil
  { case 1 show ?case by simp }
  { case 2 show ?case by simp }
next
  case (Cons k' ks)
  { case 1
    note step = register_existing_step [OF 1, of F k']
    have "db_ok (register_existing F c k' s)" using 1 by simp
    from Cons.IH(1) [OF this 1(2)] show ?case by (auto simp: step) }
  { case 2
    note step = register_existing_step [OF 2, of F k']
    have vl: "value_list (register_existing F c k' s) = value_list s"
      by (simp add: value_list_def step fun_eq_iff)
    have "db_ok (register_existing F c k' s)" using 2 by simp
    from Cons.IH(2) [OF this 2(2)] show ?case by (simp add: step vl) }
qed

lemma wild_state_eq:
  "hits F (AddEvent e c d (add_filter G x s)) = hits F s"
  "sub_of (AddEvent e c d (add_filter G x s)) = sub_of s"
  "box (AddEvent e c d (add_filter G x s)) = box s"
  "value_list (AddEvent e c d (add_filter G x s)) = value_list s"
  by (simp_all add: hits_def sub_of_def value_list_def abs_value_def add_filter_def fun_eq_iff)

lemma hits_in: "hits F s k \<Longrightarrow> k \<in> set (map fst (db_VarMap s))"
  by (force simp: hits_def split: option.splits dest: map_of_SomeD)

text \<open>a wildcard registration subscribes its client, with the interval of the message, to
  exactly the existing variables that match both patterns, answers the written ones with their
  last values in the order of the variables' names, and touches nobody else.\<close>

theorem wildcard_register:
  assumes "db_ok s" and "m_cMsgType Msg = MOOS_WILDCARD_REGISTER" and "m_sSrc Msg \<noteq> []"
  defines "F \<equiv> msg_filter_of Msg"
  shows "map_option r_dfPeriod (sub_of (snd (OnRegister Msg s)) d k) =
      (if d = m_sSrc Msg \<and> hits F s k then Some (interval Msg) else map_option r_dfPeriod (sub_of s d k))
    \<and> box (snd (OnRegister Msg s)) d =
      box s d @ (if d = m_sSrc Msg
                 then concat (map (value_list s) (filter (hits F s) (map fst (db_VarMap s)))) else [])"
proof -
  have ok: "db_ok (AddEvent ''wildcard'' (m_sSrc Msg) (m_sVal Msg) (add_filter F (m_sSrc Msg) s))"
    using assms(1) by simp
  have p: "f_period F = interval Msg" by (simp add: F_def new_filter_def)
  show ?thesis
    using register_existing_all [OF ok assms(3), of F] hits_in [of F s k]
    by (simp add: OnRegister_wild assms(2) F_def [symmetric] wild_state_eq p)
      (auto simp: add_filter_def)
qed

lemma unregister_existing_eq:
  assumes "db_ok s"
  shows "unregister_existing F c k s =
     (if hits F s k
      then UnRegisterOne ((Var2Msg (the (var_of s k)) new_msg)\<lparr>m_cMsgType := MOOS_UNREGISTER,
             m_cDataType := MOOS_STRING, m_sSrc := c, m_sKey := k\<rparr>) s
      else s)"
  by (auto simp: unregister_existing_def hits_def Let_def split: option.split)

lemma Var2Msg_Remove [simp]: "Var2Msg (RemoveSubscriber c v) M = Var2Msg v M"
  by (simp add: RemoveSubscriber_def)

lemma UnRegisterOne_hits: "db_ok s \<Longrightarrow> hits F (UnRegisterOne Msg s) = hits F s"
  by (auto simp: hits_def UnRegisterOne_alt db_okD(1) fun_eq_iff split: option.split)

lemma unregister_existing_all:
  assumes "db_ok s"
  shows "sub_of (fold (unregister_existing F c) ks s) d k =
      (if d = c \<and> k \<in> set ks \<and> hits F s k then None else sub_of s d k)
    \<and> db_HeldMailMap (fold (unregister_existing F c) ks s) = db_HeldMailMap s
    \<and> db_ClientFilters (fold (unregister_existing F c) ks s) = db_ClientFilters s"
  using assms
proof (induction ks arbitrary: s)
  case Nil
  show ?case by simp
next
  case (Cons k' ks)
  have ok: "db_ok (unregister_existing F c k' s)" using Cons.prems by simp
  from Cons.IH [OF ok] Cons.prems show ?case
    by (auto simp: unregister_existing_eq [OF Cons.prems] UnRegisterOne_sub UnRegisterOne_frame UnRegisterOne_hits)
qed

text \<open>A wildcard unregistration removes the client's subscriptions to exactly the existing
  variables that match, but keeps its stored filters: a variable first written later is
  subscribed again.\<close>

theorem wildcard_unregister:
  assumes "db_ok s" and "m_cMsgType Msg = MOOS_WILDCARD_UNREGISTER"
  shows "sub_of (snd (OnUnRegister Msg s)) d k =
      (if d = m_sSrc Msg \<and> hits (new_filter (app_pattern Msg) (var_pattern Msg) 0) s k then None
       else sub_of s d k)
    \<and> db_HeldMailMap (snd (OnUnRegister Msg s)) = db_HeldMailMap s
    \<and> filters_of (snd (OnUnRegister Msg s)) = filters_of s"
proof -
  let ?F = "new_filter (app_pattern Msg) (var_pattern Msg) 0"
  have "k \<in> set (map fst (db_VarMap s))" if "hits ?F s k" using that by (rule hits_in)
  then show ?thesis
    using unregister_existing_all [OF assms(1), of ?F "m_sSrc Msg" "map fst (db_VarMap s)" d k]
    by (auto simp: OnUnRegister_wild assms(2))
qed

section \<open>Leaving and clearing\<close>

lemma sub_of_forget: "sub_of (forget c s) d k = (if d = c then None else sub_of s d k)"
  by (simp add: sub_of_def forget_def split: option.split)

lemma abs_value_forget: "abs_value (forget c s) = abs_value s"
  by (auto simp: abs_value_def forget_def fun_eq_iff RemoveSubscriber_def reply_msg_def split: option.split)

lemma abs_forget: "abs_db (forget c s) = spec_leave c (abs_db s)"
proof (rule pubsub_eqI)
  show "ps_value (abs_db (forget c s)) = ps_value (spec_leave c (abs_db s))"
    by (simp add: spec_leave_def abs_value_forget)
  show "ps_sub (abs_db (forget c s)) = ps_sub (spec_leave c (abs_db s))"
    by (simp add: spec_leave_def fun_eq_iff sub_of_forget)
  show "ps_pats (abs_db (forget c s)) = ps_pats (spec_leave c (abs_db s))"
    by (auto simp: spec_leave_def forget_def map_get_def fun_eq_iff split: option.split)
  show "ps_box (abs_db (forget c s)) = ps_box (spec_leave c (abs_db s))"
    by (auto simp: spec_leave_def forget_def fun_eq_iff)
qed

lemma abs_db_frame [simp]:
  "abs_db (AddEvent e c d s) = abs_db s" "abs_db (s\<lparr>db_tick := n\<rparr>) = abs_db s"
  "abs_db (s\<lparr>db_dfStartTime := x\<rparr>) = abs_db s"
  by (simp_all add: abs_db_def abs_value_def sub_of_def fun_eq_iff)

text \<open>when a client disconnects, its subscriptions, its filters and its mail are gone before
  the \<open>DB_EVENT\<close> notification that tells the others.\<close>

theorem disconnect_refines:
  assumes "db_ok s"
  shows "\<exists>M now. m_sKey M = ''DB_EVENT'' \<and> m_sVal M = MOOSFormat (''disconnected='' @ c_str c)
     \<and> abs_db (snd (OnDisconnect c s)) = spec_notify (db_sCommunityName s) now M (spec_leave c (abs_db s))"
proof -
  define s1 where "s1 = AddEvent ''disconnect'' c ''client disconnects'' (forget c s)"
  define M where "M = own_string ''DB_EVENT'' (MOOSFormat (''disconnected='' @ c_str c)) s1"
  have ok: "db_ok (s1\<lparr>db_tick := Suc (db_tick s1)\<rparr>)"
    using assms by (simp add: s1_def db_ok_forget)
  have "db_sCommunityName s1 = db_sCommunityName s" by (simp add: s1_def forget_def)
  then have "abs_db (snd (OnDisconnect c s)) = spec_notify (db_sCommunityName s)
      (now_of (s1\<lparr>db_tick := Suc (db_tick s1)\<rparr>)) M (spec_leave c (abs_db s))"
    using notify_abs [OF ok, of M]
    by (simp add: OnDisconnect_eq Let_def s1_def M_def abs_forget [symmetric])
  moreover have "m_sKey M = ''DB_EVENT''" "m_sVal M = MOOSFormat (''disconnected='' @ c_str c)"
    by (simp_all add: M_def)
  ultimately show ?thesis by blast
qed

lemma abs_cleared: "db_ok s \<Longrightarrow> abs_db (cleared s) = spec_clear (abs_db s)"
  by (rule pubsub_eqI)
    (auto simp: spec_clear_def cleared_def abs_value_def Reset_def sub_of_def fun_eq_iff split: option.split)

text \<open>The request \<open>DB_CLEAR\<close> forgets every value and all mail and keeps the
  subscriptions and filters; it sends no reply.\<close>

theorem clear_refines:
  assumes "db_ok s" and "is_clear Msg"
  shows "abs_db (snd (snd (ProcessMsg sv Msg tx s))) = spec_clear (abs_db s)
     \<and> fst (snd (ProcessMsg sv Msg tx s)) = tx"
  using assms
  by (simp add: is_clear_def ProcessMsg_def DoServerRequest_def OnClearRequested_eq abs_cleared)

end
