(* ===== verification/Moos_DBProperties.thy ===== *)
theory Moos_DBProperties
  imports Moos_DBWild
begin

text \<open>
  What holds over runs of the database and what its summaries say: invariants of the reachable
  states, mail in order and without loss, silence after leaving, the rate limit of a
  subscription, and the answers to the server requests.
\<close>

section \<open>Runs\<close>

lemma db_reach_ok: "db_reach s \<Longrightarrow> db_ok s"
  by (induction rule: db_reach.induct)
    (simp_all add: db_ok_StartDB db_ok_new db_inv.inv_exec)

text \<open>C21: in every reachable state the maps are ordered, every variable knows its name and its
  subscriptions are filed under their clients, wildcard filters are ordered, and held mail is
  notifications about existing variables; nothing is held for the empty client name.\<close>

theorem reachable_ok:
  assumes "db_reach s"
  shows "db_ok s"
  using assms by (rule db_reach_ok)

definition no_clear :: "db_call \<Rightarrow> bool" where
  "no_clear call \<longleftrightarrow> (\<forall>m \<in> set (call_msgs call). \<not> is_clear m)"

text \<open>C23: while nobody requests \<open>DB_CLEAR\<close>, a variable that has been written keeps its type
  and its write count never falls, whatever the clients send, whoever comes and goes.\<close>

theorem type_stable:
  assumes "db_ok s" and "var_of s k = Some v" and "0 < v_nWrittenTo v"
    and "\<forall>call \<in> set calls. no_clear call"
  shows "\<exists>v'. var_of (db_run calls s) k = Some v' \<and> v_cDataType v' = v_cDataType v
     \<and> v_nWrittenTo v \<le> v_nWrittenTo v'"
proof -
  have "typed k (v_cDataType v) (v_nWrittenTo v) s"
    using assms(1-3) by (simp add: typed_def)
  then have "typed k (v_cDataType v) (v_nWrittenTo v) (db_run calls s)"
    by (rule stable.inv_run)
      (use assms(4) in \<open>auto simp: stable.call_allowed_def stable.allowed_def no_clear_def split: option.split\<close>)
  then show ?thesis by (auto simp: typed_def split: option.splits)
qed

definition sends :: "string \<Rightarrow> db_call \<Rightarrow> bool" where
  "sends c call \<longleftrightarrow> (\<exists>m \<in> set (call_msgs call). m_sSrc m = c)"

lemma quiet_after_disconnect: "db_ok s \<Longrightarrow> quiet c (snd (OnDisconnect c s))"
  using quiet_forgotten [of s c]
  by (simp add: OnDisconnect_eq Let_def silent.notify silent.event silent.tick)

lemma quiet_run:
  assumes "quiet c s" and "\<forall>call \<in> set calls. \<not> sends c call"
  shows "quiet c (db_run calls s)"
  using assms(1)
  by (rule silent.inv_run)
    (use assms(2) in \<open>auto simp: silent.call_allowed_def silent.allowed_def sends_def split: option.split\<close>)

text \<open>C22: once a client has left, no mail is held for it and no subscription or filter of it
  exists until a message from it arrives.\<close>

theorem departed_silent:
  assumes "db_ok s" and "\<forall>call \<in> set calls. \<not> sends c call"
  shows "box (db_run calls (snd (OnDisconnect c s))) c = []
     \<and> filters_of (db_run calls (snd (OnDisconnect c s))) c = []
     \<and> (\<forall>k. sub_of (db_run calls (snd (OnDisconnect c s))) c k = None)"
  using quiet_run [OF quiet_after_disconnect [OF assms(1)] assms(2)] by (simp add: quiet_def)

lemma keeps_run:
  assumes "keeps c l s"
    and "\<forall>call \<in> set calls. no_clear call \<and> leaver call \<noteq> Some c \<and> taker call \<noteq> Some c"
  shows "keeps c l (db_run calls s)"
  using assms(1)
  by (rule kept.inv_run)
    (use assms(2) in \<open>auto simp: kept.call_allowed_def kept.allowed_def no_clear_def split: option.split\<close>)

text \<open>C9: mail is delivered in order and without loss: whatever the other clients do in between
  (short of \<open>DB_CLEAR\<close>), the next fetch returns the mail held before, then what has been added
  since, and leaves the box empty.\<close>

theorem mail_in_order:
  assumes "db_ok s"
    and "\<forall>call \<in> set calls. no_clear call \<and> leaver call \<noteq> Some c \<and> taker call \<noteq> Some c"
  shows "\<exists>new. fst (db_exec (FetchAllMail c tx) (db_run calls s)) = box s c @ new @ tx
     \<and> box (snd (db_exec (FetchAllMail c tx) (db_run calls s))) c = []"
proof -
  have "keeps c (box s c) s" using assms(1) by (simp add: keeps_def)
  then have "keeps c (box s c) (db_run calls s)" using assms(2) by (rule keeps_run)
  then obtain new where "box (db_run calls s) c = box s c @ new" and "db_ok (db_run calls s)"
    by (auto simp: keeps_def)
  then show ?thesis
    by (auto simp: OnFetchAllMail_eq db_okD(2) take_mail_def map_get_def)
qed

lemma reply_of_packet:
  assumes "db_ok s" and "rx \<noteq> []" and "\<forall>m \<in> set rx. \<not> is_clear m"
  shows "\<exists>new. fst (snd (OnRxPkt sv c rx tx s)) = box s c @ new @ fst (process_all sv rx tx s)
     \<and> box (snd (snd (OnRxPkt sv c rx tx s))) c = []"
proof -
  obtain tx1 s1 where st: "process_all sv rx tx s = (tx1, s1)" by fastforce
  have "keeps c (box s c) s" using assms(1) by (simp add: keeps_def)
  then have "keeps c (box s c) (snd (process_all sv rx tx s))"
    using assms(3) by (intro kept.inv_process_all) (auto simp: kept.allowed_def)
  then have k: "keeps c (box s c) s1" by (simp add: st)
  define s3 where "s3 = (if 2 < now_of s1 - db_dfSummaryTime s1
      then UpdateOwnVars sv (s1\<lparr>db_tick := Suc (db_tick s1), db_dfSummaryTime := now_of s1\<rparr>)
      else s1\<lparr>db_tick := Suc (db_tick s1)\<rparr>)"
  from k have "keeps c (box s c) s3"
    by (simp add: s3_def kept.inv_UpdateOwnVars kept.tick kept.summary)
  then show ?thesis
    using assms(2) by (auto simp: OnRxPkt_eq st Let_def s3_def [symmetric] keeps_def take_mail_def)
qed

text \<open>the reply to a packet is the mail held for the client, oldest first, followed by the
  answers to the requests in the packet; no held mail stays behind, and what was held before
  the packet comes first.\<close>

theorem packet_reply:
  assumes "db_ok s" and "rx \<noteq> []" and "\<forall>m \<in> set rx. \<not> is_clear m"
  shows "\<exists>new. fst (snd (OnRxPkt sv c rx tx s)) = box s c @ new @ fst (process_all sv rx tx s)
     \<and> box (snd (snd (OnRxPkt sv c rx tx s))) c = []"
  using assms by (rule reply_of_packet)

section \<open>The rate of a subscription\<close>

text \<open>The times at which a client is sent variable \<open>k\<close> while a list of notifications arrives.\<close>

fun deliveries :: "string \<Rightarrow> string \<Rightarrow> moos_msg list \<Rightarrow> db \<Rightarrow> real list" where
  "deliveries c k [] s = []"
| "deliveries c k (m # ms) s =
     (if m_sKey m = k \<and> delivered_to m s c then [now_of s] else []) @ deliveries c k ms (OnNotify m s)"

lemma seen_written:
  "\<not> first_write m s \<Longrightarrow> map_of (v_Subscribers (seen_var m s)) c = sub_of s c (m_sKey m)"
  by (simp add: seen_var_def sub_of_current)

lemma value_stays:
  assumes "db_ok s" and "abs_value s k \<noteq> None"
  shows "abs_value (OnNotify m s) k \<noteq> None"
proof (cases "accepted m s")
  case True
  then show ?thesis using assms by (auto simp: abs_value_notify)
next
  case False
  then show ?thesis using assms by (simp add: abs_value_def OnNotify_rejected)
qed

lemma sub_after:
  assumes "db_ok s" and "abs_value s k \<noteq> None" and "sub_of s c k = Some r"
  shows "sub_of (OnNotify m s) c k =
    Some (if m_sKey m = k \<and> delivered_to m s c then SetLastTimeSent (now_of s) r else r)"
proof (cases "accepted m s")
  case True
  have "m_sKey m = k \<Longrightarrow> \<not> first_write m s" using assms(2) abs_value_None [of s m] by auto
  then show ?thesis
    using True assms by (auto simp: sub_of_notify seen_written delivered_to_def due_def)
next
  case False
  then show ?thesis using assms by (simp add: sub_of_def OnNotify_rejected delivered_to_def)
qed

lemma rate_limit_gen:
  assumes "db_ok s" and "abs_value s k \<noteq> None" and "sub_of s c k = Some r" and "r_dfPeriod r \<noteq> 0"
  shows "successively (\<lambda>a b. r_dfPeriod r \<le> b - a) (r_dfLastTimeSent r # deliveries c k ms s)"
  using assms
proof (induction ms arbitrary: s r)
  case Nil
  then show ?case by simp
next
  case (Cons m ms)
  have ok: "db_ok (OnNotify m s)" "abs_value (OnNotify m s) k \<noteq> None"
    using Cons.prems value_stays by auto
  note after = sub_after [OF Cons.prems(1-3), of m]
  show ?case
  proof (cases "m_sKey m = k \<and> delivered_to m s c")
    case True
    then have "\<not> first_write m s" using Cons.prems(2) abs_value_None [of s m] by auto
    with True Cons.prems have "r_dfPeriod r \<le> now_of s - r_dfLastTimeSent r"
      by (auto simp: delivered_to_def due_def seen_written Expired_def)
    with True Cons.IH [OF ok, of "SetLastTimeSent (now_of s) r"] after Cons.prems(4) show ?thesis
      by (simp add: SetLastTimeSent_def)
  next
    case False
    with Cons.IH [OF ok, of r] after Cons.prems(4) show ?thesis by auto
  qed
qed

text \<open>a subscription with a period is never served faster than its period: over any list of
  notifications the times a written variable is sent to a client are at least the period
  apart, the first one counted from the last time it was sent.\<close>

theorem rate_limit:
  assumes "db_ok s" and "abs_value s k \<noteq> None" and "sub_of s c k = Some r" and "r_dfPeriod r \<noteq> 0"
  shows "successively (\<lambda>a b. r_dfPeriod r \<le> b - a) (r_dfLastTimeSent r # deliveries c k ms s)"
  using assms by (rule rate_limit_gen)

section \<open>Wildcards and variables not yet written\<close>

lemma filter_sub_Some:
  assumes "F \<in> set fs" and "Matches F Msg" and "c \<noteq> []"
  shows "\<exists>G \<in> set fs. Matches G Msg \<and>
    filter_sub c fs Msg = Some (new_reg_info\<lparr>r_sClientName := c, r_dfPeriod := f_period G\<rparr>)"
proof -
  let ?hs = "filter (\<lambda>h. Matches h Msg) fs"
  have ne: "?hs \<noteq> []" using assms(1,2) by (auto simp: filter_empty_conv)
  then have "last ?hs \<in> set ?hs" by (rule last_in_set)
  moreover have "filter_sub c fs Msg = Some (new_reg_info\<lparr>r_sClientName := c, r_dfPeriod := f_period (last ?hs)\<rparr>)"
    using ne assms(3) by (simp add: filter_sub_def split: list.split)
  ultimately show ?thesis by auto
qed

text \<open>a client whose stored wildcard filter matches a variable is sent its first value, once
  the clock has passed the periods of its matching filters.\<close>

theorem wildcard_first_write:
  assumes "db_ok s" and "first_write Msg s" and "F \<in> set (filters_of s c)" and "Matches F Msg" and "c \<noteq> []"
    and "\<forall>G \<in> set (filters_of s c). f_period G \<le> now_of s"
  shows "box (OnNotify Msg s) c = box s c @ [sent_msg Msg s]
     \<and> (\<exists>r. sub_of (OnNotify Msg s) c (m_sKey Msg) = Some r \<and> r_dfLastTimeSent r = now_of s)"
proof -
  obtain G where G: "G \<in> set (filters_of s c)"
    and sub: "filter_sub c (filters_of s c) Msg = Some (new_reg_info\<lparr>r_sClientName := c, r_dfPeriod := f_period G\<rparr>)"
    using filter_sub_Some [OF assms(3-5)] by blast
  have seen: "map_of (v_Subscribers (seen_var Msg s)) c =
      Some (new_reg_info\<lparr>r_sClientName := c, r_dfPeriod := f_period G\<rparr>)"
    using assms(1,2) sub by (simp add: seen_var_def apply_filters_sub db_okD(3))
  have exp: "Expired (new_reg_info\<lparr>r_sClientName := c, r_dfPeriod := f_period G\<rparr>) (now_of s)"
    using assms(6) G by (simp add: Expired_def new_reg_info_def)
  have acc: "accepted Msg s" using assms(2) by (simp add: accepted_def)
  have "delivered_to Msg s c" using acc seen exp by (simp add: delivered_to_def due_def)
  then show ?thesis
    using assms(1) acc seen exp by (simp add: OnNotify_box sub_of_notify SetLastTimeSent_def)
qed

section \<open>Server requests\<close>

lemma ProcessMsg_request:
  "m_cMsgType Msg = MOOS_SERVER_REQUEST \<Longrightarrow> ProcessMsg sv Msg tx s = DoServerRequest sv Msg tx s"
  by (simp add: ProcessMsg_def)

lemma server_all_fold:
  "fold (\<lambda>(_, v) tx. f v # tx) vars tx = rev (map (f \<circ> snd) vars) @ tx"
  by (induction vars arbitrary: tx) auto

text \<open>The request \<open>ALL\<close> is answered with one message per variable, the last variable
  first, in front of what is already there; the database does not change.\<close>

theorem all_request:
  assumes "m_cMsgType Msg = MOOS_SERVER_REQUEST" and "m_sKey Msg = ''ALL''"
  shows "ProcessMsg sv Msg tx s =
    (True, rev (map (server_all_msg Msg (db_dfStartTime s) \<circ> snd) (db_VarMap s)) @ tx, s)"
  using assms by (simp add: ProcessMsg_request DoServerRequest_def OnServerAllRequested_def server_all_fold)

text \<open>The reply to \<open>VAR_SUMMARY\<close> carries the request's id, and splitting it at the commas
  gives the names of the variables, in order.\<close>

theorem var_summary_reply:
  assumes "m_cMsgType Msg = MOOS_SERVER_REQUEST" and "m_sKey Msg = ''VAR_SUMMARY''"
    and "\<forall>k \<in> set (map fst (db_VarMap s)). k \<noteq> [] \<and> CHR '','' \<notin> set k"
  shows "\<exists>m s'. ProcessMsg sv Msg tx s = (True, m # tx, s') \<and> m_nID m = m_nID Msg
     \<and> StringListToVector (m_sVal m) '','' = map fst (db_VarMap s) \<and> db_VarMap s' = db_VarMap s"
proof -
  have c: "\<not> contains ''VAR_SUMMARY'' ''PROC_SUMMARY''" "contains ''VAR_SUMMARY'' ''VAR_SUMMARY''"
    by (simp_all add: contains_def)
  show ?thesis
    using assms c
    by (simp add: ProcessMsg_request DoServerRequest_def OnVarSummaryRequested_def split_join)
qed

text \<open>A server request with no known name is refused and changes nothing.\<close>

theorem unknown_request:
  assumes "m_cMsgType Msg = MOOS_SERVER_REQUEST" and "m_sKey Msg \<noteq> ''ALL''"
    and "\<not> contains (m_sKey Msg) ''PROC_SUMMARY''" and "\<not> contains (m_sKey Msg) ''VAR_SUMMARY''"
    and "\<not> contains (m_sKey Msg) ''DB_CLEAR''"
  shows "ProcessMsg sv Msg tx s = (False, tx, s)"
  using assms by (simp add: ProcessMsg_request DoServerRequest_def)

section \<open>The summary of readers and writers\<close>

lemma map_get_push: "map_get [] (push_to c x m) q = map_get [] m q @ (if q = c then [x] else [])"
  by (simp add: push_to_def)

lemma fold_push:
  "distinct ws \<Longrightarrow> map_get [] (fold (\<lambda>w m. push_to w x m) ws m) q =
     map_get [] m q @ (if q \<in> set ws then [x] else [])"
  by (induction ws arbitrary: m) (auto simp: map_get_push)

lemma fold_push_subs:
  assumes "distinct (map fst ps)" and "\<forall>(k, r) \<in> set ps. r_sClientName r = k"
  shows "map_get [] (fold (\<lambda>(_, r) m. push_to (r_sClientName r) x m) ps m) q =
     map_get [] m q @ (if q \<in> fst ` set ps then [x] else [])"
  using assms
proof (induction ps arbitrary: m)
  case (Cons e ps)
  obtain k r where e: "e = (k, r)" by fastforce
  with Cons.prems have "r_sClientName r = k" "k \<notin> fst ` set ps" by auto
  with Cons show ?case by (auto simp: e map_get_push simp del: image_iff)
qed simp

definition vars_ok :: "(string, db_var) omap \<Rightarrow> bool" where
  "vars_ok vars \<longleftrightarrow> (\<forall>(k, v) \<in> set vars. var_ok k v)"

lemma db_ok_vars_ok: "db_ok s \<Longrightarrow> vars_ok (db_VarMap s)"
  by (auto simp: vars_ok_def db_ok_def map_ok_in_iff)

lemma collect_subs_gen:
  "vars_ok vars \<Longrightarrow>
   map_get [] (fold (\<lambda>(_, rVar) m. fold (\<lambda>(_, r) m. push_to (r_sClientName r) (v_sName rVar) m) (v_Subscribers rVar) m)
       vars m) q
     = map_get [] m q @ map fst (filter (\<lambda>(_, v). HasSubscriber v q) vars)"
proof (induction vars arbitrary: m)
  case Nil
  then show ?case by simp
next
  case (Cons e vars)
  obtain k v where e: "e = (k, v)" by fastforce
  have v: "v_sName v = k" "subs_ok (v_Subscribers v)" using Cons.prems by (auto simp: vars_ok_def e var_ok_def)
  have "q \<in> fst ` set (v_Subscribers v) \<longleftrightarrow> HasSubscriber v q"
    by (simp add: HasSubscriber_iff map_of_None_notin)
  moreover have "distinct (map fst (v_Subscribers v))" using v(2) by (simp add: subs_ok_def map_ok_distinct)
  moreover have "vars_ok vars" using Cons.prems by (simp add: vars_ok_def)
  ultimately show ?case
    using Cons.IH v by (simp add: e fold_push_subs subs_ok_names)
qed

lemma collect_pubs_gen:
  "vars_ok vars \<Longrightarrow>
   map_get [] (fold (\<lambda>(_, rVar) m. fold (\<lambda>w m. push_to w (v_sName rVar) m) (v_Writers rVar) m) vars m) q
     = map_get [] m q @ map fst (filter (\<lambda>(_, v). q \<in> set (v_Writers v)) vars)"
proof (induction vars arbitrary: m)
  case Nil
  then show ?case by simp
next
  case (Cons e vars)
  obtain k v where e: "e = (k, v)" by fastforce
  have "v_sName v = k" "distinct (v_Writers v)"
    using Cons.prems by (auto simp: vars_ok_def e var_ok_def set_ok_def strict_sorted_iff)
  moreover have "vars_ok vars" using Cons.prems by (simp add: vars_ok_def)
  ultimately show ?case using Cons.IH by (simp add: e fold_push)
qed

lemma rw_summary_lists:
  assumes "db_ok s"
  shows "map_get [] (collect_subs (db_VarMap s)) q = map fst (filter (\<lambda>(_, v). HasSubscriber v q) (db_VarMap s))"
    and "map_get [] (collect_pubs (db_VarMap s)) q = map fst (filter (\<lambda>(_, v). q \<in> set (v_Writers v)) (db_VarMap s))"
  using collect_subs_gen [OF db_ok_vars_ok [OF assms], of "[]"] collect_pubs_gen [OF db_ok_vars_ok [OF assms], of "[]"]
  by (simp_all add: collect_subs_def collect_pubs_def)

section \<open>A packet with a notification\<close>

text \<open>A notification that is due to \<open>b\<close> is at the end of what is held for \<open>b\<close> when it is processed,
  and the rest of the packet, of another client, leaves it there.\<close>

lemma process_all_append:
  "process_all sv (xs @ ys) tx s = (let (tx, s) = process_all sv xs tx s in process_all sv ys tx s)"
  by (simp add: process_all_def case_prod_beta)

lemma process_all_notify:
  "m_cMsgType m = MOOS_NOTIFY \<Longrightarrow> process_all sv (m # ms) tx s = process_all sv ms tx (OnNotify m s)"
  by (simp add: process_all_def ProcessMsg_def)

lemma published_keeps:
  assumes "db_ok s" and "m_cMsgType m = MOOS_NOTIFY" and "db1 = snd (process_all sv pre tx s)"
    and "delivered_to m db1 b" and "\<forall>x \<in> set post. \<not> is_clear x" and "a \<noteq> b"
  shows "keeps b (box db1 b @ [sent_msg m db1]) (snd (snd (OnRxPkt sv a (pre @ m # post) tx s)))"
proof -
  let ?l = "box db1 b @ [sent_msg m db1]"
  have "db_ok db1" unfolding assms(3) by (rule db_inv.inv_process_all) (simp_all add: assms(1))
  then have "keeps b ?l (OnNotify m db1)"
    using assms(4) db_inv.notify [of db1 m] by (simp add: keeps_def OnNotify_box)
  then have "keeps b ?l (snd (process_all sv post ty (OnNotify m db1)))" for ty
    by (rule kept.inv_process_all) (use assms(5) in \<open>simp add: kept.allowed_def\<close>)
  moreover have "\<exists>ty. snd (process_all sv (pre @ m # post) tx s) = snd (process_all sv post ty (OnNotify m db1))"
    using assms(2) unfolding assms(3)
    by (auto simp: process_all_append process_all_notify case_prod_beta)
  ultimately have "keeps b ?l (snd (process_all sv (pre @ m # post) tx s))" by metis
  then show ?thesis using assms(6) by (rule kept.inv_OnRxPkt_processed)
qed

end
