(* ===== verification/Moos_CommServer.thy ===== *)
theory Moos_CommServer
  imports Moos_DBProperties
begin

text \<open>
  The communications server \<open>CMOOSCommServer\<close> (\<open>Comms/MOOSCommServer.cpp\<close>) that stands between the
  sockets and the database: handshakes and client names, the service of a packet, the passes of
  its server and timer loops, and disconnection.

  \<^item> A socket is its file descriptor with the time of its last read; the callbacks are those the
    database installs, so the database is part of the state.
  \<^item> What arrives at a socket, whether a message could be sent and the clocks are arguments: \<open>None\<close>
    is an exception while reading or unpacking. What is sent is returned.
  \<^item> The threads take the lock of the socket list, so the passes are the atomic steps. Socket
    options, name look-up and console output are left out.
\<close>

section \<open>State\<close>

record server =
  s_ClientSocketList :: "(int \<times> real) list"
  s_Socket2ClientMap :: "(int, string) omap"
  s_AsynchronousClientSet :: "string list"
  s_nMaxSocketFD :: int
  s_sCommunityName :: string
  s_dfClientTimeout :: real
  s_DB :: db

definition new_server :: "db \<Rightarrow> server" where
  "new_server db = \<lparr>s_ClientSocketList = [], s_Socket2ClientMap = [], s_AsynchronousClientSet = [],
     s_nMaxSocketFD = 0, s_sCommunityName = ''#1'', s_dfClientTimeout = 5, s_DB = db\<rparr>"

definition SetClientTimeout :: "real \<Rightarrow> server \<Rightarrow> bool \<times> server" where
  "SetClientTimeout dfTimeoutPeriod s =
     (if dfTimeoutPeriod < 0 then (False, s) else (True, s\<lparr>s_dfClientTimeout := dfTimeoutPeriod\<rparr>))"

definition GetMaxSocketFD :: "server \<Rightarrow> server" where
  "GetMaxSocketFD s = s\<lparr>s_nMaxSocketFD := fold (\<lambda>p m. if m > fst p then m else fst p) (s_ClientSocketList s) 0\<rparr>"

definition GetClientNames :: "server \<Rightarrow> string list" where
  "GetClientNames s = fold (\<lambda>p l. snd p # l) (s_Socket2ClientMap s) []"

definition IsUniqueName :: "string \<Rightarrow> server \<Rightarrow> bool" where
  "IsUniqueName sClientName s \<longleftrightarrow> (\<forall>p \<in> set (s_Socket2ClientMap s). snd p \<noteq> sClientName)"

definition GetClientName :: "int \<Rightarrow> server \<Rightarrow> string" where
  "GetClientName fd s = (case map_of (s_Socket2ClientMap s) fd of None \<Rightarrow> [] | Some n \<Rightarrow> n)"

text \<open>What the callbacks see of the server; the timing summary comes from the auditor.\<close>

definition view :: "string option \<Rightarrow> (real \<Rightarrow> string) \<Rightarrow> server \<Rightarrow> server_view" where
  "view timing date s = \<lparr>sv_ClientNames = GetClientNames s, sv_TimingSummary = timing, sv_TimeToDate = date\<rparr>"

section \<open>Connecting\<close>

text \<open>The bytes received, or \<open>None\<close> when the client is gone.\<close>

definition CheckProtocol :: "string option \<Rightarrow> bool" where
  "CheckProtocol received =
     (case received of None \<Rightarrow> False | Some sProtocol \<Rightarrow> MOOSStrCmp (c_str sProtocol) MOOS_PROTOCOL_STRING)"

definition poison_msg :: "string \<Rightarrow> real \<Rightarrow> moos_msg" where
  "poison_msg sReason now = msg_string MOOS_POISON [] sReason (-1) now"

definition welcome_msg :: "real \<Rightarrow> string \<Rightarrow> real \<Rightarrow> server \<Rightarrow> moos_msg" where
  "welcome_msg dfSkew local_ip now s =
     (msg_double MOOS_WELCOME [] dfSkew (-1) now)
       \<lparr>m_sVal := ''asynchronous'', m_sSrcAux := MOOSAddValToString [] ''hostname'' local_ip,
        m_sOriginatingCommunity := s_sCommunityName s\<rparr>"

text \<open>The name message of a client: \<open>Inl\<close> for an exception, \<open>Inr None\<close> when it does not come in
  time. \<open>bSent\<close> says whether the answer could be sent; sending throws otherwise.\<close>

definition ServerHandShake ::
    "int \<Rightarrow> string option \<Rightarrow> string + moos_msg option \<Rightarrow> bool \<Rightarrow> string \<Rightarrow> real \<Rightarrow> server
      \<Rightarrow> bool \<times> moos_msg option \<times> server" where
  "ServerHandShake fd protocol hello bSent local_ip now s =
     (if \<not> CheckProtocol protocol then (False, None, s)
      else case hello of
             Inl _ \<Rightarrow> (False, None, s)
           | Inr None \<Rightarrow>
               (False, if bSent then Some (poison_msg ''Failed to read receive client's name'' now) else None, s)
           | Inr (Some Msg) \<Rightarrow>
               (let dfSkew = now - m_dfTime Msg
                in if \<not> IsUniqueName (m_sVal Msg) s
                   then (False, if bSent then Some (poison_msg (MOOSFormat (''A client of this name ('' @ [CHR 0x22]
                           @ c_str (m_sVal Msg) @ [CHR 0x22] @ '') already exists'')) now) else None, s)
                   else let s = s\<lparr>s_Socket2ClientMap := map_set fd (m_sVal Msg) (s_Socket2ClientMap s)\<rparr>;
                            s = (if MOOSStrCmp (m_sKey Msg) ''asynchronous''
                                 then s\<lparr>s_AsynchronousClientSet := set_insert (m_sVal Msg) (s_AsynchronousClientSet s)\<rparr>
                                 else s)
                        in (bSent, if bSent then Some (welcome_msg dfSkew local_ip now s) else None, s)))"

definition OnNewClient ::
    "int \<Rightarrow> string option \<Rightarrow> string + moos_msg option \<Rightarrow> bool \<Rightarrow> string \<Rightarrow> real \<Rightarrow> server
      \<Rightarrow> bool \<times> moos_msg option \<times> server" where
  "OnNewClient fd protocol hello bSent local_ip now s =
     (let (ok, answer, s) = ServerHandShake fd protocol hello bSent local_ip now s
      in if ok then (True, answer, s\<lparr>s_DB := snd (OnConnect (GetClientName fd s) (s_DB s))\<rparr>)
         else (False, answer, s))"

text \<open>What \<open>ListenLoop\<close> does with an accepted socket.\<close>

definition AcceptClient ::
    "int \<Rightarrow> string option \<Rightarrow> string + moos_msg option \<Rightarrow> bool \<Rightarrow> string \<Rightarrow> real \<Rightarrow> real \<Rightarrow> server
      \<Rightarrow> moos_msg option \<times> server" where
  "AcceptClient fd protocol hello bSent local_ip now t s =
     (let (ok, answer, s) = OnNewClient fd protocol hello bSent local_ip now s
      in (answer, if ok then GetMaxSocketFD (s\<lparr>s_ClientSocketList := (fd, t) # s_ClientSocketList s\<rparr>) else s))"

section \<open>Disconnecting\<close>

definition OnClientDisconnect :: "int \<Rightarrow> server \<Rightarrow> server" where
  "OnClientDisconnect fd s =
     (let sWho = GetClientName fd s;
          s = (if map_of (s_Socket2ClientMap s) fd \<noteq> None
               then s\<lparr>s_Socket2ClientMap := map_erase fd (s_Socket2ClientMap s),
                      s_AsynchronousClientSet := filter (\<lambda>n. n \<noteq> sWho) (s_AsynchronousClientSet s)\<rparr>
               else s);
          s = GetMaxSocketFD s
      in s\<lparr>s_DB := snd (OnDisconnect sWho (s_DB s))\<rparr>)"

definition OnAbsentClient :: "int \<Rightarrow> server \<Rightarrow> server" where
  "OnAbsentClient fd s =
     (let sWho = GetClientName fd s;
          s = (if map_of (s_Socket2ClientMap s) fd \<noteq> None
               then s\<lparr>s_Socket2ClientMap := map_erase fd (s_Socket2ClientMap s)\<rparr> else s);
          s = GetMaxSocketFD s
      in s\<lparr>s_DB := snd (OnDisconnect sWho (s_DB s))\<rparr>)"

definition remove_socket :: "int \<Rightarrow> server \<Rightarrow> server" where
  "remove_socket fd s = s\<lparr>s_ClientSocketList := filter (\<lambda>p. fst p \<noteq> fd) (s_ClientSocketList s)\<rparr>"

text \<open>One pass of \<open>TimerLoop\<close>.\<close>

definition TimerPass :: "real \<Rightarrow> server \<Rightarrow> server" where
  "TimerPass dfTimeNow s =
     fold (\<lambda>p s. if dfTimeNow - snd p > s_dfClientTimeout s then remove_socket (fst p) (OnAbsentClient (fst p) s) else s)
       (s_ClientSocketList s) s"

section \<open>Serving\<close>

text \<open>What one call of \<open>ProcessClient\<close> meets: the messages of the packet, whether the reply can be
  sent, the two clock readings, and what the auditor and the date function return.\<close>

record client_io =
  io_MsgLstRx :: "moos_msg list option"
  io_bSent :: bool
  io_MOOSTime :: real
  io_MOOSLocalTime :: real
  io_timing :: "string option"
  io_date :: "real \<Rightarrow> string"

definition SetReadTime :: "int \<Rightarrow> real \<Rightarrow> server \<Rightarrow> server" where
  "SetReadTime fd t s =
     s\<lparr>s_ClientSocketList := map (\<lambda>p. if fst p = fd then (fd, t) else p) (s_ClientSocketList s)\<rparr>"

definition ProcessClient :: "client_io \<Rightarrow> int \<Rightarrow> server \<Rightarrow> bool \<times> moos_msg list option \<times> server" where
  "ProcessClient io fd s =
     (let s = SetReadTime fd (io_MOOSTime io) s
      in case io_MsgLstRx io of
           None \<Rightarrow> (False, None, s)
         | Some MsgLstRx \<Rightarrow>
             (let sWho = map_get [] (s_Socket2ClientMap s) fd;
                  s = s\<lparr>s_Socket2ClientMap := map_set fd sWho (s_Socket2ClientMap s)\<rparr>;
                  (_, MsgLstTx, db) = OnRxPkt (view (io_timing io) (io_date io) s) sWho MsgLstRx [] (s_DB s);
                  s = s\<lparr>s_DB := db\<rparr>;
                  MsgLstTx = new_msg\<lparr>m_dfVal := io_MOOSLocalTime io\<rparr> # MsgLstTx
              in (io_bSent io, if io_bSent io then Some MsgLstTx else None, s)))"

text \<open>One pass of \<open>ServerLoop\<close>: the list is rotated, then the sockets with something to read are
  served in order until one fails. \<open>io fd\<close> is what is to be read at \<open>fd\<close>.\<close>

fun serve :: "(int \<Rightarrow> client_io option) \<Rightarrow> int list \<Rightarrow> server \<Rightarrow> (int \<times> moos_msg list) list \<times> server" where
  "serve io [] s = ([], s)"
| "serve io (fd # fds) s =
     (case io fd of
        None \<Rightarrow> serve io fds s
      | Some i \<Rightarrow>
          (let (ok, reply, s) = ProcessClient i fd s
           in if \<not> ok then ([], remove_socket fd (OnClientDisconnect fd s))
              else let (rest, s) = serve io fds s
                   in ((case reply of None \<Rightarrow> rest | Some r \<Rightarrow> (fd, r) # rest), s)))"

definition ServerPass :: "(int \<Rightarrow> client_io option) \<Rightarrow> server \<Rightarrow> (int \<times> moos_msg list) list \<times> server" where
  "ServerPass io s =
     (if s_ClientSocketList s = [] then ([], s)
      else let s = s\<lparr>s_ClientSocketList := last (s_ClientSocketList s) # butlast (s_ClientSocketList s)\<rparr>
           in serve io (map fst (s_ClientSocketList s)) s)"

end
