(* ===== verification/Moos_ServerRuns.thy ===== *)
theory Moos_ServerRuns
  imports Moos_CommServer
begin

text \<open>
  What the communications server promises: no two connected clients share a name, every connected
  socket is known by one, the database only sees the calls of \<open>Moos_DBRuns\<close>, and clients that
  fall silent are forgotten.
\<close>

section \<open>The invariant\<close>

definition server_ok :: "server \<Rightarrow> bool" where
  "server_ok s \<longleftrightarrow> map_ok (s_Socket2ClientMap s) \<and> distinct (map snd (s_Socket2ClientMap s))
     \<and> distinct (map fst (s_ClientSocketList s))
     \<and> fst ` set (s_ClientSocketList s) \<subseteq> fst ` set (s_Socket2ClientMap s)"

lemma server_ok_cong:
  "s_Socket2ClientMap s' = s_Socket2ClientMap s \<Longrightarrow> map fst (s_ClientSocketList s') = map fst (s_ClientSocketList s) \<Longrightarrow>
   server_ok s' = server_ok s"
  unfolding server_ok_def by (metis list.set_map)

lemma server_ok_DB [simp]: "server_ok (s\<lparr>s_DB := db\<rparr>) = server_ok s"
  by (simp add: server_ok_def)

lemma GetMaxSocketFD_simps [simp]:
  "s_ClientSocketList (GetMaxSocketFD s) = s_ClientSocketList s"
  "s_Socket2ClientMap (GetMaxSocketFD s) = s_Socket2ClientMap s"
  "s_DB (GetMaxSocketFD s) = s_DB s" "s_dfClientTimeout (GetMaxSocketFD s) = s_dfClientTimeout s"
  "server_ok (GetMaxSocketFD s) = server_ok s"
  by (simp_all add: GetMaxSocketFD_def server_ok_def)

lemma GetClientNames_eq: "GetClientNames s = rev (map snd (s_Socket2ClientMap s))"
proof -
  have "fold (\<lambda>p l. snd p # l) ps l = rev (map snd ps) @ l" for ps :: "(int \<times> string) list" and l
    by (induction ps arbitrary: l) auto
  then show ?thesis by (simp add: GetClientNames_def)
qed

text \<open>What the database sees of the handlers.\<close>

lemma OnClientDisconnect_simps [simp]:
  "s_DB (OnClientDisconnect fd s) = snd (db_exec (Disconnect (GetClientName fd s)) (s_DB s))"
  "s_Socket2ClientMap (OnClientDisconnect fd s) = map_erase fd (s_Socket2ClientMap s)"
  "s_ClientSocketList (OnClientDisconnect fd s) = s_ClientSocketList s"
  "s_dfClientTimeout (OnClientDisconnect fd s) = s_dfClientTimeout s"
  by (auto simp: OnClientDisconnect_def Let_def map_erase_def map_of_None_notin intro!: filter_True [symmetric])

lemma OnAbsentClient_simps [simp]:
  "s_DB (OnAbsentClient fd s) = snd (db_exec (Disconnect (GetClientName fd s)) (s_DB s))"
  "s_Socket2ClientMap (OnAbsentClient fd s) = map_erase fd (s_Socket2ClientMap s)"
  "s_ClientSocketList (OnAbsentClient fd s) = s_ClientSocketList s"
  "s_dfClientTimeout (OnAbsentClient fd s) = s_dfClientTimeout s"
  by (auto simp: OnAbsentClient_def Let_def map_erase_def map_of_None_notin intro!: filter_True [symmetric])

lemma remove_socket_simps [simp]:
  "s_DB (remove_socket fd s) = s_DB s" "s_Socket2ClientMap (remove_socket fd s) = s_Socket2ClientMap s"
  "s_ClientSocketList (remove_socket fd s) = filter (\<lambda>p. fst p \<noteq> fd) (s_ClientSocketList s)"
  "s_dfClientTimeout (remove_socket fd s) = s_dfClientTimeout s"
  by (simp_all add: remove_socket_def)

lemma SetReadTime_simps [simp]:
  "s_DB (SetReadTime fd t s) = s_DB s" "s_Socket2ClientMap (SetReadTime fd t s) = s_Socket2ClientMap s"
  "map fst (s_ClientSocketList (SetReadTime fd t s)) = map fst (s_ClientSocketList s)"
  "s_dfClientTimeout (SetReadTime fd t s) = s_dfClientTimeout s"
  by (auto simp: SetReadTime_def)

lemma server_ok_gone:
  assumes "server_ok s" and "s_Socket2ClientMap s' = map_erase fd (s_Socket2ClientMap s)"
    and "s_ClientSocketList s' = filter (\<lambda>p. fst p \<noteq> fd) (s_ClientSocketList s)"
  shows "server_ok s'"
proof -
  have "fst ` set (s_ClientSocketList s') \<subseteq> fst ` set (s_Socket2ClientMap s')"
    using assms by (auto simp: server_ok_def set_map_erase)
  then show ?thesis
    using assms by (simp add: server_ok_def distinct_map_filter) (simp add: map_erase_def distinct_map_filter)
qed

lemma SetReadTime_ok [simp]: "server_ok (SetReadTime fd t s) = server_ok s"
  by (rule server_ok_cong) simp_all

text \<open>For a known socket \<open>ProcessClient\<close> is a call of the database.\<close>

definition pkt_call :: "client_io \<Rightarrow> int \<Rightarrow> moos_msg list \<Rightarrow> server \<Rightarrow> db_call" where
  "pkt_call io fd rx s = RxPkt (view (io_timing io) (io_date io) s) (GetClientName fd s) rx []"

lemma ProcessClient_eq:
  assumes "server_ok s" and "fd \<in> fst ` set (s_Socket2ClientMap s)"
  shows "ProcessClient io fd s =
    (case io_MsgLstRx io of
       None \<Rightarrow> (False, None, SetReadTime fd (io_MOOSTime io) s)
     | Some rx \<Rightarrow>
         (let (tx, db) = db_exec (pkt_call io fd rx s) (s_DB s)
          in (io_bSent io, if io_bSent io then Some (new_msg\<lparr>m_dfVal := io_MOOSLocalTime io\<rparr> # tx) else None,
              (SetReadTime fd (io_MOOSTime io) s)\<lparr>s_DB := db\<rparr>)))"
proof -
  from assms obtain n where n: "map_of (s_Socket2ClientMap s) fd = Some n"
    by (cases "map_of (s_Socket2ClientMap s) fd") (auto simp: map_of_None_notin)
  have same: "map_set fd n (s_Socket2ClientMap s) = s_Socket2ClientMap s"
    using assms(1) n by (simp add: server_ok_def)
  have v: "view t d ((SetReadTime fd u s)\<lparr>s_Socket2ClientMap := s_Socket2ClientMap s\<rparr>) = view t d s" for t d u
    by (simp add: view_def GetClientNames_def)
  show ?thesis
    using n by (cases "io_MsgLstRx io")
      (simp_all add: ProcessClient_def same map_get_def pkt_call_def GetClientName_def v case_prod_beta)
qed

section \<open>The passes\<close>

lemma db_run_simps [simp]:
  "db_run [] s = s" "db_run (call # calls) s = db_run calls (snd (db_exec call s))"
  "db_run (calls @ calls') s = db_run calls' (db_run calls s)"
  by (simp_all add: db_run_def)

definition stale :: "real \<Rightarrow> real \<Rightarrow> int \<times> real \<Rightarrow> bool" where
  "stale dfTimeNow timeout p \<longleftrightarrow> dfTimeNow - snd p > timeout"

lemma GetClientName_erase:
  "s_Socket2ClientMap s' = map_erase fd (s_Socket2ClientMap s) \<Longrightarrow> fd' \<noteq> fd \<Longrightarrow> GetClientName fd' s' = GetClientName fd' s"
  by (simp add: GetClientName_def)

lemma timer_fold:
  assumes "distinct (map fst ps)"
  shows "let s' = fold (\<lambda>p s. if dfTimeNow - snd p > s_dfClientTimeout s
                then remove_socket (fst p) (OnAbsentClient (fst p) s) else s) ps s;
             gone = filter (stale dfTimeNow (s_dfClientTimeout s)) ps
         in s_DB s' = db_run (map (\<lambda>p. Disconnect (GetClientName (fst p) s)) gone) (s_DB s)
          \<and> s_ClientSocketList s' = filter (\<lambda>p. fst p \<notin> fst ` set gone) (s_ClientSocketList s)
          \<and> s_Socket2ClientMap s' = filter (\<lambda>e. fst e \<notin> fst ` set gone) (s_Socket2ClientMap s)"
  using assms
proof (induction ps arbitrary: s)
  case Nil
  then show ?case by simp
next
  case (Cons p ps)
  show ?case
  proof (cases "dfTimeNow - snd p > s_dfClientTimeout s")
    case False
    then show ?thesis using Cons by (simp add: stale_def Let_def)
  next
    case True
    let ?s = "remove_socket (fst p) (OnAbsentClient (fst p) s)"
    have n: "GetClientName (fst q) ?s = GetClientName (fst q) s" if "q \<in> set ps" for q
    proof (rule GetClientName_erase)
      show "fst q \<noteq> fst p" using that Cons.prems by (auto simp: image_iff)
    qed simp
    have d: "map (\<lambda>q. Disconnect (GetClientName (fst q) ?s)) (filter P ps)
        = map (\<lambda>q. Disconnect (GetClientName (fst q) s)) (filter P ps)" for P
      using n by simp
    have st: "stale dfTimeNow (s_dfClientTimeout s) p" using True by (simp add: stale_def)
    have "distinct (map fst ps)" using Cons.prems by simp
    from Cons.IH [OF this, of ?s] show ?thesis
      using True st by (simp add: Let_def d map_erase_def conj_commute cong: filter_cong)
  qed
qed

text \<open>A pass of the server loop makes calls of the served clients only.\<close>

definition served_call :: "(int \<Rightarrow> client_io option) \<Rightarrow> server \<Rightarrow> int list \<Rightarrow> db_call \<Rightarrow> bool" where
  "served_call io s fds call \<longleftrightarrow> (\<exists>fd \<in> set fds. \<exists>i. io fd = Some i
     \<and> ((\<exists>sv rx tx. io_MsgLstRx i = Some rx \<and> call = RxPkt sv (GetClientName fd s) rx tx)
        \<or> call = Disconnect (GetClientName fd s)))"

lemma served_call_cong:
  "served_call io s' fds call \<Longrightarrow> (\<And>fd. fd \<in> set fds \<Longrightarrow> GetClientName fd s' = GetClientName fd s) \<Longrightarrow>
   served_call io s (fd' # fds) call"
  by (fastforce simp: served_call_def)

lemma process_calls:
  assumes "server_ok s" "fd \<in> fst ` set (s_Socket2ClientMap s)" "io fd = Some i"
    and pc: "ProcessClient i fd s = (ok, reply, s1)"
  shows "s_Socket2ClientMap s1 = s_Socket2ClientMap s" "server_ok s1" "s_dfClientTimeout s1 = s_dfClientTimeout s"
    "\<exists>c1. s_DB s1 = db_run c1 (s_DB s) \<and> (\<forall>call \<in> set c1. served_call io s (fd # fds) call)"
proof -
  show "s_Socket2ClientMap s1 = s_Socket2ClientMap s" "server_ok s1" "s_dfClientTimeout s1 = s_dfClientTimeout s"
    using pc assms(1) unfolding ProcessClient_eq [OF assms(1,2)]
    by (auto simp: case_prod_beta Let_def split: option.splits)
  show "\<exists>c1. s_DB s1 = db_run c1 (s_DB s) \<and> (\<forall>call \<in> set c1. served_call io s (fd # fds) call)"
  proof (cases "io_MsgLstRx i")
    case None
    then show ?thesis using pc unfolding ProcessClient_eq [OF assms(1,2)]
      by (intro exI [of _ "[]"]) auto
  next
    case (Some rx)
    then show ?thesis using pc assms(3) unfolding ProcessClient_eq [OF assms(1,2)]
      by (intro exI [of _ "[pkt_call i fd rx s]"]) (auto simp: case_prod_beta Let_def served_call_def pkt_call_def)
  qed
qed

lemma serve_calls:
  assumes "server_ok s" and "set fds \<subseteq> fst ` set (s_Socket2ClientMap s)" and "distinct fds"
  shows "\<exists>calls. s_DB (snd (serve io fds s)) = db_run calls (s_DB s)
     \<and> server_ok (snd (serve io fds s)) \<and> (\<forall>call \<in> set calls. served_call io s fds call)
     \<and> (\<forall>fd. (fd \<notin> set fds \<or> io fd = None) \<longrightarrow>
          map_of (s_Socket2ClientMap (snd (serve io fds s))) fd = map_of (s_Socket2ClientMap s) fd)
     \<and> s_dfClientTimeout (snd (serve io fds s)) = s_dfClientTimeout s"
  using assms
proof (induction fds arbitrary: s)
  case Nil
  then show ?case by (intro exI [of _ "[]"]) simp
next
  case (Cons fd fds)
  have fd: "fd \<in> fst ` set (s_Socket2ClientMap s)" using Cons.prems by simp
  show ?case
  proof (cases "io fd")
    case None
    obtain calls where "s_DB (snd (serve io fds s)) = db_run calls (s_DB s)"
      "server_ok (snd (serve io fds s))" "\<forall>call \<in> set calls. served_call io s fds call"
      "\<forall>fd. (fd \<notin> set fds \<or> io fd = None) \<longrightarrow>
          map_of (s_Socket2ClientMap (snd (serve io fds s))) fd = map_of (s_Socket2ClientMap s) fd"
      "s_dfClientTimeout (snd (serve io fds s)) = s_dfClientTimeout s"
      using Cons.IH [of s] Cons.prems by auto
    then show ?thesis using None
      by (intro exI [of _ calls]) (auto intro: served_call_cong)
  next
    case (Some i)
    obtain ok reply s1 where pc: "ProcessClient i fd s = (ok, reply, s1)" by (metis prod_cases3)
    note same = process_calls(1,2,3) [where io = io, OF Cons.prems(1) fd Some pc]
    obtain c1 where c1: "s_DB s1 = db_run c1 (s_DB s)" "\<forall>call \<in> set c1. served_call io s (fd # fds) call"
      using process_calls(4) [where io = io, OF Cons.prems(1) fd Some pc] by blast
    have names: "GetClientName x s1 = GetClientName x s" for x by (simp add: GetClientName_def same)
    show ?thesis
    proof (cases ok)
      case False
      let ?s = "remove_socket fd (OnClientDisconnect fd s1)"
      have e: "snd (serve io (fd # fds) s) = ?s" using False pc Some by simp
      have "server_ok ?s" by (rule server_ok_gone [OF same(2), of _ fd]) simp_all
      moreover have "s_DB ?s = db_run (c1 @ [Disconnect (GetClientName fd s)]) (s_DB s)" by (simp add: c1 names)
      moreover have "served_call io s (fd # fds) (Disconnect (GetClientName fd s))"
        using Some by (simp add: served_call_def)
      ultimately show ?thesis using c1(2) Some
        by (intro exI [of _ "c1 @ [Disconnect (GetClientName fd s)]"]) (auto simp: e same simp del: serve.simps)
    next
      case True
      have e: "snd (serve io (fd # fds) s) = snd (serve io fds s1)"
        using True pc Some by (simp add: case_prod_beta)
      obtain c2 where "s_DB (snd (serve io fds s1)) = db_run c2 (s_DB s1)"
        "server_ok (snd (serve io fds s1))" "\<forall>call \<in> set c2. served_call io s1 fds call"
        "\<forall>fd. (fd \<notin> set fds \<or> io fd = None) \<longrightarrow>
            map_of (s_Socket2ClientMap (snd (serve io fds s1))) fd = map_of (s_Socket2ClientMap s1) fd"
        "s_dfClientTimeout (snd (serve io fds s1)) = s_dfClientTimeout s1"
        using Cons.IH [of s1] Cons.prems same by auto
      then show ?thesis using c1 Some
        by (intro exI [of _ "c1 @ c2"]) (auto simp: e same intro: served_call_cong [of io s1 fds _ s] names simp del: serve.simps)
    qed
  qed
qed

section \<open>Runs\<close>

datatype server_call =
  Accept int "string option" "string + moos_msg option" bool string real real
| Serve "int \<Rightarrow> client_io option"
| Timer real

fun server_exec :: "server_call \<Rightarrow> server \<Rightarrow> server" where
  "server_exec (Accept fd protocol hello bSent ip now t) s = snd (AcceptClient fd protocol hello bSent ip now t s)"
| "server_exec (Serve io) s = snd (ServerPass io s)"
| "server_exec (Timer t) s = TimerPass t s"

text \<open>A new socket has a descriptor no open socket has.\<close>

definition fresh_fd :: "server_call \<Rightarrow> server \<Rightarrow> bool" where
  "fresh_fd call s \<longleftrightarrow>
     (case call of Accept fd _ _ _ _ _ _ \<Rightarrow> fd \<notin> fst ` set (s_ClientSocketList s) | _ \<Rightarrow> True)"

inductive server_reach :: "server \<Rightarrow> bool" where
  sreach_start: "db_reach db \<Longrightarrow> server_reach (snd (SetClientTimeout t (new_server db))\<lparr>s_sCommunityName := n\<rparr>)"
| sreach_step: "server_reach s \<Longrightarrow> fresh_fd call s \<Longrightarrow> server_reach (server_exec call s)"

lemma ServerHandShake_ok:
  assumes "server_ok s"
  shows "server_ok (snd (snd (ServerHandShake fd p h b ip now s)))"
    and "s_DB (snd (snd (ServerHandShake fd p h b ip now s))) = s_DB s"
    and "s_ClientSocketList (snd (snd (ServerHandShake fd p h b ip now s))) = s_ClientSocketList s"
    and "fst (ServerHandShake fd p h b ip now s) \<Longrightarrow>
      fd \<in> fst ` set (s_Socket2ClientMap (snd (snd (ServerHandShake fd p h b ip now s))))"
proof -
  have u: "IsUniqueName n s \<Longrightarrow> distinct (map snd (map_set fd n m))"
    if "distinct (map snd m)" "\<forall>p \<in> set m. snd p \<noteq> n" for n m
    using that by (induction m) (auto dest!: map_set_elem)
  then show "server_ok (snd (snd (ServerHandShake fd p h b ip now s)))"
    using assms
    by (auto simp: ServerHandShake_def Let_def server_ok_def IsUniqueName_def fst_set_map_set
        split: option.splits sum.splits)
qed (auto simp: ServerHandShake_def Let_def fst_set_map_set split: option.splits sum.splits if_splits)

lemma AcceptClient_ok:
  assumes "server_ok s" and "fd \<notin> fst ` set (s_ClientSocketList s)"
  shows "server_ok (snd (AcceptClient fd p h b ip now t s))"
    and "s_DB (snd (AcceptClient fd p h b ip now t s)) = s_DB s
       \<or> (\<exists>n. s_DB (snd (AcceptClient fd p h b ip now t s)) = snd (db_exec (Connect n) (s_DB s)))"
  using ServerHandShake_ok [OF assms(1), of fd p h b ip now] assms(2)
  by (auto simp: AcceptClient_def OnNewClient_def case_prod_beta server_ok_def)

lemma TimerPass_calls:
  assumes "server_ok s"
  shows "s_DB (TimerPass now s) = db_run (map (\<lambda>p. Disconnect (GetClientName (fst p) s))
      (filter (stale now (s_dfClientTimeout s)) (s_ClientSocketList s))) (s_DB s)"
    and "s_ClientSocketList (TimerPass now s) = filter (\<lambda>p. \<not> stale now (s_dfClientTimeout s) p) (s_ClientSocketList s)"
    and "s_Socket2ClientMap (TimerPass now s) = filter (\<lambda>e. fst e \<notin> fst ` set (filter (stale now (s_dfClientTimeout s)) (s_ClientSocketList s)))
      (s_Socket2ClientMap s)"
    and "server_ok (TimerPass now s)"
proof -
  have d: "distinct (map fst (s_ClientSocketList s))" using assms by (simp add: server_ok_def)
  note f = timer_fold [OF d, of now s, folded TimerPass_def, unfolded Let_def]
  show "s_DB (TimerPass now s) = db_run (map (\<lambda>p. Disconnect (GetClientName (fst p) s))
      (filter (stale now (s_dfClientTimeout s)) (s_ClientSocketList s))) (s_DB s)"
    and m: "s_Socket2ClientMap (TimerPass now s) = filter (\<lambda>e. fst e \<notin> fst ` set (filter (stale now (s_dfClientTimeout s)) (s_ClientSocketList s)))
      (s_Socket2ClientMap s)"
    using f by auto
  have inj: "p \<in> set (s_ClientSocketList s) \<Longrightarrow> q \<in> set (s_ClientSocketList s) \<Longrightarrow> fst p = fst q \<Longrightarrow> p = q" for p q
    using d by (meson distinct_map inj_on_eq_iff)
  then show l: "s_ClientSocketList (TimerPass now s) = filter (\<lambda>p. \<not> stale now (s_dfClientTimeout s) p) (s_ClientSocketList s)"
    using f by (auto intro!: filter_cong)
  have "fst ` set (s_ClientSocketList (TimerPass now s)) \<subseteq> fst ` set (s_Socket2ClientMap (TimerPass now s))"
  proof (rule subsetI, elim imageE)
    fix fd p
    assume p: "fd = fst p" "p \<in> set (s_ClientSocketList (TimerPass now s))"
    then have q: "p \<in> set (s_ClientSocketList s)" "\<not> stale now (s_dfClientTimeout s) p" by (simp_all add: l)
    then obtain e where "e \<in> set (s_Socket2ClientMap s)" "fst e = fd"
      using assms p(1) by (auto simp: server_ok_def)
    moreover have "fd \<notin> fst ` set (filter (stale now (s_dfClientTimeout s)) (s_ClientSocketList s))"
      using q inj [of p] p(1) by fastforce
    ultimately show "fd \<in> fst ` set (s_Socket2ClientMap (TimerPass now s))"
      by (force simp: m)
  qed
  moreover have "map_ok (filter P (s_Socket2ClientMap s))" for P
    using assms by (simp add: server_ok_def map_ok_def sorted_wrt_map sorted_wrt_filter)
  ultimately show "server_ok (TimerPass now s)"
    using assms unfolding server_ok_def m l by (simp add: distinct_map_filter)
qed

lemma ServerPass_calls:
  assumes "server_ok s"
  shows "\<exists>calls. s_DB (snd (ServerPass io s)) = db_run calls (s_DB s)
     \<and> server_ok (snd (ServerPass io s))
     \<and> (\<forall>call \<in> set calls. served_call io s (map fst (s_ClientSocketList s)) call)
     \<and> (\<forall>fd. (fd \<notin> fst ` set (s_ClientSocketList s) \<or> io fd = None) \<longrightarrow>
          map_of (s_Socket2ClientMap (snd (ServerPass io s))) fd = map_of (s_Socket2ClientMap s) fd)"
proof (cases "s_ClientSocketList s = []")
  case True
  then show ?thesis using assms by (intro exI [of _ "[]"]) (simp add: ServerPass_def)
next
  case False
  define l where "l = last (s_ClientSocketList s) # butlast (s_ClientSocketList s)"
  let ?s = "s\<lparr>s_ClientSocketList := l\<rparr>"
  have e: "butlast (s_ClientSocketList s) @ [last (s_ClientSocketList s)] = s_ClientSocketList s" using False by simp
  have set: "set l = set (s_ClientSocketList s)" using arg_cong [OF e, of set] by (auto simp: l_def)
  have "distinct (map fst (butlast (s_ClientSocketList s) @ [last (s_ClientSocketList s)]))"
    using assms unfolding e by (simp add: server_ok_def)
  then have d: "distinct (map fst l)" by (auto simp: l_def)
  have ok: "server_ok ?s" using assms d set by (simp add: server_ok_def)
  have "set (map fst l) \<subseteq> fst ` set (s_Socket2ClientMap ?s)"
    using assms by (simp add: server_ok_def set)
  moreover have "served_call io ?s (map fst l) call = served_call io s (map fst (s_ClientSocketList s)) call" for call
    by (simp add: served_call_def GetClientName_def set)
  moreover have "ServerPass io s = serve io (map fst l) ?s" using False by (simp add: ServerPass_def l_def Let_def del: serve.simps)
  ultimately show ?thesis
    using serve_calls [OF ok _ d, of io] by (simp add: set) blast
qed

lemma db_reach_run: "db_reach s \<Longrightarrow> db_reach (db_run calls s)"
  by (induction calls arbitrary: s) (auto intro: reach_step)

lemma server_reach_ok: "server_reach s \<Longrightarrow> server_ok s \<and> db_reach (s_DB s)"
proof (induction rule: server_reach.induct)
  case (sreach_start db t n)
  then show ?case by (simp add: SetClientTimeout_def new_server_def server_ok_def)
next
  case (sreach_step s call)
  then have ok: "server_ok s" and db: "db_reach (s_DB s)" by simp_all
  show ?case
  proof (cases call)
    case (Accept fd p h b ip now t)
    then show ?thesis
      using AcceptClient_ok [OF ok, of fd p h b ip now t] db reach_step [OF db] sreach_step.hyps(2)
      by (auto simp: fresh_fd_def simp del: db_exec.simps)
  next
    case (Serve io)
    then show ?thesis using ServerPass_calls [OF ok, of io] db by (auto intro: db_reach_run)
  next
    case (Timer t)
    then show ?thesis using TimerPass_calls [OF ok, of t] db by (simp add: db_reach_run)
  qed
qed

section \<open>Names and silence\<close>

text \<open>C34: in every state the server can reach, the descriptors map to distinct client names, every
  connected socket has one, and its database is in a state reachable by the calls of
  \<open>Moos_DBRuns\<close>, so all that is proved of those holds of it.\<close>

theorem server_reachable:
  assumes "server_reach s"
  shows "distinct (GetClientNames s) \<and> distinct (map fst (s_ClientSocketList s))
     \<and> (\<forall>p \<in> set (s_ClientSocketList s). map_of (s_Socket2ClientMap s) (fst p) \<noteq> None)
     \<and> db_reach (s_DB s)"
  using server_reach_ok [OF assms] by (auto simp: server_ok_def GetClientNames_eq map_of_None_notin)

text \<open>A client is welcomed exactly when it speaks the protocol, sends a name in time that no
  other client has, and the welcome can be sent; then its socket has that name and the database
  has been told. A refused client leaves the database alone.\<close>

theorem handshake_outcome:
  assumes "OnNewClient fd protocol hello bSent ip now s = (ok, answer, s')"
  shows "(ok \<longleftrightarrow> CheckProtocol protocol \<and> bSent \<and> (\<exists>M. hello = Inr (Some M) \<and> IsUniqueName (m_sVal M) s))
     \<and> (ok \<longrightarrow> (\<exists>M. hello = Inr (Some M) \<and> GetClientName fd s' = m_sVal M
            \<and> s_DB s' = snd (OnConnect (m_sVal M) (s_DB s))
            \<and> (\<exists>W. answer = Some W \<and> IsType W MOOS_WELCOME)))
     \<and> (\<not> ok \<longrightarrow> s_DB s' = s_DB s \<and> (\<forall>P. answer = Some P \<longrightarrow> IsType P MOOS_POISON))"
  using assms
  by (auto simp: OnNewClient_def ServerHandShake_def Let_def GetClientName_def poison_msg_def welcome_msg_def
      IsType_def msg_string_def msg_double_def split: if_splits option.splits sum.splits)

text \<open>When the welcome cannot be sent the client is refused but its name stays taken: until its
  descriptor is given to another client, nobody else can connect under that name.\<close>

theorem welcome_lost:
  assumes "CheckProtocol protocol" and "IsUniqueName (m_sVal M) s"
    and "OnNewClient fd protocol (Inr (Some M)) False ip now s = (ok, answer, s')"
    and "m_sVal M' = m_sVal M"
  shows "\<not> ok \<and> answer = None \<and> \<not> fst (OnNewClient fd' protocol' (Inr (Some M')) bSent' ip' now' s')"
proof -
  have "map_of (s_Socket2ClientMap s') fd = Some (m_sVal M)" and o: "\<not> ok \<and> answer = None"
    using assms(1-3) by (auto simp: OnNewClient_def ServerHandShake_def Let_def split: if_splits)
  then have "(fd, m_sVal M) \<in> set (s_Socket2ClientMap s')" by (simp add: map_of_SomeD)
  then have "\<not> IsUniqueName (m_sVal M) s'" by (force simp: IsUniqueName_def)
  then show ?thesis using o assms(4) by (simp add: OnNewClient_def ServerHandShake_def Let_def)
qed

lemma server_names:
  assumes "server_ok s" "p \<in> set (s_ClientSocketList s)"
  shows "(fst p, GetClientName (fst p) s) \<in> set (s_Socket2ClientMap s)"
    "q \<in> set (s_ClientSocketList s) \<Longrightarrow> fst q = fst p \<Longrightarrow> q = p"
    "e \<in> set (s_Socket2ClientMap s) \<Longrightarrow> snd e = GetClientName (fst p) s \<Longrightarrow> fst e = fst p"
proof -
  show n: "(fst p, GetClientName (fst p) s) \<in> set (s_Socket2ClientMap s)"
    using assms unfolding server_ok_def GetClientName_def
    by (cases "map_of (s_Socket2ClientMap s) (fst p)") (auto simp: map_of_None_notin dest: map_of_SomeD)
  show "q \<in> set (s_ClientSocketList s) \<Longrightarrow> fst q = fst p \<Longrightarrow> q = p"
    using assms by (auto simp: server_ok_def distinct_map dest: inj_onD)
  show "e \<in> set (s_Socket2ClientMap s) \<Longrightarrow> snd e = GetClientName (fst p) s \<Longrightarrow> fst e = fst p"
    using assms(1) n inj_onD [of snd "set (s_Socket2ClientMap s)" e "(fst p, GetClientName (fst p) s)"]
    by (simp add: server_ok_def distinct_map)
qed

lemma timer_keeps_name:
  assumes "server_ok s" "p \<in> set (s_ClientSocketList s)" "\<not> stale now (s_dfClientTimeout s) p"
  shows "GetClientName (fst p) (TimerPass now s) = GetClientName (fst p) s"
proof -
  let ?gone = "filter (stale now (s_dfClientTimeout s)) (s_ClientSocketList s)"
  have m: "map_of (filter Q m) fd = map_of m fd" if "\<And>v. Q (fd, v)" for Q and m :: "(int, string) omap" and fd
    using that by (induction m) auto
  have "fst p \<notin> fst ` set ?gone"
  proof
    assume "fst p \<in> fst ` set ?gone"
    then obtain q where "q \<in> set ?gone" "fst p = fst q" by (elim imageE)
    then show False using assms(3) server_names(2) [OF assms(1,2), of q] by simp
  qed
  then show ?thesis by (simp add: GetClientName_def TimerPass_calls(3) [OF assms(1)] m)
qed

lemma timer_frees_name:
  assumes "server_ok s" "p \<in> set (s_ClientSocketList s)" "stale now (s_dfClientTimeout s) p"
  shows "IsUniqueName (GetClientName (fst p) s) (TimerPass now s)"
proof (unfold IsUniqueName_def TimerPass_calls(3) [OF assms(1)], rule ballI)
  let ?gone = "filter (stale now (s_dfClientTimeout s)) (s_ClientSocketList s)"
  fix e assume e: "e \<in> set (filter (\<lambda>e. fst e \<notin> fst ` set ?gone) (s_Socket2ClientMap s))"
  have "fst p \<in> fst ` set ?gone" using assms by simp
  moreover have "fst e \<notin> fst ` set ?gone" using e by simp
  ultimately have "fst e \<noteq> fst p" by metis
  then show "snd e \<noteq> GetClientName (fst p) s" using e server_names(3) [OF assms(1,2), of e] by (auto simp del: prod.collapse)
qed

lemma timer_quiets:
  assumes "server_ok s" "db_ok (s_DB s)" "p \<in> set (s_ClientSocketList s)" "stale now (s_dfClientTimeout s) p"
  shows "quiet (GetClientName (fst p) s) (s_DB (TimerPass now s))"
proof -
  let ?gone = "filter (stale now (s_dfClientTimeout s)) (s_ClientSocketList s)"
  have "p \<in> set ?gone" using assms(3,4) by simp
  then obtain xs ys where g: "?gone = xs @ p # ys" by (meson split_list)
  have "db_ok (db_run calls (s_DB s))" for calls
    by (rule db_inv.inv_run) (simp_all add: assms(2))
  moreover have "\<forall>call \<in> set (map (\<lambda>p. Disconnect (GetClientName (fst p) s)) ps). \<not> sends c call" for c ps
    by (simp add: sends_def)
  ultimately have "quiet (GetClientName (fst p) s) (db_run (map (\<lambda>p. Disconnect (GetClientName (fst p) s)) ys)
      (snd (OnDisconnect (GetClientName (fst p) s) (db_run (map (\<lambda>p. Disconnect (GetClientName (fst p) s)) xs) (s_DB s)))))"
    by (intro quiet_run quiet_after_disconnect)
  then show ?thesis unfolding TimerPass_calls(1) [OF assms(1)] g by simp
qed

text \<open>C36: a pass of the timer disconnects exactly the clients that have been silent for longer than
  the time-out: the others keep their sockets and names, and of those gone the database holds no
  mail, no subscription and no filter, and their names are free.\<close>

theorem timer_forgets:
  assumes "server_ok s" and "db_ok (s_DB s)"
  shows "s_ClientSocketList (TimerPass now s)
       = filter (\<lambda>p. now - snd p \<le> s_dfClientTimeout s) (s_ClientSocketList s)
     \<and> (\<forall>p \<in> set (s_ClientSocketList s).
          if now - snd p \<le> s_dfClientTimeout s
          then GetClientName (fst p) (TimerPass now s) = GetClientName (fst p) s
          else IsUniqueName (GetClientName (fst p) s) (TimerPass now s)
            \<and> box (s_DB (TimerPass now s)) (GetClientName (fst p) s) = []
            \<and> filters_of (s_DB (TimerPass now s)) (GetClientName (fst p) s) = []
            \<and> (\<forall>k. sub_of (s_DB (TimerPass now s)) (GetClientName (fst p) s) k = None))"
proof -
  have stale: "stale now (s_dfClientTimeout s) p \<longleftrightarrow> \<not> now - snd p \<le> s_dfClientTimeout s" for p
    by (auto simp: stale_def)
  have "s_ClientSocketList (TimerPass now s) = filter (\<lambda>p. now - snd p \<le> s_dfClientTimeout s) (s_ClientSocketList s)"
    using TimerPass_calls(2) [OF assms(1), of now] by (simp add: stale)
  moreover have "if now - snd p \<le> s_dfClientTimeout s
          then GetClientName (fst p) (TimerPass now s) = GetClientName (fst p) s
          else IsUniqueName (GetClientName (fst p) s) (TimerPass now s)
            \<and> box (s_DB (TimerPass now s)) (GetClientName (fst p) s) = []
            \<and> filters_of (s_DB (TimerPass now s)) (GetClientName (fst p) s) = []
            \<and> (\<forall>k. sub_of (s_DB (TimerPass now s)) (GetClientName (fst p) s) k = None)"
    if "p \<in> set (s_ClientSocketList s)" for p
    using timer_keeps_name [OF assms(1) that] timer_frees_name [OF assms(1) that] timer_quiets [OF assms that]
    by (simp add: stale quiet_def)
  ultimately show ?thesis by blast
qed

end
