(* ===== verification/Moos_Threaded.thy ===== *)
theory Moos_Threaded
  imports Moos_ServerRuns
begin

text \<open>
  The threaded communications server \<open>MOOS::ThreadedCommServer\<close>
  (\<open>Comms/ThreadedCommServer.cpp\<close>), which the database runs: a reader thread per client, a
  writer thread per asynchronous client, and the server thread that takes what the readers push.

  \<^item> \<open>SafeList\<close> (\<open>Utils/SafeList.h\<close>) is a list, pushed at its end and pulled at its front.
  \<^item> The threads interleave in the steps between which they touch shared data: \<open>t_exec\<close> is one
    step of one of them. The steps of the listening and the server thread that change the
    clients hold the lock of the socket list and are atomic.
  \<^item> \<open>t_bTerminated\<close> is set when an exception ends the process; no step follows.
  \<^item> The base class part of the object is the field \<open>t_Base\<close>. Starting a thread and \<open>select\<close> are
    taken to succeed (after a failing \<open>select\<close> the reader ends without a word); the statistics of the auditor reach the database through the timing summary, an
    argument.
\<close>

section \<open>State\<close>

datatype sd_status = NOT_INITIALISED | PKT_READ | CONNECTION_CLOSED | PKT_WRITE | STOP_THREAD

text \<open>The messages of the packet: \<open>None\<close> when unpacking it throws, which is a \<open>std::length_error\<close>: the
  other exception of unpacking is caught inside (\<open>Moos_Wire\<close>).\<close>

record shared_data =
  sd_sClientName :: string
  sd_Status :: sd_status
  sd_Pkt :: "moos_msg list option"

text \<open>Where the reader of a client is: at \<open>select\<close>, waiting in \<open>HandleClientWrite\<close> for the reply
  (synchronous clients), or at its end.\<close>

datatype reader = Reading | Waiting | Finished

record client_thread =
  th_sClientName :: string
  th_Socket :: int
  th_bAsynchronous :: bool
  th_dfConsolidationPeriod :: real
  th_dfClientTimeout :: real
  th_DataOutgoing :: "shared_data list"
  th_Reader :: reader
  th_bWriting :: bool

record tserver =
  t_Base :: server
  t_ClientThreads :: "(string, client_thread) omap"
  t_DataFromClient :: "shared_data list"
  t_OldClientThreads :: "client_thread list"
  t_ClientTimingVector :: "(string \<times> real) list"
  t_bTerminated :: bool

definition new_tserver :: "server \<Rightarrow> tserver" where
  "new_tserver s = \<lparr>t_Base = s, t_ClientThreads = [], t_DataFromClient = [], t_OldClientThreads = [],
     t_ClientTimingVector = [], t_bTerminated = False\<rparr>"

definition set_DB :: "db \<Rightarrow> tserver \<Rightarrow> tserver" where
  "set_DB db t = t\<lparr>t_Base := (t_Base t)\<lparr>s_DB := db\<rparr>\<rparr>"

definition set_thread :: "string \<Rightarrow> client_thread \<Rightarrow> tserver \<Rightarrow> tserver" where
  "set_thread n th t = t\<lparr>t_ClientThreads := map_set n th (t_ClientThreads t)\<rparr>"

section \<open>Response times\<close>

text \<open>One entry of the option \<open>--response\<close>, which \<open>CMOOSCommServer::Run\<close> reads: a name or pattern
  and a time in milliseconds. An entry whose time is not a number is skipped.\<close>

definition parse_response :: "string \<Rightarrow> (string \<times> real) option" where
  "parse_response q =
     (let (sClient, sNum) = (if CHR '':'' \<in> set q then MOOSChomp q '':'' False else (''*'', q))
      in map_option (Pair sClient) (StringToDouble sNum))"

definition has_wild :: "string \<Rightarrow> bool" where
  "has_wild sClient \<longleftrightarrow> find_first (\<lambda>c. c \<in> set ''*?'') 0 sClient \<noteq> None"

definition add_response :: "string \<Rightarrow> (string \<times> real) list \<Rightarrow> (string \<times> real) list" where
  "add_response q v =
     (case parse_response q of
        None \<Rightarrow> v
      | Some e \<Rightarrow> (if has_wild (fst e) then e # v else v @ [e]))"

definition SetResponses :: "string \<Rightarrow> tserver \<Rightarrow> tserver" where
  "SetResponses sLatency t =
     t\<lparr>t_ClientTimingVector := fold add_response (StringListToVector sLatency '','') (t_ClientTimingVector t)\<rparr>"

definition ConsolidationTime :: "string \<Rightarrow> (string \<times> real) list \<Rightarrow> real" where
  "ConsolidationTime sName v =
     (case find (\<lambda>(p, _). MOOSWildCmp p sName) v of None \<Rightarrow> 0 | Some (_, dfT) \<Rightarrow> dfT)"

section \<open>Connecting\<close>

definition AddAndStartClientThread :: "int \<Rightarrow> string \<Rightarrow> tserver \<Rightarrow> bool \<times> tserver" where
  "AddAndStartClientThread fd sName t =
     (if map_of (t_ClientThreads t) sName \<noteq> None then (False, t)
      else let bAsync = sName \<in> set (s_AsynchronousClientSet (t_Base t))
           in (True, set_thread sName
                \<lparr>th_sClientName = sName, th_Socket = fd, th_bAsynchronous = bAsync,
                 th_dfConsolidationPeriod = ConsolidationTime sName (t_ClientTimingVector t) / 1000,
                 th_dfClientTimeout = s_dfClientTimeout (t_Base t), th_DataOutgoing = [],
                 th_Reader = Reading, th_bWriting = bAsync\<rparr> t))"

definition ThreadedOnNewClient ::
    "int \<Rightarrow> string option \<Rightarrow> string + moos_msg option \<Rightarrow> bool \<Rightarrow> string \<Rightarrow> real \<Rightarrow> tserver
      \<Rightarrow> bool \<times> moos_msg option \<times> tserver" where
  "ThreadedOnNewClient fd protocol hello bSent local_ip now t =
     (let (ok, answer, s) = OnNewClient fd protocol hello bSent local_ip now (t_Base t);
          t = t\<lparr>t_Base := s\<rparr>
      in if \<not> ok then (False, answer, t)
         else let (ok, t) = AddAndStartClientThread fd (GetClientName fd s) t in (ok, answer, t))"

text \<open>\<open>ListenLoop\<close> with the overridden \<open>OnNewClient\<close>.\<close>

definition ThreadedAccept ::
    "int \<Rightarrow> string option \<Rightarrow> string + moos_msg option \<Rightarrow> bool \<Rightarrow> string \<Rightarrow> real \<Rightarrow> real \<Rightarrow> tserver
      \<Rightarrow> moos_msg option \<times> tserver" where
  "ThreadedAccept fd protocol hello bSent local_ip now u t =
     (let (ok, answer, t) = ThreadedOnNewClient fd protocol hello bSent local_ip now t
      in (answer,
          if ok then t\<lparr>t_Base := GetMaxSocketFD ((t_Base t)\<lparr>s_ClientSocketList := (fd, u) # s_ClientSocketList (t_Base t)\<rparr>)\<rparr>
          else t))"

section \<open>The threads of a client\<close>

text \<open>\<open>ClientThread::OnClientDisconnect\<close>; the reader ends after it.\<close>

definition ThreadOnClientDisconnect :: "client_thread \<Rightarrow> tserver \<Rightarrow> tserver" where
  "ThreadOnClientDisconnect th t =
     (let SD = \<lparr>sd_sClientName = th_sClientName th, sd_Status = CONNECTION_CLOSED, sd_Pkt = Some []\<rparr>;
          t = t\<lparr>t_DataFromClient := t_DataFromClient t @ [SD]\<rparr>;
          th = (if th_bAsynchronous th then th\<lparr>th_DataOutgoing := th_DataOutgoing th @ [SD]\<rparr> else th)
      in set_thread (th_sClientName th) (th\<lparr>th_Reader := Finished\<rparr>) t)"

text \<open>\<open>AsynchronousReadLoop\<close> with something to read, and \<open>HandleClientWrite\<close> up to the point where a
  synchronous reader waits: the packet read, or \<open>None\<close> when reading throws.\<close>

definition ReadStep :: "moos_msg list option option \<Rightarrow> real \<Rightarrow> client_thread \<Rightarrow> tserver \<Rightarrow> tserver" where
  "ReadStep packet now th t =
     (if th_Reader th \<noteq> Reading then t
      else case packet of
             None \<Rightarrow> ThreadOnClientDisconnect th t
           | Some pkt \<Rightarrow>
               (let t = t\<lparr>t_Base := SetReadTime (th_Socket th) now (t_Base t),
                          t_DataFromClient := t_DataFromClient t
                            @ [\<lparr>sd_sClientName = th_sClientName th, sd_Status = PKT_READ, sd_Pkt = pkt\<rparr>]\<rparr>
                in set_thread (th_sClientName th)
                     (th\<lparr>th_Reader := (if th_bAsynchronous th then Reading else Waiting)\<rparr>) t))"

text \<open>\<open>AsynchronousReadLoop\<close> when \<open>select\<close> times out, \<open>dfSilent\<close> after the last good packet.\<close>

definition SilenceStep :: "real \<Rightarrow> client_thread \<Rightarrow> tserver \<Rightarrow> tserver" where
  "SilenceStep dfSilent th t =
     (if th_Reader th = Reading \<and> dfSilent > th_dfClientTimeout th then ThreadOnClientDisconnect th t else t)"

text \<open>The rest of \<open>HandleClientWrite\<close> for a synchronous client: what is sent to it.\<close>

definition ReplyStep :: "bool \<Rightarrow> client_thread \<Rightarrow> tserver \<Rightarrow> moos_msg list option \<times> tserver" where
  "ReplyStep bSent th t =
     (if th_Reader th \<noteq> Waiting then (None, t)
      else case th_DataOutgoing th of
             [] \<Rightarrow> (None, t)
           | SD # rest \<Rightarrow>
               (let th = th\<lparr>th_DataOutgoing := rest\<rparr>
                in if sd_Status SD \<noteq> PKT_WRITE \<or> \<not> bSent then (None, ThreadOnClientDisconnect th t)
                   else (sd_Pkt SD, set_thread (th_sClientName th) (th\<lparr>th_Reader := Reading\<rparr>) t)))"

text \<open>One round of \<open>AsynchronousWriteLoop\<close>: the packet sent, and the thread.\<close>

definition WriteStep :: "bool \<Rightarrow> client_thread \<Rightarrow> moos_msg list option \<times> client_thread" where
  "WriteStep bSent th =
     (if \<not> th_bWriting th then (None, th)
      else case th_DataOutgoing th of
             [] \<Rightarrow> (None, th)
           | SD # rest \<Rightarrow>
               (let th = th\<lparr>th_DataOutgoing := rest\<rparr>
                in if sd_Status SD \<in> {CONNECTION_CLOSED, STOP_THREAD} then (None, th\<lparr>th_bWriting := False\<rparr>)
                   else if sd_Status SD = PKT_WRITE
                   then (if bSent then (sd_Pkt SD, th) else (None, th\<lparr>th_bWriting := False\<rparr>))
                   else (None, th)))"

section \<open>The server thread\<close>

definition SendToClient :: "shared_data \<Rightarrow> client_thread \<Rightarrow> client_thread" where
  "SendToClient OutGoing th = th\<lparr>th_DataOutgoing := th_DataOutgoing th @ [OutGoing]\<rparr>"

definition send_to :: "string \<Rightarrow> string \<Rightarrow> moos_msg list \<Rightarrow> tserver \<Rightarrow> tserver" where
  "send_to n sWho Msgs t =
     (case map_of (t_ClientThreads t) n of
        None \<Rightarrow> t
      | Some th \<Rightarrow> set_thread n (SendToClient \<lparr>sd_sClientName = sWho, sd_Status = PKT_WRITE, sd_Pkt = Some Msgs\<rparr> th) t)"

text \<open>Mail for one asynchronous client after a notification from \<open>sWho\<close>.\<close>

definition push_mail :: "string \<Rightarrow> string \<Rightarrow> tserver \<Rightarrow> tserver" where
  "push_mail sWho n t =
     (case map_of (t_ClientThreads t) n of
        None \<Rightarrow> t
      | Some th \<Rightarrow>
          (if th_bAsynchronous th
           then let (_, MsgLstTx, db) = OnFetchAllMail n [] (s_DB (t_Base t));
                    t = set_DB db t
                in if MsgLstTx = [] then t else send_to n sWho MsgLstTx t
           else t))"

text \<open>Only a \<open>CMOOSException\<close> is caught: what unpacking throws leaves the thread, and ends the process.\<close>

definition ThreadedProcessClient :: "client_io \<Rightarrow> shared_data \<Rightarrow> tserver \<Rightarrow> bool \<times> tserver" where
  "ThreadedProcessClient io SD t =
     (let sWho = sd_sClientName SD
      in case map_of (t_ClientThreads t) sWho of
           None \<Rightarrow> (False, t)
         | Some pClient \<Rightarrow>
             (case sd_Pkt SD of
                None \<Rightarrow> (False, t\<lparr>t_bTerminated := True\<rparr>)
              | Some MsgLstRx \<Rightarrow>
                  (if MsgLstRx = [] then (False, t)
                   else
                     let bIsNotification = list_ex (\<lambda>q. IsType q MOOS_NOTIFY) MsgLstRx;
                         bTimingPresent = IsType (hd MsgLstRx) MOOS_TIMING;
                         TimingMsg = (hd MsgLstRx)\<lparr>m_dfVal := io_MOOSLocalTime io,
                                                   m_dfVal2 := th_dfConsolidationPeriod pClient\<rparr>;
                         MsgLstRx = (if bTimingPresent then tl MsgLstRx else MsgLstRx);
                         (_, MsgLstTx, db) =
                           OnRxPkt (view (io_timing io) (io_date io) (t_Base t)) sWho MsgLstRx [] (s_DB (t_Base t));
                         t = set_DB db t;
                         MsgLstTx = (if \<not> th_bAsynchronous pClient
                                     then new_msg\<lparr>m_dfVal := io_MOOSLocalTime io\<rparr> # MsgLstTx
                                     else if bTimingPresent then TimingMsg # MsgLstTx else MsgLstTx);
                         t = (if MsgLstTx \<noteq> [] then send_to sWho sWho MsgLstTx t else t)
                     in if \<not> bIsNotification then (True, t)
                        else (True, fold (push_mail sWho) (map fst (t_ClientThreads t)) t))))"

text \<open>\<open>StopAndCleanUpClientThread\<close> and \<open>OnClientDisconnect\<close>; the iterator of an absent name would be
  dereferenced: \<open>None\<close>.\<close>

definition StopAndCleanUpClientThread :: "string \<Rightarrow> tserver \<Rightarrow> bool \<times> tserver" where
  "StopAndCleanUpClientThread sName t =
     (case map_of (t_ClientThreads t) sName of
        None \<Rightarrow> (False, t)
      | Some th \<Rightarrow> (True, t\<lparr>t_OldClientThreads := t_OldClientThreads t @ [th],
                            t_ClientThreads := map_erase sName (t_ClientThreads t)\<rparr>))"

definition ThreadedOnClientDisconnect :: "shared_data \<Rightarrow> tserver \<Rightarrow> tserver option" where
  "ThreadedOnClientDisconnect SD t =
     (case map_of (t_ClientThreads t) (sd_sClientName SD) of
        None \<Rightarrow> None
      | Some th \<Rightarrow>
          (let t = snd (StopAndCleanUpClientThread (sd_sClientName SD) t)
           in Some (t\<lparr>t_Base := remove_socket (th_Socket th) (OnClientDisconnect (th_Socket th) (t_Base t))\<rparr>)))"

text \<open>One round of \<open>ServerLoop\<close>.\<close>

definition ServerRound :: "client_io \<Rightarrow> tserver \<Rightarrow> tserver option" where
  "ServerRound io t =
     (case t_DataFromClient t of
        [] \<Rightarrow> Some t
      | SD # rest \<Rightarrow>
          (let t = t\<lparr>t_DataFromClient := rest\<rparr>
           in case sd_Status SD of
                PKT_READ \<Rightarrow> Some (snd (ThreadedProcessClient io SD t))
              | CONNECTION_CLOSED \<Rightarrow> ThreadedOnClientDisconnect SD t
              | _ \<Rightarrow> Some t))"

section \<open>Steps\<close>

datatype t_event =
  TAccept int "string option" "string + moos_msg option" bool string real real
| TRead string "moos_msg list option option" real
| TSilence string real
| TReply string bool
| TWrite string bool
| TServe client_io

definition on_thread :: "string \<Rightarrow> (client_thread \<Rightarrow> tserver) \<Rightarrow> tserver \<Rightarrow> tserver" where
  "on_thread n f t = (case map_of (t_ClientThreads t) n of None \<Rightarrow> t | Some th \<Rightarrow> f th)"

fun t_exec :: "t_event \<Rightarrow> tserver \<Rightarrow> tserver option" where
  "t_exec (TAccept fd protocol hello bSent ip now u) t = Some (snd (ThreadedAccept fd protocol hello bSent ip now u t))"
| "t_exec (TRead n packet now) t = Some (on_thread n (\<lambda>th. ReadStep packet now th t) t)"
| "t_exec (TSilence n dfSilent) t = Some (on_thread n (\<lambda>th. SilenceStep dfSilent th t) t)"
| "t_exec (TReply n bSent) t = Some (on_thread n (\<lambda>th. snd (ReplyStep bSent th t)) t)"
| "t_exec (TWrite n bSent) t = Some (on_thread n (\<lambda>th. set_thread n (snd (WriteStep bSent th)) t) t)"
| "t_exec (TServe io) t = ServerRound io t"

end
