(* ===== verification/Moos_ThreadedRuns.thy ===== *)
theory Moos_ThreadedRuns
  imports Moos_Threaded
begin

text \<open>
  What the threaded server promises whatever the interleaving of its threads: what waits to be
  served belongs to a live client, a synchronous client never has more than one reply, and
  asynchronous clients are sent their mail with the notification that caused it.
\<close>

section \<open>Pushing to the clients\<close>

lemma set_DB_simps [simp]:
  "t_Base (set_DB db t) = (t_Base t)\<lparr>s_DB := db\<rparr>" "t_ClientThreads (set_DB db t) = t_ClientThreads t"
  "t_DataFromClient (set_DB db t) = t_DataFromClient t" "t_OldClientThreads (set_DB db t) = t_OldClientThreads t"
  "t_ClientTimingVector (set_DB db t) = t_ClientTimingVector t"
  by (simp_all add: set_DB_def)

lemma set_thread_simps [simp]:
  "t_Base (set_thread n th t) = t_Base t" "t_ClientThreads (set_thread n th t) = map_set n th (t_ClientThreads t)"
  "t_DataFromClient (set_thread n th t) = t_DataFromClient t" "t_OldClientThreads (set_thread n th t) = t_OldClientThreads t"
  "t_ClientTimingVector (set_thread n th t) = t_ClientTimingVector t"
  "t_bTerminated (set_thread n th t) = t_bTerminated t"
  by (simp_all add: set_thread_def)

definition same_frame :: "tserver \<Rightarrow> tserver \<Rightarrow> bool" where
  "same_frame t t' \<longleftrightarrow> (\<exists>db. t_Base t' = (t_Base t)\<lparr>s_DB := db\<rparr>)
     \<and> t_DataFromClient t' = t_DataFromClient t \<and> t_OldClientThreads t' = t_OldClientThreads t
     \<and> t_ClientTimingVector t' = t_ClientTimingVector t"

lemma same_frame_refl [simp]: "same_frame t t"
  by (auto simp: same_frame_def intro: exI [of _ "s_DB (t_Base t)"])

lemma same_frame_trans: "same_frame t u \<Longrightarrow> same_frame u v \<Longrightarrow> same_frame t v"
  by (auto simp: same_frame_def)

lemma same_frame_set_DB [simp]: "same_frame t (set_DB db t)"
  by (auto simp: same_frame_def)

definition outgoing_pkt :: "string \<Rightarrow> moos_msg list \<Rightarrow> shared_data" where
  "outgoing_pkt sWho Msgs = \<lparr>sd_sClientName = sWho, sd_Status = PKT_WRITE, sd_Pkt = Some Msgs\<rparr>"

lemma send_to_frame [simp]: "t_Base (send_to n w Ms t) = t_Base t" "same_frame u (send_to n w Ms t) = same_frame u t"
  by (simp_all add: send_to_def same_frame_def split: option.split)

lemma send_to_threads:
  "map_of (t_ClientThreads (send_to n w Ms t)) =
     (map_of (t_ClientThreads t))(n := map_option (SendToClient (outgoing_pkt w Ms)) (map_of (t_ClientThreads t) n))"
  by (auto simp: send_to_def outgoing_pkt_def split: option.split)

lemma send_to_map_ok [simp]: "map_ok (t_ClientThreads t) \<Longrightarrow> map_ok (t_ClientThreads (send_to n w Ms t))"
  by (simp add: send_to_def split: option.split)

text \<open>What a client's thread looks like after its mail has been pushed.\<close>

definition mailed :: "string \<Rightarrow> db \<Rightarrow> string \<Rightarrow> client_thread \<Rightarrow> client_thread" where
  "mailed sWho db n th =
     (if th_bAsynchronous th \<and> box db n \<noteq> [] then SendToClient (outgoing_pkt sWho (box db n)) th else th)"

definition is_async :: "tserver \<Rightarrow> string \<Rightarrow> bool" where
  "is_async t n \<longleftrightarrow> (case map_of (t_ClientThreads t) n of None \<Rightarrow> False | Some th \<Rightarrow> th_bAsynchronous th)"

lemma OnFetchAllMail_box:
  assumes "db_ok db"
  shows "fst (snd (OnFetchAllMail n tx db)) = box db n @ tx"
    and "box (snd (snd (OnFetchAllMail n tx db))) m = (if m = n then [] else box db m)"
    and "db_ok (snd (snd (OnFetchAllMail n tx db)))"
  using assms db_inv.inv_OnFetchAllMail [OF assms, of n tx]
  by (auto simp: OnFetchAllMail_eq db_okD(2) take_mail_def map_get_def split: option.split)

lemma push_mail_step:
  assumes "db_ok (s_DB (t_Base t))" and "map_ok (t_ClientThreads t)" and "t' = push_mail w n t"
  shows "map_of (t_ClientThreads t') =
       (map_of (t_ClientThreads t))(n := map_option (mailed w (s_DB (t_Base t)) n) (map_of (t_ClientThreads t) n))
     \<and> map_ok (t_ClientThreads t') \<and> same_frame t t'
     \<and> (\<exists>calls. s_DB (t_Base t') = db_run calls (s_DB (t_Base t)))
     \<and> box (s_DB (t_Base t')) = (\<lambda>m. if m = n \<and> is_async t n then [] else box (s_DB (t_Base t)) m)"
proof (cases "is_async t n")
  case False
  then have "t' = t \<and> map_option (mailed w (s_DB (t_Base t)) n) (map_of (t_ClientThreads t) n) = map_of (t_ClientThreads t) n"
    by (auto simp: assms(3) is_async_def push_mail_def mailed_def split: option.splits)
  moreover have "s_DB (t_Base t) = db_run [] (s_DB (t_Base t))" by simp
  ultimately show ?thesis using False assms(2) by (auto simp: fun_eq_iff intro: exI [of _ "[]"])
next
  case True
  then obtain th where th: "map_of (t_ClientThreads t) n = Some th" "th_bAsynchronous th"
    by (auto simp: is_async_def split: option.splits)
  obtain ok Ms db where f: "OnFetchAllMail n [] (s_DB (t_Base t)) = (ok, Ms, db)" by (metis prod_cases3)
  note F = OnFetchAllMail_box [OF assms(1), of n "[]", unfolded f, simplified]
  have t': "t' = (if Ms = [] then set_DB db t else send_to n w Ms (set_DB db t))"
    using th by (simp add: assms(3) push_mail_def f)
  have "map_of (t_ClientThreads t') = (map_of (t_ClientThreads t))(n := map_option (mailed w (s_DB (t_Base t)) n) (map_of (t_ClientThreads t) n))"
    using th F(1) by (auto simp: t' send_to_threads mailed_def fun_eq_iff)
  moreover have "same_frame t t'" by (simp add: t')
  moreover have b: "s_DB (t_Base t') = db" by (simp add: t')
  moreover have "db = db_run [FetchAllMail n []] (s_DB (t_Base t))" by (simp add: f)
  moreover have "box db = (\<lambda>m. if m = n \<and> is_async t n then [] else box (s_DB (t_Base t)) m)"
    using F(2) True by (simp add: fun_eq_iff)
  moreover have "map_ok (t_ClientThreads t')" using assms(2) by (simp add: t')
  ultimately show ?thesis by blast
qed

lemma is_async_threads:
  "map_of (t_ClientThreads t') = (map_of (t_ClientThreads t))(n := map_option (mailed w db n) (map_of (t_ClientThreads t) n)) \<Longrightarrow>
   is_async t' m = is_async t m"
  by (auto simp: is_async_def mailed_def SendToClient_def split: option.split)

lemma fold_push_mail:
  assumes "db_ok (s_DB (t_Base t))" and "map_ok (t_ClientThreads t)" and "distinct ns" and "t' = fold (push_mail w) ns t"
  shows "map_of (t_ClientThreads t') =
       (\<lambda>n. map_option (if n \<in> set ns then mailed w (s_DB (t_Base t)) n else id) (map_of (t_ClientThreads t) n))
     \<and> map_ok (t_ClientThreads t') \<and> same_frame t t'
     \<and> (\<exists>calls. s_DB (t_Base t') = db_run calls (s_DB (t_Base t)))
     \<and> box (s_DB (t_Base t')) = (\<lambda>m. if m \<in> set ns \<and> is_async t m then [] else box (s_DB (t_Base t)) m)"
  using assms
proof (induction ns arbitrary: t)
  case Nil
  have "s_DB (t_Base t) = db_run [] (s_DB (t_Base t))" by simp
  with Nil show ?case by (auto simp: fun_eq_iff option.map_ident intro: exI [of _ "[]"])
next
  case (Cons n ns)
  define u where "u = push_mail w n t"
  note U = push_mail_step [OF Cons.prems(1,2) u_def]
  have db: "db_ok (s_DB (t_Base u))"
    using U db_inv.inv_run [OF Cons.prems(1)] by (metis db_inv_call_allowed)
  have async: "is_async u m = is_async t m" for m
    using U by (intro is_async_threads) blast
  have I: "map_of (t_ClientThreads t') =
       (\<lambda>n. map_option (if n \<in> set ns then mailed w (s_DB (t_Base u)) n else id) (map_of (t_ClientThreads u) n))"
    "map_ok (t_ClientThreads t')" "same_frame u t'"
    "\<exists>calls. s_DB (t_Base t') = db_run calls (s_DB (t_Base u))"
    "box (s_DB (t_Base t')) = (\<lambda>m. if m \<in> set ns \<and> is_async u m then [] else box (s_DB (t_Base u)) m)"
    using Cons.IH [OF db] U Cons.prems(3,4) by (simp_all add: u_def)
  have n: "n \<notin> set ns" using Cons.prems(3) by simp
  have ml: "mailed w (s_DB (t_Base u)) m = mailed w (s_DB (t_Base t)) m" if "m \<in> set ns" for m
  proof -
    have "m \<noteq> n" using that n by auto
    then have "box (s_DB (t_Base u)) m = box (s_DB (t_Base t)) m" using U by simp
    then show ?thesis by (simp add: mailed_def fun_eq_iff)
  qed
  have T: "map_of (t_ClientThreads u) =
       (map_of (t_ClientThreads t))(n := map_option (mailed w (s_DB (t_Base t)) n) (map_of (t_ClientThreads t) n))"
    using U by blast
  have "map_of (t_ClientThreads t') m =
       map_option (if m \<in> set (n # ns) then mailed w (s_DB (t_Base t)) m else id) (map_of (t_ClientThreads t) m)" for m
    unfolding I(1) T using n ml by (cases "m = n"; cases "m \<in> set ns") (simp_all add: option.map_id)
  then have "map_of (t_ClientThreads t') =
       (\<lambda>m. map_option (if m \<in> set (n # ns) then mailed w (s_DB (t_Base t)) m else id) (map_of (t_ClientThreads t) m))" ..
  moreover have "box (s_DB (t_Base t')) = (\<lambda>m. if m \<in> set (n # ns) \<and> is_async t m then [] else box (s_DB (t_Base t)) m)"
    unfolding I(5) using U by (auto simp: fun_eq_iff async)
  moreover have "\<exists>calls. s_DB (t_Base t') = db_run calls (s_DB (t_Base t))"
    using I(4) U by (metis db_run_simps(3))
  moreover have "same_frame t t'" using I(3) U same_frame_trans by blast
  ultimately show ?case using I(2) by blast
qed

section \<open>Serving a packet\<close>

text \<open>The packet without its timing message, the database after it, and the reply.\<close>

definition payload :: "moos_msg list \<Rightarrow> moos_msg list" where
  "payload rx = (if IsType (hd rx) MOOS_TIMING then tl rx else rx)"

definition notifies :: "moos_msg list \<Rightarrow> bool" where
  "notifies rx \<longleftrightarrow> list_ex (\<lambda>q. IsType q MOOS_NOTIFY) rx"

definition served :: "client_io \<Rightarrow> string \<Rightarrow> moos_msg list \<Rightarrow> tserver \<Rightarrow> moos_msg list \<times> db" where
  "served io n rx t =
     db_exec (RxPkt (view (io_timing io) (io_date io) (t_Base t)) n (payload rx) []) (s_DB (t_Base t))"

definition reply :: "client_io \<Rightarrow> client_thread \<Rightarrow> moos_msg list \<Rightarrow> moos_msg list \<Rightarrow> moos_msg list" where
  "reply io th rx tx =
     (if \<not> th_bAsynchronous th then new_msg\<lparr>m_dfVal := io_MOOSLocalTime io\<rparr> # tx
      else if IsType (hd rx) MOOS_TIMING
      then (hd rx)\<lparr>m_dfVal := io_MOOSLocalTime io, m_dfVal2 := th_dfConsolidationPeriod th\<rparr> # tx
      else tx)"

definition replied :: "client_io \<Rightarrow> string \<Rightarrow> client_thread \<Rightarrow> moos_msg list \<Rightarrow> tserver \<Rightarrow> tserver" where
  "replied io n th rx t =
     (let (tx, db) = served io n rx t; r = reply io th rx tx
      in if r = [] then set_DB db t else send_to n n r (set_DB db t))"

lemma ThreadedProcessClient_eq:
  assumes "map_of (t_ClientThreads t) n = Some th" and "rx \<noteq> []" and "sd_sClientName SD = n" and "sd_Pkt SD = Some rx"
  shows "ThreadedProcessClient io SD t =
     (True, if notifies rx then fold (push_mail n) (map fst (t_ClientThreads (replied io n th rx t))) (replied io n th rx t)
            else replied io n th rx t)"
  using assms
  by (simp add: ThreadedProcessClient_def replied_def served_def reply_def payload_def notifies_def Let_def case_prod_beta)

lemma ThreadedProcessClient_fails:
  assumes "map_of (t_ClientThreads t) (sd_sClientName SD) = None \<or> sd_Pkt SD = None \<or> sd_Pkt SD = Some []"
  shows "ThreadedProcessClient io SD t =
    (False, t\<lparr>t_bTerminated := t_bTerminated t \<or> map_of (t_ClientThreads t) (sd_sClientName SD) \<noteq> None \<and> sd_Pkt SD = None\<rparr>)"
  using assms by (cases "map_of (t_ClientThreads t) (sd_sClientName SD)") (auto simp: ThreadedProcessClient_def Let_def)

lemma replied_simps:
  assumes "map_ok (t_ClientThreads t)" and "map_of (t_ClientThreads t) n = Some th"
    and "served io n rx t = (tx, db)"
  shows "map_of (t_ClientThreads (replied io n th rx t)) = (map_of (t_ClientThreads t))(n \<mapsto>
        if reply io th rx tx = [] then th else SendToClient (outgoing_pkt n (reply io th rx tx)) th)"
    and "map_ok (t_ClientThreads (replied io n th rx t))"
    and "s_DB (t_Base (replied io n th rx t)) = db"
    and "same_frame t (replied io n th rx t)"
  using assms by (simp_all add: replied_def send_to_threads fun_eq_iff Let_def)

text \<open>What a served packet does to the queue of each client: at most one reply and one packet of
  mail, and of mail only to asynchronous clients.\<close>

definition extended :: "nat \<Rightarrow> client_thread \<Rightarrow> client_thread \<Rightarrow> bool" where
  "extended k th th' \<longleftrightarrow> (\<exists>extra. th' = th\<lparr>th_DataOutgoing := th_DataOutgoing th @ extra\<rparr>
     \<and> (\<forall>SD \<in> set extra. sd_Status SD = PKT_WRITE) \<and> (th_bAsynchronous th \<or> length extra \<le> k))"

lemma extended_refl [simp]: "extended k th th"
  unfolding extended_def by (rule exI [of _ "[]"]) simp

lemma extended_send: "extended 1 th (SendToClient (outgoing_pkt w Ms) th)"
  by (auto simp: extended_def SendToClient_def outgoing_pkt_def)

lemma extended_mailed: "extended 0 th (mailed w db n th)"
proof (cases "th_bAsynchronous th \<and> box db n \<noteq> []")
  case True
  then show ?thesis by (auto simp: extended_def mailed_def SendToClient_def outgoing_pkt_def)
next
  case False
  then have "mailed w db n th = th" by (auto simp: mailed_def)
  then show ?thesis by simp
qed

lemma extended_trans: "extended k th th1 \<Longrightarrow> extended 0 th1 th2 \<Longrightarrow> extended k th th2"
  by (fastforce simp: extended_def)

lemma ThreadedProcessClient_effect:
  assumes "map_ok (t_ClientThreads t)" and "db_ok (s_DB (t_Base t))" and "ThreadedProcessClient io SD t = (ok, t')"
  shows "same_frame t t' \<and> map_ok (t_ClientThreads t') \<and> (\<exists>calls. s_DB (t_Base t') = db_run calls (s_DB (t_Base t)))
     \<and> (\<forall>n. rel_option (extended (if n = sd_sClientName SD then 1 else 0))
              (map_of (t_ClientThreads t) n) (map_of (t_ClientThreads t') n))"
proof (cases "map_of (t_ClientThreads t) (sd_sClientName SD) = None \<or> sd_Pkt SD = None \<or> sd_Pkt SD = Some []")
  case True
  then obtain b where "t' = t\<lparr>t_bTerminated := b\<rparr>" using assms(3) ThreadedProcessClient_fails [of t SD io] by auto
  moreover have "same_frame t (t\<lparr>t_bTerminated := b\<rparr>)" by (simp add: same_frame_def exI [of _ "s_DB (t_Base t)"])
  moreover have "s_DB (t_Base t) = db_run [] (s_DB (t_Base t))" by simp
  moreover have "rel_option (extended k) x x" for k x by (cases x) simp_all
  ultimately show ?thesis using assms(1) by (auto simp del: db_run_simps)
next
  case False
  then obtain th rx where h: "map_of (t_ClientThreads t) (sd_sClientName SD) = Some th" "sd_Pkt SD = Some rx" "rx \<noteq> []" by auto
  let ?n = "sd_sClientName SD"
  obtain tx db where s: "served io ?n rx t = (tx, db)" by fastforce
  let ?u = "replied io ?n th rx t"
  note U = replied_simps [OF assms(1) h(1) s]
  have calls: "db = db_run [RxPkt (view (io_timing io) (io_date io) (t_Base t)) ?n (payload rx) []] (s_DB (t_Base t))"
    using s by (simp add: served_def)
  have relu: "rel_option (extended (if m = ?n then 1 else 0)) (map_of (t_ClientThreads t) m) (map_of (t_ClientThreads ?u) m)" for m
    using h(1) extended_send by (cases "map_of (t_ClientThreads t) m") (auto simp: U(1))
  have db: "db_ok (s_DB (t_Base ?u))"
    unfolding U(3) calls by (rule db_inv.inv_run [OF assms(2)]) simp
  have t': "t' = (if notifies rx then fold (push_mail ?n) (map fst (t_ClientThreads ?u)) ?u else ?u)"
    using assms(3) ThreadedProcessClient_eq [OF h(1,3) refl h(2), of io] by simp
  show ?thesis
  proof (cases "notifies rx")
    case False
    then have t': "t' = ?u" using t' by simp
    show ?thesis unfolding t' using U(2-4) relu calls by blast
  next
    case True
    with t' have t': "t' = fold (push_mail ?n) (map fst (t_ClientThreads ?u)) ?u" by simp
    note F = fold_push_mail [OF db U(2) map_ok_distinct [OF U(2)] t']
    have "\<exists>calls. s_DB (t_Base t') = db_run calls (s_DB (t_Base t))"
      using F calls U(3) by (metis db_run_simps(3))
    moreover have "rel_option (extended (if m = ?n then 1 else 0)) (map_of (t_ClientThreads t) m) (map_of (t_ClientThreads t') m)" for m
    proof (cases "map_of (t_ClientThreads t) m")
      case None
      then show ?thesis using relu [of m] F by simp
    next
      case (Some x)
      then obtain y where y: "map_of (t_ClientThreads ?u) m = Some y" "extended (if m = ?n then 1 else 0) x y"
        using relu [of m] by (cases "map_of (t_ClientThreads ?u) m") auto
      then have "\<exists>z. map_of (t_ClientThreads t') m = Some z \<and> extended 0 y z"
        using F extended_mailed by simp
      then show ?thesis using Some y(2) extended_trans by auto
    qed
    moreover have "same_frame t t'" using F U(4) same_frame_trans by blast
    ultimately show ?thesis using F by blast
  qed
qed

section \<open>The invariant\<close>

definition from_client :: "string \<Rightarrow> tserver \<Rightarrow> shared_data list" where
  "from_client n t = filter (\<lambda>SD. sd_sClientName SD = n) (t_DataFromClient t)"

text \<open>What waits to be served of a client: packets, then the news that its reader has ended. A
  synchronous client has one packet or one reply on its way if its reader waits, else none.\<close>

definition thread_ok :: "string \<Rightarrow> client_thread \<Rightarrow> shared_data list \<Rightarrow> bool" where
  "thread_ok n th data \<longleftrightarrow> th_sClientName th = n \<and> (th_bAsynchronous th \<longrightarrow> th_Reader th \<noteq> Waiting) \<and>
     (\<exists>k. map sd_Status data = replicate k PKT_READ @ (if th_Reader th = Finished then [CONNECTION_CLOSED] else [])
        \<and> (\<not> th_bAsynchronous th \<longrightarrow> (\<forall>SD \<in> set (th_DataOutgoing th). sd_Status SD = PKT_WRITE)
             \<and> k + length (th_DataOutgoing th) \<le> (if th_Reader th = Waiting then 1 else 0)))"

definition known :: "string \<Rightarrow> client_thread \<Rightarrow> server \<Rightarrow> bool" where
  "known n th s \<longleftrightarrow> map_of (s_Socket2ClientMap s) (th_Socket th) = Some n
     \<and> th_Socket th \<in> fst ` set (s_ClientSocketList s)"

definition client_fits :: "string \<Rightarrow> client_thread option \<Rightarrow> shared_data list \<Rightarrow> server \<Rightarrow> bool" where
  "client_fits n tho data s \<longleftrightarrow>
     (case tho of None \<Rightarrow> data = [] | Some th \<Rightarrow> thread_ok n th data \<and> known n th s)"

definition t_ok :: "tserver \<Rightarrow> bool" where
  "t_ok t \<longleftrightarrow> server_ok (t_Base t) \<and> map_ok (t_ClientThreads t)
     \<and> (\<forall>n. client_fits n (map_of (t_ClientThreads t) n) (from_client n t) (t_Base t))"

lemma t_okD:
  assumes "t_ok t"
  shows "server_ok (t_Base t)" and "map_ok (t_ClientThreads t)"
    and "map_of (t_ClientThreads t) n = None \<Longrightarrow> from_client n t = []"
    and "map_of (t_ClientThreads t) n = Some th \<Longrightarrow> thread_ok n th (from_client n t)"
    and "map_of (t_ClientThreads t) n = Some th \<Longrightarrow> known n th (t_Base t)"
proof -
  have "client_fits n (map_of (t_ClientThreads t) n) (from_client n t) (t_Base t)"
    using assms by (simp add: t_ok_def)
  then show "map_of (t_ClientThreads t) n = None \<Longrightarrow> from_client n t = []"
    and "map_of (t_ClientThreads t) n = Some th \<Longrightarrow> thread_ok n th (from_client n t)"
    and "map_of (t_ClientThreads t) n = Some th \<Longrightarrow> known n th (t_Base t)"
    by (simp_all add: client_fits_def)
qed (use assms in \<open>simp_all add: t_ok_def\<close>)

lemma t_ok_fits: "t_ok t \<Longrightarrow> client_fits n (map_of (t_ClientThreads t) n) (from_client n t) (t_Base t)"
  by (simp add: t_ok_def)

lemma known_cong:
  "s_Socket2ClientMap s' = s_Socket2ClientMap s \<Longrightarrow> map fst (s_ClientSocketList s') = map fst (s_ClientSocketList s) \<Longrightarrow>
   known n th s' = known n th s"
  unfolding known_def by (metis list.set_map)

text \<open>A step of one client's threads.\<close>

lemma t_ok_thread:
  assumes "t_ok t" and "map_of (t_ClientThreads t) n = Some th"
    and "t_ClientThreads t' = map_set n th' (t_ClientThreads t)"
    and "t_DataFromClient t' = t_DataFromClient t @ new" and "\<forall>SD \<in> set new. sd_sClientName SD = n"
    and "s_Socket2ClientMap (t_Base t') = s_Socket2ClientMap (t_Base t)"
    and "map fst (s_ClientSocketList (t_Base t')) = map fst (s_ClientSocketList (t_Base t))"
    and "th_Socket th' = th_Socket th" and "thread_ok n th' (from_client n t @ new)"
  shows "t_ok t'"
proof -
  have k: "known m x (t_Base t') = known m x (t_Base t)" for m x by (rule known_cong [OF assms(6,7)])
  have f: "from_client m t' = (if m = n then from_client n t @ new else from_client m t)" for m
    using assms(4,5) by (auto simp: from_client_def intro!: filter_False)
  have "client_fits m (map_of (t_ClientThreads t') m) (from_client m t') (t_Base t')" for m
  proof (cases "m = n")
    case True
    have "known n th' (t_Base t)" using t_okD(5) [OF assms(1,2)] assms(8) by (simp add: known_def)
    with True show ?thesis using assms(3,9) by (simp add: client_fits_def f k)
  next
    case False
    moreover have "client_fits m (map_of (t_ClientThreads t) m) (from_client m t) (t_Base t)"
      using assms(1) by (simp add: t_ok_def)
    ultimately show ?thesis by (cases "map_of (t_ClientThreads t) m") (simp_all add: assms(3) f client_fits_def k)
  qed
  moreover have "server_ok (t_Base t')"
    using t_okD(1) [OF assms(1)] server_ok_cong [OF assms(6,7)] by simp
  moreover have "map_ok (t_ClientThreads t')" using t_okD(2) [OF assms(1)] assms(3) by simp
  ultimately show ?thesis by (simp add: t_ok_def)
qed

lemma closed_ok:
  assumes "thread_ok n th data" and "th_Reader th \<noteq> Finished" and "sd_Status SD = CONNECTION_CLOSED"
    and "th_bAsynchronous th' = th_bAsynchronous th" and "th_Reader th' = Finished" and "th_sClientName th' = n"
    and "\<not> th_bAsynchronous th \<Longrightarrow> th_DataOutgoing th' = [] \<and> data = []"
  shows "thread_ok n th' (data @ [SD])"
proof -
  obtain k where k: "map sd_Status data = replicate k PKT_READ"
    using assms(1,2) by (auto simp: thread_ok_def)
  show ?thesis
    unfolding thread_ok_def using assms(3-7) k by (intro conjI exI [of _ k]) auto
qed

lemma thread_ok_idle:
  assumes "thread_ok n th data" and "\<not> th_bAsynchronous th" and "th_Reader th = Reading"
  shows "data = [] \<and> th_DataOutgoing th = []"
  using assms by (auto simp: thread_ok_def)

lemma t_ok_disconnects:
  assumes "t_ok t" and "map_of (t_ClientThreads t) n = Some th" and "th_Reader th \<noteq> Finished"
    and "th' = th \<or> th' = th\<lparr>th_DataOutgoing := []\<rparr>"
    and "\<not> th_bAsynchronous th \<Longrightarrow> th_DataOutgoing th' = [] \<and> from_client n t = []"
  shows "t_ok (ThreadOnClientDisconnect th' t)"
proof -
  let ?SD = "\<lparr>sd_sClientName = n, sd_Status = CONNECTION_CLOSED, sd_Pkt = Some []\<rparr>"
  let ?th = "(if th_bAsynchronous th' then th'\<lparr>th_DataOutgoing := th_DataOutgoing th' @ [?SD]\<rparr> else th')\<lparr>th_Reader := Finished\<rparr>"
  have ok: "thread_ok n th (from_client n t)" by (rule t_okD(4) [OF assms(1,2)])
  have n: "th_sClientName th = n" using ok by (simp add: thread_ok_def)
  have eq: "ThreadOnClientDisconnect th' t = set_thread n ?th (t\<lparr>t_DataFromClient := t_DataFromClient t @ [?SD]\<rparr>)"
    using n assms(4) by (auto simp: ThreadOnClientDisconnect_def Let_def)
  have "thread_ok n ?th (from_client n t @ [?SD])"
    by (rule closed_ok [OF ok assms(3)]) (use assms(4,5) n in auto)
  then show ?thesis
    unfolding eq
    by (intro t_ok_thread [OF assms(1,2), where new = "[?SD]" and th' = ?th]) (use assms(4) n in auto)
qed

lemma on_thread_ok:
  assumes "t_ok t" and "\<And>th. map_of (t_ClientThreads t) n = Some th \<Longrightarrow> t_ok (f th)"
  shows "t_ok (on_thread n f t)"
  using assms by (simp add: on_thread_def split: option.split)

lemma ReadStep_ok:
  assumes "t_ok t" and "map_of (t_ClientThreads t) n = Some th"
  shows "t_ok (ReadStep packet now th t)"
proof (cases "th_Reader th = Reading")
  case False
  then show ?thesis using assms(1) by (simp add: ReadStep_def)
next
  case True
  have ok: "thread_ok n th (from_client n t)" by (rule t_okD(4) [OF assms])
  have n: "th_sClientName th = n" using ok by (simp add: thread_ok_def)
  have idle: "\<not> th_bAsynchronous th \<Longrightarrow> from_client n t = [] \<and> th_DataOutgoing th = []"
    using thread_ok_idle [OF ok _ True] by blast
  show ?thesis
  proof (cases packet)
    case None
    then show ?thesis using t_ok_disconnects [OF assms, of th] True idle by (simp add: ReadStep_def)
  next
    case (Some pkt)
    let ?SD = "\<lparr>sd_sClientName = n, sd_Status = PKT_READ, sd_Pkt = pkt\<rparr>"
    let ?th = "th\<lparr>th_Reader := (if th_bAsynchronous th then Reading else Waiting)\<rparr>"
    obtain k where k: "map sd_Status (from_client n t) = replicate k PKT_READ"
      using ok True by (auto simp: thread_ok_def)
    have "map sd_Status (from_client n t @ [?SD]) = replicate (Suc k) PKT_READ"
      using k by (simp add: replicate_append_same)
    moreover have "\<not> th_bAsynchronous th \<Longrightarrow> k = 0" using idle k by simp
    ultimately have th: "thread_ok n ?th (from_client n t @ [?SD])"
      unfolding thread_ok_def using n idle by (intro conjI exI [of _ "Suc k"]) auto
    show ?thesis
      using Some True n
      by (intro t_ok_thread [OF assms, where new = "[?SD]" and th' = ?th] th) (auto simp: ReadStep_def)
  qed
qed

lemma SilenceStep_ok:
  assumes "t_ok t" and "map_of (t_ClientThreads t) n = Some th"
  shows "t_ok (SilenceStep dfSilent th t)"
  using t_ok_disconnects [OF assms, of th] thread_ok_idle [OF t_okD(4) [OF assms]] assms(1)
  by (auto simp: SilenceStep_def)

lemma ReplyStep_ok:
  assumes "t_ok t" and "map_of (t_ClientThreads t) n = Some th"
  shows "t_ok (snd (ReplyStep bSent th t))"
proof (cases "th_Reader th = Waiting \<and> th_DataOutgoing th \<noteq> []")
  case False
  then show ?thesis using assms(1) by (auto simp: ReplyStep_def split: list.split)
next
  case True
  have ok: "thread_ok n th (from_client n t)" by (rule t_okD(4) [OF assms])
  have n: "th_sClientName th = n" using ok by (simp add: thread_ok_def)
  obtain SD where q: "from_client n t = []" "th_DataOutgoing th = [SD]" and sync: "\<not> th_bAsynchronous th"
    using ok True by (cases "th_DataOutgoing th") (auto simp: thread_ok_def split: if_splits)
  let ?th = "th\<lparr>th_DataOutgoing := []\<rparr>"
  show ?thesis
  proof (cases "sd_Status SD \<noteq> PKT_WRITE \<or> \<not> bSent")
    case True
    then show ?thesis
      using t_ok_disconnects [OF assms, of ?th] q \<open>th_Reader th = Waiting \<and> _\<close> by (auto simp: ReplyStep_def)
  next
    case False
    have "thread_ok n (?th\<lparr>th_Reader := Reading\<rparr>) (from_client n t @ [])"
      using n q(1) by (simp add: thread_ok_def)
    then show ?thesis
      using False q(2) n True
      by (intro t_ok_thread [OF assms, where new = "[]" and th' = "?th\<lparr>th_Reader := Reading\<rparr>"]) (auto simp: ReplyStep_def)
  qed
qed

lemma WriteStep_ok:
  assumes "t_ok t" and "map_of (t_ClientThreads t) n = Some th"
  shows "t_ok (set_thread n (snd (WriteStep bSent th)) t)"
proof -
  have ok: "thread_ok n th (from_client n t)" by (rule t_okD(4) [OF assms])
  let ?th = "snd (WriteStep bSent th)"
  have f: "th_Socket ?th = th_Socket th" "th_sClientName ?th = th_sClientName th" "th_Reader ?th = th_Reader th"
    "th_bAsynchronous ?th = th_bAsynchronous th" "th_DataOutgoing ?th = th_DataOutgoing th \<or> th_DataOutgoing ?th = tl (th_DataOutgoing th)"
    by (auto simp: WriteStep_def Let_def split: list.split)
  have "thread_ok n ?th (from_client n t @ [])"
    using ok f list.set_sel(2) [of "th_DataOutgoing th"] unfolding thread_ok_def by fastforce
  then show ?thesis
    using f(1) by (intro t_ok_thread [OF assms, where new = "[]" and th' = ?th]) auto
qed

text \<open>The steps of the server thread.\<close>

lemma same_frame_simps:
  assumes "same_frame t t'"
  shows "s_Socket2ClientMap (t_Base t') = s_Socket2ClientMap (t_Base t)"
    and "s_ClientSocketList (t_Base t') = s_ClientSocketList (t_Base t)"
    and "server_ok (t_Base t') = server_ok (t_Base t)" and "t_DataFromClient t' = t_DataFromClient t"
  using assms by (auto simp: same_frame_def)

lemma thread_ok_extended:
  assumes "thread_ok n th (SD # data)" and "sd_Status SD = PKT_READ" and "extended 1 th th'"
  shows "thread_ok n th' data"
proof -
  obtain k where k: "map sd_Status (SD # data) = replicate k PKT_READ @ (if th_Reader th = Finished then [CONNECTION_CLOSED] else [])"
      "\<not> th_bAsynchronous th \<Longrightarrow> (\<forall>SD \<in> set (th_DataOutgoing th). sd_Status SD = PKT_WRITE)
             \<and> k + length (th_DataOutgoing th) \<le> (if th_Reader th = Waiting then 1 else 0)"
    and n: "th_sClientName th = n" "th_bAsynchronous th \<longrightarrow> th_Reader th \<noteq> Waiting"
    using assms(1) unfolding thread_ok_def by auto
  obtain j where j: "k = Suc j" using k(1) assms(2) by (cases k) (auto split: if_splits)
  obtain extra where e: "th' = th\<lparr>th_DataOutgoing := th_DataOutgoing th @ extra\<rparr>"
      "\<forall>SD \<in> set extra. sd_Status SD = PKT_WRITE" "th_bAsynchronous th \<or> length extra \<le> 1"
    using assms(3) by (auto simp: extended_def)
  have "\<not> th_bAsynchronous th \<Longrightarrow> j + length (th_DataOutgoing th @ extra) \<le> (if th_Reader th = Waiting then 1 else 0)"
    using k(2) e(3) by (simp add: j)
  then show ?thesis
    unfolding thread_ok_def using k j e n by (intro conjI exI [of _ j]) auto
qed

lemma thread_ok_pushed:
  assumes "thread_ok n th data" and "extended 0 th th'"
  shows "thread_ok n th' data"
  using assms by (auto simp: thread_ok_def extended_def)

lemma ServePacket_ok:
  assumes "t_ok t" and "t_DataFromClient t = SD # rest" and "sd_Status SD = PKT_READ" and "db_ok (s_DB (t_Base t))"
    and "ThreadedProcessClient io SD (t\<lparr>t_DataFromClient := rest\<rparr>) = (ok, t')"
  shows "t_ok t'"
proof -
  let ?n = "sd_sClientName SD" and ?t = "t\<lparr>t_DataFromClient := rest\<rparr>"
  have E: "same_frame ?t t'" "map_ok (t_ClientThreads t')"
      "\<And>n. rel_option (extended (if n = ?n then 1 else 0)) (map_of (t_ClientThreads t) n) (map_of (t_ClientThreads t') n)"
    using ThreadedProcessClient_effect [OF _ _ assms(5)] t_okD(2) [OF assms(1)] assms(4) by simp_all
  have data: "from_client ?n t = SD # from_client ?n t'" "m \<noteq> ?n \<Longrightarrow> from_client m t' = from_client m t" for m
    using assms(2) same_frame_simps(4) [OF E(1)] by (auto simp: from_client_def)
  have k: "known m x (t_Base t') = known m x (t_Base t)" for m x
    using same_frame_simps [OF E(1)] by (simp add: known_def)
  have "client_fits m (map_of (t_ClientThreads t') m) (from_client m t') (t_Base t')" for m
  proof (cases "map_of (t_ClientThreads t) m")
    case None
    then have "m \<noteq> ?n" using t_okD(3) [OF assms(1), of ?n] data(1) by auto
    then show ?thesis using None E(3) [of m] t_okD(3) [OF assms(1) None] data(2) by (simp add: client_fits_def)
  next
    case (Some th)
    then obtain th' where th': "map_of (t_ClientThreads t') m = Some th'" "extended (if m = ?n then 1 else 0) th th'"
      using E(3) [of m] by (cases "map_of (t_ClientThreads t') m") auto
    have "th_Socket th' = th_Socket th" using th'(2) by (auto simp: extended_def)
    then have "known m th' (t_Base t)"
      using t_okD(5) [OF assms(1) Some] by (simp add: known_def)
    moreover have "thread_ok m th' (from_client m t')"
    proof (cases "m = ?n")
      case True
      then show ?thesis
        using thread_ok_extended [OF _ assms(3), of m th "from_client m t'" th'] t_okD(4) [OF assms(1) Some] th'(2) data(1) by simp
    next
      case False
      then show ?thesis
        using thread_ok_pushed [of m th _ th'] t_okD(4) [OF assms(1) Some] th'(2) data(2) by simp
    qed
    ultimately show ?thesis by (simp add: client_fits_def th'(1) k)
  qed
  then show ?thesis using E(2) t_okD(1) [OF assms(1)] same_frame_simps(3) [OF E(1)] by (simp add: t_ok_def)
qed

lemma ServeClosed_ok:
  assumes "t_ok t" and "t_DataFromClient t = SD # rest" and "sd_Status SD = CONNECTION_CLOSED"
  shows "\<exists>t'. ThreadedOnClientDisconnect SD (t\<lparr>t_DataFromClient := rest\<rparr>) = Some t' \<and> t_ok t'
     \<and> s_DB (t_Base t') = db_run [Disconnect (sd_sClientName SD)] (s_DB (t_Base t))"
proof -
  let ?n = "sd_sClientName SD"
  have "from_client ?n t \<noteq> []" using assms(2) by (simp add: from_client_def)
  then obtain th where th: "map_of (t_ClientThreads t) ?n = Some th"
    using t_okD(3) [OF assms(1), of ?n] by fastforce
  let ?s = "remove_socket (th_Socket th) (OnClientDisconnect (th_Socket th) (t_Base t))"
  let ?t = "t\<lparr>t_DataFromClient := rest, t_OldClientThreads := t_OldClientThreads t @ [th],
      t_ClientThreads := map_erase ?n (t_ClientThreads t), t_Base := ?s\<rparr>"
  have e: "ThreadedOnClientDisconnect SD (t\<lparr>t_DataFromClient := rest\<rparr>) = Some ?t"
    using th by (simp add: ThreadedOnClientDisconnect_def StopAndCleanUpClientThread_def Let_def)
  have "thread_ok ?n th (SD # from_client ?n ?t)"
    using t_okD(4) [OF assms(1) th] assms(2) by (simp add: from_client_def)
  then obtain k where "CONNECTION_CLOSED # map sd_Status (from_client ?n ?t)
      = replicate k PKT_READ @ (if th_Reader th = Finished then [CONNECTION_CLOSED] else [])"
    using assms(3) by (auto simp: thread_ok_def)
  then have last: "from_client ?n ?t = []" by (cases k) (auto split: if_splits)
  have kn: "known ?n th (t_Base t)" by (rule t_okD(5) [OF assms(1) th])
  have "client_fits m (map_of (t_ClientThreads ?t) m) (from_client m ?t) ?s" for m
  proof (cases "m = ?n")
    case True
    then show ?thesis using last by (simp add: client_fits_def)
  next
    case False
    then have d: "from_client m ?t = from_client m t" using assms(2) by (simp add: from_client_def)
    have "known m x ?s" if "known m x (t_Base t)" for x
      using that kn False by (auto simp: known_def)
    then show ?thesis
      using False t_ok_fits [OF assms(1), of m] d
      by (cases "map_of (t_ClientThreads t) m") (simp_all add: client_fits_def)
  qed
  moreover have "server_ok ?s"
    by (rule server_ok_gone [OF t_okD(1) [OF assms(1)], of _ "th_Socket th"]) simp_all
  ultimately have "t_ok ?t" using t_okD(2) [OF assms(1)] by (simp add: t_ok_def)
  moreover have "s_DB ?s = db_run [Disconnect ?n] (s_DB (t_Base t))"
    using kn by (simp add: known_def GetClientName_def)
  ultimately show ?thesis using e by auto
qed

text \<open>An accepted client is new, so a thread can always be started for it.\<close>

definition connected :: "int \<Rightarrow> string \<Rightarrow> server \<Rightarrow> server \<Rightarrow> bool" where
  "connected fd n s s' \<longleftrightarrow> map_of (s_Socket2ClientMap s') = (map_of (s_Socket2ClientMap s))(fd \<mapsto> n) \<and> IsUniqueName n s"

lemma OnNewClient_cases:
  assumes "OnNewClient fd p h b ip now s = (ok, answer, s')"
  shows "s_ClientSocketList s' = s_ClientSocketList s
    \<and> (s_Socket2ClientMap s' = s_Socket2ClientMap s \<and> \<not> ok \<or> (\<exists>n. connected fd n s s'))
    \<and> (if ok then s_DB s' = db_run [Connect (GetClientName fd s')] (s_DB s) else s_DB s' = s_DB s)"
  using assms
  by (auto simp: OnNewClient_def ServerHandShake_def connected_def GetClientName_def Let_def case_prod_beta
      split: option.splits sum.splits if_splits)

lemma ThreadedAccept_ok:
  assumes "t_ok t" and "fd \<notin> fst ` set (s_ClientSocketList (t_Base t))"
    and "OnNewClient fd p h b ip now (t_Base t) = (ok, answer, s)"
  shows "t_ok (snd (ThreadedAccept fd p h b ip now u t))"
    and "fst (ThreadedOnNewClient fd p h b ip now t) = ok"
    and "s_DB (t_Base (snd (ThreadedAccept fd p h b ip now u t))) = s_DB s"
proof -
  note C = OnNewClient_cases [OF assms(3)]
  let ?n = "GetClientName fd s"
  have other: "th_Socket th \<noteq> fd" if "map_of (t_ClientThreads t) m = Some th" for m th
    using t_okD(5) [OF assms(1) that] assms(2) by (auto simp: known_def)
  have kn: "known m th s'" if "map_of (t_ClientThreads t) m = Some th"
      and "s_Socket2ClientMap s' = s_Socket2ClientMap s" and "set (s_ClientSocketList s) \<subseteq> set (s_ClientSocketList s')" for m th s'
    using t_okD(5) [OF assms(1) that(1)] other [OF that(1)] C that(2,3) by (auto simp: known_def connected_def)
  have new: "map_of (t_ClientThreads t) ?n = None" if ok
  proof (rule ccontr)
    assume "map_of (t_ClientThreads t) ?n \<noteq> None"
    then obtain th where "map_of (t_ClientThreads t) ?n = Some th" by auto
    then have "(th_Socket th, ?n) \<in> set (s_Socket2ClientMap (t_Base t))"
      using t_okD(5) [OF assms(1)] by (auto simp: known_def dest: map_of_SomeD)
    moreover have "\<exists>n. connected fd n (t_Base t) s" using C that by auto
    ultimately show False by (auto simp: connected_def IsUniqueName_def GetClientName_def)
  qed
  have "server_ok (if ok then GetMaxSocketFD (s\<lparr>s_ClientSocketList := (fd, u) # s_ClientSocketList s\<rparr>) else s)"
    using AcceptClient_ok(1) [OF t_okD(1) [OF assms(1)] assms(2), of p h b ip now u] assms(3)
    by (simp add: AcceptClient_def)
  note server = this
  show "fst (ThreadedOnNewClient fd p h b ip now t) = ok"
    using new by (simp add: ThreadedOnNewClient_def assms(3) AddAndStartClientThread_def Let_def)
  show "s_DB (t_Base (snd (ThreadedAccept fd p h b ip now u t))) = s_DB s"
    using new by (simp add: ThreadedAccept_def ThreadedOnNewClient_def assms(3) AddAndStartClientThread_def Let_def)
  have fits: "client_fits m (map_of (t_ClientThreads t) m) (from_client m t) s'"
    if "s_Socket2ClientMap s' = s_Socket2ClientMap s" and "set (s_ClientSocketList s) \<subseteq> set (s_ClientSocketList s')" for m s'
    using t_ok_fits [OF assms(1), of m] kn [OF _ that]
    by (cases "map_of (t_ClientThreads t) m") (simp_all add: client_fits_def)
  show "t_ok (snd (ThreadedAccept fd p h b ip now u t))"
  proof (cases ok)
    case False
    then have "snd (ThreadedAccept fd p h b ip now u t) = t\<lparr>t_Base := s\<rparr>"
      by (simp add: ThreadedAccept_def ThreadedOnNewClient_def assms(3))
    then show ?thesis
      using server False fits [of s] t_okD(2) [OF assms(1)] by (simp add: t_ok_def from_client_def)
  next
    case True
    let ?s = "GetMaxSocketFD (s\<lparr>s_ClientSocketList := (fd, u) # s_ClientSocketList s\<rparr>)"
    let ?th = "\<lparr>th_sClientName = ?n, th_Socket = fd, th_bAsynchronous = ?n \<in> set (s_AsynchronousClientSet s),
                 th_dfConsolidationPeriod = ConsolidationTime ?n (t_ClientTimingVector t) / 1000,
                 th_dfClientTimeout = s_dfClientTimeout s, th_DataOutgoing = [],
                 th_Reader = Reading, th_bWriting = ?n \<in> set (s_AsynchronousClientSet s)\<rparr>"
    have e: "snd (ThreadedAccept fd p h b ip now u t) = (set_thread ?n ?th t)\<lparr>t_Base := ?s\<rparr>"
      using True new by (simp add: ThreadedAccept_def ThreadedOnNewClient_def assms(3) AddAndStartClientThread_def
          set_thread_def Let_def)
    have "thread_ok ?n ?th []" by (simp add: thread_ok_def)
    moreover have "known ?n ?th ?s"
      using C True by (auto simp: known_def connected_def GetClientName_def)
    ultimately have "client_fits m (map_of (map_set ?n ?th (t_ClientThreads t)) m) (from_client m t) ?s" for m
      using fits [of ?s m] t_okD(3) [OF assms(1) new [OF True]] by (cases "m = ?n") (auto simp: client_fits_def)
    then show ?thesis
      unfolding e using server True t_okD(2) [OF assms(1)] by (simp add: t_ok_def from_client_def)
  qed
qed

section \<open>Runs\<close>

text \<open>A new socket has a descriptor no open socket has.\<close>

definition t_fresh :: "t_event \<Rightarrow> tserver \<Rightarrow> bool" where
  "t_fresh e t \<longleftrightarrow> (case e of TAccept fd _ _ _ _ _ _ \<Rightarrow> fd \<notin> fst ` set (s_ClientSocketList (t_Base t)) | _ \<Rightarrow> True)"

inductive t_reach :: "tserver \<Rightarrow> bool" where
  treach_start: "db_reach db \<Longrightarrow>
    t_reach (SetResponses r (new_tserver (snd (SetClientTimeout u (new_server db))\<lparr>s_sCommunityName := n\<rparr>)))"
| treach_step: "t_reach t \<Longrightarrow> t_fresh e t \<Longrightarrow> t_exec e t = Some t' \<Longrightarrow> \<not> t_bTerminated t' \<Longrightarrow> t_reach t'"

text \<open>A run of the server as long as the process does not end.\<close>

fun t_run :: "t_event list \<Rightarrow> tserver \<Rightarrow> tserver option" where
  "t_run [] t = Some t"
| "t_run (e # es) t = (if t_fresh e t then case t_exec e t of None \<Rightarrow> None | Some t' \<Rightarrow> if t_bTerminated t' then None else t_run es t'
     else None)"

lemma on_thread_DB: "(\<And>th. s_DB (t_Base (f th)) = s_DB (t_Base t)) \<Longrightarrow> s_DB (t_Base (on_thread n f t)) = s_DB (t_Base t)"
  by (simp add: on_thread_def split: option.split)

lemma ThreadOnClientDisconnect_DB [simp]: "s_DB (t_Base (ThreadOnClientDisconnect th t)) = s_DB (t_Base t)"
  by (simp add: ThreadOnClientDisconnect_def Let_def)

lemma client_steps_DB:
  "s_DB (t_Base (ReadStep packet now th t)) = s_DB (t_Base t)"
  "s_DB (t_Base (SilenceStep d th t)) = s_DB (t_Base t)"
  "s_DB (t_Base (snd (ReplyStep b th t))) = s_DB (t_Base t)"
  by (simp_all add: ReadStep_def SilenceStep_def ReplyStep_def Let_def split: option.split list.split)

lemma front_status:
  assumes "t_ok t" "t_DataFromClient t = SD # rest"
  shows "sd_Status SD = PKT_READ \<or> sd_Status SD = CONNECTION_CLOSED"
proof -
  have "from_client (sd_sClientName SD) t \<noteq> []" using assms(2) by (simp add: from_client_def)
  then obtain th where "map_of (t_ClientThreads t) (sd_sClientName SD) = Some th"
    using t_okD(3) [OF assms(1)] by fastforce
  then have "thread_ok (sd_sClientName SD) th (from_client (sd_sClientName SD) t)"
    by (rule t_okD(4) [OF assms(1)])
  then obtain k b where "map sd_Status (from_client (sd_sClientName SD) t) = replicate k PKT_READ @ (if b then [CONNECTION_CLOSED] else [])"
    unfolding thread_ok_def by auto
  then show ?thesis using assms(2) by (cases k) (auto simp: from_client_def split: if_splits)
qed

lemma ServerRound_ok:
  assumes "t_ok t" and "db_ok (s_DB (t_Base t))"
  shows "\<exists>t'. ServerRound io t = Some t' \<and> t_ok t' \<and> (\<exists>calls. s_DB (t_Base t') = db_run calls (s_DB (t_Base t)))"
proof (cases "t_DataFromClient t")
  case Nil
  then show ?thesis using assms(1) by (auto simp: ServerRound_def intro: exI [of _ "[]"])
next
  case (Cons SD rest)
  let ?t = "t\<lparr>t_DataFromClient := rest\<rparr>"
  show ?thesis
    using front_status [OF assms(1) Cons]
  proof
    assume r: "sd_Status SD = PKT_READ"
    obtain ok t' where p: "ThreadedProcessClient io SD ?t = (ok, t')" by fastforce
    have "\<exists>calls. s_DB (t_Base t') = db_run calls (s_DB (t_Base t))"
      using ThreadedProcessClient_effect [OF _ _ p] t_okD(2) [OF assms(1)] assms(2) by simp
    then show ?thesis
      using ServePacket_ok [OF assms(1) Cons r assms(2) p] Cons r p by (simp add: ServerRound_def)
  next
    assume c: "sd_Status SD = CONNECTION_CLOSED"
    then show ?thesis using ServeClosed_ok [OF assms(1) Cons c] Cons
      by (auto simp: ServerRound_def simp del: db_run_simps)
  qed
qed

lemma t_exec_ok:
  assumes "t_ok t" and "db_ok (s_DB (t_Base t))" and "t_fresh e t"
  shows "\<exists>t'. t_exec e t = Some t' \<and> t_ok t' \<and> (\<exists>calls. s_DB (t_Base t') = db_run calls (s_DB (t_Base t)))"
proof -
  have nocall: "s_DB (t_Base t') = s_DB (t_Base t) \<Longrightarrow> \<exists>calls. s_DB (t_Base t') = db_run calls (s_DB (t_Base t))" for t'
    by (rule exI [of _ "[]"]) simp
  have quiet_step: "t_ok t' \<Longrightarrow> s_DB (t_Base t') = s_DB (t_Base t) \<Longrightarrow>
      \<exists>t''. Some t' = Some t'' \<and> t_ok t'' \<and> (\<exists>calls. s_DB (t_Base t'') = db_run calls (s_DB (t_Base t)))" for t'
    using nocall by blast
  show ?thesis
  proof (cases e)
    case (TAccept fd p h b ip now u)
    obtain ok answer s where s: "OnNewClient fd p h b ip now (t_Base t) = (ok, answer, s)" by (metis prod_cases3)
    have f: "fd \<notin> fst ` set (s_ClientSocketList (t_Base t))" using assms(3) TAccept by (simp add: t_fresh_def)
    have "\<exists>calls. s_DB s = db_run calls (s_DB (t_Base t))"
      using OnNewClient_cases [OF s] nocall by (metis db_run_simps(1))
    then show ?thesis using ThreadedAccept_ok [OF assms(1) f s] TAccept by simp
  next
    case (TRead n packet now)
    show ?thesis
      unfolding TRead t_exec.simps
      by (intro quiet_step on_thread_ok assms(1) ReadStep_ok on_thread_DB client_steps_DB)
  next
    case (TSilence n d)
    show ?thesis
      unfolding TSilence t_exec.simps
      by (intro quiet_step on_thread_ok assms(1) SilenceStep_ok on_thread_DB client_steps_DB)
  next
    case (TReply n b)
    show ?thesis
      unfolding TReply t_exec.simps
      by (intro quiet_step on_thread_ok assms(1) ReplyStep_ok on_thread_DB client_steps_DB)
  next
    case (TWrite n b)
    show ?thesis
      unfolding TWrite t_exec.simps
      by (intro quiet_step on_thread_ok assms(1) WriteStep_ok on_thread_DB) simp_all
  next
    case (TServe io)
    then show ?thesis using ServerRound_ok [OF assms(1,2)] by simp
  qed
qed

lemma t_reach_ok: "t_reach t \<Longrightarrow> t_ok t \<and> db_reach (s_DB (t_Base t))"
proof (induction rule: t_reach.induct)
  case (treach_start db r u n)
  then show ?case
    by (simp add: SetResponses_def new_tserver_def SetClientTimeout_def new_server_def server_ok_def t_ok_def
        client_fits_def from_client_def)
next
  case (treach_step t e t')
  then have "db_ok (s_DB (t_Base t))" using db_reach_ok by blast
  then show ?case using t_exec_ok [of t e] treach_step by (auto intro: db_reach_run)
qed

end
