(* ===== verification/Moos_ThreadedProperties.thy ===== *)
theory Moos_ThreadedProperties
  imports Moos_ThreadedRuns
begin

text \<open>
  The properties of the threaded server over its runs, whatever the interleaving: nothing is served
  for a client that is gone, synchronous clients are answered once, asynchronous clients are
  pushed their mail, and what goes wrong with an empty packet.
\<close>

section \<open>Reachable states\<close>

lemma sync_flow:
  assumes "thread_ok n th data" and "\<not> th_bAsynchronous th"
  obtains k where "map sd_Status data = replicate k PKT_READ @ (if th_Reader th = Finished then [CONNECTION_CLOSED] else [])"
    and "k + length (th_DataOutgoing th) \<le> (if th_Reader th = Waiting then 1 else 0)" and "th_sClientName th = n"
  using assms unfolding thread_ok_def by blast

text \<open>C3: in every reachable state of the threaded server the next step of any thread is defined:
  what the server thread finds in its list belongs to a client that still has its threads. Every
  client has its socket and its name, a synchronous one at most one packet or reply on its way,
  and the database is in a state reachable by the calls of \<open>Moos_DBRuns\<close>.\<close>

theorem threaded_reachable:
  assumes "t_reach t" and "t_fresh e t"
  shows "t_exec e t \<noteq> None \<and> db_reach (s_DB (t_Base t))
     \<and> (\<forall>SD \<in> set (t_DataFromClient t). map_of (t_ClientThreads t) (sd_sClientName SD) \<noteq> None)
     \<and> (\<forall>n th. map_of (t_ClientThreads t) n = Some th \<longrightarrow>
          GetClientName (th_Socket th) (t_Base t) = n \<and> th_Socket th \<in> fst ` set (s_ClientSocketList (t_Base t))
          \<and> (th_bAsynchronous th \<or> length (filter (\<lambda>SD. sd_Status SD = PKT_READ) (from_client n t))
                + length (th_DataOutgoing th) \<le> 1))"
proof -
  have ok: "t_ok t" and db: "db_reach (s_DB (t_Base t))" using t_reach_ok [OF assms(1)] by auto
  have "t_exec e t \<noteq> None" using t_exec_ok [OF ok db_reach_ok [OF db] assms(2)] by auto
  moreover have "map_of (t_ClientThreads t) (sd_sClientName SD) \<noteq> None" if "SD \<in> set (t_DataFromClient t)" for SD
    using that t_okD(3) [OF ok, of "sd_sClientName SD"] by (auto simp: from_client_def filter_empty_conv)
  moreover have "length (filter (\<lambda>SD. sd_Status SD = PKT_READ) (from_client n t)) + length (th_DataOutgoing th) \<le> 1"
    if a: "map_of (t_ClientThreads t) n = Some th" "\<not> th_bAsynchronous th" for n th
  proof -
    have filt: "length (filter (\<lambda>SD. sd_Status SD = PKT_READ) l) = length (filter (\<lambda>x. x = PKT_READ) (map sd_Status l))" for l
      by (induction l) auto
    show ?thesis
      by (rule sync_flow [OF t_okD(4) [OF ok a(1)] a(2)]) (simp add: filt split: if_splits)
  qed
  ultimately show ?thesis using db t_okD(5) [OF ok] by (auto simp: known_def GetClientName_def)
qed

section \<open>Synchronous clients\<close>

text \<open>C10: a packet of a synchronous client that unpacks to at least one message, when the server thread
  takes it, is answered by one packet that starts with the null message carrying the server's time;
  with it the client's reader goes back to reading.\<close>

theorem sync_answered:
  assumes "t_ok t" and "db_ok (s_DB (t_Base t))" and "t_DataFromClient t = SD # rest" and "sd_Status SD = PKT_READ"
    and "sd_Pkt SD = Some rx" and "rx \<noteq> []"
    and "map_of (t_ClientThreads t) (sd_sClientName SD) = Some th" and "\<not> th_bAsynchronous th"
  shows "\<exists>t1 th1 tx t2. t_exec (TServe io) t = Some t1
     \<and> map_of (t_ClientThreads t1) (sd_sClientName SD) = Some th1
     \<and> ReplyStep True th1 t1 = (Some (new_msg\<lparr>m_dfVal := io_MOOSLocalTime io\<rparr> # tx), t2)
     \<and> map_of (t_ClientThreads t2) (sd_sClientName SD) = Some (th1\<lparr>th_DataOutgoing := [], th_Reader := Reading\<rparr>)"
proof -
  let ?n = "sd_sClientName SD" and ?t = "t\<lparr>t_DataFromClient := rest\<rparr>"
  note ok = assms(1) and db = assms(2)
  have th: "thread_ok ?n th (SD # from_client ?n ?t)"
    using t_okD(4) [OF ok assms(7)] assms(3) by (simp add: from_client_def)
  from sync_flow [OF this assms(8)] obtain k where k: "PKT_READ # map sd_Status (from_client ?n ?t) = replicate k PKT_READ
        @ (if th_Reader th = Finished then [CONNECTION_CLOSED] else [])"
      "k + length (th_DataOutgoing th) \<le> (if th_Reader th = Waiting then 1 else 0)" "th_sClientName th = ?n"
    using assms(4) by (metis list.simps(9))
  then have wait: "th_Reader th = Waiting" "th_DataOutgoing th = []" "th_sClientName th = ?n"
    by (cases k; auto split: if_splits)+
  obtain tx db' where s: "served io ?n rx ?t = (tx, db')" by fastforce
  let ?r = "new_msg\<lparr>m_dfVal := io_MOOSLocalTime io\<rparr> # tx"
  let ?u = "replied io ?n th rx ?t" and ?th = "SendToClient (outgoing_pkt ?n ?r) th"
  have r: "reply io th rx tx = ?r" using assms(8) by (simp add: reply_def)
  have mok: "map_ok (t_ClientThreads ?t)" "map_of (t_ClientThreads ?t) ?n = Some th"
    using t_okD(2) [OF ok] assms(7) by simp_all
  note U = replied_simps [OF mok s, unfolded r]
  have thu: "map_of (t_ClientThreads ?u) ?n = Some ?th" by (simp add: U(1))
  have "db' = db_run [RxPkt (view (io_timing io) (io_date io) (t_Base t)) ?n (payload rx) []] (s_DB (t_Base t))"
    using s by (simp add: served_def)
  then have dbu: "db_ok (s_DB (t_Base ?u))"
    unfolding U(3) by (rule ssubst) (rule db_inv.inv_run [OF db], simp)
  define t1 where "t1 = (if notifies rx then fold (push_mail ?n) (map fst (t_ClientThreads ?u)) ?u else ?u)"
  have "t_exec (TServe io) t = Some t1"
    using assms(3,4) ThreadedProcessClient_eq [OF mok(2) assms(6) refl assms(5), of io]
    by (simp add: ServerRound_def t1_def)
  moreover have th1: "map_of (t_ClientThreads t1) ?n = Some ?th"
  proof (cases "notifies rx")
    case True
    then have "t1 = fold (push_mail ?n) (map fst (t_ClientThreads ?u)) ?u" by (simp add: t1_def)
    then have "map_of (t_ClientThreads t1) ?n = map_option (if ?n \<in> set (map fst (t_ClientThreads ?u))
          then mailed ?n (s_DB (t_Base ?u)) ?n else id) (map_of (t_ClientThreads ?u) ?n)"
      using fold_push_mail [OF dbu U(2) map_ok_distinct [OF U(2)]] by simp
    then show ?thesis using thu assms(8) by (simp add: mailed_def SendToClient_def)
  next
    case False
    then show ?thesis using thu by (simp add: t1_def)
  qed
  moreover have "ReplyStep True ?th t1 = (Some ?r, set_thread ?n (?th\<lparr>th_DataOutgoing := [], th_Reader := Reading\<rparr>) t1)"
    using wait by (simp add: ReplyStep_def SendToClient_def outgoing_pkt_def)
  ultimately show ?thesis by (intro exI conjI) (assumption | simp)+
qed

text \<open>A synchronous client whose packet got no reply.\<close>

definition stuck :: "string \<Rightarrow> client_thread \<Rightarrow> tserver \<Rightarrow> bool" where
  "stuck n th t \<longleftrightarrow> t_ok t \<and> map_of (t_ClientThreads t) n = Some th \<and> from_client n t = []
     \<and> \<not> th_bAsynchronous th \<and> th_Reader th = Waiting \<and> th_DataOutgoing th = []"

lemma on_thread_other:
  assumes "map_of (t_ClientThreads t) n = Some th" and "m \<noteq> n"
    and "\<And>x. map_of (t_ClientThreads t) m = Some x \<Longrightarrow> map_of (t_ClientThreads (f x)) n = Some th \<and> from_client n (f x) = from_client n t"
  shows "map_of (t_ClientThreads (on_thread m f t)) n = Some th \<and> from_client n (on_thread m f t) = from_client n t"
  using assms by (simp add: on_thread_def split: option.split)

lemma from_client_simps [simp]:
  "from_client n (set_thread m th t) = from_client n t" "from_client n (t\<lparr>t_Base := s\<rparr>) = from_client n t"
  by (simp_all add: from_client_def)

lemma from_client_append:
  "from_client n (t\<lparr>t_DataFromClient := t_DataFromClient t @ [SD]\<rparr>) =
     from_client n t @ (if sd_sClientName SD = n then [SD] else [])"
  by (simp add: from_client_def)

lemma disconnect_other:
  assumes "th_sClientName x = m" and "m \<noteq> n"
  shows "map_of (t_ClientThreads (ThreadOnClientDisconnect x t)) n = map_of (t_ClientThreads t) n
     \<and> from_client n (ThreadOnClientDisconnect x t) = from_client n t"
  using assms by (simp add: ThreadOnClientDisconnect_def Let_def from_client_append)

lemma steps_other:
  assumes "th_sClientName x = m" and "m \<noteq> n"
  shows "map_of (t_ClientThreads (ReadStep packet now x t)) n = map_of (t_ClientThreads t) n
       \<and> from_client n (ReadStep packet now x t) = from_client n t"
    and "map_of (t_ClientThreads (SilenceStep d x t)) n = map_of (t_ClientThreads t) n
       \<and> from_client n (SilenceStep d x t) = from_client n t"
    and "map_of (t_ClientThreads (snd (ReplyStep b x t))) n = map_of (t_ClientThreads t) n
       \<and> from_client n (snd (ReplyStep b x t)) = from_client n t"
  using assms disconnect_other [of _ m n]
  by (auto simp: ReadStep_def SilenceStep_def ReplyStep_def Let_def from_client_def split: option.split list.split)

lemma accept_other:
  assumes "t_ok t" and "map_of (t_ClientThreads t) n = Some th" and "fd \<notin> fst ` set (s_ClientSocketList (t_Base t))"
  shows "map_of (t_ClientThreads (snd (ThreadedAccept fd p h b ip now u t))) n = Some th"
    and "from_client n (snd (ThreadedAccept fd p h b ip now u t)) = from_client n t"
  using assms(2)
  by (auto simp: ThreadedAccept_def ThreadedOnNewClient_def AddAndStartClientThread_def Let_def case_prod_beta from_client_def)

lemma serve_other:
  assumes ok: "t_ok t" and db: "db_ok (s_DB (t_Base t))" and th: "map_of (t_ClientThreads t) n = Some th"
    and sync: "\<not> th_bAsynchronous th" and no: "from_client n t = []" and t': "ServerRound io t = Some t'"
  shows "map_of (t_ClientThreads t') n = Some th \<and> from_client n t' = []"
proof (cases "t_DataFromClient t")
  case Nil
  then show ?thesis using t' th no by (simp add: ServerRound_def)
next
  case (Cons SD rest)
  have ne: "sd_sClientName SD \<noteq> n" using no Cons by (auto simp: from_client_def split: if_splits)
  let ?t = "t\<lparr>t_DataFromClient := rest\<rparr>"
  have rest: "from_client n ?t = []" using no Cons by (auto simp: from_client_def split: if_splits)
  show ?thesis
    using front_status [OF ok Cons]
  proof
    assume r: "sd_Status SD = PKT_READ"
    obtain b t1 where p: "ThreadedProcessClient io SD ?t = (b, t1)" by fastforce
    have t1: "t1 = t'" using t' Cons r p by (simp add: ServerRound_def)
    have m: "map_ok (t_ClientThreads ?t)" "db_ok (s_DB (t_Base ?t))" using t_okD(2) [OF ok] db by simp_all
    note eff = ThreadedProcessClient_effect [OF m p]
    have E: "same_frame ?t t1" "rel_option (extended 0) (map_of (t_ClientThreads t) n) (map_of (t_ClientThreads t1) n)"
      using spec [OF conjunct2 [OF conjunct2 [OF conjunct2 [OF eff]]], of n] eff ne by simp_all
    then obtain th' where "map_of (t_ClientThreads t1) n = Some th'" "extended 0 th th'"
      using th by (cases "map_of (t_ClientThreads t1) n") auto
    then have "map_of (t_ClientThreads t1) n = Some th" using sync by (auto simp: extended_def)
    then show ?thesis using t1 rest same_frame_simps(4) [OF E(1)] by (simp add: from_client_def)
  next
    assume "sd_Status SD = CONNECTION_CLOSED"
    then have d: "ThreadedOnClientDisconnect SD ?t = Some t'" using t' Cons by (simp add: ServerRound_def)
    then obtain x where "map_of (t_ClientThreads t) (sd_sClientName SD) = Some x"
      by (cases "map_of (t_ClientThreads t) (sd_sClientName SD)") (simp_all add: ThreadedOnClientDisconnect_def)
    then have "t_ClientThreads t' = map_erase (sd_sClientName SD) (t_ClientThreads t)" "t_DataFromClient t' = rest"
      using d by (auto simp: ThreadedOnClientDisconnect_def StopAndCleanUpClientThread_def Let_def)
    then show ?thesis using ne th rest by (simp add: from_client_def)
  qed
qed

lemma stuck_step:
  assumes "stuck n th t" and "db_ok (s_DB (t_Base t))" and "t_fresh e t" and "t_exec e t = Some t'"
  shows "stuck n th t'"
proof -
  have ok: "t_ok t" and th: "map_of (t_ClientThreads t) n = Some th" and no: "from_client n t = []"
    and sync: "\<not> th_bAsynchronous th" "th_Reader th = Waiting" "th_DataOutgoing th = []"
    using assms(1) by (simp_all add: stuck_def)
  have ok': "t_ok t'" using t_exec_ok [OF ok assms(2,3)] assms(4) by auto
  have name: "th_sClientName x = m" if "map_of (t_ClientThreads t) m = Some x" for m x
    using t_okD(4) [OF ok that] by (simp add: thread_ok_def)
  have own: "ReadStep packet now th t = t" "SilenceStep d th t = t" "ReplyStep b th t = (None, t)" for packet now d b
    using sync by (simp_all add: ReadStep_def SilenceStep_def ReplyStep_def)
  have idle: "snd (WriteStep b th) = th" for b
    using sync(3) by (simp add: WriteStep_def)
  have "map_of (t_ClientThreads t') n = Some th \<and> from_client n t' = []"
  proof (cases e)
    case (TAccept fd p h b ip now u)
    then show ?thesis using accept_other [OF ok th] assms(3,4) no by (auto simp: t_fresh_def)
  next
    case (TRead m packet now)
    then show ?thesis
      using assms(4) th no own(1) on_thread_other [OF th, of m "\<lambda>x. ReadStep packet now x t"] steps_other(1) [OF name]
      by (cases "m = n") (auto simp: on_thread_def)
  next
    case (TSilence m d)
    then show ?thesis
      using assms(4) th no own(2) on_thread_other [OF th, of m "\<lambda>x. SilenceStep d x t"] steps_other(2) [OF name]
      by (cases "m = n") (auto simp: on_thread_def)
  next
    case (TReply m b)
    then show ?thesis
      using assms(4) th no own(3) on_thread_other [OF th, of m "\<lambda>x. snd (ReplyStep b x t)"] steps_other(3) [OF name]
      by (cases "m = n") (auto simp: on_thread_def)
  next
    case (TWrite m b)
    then show ?thesis
      using assms(4) th no idle by (cases "m = n") (auto simp: on_thread_def split: option.split)
  next
    case (TServe io)
    then show ?thesis using serve_other [OF ok assms(2) th sync(1) no] assms(4) by simp
  qed
  then show ?thesis using ok' sync by (simp add: stuck_def)
qed

lemma stuck_run:
  assumes "stuck n th t" and "db_ok (s_DB (t_Base t))" and "t_run es t = Some t'"
  shows "stuck n th t'"
  using assms
proof (induction es arbitrary: t)
  case Nil
  then show ?case by simp
next
  case (Cons e es)
  then obtain t1 where t1: "t_fresh e t" "t_exec e t = Some t1" "t_run es t1 = Some t'"
    by (auto split: option.splits if_splits)
  have "t_ok t" using Cons.prems(1) by (simp add: stuck_def)
  from t_exec_ok [OF this Cons.prems(2) t1(1)] obtain calls where "s_DB (t_Base t1) = db_run calls (s_DB (t_Base t))"
    using t1(2) by auto
  then have "db_ok (s_DB (t_Base t1))" using db_inv.inv_run [OF Cons.prems(2)] by simp
  then show ?case using Cons.IH [OF _ _ t1(3)] stuck_step [OF Cons.prems(1,2) t1(1,2)] by blast
qed

text \<open>C17: a packet of a synchronous client that holds no message is never answered: in every run of the
  server afterwards, as long as the process lives, the client's reader waits, so its silence is
  never noticed, and its name stays taken.\<close>

theorem empty_packet_stalls:
  assumes "t_ok t" and "db_ok (s_DB (t_Base t))" and "t_DataFromClient t = SD # rest" and "sd_Status SD = PKT_READ"
    and "sd_Pkt SD = Some []"
    and "map_of (t_ClientThreads t) (sd_sClientName SD) = Some th" and "\<not> th_bAsynchronous th"
    and "t_run (TServe io # es) t = Some t'"
  shows "map_of (t_ClientThreads t') (sd_sClientName SD) = Some th \<and> th_Reader th = Waiting
     \<and> th_DataOutgoing th = [] \<and> \<not> IsUniqueName (sd_sClientName SD) (t_Base t')"
proof -
  let ?n = "sd_sClientName SD" and ?t = "t\<lparr>t_DataFromClient := rest\<rparr>"
  note ok = assms(1) and db = assms(2)
  have "thread_ok ?n th (SD # from_client ?n ?t)"
    using t_okD(4) [OF ok assms(6)] assms(3) by (simp add: from_client_def)
  from sync_flow [OF this assms(7)] obtain k where k: "PKT_READ # map sd_Status (from_client ?n ?t) = replicate k PKT_READ
        @ (if th_Reader th = Finished then [CONNECTION_CLOSED] else [])"
      "k + length (th_DataOutgoing th) \<le> (if th_Reader th = Waiting then 1 else 0)"
    using assms(4) by (metis list.simps(9))
  then have wait: "th_Reader th = Waiting" "th_DataOutgoing th = []" "from_client ?n ?t = []"
    by (cases k; auto split: if_splits)+
  have e: "t_exec (TServe io) t = Some ?t"
    using assms(3-5) ThreadedProcessClient_fails [of ?t SD io] by (simp add: ServerRound_def)
  have "t_ok ?t" using t_exec_ok [OF ok db, of "TServe io"] e by (simp add: t_fresh_def)
  then have "stuck ?n th ?t" using wait assms(6,7) by (simp add: stuck_def)
  moreover have "db_ok (s_DB (t_Base ?t))" using db by simp
  moreover have "t_run es ?t = Some t'" using assms(8) e by (auto split: if_splits)
  ultimately have s: "stuck ?n th t'" by (rule stuck_run)
  then have "(th_Socket th, ?n) \<in> set (s_Socket2ClientMap (t_Base t'))"
    using t_okD(5) [of t' ?n th] by (auto simp: stuck_def known_def dest: map_of_SomeD)
  then have "\<not> IsUniqueName ?n (t_Base t')" unfolding IsUniqueName_def by (metis snd_conv)
  then show ?thesis using s by (simp add: stuck_def)
qed

text \<open>A packet that does not unpack ends the process, whoever sends it.\<close>

lemma throwing_packet_terminates:
  assumes "t_DataFromClient t = SD # rest" and "sd_Status SD = PKT_READ" and "sd_Pkt SD = None"
    and "map_of (t_ClientThreads t) (sd_sClientName SD) \<noteq> None"
  shows "\<exists>t'. t_exec (TServe io) t = Some t' \<and> t_bTerminated t' \<and> t_run (TServe io # es) t = None"
  using assms by (auto simp: ServerRound_def ThreadedProcessClient_fails)

section \<open>Asynchronous clients\<close>

text \<open>When the server thread serves a packet with a notification, every other asynchronous client
  whose subscription was due is sent, at once and in one packet, the mail held for it and the
  message, oldest first, and nothing stays held for it.\<close>

lemma push_delivery:
  assumes "t_ok t" and "db_ok (s_DB (t_Base t))" and "t_DataFromClient t = SD # rest" and "sd_Status SD = PKT_READ"
    and "sd_Pkt SD = Some rx" and "payload rx = pre @ m # post" and "m_cMsgType m = MOOS_NOTIFY"
    and "map_of (t_ClientThreads t) b = Some th" and "th_bAsynchronous th" and "b \<noteq> sd_sClientName SD"
    and "db1 = snd (process_all (view (io_timing io) (io_date io) (t_Base t)) pre [] (s_DB (t_Base t)))"
    and "delivered_to m db1 b" and "\<forall>x \<in> set post. \<not> is_clear x"
  shows "\<exists>t' later. t_exec (TServe io) t = Some t' \<and> box (s_DB (t_Base t')) b = []
     \<and> map_of (t_ClientThreads t') b = Some (th\<lparr>th_DataOutgoing := th_DataOutgoing th
          @ [outgoing_pkt (sd_sClientName SD) (box db1 b @ sent_msg m db1 # later)]\<rparr>)"
proof -
  let ?n = "sd_sClientName SD" and ?t = "t\<lparr>t_DataFromClient := rest\<rparr>" and ?sv = "view (io_timing io) (io_date io) (t_Base t)"
  note ok = assms(1) and db = assms(2)
  have "from_client ?n t \<noteq> []" using assms(3) by (simp add: from_client_def)
  then obtain tha where tha: "map_of (t_ClientThreads ?t) ?n = Some tha"
    using t_okD(3) [OF ok, of ?n] by fastforce
  have mok: "map_ok (t_ClientThreads ?t)" using t_okD(2) [OF ok] by simp
  have "set (payload rx) \<subseteq> set rx" by (cases rx) (auto simp: payload_def)
  moreover have "m \<in> set (payload rx)" by (simp add: assms(6))
  ultimately have m: "m \<in> set rx" by blast
  then have rx: "rx \<noteq> []" by auto
  have nf: "notifies rx" using assms(7) m by (auto simp: notifies_def list_ex_iff IsType_def)
  obtain tx db' where s: "served io ?n rx ?t = (tx, db')" by fastforce
  let ?u = "replied io ?n tha rx ?t"
  note U = replied_simps [OF mok tha s]
  have db': "db' = snd (snd (OnRxPkt ?sv ?n (pre @ m # post) [] (s_DB (t_Base t))))"
    using s assms(6) by (simp add: served_def)
  have "keeps b (box db1 b @ [sent_msg m db1]) db'"
    unfolding db' using assms(10) by (intro published_keeps [OF db assms(7,11,12,13)]) simp
  then obtain later where later: "box db' b = box db1 b @ sent_msg m db1 # later" and dbu: "db_ok (s_DB (t_Base ?u))"
    by (auto simp: keeps_def U(3))
  define t' where "t' = fold (push_mail ?n) (map fst (t_ClientThreads ?u)) ?u"
  note F = fold_push_mail [OF dbu U(2) map_ok_distinct [OF U(2)] t'_def]
  have e: "t_exec (TServe io) t = Some t'"
    using assms(3,4) ThreadedProcessClient_eq [OF tha rx refl assms(5), of io] nf
    by (simp add: ServerRound_def t'_def)
  have b: "map_of (t_ClientThreads ?u) b = Some th" using assms(8,10) by (simp add: U(1))
  then have in_u: "b \<in> set (map fst (t_ClientThreads ?u))" and async: "is_async ?u b"
    using assms(9) by (auto simp: is_async_def dest: map_of_SomeD intro: rev_image_eqI)
  have "map_of (t_ClientThreads t') b = Some (mailed ?n db' b th)" using F in_u b by (simp add: U(3))
  moreover have "box (s_DB (t_Base t')) b = []" using F in_u async by simp
  ultimately show ?thesis
    using e later assms(9) by (auto simp: mailed_def SendToClient_def)
qed

text \<open>when the reader of an asynchronous client ends and the server thread takes the news before
  the writer has sent what is queued, the socket is closed and deleted while the writer, which is
  only stopped later, still has packets to send on it.\<close>

theorem writer_outlives_socket:
  assumes "t_ok t" and "db_ok (s_DB (t_Base t))" and "t_DataFromClient t = []" and "map_of (t_ClientThreads t) n = Some th"
    and "th_bAsynchronous th" and "th_Reader th = Reading" and "th_bWriting th"
    and "th_DataOutgoing th = SD # q" and "sd_Status SD = PKT_WRITE"
    and "t_run [TRead n None now, TServe io] t = Some t'"
  shows "\<exists>th' \<in> set (t_OldClientThreads t'). th_bWriting th' \<and> th_Socket th' = th_Socket th
     \<and> (\<exists>q'. th_DataOutgoing th' = SD # q') \<and> fst (WriteStep True th') = sd_Pkt SD
     \<and> th_Socket th \<notin> fst ` set (s_ClientSocketList (t_Base t'))
     \<and> map_of (s_Socket2ClientMap (t_Base t')) (th_Socket th) = None"
proof -
  note ok = assms(1)
  have n: "th_sClientName th = n" using t_okD(4) [OF ok assms(4)] by (simp add: thread_ok_def)
  show ?thesis
    using assms(3-10) n
    by (auto simp: t_fresh_def on_thread_def ReadStep_def ThreadOnClientDisconnect_def ServerRound_def
        ThreadedOnClientDisconnect_def StopAndCleanUpClientThread_def WriteStep_def Let_def split: if_splits)
qed

section \<open>Response times\<close>

lemma responses:
  "fold add_response qs v = rev (filter (has_wild \<circ> fst) (List.map_filter parse_response qs)) @ v
     @ filter (\<lambda>e. \<not> has_wild (fst e)) (List.map_filter parse_response qs)"
  by (induction qs arbitrary: v) (auto simp: add_response_def List.map_filter_simps split: option.split)

lemma has_wild_iff: "has_wild p \<longleftrightarrow> CHR ''*'' \<in> set p \<or> CHR ''?'' \<in> set p"
proof -
  have "length (takeWhile P xs) < length xs \<longleftrightarrow> (\<exists>x \<in> set xs. \<not> P x)" for P and xs :: string
    by (induction xs) auto
  then show ?thesis by (auto simp: has_wild_def find_first_def Let_def)
qed

lemma glob_exact: "\<not> has_wild p \<Longrightarrow> glob p s = (p = s)"
  by (induction p s rule: glob.induct) (auto simp: has_wild_iff)

lemma find_append: "find P (xs @ ys) = (case find P xs of None \<Rightarrow> find P ys | Some x \<Rightarrow> Some x)"
  by (induction xs) auto

lemma find_filter: "find P (filter Q xs) = find (\<lambda>x. Q x \<and> P x) xs"
  by (induction xs) auto

text \<open>the response time of a client is the one given last for a pattern with a wildcard that
  matches its name; only if there is none, the one given first for exactly its name, else 0. (The
  comments in \<open>Run\<close> promise the opposite: specialisms before wildcards.)\<close>

theorem response_times:
  "ConsolidationTime n (t_ClientTimingVector (SetResponses sLatency (new_tserver s))) =
     (let es = List.map_filter parse_response (StringListToVector sLatency '','')
      in case find (\<lambda>e. has_wild (fst e) \<and> MOOSWildCmp (fst e) n) (rev es) of
           Some e \<Rightarrow> snd e
         | None \<Rightarrow> (case find (\<lambda>e. \<not> has_wild (fst e) \<and> c_str (fst e) = c_str n) es of Some e \<Rightarrow> snd e | None \<Rightarrow> 0))"
proof -
  let ?es = "List.map_filter parse_response (StringListToVector sLatency '','')"
  have c: "\<not> has_wild p \<Longrightarrow> \<not> has_wild (c_str p)" for p
    by (auto simp: has_wild_iff c_str_def dest: set_takeWhileD)
  have e: "(\<not> has_wild p \<and> MOOSWildCmp p n) = (\<not> has_wild p \<and> c_str p = c_str n)" for p
    using glob_exact [OF c] by (auto simp: MOOSWildCmp_glob)
  show ?thesis
    by (simp add: SetResponses_def new_tserver_def ConsolidationTime_def responses find_append find_filter
        rev_filter case_prod_beta comp_def Let_def e split: option.split)
qed

end
