(* ===== verification/Moos_Client.thy ===== *)
theory Moos_Client
  imports Moos_Msg Moos_WildCmp
begin

text \<open>
  The client \<open>CMOOSCommClient\<close> (\<open>Comms/MOOSCommClient.cpp\<close>): its boxes, subscriptions,
  notifications, active queues, the exchange with the server, and the status summaries.

  \<^item> A function that builds a message with the time -1 reads the clock: the reading is its last
    argument \<open>now\<close>.
  \<^item> The server is the argument of \<open>DoClientWork\<close>: the messages of its reply, or \<open>None\<close> when
    sending or receiving throws. That a packet carries a list of messages unchanged is
    \<open>Moos_CommPkt\<close>.
  \<^item> An active queue (\<open>Comms/ActiveMailQueue.cpp\<close>) is the list of the messages pushed to it; its
    thread and callback run outside the model. An uncaught \<open>std::runtime_error\<close> is \<open>Inl\<close>.
\<close>

section \<open>State\<close>

record comms_status =
  cs_recent_latency :: real
  cs_max_latency :: real
  cs_min_latency :: real
  cs_avg_latency :: real
  cs_name :: string
  cs_subscribes :: "string list"
  cs_publishes :: "string list"

definition new_comms_status :: comms_status where
  "new_comms_status = \<lparr>cs_recent_latency = -1, cs_max_latency = 1 / 2 ^ 1022,
     cs_min_latency = (2 - 1 / 2 ^ 52) * 2 ^ 1023, cs_avg_latency = 1 / 2 ^ 1022, cs_name = [],
     cs_subscribes = [], cs_publishes = []\<rparr>"

datatype quality = Excellent | Good | Fair | Poor

definition Appraise :: "comms_status \<Rightarrow> quality" where
  "Appraise s = (if cs_recent_latency s < 1 then Excellent else if cs_recent_latency s < 10 then Good
     else if cs_recent_latency s < 100 then Fair else Poor)"

record client =
  c_sMyName :: string
  c_bConnected :: bool
  c_bQuit :: bool
  c_OutBox :: "moos_msg list"
  c_InBox :: "moos_msg list"
  c_nOutPendingLimit :: nat
  c_nInPendingLimit :: nat
  c_nNextMsgID :: "32 word"
  c_bFakeSource :: bool
  c_bPostNewestToFront :: bool
  c_bExpectMailBoxOverFlow :: bool
  c_bMailPresent :: bool
  c_bDoLocalTimeCorrection :: bool
  c_bMonitorClientCommsStatus :: bool
  c_bDBIsAsynchronous :: bool
  c_nFundamentalFreq :: nat
  c_Registered :: "string list"
  c_Published :: "string list"
  c_RecurrentSubscriptions :: "(string, real) omap"
  c_ActiveQueueMap :: "(string, moos_msg list) omap"
  c_Msg2ActiveQueueName :: "(string, string list) omap"
  c_WildcardQueuePatterns :: "(string, string) omap"
  c_WildcardCheckSet :: "string list"
  c_ClientStatuses :: "(string, comms_status) omap"
  c_nPktsReceived :: "64 word"
  c_nMsgsReceived :: "64 word"
  c_nMsgsSent :: "64 word"
  c_sCommunityName :: string
  c_sDBHostAsSeenByDB :: string
  c_dfMOOSSkew :: real

definition CLIENT_MAX_FUNDAMENTAL_FREQ :: nat where
  "CLIENT_MAX_FUNDAMENTAL_FREQ = 200"

definition new_client :: client where
  "new_client =
     \<lparr>c_sMyName = [], c_bConnected = False, c_bQuit = False, c_OutBox = [], c_InBox = [],
      c_nOutPendingLimit = 2048, c_nInPendingLimit = 2048, c_nNextMsgID = 0, c_bFakeSource = False,
      c_bPostNewestToFront = False, c_bExpectMailBoxOverFlow = False, c_bMailPresent = False,
      c_bDoLocalTimeCorrection = True, c_bMonitorClientCommsStatus = False,
      c_bDBIsAsynchronous = False, c_nFundamentalFreq = 5, c_Registered = [], c_Published = [],
      c_RecurrentSubscriptions = [], c_ActiveQueueMap = [], c_Msg2ActiveQueueName = [],
      c_WildcardQueuePatterns = [], c_WildcardCheckSet = [], c_ClientStatuses = [],
      c_nPktsReceived = 0, c_nMsgsReceived = 0, c_nMsgsSent = 0, c_sCommunityName = [],
      c_sDBHostAsSeenByDB = [], c_dfMOOSSkew = 0\<rparr>"

text \<open>\<open>Run\<close> without its threads, for a client that is not running.\<close>

definition RunClient :: "string \<Rightarrow> nat \<Rightarrow> client \<Rightarrow> client" where
  "RunClient sMyName nFundamentalFrequency c =
     c\<lparr>c_bQuit := False, c_sMyName := sMyName,
       c_nFundamentalFreq := (if nFundamentalFrequency > CLIENT_MAX_FUNDAMENTAL_FREQ
                              then CLIENT_MAX_FUNDAMENTAL_FREQ else nFundamentalFrequency)\<rparr>"

text \<open>\<open>nCommTick\<close> is an \<open>int\<close>, stored in an \<open>unsigned int\<close>.\<close>

definition SetCommsTick :: "int \<Rightarrow> client \<Rightarrow> bool \<times> client" where
  "SetCommsTick nCommTick c =
     (if nCommTick > int CLIENT_MAX_FUNDAMENTAL_FREQ
      then (False, c\<lparr>c_nFundamentalFreq := CLIENT_MAX_FUNDAMENTAL_FREQ\<rparr>)
      else let n = nat (nCommTick mod 2 ^ 32)
           in (True, c\<lparr>c_nFundamentalFreq := (if n = 0 then 1 else n)\<rparr>))"

section \<open>The out box\<close>

definition push_newest :: "bool \<Rightarrow> moos_msg list \<Rightarrow> moos_msg \<Rightarrow> moos_msg list" where
  "push_newest bNewestToFront box Msg = (if bNewestToFront then Msg # box else box @ [Msg])"

definition drop_oldest :: "bool \<Rightarrow> moos_msg list \<Rightarrow> moos_msg list" where
  "drop_oldest bNewestToFront box = (if bNewestToFront then butlast box else tl box)"

definition ExpectOutboxOverflow :: "nat \<Rightarrow> client \<Rightarrow> client" where
  "ExpectOutboxOverflow n c =
     c\<lparr>c_bExpectMailBoxOverFlow := True, c_nOutPendingLimit := n,
       c_OutBox := (drop_oldest (c_bPostNewestToFront c) ^^ (length (c_OutBox c) - n)) (c_OutBox c)\<rparr>"

text \<open>\<open>Post\<close> returns the message as it changed it.\<close>

definition Post :: "moos_msg \<Rightarrow> bool \<Rightarrow> client \<Rightarrow> bool \<times> moos_msg \<times> client" where
  "Post Msg bKeepMsgSourceName c =
     (if \<not> c_bConnected c then (False, Msg, c)
      else let Msg = (if \<not> c_bFakeSource c \<and> \<not> bKeepMsgSourceName then Msg\<lparr>m_sSrc := c_sMyName c\<rparr>
                      else if \<not> IsType Msg MOOS_NOTIFY then Msg\<lparr>m_sSrc := c_sMyName c\<rparr> else Msg);
               (Msg, c) = (if IsType Msg MOOS_SERVER_REQUEST then (Msg\<lparr>m_nID := MOOS_SERVER_REQUEST_ID\<rparr>, c)
                           else (Msg\<lparr>m_nID := c_nNextMsgID c\<rparr>, c\<lparr>c_nNextMsgID := c_nNextMsgID c + 1\<rparr>));
               box = push_newest (c_bPostNewestToFront c) (c_OutBox c) Msg;
               box = (if length box > c_nOutPendingLimit c then drop_oldest (c_bPostNewestToFront c) box else box)
           in (True, Msg, c\<lparr>c_OutBox := box\<rparr>))"

definition FakeSource :: "bool \<Rightarrow> client \<Rightarrow> client" where
  "FakeSource bFake c = c\<lparr>c_bFakeSource := bFake\<rparr>"

section \<open>Subscriptions and notifications\<close>

text \<open>\<open>bKeepMsgSourceName\<close> has the default false.\<close>

definition post_msg :: "moos_msg \<Rightarrow> client \<Rightarrow> bool \<times> client" where
  "post_msg Msg c = (let (ok, _, c) = Post Msg False c in (ok, c))"

definition RegisterVar :: "string \<Rightarrow> real \<Rightarrow> real \<Rightarrow> client \<Rightarrow> bool \<times> client" where
  "RegisterVar sVar dfInterval now c =
     (if \<not> c_bConnected c then (False, c)
      else if sVar = [] then (False, c)
      else let (bSuccess, c) = post_msg (msg_double MOOS_REGISTER (c_str sVar) dfInterval (-1) now) c
           in if bSuccess then (True, c\<lparr>c_Registered := set_insert sVar (c_Registered c)\<rparr>) else (False, c))"

definition wildcard_params :: "string \<Rightarrow> string \<Rightarrow> real \<Rightarrow> string" where
  "wildcard_params sVarPattern sAppPattern dfInterval =
     MOOSAddValToString (MOOSAddValToString (MOOSAddValToString [] ''AppPattern'' sAppPattern)
       ''VarPattern'' sVarPattern) ''Interval'' (show_g dfInterval)"

definition RegisterPattern :: "string \<Rightarrow> string \<Rightarrow> real \<Rightarrow> real \<Rightarrow> client \<Rightarrow> bool \<times> client" where
  "RegisterPattern sVarPattern sAppPattern dfInterval now c =
     (if sVarPattern = [] \<or> sAppPattern = [] then (False, c)
      else post_msg (msg_string MOOS_WILDCARD_REGISTER (c_sMyName c)
             (wildcard_params sVarPattern sAppPattern dfInterval) (-1) now) c)"

definition UnRegisterVar :: "string \<Rightarrow> real \<Rightarrow> client \<Rightarrow> bool \<times> client" where
  "UnRegisterVar sVar now c =
     (if \<not> c_bConnected c then (False, c)
      else if sVar \<notin> set (c_Registered c) \<or> c_Registered c = [] then (True, c)
      else let (ok, c) = post_msg (msg_double MOOS_UNREGISTER (c_str sVar) 0 (-1) now) c
           in if ok then (True, c\<lparr>c_Registered := filter (\<lambda>v. v \<noteq> sVar) (c_Registered c)\<rparr>) else (False, c))"

definition UnRegisterPattern :: "string \<Rightarrow> string \<Rightarrow> real \<Rightarrow> client \<Rightarrow> bool \<times> client" where
  "UnRegisterPattern sVarPattern sAppPattern now c =
     (if \<not> c_bConnected c then (False, c)
      else if c_Registered c = [] then (True, c)
      else post_msg (msg_string MOOS_WILDCARD_UNREGISTER (c_sMyName c)
             (wildcard_params sVarPattern sAppPattern 0) (-1) now) c)"

definition IsRegisteredFor :: "string \<Rightarrow> client \<Rightarrow> bool" where
  "IsRegisteredFor sVariable c \<longleftrightarrow> c_Registered c \<noteq> [] \<and> sVariable \<in> set (c_Registered c)"

definition publish :: "string \<Rightarrow> client \<Rightarrow> client" where
  "publish sVar c = c\<lparr>c_Published := set_insert sVar (c_Published c)\<rparr>"

text \<open>The overloads of \<open>Notify\<close>; those without \<open>sSrcAux\<close> leave it empty.\<close>

definition NotifyDouble :: "string \<Rightarrow> real \<Rightarrow> string \<Rightarrow> real \<Rightarrow> real \<Rightarrow> client \<Rightarrow> bool \<times> client" where
  "NotifyDouble sVar dfVal sSrcAux dfTime now c =
     post_msg ((msg_double MOOS_NOTIFY (c_str sVar) dfVal dfTime now)\<lparr>m_sSrcAux := sSrcAux\<rparr>) (publish sVar c)"

definition NotifyString :: "string \<Rightarrow> string \<Rightarrow> string \<Rightarrow> real \<Rightarrow> real \<Rightarrow> client \<Rightarrow> bool \<times> client" where
  "NotifyString sVar sVal sSrcAux dfTime now c =
     post_msg ((msg_string MOOS_NOTIFY (c_str sVar) (c_str sVal) dfTime now)\<lparr>m_sSrcAux := sSrcAux\<rparr>) (publish sVar c)"

definition NotifyBinary :: "string \<Rightarrow> string \<Rightarrow> real \<Rightarrow> real \<Rightarrow> client \<Rightarrow> bool \<times> client" where
  "NotifyBinary sVar sData dfTime now c =
     post_msg (MarkAsBinary (msg_string MOOS_NOTIFY sVar sData dfTime now)) (publish sVar c)"

definition NotifyBinaryAux :: "string \<Rightarrow> string \<Rightarrow> string \<Rightarrow> real \<Rightarrow> real \<Rightarrow> client \<Rightarrow> bool \<times> client" where
  "NotifyBinaryAux sVar sData sSrcAux dfTime now c =
     post_msg (MarkAsBinary ((msg_binary MOOS_NOTIFY sVar sData dfTime now)\<lparr>m_sSrcAux := sSrcAux\<rparr>)) (publish sVar c)"

definition NotifyVector :: "string \<Rightarrow> string \<Rightarrow> real \<Rightarrow> real \<Rightarrow> client \<Rightarrow> bool \<times> client" where
  "NotifyVector sVar vData dfTime now c =
     (if vData = [] then (False, c) else NotifyBinary sVar vData dfTime now c)"

definition NotifyVectorAux :: "string \<Rightarrow> string \<Rightarrow> string \<Rightarrow> real \<Rightarrow> real \<Rightarrow> client \<Rightarrow> bool \<times> client" where
  "NotifyVectorAux sVar vData sSrcAux dfTime now c =
     (if vData = [] then (False, c) else NotifyBinaryAux sVar vData sSrcAux dfTime now c)"

text \<open>Subscriptions renewed at every connection; the clock reading is the same for all of them.\<close>

definition AddRecurrentSubscription :: "string \<Rightarrow> real \<Rightarrow> client \<Rightarrow> bool \<times> client" where
  "AddRecurrentSubscription sVar dfPeriod c =
     (if sVar = [] then (False, c)
      else (True, c\<lparr>c_RecurrentSubscriptions := map_set sVar dfPeriod (c_RecurrentSubscriptions c)\<rparr>))"

definition RemoveRecurrentSubscription :: "string \<Rightarrow> client \<Rightarrow> bool \<times> client" where
  "RemoveRecurrentSubscription sVar c =
     (if sVar = [] then (False, c)
      else if map_of (c_RecurrentSubscriptions c) sVar = None then (False, c)
      else (True, c\<lparr>c_RecurrentSubscriptions := map_erase sVar (c_RecurrentSubscriptions c)\<rparr>))"

fun register_all :: "(string \<times> real) list \<Rightarrow> real \<Rightarrow> client \<Rightarrow> bool \<times> client" where
  "register_all [] now c = (True, c)"
| "register_all ((k, p) # qs) now c =
     (let (ok, c) = RegisterVar k p now c in if \<not> ok then (False, c) else register_all qs now c)"

definition ApplyRecurrentSubscriptions :: "real \<Rightarrow> client \<Rightarrow> bool \<times> client" where
  "ApplyRecurrentSubscriptions now c = register_all (c_RecurrentSubscriptions c) now c"

section \<open>The in box\<close>

definition IsNullMsg :: "moos_msg \<Rightarrow> bool" where
  "IsNullMsg m \<longleftrightarrow> IsType m MOOS_NULL_MSG"

text \<open>\<open>Fetch\<close> returns the new contents of \<open>MsgList\<close>, which it leaves alone without mail.\<close>

definition Fetch :: "moos_msg list \<Rightarrow> client \<Rightarrow> bool \<times> moos_msg list \<times> client" where
  "Fetch MsgList c =
     (if \<not> c_bMailPresent c then (False, MsgList, c)
      else let l = filter (\<lambda>m. \<not> IsNullMsg m) (c_InBox c)
           in (l \<noteq> [], l, c\<lparr>c_InBox := [], c_bMailPresent := False\<rparr>))"

fun peek_loop :: "32 word \<Rightarrow> moos_msg list \<Rightarrow> moos_msg list \<Rightarrow> moos_msg list \<times> moos_msg list" where
  "peek_loop nID [] MsgList = (MsgList, [])"
| "peek_loop nID (m # ms) MsgList =
     (if \<not> IsNullMsg m \<and> m_nID m = nID then peek_loop nID ms (m # MsgList)
      else let (l, rest) = peek_loop nID ms MsgList in (l, m # rest))"

definition Peek :: "32 word \<Rightarrow> bool \<Rightarrow> client \<Rightarrow> bool \<times> moos_msg list \<times> client" where
  "Peek nIDRequired bClear c =
     (let (l, rest) = peek_loop nIDRequired (c_InBox c) []
      in (l \<noteq> [], l, c\<lparr>c_InBox := (if bClear then [] else rest)\<rparr>))"

text \<open>\<open>PeekMail\<close>: the position of the message it picks.\<close>

fun peek_pos :: "string \<Rightarrow> bool \<Rightarrow> nat \<Rightarrow> real \<Rightarrow> nat option \<Rightarrow> moos_msg list \<Rightarrow> nat option" where
  "peek_pos sKey bFindYoungest i dfYoungest q [] = q"
| "peek_pos sKey bFindYoungest i dfYoungest q (m # ms) =
     (if m_sKey m = sKey
      then (if bFindYoungest
            then (if m_dfTime m > dfYoungest then peek_pos sKey True (Suc i) (m_dfTime m) (Some i) ms
                  else peek_pos sKey True (Suc i) dfYoungest q ms)
            else Some i)
      else peek_pos sKey bFindYoungest (Suc i) dfYoungest q ms)"

definition PeekMail :: "moos_msg list \<Rightarrow> string \<Rightarrow> bool \<Rightarrow> bool \<Rightarrow> (moos_msg \<times> moos_msg list) option" where
  "PeekMail Mail sKey bRemove bFindYoungest =
     (case peek_pos sKey bFindYoungest 0 (-1) None Mail of
        None \<Rightarrow> None
      | Some i \<Rightarrow> Some (Mail ! i, if bRemove then take i Mail @ drop (Suc i) Mail else Mail))"

text \<open>\<open>PeekAndCheckMail\<close>; \<open>now\<close> is the reading of \<open>MOOSTime()\<close>.\<close>

definition PeekAndCheckMail ::
    "moos_msg list \<Rightarrow> string \<Rightarrow> bool \<Rightarrow> bool \<Rightarrow> real \<Rightarrow> bool \<times> (moos_msg \<times> moos_msg list) option" where
  "PeekAndCheckMail Mail sKey bErase bFindYoungest now =
     (case PeekMail Mail sKey bErase bFindYoungest of
        None \<Rightarrow> (False, None)
      | Some (m, Mail) \<Rightarrow> (\<not> fst (IsSkewed m (now - 5)), Some (m, Mail)))"

section \<open>Active queues\<close>

definition HasActiveQueue :: "string \<Rightarrow> client \<Rightarrow> bool" where
  "HasActiveQueue sQueueName c \<longleftrightarrow> map_of (c_ActiveQueueMap c) sQueueName \<noteq> None"

definition AddActiveQueue :: "string \<Rightarrow> client \<Rightarrow> bool \<times> client" where
  "AddActiveQueue sQueueName c =
     (if map_of (c_ActiveQueueMap c) sQueueName = None
      then (True, c\<lparr>c_ActiveQueueMap := map_set sQueueName [] (c_ActiveQueueMap c)\<rparr>)
      else (False, c))"

definition add_route :: "string \<Rightarrow> string \<Rightarrow> client \<Rightarrow> client" where
  "add_route sMsgName sQueueName c =
     c\<lparr>c_Msg2ActiveQueueName := map_set sMsgName
         (set_insert sQueueName (map_get [] (c_Msg2ActiveQueueName c) sMsgName)) (c_Msg2ActiveQueueName c)\<rparr>"

definition AddMessageRouteToActiveQueue :: "string \<Rightarrow> string \<Rightarrow> client \<Rightarrow> bool \<times> client" where
  "AddMessageRouteToActiveQueue sQueueName sMsgName c =
     (if HasActiveQueue sQueueName c then (True, add_route sMsgName sQueueName c) else (False, c))"

text \<open>The overload that creates the queue first.\<close>

definition AddMessageCallBack :: "string \<Rightarrow> string \<Rightarrow> client \<Rightarrow> bool \<times> client" where
  "AddMessageCallBack sQueueName sMsgName c =
     AddMessageRouteToActiveQueue sQueueName sMsgName
       (if \<not> HasActiveQueue sQueueName c then snd (AddActiveQueue sQueueName c) else c)"

definition AddWildcardActiveQueue :: "string \<Rightarrow> string \<Rightarrow> client \<Rightarrow> bool \<times> client" where
  "AddWildcardActiveQueue sQueueName sPattern c =
     (let (ok, c) = AddActiveQueue sQueueName c
      in if \<not> ok then (False, c)
         else (True, fold (\<lambda>k c. if MOOSWildCmp sPattern k then add_route k sQueueName c else c)
                (c_WildcardCheckSet c)
                (c\<lparr>c_WildcardQueuePatterns := map_set sQueueName sPattern (c_WildcardQueuePatterns c)\<rparr>)))"

definition RemoveActiveQueue :: "string \<Rightarrow> client \<Rightarrow> bool \<times> client" where
  "RemoveActiveQueue sQueueName c =
     (let c = c\<lparr>c_Msg2ActiveQueueName :=
                  map_vals (\<lambda>_ qs. filter (\<lambda>q. q \<noteq> sQueueName) qs) (c_Msg2ActiveQueueName c)\<rparr>
      in if map_of (c_ActiveQueueMap c) sQueueName \<noteq> None
         then (True, c\<lparr>c_ActiveQueueMap := map_erase sQueueName (c_ActiveQueueMap c),
                       c_WildcardQueuePatterns := map_erase sQueueName (c_WildcardQueuePatterns c)\<rparr>)
         else (False, c))"

definition RemoveMessageRouteToActiveQueue :: "string \<Rightarrow> string \<Rightarrow> client \<Rightarrow> bool \<times> client" where
  "RemoveMessageRouteToActiveQueue sQueueName sMsgName c =
     (if \<not> HasActiveQueue sQueueName c then (False, c)
      else if map_of (c_Msg2ActiveQueueName c) sMsgName = None then (False, c)
      else (True, c\<lparr>c_Msg2ActiveQueueName := map_erase sMsgName (c_Msg2ActiveQueueName c)\<rparr>))"

subsection \<open>Dispatch\<close>

text \<open>The wildcard queues are asked about a message when it has no route or has not been
  checked before; then it counts as checked. The second component says whether a queue
  matched.\<close>

definition check_wildcards :: "string \<Rightarrow> client \<Rightarrow> bool \<times> client" where
  "check_wildcards key c =
     (let ws = filter (\<lambda>w. MOOSWildCmp (snd w) key) (c_WildcardQueuePatterns c);
          c = fold (\<lambda>w c. add_route key (fst w) c) ws c
      in (ws \<noteq> [], c\<lparr>c_WildcardCheckSet := set_insert key (c_WildcardCheckSet c)\<rparr>))"

text \<open>Pushing one message to its queues.\<close>

fun push_all :: "moos_msg \<Rightarrow> string list \<Rightarrow> client \<Rightarrow> string + client" where
  "push_all m [] c = Inr c"
| "push_all m (r # rs) c =
     (case map_of (c_ActiveQueueMap c) r of
        None \<Rightarrow> Inl (''active queue '' @ r @ '' not found'')
      | Some q \<Rightarrow> push_all m rs (c\<lparr>c_ActiveQueueMap := map_set r (q @ [m]) (c_ActiveQueueMap c)\<rparr>))"

text \<open>The loop over the in box: \<open>kept\<close> is what stays in front of the position, the list what
  lies behind it. A message with no route and no matching wildcard queue ends the loop.\<close>

fun dispatch :: "moos_msg list \<Rightarrow> moos_msg list \<Rightarrow> client \<Rightarrow> string + client" where
  "dispatch kept [] c = Inr (c\<lparr>c_InBox := kept\<rparr>)"
| "dispatch kept (t # ts) c =
     (let q = map_of (c_Msg2ActiveQueueName c) (m_sKey t);
          unchecked = (q = None \<or> m_sKey t \<notin> set (c_WildcardCheckSet c));
          (bFoundWCMatch, c) = (if unchecked then check_wildcards (m_sKey t) c else (False, c))
      in if unchecked \<and> \<not> bFoundWCMatch \<and> q = None then Inr (c\<lparr>c_InBox := kept @ t # ts\<rparr>)
         else let qs = map_get [] (c_Msg2ActiveQueueName c) (m_sKey t)
              in case push_all t qs c of
                   Inl e \<Rightarrow> Inl e
                 | Inr c \<Rightarrow> dispatch (if qs \<noteq> [] then kept else kept @ [t]) ts c)"

definition DispatchInBoxToActiveThreads :: "client \<Rightarrow> string + client" where
  "DispatchInBoxToActiveThreads c = dispatch [] (c_InBox c) c"

section \<open>The exchange with the server\<close>

definition UpdateMOOSSkew :: "real \<Rightarrow> real \<Rightarrow> real \<Rightarrow> client \<Rightarrow> client" where
  "UpdateMOOSSkew dfRqTime dfTxTime dfRxTime c =
     (let dfMeasuredSkew = 1/2 * ((dfTxTime - dfRxTime) + (dfTxTime - dfRqTime))
      in c\<lparr>c_dfMOOSSkew := (if c_dfMOOSSkew c \<noteq> 0 then 9/10 * c_dfMOOSSkew c + 1/10 * dfMeasuredSkew
                            else dfMeasuredSkew)\<rparr>)"

definition ClearResources :: "client \<Rightarrow> client" where
  "ClearResources c = c\<lparr>c_OutBox := [], c_InBox := [], c_Registered := [], c_sDBHostAsSeenByDB := []\<rparr>"

definition OnCloseConnection :: "client \<Rightarrow> client" where
  "OnCloseConnection c = ClearResources (c\<lparr>c_bConnected := False\<rparr>)"

text \<open>What is sent: the out box, or one null message.\<close>

definition outgoing :: "client \<Rightarrow> moos_msg list" where
  "outgoing c = (if c_OutBox c = [] then [new_msg\<lparr>m_sSrc := c_sMyName c\<rparr>] else c_OutBox c)"

text \<open>\<open>DoClientWork\<close>: \<open>reply\<close> is what the server answers to the packet, \<open>tx\<close> and \<open>rx\<close> are the
  local times of sending and receiving. The time of the server is the value of a leading null
  message. The in box is counted in an \<open>unsigned int\<close> and the difference added in 64 bits.\<close>

definition DoClientWork ::
    "(moos_msg list \<Rightarrow> moos_msg list option) \<Rightarrow> real \<Rightarrow> real \<Rightarrow> client \<Rightarrow> string + (bool \<times> client)" where
  "DoClientWork server tx rx c =
     (if \<not> c_bConnected c then Inr (False, c)
      else let List = outgoing c;
               c = c\<lparr>c_nMsgsSent := c_nMsgsSent c + of_nat (length List), c_OutBox := []\<rparr>
           in case server List of
                None \<Rightarrow> Inr (False, OnCloseConnection c)
              | Some msgs \<Rightarrow>
                  (let c = c\<lparr>c_nPktsReceived := c_nPktsReceived c + 1\<rparr>;
                       num_pending = length (c_InBox c);
                       c = (if num_pending > c_nInPendingLimit c then c\<lparr>c_InBox := []\<rparr> else c);
                       c = c\<lparr>c_InBox := c_InBox c @ filter (\<lambda>m. \<not> IsNullMsg m) msgs\<rparr>;
                       c = c\<lparr>c_nMsgsReceived := c_nMsgsReceived c + (of_nat (length (c_InBox c)) - of_nat num_pending)\<rparr>;
                       c = (if c_bDoLocalTimeCorrection c \<and> msgs \<noteq> [] \<and> IsNullMsg (hd msgs)
                            then UpdateMOOSSkew tx (m_dfVal (hd msgs)) rx c else c)
                   in case DispatchInBoxToActiveThreads c of
                        Inl e \<Rightarrow> Inl e
                      | Inr c \<Rightarrow> Inr (True, c\<lparr>c_bMailPresent := (c_InBox c \<noteq> [])\<rparr>)))"

text \<open>What the handshake sends: the protocol string padded by \<open>strncpy\<close>, then the name. The key
  says that the client is not asynchronous.\<close>

definition MOOS_PROTOCOL_STRING_BUFFER_SIZE :: nat where
  "MOOS_PROTOCOL_STRING_BUFFER_SIZE = 32"

definition HandShakeKey :: string where
  "HandShakeKey = []"

definition hello_bytes :: string where
  "hello_bytes = take MOOS_PROTOCOL_STRING_BUFFER_SIZE
     (MOOS_PROTOCOL_STRING @ replicate MOOS_PROTOCOL_STRING_BUFFER_SIZE CHR 0x00)"

definition hello_msg :: "real \<Rightarrow> client \<Rightarrow> moos_msg" where
  "hello_msg now c = msg_string MOOS_DATA HandShakeKey (c_str (c_sMyName c)) (-1) now"

text \<open>The reply to the handshake; \<open>None\<close> for an exception while shaking hands. \<open>local_ip\<close> is what
  \<open>GetLocalIPAddress\<close> returns and \<open>bQuiet\<close> suppresses the console output, with which goes the
  switching of the time correction.\<close>

definition HandShake :: "moos_msg option \<Rightarrow> string \<Rightarrow> bool \<Rightarrow> client \<Rightarrow> bool \<times> client" where
  "HandShake welcome local_ip bQuiet c =
     (let c = (if c_bDoLocalTimeCorrection c then c\<lparr>c_dfMOOSSkew := 0\<rparr> else c)
      in case welcome of
           None \<Rightarrow> (False, c)
         | Some W \<Rightarrow>
             if IsType W MOOS_POISON then (False, c)
             else let c = c\<lparr>c_sCommunityName := m_sOriginatingCommunity W,
                            c_bDBIsAsynchronous := MOOSStrCmp (m_sVal W) ''asynchronous'',
                            c_sDBHostAsSeenByDB :=
                              (case MOOSValFromString (m_sSrcAux W) ''hostname'' True of
                                 None \<Rightarrow> c_sDBHostAsSeenByDB c | Some h \<Rightarrow> h)\<rparr>;
                      c = (if \<not> bQuiet \<and> m_sSrcAux W \<noteq> []
                           then c\<lparr>c_bDoLocalTimeCorrection := (local_ip \<noteq> c_sDBHostAsSeenByDB c)\<rparr> else c);
                      c = (if c_bDoLocalTimeCorrection c then c\<lparr>c_dfMOOSSkew := m_dfVal W\<rparr> else c)
                  in (True, c))"

definition CloseClient :: "client \<Rightarrow> client" where
  "CloseClient c =
     (ClearResources (c\<lparr>c_bQuit := True\<rparr>))
       \<lparr>c_ActiveQueueMap := [], c_Msg2ActiveQueueName := [], c_WildcardCheckSet := []\<rparr>"

section \<open>Status of the other clients\<close>

definition ControlClientCommsStatusMonitoring :: "bool \<Rightarrow> real \<Rightarrow> client \<Rightarrow> bool \<times> client" where
  "ControlClientCommsStatusMonitoring bEnable now c =
     (if bEnable
      then let (ok, c) = AddRecurrentSubscription ''DB_QOS'' 0 c
           in if \<not> ok then (False, c)
              else let (ok, c) = AddRecurrentSubscription ''DB_RWSUMMARY'' 0 c
                   in if \<not> ok then (False, c)
                      else if HasActiveQueue ''_ClientSummaries'' c then (True, c)
                      else let (ok, c) = AddActiveQueue ''_ClientSummaries'' c
                           in if \<not> ok then (False, c)
                              else let (ok, c) = AddMessageRouteToActiveQueue ''_ClientSummaries'' ''DB_QOS'' c
                                   in if \<not> ok then (False, c)
                                      else let (ok, c) = AddMessageRouteToActiveQueue ''_ClientSummaries'' ''DB_RWSUMMARY'' c
                                           in if \<not> ok then (False, c)
                                              else (True, snd (ApplyRecurrentSubscriptions now c))
      else if HasActiveQueue ''_ClientSummaries'' c then RemoveActiveQueue ''_ClientSummaries'' c
      else (True, c))"

definition GetClientCommsStatus :: "string \<Rightarrow> client \<Rightarrow> comms_status option" where
  "GetClientCommsStatus sClient c = map_of (c_ClientStatuses c) sClient"

definition GetClientCommsStatuses :: "client \<Rightarrow> comms_status list" where
  "GetClientCommsStatuses c = map snd (c_ClientStatuses c)"

text \<open>One entry \<open>name=recent:max:min:avg\<close> of \<open>DB_QOS\<close>. \<open>StringToDouble\<close> may throw.\<close>

definition read_qos :: "string \<Rightarrow> comms_status \<Rightarrow> comms_status option" where
  "read_qos sT r =
     (let (a, sT) = MOOSChomp sT '':'' False; (b, sT) = MOOSChomp sT '':'' False;
          (d, sT) = MOOSChomp sT '':'' False; (e, sT) = MOOSChomp sT '':'' False
      in case (StringToDouble a, StringToDouble b, StringToDouble d, StringToDouble e) of
           (Some a, Some b, Some d, Some e) \<Rightarrow>
             Some (r\<lparr>cs_recent_latency := a, cs_max_latency := b, cs_min_latency := d, cs_avg_latency := e\<rparr>)
         | _ \<Rightarrow> None)"

text \<open>The two loops over the comma separated entries, which are the pieces of the value up to
  the first empty one. An empty client name ends with false, a bad number with an exception.\<close>

fun qos_loop :: "string list \<Rightarrow> (string, comms_status) omap \<Rightarrow> string + (bool \<times> (string, comms_status) omap)" where
  "qos_loop [] st = Inr (True, st)"
| "qos_loop (sT # sTs) st =
     (if sT = [] then Inr (True, st)
      else let (sC, sT) = MOOSChomp sT ''='' False
           in if sC = [] then Inr (False, st)
              else case read_qos sT ((map_get new_comms_status st sC)\<lparr>cs_name := sC\<rparr>) of
                     None \<Rightarrow> Inl ''not a number''
                   | Some r \<Rightarrow> qos_loop sTs (map_set sC r st))"

fun rw_loop :: "string list \<Rightarrow> (string, comms_status) omap \<Rightarrow> bool \<times> (string, comms_status) omap" where
  "rw_loop [] st = (True, st)"
| "rw_loop (sT # sTs) st =
     (if sT = [] then (True, st)
      else let (sC, sT) = MOOSChomp sT ''='' False;
               (sSub, sT) = MOOSChomp sT ''&'' False;
               (sPub, sT) = MOOSChomp sT ''&'' False
           in if sC = [] then (False, st)
              else rw_loop sTs (map_set sC
                     ((map_get new_comms_status st sC)
                        \<lparr>cs_subscribes := StringListToVector sSub '':'', cs_publishes := StringListToVector sPub '':''\<rparr>) st))"

definition ProcessClientCommsStatusSummary :: "moos_msg \<Rightarrow> client \<Rightarrow> string + (bool \<times> client)" where
  "ProcessClientCommsStatusSummary M c =
     (if m_sKey M = ''DB_QOS''
      then (case qos_loop (StringListToVector (m_sVal M) '','') (c_ClientStatuses c) of
              Inl e \<Rightarrow> Inl e
            | Inr (ok, st) \<Rightarrow> Inr (ok, c\<lparr>c_ClientStatuses := st\<rparr>))
      else if m_sKey M = ''DB_RWSUMMARY''
      then (let (ok, st) = rw_loop (StringListToVector (m_sVal M) '','') (c_ClientStatuses c)
            in Inr (ok, c\<lparr>c_ClientStatuses := st\<rparr>))
      else Inr (True, c))"

section \<open>Connecting\<close>

text \<open>\<open>ConnectToServer\<close> once the socket is connected: the handshake, then the monitoring. The user's
  callback runs outside the model.\<close>

definition ConnectToServer :: "moos_msg option \<Rightarrow> string \<Rightarrow> bool \<Rightarrow> real \<Rightarrow> client \<Rightarrow> bool \<times> client" where
  "ConnectToServer welcome local_ip bQuiet now c =
     (if c_bConnected c then (True, c)
      else if c_bQuit c then (False, c)
      else let (ok, c) = HandShake welcome local_ip bQuiet c
           in if ok
              then let c = c\<lparr>c_bConnected := True\<rparr>
                   in (True, snd (ControlClientCommsStatusMonitoring (c_bMonitorClientCommsStatus c) now c))
              else (False, c\<lparr>c_bQuit := True\<rparr>))"

text \<open>The loop of \<open>ClientLoop\<close> up to the first exchange.\<close>

definition StartSession :: "moos_msg option \<Rightarrow> string \<Rightarrow> bool \<Rightarrow> real \<Rightarrow> client \<Rightarrow> bool \<times> client" where
  "StartSession welcome local_ip bQuiet now c =
     (let (ok, c) = ConnectToServer welcome local_ip bQuiet now c
      in if ok then (True, snd (ApplyRecurrentSubscriptions now c)) else (False, c))"

end
