(* ===== verification/Moos_ClientProps.thy ===== *)
theory Moos_ClientProps
  imports Moos_Client
begin

text \<open>
  What the client promises: its out box keeps the newest messages, in order and numbered; mail is
  dispatched to the active queues, or fetched, once and in order; routes lead to existing
  queues; the clock correction never leaves its bounds; recurrent subscriptions are renewed.
\<close>

section \<open>A box that overflows\<close>

definition latest :: "nat \<Rightarrow> 'a list \<Rightarrow> 'a list" where
  "latest n xs = drop (length xs - n) xs"

lemma length_latest: "length (latest n xs) = min n (length xs)"
  by (simp add: latest_def)

lemma latest_all: "length xs \<le> n \<Longrightarrow> latest n xs = xs"
  by (simp add: latest_def)

lemma latest_snoc: "latest n (latest n xs @ [x]) = latest n (xs @ [x])"
  by (cases "length xs \<le> n") (auto simp: latest_def Suc_diff_le)

text \<open>
  The interface: a box with an operation that adds the newest message, one that removes the oldest,
  and the order of arrival \<open>chron\<close> as its abstraction.
\<close>

locale overflow_box =
  fixes push :: "'b \<Rightarrow> 'm \<Rightarrow> 'b"
    and drop_old :: "'b \<Rightarrow> 'b"
    and chron :: "'b \<Rightarrow> 'm list"
  assumes chron_push: "chron (push b m) = chron b @ [m]"
    and chron_drop: "chron (drop_old b) = tl (chron b)"
begin

definition post :: "nat \<Rightarrow> 'm \<Rightarrow> 'b \<Rightarrow> 'b" where
  "post limit m b = (if length (chron (push b m)) > limit then drop_old (push b m) else push b m)"

lemma chron_post:
  assumes "length (chron b) \<le> limit"
  shows "chron (post limit m b) = latest limit (chron b @ [m])"
proof (cases "length (chron b) < limit")
  case True
  then show ?thesis by (simp add: post_def chron_push latest_all)
next
  case False
  with assms have "length (chron b) = limit" by simp
  then show ?thesis
    by (cases "chron b") (auto simp: post_def chron_push chron_drop latest_def)
qed

lemma chron_posts:
  "length (chron b) \<le> limit \<Longrightarrow> chron (fold (post limit) ms b) = latest limit (chron b @ ms)"
proof (induction ms rule: rev_induct)
  case Nil
  then show ?case by (simp add: latest_all)
next
  case (snoc m ms)
  then have "length (chron (fold (post limit) ms b)) \<le> limit" by (simp add: length_latest)
  with snoc show ?case using latest_snoc [of limit "chron b @ ms" m] by (simp add: chron_post)
qed

lemma chron_drops: "chron ((drop_old ^^ n) b) = drop n (chron b)"
  by (induction n) (simp_all add: chron_drop drop_Suc tl_drop)

end

definition by_age :: "bool \<Rightarrow> moos_msg list \<Rightarrow> moos_msg list" where
  "by_age bNewestToFront box = (if bNewestToFront then rev box else box)"

lemma rev_butlast: "rev (butlast xs) = tl (rev xs)"
  by (cases xs rule: rev_cases) auto

interpretation out: overflow_box "push_newest b" "drop_oldest b" "by_age b" for b
  by unfold_locales (simp_all add: push_newest_def drop_oldest_def by_age_def rev_butlast)

lemma length_by_age [simp]: "length (by_age b box) = length box"
  by (simp add: by_age_def)

section \<open>Posting\<close>

lemma IsType_src [simp]: "IsType (M\<lparr>m_sSrc := x\<rparr>) t = IsType M t"
  by (simp add: IsType_def)

text \<open>The source and the number \<open>Post\<close> gives a message.\<close>

definition stamp :: "client \<Rightarrow> bool \<Rightarrow> moos_msg \<Rightarrow> moos_msg" where
  "stamp c bKeep M =
     M\<lparr>m_sSrc := (if IsType M MOOS_NOTIFY \<and> (c_bFakeSource c \<or> bKeep) then m_sSrc M else c_sMyName c),
       m_nID := (if IsType M MOOS_SERVER_REQUEST then MOOS_SERVER_REQUEST_ID else c_nNextMsgID c)\<rparr>"

lemma Post_connected:
  "c_bConnected c \<Longrightarrow> Post M bKeep c = (True, stamp c bKeep M,
     c\<lparr>c_OutBox := out.post (c_bPostNewestToFront c) (c_nOutPendingLimit c) (stamp c bKeep M) (c_OutBox c),
       c_nNextMsgID := c_nNextMsgID c + (if IsType M MOOS_SERVER_REQUEST then 0 else 1)\<rparr>)"
  by (auto simp: Post_def stamp_def Let_def out.post_def)

lemma post_msg_eq: "post_msg M c = (c_bConnected c, snd (snd (Post M False c)))"
  by (cases "c_bConnected c") (simp_all add: post_msg_def Post_connected, simp add: Post_def)

text \<open>A run of posts, and the messages as \<open>Post\<close> changed them.\<close>

fun post_all :: "moos_msg list \<Rightarrow> client \<Rightarrow> moos_msg list \<times> client" where
  "post_all [] c = ([], c)"
| "post_all (M # Ms) c =
     (let (_, M, c) = Post M False c; (sent, c) = post_all Ms c in (M # sent, c))"

definition numbered :: "moos_msg list \<Rightarrow> 32 word list" where
  "numbered Ms = map m_nID (filter (\<lambda>M. \<not> IsType M MOOS_SERVER_REQUEST) Ms)"

definition posted :: "moos_msg \<Rightarrow> client \<Rightarrow> client" where
  "posted M c = snd (snd (Post M False c))"

lemma posted_eq: "c_bConnected c \<Longrightarrow> posted M c =
    c\<lparr>c_OutBox := out.post (c_bPostNewestToFront c) (c_nOutPendingLimit c) (stamp c False M) (c_OutBox c),
      c_nNextMsgID := c_nNextMsgID c + of_nat (length (numbered [M]))\<rparr>"
  by (simp add: posted_def Post_connected numbered_def)

lemma post_all_Cons: "c_bConnected c \<Longrightarrow>
    post_all (M # Ms) c = (stamp c False M # fst (post_all Ms (posted M c)), snd (post_all Ms (posted M c)))"
  by (simp add: posted_def Post_connected split: prod.split)

lemma numbered_Cons: "numbered (M # Ms) = numbered [M] @ numbered Ms"
  by (simp add: numbered_def)

lemma numbered_stamp: "numbered [stamp c b M] = (if IsType M MOOS_SERVER_REQUEST then [] else [c_nNextMsgID c])"
  by (simp add: numbered_def stamp_def IsType_def)

lemma length_numbered_stamp [simp]: "length (numbered [stamp c b M]) = length (numbered [M])"
  by (simp add: numbered_stamp) (simp add: numbered_def)

lemma post_all_state: "c_bConnected c \<Longrightarrow>
    snd (post_all Ms c) =
      c\<lparr>c_OutBox := fold (out.post (c_bPostNewestToFront c) (c_nOutPendingLimit c)) (fst (post_all Ms c)) (c_OutBox c),
        c_nNextMsgID := c_nNextMsgID c + of_nat (length (numbered (fst (post_all Ms c))))\<rparr>"
proof (induction Ms arbitrary: c)
  case Nil
  then show ?case by (simp add: numbered_def)
next
  case (Cons M Ms)
  then have "c_bConnected (posted M c)" by (simp add: posted_eq)
  from Cons.IH [OF this] show ?case
    using Cons.prems numbered_Cons [of "stamp c False M" "fst (post_all Ms (posted M c))"]
    by (simp add: post_all_Cons del: post_all.simps) (simp add: posted_eq)
qed

lemma post_all_numbers: "c_bConnected c \<Longrightarrow>
    numbered (fst (post_all Ms c)) = map (\<lambda>i. c_nNextMsgID c + of_nat i) [0..<length (numbered (fst (post_all Ms c)))]"
proof (induction Ms arbitrary: c)
  case Nil
  then show ?case by (simp add: numbered_def)
next
  case (Cons M Ms)
  then have "c_bConnected (posted M c)" by (simp add: posted_eq)
  from Cons.IH [OF this] show ?case
    using Cons.prems
    by (cases "IsType M MOOS_SERVER_REQUEST")
      (auto simp: post_all_Cons numbered_Cons [of "stamp c False M"] numbered_stamp posted_eq numbered_def [of "[M]"]
        map_upt_Suc add.assoc simp del: post_all.simps upt_Suc)
qed

lemma post_all_content: "c_bConnected c \<Longrightarrow> \<not> c_bFakeSource c \<Longrightarrow>
    list_all2 (\<lambda>M S. S = M\<lparr>m_sSrc := c_sMyName c, m_nID := m_nID S\<rparr>) Ms (fst (post_all Ms c))"
proof (induction Ms arbitrary: c)
  case Nil
  then show ?case by simp
next
  case (Cons M Ms)
  then have "c_bConnected (posted M c)" and "\<not> c_bFakeSource (posted M c)" by (simp_all add: posted_eq)
  from Cons.IH [OF this] show ?case
    using Cons.prems by (simp add: post_all_Cons del: post_all.simps) (simp add: posted_eq stamp_def)
qed

text \<open>C24: whatever a connected client posts, its out box holds the newest messages up to its
  limit, in the order they were posted whichever end the box grows at; each carries the name of
  the client, and all but server requests are numbered consecutively, wrapping at 2^32.\<close>

theorem outbox_latest:
  assumes "c_bConnected c" and "\<not> c_bFakeSource c" and "length (c_OutBox c) \<le> c_nOutPendingLimit c"
    and "post_all Ms c = (sent, c')"
  shows "by_age (c_bPostNewestToFront c') (c_OutBox c')
           = latest (c_nOutPendingLimit c) (by_age (c_bPostNewestToFront c) (c_OutBox c) @ sent)
     \<and> list_all2 (\<lambda>M S. S = M\<lparr>m_sSrc := c_sMyName c, m_nID := m_nID S\<rparr>) Ms sent
     \<and> numbered sent = map (\<lambda>i. c_nNextMsgID c + of_nat i) [0..<length (numbered sent)]
     \<and> c_nNextMsgID c' = c_nNextMsgID c + of_nat (length (numbered sent))"
  using post_all_state [OF assms(1), of Ms] post_all_numbers [OF assms(1), of Ms]
    post_all_content [OF assms(1,2), of Ms] assms(3,4)
    out.chron_posts [of "c_bPostNewestToFront c" "c_OutBox c" "c_nOutPendingLimit c" sent]
  by simp

text \<open>Announcing an overflow trims the out box to the newest messages within the new limit.\<close>

theorem overflow_trims:
  "by_age (c_bPostNewestToFront c) (c_OutBox (ExpectOutboxOverflow n c))
     = latest n (by_age (c_bPostNewestToFront c) (c_OutBox c))
   \<and> c_nOutPendingLimit (ExpectOutboxOverflow n c) = n"
  by (simp add: ExpectOutboxOverflow_def out.chron_drops latest_def)

section \<open>Dispatch to active queues\<close>

definition matching :: "client \<Rightarrow> string \<Rightarrow> (string \<times> string) list" where
  "matching c key = filter (\<lambda>w. MOOSWildCmp (snd w) key) (c_WildcardQueuePatterns c)"

definition routes :: "client \<Rightarrow> string \<Rightarrow> string list" where
  "routes c key = map_get [] (c_Msg2ActiveQueueName c) key"

text \<open>The queues a message goes to, and whether the loop gets past it.\<close>

definition not_checked :: "client \<Rightarrow> string \<Rightarrow> bool" where
  "not_checked c key \<longleftrightarrow> map_of (c_Msg2ActiveQueueName c) key = None \<or> key \<notin> set (c_WildcardCheckSet c)"

definition targets :: "client \<Rightarrow> string \<Rightarrow> string set" where
  "targets c key = set (routes c key) \<union> (if not_checked c key then fst ` set (matching c key) else {})"

definition has_route :: "client \<Rightarrow> string \<Rightarrow> bool" where
  "has_route c key \<longleftrightarrow> map_of (c_Msg2ActiveQueueName c) key \<noteq> None \<or> matching c key \<noteq> []"

lemma targets_queues [simp]: "targets (c\<lparr>c_ActiveQueueMap := x\<rparr>) k = targets c k"
  by (simp add: targets_def routes_def not_checked_def matching_def)

lemma has_route_queues [simp]: "has_route (c\<lparr>c_ActiveQueueMap := x\<rparr>) k = has_route c k"
  by (simp add: has_route_def matching_def)

definition queues_ok :: "client \<Rightarrow> bool" where
  "queues_ok c \<longleftrightarrow> map_ok (c_ActiveQueueMap c) \<and> map_ok (c_Msg2ActiveQueueName c)
     \<and> map_ok (c_WildcardQueuePatterns c)
     \<and> (\<forall>k. set_ok (routes c k) \<and> (\<forall>q \<in> set (routes c k). HasActiveQueue q c))
     \<and> (\<forall>w \<in> set (c_WildcardQueuePatterns c). HasActiveQueue (fst w) c)"

lemma fold_add_route:
  "map_ok (c_Msg2ActiveQueueName c) \<Longrightarrow> fold (\<lambda>w c. add_route key (fst w) c) ws c =
     (if ws = [] then c
      else c\<lparr>c_Msg2ActiveQueueName :=
               map_set key (fold set_insert (map fst ws) (routes c key)) (c_Msg2ActiveQueueName c)\<rparr>)"
proof (induction ws arbitrary: c)
  case Nil
  then show ?case by simp
next
  case (Cons w ws)
  then have "map_ok (c_Msg2ActiveQueueName (add_route key (fst w) c))" by (simp add: add_route_def)
  from Cons.IH [OF this] Cons.prems show ?case
    by (simp add: add_route_def routes_def map_get_def)
qed

lemma set_fold_insert [simp]: "set (fold set_insert xs ys) = set xs \<union> set ys"
  by (induction xs arbitrary: ys) auto

lemma set_ok_fold_insert [simp, intro]: "set_ok ys \<Longrightarrow> set_ok (fold set_insert xs ys)"
  by (induction xs arbitrary: ys) auto

text \<open>The state after the wildcard check of the loop.\<close>

definition checked :: "string \<Rightarrow> client \<Rightarrow> client" where
  "checked key c = (if not_checked c key then snd (check_wildcards key c) else c)"

lemma check_wildcards_eq:
  "map_ok (c_Msg2ActiveQueueName c) \<Longrightarrow> check_wildcards key c =
     (matching c key \<noteq> [],
      (if matching c key = [] then c
       else c\<lparr>c_Msg2ActiveQueueName := map_set key (fold set_insert (map fst (matching c key)) (routes c key))
                 (c_Msg2ActiveQueueName c)\<rparr>)
      \<lparr>c_WildcardCheckSet := set_insert key (c_WildcardCheckSet c)\<rparr>)"
  by (simp add: check_wildcards_def fold_add_route matching_def [symmetric])

lemma routes_checked:
  "map_ok (c_Msg2ActiveQueueName c) \<Longrightarrow>
     set (routes (checked key c) k) = (if k = key then targets c key else set (routes c k))"
  by (auto simp: checked_def check_wildcards_eq routes_def targets_def map_get_def)

lemma routed_checked:
  "map_ok (c_Msg2ActiveQueueName c) \<Longrightarrow>
     map_of (c_Msg2ActiveQueueName (checked key c)) k = None \<longleftrightarrow>
       (if k = key then \<not> has_route c key else map_of (c_Msg2ActiveQueueName c) k = None)"
  by (auto simp: checked_def check_wildcards_eq has_route_def not_checked_def)

lemma checkset_checked:
  "map_ok (c_Msg2ActiveQueueName c) \<Longrightarrow>
     set (c_WildcardCheckSet (checked key c)) = insert key (set (c_WildcardCheckSet c))"
  by (auto simp: checked_def check_wildcards_eq not_checked_def)

lemma checked_frame:
  "map_ok (c_Msg2ActiveQueueName c) \<Longrightarrow>
     checked key c = c\<lparr>c_Msg2ActiveQueueName := c_Msg2ActiveQueueName (checked key c),
       c_WildcardCheckSet := c_WildcardCheckSet (checked key c)\<rparr>"
  by (simp add: checked_def check_wildcards_eq)

lemma checked_same:
  "map_ok (c_Msg2ActiveQueueName c) \<Longrightarrow> c_WildcardQueuePatterns (checked key c) = c_WildcardQueuePatterns c"
  "map_ok (c_Msg2ActiveQueueName c) \<Longrightarrow> c_ActiveQueueMap (checked key c) = c_ActiveQueueMap c"
  by (simp_all add: checked_def check_wildcards_eq)

lemma targets_checked: "map_ok (c_Msg2ActiveQueueName c) \<Longrightarrow> targets (checked key c) k = targets c k"
  using routed_checked [of c key k] routes_checked [of c key k] checkset_checked [of c key]
  by (auto simp: targets_def not_checked_def matching_def checked_same has_route_def routes_def map_get_def
      split: if_splits)

lemma has_route_checked: "map_ok (c_Msg2ActiveQueueName c) \<Longrightarrow> has_route (checked key c) k = has_route c k"
  using routed_checked [of c key k]
  by (auto simp: has_route_def matching_def checked_same split: if_splits)

lemma queues_ok_checked: "queues_ok c \<Longrightarrow> queues_ok (checked key c)"
proof -
  assume ok: "queues_ok c"
  then have m: "map_ok (c_Msg2ActiveQueueName c)" by (simp add: queues_ok_def)
  have "set_ok (routes (checked key c) k)" for k
    using ok m by (auto simp: queues_ok_def checked_def check_wildcards_eq routes_def map_get_def)
  moreover have "HasActiveQueue q c" if "q \<in> set (routes (checked key c) k)" for q k
    using that ok by (auto simp: routes_checked [OF m] targets_def matching_def queues_ok_def split: if_splits)
  ultimately show ?thesis
    using ok m by (simp add: queues_ok_def checked_same HasActiveQueue_def) (simp add: checked_def check_wildcards_eq)
qed

lemma dispatch_step:
  "map_ok (c_Msg2ActiveQueueName c) \<Longrightarrow> dispatch kept (t # ts) c =
     (if \<not> has_route c (m_sKey t) then Inr (checked (m_sKey t) c\<lparr>c_InBox := kept @ t # ts\<rparr>)
      else let qs = routes (checked (m_sKey t) c) (m_sKey t)
           in case push_all t qs (checked (m_sKey t) c) of
                Inl e \<Rightarrow> Inl e
              | Inr c \<Rightarrow> dispatch (if qs \<noteq> [] then kept else kept @ [t]) ts c)"
  by (auto simp: Let_def checked_def check_wildcards_eq not_checked_def has_route_def routes_def
      split: prod.splits)

lemma push_all_eq:
  "\<forall>q \<in> set qs. HasActiveQueue q c \<Longrightarrow> push_all m qs c =
     Inr (c\<lparr>c_ActiveQueueMap := fold (\<lambda>r a. map_set r (map_get [] a r @ [m]) a) qs (c_ActiveQueueMap c)\<rparr>)"
proof (induction qs arbitrary: c)
  case Nil
  then show ?case by simp
next
  case (Cons r rs)
  then obtain q where "map_of (c_ActiveQueueMap c) r = Some q" by (auto simp: HasActiveQueue_def)
  moreover have "\<forall>q' \<in> set rs. HasActiveQueue q' (c\<lparr>c_ActiveQueueMap := map_set r (q @ [m]) (c_ActiveQueueMap c)\<rparr>)"
    using Cons.prems by (simp add: HasActiveQueue_def)
  ultimately show ?case by (simp add: Cons.IH map_get_def)
qed

lemma map_ok_pushed [simp]:
  "map_ok a \<Longrightarrow> map_ok (fold (\<lambda>r a. map_set r (map_get [] a r @ [m]) a) qs a)"
  by (rule fold_inv) auto

lemma map_of_pushed:
  "distinct qs \<Longrightarrow> \<forall>q \<in> set qs. map_of a q \<noteq> None \<Longrightarrow>
     map_of (fold (\<lambda>r a. map_set r (map_get [] a r @ [m]) a) qs a) q =
       map_option (\<lambda>old. if q \<in> set qs then old @ [m] else old) (map_of a q)"
proof (induction qs arbitrary: a)
  case Nil
  then show ?case by (simp add: option.map_ident)
next
  case (Cons r rs)
  then show ?case by (auto simp: map_get_def split: option.split)
qed

text \<open>One message that has a route: every queue it goes to receives it once.\<close>

definition pushed :: "moos_msg \<Rightarrow> client \<Rightarrow> client" where
  "pushed t c = (let c = checked (m_sKey t) c
     in c\<lparr>c_ActiveQueueMap := fold (\<lambda>r a. map_set r (map_get [] a r @ [t]) a) (routes c (m_sKey t)) (c_ActiveQueueMap c)\<rparr>)"

lemma push_all_checked:
  assumes "queues_ok c"
  shows "push_all t (routes (checked (m_sKey t) c) (m_sKey t)) (checked (m_sKey t) c) = Inr (pushed t c)"
proof -
  have "queues_ok (checked (m_sKey t) c)" using assms by (rule queues_ok_checked)
  then show ?thesis by (simp add: push_all_eq queues_ok_def pushed_def Let_def)
qed

lemma pushed_queues:
  assumes "queues_ok c"
  shows "map_of (c_ActiveQueueMap (pushed t c)) q =
    map_option (\<lambda>old. if q \<in> targets c (m_sKey t) then old @ [t] else old) (map_of (c_ActiveQueueMap c) q)"
proof -
  have ok: "queues_ok (checked (m_sKey t) c)" using assms by (rule queues_ok_checked)
  have m: "map_ok (c_Msg2ActiveQueueName c)" using assms by (simp add: queues_ok_def)
  have "distinct (routes (checked (m_sKey t) c) (m_sKey t))"
    using ok by (simp add: queues_ok_def set_ok_def strict_sorted_iff)
  moreover have "\<forall>q \<in> set (routes (checked (m_sKey t) c) (m_sKey t)). map_of (c_ActiveQueueMap c) q \<noteq> None"
    using ok by (simp add: queues_ok_def HasActiveQueue_def checked_same m)
  ultimately show ?thesis
    by (simp add: pushed_def Let_def map_of_pushed routes_checked m checked_same)
qed

lemma queues_ok_pushed:
  assumes "queues_ok c"
  shows "queues_ok (pushed t c)"
proof -
  have "HasActiveQueue q (pushed t c) = HasActiveQueue q (checked (m_sKey t) c)" for q
    using pushed_queues [OF assms, of t q] assms
    by (simp add: HasActiveQueue_def queues_ok_def checked_same)
  then show ?thesis
    using queues_ok_checked [OF assms, of "m_sKey t"]
    by (simp add: queues_ok_def pushed_def Let_def routes_def)
qed

lemma pushed_routes:
  assumes "queues_ok c"
  shows "targets (pushed t c) k = targets c k" and "has_route (pushed t c) k = has_route c k"
proof -
  have m: "map_ok (c_Msg2ActiveQueueName c)" using assms by (simp add: queues_ok_def)
  show "targets (pushed t c) k = targets c k"
    by (simp add: pushed_def Let_def targets_checked [OF m])
  show "has_route (pushed t c) k = has_route c k"
    by (simp add: pushed_def Let_def has_route_checked [OF m])
qed

text \<open>The messages before the first without a route, and the rest.\<close>

definition routed :: "client \<Rightarrow> moos_msg list \<Rightarrow> moos_msg list" where
  "routed c ms = takeWhile (\<lambda>t. has_route c (m_sKey t)) ms"

definition unpicked :: "client \<Rightarrow> moos_msg list \<Rightarrow> moos_msg list" where
  "unpicked c ms = filter (\<lambda>t. targets c (m_sKey t) = {}) (routed c ms)
     @ dropWhile (\<lambda>t. has_route c (m_sKey t)) ms"

text \<open>What a dispatch leaves alone.\<close>

definition same_rest :: "client \<Rightarrow> client \<Rightarrow> bool" where
  "same_rest c c' \<longleftrightarrow> (\<exists>queues rts wcs ibox. c' = c\<lparr>c_ActiveQueueMap := queues,
     c_Msg2ActiveQueueName := rts, c_WildcardCheckSet := wcs, c_InBox := ibox\<rparr>)"

lemma same_rest_refl [simp]: "same_rest c (c\<lparr>c_InBox := x\<rparr>)"
  unfolding same_rest_def
  by (rule exI [of _ "c_ActiveQueueMap c"], rule exI [of _ "c_Msg2ActiveQueueName c"],
      rule exI [of _ "c_WildcardCheckSet c"], rule exI [of _ x]) simp

lemma same_restI: "same_rest c (c\<lparr>c_ActiveQueueMap := queues, c_Msg2ActiveQueueName := rts,
     c_WildcardCheckSet := wcs, c_InBox := ibox\<rparr>)"
  unfolding same_rest_def by (rule exI)+ (rule refl)

lemma same_rest_trans: "same_rest c c' \<Longrightarrow> same_rest c' c'' \<Longrightarrow> same_rest c c''"
  using same_restI by (fastforce simp: same_rest_def [of c c'] same_rest_def [of c' c''])

lemma same_rest_checked: "queues_ok c \<Longrightarrow> same_rest c (checked k c\<lparr>c_InBox := x\<rparr>)"
proof -
  assume "queues_ok c"
  then have "checked k c\<lparr>c_InBox := x\<rparr> = c\<lparr>c_ActiveQueueMap := c_ActiveQueueMap c,
      c_Msg2ActiveQueueName := c_Msg2ActiveQueueName (checked k c),
      c_WildcardCheckSet := c_WildcardCheckSet (checked k c), c_InBox := x\<rparr>"
    by (simp add: checked_def check_wildcards_eq queues_ok_def)
  then show ?thesis unfolding same_rest_def by blast
qed

lemma same_rest_pushed: "queues_ok c \<Longrightarrow> same_rest c (pushed t c)"
proof -
  assume "queues_ok c"
  then have "pushed t c = c\<lparr>c_ActiveQueueMap := c_ActiveQueueMap (pushed t c),
      c_Msg2ActiveQueueName := c_Msg2ActiveQueueName (pushed t c),
      c_WildcardCheckSet := c_WildcardCheckSet (pushed t c), c_InBox := c_InBox c\<rparr>"
    by (simp add: pushed_def Let_def checked_def check_wildcards_eq queues_ok_def)
  then show ?thesis unfolding same_rest_def by blast
qed

lemma dispatch_spec:
  assumes "queues_ok c"
  shows "\<exists>c'. dispatch kept ts c = Inr c' \<and> c_InBox c' = kept @ unpicked c ts
     \<and> (\<forall>q. map_of (c_ActiveQueueMap c') q =
           map_option (\<lambda>old. old @ filter (\<lambda>t. q \<in> targets c (m_sKey t)) (routed c ts)) (map_of (c_ActiveQueueMap c) q))
     \<and> queues_ok c' \<and> same_rest c c'"
  using assms
proof (induction ts arbitrary: kept c)
  case Nil
  then show ?case
    by (simp add: unpicked_def routed_def option.map_ident)
      (simp add: queues_ok_def routes_def HasActiveQueue_def)
next
  case (Cons t ts)
  have m: "map_ok (c_Msg2ActiveQueueName c)" using Cons.prems by (simp add: queues_ok_def)
  show ?case
  proof (cases "has_route c (m_sKey t)")
    case False
    then have "queues_ok (checked (m_sKey t) c\<lparr>c_InBox := kept @ t # ts\<rparr>)"
      using queues_ok_checked [OF Cons.prems, of "m_sKey t"]
      by (simp add: queues_ok_def routes_def HasActiveQueue_def)
    with False show ?thesis
      using same_rest_checked [OF Cons.prems]
      by (simp add: dispatch_step m unpicked_def routed_def option.map_ident checked_same del: dispatch.simps)
  next
    case True
    have t: "routes (checked (m_sKey t) c) (m_sKey t) \<noteq> [] \<longleftrightarrow> targets c (m_sKey t) \<noteq> {}"
      using routes_checked [OF m, of "m_sKey t" "m_sKey t"] by auto
    define kept' where "kept' = (if targets c (m_sKey t) \<noteq> {} then kept else kept @ [t])"
    have step: "dispatch kept (t # ts) c = dispatch kept' ts (pushed t c)"
      using True t by (auto simp: dispatch_step m push_all_checked [OF Cons.prems] Let_def kept'_def
          simp del: dispatch.simps)
    obtain c' where c': "dispatch kept' ts (pushed t c) = Inr c'" "c_InBox c' = kept' @ unpicked (pushed t c) ts"
        "\<forall>q. map_of (c_ActiveQueueMap c') q = map_option (\<lambda>old. old
           @ filter (\<lambda>t'. q \<in> targets (pushed t c) (m_sKey t')) (routed (pushed t c) ts)) (map_of (c_ActiveQueueMap (pushed t c)) q)"
        "queues_ok c'" "same_rest (pushed t c) c'"
      using Cons.IH [OF queues_ok_pushed [OF Cons.prems], of kept' t] by blast
    have r: "routed (pushed t c) ts = routed c ts" "unpicked (pushed t c) ts = unpicked c ts"
      by (simp_all add: routed_def unpicked_def pushed_routes [OF Cons.prems])
    have "c_InBox c' = kept @ unpicked c (t # ts)"
      using c'(2) True by (simp add: r kept'_def) (simp add: unpicked_def routed_def)
    moreover have "map_of (c_ActiveQueueMap c') q =
        map_option (\<lambda>old. old @ filter (\<lambda>t. q \<in> targets c (m_sKey t)) (routed c (t # ts))) (map_of (c_ActiveQueueMap c) q)" for q
      using True by (cases "map_of (c_ActiveQueueMap c) q")
        (simp_all add: c'(3) r pushed_routes [OF Cons.prems] pushed_queues [OF Cons.prems], simp add: routed_def)
    moreover have "same_rest c c'"
      using same_rest_pushed [OF Cons.prems] c'(5) by (rule same_rest_trans)
    ultimately show ?thesis using step c'(1,4) by metis
  qed
qed

end
