(* ===== verification/Moos_ClientRuns.thy ===== *)
theory Moos_ClientRuns
  imports Moos_ClientProps
begin

text \<open>
  Runs of a client: the calls an application and the client's own thread make, as a datatype, the
  invariant every call keeps, and what one exchange with the server does.
\<close>

section \<open>The invariant\<close>

definition client_ok :: "client \<Rightarrow> bool" where
  "client_ok c \<longleftrightarrow> queues_ok c
     \<and> length (c_OutBox c) \<le> c_nOutPendingLimit c
     \<and> (\<forall>m \<in> set (c_InBox c). \<not> IsNullMsg m) \<and> (c_InBox c \<noteq> [] \<longrightarrow> c_bMailPresent c)
     \<and> set_ok (c_Registered c) \<and> set_ok (c_Published c)
     \<and> map_ok (c_RecurrentSubscriptions c) \<and> map_of (c_RecurrentSubscriptions c) [] = None
     \<and> map_ok (c_ClientStatuses c)"

lemma client_okD:
  assumes "client_ok c"
  shows "map_of (c_RecurrentSubscriptions c) [] = None" "queues_ok c" "length (c_OutBox c) \<le> c_nOutPendingLimit c"
    and "\<forall>m \<in> set (c_InBox c). \<not> IsNullMsg m" "c_InBox c \<noteq> [] \<Longrightarrow> c_bMailPresent c"
    and "set_ok (c_Registered c)" "set_ok (c_Published c)"
    and "map_ok (c_RecurrentSubscriptions c)" "map_ok (c_ClientStatuses c)"
  using assms by (simp_all add: client_ok_def)

text \<open>The parts of the state the invariant of the queues looks at.\<close>

lemma queues_ok_cong:
  "c_ActiveQueueMap c' = c_ActiveQueueMap c \<Longrightarrow> c_Msg2ActiveQueueName c' = c_Msg2ActiveQueueName c \<Longrightarrow>
   c_WildcardQueuePatterns c' = c_WildcardQueuePatterns c \<Longrightarrow> queues_ok c' = queues_ok c"
  by (simp add: queues_ok_def routes_def HasActiveQueue_def)

text \<open>A change outside the queues keeps the invariant if it keeps the boxes and sets in order.\<close>

lemma client_ok_frame:
  assumes "client_ok c"
    and "c_ActiveQueueMap c' = c_ActiveQueueMap c" "c_Msg2ActiveQueueName c' = c_Msg2ActiveQueueName c"
    and "c_WildcardQueuePatterns c' = c_WildcardQueuePatterns c" "c_WildcardCheckSet c' = c_WildcardCheckSet c"
    and "length (c_OutBox c') \<le> c_nOutPendingLimit c'"
    and "\<forall>m \<in> set (c_InBox c'). \<not> IsNullMsg m" "c_InBox c' \<noteq> [] \<longrightarrow> c_bMailPresent c'"
    and "set_ok (c_Registered c')" "set_ok (c_Published c')"
    and "map_ok (c_RecurrentSubscriptions c')" "map_of (c_RecurrentSubscriptions c') [] = None"
    and "map_ok (c_ClientStatuses c')"
  shows "client_ok c'"
  using assms queues_ok_cong [of c' c] by (simp add: client_ok_def)

lemma client_ok_new [simp]: "client_ok new_client"
  by (simp add: client_ok_def new_client_def queues_ok_def routes_def map_get_def)

lemma length_post:
  "length box \<le> n \<Longrightarrow> length (out.post b n M box) \<le> n"
  using out.chron_post [of b box n M] by (metis length_by_age length_latest min.cobounded1)

lemma client_ok_Post [simp]: "client_ok c \<Longrightarrow> client_ok (snd (snd (Post M k c)))"
proof (cases "c_bConnected c")
  case True
  assume ok: "client_ok c"
  show ?thesis
    by (rule client_ok_frame [OF ok])
      (simp_all add: Post_connected [OF True] length_post client_okD [OF ok])
qed (simp add: Post_def)

lemma client_ok_post_msg [simp]: "client_ok c \<Longrightarrow> client_ok (snd (post_msg M c))"
  by (simp add: post_msg_eq)

lemma client_ok_publish [simp]: "client_ok c \<Longrightarrow> client_ok (publish v c)"
  by (rule client_ok_frame) (simp_all add: publish_def client_ok_def)

lemma client_ok_Registered: "client_ok c \<Longrightarrow> set_ok vs \<Longrightarrow> client_ok (c\<lparr>c_Registered := vs\<rparr>)"
  by (rule client_ok_frame) (simp_all add: client_ok_def)

lemma post_msg_posted: "c_bConnected c \<Longrightarrow> post_msg M c = (True, posted M c)"
  by (simp add: post_msg_eq posted_def)

lemma client_ok_posted [simp]: "client_ok c \<Longrightarrow> client_ok (posted M c)"
  by (simp add: posted_def)

lemma RegisterVar_eq: "RegisterVar v p now c =
    (if \<not> c_bConnected c \<or> v = [] then (False, c)
     else (True, posted (msg_double MOOS_REGISTER (c_str v) p (-1) now) c
             \<lparr>c_Registered := set_insert v (c_Registered c)\<rparr>))"
  by (simp add: RegisterVar_def post_msg_posted posted_eq)

lemma UnRegisterVar_eq: "UnRegisterVar v now c =
    (if \<not> c_bConnected c then (False, c)
     else if v \<notin> set (c_Registered c) then (True, c)
     else (True, posted (msg_double MOOS_UNREGISTER (c_str v) 0 (-1) now) c
             \<lparr>c_Registered := filter (\<lambda>w. w \<noteq> v) (c_Registered c)\<rparr>))"
  by (auto simp: UnRegisterVar_def post_msg_posted posted_eq)

lemma client_ok_registrations [simp]:
  "client_ok c \<Longrightarrow> client_ok (snd (RegisterVar v p now c))"
  "client_ok c \<Longrightarrow> client_ok (snd (UnRegisterVar v now c))"
  by (simp_all add: RegisterVar_eq UnRegisterVar_eq client_ok_Registered client_okD(6))

lemma client_ok_patterns [simp]:
  "client_ok c \<Longrightarrow> client_ok (snd (RegisterPattern v a p now c))"
  "client_ok c \<Longrightarrow> client_ok (snd (UnRegisterPattern v a now c))"
  by (simp_all add: RegisterPattern_def UnRegisterPattern_def)

lemma client_ok_notify [simp]:
  "client_ok c \<Longrightarrow> client_ok (snd (NotifyDouble v x a t now c))"
  "client_ok c \<Longrightarrow> client_ok (snd (NotifyString v s a t now c))"
  "client_ok c \<Longrightarrow> client_ok (snd (NotifyBinary v s t now c))"
  "client_ok c \<Longrightarrow> client_ok (snd (NotifyBinaryAux v s a t now c))"
  "client_ok c \<Longrightarrow> client_ok (snd (NotifyVector v s t now c))"
  "client_ok c \<Longrightarrow> client_ok (snd (NotifyVectorAux v s a t now c))"
  by (simp_all add: NotifyDouble_def NotifyString_def NotifyBinary_def NotifyBinaryAux_def
      NotifyVector_def NotifyVectorAux_def)

lemma client_ok_register_all: "client_ok c \<Longrightarrow> client_ok (snd (register_all qs now c))"
proof (induction qs arbitrary: c)
  case Nil
  then show ?case by simp
next
  case (Cons q qs)
  obtain k p where q: "q = (k, p)" by fastforce
  have "client_ok (snd (RegisterVar k p now c))" using Cons.prems by simp
  with Cons.IH q show ?case by (auto split: prod.split)
qed

lemma client_ok_recurrent [simp]:
  "client_ok c \<Longrightarrow> client_ok (snd (AddRecurrentSubscription v p c))"
  "client_ok c \<Longrightarrow> client_ok (snd (RemoveRecurrentSubscription v c))"
  "client_ok c \<Longrightarrow> client_ok (snd (ApplyRecurrentSubscriptions now c))"
  by (auto simp: AddRecurrentSubscription_def RemoveRecurrentSubscription_def ApplyRecurrentSubscriptions_def
      client_ok_register_all intro!: client_ok_frame [of c] dest: client_okD)

section \<open>Queues and routes\<close>

lemma client_ok_queues:
  assumes "client_ok c" and "queues_ok (c\<lparr>c_ActiveQueueMap := a, c_Msg2ActiveQueueName := r,
      c_WildcardQueuePatterns := w\<rparr>)"
  shows "client_ok (c\<lparr>c_ActiveQueueMap := a, c_Msg2ActiveQueueName := r, c_WildcardQueuePatterns := w\<rparr>)"
  using assms by (simp add: client_ok_def)

lemma queues_ok_add_queue: "queues_ok c \<Longrightarrow> queues_ok (c\<lparr>c_ActiveQueueMap := map_set q x (c_ActiveQueueMap c)\<rparr>)"
  by (auto simp: queues_ok_def HasActiveQueue_def routes_def)

lemma queues_ok_add_route:
  assumes "queues_ok c" and "HasActiveQueue q c"
  shows "queues_ok (add_route k q c)"
  using assms by (auto simp: queues_ok_def HasActiveQueue_def add_route_def routes_def map_get_def)

lemma queues_ok_add_pattern:
  assumes "queues_ok c" and "HasActiveQueue q c"
  shows "queues_ok (c\<lparr>c_WildcardQueuePatterns := map_set q p (c_WildcardQueuePatterns c)\<rparr>)"
  using assms map_set_elem by (fastforce simp: queues_ok_def HasActiveQueue_def routes_def)

lemma client_ok_AddActiveQueue [simp]: "client_ok c \<Longrightarrow> client_ok (snd (AddActiveQueue q c))"
  using client_ok_queues [where c = c and r = "c_Msg2ActiveQueueName c" and w = "c_WildcardQueuePatterns c"]
  by (simp add: AddActiveQueue_def queues_ok_add_queue client_okD(2))

lemma client_ok_add_route: "client_ok c \<Longrightarrow> HasActiveQueue q c \<Longrightarrow> client_ok (add_route k q c)"
  using client_ok_queues [where c = c and a = "c_ActiveQueueMap c" and w = "c_WildcardQueuePatterns c"] queues_ok_add_route [of c q k]
  by (simp add: add_route_def client_okD(2))

lemma client_ok_AddMessageRoute [simp]: "client_ok c \<Longrightarrow> client_ok (snd (AddMessageRouteToActiveQueue q k c))"
  by (simp add: AddMessageRouteToActiveQueue_def client_ok_add_route)

lemma client_ok_AddMessageCallBack [simp]: "client_ok c \<Longrightarrow> client_ok (snd (AddMessageCallBack q k c))"
  by (simp add: AddMessageCallBack_def)

lemma HasActiveQueue_add_route [simp]: "HasActiveQueue r (add_route k q c) = HasActiveQueue r c"
  by (simp add: add_route_def HasActiveQueue_def)

lemma AddActiveQueue_has: "HasActiveQueue q (snd (AddActiveQueue q c))"
  by (simp add: AddActiveQueue_def HasActiveQueue_def)

lemma client_ok_AddWildcardActiveQueue [simp]: "client_ok c \<Longrightarrow> client_ok (snd (AddWildcardActiveQueue q p c))"
proof -
  assume "client_ok c"
  define c1 where "c1 = snd (AddActiveQueue q c)"
  have ok: "client_ok c1" and q: "HasActiveQueue q c1"
    using \<open>client_ok c\<close> by (simp_all add: c1_def AddActiveQueue_has)
  define c2 where "c2 = c1\<lparr>c_WildcardQueuePatterns := map_set q p (c_WildcardQueuePatterns c1)\<rparr>"
  have "client_ok c2 \<and> HasActiveQueue q c2"
    using ok q queues_ok_add_pattern [of c1 q p] client_ok_queues [where c = c1 and a = "c_ActiveQueueMap c1" and r = "c_Msg2ActiveQueueName c1"]
    by (simp add: c2_def client_okD(2)) (simp add: HasActiveQueue_def)
  then have "client_ok (fold (\<lambda>k c. if MOOSWildCmp p k then add_route k q c else c) ks c2)
      \<and> HasActiveQueue q (fold (\<lambda>k c. if MOOSWildCmp p k then add_route k q c else c) ks c2)" for ks
    by (intro fold_inv [where P = "\<lambda>c. client_ok c \<and> HasActiveQueue q c"]) (simp_all add: client_ok_add_route)
  then show ?thesis
    using ok by (cases "AddActiveQueue q c") (simp add: AddWildcardActiveQueue_def c1_def c2_def)
qed

lemma queues_ok_remove:
  assumes "queues_ok c"
  shows "queues_ok (c\<lparr>c_Msg2ActiveQueueName := map_vals (\<lambda>_ qs. filter (\<lambda>x. x \<noteq> q) qs) (c_Msg2ActiveQueueName c)\<rparr>)"
    and "queues_ok (c\<lparr>c_Msg2ActiveQueueName := map_vals (\<lambda>_ qs. filter (\<lambda>x. x \<noteq> q) qs) (c_Msg2ActiveQueueName c),
      c_ActiveQueueMap := map_erase q (c_ActiveQueueMap c),
      c_WildcardQueuePatterns := map_erase q (c_WildcardQueuePatterns c)\<rparr>)"
  using assms by (auto simp: queues_ok_def routes_def map_get_def HasActiveQueue_def set_map_erase split: option.splits)

lemma client_ok_RemoveActiveQueue [simp]: "client_ok c \<Longrightarrow> client_ok (snd (RemoveActiveQueue q c))"
  using queues_ok_remove [of c q] by (simp add: RemoveActiveQueue_def client_ok_def Let_def)

lemma client_ok_RemoveMessageRoute [simp]: "client_ok c \<Longrightarrow> client_ok (snd (RemoveMessageRouteToActiveQueue q k c))"
  using client_ok_queues [where c = c and a = "c_ActiveQueueMap c" and w = "c_WildcardQueuePatterns c"]
  by (auto simp: RemoveMessageRouteToActiveQueue_def queues_ok_def client_ok_def routes_def map_get_def HasActiveQueue_def)

section \<open>The exchange and the session\<close>

text \<open>What is in the in box when the reply has been unpacked.\<close>

definition pending :: "client \<Rightarrow> moos_msg list \<Rightarrow> moos_msg list" where
  "pending c reply = (if length (c_InBox c) > c_nInPendingLimit c then [] else c_InBox c)
     @ filter (\<lambda>m. \<not> IsNullMsg m) reply"

text \<open>The state in which the dispatch starts.\<close>

definition received :: "real \<Rightarrow> real \<Rightarrow> moos_msg list \<Rightarrow> client \<Rightarrow> client" where
  "received tx rx reply c =
     (let c' = c\<lparr>c_nMsgsSent := c_nMsgsSent c + of_nat (length (outgoing c)), c_OutBox := [],
                 c_nPktsReceived := c_nPktsReceived c + 1, c_InBox := pending c reply,
                 c_nMsgsReceived := c_nMsgsReceived c
                   + (of_nat (length (pending c reply)) - of_nat (length (c_InBox c)))\<rparr>
      in if c_bDoLocalTimeCorrection c \<and> reply \<noteq> [] \<and> IsNullMsg (hd reply)
         then UpdateMOOSSkew tx (m_dfVal (hd reply)) rx c' else c')"

text \<open>What survives an exchange unchanged.\<close>

definition session_same :: "client \<Rightarrow> client \<Rightarrow> bool" where
  "session_same c c' \<longleftrightarrow> c_sMyName c' = c_sMyName c \<and> c_bConnected c' = c_bConnected c
     \<and> c_Registered c' = c_Registered c \<and> c_Published c' = c_Published c
     \<and> c_nNextMsgID c' = c_nNextMsgID c \<and> c_RecurrentSubscriptions c' = c_RecurrentSubscriptions c
     \<and> c_ClientStatuses c' = c_ClientStatuses c \<and> c_WildcardQueuePatterns c' = c_WildcardQueuePatterns c"

lemma UpdateMOOSSkew_simps [simp]:
  "c_InBox (UpdateMOOSSkew t v r c) = c_InBox c" "c_OutBox (UpdateMOOSSkew t v r c) = c_OutBox c"
  "c_bConnected (UpdateMOOSSkew t v r c) = c_bConnected c"
  "c_ActiveQueueMap (UpdateMOOSSkew t v r c) = c_ActiveQueueMap c"
  "c_Msg2ActiveQueueName (UpdateMOOSSkew t v r c) = c_Msg2ActiveQueueName c"
  "c_WildcardQueuePatterns (UpdateMOOSSkew t v r c) = c_WildcardQueuePatterns c"
  "c_WildcardCheckSet (UpdateMOOSSkew t v r c) = c_WildcardCheckSet c"
  "session_same c' (UpdateMOOSSkew t v r c) = session_same c' c"
  by (simp_all add: UpdateMOOSSkew_def session_same_def Let_def)

lemma DoClientWork_eq:
  "DoClientWork server tx rx c =
     (if \<not> c_bConnected c then Inr (False, c)
      else case server (outgoing c) of
             None \<Rightarrow> Inr (False, OnCloseConnection (c\<lparr>c_nMsgsSent := c_nMsgsSent c + of_nat (length (outgoing c)), c_OutBox := []\<rparr>))
           | Some reply \<Rightarrow>
               (case dispatch [] (pending c reply) (received tx rx reply c) of
                  Inl e \<Rightarrow> Inl e
                | Inr c' \<Rightarrow> Inr (True, c'\<lparr>c_bMailPresent := (c_InBox c' \<noteq> [])\<rparr>)))"
proof (cases "c_bConnected c")
  case True
  then show ?thesis
    by (cases "server (outgoing c)")
      (simp_all add: DoClientWork_def DispatchInBoxToActiveThreads_def received_def pending_def Let_def
        cong: if_cong option.case_cong)
qed (simp add: DoClientWork_def)

lemma received_queues:
  "c_ActiveQueueMap (received tx rx reply c) = c_ActiveQueueMap c"
  "queues_ok (received tx rx reply c) = queues_ok c"
  "targets (received tx rx reply c) = targets c"
  "has_route (received tx rx reply c) = has_route c"
  by (simp_all add: received_def Let_def queues_ok_def routes_def HasActiveQueue_def
      targets_def not_checked_def matching_def has_route_def fun_eq_iff)

lemma received_pending: "unpicked (received tx rx reply c) = unpicked c" "routed (received tx rx reply c) = routed c"
  by (simp_all add: unpicked_def routed_def received_queues fun_eq_iff)

lemma exchange_ok:
  assumes "client_ok c" and "c_bConnected c" and "server (outgoing c) = Some reply"
  shows "\<exists>c'. DoClientWork server tx rx c = Inr (True, c')
     \<and> c_OutBox c' = [] \<and> c_InBox c' = unpicked c (pending c reply)
     \<and> (\<forall>q. map_of (c_ActiveQueueMap c') q =
           map_option (\<lambda>old. old @ filter (\<lambda>t. q \<in> targets c (m_sKey t)) (routed c (pending c reply)))
             (map_of (c_ActiveQueueMap c) q))
     \<and> session_same c c' \<and> queues_ok c' \<and> c_bMailPresent c' = (c_InBox c' \<noteq> [])"
proof -
  let ?r = "received tx rx reply c"
  have q: "queues_ok ?r" using assms(1) by (simp add: received_queues client_okD(2))
  obtain c1 where c1: "dispatch [] (pending c reply) ?r = Inr c1"
      "c_InBox c1 = unpicked c (pending c reply)"
      "\<forall>q. map_of (c_ActiveQueueMap c1) q = map_option (\<lambda>old. old @ filter (\<lambda>t. q \<in> targets c (m_sKey t))
         (routed c (pending c reply))) (map_of (c_ActiveQueueMap c) q)"
      "queues_ok c1" "same_rest ?r c1"
    using dispatch_spec [OF q, of "[]" "pending c reply"]
    by (auto simp: received_queues received_pending)
  have "session_same c ?r" and "c_OutBox ?r = []"
    by (simp_all add: received_def Let_def) (simp_all add: session_same_def)
  then have "session_same c c1" and "c_OutBox c1 = []"
    using c1(5) by (auto simp: same_rest_def session_same_def)
  then show ?thesis
    using assms(2,3) c1 by (simp add: DoClientWork_eq session_same_def) (simp add: queues_ok_def routes_def HasActiveQueue_def)
qed

section \<open>Runs\<close>

lemma map_sum_eq_Inr: "map_sum f g x = Inr y \<longleftrightarrow> (\<exists>z. x = Inr z \<and> y = g z)"
  by (cases x) auto

lemma client_ok_Fetch [simp]: "client_ok c \<Longrightarrow> client_ok (snd (snd (Fetch l c)))"
  by (auto simp: Fetch_def Let_def intro!: client_ok_frame [of c] dest: client_okD)

lemma peek_loop_eq: "peek_loop n ms acc =
    (rev (filter (\<lambda>m. \<not> IsNullMsg m \<and> m_nID m = n) ms) @ acc, filter (\<lambda>m. IsNullMsg m \<or> m_nID m \<noteq> n) ms)"
  by (induction ms arbitrary: acc) auto

lemma client_ok_Peek [simp]: "client_ok c \<Longrightarrow> client_ok (snd (snd (Peek n b c)))"
proof -
  assume ok: "client_ok c"
  have "filter P (c_InBox c) \<noteq> [] \<Longrightarrow> c_bMailPresent c" for P
    using client_okD(5) [OF ok] by (cases "c_InBox c") auto
  then show ?thesis
    by (intro client_ok_frame [OF ok]) (simp_all add: Peek_def peek_loop_eq client_okD [OF ok])
qed

lemma client_ok_OverFlow [simp]: "client_ok c \<Longrightarrow> client_ok (ExpectOutboxOverflow n c)"
proof -
  assume ok: "client_ok c"
  have "length (by_age b ((drop_oldest b ^^ (length xs - n)) xs)) \<le> n" for b xs
    by (simp only: out.chron_drops) simp
  then show ?thesis
    by (intro client_ok_frame [OF ok]) (simp_all add: ExpectOutboxOverflow_def client_okD [OF ok])
qed

lemma client_ok_settings [simp]:
  "client_ok c \<Longrightarrow> client_ok (RunClient n f c)" "client_ok c \<Longrightarrow> client_ok (snd (SetCommsTick t c))"
  "client_ok c \<Longrightarrow> client_ok (FakeSource b c)" "client_ok c \<Longrightarrow> client_ok (OnCloseConnection c)"
  "client_ok c \<Longrightarrow> client_ok (c\<lparr>c_bConnected := b\<rparr>)" "client_ok c \<Longrightarrow> client_ok (c\<lparr>c_bQuit := b\<rparr>)"
  "client_ok c \<Longrightarrow> client_ok (c\<lparr>c_nMsgsSent := n', c_OutBox := []\<rparr>)"
  "client_ok c \<Longrightarrow> client_ok (c\<lparr>c_ClientStatuses := st\<rparr>) = map_ok st"
  by (simp_all add: RunClient_def SetCommsTick_def Let_def FakeSource_def OnCloseConnection_def ClearResources_def
      client_ok_def queues_ok_def routes_def HasActiveQueue_def)

lemma client_ok_HandShake [simp]: "client_ok c \<Longrightarrow> client_ok (snd (HandShake w ip q c))"
  by (simp add: HandShake_def Let_def client_ok_def queues_ok_def routes_def HasActiveQueue_def split: option.split)

lemma client_ok_Monitoring [simp]: "client_ok c \<Longrightarrow> client_ok (snd (ControlClientCommsStatusMonitoring b now c))"
  by (auto simp: ControlClientCommsStatusMonitoring_def Let_def case_prod_beta)

lemma client_ok_ConnectToServer [simp]: "client_ok c \<Longrightarrow> client_ok (snd (ConnectToServer w ip q now c))"
  by (simp add: ConnectToServer_def Let_def case_prod_beta)

lemma client_ok_StartSession [simp]: "client_ok c \<Longrightarrow> client_ok (snd (StartSession w ip q now c))"
  by (simp add: StartSession_def case_prod_beta)

lemma map_ok_qos: "map_ok st \<Longrightarrow> qos_loop ts st = Inr (ok, st') \<Longrightarrow> map_ok st'"
  by (induction ts arbitrary: st) (auto simp: Let_def case_prod_beta split: if_splits option.splits)

lemma map_ok_rw: "map_ok st \<Longrightarrow> rw_loop ts st = (ok, st') \<Longrightarrow> map_ok st'"
  by (induction ts arbitrary: st) (auto simp: Let_def case_prod_beta split: if_splits)

lemma client_ok_Summary:
  assumes ok: "client_ok c" and "ProcessClientCommsStatusSummary M c = Inr (r, c')"
  shows "client_ok c'"
proof (cases "m_sKey M = ''DB_QOS''")
  case True
  then show ?thesis
    using assms map_ok_qos [OF client_okD(9) [OF ok]]
    by (cases "qos_loop (StringListToVector (m_sVal M) '','') (c_ClientStatuses c)")
      (auto simp: ProcessClientCommsStatusSummary_def)
next
  case False
  then show ?thesis
    using assms map_ok_rw [OF client_okD(9) [OF ok]]
    by (cases "rw_loop (StringListToVector (m_sVal M) '','') (c_ClientStatuses c)")
      (auto simp: ProcessClientCommsStatusSummary_def split: if_splits)
qed

lemma client_ok_exchange: "client_ok c \<Longrightarrow> DoClientWork server tx rx c = Inr (ok, c') \<Longrightarrow> client_ok c'"
proof (cases "c_bConnected c \<and> server (outgoing c) \<noteq> None")
  case True
  assume ok: "client_ok c" and w: "DoClientWork server tx rx c = Inr (ok, c')"
  from True obtain reply where r: "server (outgoing c) = Some reply" by auto
  have "\<forall>m \<in> set (unpicked c (pending c reply)). \<not> IsNullMsg m"
    using client_okD(4) [OF ok]
    by (auto simp: unpicked_def routed_def pending_def dest!: set_takeWhileD set_dropWhileD)
  then show ?thesis
    using exchange_ok [of c server reply tx rx] ok w True r
    by (auto simp: client_ok_def session_same_def)
qed (auto simp: DoClientWork_eq split: if_splits)

text \<open>The calls of the application and of the client's own thread.\<close>

datatype client_call =
  CallRun string nat | CallTick int | CallOverflow nat | CallFakeSource bool | CallPost moos_msg bool
| CallRegister string real real | CallRegisterPattern string string real real
| CallUnRegister string real | CallUnRegisterPattern string string real
| CallNotifyDouble string real string real real | CallNotifyString string string string real real
| CallNotifyBinary string string real real | CallNotifyBinaryAux string string string real real
| CallNotifyVector string string real real | CallNotifyVectorAux string string string real real
| CallAddRecurrent string real | CallRemoveRecurrent string
| CallFetch "moos_msg list" | CallPeek "32 word" bool
| CallAddQueue string | CallAddRoute string string | CallAddCallBack string string
| CallAddWildcardQueue string string | CallRemoveQueue string | CallRemoveRoute string string
| CallMonitor bool real | CallSummary moos_msg
| CallStart "moos_msg option" string bool real
| CallWork "moos_msg list \<Rightarrow> moos_msg list option" real real
| CallClose

fun client_exec :: "client_call \<Rightarrow> client \<Rightarrow> string + client" where
  "client_exec (CallRun n f) c = Inr (RunClient n f c)"
| "client_exec (CallTick t) c = Inr (snd (SetCommsTick t c))"
| "client_exec (CallOverflow n) c = Inr (ExpectOutboxOverflow n c)"
| "client_exec (CallFakeSource b) c = Inr (FakeSource b c)"
| "client_exec (CallPost M k) c = Inr (snd (snd (Post M k c)))"
| "client_exec (CallRegister v p now) c = Inr (snd (RegisterVar v p now c))"
| "client_exec (CallRegisterPattern v a p now) c = Inr (snd (RegisterPattern v a p now c))"
| "client_exec (CallUnRegister v now) c = Inr (snd (UnRegisterVar v now c))"
| "client_exec (CallUnRegisterPattern v a now) c = Inr (snd (UnRegisterPattern v a now c))"
| "client_exec (CallNotifyDouble v x a t now) c = Inr (snd (NotifyDouble v x a t now c))"
| "client_exec (CallNotifyString v s a t now) c = Inr (snd (NotifyString v s a t now c))"
| "client_exec (CallNotifyBinary v s t now) c = Inr (snd (NotifyBinary v s t now c))"
| "client_exec (CallNotifyBinaryAux v s a t now) c = Inr (snd (NotifyBinaryAux v s a t now c))"
| "client_exec (CallNotifyVector v s t now) c = Inr (snd (NotifyVector v s t now c))"
| "client_exec (CallNotifyVectorAux v s a t now) c = Inr (snd (NotifyVectorAux v s a t now c))"
| "client_exec (CallAddRecurrent v p) c = Inr (snd (AddRecurrentSubscription v p c))"
| "client_exec (CallRemoveRecurrent v) c = Inr (snd (RemoveRecurrentSubscription v c))"
| "client_exec (CallFetch l) c = Inr (snd (snd (Fetch l c)))"
| "client_exec (CallPeek n b) c = Inr (snd (snd (Peek n b c)))"
| "client_exec (CallAddQueue q) c = Inr (snd (AddActiveQueue q c))"
| "client_exec (CallAddRoute q k) c = Inr (snd (AddMessageRouteToActiveQueue q k c))"
| "client_exec (CallAddCallBack q k) c = Inr (snd (AddMessageCallBack q k c))"
| "client_exec (CallAddWildcardQueue q p) c = Inr (snd (AddWildcardActiveQueue q p c))"
| "client_exec (CallRemoveQueue q) c = Inr (snd (RemoveActiveQueue q c))"
| "client_exec (CallRemoveRoute q k) c = Inr (snd (RemoveMessageRouteToActiveQueue q k c))"
| "client_exec (CallMonitor b now) c = Inr (snd (ControlClientCommsStatusMonitoring b now c))"
| "client_exec (CallSummary M) c = map_sum id snd (ProcessClientCommsStatusSummary M c)"
| "client_exec (CallStart w ip q now) c = Inr (snd (StartSession w ip q now c))"
| "client_exec (CallWork server tx rx) c = map_sum id snd (DoClientWork server tx rx c)"
| "client_exec CallClose c = Inr (CloseClient c)"

text \<open>\<open>Close\<close> is taken here only while no wildcard queue is installed: property
  \<open>close_strands_wildcards\<close> is about the other case.\<close>

inductive client_reach :: "client \<Rightarrow> bool" where
  creach_new: "client_reach new_client"
| creach_step: "client_reach c \<Longrightarrow> client_exec call c = Inr c' \<Longrightarrow>
    call = CallClose \<longrightarrow> c_WildcardQueuePatterns c = [] \<Longrightarrow> client_reach c'"

lemma client_ok_Close: "client_ok c \<Longrightarrow> c_WildcardQueuePatterns c = [] \<Longrightarrow> client_ok (CloseClient c)"
  by (simp add: CloseClient_def ClearResources_def client_ok_def queues_ok_def routes_def map_get_def)

lemma client_ok_exec:
  assumes "client_ok c" and "client_exec call c = Inr c'"
    and "call = CallClose \<longrightarrow> c_WildcardQueuePatterns c = []"
  shows "client_ok c'"
proof (cases call)
  case (CallSummary M)
  then show ?thesis using assms(1,2) client_ok_Summary [OF assms(1)] by (auto simp: map_sum_eq_Inr)
next
  case (CallWork server tx rx)
  then show ?thesis using assms(1,2) client_ok_exchange [OF assms(1)] by (auto simp: map_sum_eq_Inr)
next
  case CallClose
  then show ?thesis using assms client_ok_Close by auto
qed (use assms(1,2) in auto)

lemma client_reach_ok: "client_reach c \<Longrightarrow> client_ok c"
  by (induction rule: client_reach.induct) (simp, rule client_ok_exec)

end
