(* ===== verification/Moos_ClientProperties.thy ===== *)
theory Moos_ClientProperties
  imports Moos_ClientRuns
begin

text \<open>
  The properties of the client over its runs: it never fails on its own queues, an exchange delivers
  everything once and in order, a failed one leaves a closed client, fetching empties the in
  box, and the clock correction stays within its bounds.
\<close>

section \<open>Exchanges\<close>

text \<open>a client that started fresh is well formed in every state it can reach, and its exchange
  with the server never ends in the exception of a missing active queue.\<close>

theorem client_never_throws:
  assumes "client_reach c"
  shows "client_ok c \<and> (\<exists>ok c'. DoClientWork server tx rx c = Inr (ok, c'))"
proof -
  have ok: "client_ok c" using assms by (rule client_reach_ok)
  show ?thesis
  proof (cases "c_bConnected c \<and> server (outgoing c) \<noteq> None")
    case True
    then show ?thesis using exchange_ok [OF ok, of server _ tx rx] ok by fastforce
  next
    case False
    then show ?thesis using ok by (auto simp: DoClientWork_eq)
  qed
qed

text \<open>C6: an exchange sends the whole out box, or one null message. Of the mail pending from
  before, unless it exceeded its limit, and the reply without its null messages, the messages up
  to the first that no queue is routed to go to every queue they are routed to, in order and
  once each; the messages no queue took stay in the in box, in order.\<close>

theorem exchange_delivers:
  assumes "client_ok c" and "c_bConnected c" and "server (outgoing c) = Some reply"
  shows "\<exists>c'. DoClientWork server tx rx c = Inr (True, c')
     \<and> (if c_OutBox c = [] then map m_cMsgType (outgoing c) = [MOOS_NULL_MSG] else outgoing c = c_OutBox c)
     \<and> c_OutBox c' = [] \<and> c_InBox c' = unpicked c (pending c reply)
     \<and> (\<forall>q. map_of (c_ActiveQueueMap c') q =
           map_option (\<lambda>old. old @ filter (\<lambda>t. q \<in> targets c (m_sKey t)) (routed c (pending c reply)))
             (map_of (c_ActiveQueueMap c) q))
     \<and> session_same c c' \<and> c_bMailPresent c' = (c_InBox c' \<noteq> [])"
  using exchange_ok [where server = server, OF assms, of tx rx] by (auto simp: outgoing_def new_msg_def)

text \<open>When sending or receiving fails the client is closed: not connected, both boxes and the
  set of registrations empty, while the queues and recurrent subscriptions stay for the next
  session.\<close>

theorem exchange_fails:
  assumes "c_bConnected c" and "server (outgoing c) = None"
  shows "\<exists>c'. DoClientWork server tx rx c = Inr (False, c')
     \<and> \<not> c_bConnected c' \<and> c_OutBox c' = [] \<and> c_InBox c' = [] \<and> c_Registered c' = []
     \<and> c_ActiveQueueMap c' = c_ActiveQueueMap c \<and> c_Msg2ActiveQueueName c' = c_Msg2ActiveQueueName c
     \<and> c_RecurrentSubscriptions c' = c_RecurrentSubscriptions c"
  using assms by (simp add: DoClientWork_eq OnCloseConnection_def ClearResources_def)

lemma fetch_ok:
  assumes "client_ok c"
  shows "Fetch l c = (c_InBox c \<noteq> [], if c_bMailPresent c then c_InBox c else l,
     if c_bMailPresent c then c\<lparr>c_InBox := [], c_bMailPresent := False\<rparr> else c)"
proof -
  have "filter (\<lambda>m. \<not> IsNullMsg m) (c_InBox c) = c_InBox c"
    using client_okD(4) [OF assms] by (simp add: filter_id_conv)
  then show ?thesis
    using client_okD(5) [OF assms] by (auto simp: Fetch_def Let_def)
qed

text \<open>With no active queue routed to, an exchange followed by a fetch returns the mail pending
  from before and then the reply, without null messages; a second fetch has nothing.\<close>

theorem mail_fetched_once:
  assumes "client_ok c" and "c_bConnected c" and "server (outgoing c) = Some reply"
    and "c_Msg2ActiveQueueName c = []" and "c_WildcardQueuePatterns c = []"
    and "DoClientWork server tx rx c = Inr (ok, c')" and "Fetch l c' = (got, mail, c'')"
  shows "got = (pending c reply \<noteq> []) \<and> (got \<longrightarrow> mail = pending c reply)
     \<and> c_InBox c'' = [] \<and> (\<forall>l. fst (Fetch l c'') = False)"
proof -
  have "unpicked c (pending c reply) = pending c reply"
    using assms(4,5) by (cases "pending c reply") (simp_all add: unpicked_def routed_def has_route_def matching_def)
  then have "c_InBox c' = pending c reply" and "c_bMailPresent c' = (pending c reply \<noteq> [])"
    using exchange_ok [where server = server, OF assms(1-3), of tx rx] assms(6) by auto
  moreover have "client_ok c'" using assms(1,6) by (rule client_ok_exchange)
  ultimately show ?thesis
    using assms(7) by (auto simp: fetch_ok) (simp_all add: Fetch_def)
qed

text \<open>\<open>Close\<close> forgets the queues but not the patterns of the wildcard queues: in the next
  session a message that matches one ends the exchange with an exception.\<close>

theorem close_strands_wildcards:
  assumes "map_ok (c_WildcardQueuePatterns c)" and "map_of (c_WildcardQueuePatterns c) q = Some p"
    and "MOOSWildCmp p (m_sKey m)" and "\<not> IsNullMsg m"
  shows "\<exists>e. DoClientWork (\<lambda>_. Some [m]) tx rx ((CloseClient c)\<lparr>c_bConnected := True\<rparr>) = Inl e"
proof -
  let ?c = "received tx rx [m] ((CloseClient c)\<lparr>c_bConnected := True\<rparr>)"
  have c: "c_Msg2ActiveQueueName ?c = []" "c_ActiveQueueMap ?c = []"
      "c_WildcardQueuePatterns ?c = c_WildcardQueuePatterns c"
    by (simp_all add: received_def CloseClient_def ClearResources_def Let_def)
  have m: "(q, p) \<in> set (matching ?c (m_sKey m))"
    using assms(1-3) by (simp add: matching_def c map_ok_in_iff)
  then have "q \<in> set (routes (checked (m_sKey m) ?c) (m_sKey m))"
    by (force simp: routes_checked c targets_def not_checked_def)
  moreover have "c_ActiveQueueMap (checked (m_sKey m) ?c) = []" by (simp add: checked_same c)
  moreover have "\<exists>e. push_all m qs c' = Inl e" if "c_ActiveQueueMap c' = []" "qs \<noteq> []" for qs c'
    using that by (cases qs) auto
  moreover have "has_route ?c (m_sKey m)" using m by (auto simp: has_route_def)
  ultimately have "\<exists>e. dispatch [] [m] ?c = Inl e"
    by (fastforce simp: dispatch_step c Let_def simp del: dispatch.simps)
  then show ?thesis
    using assms(4) by (auto simp: DoClientWork_eq pending_def CloseClient_def ClearResources_def)
qed

section \<open>The clock correction\<close>

text \<open>If the server stamps its reply between sending and receiving, the measured skew is wrong by
  at most half the round trip; so a correction that is off by at most \<open>e\<close> stays so while round
  trips take at most twice \<open>e\<close>, and the first measurement establishes it.\<close>

theorem skew_error:
  assumes "tx \<le> t" and "t \<le> rx" and "rx - tx \<le> 2 * e"
    and "c_dfMOOSSkew c = 0 \<or> \<bar>c_dfMOOSSkew c - offset\<bar> \<le> e"
  shows "\<bar>c_dfMOOSSkew (UpdateMOOSSkew tx (t + offset) rx c) - offset\<bar> \<le> e"
proof -
  define k where "k = 1/2 * ((t + offset - rx) + (t + offset - tx))"
  have k: "\<bar>k - offset\<bar> \<le> e" using assms(1-3) by (simp add: k_def abs_le_iff field_simps)
  show ?thesis
  proof (cases "c_dfMOOSSkew c = 0")
    case True
    then show ?thesis using k by (simp add: UpdateMOOSSkew_def k_def)
  next
    case False
    then have old: "\<bar>c_dfMOOSSkew c - offset\<bar> \<le> e" using assms(4) by simp
    have "\<bar>(9/10 * c_dfMOOSSkew c + 1/10 * k) - offset\<bar> \<le> e" using k old by linarith
    then show ?thesis using False by (simp add: UpdateMOOSSkew_def k_def)
  qed
qed

section \<open>Looking for a message\<close>

lemma peek_pos_first:
  "peek_pos k False i d q ms =
     (if \<exists>m \<in> set ms. m_sKey m = k then Some (i + length (takeWhile (\<lambda>m. m_sKey m \<noteq> k) ms)) else q)"
  by (induction ms arbitrary: i) auto

text \<open>The state of the loop that looks for the youngest: nothing picked so far is older.\<close>

definition youngest_at :: "string \<Rightarrow> real \<Rightarrow> moos_msg list \<Rightarrow> nat option \<Rightarrow> bool" where
  "youngest_at k d ms q \<longleftrightarrow>
     (case q of None \<Rightarrow> d = -1 \<and> (\<forall>m \<in> set ms. m_sKey m = k \<longrightarrow> m_dfTime m \<le> -1)
      | Some i \<Rightarrow> i < length ms \<and> m_sKey (ms ! i) = k \<and> m_dfTime (ms ! i) = d
          \<and> (\<forall>j < length ms. m_sKey (ms ! j) = k \<longrightarrow> (if j < i then m_dfTime (ms ! j) < d else m_dfTime (ms ! j) \<le> d)))"

lemma youngest_snoc:
  assumes "youngest_at k d ms q"
  shows "youngest_at k (if m_sKey m = k \<and> m_dfTime m > d then m_dfTime m else d) (ms @ [m])
           (if m_sKey m = k \<and> m_dfTime m > d then Some (length ms) else q)"
proof (cases q)
  case None
  then show ?thesis using assms by (fastforce simp: youngest_at_def nth_append less_Suc_eq all_set_conv_all_nth)
next
  case (Some i)
  with assms have a: "i < length ms" "m_sKey (ms ! i) = k" "m_dfTime (ms ! i) = d"
    and b: "\<And>j. j < length ms \<Longrightarrow> m_sKey (ms ! j) = k \<Longrightarrow> m_dfTime (ms ! j) \<le> d"
    and s: "\<And>j. j < i \<Longrightarrow> m_sKey (ms ! j) = k \<Longrightarrow> m_dfTime (ms ! j) < d"
    by (auto simp: youngest_at_def split: if_splits)
  show ?thesis
    using a b s by (force simp: youngest_at_def Some nth_append less_Suc_eq)
qed

lemma peek_pos_youngest:
  "youngest_at k d ms q \<Longrightarrow> \<exists>d'. youngest_at k d' (ms @ ms') (peek_pos k True (length ms) d q ms')"
proof (induction ms' arbitrary: ms d q)
  case Nil
  then show ?case by auto
next
  case (Cons m ms')
  from Cons.IH [OF youngest_snoc [OF Cons.prems, of m]] show ?case by (auto split: if_splits)
qed

text \<open>\<open>PeekMail\<close> picks a message of that name: the first, or the earliest among the youngest (a
  message must be younger than -1 to be picked so); it takes exactly that one out when told to
  remove, and fails only if there is none.\<close>

theorem peek_mail:
  "case PeekMail Mail k bRemove bYoungest of
     None \<Rightarrow> \<forall>m \<in> set Mail. m_sKey m = k \<longrightarrow> bYoungest \<and> m_dfTime m \<le> -1
   | Some (m, Mail') \<Rightarrow> \<exists>xs ys. Mail = xs @ m # ys \<and> m_sKey m = k
       \<and> (\<forall>x \<in> set xs. m_sKey x = k \<longrightarrow> bYoungest \<and> m_dfTime x < m_dfTime m)
       \<and> (bYoungest \<longrightarrow> (\<forall>y \<in> set ys. m_sKey y = k \<longrightarrow> m_dfTime y \<le> m_dfTime m))
       \<and> Mail' = (if bRemove then xs @ ys else Mail)"
proof (cases bYoungest)
  case False
  show ?thesis
  proof (cases "\<exists>m \<in> set Mail. m_sKey m = k")
    case True
    then obtain xs m ys where M: "Mail = xs @ m # ys" "m_sKey m = k" "\<forall>x \<in> set xs. m_sKey x \<noteq> k"
      using split_list_first_prop [of Mail "\<lambda>m. m_sKey m = k"] by blast
    then have "takeWhile (\<lambda>m. m_sKey m \<noteq> k) Mail = xs" by (simp add: takeWhile_all)
    then have "PeekMail Mail k bRemove bYoungest = Some (m, if bRemove then xs @ ys else Mail)"
      using M False by (simp add: PeekMail_def peek_pos_first)
    then show ?thesis using M False by auto
  qed (use False in \<open>auto simp: PeekMail_def peek_pos_first\<close>)
next
  case True
  have "youngest_at k (-1) [] None" by (simp add: youngest_at_def)
  from peek_pos_youngest [OF this, of Mail] obtain d
    where y: "youngest_at k d Mail (peek_pos k True 0 (-1) None Mail)" by auto
  show ?thesis
  proof (cases "peek_pos k True 0 (-1) None Mail")
    case None
    then show ?thesis using y True by (simp add: PeekMail_def youngest_at_def)
  next
    case (Some i)
    with y have i: "i < length Mail" "m_sKey (Mail ! i) = k"
      and lt: "\<And>j. j < i \<Longrightarrow> m_sKey (Mail ! j) = k \<Longrightarrow> m_dfTime (Mail ! j) < m_dfTime (Mail ! i)"
      and le: "\<And>j. j < length Mail \<Longrightarrow> m_sKey (Mail ! j) = k \<Longrightarrow> m_dfTime (Mail ! j) \<le> m_dfTime (Mail ! i)"
      by (auto simp: youngest_at_def split: if_splits)
    have "Mail = take i Mail @ Mail ! i # drop (Suc i) Mail" using i by (simp add: id_take_nth_drop)
    moreover have "\<forall>x \<in> set (take i Mail). m_sKey x = k \<longrightarrow> m_dfTime x < m_dfTime (Mail ! i)"
      using lt i(1) by (auto simp: in_set_conv_nth)
    moreover have "\<forall>x \<in> set (drop (Suc i) Mail). m_sKey x = k \<longrightarrow> m_dfTime x \<le> m_dfTime (Mail ! i)"
      using le by (auto simp: in_set_conv_nth)
    ultimately have "\<exists>xs ys. Mail = xs @ Mail ! i # ys \<and> m_sKey (Mail ! i) = k
       \<and> (\<forall>x \<in> set xs. m_sKey x = k \<longrightarrow> m_dfTime x < m_dfTime (Mail ! i))
       \<and> (\<forall>y \<in> set ys. m_sKey y = k \<longrightarrow> m_dfTime y \<le> m_dfTime (Mail ! i))
       \<and> take i Mail @ drop (Suc i) Mail = xs @ ys"
      using i(2) by blast
    then show ?thesis using Some True by (auto simp: PeekMail_def)
  qed
qed

section \<open>Recurrent subscriptions\<close>

definition register_msg :: "real \<Rightarrow> string \<times> real \<Rightarrow> moos_msg" where
  "register_msg now q = msg_double MOOS_REGISTER (c_str (fst q)) (snd q) (-1) now"

lemma register_all_eq:
  "c_bConnected c \<Longrightarrow> \<forall>q \<in> set qs. fst q \<noteq> [] \<Longrightarrow>
   register_all qs now c = (True, (snd (post_all (map (register_msg now) qs) c))
      \<lparr>c_Registered := fold set_insert (map fst qs) (c_Registered c)\<rparr>)"
proof (induction qs arbitrary: c)
  case Nil
  then show ?case by simp
next
  case (Cons q qs)
  obtain k p where q: "q = (k, p)" by fastforce
  define c1 where "c1 = posted (register_msg now q) c"
  have c1: "c_bConnected c1" "c_Registered c1 = c_Registered c" using Cons.prems by (simp_all add: c1_def posted_eq)
  have p: "post_all Ms (c1\<lparr>c_Registered := r\<rparr>) = (fst (post_all Ms c1), (snd (post_all Ms c1))\<lparr>c_Registered := r\<rparr>)"
    if "c_bConnected c1" for Ms r c1
    using that
  proof (induction Ms arbitrary: c1)
    case Nil
    then show ?case by simp
  next
    case (Cons M Ms)
    have "posted M (c1\<lparr>c_Registered := r\<rparr>) = (posted M c1)\<lparr>c_Registered := r\<rparr>"
      and "c_bConnected (posted M c1)" and "stamp (c1\<lparr>c_Registered := r\<rparr>) False M = stamp c1 False M"
      using Cons.prems by (simp_all add: posted_eq stamp_def)
    then show ?case using Cons by (simp add: post_all_Cons del: post_all.simps)
  qed
  have "RegisterVar k p now c = (True, c1\<lparr>c_Registered := set_insert k (c_Registered c)\<rparr>)"
    using Cons.prems q by (simp add: RegisterVar_eq c1_def register_msg_def)
  moreover have "snd (post_all (map (register_msg now) (q # qs)) c) = snd (post_all (map (register_msg now) qs) c1)"
    using Cons.prems by (simp add: post_all_Cons c1_def del: post_all.simps)
  ultimately show ?case
    using Cons.IH [of "c1\<lparr>c_Registered := set_insert k (c_Registered c)\<rparr>"] Cons.prems c1 q p [of c1]
    by (simp del: post_all.simps)
qed

text \<open>A connected client that renews its recurrent subscriptions posts one register message for
  each, in the order of the names, with its period, and counts every one as registered.\<close>

theorem recurrent_renewed:
  assumes "client_ok c" and "c_bConnected c"
    and "post_all (map (\<lambda>(k, p). msg_double MOOS_REGISTER (c_str k) p (-1) now) (c_RecurrentSubscriptions c)) c
      = (sent, c1)"
  shows "ApplyRecurrentSubscriptions now c =
      (True, c1\<lparr>c_Registered := fold set_insert (map fst (c_RecurrentSubscriptions c)) (c_Registered c)\<rparr>)
    \<and> (\<forall>(k, p) \<in> set (c_RecurrentSubscriptions c). IsRegisteredFor k (snd (ApplyRecurrentSubscriptions now c)))"
proof -
  have ne: "\<forall>q \<in> set (c_RecurrentSubscriptions c). fst q \<noteq> []"
    using client_okD(1) [OF assms(1)] by (force simp: map_of_None_notin)
  have e: "(\<lambda>(k, p). msg_double MOOS_REGISTER (c_str k) p (-1) now) = register_msg now"
    by (auto simp: register_msg_def)
  have r: "ApplyRecurrentSubscriptions now c =
      (True, c1\<lparr>c_Registered := fold set_insert (map fst (c_RecurrentSubscriptions c)) (c_Registered c)\<rparr>)"
    using assms(3) unfolding e ApplyRecurrentSubscriptions_def register_all_eq [OF assms(2) ne] by simp
  have "IsRegisteredFor k (c1\<lparr>c_Registered := fold set_insert ks (c_Registered c)\<rparr>)" if "k \<in> set ks" for k ks
    using that set_fold_insert [of ks "c_Registered c"] by (auto simp: IsRegisteredFor_def simp del: set_fold_insert)
  then have "IsRegisteredFor k (snd (ApplyRecurrentSubscriptions now c))"
    if "(k, p) \<in> set (c_RecurrentSubscriptions c)" for k p
    using that unfolding r by (metis fst_conv image_eqI set_map snd_conv)
  with r show ?thesis by blast
qed

end
