(* ===== verification/Moos_Async.thy ===== *)
theory Moos_Async
  imports Moos_ClientProperties
begin

text \<open>
  The asynchronous client \<open>MOOS::MOOSAsyncCommClient\<close> (\<open>Comms/MOOSAsyncCommClient.cpp\<close>): a
  \<open>CMOOSCommClient\<close> whose writing and reading threads work independently, with a queue of
  outgoing messages between the application and the writer.

  \<^item> The base class part of the object is the field \<open>a_Base\<close>. What is read from the socket and
    whether a packet could be sent are arguments, as are the clock readings.
  \<^item> \<open>DoReading\<close> takes the iterator of the first new message; a packet without messages would make
    it dereference the end of the list: \<open>Inl\<close>, as for the uncaught exception of a missing queue.
\<close>

section \<open>State\<close>

record aclient =
  a_Base :: client
  a_OutGoingQueue :: "moos_msg list"
  a_dfLastTimingMessage :: real
  a_dfOutGoingDelay :: real

definition new_aclient :: aclient where
  "new_aclient = \<lparr>a_Base = new_client\<lparr>c_bPostNewestToFront := False\<rparr>, a_OutGoingQueue = [],
     a_dfLastTimingMessage = 0, a_dfOutGoingDelay = 0\<rparr>"

definition AsyncHandShakeKey :: string where
  "AsyncHandShakeKey = ''asynchronous''"

definition async_hello_msg :: "real \<Rightarrow> aclient \<Rightarrow> moos_msg" where
  "async_hello_msg now a = msg_string MOOS_DATA AsyncHandShakeKey (c_str (c_sMyName (a_Base a))) (-1) now"

section \<open>Posting\<close>

definition OUTBOX_PENDING_LIMIT :: nat where
  "OUTBOX_PENDING_LIMIT = 2048"

text \<open>The loop that ditches half of the unsent mail.\<close>

definition ditch_half :: "moos_msg list \<Rightarrow> moos_msg list" where
  "ditch_half q = (if length q > OUTBOX_PENDING_LIMIT
     then drop (length q - OUTBOX_PENDING_LIMIT div 2) q else q)"

definition AsyncPost :: "moos_msg \<Rightarrow> bool \<Rightarrow> aclient \<Rightarrow> bool \<times> moos_msg \<times> aclient" where
  "AsyncPost Msg bKeepMsgSourceName a =
     (let (ok, Msg, c) = Post Msg bKeepMsgSourceName (a_Base a)
      in if \<not> ok then (False, Msg, a\<lparr>a_Base := c\<rparr>)
         else (True, Msg, a\<lparr>a_OutGoingQueue := ditch_half (a_OutGoingQueue a) @ c_OutBox c,
                            a_Base := c\<lparr>c_OutBox := []\<rparr>\<rparr>))"

text \<open>An operation of the base class that posts at most one message (\<open>Notify\<close>, \<open>Register\<close>,
  \<open>UnRegister\<close>), which it does through the overridden \<open>Post\<close>: what it puts in the out box
  moves on to the queue.\<close>

definition via_AsyncPost :: "(client \<Rightarrow> bool \<times> client) \<Rightarrow> aclient \<Rightarrow> bool \<times> aclient" where
  "via_AsyncPost f a =
     (let (ok, c) = f (a_Base a)
      in (ok, if c_OutBox c = [] then a\<lparr>a_Base := c\<rparr>
              else a\<lparr>a_OutGoingQueue := ditch_half (a_OutGoingQueue a) @ c_OutBox c,
                     a_Base := c\<lparr>c_OutBox := []\<rparr>\<rparr>))"

section \<open>Writing\<close>

definition quit_msg :: "real \<Rightarrow> moos_msg" where
  "quit_msg now = msg_double MOOS_TERMINATE_CONNECTION ''-quit-'' 0 (-1) now"

definition TIMING_MESSAGE_PERIOD :: real where
  "TIMING_MESSAGE_PERIOD = 1"

definition timing_msg :: "real \<Rightarrow> moos_msg" where
  "timing_msg now = msg_double MOOS_TIMING ''_async_timing'' 0 now now"

text \<open>\<open>now\<close> is \<open>MOOSLocalTime()\<close>, \<open>raw\<close> and \<open>raw'\<close> the two readings without time warp. The second
  component is the packet handed to the socket.\<close>

definition DoWriting :: "real \<Rightarrow> real \<Rightarrow> real \<Rightarrow> bool \<Rightarrow> aclient \<Rightarrow> bool \<times> moos_msg list option \<times> aclient" where
  "DoWriting raw now raw' bSent a =
     (if \<not> c_bConnected (a_Base a) then (False, None, a)
      else let StuffToSend = a_OutGoingQueue a;
               before = takeWhile (\<lambda>q. \<not> IsType q MOOS_TERMINATE_CONNECTION) StuffToSend;
               a = a\<lparr>a_OutGoingQueue := [],
                     a_Base := (a_Base a)\<lparr>c_nMsgsSent := c_nMsgsSent (a_Base a) + of_nat (length before)\<rparr>\<rparr>
           in if before \<noteq> StuffToSend then (False, None, a)
              else let due = raw - a_dfLastTimingMessage a > TIMING_MESSAGE_PERIOD;
                       StuffToSend = (if due then timing_msg now # StuffToSend else StuffToSend);
                       a = (if due then a\<lparr>a_dfLastTimingMessage := raw'\<rparr> else a)
                   in if StuffToSend = [] then (True, None, a)
                      else if bSent then (True, Some StuffToSend, a) else (False, None, a))"

text \<open>\<open>MonitorAndLimitWriteSpeed\<close>: how long the writer then sleeps.\<close>

definition WriteDelayMS :: "real \<Rightarrow> real \<Rightarrow> aclient \<Rightarrow> nat" where
  "WriteDelayMS TimeWarp scale a =
     (let WarpDelayMS = (if TimeWarp > 1 then TimeWarp * scale else 0)
      in nat \<lfloor>max (a_dfOutGoingDelay a * 1000) WarpDelayMS\<rfloor>)"

text \<open>\<open>WritingLoop\<close>: one round while connected. The queue survives \<open>OnCloseConnection\<close>.\<close>

definition WritingRound :: "real \<Rightarrow> real \<Rightarrow> real \<Rightarrow> bool \<Rightarrow> aclient \<Rightarrow> moos_msg list option \<times> aclient" where
  "WritingRound raw now raw' bSent a =
     (let (ok, sent, a) = DoWriting raw now raw' bSent a
      in (sent, if ok then a else a\<lparr>a_Base := OnCloseConnection (a_Base a)\<rparr>))"

section \<open>Reading\<close>

text \<open>What is done about the first new message: its time, the outgoing delay and its removal. \<open>nur\<close>
  is the number of unread messages before.\<close>

definition on_timing :: "nat \<Rightarrow> real \<Rightarrow> aclient \<Rightarrow> aclient" where
  "on_timing nur dfLocalRxTime a =
     (let c = a_Base a; q = c_InBox c ! nur
      in if IsType q MOOS_TIMING
         then (let c = c\<lparr>c_nMsgsReceived := c_nMsgsReceived c - 1\<rparr>;
                   c = (if c_bDoLocalTimeCorrection c \<and> c_nPktsReceived c > 1
                        then UpdateMOOSSkew (m_dfTime q) (m_dfVal q) dfLocalRxTime c else c);
                   c = c\<lparr>c_InBox := take nur (c_InBox c) @ drop (Suc nur) (c_InBox c)\<rparr>
               in a\<lparr>a_Base := c, a_dfOutGoingDelay := (if c_bDBIsAsynchronous c then m_dfVal2 q else a_dfOutGoingDelay a)\<rparr>)
         else if IsType q MOOS_NULL_MSG
         then (let dfTimeSentFromDB = m_dfVal (hd (c_InBox c));
                   dfSkew = dfTimeSentFromDB - dfLocalRxTime;
                   c = c\<lparr>c_InBox := tl (c_InBox c)\<rparr>
               in a\<lparr>a_Base := (if c_bDoLocalTimeCorrection c
                              then UpdateMOOSSkew (dfTimeSentFromDB + dfSkew) dfTimeSentFromDB dfLocalRxTime c else c)\<rparr>)
         else a)"

definition DoReading :: "moos_msg list option \<Rightarrow> real \<Rightarrow> aclient \<Rightarrow> string + (bool \<times> aclient)" where
  "DoReading packet dfLocalRxTime a =
     (case packet of
        None \<Rightarrow> Inr (False, a)
      | Some msgs \<Rightarrow>
          (let c = a_Base a;
               c = c\<lparr>c_nPktsReceived := c_nPktsReceived c + 1\<rparr>;
               c = (if length (c_InBox c) > c_nInPendingLimit c then c\<lparr>c_InBox := []\<rparr> else c);
               nur = length (c_InBox c);
               c = c\<lparr>c_InBox := c_InBox c @ msgs\<rparr>;
               c = c\<lparr>c_nMsgsReceived := c_nMsgsReceived c + of_nat (length (c_InBox c) - nur)\<rparr>
           in if msgs = [] then Inl ''end of the list dereferenced''
              else let a = on_timing nur dfLocalRxTime (a\<lparr>a_Base := c\<rparr>)
                   in case DispatchInBoxToActiveThreads (a_Base a) of
                        Inl e \<Rightarrow> Inl e
                      | Inr c \<Rightarrow> Inr (True, a\<lparr>a_Base := c\<lparr>c_bMailPresent := (c_InBox c \<noteq> [])\<rparr>\<rparr>)))"

text \<open>\<open>ReadingLoop\<close> while connected: a failure asks the writer to end the session.\<close>

definition ReadingRound :: "moos_msg list option \<Rightarrow> real \<Rightarrow> real \<Rightarrow> aclient \<Rightarrow> string + aclient" where
  "ReadingRound packet dfLocalRxTime now a =
     (if \<not> c_bConnected (a_Base a) then Inr a
      else case DoReading packet dfLocalRxTime a of
             Inl e \<Rightarrow> Inl e
           | Inr (ok, a) \<Rightarrow> Inr (if ok then a else a\<lparr>a_OutGoingQueue := a_OutGoingQueue a @ [quit_msg now]\<rparr>))"

section \<open>Closing\<close>

text \<open>What the two threads may still do while \<open>Close\<close> waits for them. A round of the writer is one
  \<open>DoWriting\<close> while connected (\<open>Writes\<close>); the end of a handshake that was under way when the client was
  told to quit (\<open>Connects\<close>); or the end of the thread, since \<open>ConnectToServer\<close> returns false once
  \<open>m_bQuit\<close> is set (\<open>GivesUp\<close>). A round of the reader is one of \<open>ReadingRound\<close>.\<close>

datatype writer_round =
    Writes real real real bool
  | Connects "moos_msg option" string bool real
  | GivesUp

datatype comms_round = Reads "moos_msg list option" real real | Writer writer_round

fun writer_step :: "writer_round \<Rightarrow> aclient \<Rightarrow> aclient" where
  "writer_step (Writes raw now raw' bSent) a =
     (if c_bConnected (a_Base a) then snd (WritingRound raw now raw' bSent a) else a)"
| "writer_step (Connects welcome local_ip bQuiet now) a =
     (if c_bConnected (a_Base a) then a
      else a\<lparr>a_Base := (snd (StartSession welcome local_ip bQuiet now ((a_Base a)\<lparr>c_bQuit := False\<rparr>)))\<lparr>c_bQuit := True\<rparr>\<rparr>)"
| "writer_step GivesUp a =
     (if c_bConnected (a_Base a) then a else a\<lparr>a_Base := OnCloseConnection (a_Base a)\<rparr>)"

fun comms_step :: "comms_round \<Rightarrow> aclient \<Rightarrow> string + aclient" where
  "comms_step (Reads packet dfLocalRxTime now) a = ReadingRound packet dfLocalRxTime now a"
| "comms_step (Writer w) a = Inr (writer_step w a)"

fun comms_rounds :: "comms_round list \<Rightarrow> aclient \<Rightarrow> string + aclient" where
  "comms_rounds [] a = Inr a"
| "comms_rounds (r # rs) a = (case comms_step r a of Inl e \<Rightarrow> Inl e | Inr a \<Rightarrow> comms_rounds rs a)"

text \<open>\<open>Close\<close>: the base class is closed; both threads go on for the rounds \<open>before\<close> until the reader has
  been joined; the message that ends the session is pushed; and the writer goes on for the rounds
  \<open>after\<close> until it has been joined, which leaves the client not connected. \<open>Inl\<close> is the exception a
  packet without messages raises in the reader.\<close>

definition AsyncClose :: "comms_round list \<Rightarrow> writer_round list \<Rightarrow> real \<Rightarrow> aclient \<Rightarrow> string + aclient" where
  "AsyncClose before after now a =
     (case comms_rounds before (a\<lparr>a_Base := CloseClient (a_Base a)\<rparr>) of
        Inl e \<Rightarrow> Inl e
      | Inr a \<Rightarrow>
          (let a = fold writer_step after (a\<lparr>a_OutGoingQueue := a_OutGoingQueue a @ [quit_msg now]\<rparr>)
           in Inr (a\<lparr>a_Base := (a_Base a)\<lparr>c_bConnected := False\<rparr>\<rparr>)))"

end
