(* ===== verification/Moos_AsyncProperties.thy ===== *)
theory Moos_AsyncProperties
  imports Moos_Async
begin

text \<open>
  The properties of the asynchronous client: its queue keeps the newest messages in order, the writer
  sends it whole, the reader distributes a packet as the synchronous client does, and two ways in
  which messages are lost.
\<close>

section \<open>The queue\<close>

fun apost_all :: "moos_msg list \<Rightarrow> aclient \<Rightarrow> moos_msg list \<times> aclient" where
  "apost_all [] a = ([], a)"
| "apost_all (M # Ms) a =
     (let (_, S, a) = AsyncPost M False a; (sent, a) = apost_all Ms a in (S # sent, a))"

text \<open>Between calls the out box of the base class is empty.\<close>

definition idle_box :: "aclient \<Rightarrow> bool" where
  "idle_box a \<longleftrightarrow> c_OutBox (a_Base a) = [] \<and> 0 < c_nOutPendingLimit (a_Base a)"

lemma AsyncPost_connected:
  assumes "c_bConnected (a_Base a)" and "idle_box a"
  shows "AsyncPost M b a = (True, stamp (a_Base a) b M,
     a\<lparr>a_OutGoingQueue := ditch_half (a_OutGoingQueue a) @ [stamp (a_Base a) b M],
       a_Base := (a_Base a)\<lparr>c_nNextMsgID := c_nNextMsgID (a_Base a) + (if IsType M MOOS_SERVER_REQUEST then 0 else 1)\<rparr>\<rparr>)"
proof -
  have "out.post (c_bPostNewestToFront (a_Base a)) (c_nOutPendingLimit (a_Base a)) (stamp (a_Base a) b M) (c_OutBox (a_Base a))
      = [stamp (a_Base a) b M]"
    using assms(2) by (simp add: idle_box_def out.post_def push_newest_def by_age_def)
  moreover have "c\<lparr>c_OutBox := x, c_nNextMsgID := n\<rparr>\<lparr>c_OutBox := []\<rparr> = c\<lparr>c_nNextMsgID := n\<rparr>" if "c_OutBox c = []" for c x n
    using that by (cases c) simp
  ultimately show ?thesis
    using assms by (simp add: AsyncPost_def Post_connected idle_box_def)
qed

lemma via_AsyncPost_Post:
  assumes "idle_box a"
  shows "via_AsyncPost (post_msg M) a = (let (ok, _, a') = AsyncPost M False a in (ok, a'))"
proof (cases "c_bConnected (a_Base a)")
  case True
  have "out.post (c_bPostNewestToFront (a_Base a)) (c_nOutPendingLimit (a_Base a)) (stamp (a_Base a) False M) [] \<noteq> []"
    using assms by (simp add: idle_box_def out.post_def push_newest_def by_age_def)
  then show ?thesis
    using True assms by (simp add: via_AsyncPost_def AsyncPost_def post_msg_def Post_connected idle_box_def Let_def)
next
  case False
  then show ?thesis using assms by (simp add: via_AsyncPost_def AsyncPost_def post_msg_def Post_def idle_box_def)
qed

lemma ditch_half_suffix: "\<exists>old. q = old @ ditch_half q"
  unfolding ditch_half_def by (metis append_Nil append_take_drop_id)

lemma length_ditch_half: "length (ditch_half q) = (if length q > 2048 then 1024 else length q)"
  by (simp add: ditch_half_def OUTBOX_PENDING_LIMIT_def)

lemma queue_latest:
  assumes "c_bConnected (a_Base a)" and "idle_box a" and "length (a_OutGoingQueue a) \<le> 2049"
    and "apost_all Ms a = (sent, a')"
  shows "\<exists>old. a_OutGoingQueue a @ sent = old @ a_OutGoingQueue a' \<and> length (a_OutGoingQueue a') \<le> 2049
     \<and> (old \<noteq> [] \<longrightarrow> 1025 \<le> length (a_OutGoingQueue a')) \<and> length sent = length Ms
     \<and> (length (a_OutGoingQueue a) + length Ms \<le> 2049 \<longrightarrow> old = [])"
  using assms
proof (induction Ms arbitrary: a sent)
  case Nil
  then show ?case by simp
next
  case (Cons M Ms)
  let ?S = "stamp (a_Base a) False M"
  obtain a1 where a1: "AsyncPost M False a = (True, ?S, a1)" "a_OutGoingQueue a1 = ditch_half (a_OutGoingQueue a) @ [?S]"
      "c_bConnected (a_Base a1)" "idle_box a1"
    using AsyncPost_connected [OF Cons.prems(1,2), of M False] Cons.prems(1,2) by (simp add: idle_box_def)
  obtain rest where r: "apost_all Ms a1 = (rest, a')" "sent = ?S # rest"
    using Cons.prems(4) a1(1) by (auto split: prod.splits)
  have len: "length (a_OutGoingQueue a1) = (if length (a_OutGoingQueue a) > 2048 then 1025 else Suc (length (a_OutGoingQueue a)))"
    by (simp add: a1(2) length_ditch_half)
  then have "length (a_OutGoingQueue a1) \<le> 2049" using Cons.prems(3) by simp
  from Cons.IH [OF a1(3,4) this r(1)] obtain old where old: "a_OutGoingQueue a1 @ rest = old @ a_OutGoingQueue a'"
      "length (a_OutGoingQueue a') \<le> 2049" "old \<noteq> [] \<longrightarrow> 1025 \<le> length (a_OutGoingQueue a')" "length rest = length Ms"
      "length (a_OutGoingQueue a1) + length Ms \<le> 2049 \<longrightarrow> old = []"
    by blast
  obtain before where b: "a_OutGoingQueue a = before @ ditch_half (a_OutGoingQueue a)" using ditch_half_suffix by blast
  have "a_OutGoingQueue a @ sent = (before @ old) @ a_OutGoingQueue a'"
    using b a1(2) r(2) old(1) by (metis append.assoc append_Cons append_Nil)
  moreover have "1025 \<le> length (a_OutGoingQueue a')" if "before \<noteq> []"
  proof (cases "old = []")
    case True
    have "length (a_OutGoingQueue a) > 2048"
      using arg_cong [OF b, of length] that by (simp add: length_ditch_half split: if_splits)
    then show ?thesis using True old(1) len by (metis append_Nil le_add1 length_append)
  next
    case False
    then show ?thesis using old(3) by simp
  qed
  moreover have "before @ old = []" if "length (a_OutGoingQueue a) + length (M # Ms) \<le> 2049"
  proof -
    have "length (ditch_half (a_OutGoingQueue a)) = length (a_OutGoingQueue a)" using that by (simp add: length_ditch_half)
    then have "before = []" using arg_cong [OF b, of length] by simp
    moreover have "old = []" using old(5) that len by simp
    ultimately show ?thesis by simp
  qed
  moreover have "length sent = length (M # Ms)" using r(2) old(4) by simp
  ultimately show ?case using old(2,3) by blast
qed

text \<open>C30: whatever a connected asynchronous client posts while its writer is busy, its queue holds the
  newest messages in the order they were posted, never more than 2049 of them, and all of them
  as long as no more than 2049 are waiting; of more it keeps at least the newest 1025.\<close>

theorem async_queue_latest:
  assumes "c_bConnected (a_Base a)" and "idle_box a" and "length (a_OutGoingQueue a) \<le> 2049"
    and "apost_all Ms a = (sent, a')"
  shows "\<exists>old. a_OutGoingQueue a @ sent = old @ a_OutGoingQueue a' \<and> length (a_OutGoingQueue a') \<le> 2049
     \<and> (old \<noteq> [] \<longrightarrow> 1025 \<le> length (a_OutGoingQueue a')) \<and> length sent = length Ms
     \<and> (length (a_OutGoingQueue a) + length Ms \<le> 2049 \<longrightarrow> old = [])"
  using assms by (rule queue_latest)

section \<open>Writing\<close>

definition no_quit :: "moos_msg list \<Rightarrow> bool" where
  "no_quit q \<longleftrightarrow> (\<forall>M \<in> set q. \<not> IsType M MOOS_TERMINATE_CONNECTION)"

lemma no_quit_takeWhile: "no_quit q \<longleftrightarrow> takeWhile (\<lambda>q. \<not> IsType q MOOS_TERMINATE_CONNECTION) q = q"
  by (simp add: no_quit_def takeWhile_eq_all_conv)

lemma writing_round:
  assumes "c_bConnected (a_Base a)" and "no_quit (a_OutGoingQueue a)"
    and "WritingRound raw now raw' bSent a = (sent, a')"
  shows "(let due = raw - a_dfLastTimingMessage a > TIMING_MESSAGE_PERIOD;
              packet = (if due then [timing_msg now] else []) @ a_OutGoingQueue a
          in sent = (if bSent \<and> packet \<noteq> [] then Some packet else None)
           \<and> c_bConnected (a_Base a') = (bSent \<or> packet = []))
     \<and> a_OutGoingQueue a' = []"
  using assms
  by (auto simp: WritingRound_def DoWriting_def no_quit_takeWhile Let_def OnCloseConnection_def ClearResources_def
      split: if_splits)

lemma apost_all_connected:
  "c_bConnected (a_Base a) \<Longrightarrow> idle_box a \<Longrightarrow> apost_all Ms a = (sent, a') \<Longrightarrow> c_bConnected (a_Base a')"
proof (induction Ms arbitrary: a sent)
  case Nil
  then show ?case by simp
next
  case (Cons M Ms)
  define a1 where "a1 = snd (snd (AsyncPost M False a))"
  have "c_bConnected (a_Base a1)" "idle_box a1"
    using AsyncPost_connected [OF Cons.prems(1,2), of M False] Cons.prems(1,2) by (simp_all add: idle_box_def a1_def)
  moreover have "snd (apost_all Ms a1) = a'"
    using Cons.prems(3) by (auto simp: a1_def case_prod_beta Let_def)
  then have "apost_all Ms a1 = (fst (apost_all Ms a1), a')" by (metis prod.collapse)
  ultimately show ?case using Cons.IH by blast
qed

text \<open>a round of the writer of a connected client sends the whole queue, in order and in one
  packet, after a timing message if the last one is more than a second old, and nothing if there
  is nothing to send. If the packet cannot be sent the connection is closed and the messages are
  gone.\<close>

theorem writing_sends:
  assumes "c_bConnected (a_Base a)" and "no_quit (a_OutGoingQueue a)"
    and "WritingRound raw now raw' bSent a = (sent, a')"
  shows "(let due = raw - a_dfLastTimingMessage a > TIMING_MESSAGE_PERIOD;
              packet = (if due then [timing_msg now] else []) @ a_OutGoingQueue a
          in sent = (if bSent \<and> packet \<noteq> [] then Some packet else None)
           \<and> c_bConnected (a_Base a') = (bSent \<or> packet = []))
     \<and> a_OutGoingQueue a' = []"
  using assms by (rule writing_round)

text \<open>the wish of the reader to end a session stays in the queue if the writer ends it on its own
  first: the first round of the next session then closes the new connection, and everything
  posted before it, the registrations of the application among it, is gone unsent.\<close>

theorem stale_quit_ends_session:
  assumes "c_bConnected (a_Base a)" and "no_quit (a_OutGoingQueue a)" and "a_OutGoingQueue a \<noteq> []"
    and "WritingRound raw now raw' False a = (sent, a1)"
    and "a2 = a1\<lparr>a_OutGoingQueue := a_OutGoingQueue a1 @ [quit_msg t]\<rparr>"
    and "c_bConnected c" and "idle_box (a2\<lparr>a_Base := c\<rparr>)" and "length Ms \<le> 2047"
    and "apost_all Ms (a2\<lparr>a_Base := c\<rparr>) = (queued, a3)"
    and "WritingRound raw2 now2 raw2' True a3 = (sent3, a4)"
  shows "sent3 = None \<and> \<not> c_bConnected (a_Base a4) \<and> a_OutGoingQueue a4 = [] \<and> length queued = length Ms"
proof -
  have q: "a_OutGoingQueue a2 = [quit_msg t]"
    using writing_round [OF assms(1,2,4)] assms(5) by (simp add: Let_def)
  obtain old where old: "a_OutGoingQueue a2 @ queued = old @ a_OutGoingQueue a3" "old = []" "length queued = length Ms"
    using queue_latest [OF _ assms(7) _ assms(9)] assms(6,8) q by auto
  have "IsType (quit_msg t) MOOS_TERMINATE_CONNECTION"
    by (simp add: quit_msg_def msg_double_def IsType_def)
  moreover have "a_OutGoingQueue a3 = quit_msg t # queued" using old q by simp
  moreover have "c_bConnected (a_Base a3)" by (rule apost_all_connected [OF _ assms(7,9)]) (simp add: assms(6))
  ultimately show ?thesis
    using assms(10) old(3) by (auto simp: WritingRound_def DoWriting_def OnCloseConnection_def ClearResources_def)
qed

section \<open>Reading\<close>

text \<open>The unread messages when a packet has been unpacked, and the state without its first message.\<close>

definition unread :: "aclient \<Rightarrow> moos_msg list" where
  "unread a = (if length (c_InBox (a_Base a)) > c_nInPendingLimit (a_Base a) then [] else c_InBox (a_Base a))"

text \<open>Whatever the first message is, reading ends with the dispatch of what is then in the in box.\<close>

lemma dispatch_same:
  assumes "c_Msg2ActiveQueueName c' = c_Msg2ActiveQueueName c"
    and "c_WildcardQueuePatterns c' = c_WildcardQueuePatterns c" and "c_WildcardCheckSet c' = c_WildcardCheckSet c"
  shows "unpicked c' = unpicked c" "routed c' = routed c" "targets c' = targets c"
proof -
  have "routes c' = routes c" "matching c' = matching c" "not_checked c' = not_checked c"
    by (simp_all add: fun_eq_iff routes_def matching_def not_checked_def assms)
  then have h: "has_route c' = has_route c" and t: "targets c' = targets c"
    by (simp_all add: fun_eq_iff has_route_def targets_def assms)
  show r: "routed c' = routed c" using h by (simp add: fun_eq_iff routed_def)
  show "targets c' = targets c" by (rule t)
  show "unpicked c' = unpicked c" using r t h by (simp add: fun_eq_iff unpicked_def)
qed

lemma on_timing_frame:
  "c_ActiveQueueMap (a_Base (on_timing nur rx a)) = c_ActiveQueueMap (a_Base a)"
  "c_Msg2ActiveQueueName (a_Base (on_timing nur rx a)) = c_Msg2ActiveQueueName (a_Base a)"
  "c_WildcardQueuePatterns (a_Base (on_timing nur rx a)) = c_WildcardQueuePatterns (a_Base a)"
  "c_WildcardCheckSet (a_Base (on_timing nur rx a)) = c_WildcardCheckSet (a_Base a)"
  "a_OutGoingQueue (on_timing nur rx a) = a_OutGoingQueue a"
  by (simp_all add: on_timing_def Let_def UpdateMOOSSkew_def)

definition first_gone :: "moos_msg list \<Rightarrow> moos_msg list \<Rightarrow> moos_msg list" where
  "first_gone old msgs =
     (if IsType (hd msgs) MOOS_TIMING then old @ tl msgs
      else if IsType (hd msgs) MOOS_NULL_MSG then tl (old @ msgs) else old @ msgs)"

lemma on_timing_InBox:
  assumes "msgs \<noteq> []" and "c_InBox (a_Base a) = old @ msgs"
  shows "c_InBox (a_Base (on_timing (length old) rx a)) = first_gone old msgs"
  using assms by (cases msgs) (auto simp: on_timing_def first_gone_def Let_def nth_append)

lemma reading_ok:
  assumes "queues_ok (a_Base a)" and "msgs \<noteq> []"
  shows "\<exists>a'. DoReading (Some msgs) rx a = Inr (True, a')
     \<and> c_InBox (a_Base a') = unpicked (a_Base a) (first_gone (unread a) msgs)
     \<and> (\<forall>q. map_of (c_ActiveQueueMap (a_Base a')) q =
          map_option (\<lambda>old. old @ filter (\<lambda>t. q \<in> targets (a_Base a) (m_sKey t))
              (routed (a_Base a) (first_gone (unread a) msgs))) (map_of (c_ActiveQueueMap (a_Base a)) q))
     \<and> a_OutGoingQueue a' = a_OutGoingQueue a \<and> c_bMailPresent (a_Base a') = (c_InBox (a_Base a') \<noteq> [])"
proof -
  define c where "c = (a_Base a)\<lparr>c_nPktsReceived := c_nPktsReceived (a_Base a) + 1, c_InBox := unread a @ msgs,
      c_nMsgsReceived := c_nMsgsReceived (a_Base a) + of_nat (length msgs)\<rparr>"
  define a1 where "a1 = on_timing (length (unread a)) rx (a\<lparr>a_Base := c\<rparr>)"
  have box: "c_InBox (a_Base a1) = first_gone (unread a) msgs"
    unfolding a1_def by (rule on_timing_InBox [OF assms(2)]) (simp add: c_def)
  have same: "unpicked c = unpicked (a_Base a)" "routed c = routed (a_Base a)" "targets c = targets (a_Base a)"
    by (rule dispatch_same; simp add: c_def)+
  have same1: "unpicked (a_Base a1) = unpicked c" "routed (a_Base a1) = routed c" "targets (a_Base a1) = targets c"
    by (rule dispatch_same; simp add: a1_def on_timing_frame)+
  have "queues_ok (a_Base a1) = queues_ok (a_Base a)"
    by (rule queues_ok_cong; simp add: a1_def on_timing_frame; simp add: c_def)
  then have "queues_ok (a_Base a1)" using assms(1) by simp
  from dispatch_spec [OF this, of "[]" "first_gone (unread a) msgs"] obtain c' where c':
      "dispatch [] (first_gone (unread a) msgs) (a_Base a1) = Inr c'"
      "c_InBox c' = unpicked (a_Base a) (first_gone (unread a) msgs)"
      "\<forall>q. map_of (c_ActiveQueueMap c') q = map_option (\<lambda>old. old @ filter (\<lambda>t. q \<in> targets (a_Base a) (m_sKey t))
              (routed (a_Base a) (first_gone (unread a) msgs))) (map_of (c_ActiveQueueMap (a_Base a)) q)"
    by (auto simp: same same1) (simp add: a1_def on_timing_frame c_def)
  have "DoReading (Some msgs) rx a =
      (case DispatchInBoxToActiveThreads (a_Base a1) of Inl e \<Rightarrow> Inl e
       | Inr c \<Rightarrow> Inr (True, a1\<lparr>a_Base := c\<lparr>c_bMailPresent := (c_InBox c \<noteq> [])\<rparr>\<rparr>))"
    using assms(2) by (simp add: DoReading_def a1_def c_def unread_def Let_def cong: if_cong sum.case_cong)
  then show ?thesis
    using c' by (simp add: DispatchInBoxToActiveThreads_def box) (simp add: a1_def on_timing_frame)
qed

text \<open>a packet of the threaded server is distributed as the reply of an exchange is: the unread
  messages, unless they exceeded their limit, and the packet without its timing message go to
  every queue they are routed to, in order and once each, up to the first message without a
  route; what no queue took stays in the in box, in order.\<close>

theorem async_reading:
  assumes "queues_ok (a_Base a)" and "msgs \<noteq> []" and "\<not> IsType (hd msgs) MOOS_NULL_MSG"
    and "new = unread a @ (if IsType (hd msgs) MOOS_TIMING then tl msgs else msgs)"
  shows "\<exists>a'. DoReading (Some msgs) rx a = Inr (True, a')
     \<and> c_InBox (a_Base a') = unpicked (a_Base a) new
     \<and> (\<forall>q. map_of (c_ActiveQueueMap (a_Base a')) q =
          map_option (\<lambda>old. old @ filter (\<lambda>t. q \<in> targets (a_Base a) (m_sKey t)) (routed (a_Base a) new))
            (map_of (c_ActiveQueueMap (a_Base a)) q))
     \<and> c_bMailPresent (a_Base a') = (c_InBox (a_Base a') \<noteq> [])"
proof -
  have "first_gone (unread a) msgs = new" using assms(3,4) by (simp add: first_gone_def)
  then show ?thesis using reading_ok [OF assms(1,2), of rx] by auto
qed

lemma no_routes: "c_Msg2ActiveQueueName c = [] \<Longrightarrow> c_WildcardQueuePatterns c = [] \<Longrightarrow> unpicked c ms = ms"
  by (cases ms) (simp_all add: unpicked_def routed_def has_route_def matching_def)

text \<open>a reply that starts with a null message, as the unthreaded server's do, costs a client with
  unread mail its oldest unread message: that is removed in place of the null message, and it is
  what the clock is corrected by.\<close>

theorem null_reply_loses_mail:
  assumes "queues_ok (a_Base a)" and "c_Msg2ActiveQueueName (a_Base a) = []" and "c_WildcardQueuePatterns (a_Base a) = []"
    and "unread a = lost # old" and "IsType N MOOS_NULL_MSG"
    and "DoReading (Some (N # msgs)) rx a = Inr (ok, a')"
  shows "c_InBox (a_Base a') = old @ N # msgs"
proof -
  have "\<not> IsType N MOOS_TIMING" using assms(5) by (simp add: IsType_def)
  then have "first_gone (unread a) (N # msgs) = old @ N # msgs"
    using assms(4,5) by (simp add: first_gone_def)
  then show ?thesis
    using reading_ok [OF assms(1), of "N # msgs" rx] assms(6) no_routes [OF assms(2,3)] by auto
qed

end
