(* ===== verification/Moos_System.thy ===== *)
theory Moos_System
  imports Moos_ServerRuns Moos_ClientProperties
begin

text \<open>
  The parts together: a client joins a server, a notification travels from the client that
  publishes it through the server and the database to a subscriber's mail, and the strings one
  side composes are read back by the other.
\<close>

section \<open>Joining\<close>

lemma hello_protocol: "CheckProtocol (Some hello_bytes)"
  by (simp add: CheckProtocol_def hello_bytes_def MOOS_PROTOCOL_STRING_def MOOS_PROTOCOL_STRING_BUFFER_SIZE_def
      c_str_def MOOSStrCmp_def eval_nat_numeral)

definition same_session :: "client \<Rightarrow> client \<Rightarrow> bool" where
  "same_session c c' \<longleftrightarrow> c_bConnected c' = c_bConnected c \<and> c_bQuit c' = c_bQuit c
     \<and> c_sMyName c' = c_sMyName c \<and> c_sCommunityName c' = c_sCommunityName c"

lemma same_session_refl [simp]: "same_session c c"
  by (simp add: same_session_def)

lemma same_session_ops [simp]:
  "same_session c (snd (RegisterVar v p now c')) = same_session c c'"
  "same_session c (snd (AddRecurrentSubscription v p c')) = same_session c c'"
  "same_session c (snd (AddActiveQueue q c')) = same_session c c'"
  "same_session c (snd (AddMessageRouteToActiveQueue q k c')) = same_session c c'"
  "same_session c (snd (RemoveActiveQueue q c')) = same_session c c'"
  by (simp_all add: same_session_def RegisterVar_eq posted_eq AddRecurrentSubscription_def AddActiveQueue_def
      AddMessageRouteToActiveQueue_def add_route_def RemoveActiveQueue_def Let_def)

lemma same_session_register_all [simp]: "same_session c (snd (register_all qs now c')) = same_session c c'"
proof (induction qs arbitrary: c')
  case Nil
  then show ?case by simp
next
  case (Cons q qs)
  obtain k p where "q = (k, p)" by fastforce
  with Cons.IH show ?case by (simp add: case_prod_beta)
qed

lemma same_session_Monitoring [simp]:
  "same_session c (snd (ControlClientCommsStatusMonitoring b now c')) = same_session c c'"
  by (simp add: ControlClientCommsStatusMonitoring_def ApplyRecurrentSubscriptions_def Let_def case_prod_beta)

text \<open>C35: a client that connects to the server of this library is accepted exactly when no other
  client has its name. Then both sides are connected, under that name, and the client knows the
  community; otherwise the client is told so and quits.\<close>

theorem client_joins:
  assumes "\<not> c_bConnected c" and "\<not> c_bQuit c" and "CHR 0x00 \<notin> set (c_sMyName c)"
    and "OnNewClient fd (Some hello_bytes) (Inr (Some (hello_msg t c))) True ip now s = (ok, answer, s')"
    and "StartSession answer local_ip bQuiet now' c = (ok', c')"
  shows "ok = IsUniqueName (c_sMyName c) s \<and> ok' = ok \<and> c_bConnected c' = ok \<and> c_bQuit c' = (\<not> ok)
     \<and> (ok \<longrightarrow> GetClientName fd s' = c_sMyName c \<and> c_sCommunityName c' = s_sCommunityName s)"
proof -
  have name: "c_str (c_sMyName c) = c_sMyName c" using assms(3) by (rule c_str_id)
  have key: "\<not> MOOSStrCmp HandShakeKey ''asynchronous''"
    by (simp add: HandShakeKey_def MOOSStrCmp_def MOOSToUpper_def)
  note out = assms(4) [unfolded OnNewClient_def ServerHandShake_def Let_def]
  show ?thesis
  proof (cases "IsUniqueName (c_sMyName c) s")
    case True
    let ?W = "welcome_msg (now - m_dfTime (hello_msg t c)) ip now (s\<lparr>s_Socket2ClientMap := map_set fd (c_sMyName c) (s_Socket2ClientMap s)\<rparr>)"
    have ok: "ok" and W: "answer = Some ?W" and n: "GetClientName fd s' = c_sMyName c"
      using out True key by (auto simp: hello_protocol hello_msg_def msg_string_def name GetClientName_def)
    obtain c1 where h: "HandShake answer local_ip bQuiet c = (True, c1)"
        and c1: "c_bConnected c1 = c_bConnected c" "c_bQuit c1 = c_bQuit c" "c_sCommunityName c1 = s_sCommunityName s"
      unfolding W by (auto simp: HandShake_def Let_def welcome_msg_def msg_double_def IsType_def)
    let ?c2 = "snd (ControlClientCommsStatusMonitoring (c_bMonitorClientCommsStatus (c1\<lparr>c_bConnected := True\<rparr>)) now' (c1\<lparr>c_bConnected := True\<rparr>))"
    have "same_session (c1\<lparr>c_bConnected := True\<rparr>) (snd (ApplyRecurrentSubscriptions now' ?c2))"
      by (simp add: ApplyRecurrentSubscriptions_def)
    moreover have "(ok', c') = (True, snd (ApplyRecurrentSubscriptions now' ?c2))"
      using assms(1,2,5) h by (simp add: StartSession_def ConnectToServer_def Let_def)
    ultimately show ?thesis using True ok n c1 assms(2) by (simp add: same_session_def)
  next
    case False
    then have no: "\<not> ok" and P: "\<exists>r. answer = Some (poison_msg r now)"
      using out by (auto simp: hello_protocol hello_msg_def msg_string_def name)
    then obtain c1 where "HandShake answer local_ip bQuiet c = (False, c1)" "c_bConnected c1 = c_bConnected c"
      by (auto simp: HandShake_def Let_def poison_msg_def msg_string_def IsType_def)
    then show ?thesis using False no assms(1,2,5) by (auto simp: StartSession_def ConnectToServer_def)
  qed
qed

section \<open>From publisher to subscriber\<close>

text \<open>Steps of the server that neither serve nor lose the client at \<open>fd\<close> and clear nothing.\<close>

fun spares :: "int \<Rightarrow> server \<Rightarrow> server_call \<Rightarrow> bool" where
  "spares fd s (Accept fd' _ _ _ _ _ _) \<longleftrightarrow> fd' \<noteq> fd \<and> fd' \<notin> fst ` set (s_ClientSocketList s)"
| "spares fd s (Serve io) \<longleftrightarrow> io fd = None
     \<and> (\<forall>fd' i rx. io fd' = Some i \<and> io_MsgLstRx i = Some rx \<longrightarrow> (\<forall>m \<in> set rx. \<not> is_clear m))"
| "spares fd s (Timer t) \<longleftrightarrow> (\<forall>p \<in> set (s_ClientSocketList s). fst p = fd \<longrightarrow> \<not> stale t (s_dfClientTimeout s) p)"

fun spared :: "int \<Rightarrow> server_call list \<Rightarrow> server \<Rightarrow> bool" where
  "spared fd [] s \<longleftrightarrow> True"
| "spared fd (call # calls) s \<longleftrightarrow> spares fd s call \<and> spared fd calls (server_exec call s)"

definition server_run :: "server_call list \<Rightarrow> server \<Rightarrow> server" where
  "server_run calls s = fold server_exec calls s"

text \<open>The client \<open>b\<close> is known at \<open>fd\<close> and the database keeps what it holds for it.\<close>

definition holds :: "int \<Rightarrow> string \<Rightarrow> moos_msg list \<Rightarrow> server \<Rightarrow> bool" where
  "holds fd b l s \<longleftrightarrow> server_ok s \<and> map_of (s_Socket2ClientMap s) fd = Some b \<and> keeps b l (s_DB s)"

lemma other_name:
  assumes "server_ok s" and "map_of (s_Socket2ClientMap s) fd = Some b"
    and "fd' \<in> fst ` set (s_Socket2ClientMap s)" and "fd' \<noteq> fd"
  shows "GetClientName fd' s \<noteq> b"
proof -
  obtain n where n: "map_of (s_Socket2ClientMap s) fd' = Some n"
    using assms(3) by (cases "map_of (s_Socket2ClientMap s) fd'") (auto simp: map_of_None_notin)
  have "(fd, b) \<in> set (s_Socket2ClientMap s)" "(fd', n) \<in> set (s_Socket2ClientMap s)"
    using assms(2) n by (simp_all add: map_of_SomeD)
  moreover have "inj_on snd (set (s_Socket2ClientMap s))"
    using assms(1) by (simp add: server_ok_def distinct_map)
  ultimately have "n \<noteq> b"
    using assms(4) inj_onD [of snd "set (s_Socket2ClientMap s)" "(fd, b)" "(fd', n)"] by auto
  then show ?thesis by (simp add: GetClientName_def n)
qed

lemma holds_run:
  assumes "holds fd b l s" and "s_DB s' = db_run calls (s_DB s)" and "server_ok s'"
    and "map_of (s_Socket2ClientMap s') fd = Some b"
    and "\<forall>call \<in> set calls. no_clear call \<and> leaver call \<noteq> Some b \<and> taker call \<noteq> Some b"
  shows "holds fd b l s'"
  using assms keeps_run [of b l "s_DB s" calls] by (simp add: holds_def)

lemma holds_accept:
  assumes "holds fd b l s" and "fd' \<noteq> fd" and "fd' \<notin> fst ` set (s_ClientSocketList s)"
  shows "holds fd b l (snd (AcceptClient fd' p h bS ip now t s))"
proof -
  have ok: "server_ok s" and k: "keeps b l (s_DB s)" and n: "map_of (s_Socket2ClientMap s) fd = Some b"
    using assms(1) by (simp_all add: holds_def)
  note A = AcceptClient_ok [OF ok assms(3), of p h bS ip now t]
  have "keeps b l (snd (db_exec (Connect x) (s_DB s)))" for x
    using keeps_run [OF k, of "[Connect x]"] by (simp add: no_clear_def)
  then have "keeps b l (s_DB (snd (AcceptClient fd' p h bS ip now t s)))" using A(2) k by auto
  moreover have "map_of (s_Socket2ClientMap (snd (AcceptClient fd' p h bS ip now t s))) fd = Some b"
    using n assms(2)
    by (auto simp: AcceptClient_def OnNewClient_def ServerHandShake_def Let_def case_prod_beta
        split: option.splits sum.splits)
  ultimately show ?thesis using A(1) by (simp add: holds_def)
qed

lemma holds_serve:
  assumes "holds fd b l s" and "spares fd s (Serve io)"
  shows "holds fd b l (snd (ServerPass io s))"
proof -
  have ok: "server_ok s" and n: "map_of (s_Socket2ClientMap s) fd = Some b"
    using assms(1) by (simp_all add: holds_def)
  obtain calls where C: "s_DB (snd (ServerPass io s)) = db_run calls (s_DB s)" "server_ok (snd (ServerPass io s))"
      "\<forall>call \<in> set calls. served_call io s (map fst (s_ClientSocketList s)) call"
      "map_of (s_Socket2ClientMap (snd (ServerPass io s))) fd = Some b"
    using ServerPass_calls [OF ok, of io] assms(2) n by auto
  have "no_clear call \<and> leaver call \<noteq> Some b \<and> taker call \<noteq> Some b" if call: "call \<in> set calls" for call
  proof -
    obtain fd' i where f: "fd' \<in> fst ` set (s_ClientSocketList s)" "io fd' = Some i"
        "(\<exists>sv rx tx. io_MsgLstRx i = Some rx \<and> call = RxPkt sv (GetClientName fd' s) rx tx)
          \<or> call = Disconnect (GetClientName fd' s)"
      using C(3) [unfolded served_call_def set_map, rule_format, OF call] by blast
    have "fd' \<noteq> fd" using f(2) assms(2) by auto
    moreover have "fd' \<in> fst ` set (s_Socket2ClientMap s)" using f(1) ok by (auto simp: server_ok_def)
    ultimately have "GetClientName fd' s \<noteq> b" using other_name [OF ok n] by blast
    then show ?thesis using f(2,3) assms(2) by (auto simp: no_clear_def)
  qed
  then show ?thesis using holds_run [OF assms(1) C(1,2,4)] by blast
qed

lemma holds_timer:
  assumes "holds fd b l s" and "spares fd s (Timer t)"
  shows "holds fd b l (TimerPass t s)"
proof -
  have ok: "server_ok s" and n: "map_of (s_Socket2ClientMap s) fd = Some b"
    using assms(1) by (simp_all add: holds_def)
  note T = TimerPass_calls [OF ok, of t]
  let ?gone = "filter (stale t (s_dfClientTimeout s)) (s_ClientSocketList s)"
  have fd: "fst p \<noteq> fd" if "p \<in> set ?gone" for p using that assms(2) by auto
  have "map_of (filter (\<lambda>e. fst e \<notin> F) m) fd = map_of m fd" if "fd \<notin> F" for F and m :: "(int, string) omap"
    using that by (induction m) auto
  moreover have "fd \<notin> fst ` set ?gone" using fd by (auto simp del: set_filter)
  ultimately have "map_of (s_Socket2ClientMap (TimerPass t s)) fd = map_of (s_Socket2ClientMap s) fd"
    unfolding T(3) by blast
  with n have m: "map_of (s_Socket2ClientMap (TimerPass t s)) fd = Some b" by simp
  have "GetClientName (fst p) s \<noteq> b" if "p \<in> set ?gone" for p
  proof (rule other_name [OF ok n])
    show "fst p \<in> fst ` set (s_Socket2ClientMap s)" using that ok by (auto simp: server_ok_def)
  qed (use fd that in blast)
  then have "\<forall>call \<in> set (map (\<lambda>p. Disconnect (GetClientName (fst p) s)) ?gone).
      no_clear call \<and> leaver call \<noteq> Some b \<and> taker call \<noteq> Some b"
    by (auto simp: no_clear_def simp del: set_filter)
  then show ?thesis using holds_run [OF assms(1) T(1) T(4) m] by blast
qed

lemma holds_spared: "holds fd b l s \<Longrightarrow> spared fd calls s \<Longrightarrow> holds fd b l (server_run calls s)"
proof (induction calls arbitrary: s)
  case Nil
  then show ?case by (simp add: server_run_def)
next
  case (Cons call calls)
  have "holds fd b l (server_exec call s)"
    using Cons.prems holds_accept holds_serve holds_timer by (cases call) (auto simp del: spares.simps(2,3))
  with Cons show ?case by (simp add: server_run_def)
qed

text \<open>A packet with a notification that is due to \<open>b\<close> leaves the message at the end of what is held.\<close>

lemma published_holds:
  assumes "server_ok s" and "db_ok (s_DB s)"
    and "fa \<in> fst ` set (s_Socket2ClientMap s)" and "map_of (s_Socket2ClientMap s) fb = Some b" and "fa \<noteq> fb"
    and "io_MsgLstRx i = Some (pre @ m # post)" and "m_cMsgType m = MOOS_NOTIFY"
    and "db1 = snd (process_all (view (io_timing i) (io_date i) s) pre [] (s_DB s))"
    and "delivered_to m db1 b" and "\<forall>x \<in> set post. \<not> is_clear x"
  shows "holds fb b (box db1 b @ [sent_msg m db1]) (snd (snd (ProcessClient i fa s)))"
proof -
  have "GetClientName fa s \<noteq> b" using other_name [OF assms(1,4,3,5)] .
  from published_keeps [OF assms(2,7,8,9,10) this]
  show ?thesis
    using assms(1,4,6) by (simp add: ProcessClient_eq [OF assms(1,3)] holds_def pkt_call_def case_prod_beta)
qed

lemma held_reply:
  assumes "holds fb b l s" and "io_MsgLstRx i = Some rx" and "io_bSent i" and "rx \<noteq> []"
    and "\<forall>x \<in> set rx. \<not> is_clear x"
  shows "\<exists>tx. fst (snd (ProcessClient i fb s)) = Some (new_msg\<lparr>m_dfVal := io_MOOSLocalTime i\<rparr> # l @ tx)"
proof -
  have ok: "server_ok s" and n: "map_of (s_Socket2ClientMap s) fb = Some b" and k: "keeps b l (s_DB s)"
    using assms(1) by (simp_all add: holds_def)
  have fb: "fb \<in> fst ` set (s_Socket2ClientMap s)" using n by (metis map_of_None_notin option.distinct(1))
  from k obtain new where new: "box (s_DB s) b = l @ new" and db: "db_ok (s_DB s)" by (auto simp: keeps_def)
  show ?thesis
    using reply_of_packet [OF db assms(4,5), of "view (io_timing i) (io_date i) s" b "[]"] new n assms(2,3)
    by (auto simp: ProcessClient_eq [OF ok fb] pkt_call_def GetClientName_def case_prod_beta)
qed

text \<open>C2: a notification sent by one client arrives in the mail of every client whose effective
  subscription was due: whatever the server does in between, short of losing the subscriber or
  \<open>DB_CLEAR\<close>, the subscriber's next exchange and fetch return it, with its name, value, time,
  type and source.\<close>

theorem publish_reaches_subscriber:
  assumes "server_ok s" and "db_ok (s_DB s)"
    and "fa \<in> fst ` set (s_Socket2ClientMap s)" and "map_of (s_Socket2ClientMap s) fb = Some b" and "fa \<noteq> fb"
    and "io_MsgLstRx i = Some (pre @ m # post)" and "m_cMsgType m = MOOS_NOTIFY"
    and "delivered_to m (snd (process_all (view (io_timing i) (io_date i) s) pre [] (s_DB s))) b"
    and "\<forall>x \<in> set post. \<not> is_clear x"
    and "spared fb calls (snd (snd (ProcessClient i fa s)))"
    and "s2 = server_run calls (snd (snd (ProcessClient i fa s)))"
    and "client_ok c" and "c_bConnected c" and "\<forall>x \<in> set (outgoing c). \<not> is_clear x"
    and "c_Msg2ActiveQueueName c = []" and "c_WildcardQueuePatterns c = []"
    and "io_bSent j"
    and "DoClientWork (\<lambda>rx. fst (snd (ProcessClient (j\<lparr>io_MsgLstRx := Some rx\<rparr>) fb s2))) t r c = Inr (ok, c')"
  shows "\<exists>x \<in> set (fst (snd (Fetch [] c'))). IsType x MOOS_NOTIFY \<and> m_sKey x = m_sKey m \<and> m_cDataType x = m_cDataType m
     \<and> m_dfVal x = m_dfVal m \<and> m_sVal x = m_sVal m \<and> m_dfTime x = m_dfTime m
     \<and> m_sSrc x = m_sSrc m \<and> m_sSrcAux x = m_sSrcAux m"
proof -
  let ?db = "snd (process_all (view (io_timing i) (io_date i) s) pre [] (s_DB s))" and ?j = "\<lambda>rx. j\<lparr>io_MsgLstRx := Some rx\<rparr>"
  have h: "holds fb b (box ?db b @ [sent_msg m ?db]) s2"
    unfolding assms(11)
    by (rule holds_spared [OF published_holds [OF assms(1-7) refl assms(8,9)] assms(10)])
  have ne: "outgoing c \<noteq> []" by (simp add: outgoing_def)
  obtain tx where reply: "fst (snd (ProcessClient (?j (outgoing c)) fb s2))
      = Some (new_msg\<lparr>m_dfVal := io_MOOSLocalTime j\<rparr> # (box ?db b @ [sent_msg m ?db]) @ tx)"
    using held_reply [OF h, of "?j (outgoing c)" "outgoing c"] assms(14,17) ne by auto
  let ?reply = "new_msg\<lparr>m_dfVal := io_MOOSLocalTime j\<rparr> # (box ?db b @ [sent_msg m ?db]) @ tx"
  have "sent_msg m ?db \<in> set (pending c ?reply)"
    by (simp add: pending_def IsNullMsg_def IsType_def sent_msg_def)
  moreover have "unpicked c (pending c ?reply) = pending c ?reply"
    using assms(15,16) by (cases "pending c ?reply") (simp_all add: unpicked_def routed_def has_route_def matching_def)
  moreover obtain c1 where "DoClientWork (\<lambda>rx. fst (snd (ProcessClient (?j rx) fb s2))) t r c = Inr (True, c1)"
      and "c_InBox c1 = unpicked c (pending c ?reply)"
    using exchange_ok [OF assms(12,13), of "\<lambda>rx. fst (snd (ProcessClient (?j rx) fb s2))" ?reply t r] reply by auto
  ultimately have box: "sent_msg m ?db \<in> set (c_InBox c')" using assms(18) by simp
  have ok': "client_ok c'" using assms(12,18) by (rule client_ok_exchange)
  have "c_InBox c' \<noteq> []" using box by auto
  then have "sent_msg m ?db \<in> set (fst (snd (Fetch [] c')))"
    using box client_okD(5) [OF ok'] by (simp add: fetch_ok [OF ok'])
  then show ?thesis
    by (rule bexI [rotated]) (simp add: sent_msg_def set_community_def IsType_def)
qed

section \<open>Subscribing\<close>

text \<open>Registering for a variable puts one message in the out box with which the database, when
  it processes the packet, makes the subscription its specification asks for.\<close>

theorem register_reaches_db:
  assumes "c_bConnected c" and "c_OutBox c = []" and "0 < c_nOutPendingLimit c"
    and "RegisterVar v p now c = (True, c')" and "CHR 0x00 \<notin> set v" and "db_ok db"
  shows "abs_db (snd (process_all sv (outgoing c') tx db)) = spec_register (c_sMyName c) v p (now_of db) (abs_db db)
     \<and> IsRegisteredFor v c'"
proof -
  define M where "M = stamp c False (msg_double MOOS_REGISTER (c_str v) p (-1) now)"
  have c': "c' = posted (msg_double MOOS_REGISTER (c_str v) p (-1) now) c\<lparr>c_Registered := set_insert v (c_Registered c)\<rparr>"
    using assms(1,4) by (auto simp: RegisterVar_eq split: if_splits)
  have "out.post (c_bPostNewestToFront c) (c_nOutPendingLimit c) M [] = [M]"
    using assms(3) by (simp add: out.post_def push_newest_def by_age_def)
  then have out: "outgoing c' = [M]"
    using assms(1,2) by (simp add: c' posted_eq outgoing_def M_def)
  have M: "m_cMsgType M = MOOS_REGISTER" "m_sSrc M = c_sMyName c" "m_sKey M = v" "m_dfVal M = p"
    using assms(5) by (simp_all add: M_def stamp_def msg_double_def IsType_def c_str_id)
  have "snd (process_all sv [M] tx db) = snd (OnRegister M db)"
    by (simp add: process_all_def ProcessMsg_def M(1) case_prod_beta)
  moreover have "v \<in> set (c_Registered c')" by (simp add: c')
  then have "IsRegisteredFor v c'" by (auto simp: IsRegisteredFor_def)
  ultimately show ?thesis using register_abs [OF assms(6) M(1)] by (simp add: out M)
qed

section \<open>Wildcards\<close>

lemma wildcard_params_eq:
  "wildcard_params v a p = add_params [] [(''AppPattern'', a), (''VarPattern'', v), (''Interval'', show_g p)]"
  by (simp add: wildcard_params_def add_params_def)

lemma wildcard_params_read:
  assumes "CHR '','' \<notin> set v" and "CHR '','' \<notin> set a"
    and "m_sVal M = wildcard_params v a p"
  shows "app_pattern M = MOOSTrimWhiteSpace a \<and> var_pattern M = MOOSTrimWhiteSpace v \<and> interval M = atof (show_g p)"
proof -
  have keys: "key_ok ''AppPattern''" "key_ok ''VarPattern''" "key_ok ''Interval''"
    by (simp_all add: key_ok_def moos_white_def)
  have ok: "params_ok [(''AppPattern'', a), (''VarPattern'', v), (''Interval'', show_g p)]"
    using assms(1,2) keys number_text_show_g [of p] by (auto simp: params_ok_def number_text_def dest: white_number(2))
  note R = MOOSValFromString_params [OF ok, folded wildcard_params_eq]
  show ?thesis
    using R [OF keys(1)] R [OF keys(2)] R [OF keys(3)] starts_show_g [of p] assms(3)
    by (simp add: app_pattern_def var_pattern_def interval_def MOOSValFromString_double_def trim_show_g)
qed

lemma first_post:
  assumes "c_bConnected c" and "c_OutBox c = []" and "0 < c_nOutPendingLimit c"
  shows "outgoing (posted M c) = [stamp c False M]"
  using assms by (simp add: posted_eq outgoing_def out.post_def push_newest_def by_age_def)

text \<open>a wildcard registration posts one message under the client's name, and for patterns without
  commas the database reads them back from it, without the white space around them, and the
  interval as it was printed.\<close>

theorem pattern_reaches_db:
  assumes "c_bConnected c" and "c_OutBox c = []" and "0 < c_nOutPendingLimit c"
    and "v \<noteq> []" and "a \<noteq> []" and "CHR '','' \<notin> set v" and "CHR '','' \<notin> set a"
  shows "\<exists>M. outgoing (snd (RegisterPattern v a p now c)) = [M]
     \<and> IsType M MOOS_WILDCARD_REGISTER \<and> m_sSrc M = c_sMyName c
     \<and> app_pattern M = MOOSTrimWhiteSpace a \<and> var_pattern M = MOOSTrimWhiteSpace v
     \<and> interval M = atof (show_g p)"
proof -
  let ?M = "stamp c False (msg_string MOOS_WILDCARD_REGISTER (c_sMyName c) (wildcard_params v a p) (-1) now)"
  have "outgoing (snd (RegisterPattern v a p now c)) = [?M]"
    using assms(4,5) first_post [OF assms(1-3)] by (simp add: RegisterPattern_def post_msg_posted [OF assms(1)])
  moreover have "IsType ?M MOOS_WILDCARD_REGISTER" "m_sSrc ?M = c_sMyName c" "m_sVal ?M = wildcard_params v a p"
    by (simp_all add: stamp_def msg_string_def IsType_def)
  ultimately show ?thesis using wildcard_params_read [OF assms(6,7)] by blast
qed

section \<open>The read/write summary\<close>

definition name_ok :: "string \<Rightarrow> bool" where
  "name_ok n \<longleftrightarrow> n \<noteq> [] \<and> set n \<inter> set '',=&:'' = {}"

lemma join_chars: "c \<in> set (join_with sep xs) \<Longrightarrow> c \<in> set sep \<or> (\<exists>x \<in> set xs. c \<in> set x)"
  using set_join_with [of sep xs] by auto

text \<open>One entry as the database prints and the client reads it.\<close>

definition rw_entry :: "string \<Rightarrow> string list \<Rightarrow> string list \<Rightarrow> string" where
  "rw_entry q subs pubs = q @ ''='' @ join_with '':'' subs @ ''&'' @ join_with '':'' pubs"

lemma rw_entry_pieces:
  assumes "name_ok q" and "\<forall>x \<in> set subs \<union> set pubs. name_ok x"
  shows "MOOSChomp (rw_entry q subs pubs) ''='' False = (q, join_with '':'' subs @ ''&'' @ join_with '':'' pubs)"
    and "MOOSChomp (join_with '':'' subs @ ''&'' @ join_with '':'' pubs) ''&'' False = (join_with '':'' subs, join_with '':'' pubs)"
    and "MOOSChomp (join_with '':'' pubs) ''&'' False = (join_with '':'' pubs, [])"
    and "StringListToVector (join_with '':'' subs) '':'' = subs"
    and "StringListToVector (join_with '':'' pubs) '':'' = pubs"
    and "rw_entry q subs pubs \<noteq> []" and "CHR '','' \<notin> set (rw_entry q subs pubs)"
proof -
  have amp: "CHR ''&'' \<notin> set (join_with '':'' xs)" "CHR '','' \<notin> set (join_with '':'' xs)"
    if "\<forall>x \<in> set xs. name_ok x" for xs
    using that by (auto simp: name_ok_def dest!: join_chars)
  have ps: "\<forall>x \<in> set subs. name_ok x" "\<forall>x \<in> set pubs. name_ok x" using assms(2) by auto
  have q: "CHR ''='' \<notin> set q" "CHR '','' \<notin> set q" "q \<noteq> []" using assms(1) by (auto simp: name_ok_def)
  show "MOOSChomp (rw_entry q subs pubs) ''='' False = (q, join_with '':'' subs @ ''&'' @ join_with '':'' pubs)"
    using q(1) by (simp add: rw_entry_def MOOSChomp_piece)
  show "MOOSChomp (join_with '':'' subs @ ''&'' @ join_with '':'' pubs) ''&'' False = (join_with '':'' subs, join_with '':'' pubs)"
    using amp(1) [OF ps(1)] by (simp add: MOOSChomp_piece)
  show "MOOSChomp (join_with '':'' pubs) ''&'' False = (join_with '':'' pubs, [])"
    using amp(1) [OF ps(2)] by (simp add: MOOSChomp_last)
  show "StringListToVector (join_with '':'' subs) '':'' = subs" "StringListToVector (join_with '':'' pubs) '':'' = pubs"
    using ps by (auto intro!: split_join simp: name_ok_def)
  show "rw_entry q subs pubs \<noteq> []" using q(3) by (simp add: rw_entry_def)
  show "CHR '','' \<notin> set (rw_entry q subs pubs)" using q amp(2) ps by (simp add: rw_entry_def)
qed

lemma rw_loop_entries:
  assumes "\<forall>q \<in> set qs. name_ok q" and "\<forall>q \<in> set qs. \<forall>x \<in> set (f q) \<union> set (g q). name_ok x"
  shows "\<exists>st'. rw_loop (map (\<lambda>q. rw_entry q (f q) (g q)) qs) st = (True, st')
     \<and> (\<forall>q. map_of st' q = (if q \<in> set qs
          then Some ((map_get new_comms_status st q)\<lparr>cs_subscribes := f q, cs_publishes := g q\<rparr>) else map_of st q))"
  using assms
proof (induction qs arbitrary: st)
  case Nil
  then show ?case by simp
next
  case (Cons q qs)
  note E = rw_entry_pieces [of q "f q" "g q"]
  let ?st = "map_set q ((map_get new_comms_status st q)\<lparr>cs_subscribes := f q, cs_publishes := g q\<rparr>) st"
  have q: "q \<noteq> []" using Cons.prems(1) by (simp add: name_ok_def)
  have "rw_loop (map (\<lambda>q. rw_entry q (f q) (g q)) (q # qs)) st = rw_loop (map (\<lambda>q. rw_entry q (f q) (g q)) qs) ?st"
    using E Cons.prems q by simp
  moreover obtain st' where "rw_loop (map (\<lambda>q. rw_entry q (f q) (g q)) qs) ?st = (True, st')"
      "\<forall>p. map_of st' p = (if p \<in> set qs
          then Some ((map_get new_comms_status ?st p)\<lparr>cs_subscribes := f p, cs_publishes := g p\<rparr>) else map_of ?st p)"
    using Cons.IH [of ?st] Cons.prems by auto
  ultimately show ?case by (auto simp: map_get_def)
qed

text \<open>a client that receives \<open>DB_RWSUMMARY\<close> knows, for every connected client, exactly which
  variables it subscribes to and which it has written, in the order of their names, as long as
  no name is empty or holds one of the separators.\<close>

theorem rw_summary_read:
  assumes "db_ok db" and "\<forall>q \<in> set Clients. name_ok q" and "\<forall>k \<in> fst ` set (db_VarMap db). name_ok k"
    and "m_sKey M = ''DB_RWSUMMARY''" and "m_sVal M = rw_summary Clients (db_VarMap db)"
  shows "\<exists>c'. ProcessClientCommsStatusSummary M c = Inr (True, c')
     \<and> (\<forall>q \<in> set Clients. \<exists>r. GetClientCommsStatus q c' = Some r
          \<and> cs_subscribes r = map fst (filter (\<lambda>(_, v). HasSubscriber v q) (db_VarMap db))
          \<and> cs_publishes r = map fst (filter (\<lambda>(_, v). q \<in> set (v_Writers v)) (db_VarMap db)))"
proof -
  define f where "f q = map fst (filter (\<lambda>(_, v). HasSubscriber v q) (db_VarMap db))" for q
  define g where "g q = map fst (filter (\<lambda>(_, v). q \<in> set (v_Writers v)) (db_VarMap db))" for q
  have names: "\<forall>x \<in> set (f q) \<union> set (g q). name_ok x" for q
    using assms(3) by (auto simp: f_def g_def)
  have "rw_summary Clients (db_VarMap db) = join_with '','' (map (\<lambda>q. rw_entry q (f q) (g q)) Clients)"
    by (simp add: rw_summary_def rw_entry_def rw_summary_lists [OF assms(1)] f_def g_def)
  moreover have "StringListToVector (join_with '','' (map (\<lambda>q. rw_entry q (f q) (g q)) Clients)) '',''
      = map (\<lambda>q. rw_entry q (f q) (g q)) Clients"
    using rw_entry_pieces(6,7) assms(2) names by (intro split_join) simp
  ultimately have "StringListToVector (m_sVal M) '','' = map (\<lambda>q. rw_entry q (f q) (g q)) Clients"
    by (simp add: assms(5))
  then show ?thesis
    using rw_loop_entries [of Clients f g "c_ClientStatuses c"] assms(2,4) names
    by (auto simp: ProcessClientCommsStatusSummary_def GetClientCommsStatus_def f_def g_def)
qed

end
