(* ===== verification/Moos_AsyncSystem.thy ===== *)
theory Moos_AsyncSystem
  imports Moos_ThreadedProperties Moos_AsyncProperties Moos_System
begin

text \<open>
  The threaded server and asynchronous clients together: joining, and the way of a notification to
  an asynchronous subscriber, who need not ask for it.
\<close>

section \<open>Joining\<close>

text \<open>an asynchronous client that joins under a free name gets a reader and a writer of its own,
  with an empty queue and the consolidation time the server was started with for its name, and
  learns that the database supports asynchronous clients.\<close>

theorem async_client_joins:
  assumes "t_ok t" and "fd \<notin> fst ` set (s_ClientSocketList (t_Base t))"
    and "CHR 0x00 \<notin> set (c_sMyName (a_Base a))" and "IsUniqueName (c_sMyName (a_Base a)) (t_Base t)"
    and "ThreadedAccept fd (Some hello_bytes) (Inr (Some (async_hello_msg u a))) True ip now v t = (answer, t')"
    and "HandShake answer local_ip q (a_Base a) = (ok, c)"
  shows "\<exists>th. map_of (t_ClientThreads t') (c_sMyName (a_Base a)) = Some th \<and> th_Socket th = fd \<and> th_bAsynchronous th
     \<and> th_bWriting th \<and> th_Reader th = Reading \<and> th_DataOutgoing th = []
     \<and> th_dfConsolidationPeriod th = ConsolidationTime (c_sMyName (a_Base a)) (t_ClientTimingVector t) / 1000
     \<and> ok \<and> c_bDBIsAsynchronous c"
proof -
  let ?n = "c_sMyName (a_Base a)" and ?H = "async_hello_msg u a"
  have H: "m_sVal ?H = ?n" "MOOSStrCmp (m_sKey ?H) ''asynchronous''"
    using c_str_id [OF assms(3)]
    by (simp_all add: async_hello_msg_def msg_string_def AsyncHandShakeKey_def MOOSStrCmp_def)
  obtain s W where on: "OnNewClient fd (Some hello_bytes) (Inr (Some ?H)) True ip now (t_Base t) = (True, Some W, s)"
      and s: "GetClientName fd s = ?n" "?n \<in> set (s_AsynchronousClientSet s)"
      and W: "IsType W MOOS_WELCOME" "m_sVal W = ''asynchronous''"
    using assms(4) H
    by (simp add: OnNewClient_def ServerHandShake_def hello_protocol Let_def GetClientName_def welcome_msg_def
        msg_double_def IsType_def)
  have "fst (ThreadedOnNewClient fd (Some hello_bytes) (Inr (Some ?H)) True ip now t) = True"
    by (rule ThreadedAccept_ok(2) [OF assms(1,2) on])
  then have free: "map_of (t_ClientThreads t) ?n = None"
    using s(1) by (auto simp: ThreadedOnNewClient_def on AddAndStartClientThread_def Let_def split: if_splits)
  have "answer = Some W" and "map_of (t_ClientThreads t') ?n = Some
      \<lparr>th_sClientName = ?n, th_Socket = fd, th_bAsynchronous = True,
       th_dfConsolidationPeriod = ConsolidationTime ?n (t_ClientTimingVector t) / 1000,
       th_dfClientTimeout = s_dfClientTimeout s, th_DataOutgoing = [], th_Reader = Reading, th_bWriting = True\<rparr>"
    using assms(5) free s by (auto simp: ThreadedAccept_def ThreadedOnNewClient_def on AddAndStartClientThread_def Let_def)
  moreover have "ok \<and> c_bDBIsAsynchronous c"
    using assms(6) W unfolding \<open>answer = Some W\<close>
    by (auto simp: HandShake_def Let_def IsType_def MOOSStrCmp_def split: if_splits)
  ultimately show ?thesis by simp
qed

section \<open>From publisher to asynchronous subscriber\<close>

lemma publish_in_mail:
  assumes "t_ok t" and "db_ok (s_DB (t_Base t))" and "t_DataFromClient t = SD # rest" and "sd_Status SD = PKT_READ"
    and "sd_Pkt SD = Some rx" and "payload rx = pre @ m # post" and "m_cMsgType m = MOOS_NOTIFY"
    and "map_of (t_ClientThreads t) b = Some th" and "th_bAsynchronous th" and "b \<noteq> sd_sClientName SD"
    and "th_DataOutgoing th = []" and "th_bWriting th"
    and "delivered_to m (snd (process_all (view (io_timing io) (io_date io) (t_Base t)) pre [] (s_DB (t_Base t)))) b"
    and "\<forall>x \<in> set post. \<not> is_clear x"
    and "t_exec (TServe io) t = Some t'" and "map_of (t_ClientThreads t') b = Some th'"
    and "queues_ok (a_Base a)" and "c_Msg2ActiveQueueName (a_Base a) = []" and "c_WildcardQueuePatterns (a_Base a) = []"
    and "DoReading (fst (WriteStep True th')) r a = Inr (ok, a')"
  shows "ok \<and> (\<exists>x \<in> set (fst (snd (Fetch [] (a_Base a')))). IsType x MOOS_NOTIFY \<and> m_sKey x = m_sKey m
     \<and> m_cDataType x = m_cDataType m \<and> m_dfVal x = m_dfVal m \<and> m_sVal x = m_sVal m \<and> m_dfTime x = m_dfTime m
     \<and> m_sSrc x = m_sSrc m \<and> m_sSrcAux x = m_sSrcAux m)"
proof -
  let ?db1 = "snd (process_all (view (io_timing io) (io_date io) (t_Base t)) pre [] (s_DB (t_Base t)))"
  note db = assms(2)
  obtain later where later: "th' = th\<lparr>th_DataOutgoing := [outgoing_pkt (sd_sClientName SD) (box ?db1 b @ sent_msg m ?db1 # later)]\<rparr>"
    using push_delivery [OF assms(1-10) refl assms(13,14)] assms(11,15,16) by auto
  define Ms where "Ms = box ?db1 b @ sent_msg m ?db1 # later"
  have W: "fst (WriteStep True th') = Some Ms"
    using assms(12) by (simp add: later WriteStep_def outgoing_pkt_def Ms_def)
  have "db_ok ?db1" by (rule db_inv.inv_process_all [OF db]) simp
  then have "x \<in> set (box ?db1 b) \<Longrightarrow> m_cMsgType x = MOOS_NOTIFY" for x
    using db_okD(6) by (auto simp: mail_ok_def)
  then have hd: "m_cMsgType (hd Ms) = MOOS_NOTIFY"
    by (cases "box ?db1 b") (simp_all add: Ms_def sent_msg_def)
  then have fg: "first_gone (unread a) Ms = unread a @ Ms" by (simp add: first_gone_def IsType_def)
  have "Ms \<noteq> []" by (simp add: Ms_def)
  from reading_ok [OF assms(17) this, of r] have a': "ok" "c_InBox (a_Base a') = unread a @ Ms"
      "c_bMailPresent (a_Base a') = (c_InBox (a_Base a') \<noteq> [])"
    using assms(20) by (auto simp: W fg no_routes [OF assms(18,19)])
  have "sent_msg m ?db1 \<in> set (fst (snd (Fetch [] (a_Base a'))))"
    using a' by (simp add: Fetch_def Ms_def IsNullMsg_def IsType_def sent_msg_def)
  then show ?thesis
    by (intro conjI a'(1) bexI [rotated, where x = "sent_msg m ?db1"]) (simp_all add: sent_msg_def set_community_def IsType_def)
qed

text \<open>a notification that a client of the threaded server publishes reaches every other
  asynchronous client whose subscription was due without being asked for: the server's next round
  queues it, the client's writer sends it, and when the client has read that packet its next
  fetch returns the message, with its name, value, time, type and source.\<close>

theorem publish_reaches_async_subscriber:
  assumes "t_ok t" and "db_ok (s_DB (t_Base t))" and "t_DataFromClient t = SD # rest" and "sd_Status SD = PKT_READ"
    and "sd_Pkt SD = Some rx" and "payload rx = pre @ m # post" and "m_cMsgType m = MOOS_NOTIFY"
    and "map_of (t_ClientThreads t) b = Some th" and "th_bAsynchronous th" and "b \<noteq> sd_sClientName SD"
    and "th_DataOutgoing th = []" and "th_bWriting th"
    and "delivered_to m (snd (process_all (view (io_timing io) (io_date io) (t_Base t)) pre [] (s_DB (t_Base t)))) b"
    and "\<forall>x \<in> set post. \<not> is_clear x"
    and "t_exec (TServe io) t = Some t'" and "map_of (t_ClientThreads t') b = Some th'"
    and "queues_ok (a_Base a)" and "c_Msg2ActiveQueueName (a_Base a) = []" and "c_WildcardQueuePatterns (a_Base a) = []"
    and "DoReading (fst (WriteStep True th')) r a = Inr (ok, a')"
  shows "ok \<and> (\<exists>x \<in> set (fst (snd (Fetch [] (a_Base a')))). IsType x MOOS_NOTIFY \<and> m_sKey x = m_sKey m
     \<and> m_cDataType x = m_cDataType m \<and> m_dfVal x = m_dfVal m \<and> m_sVal x = m_sVal m \<and> m_dfTime x = m_dfTime m
     \<and> m_sSrc x = m_sSrc m \<and> m_sSrcAux x = m_sSrcAux m)"
  using assms by (rule publish_in_mail)

end
