(* ===== verification/Moos_FileReader.thy ===== *)
theory Moos_FileReader
  imports Moos_Params
begin

text \<open>
  The reader of mission files, \<open>Utils/MOOSFileReader.cpp\<close>: the input stream it holds, its
  lines with comments, quotes and \<open>${...}\<close> expansions, the search for a line, the
  \<open>GetValue\<close> family and \<open>MakeOverloadedCopy\<close>.

  \<^item> \<open>ifstream\<close>: a \<open>std::ifstream\<close> as the standard specifies \<open>std::ws\<close>, \<open>getline\<close> into a
    buffer, \<open>seekg\<close> and \<open>clear\<close>. One calling thread: its entry of \<open>m_FileMap\<close>.
  \<^item> \<open>host\<close>: what the reader finds outside the program, the readable files and the
    environment of the process. Files do not change while they are read.
  \<^item> The loops \<open>while(!eof())\<close> need not end, so \<open>read_loop\<close> is a partial function: \<open>None\<close>
    is a loop that never returns. \<open>read_loop_short\<close> shows when they do.
\<close>

section \<open>The stream\<close>

record ifstream =
  f_whole :: string
  f_rest :: string
  f_eof :: bool
  f_fail :: bool

abbreviation newline :: char where "newline \<equiv> CHR 0x0A"

definition f_open :: "string \<Rightarrow> ifstream" where
  "f_open s = \<lparr>f_whole = s, f_rest = s, f_eof = False, f_fail = False\<rparr>"

definition f_good :: "ifstream \<Rightarrow> bool" where
  "f_good st \<longleftrightarrow> \<not> f_eof st \<and> \<not> f_fail st"

text \<open>\<open>st >> std::ws\<close>\<close>

definition f_ws :: "ifstream \<Rightarrow> ifstream" where
  "f_ws st =
     (if \<not> f_good st then st\<lparr>f_fail := True\<rparr>
      else st\<lparr>f_rest := dropWhile isspace (f_rest st),
              f_eof := (dropWhile isspace (f_rest st) = [])\<rparr>)"

text \<open>\<open>st.getline(Tmp, n)\<close>: what the buffer holds then, and the stream. A line that does not
  fit in \<open>n - 1\<close> characters sets \<open>failbit\<close> and leaves the rest of the line unread.\<close>

definition f_getline :: "nat \<Rightarrow> ifstream \<Rightarrow> string \<times> ifstream" where
  "f_getline n st =
     (if \<not> f_good st then ([], st\<lparr>f_fail := True\<rparr>)
      else (let l = take (n - 1) (takeWhile (\<lambda>c. c \<noteq> newline) (f_rest st));
                r = drop (length l) (f_rest st)
            in case r of
                 [] \<Rightarrow> (l, st\<lparr>f_rest := [], f_eof := True, f_fail := (l = [])\<rparr>)
               | c # r' \<Rightarrow>
                   if c = newline then (l, st\<lparr>f_rest := r'\<rparr>)
                   else (l, st\<lparr>f_rest := r, f_fail := True\<rparr>)))"

definition f_clear :: "ifstream \<Rightarrow> ifstream" where
  "f_clear st = st\<lparr>f_eof := False, f_fail := False\<rparr>"

text \<open>\<open>seekg(ios::beg)\<close> clears \<open>eofbit\<close> and does nothing else on a stream that has failed.\<close>

definition f_rewind :: "ifstream \<Rightarrow> ifstream" where
  "f_rewind st =
     (if f_fail st then st\<lparr>f_eof := False\<rparr>
      else st\<lparr>f_eof := False, f_rest := f_whole st\<rparr>)"

section \<open>The reader\<close>

record host =
  h_disk :: "string \<Rightarrow> string option"
  h_getenv :: "string \<Rightarrow> string option"

record file_reader =
  r_sFileName :: string
  r_File :: "ifstream option"
  r_LocalShellVariables :: "(string, string) omap"
  r_bEnableVerbatimQuoting :: bool

definition new_file_reader :: file_reader where
  "new_file_reader =
     \<lparr>r_sFileName = [], r_File = None, r_LocalShellVariables = [], r_bEnableVerbatimQuoting = True\<rparr>"

definition MAXLINESIZE :: nat where
  "MAXLINESIZE = 2000"

text \<open>A stream that does not open is deleted and its entry erased.\<close>

definition GetFile :: "host \<Rightarrow> file_reader \<Rightarrow> file_reader" where
  "GetFile h R =
     (if r_File R = None \<and> r_sFileName R \<noteq> []
      then R\<lparr>r_File := map_option f_open (h_disk h (r_sFileName R))\<rparr>
      else R)"

definition IsOpen :: "host \<Rightarrow> file_reader \<Rightarrow> bool" where
  "IsOpen h R \<longleftrightarrow> r_File (GetFile h R) \<noteq> None"

definition reader_eof :: "host \<Rightarrow> file_reader \<Rightarrow> bool" where
  "reader_eof h R \<longleftrightarrow> (case r_File (GetFile h R) of None \<Rightarrow> False | Some st \<Rightarrow> f_eof st)"

definition on_file :: "host \<Rightarrow> (ifstream \<Rightarrow> ifstream) \<Rightarrow> file_reader \<Rightarrow> file_reader" where
  "on_file h f R = (GetFile h R)\<lparr>r_File := map_option f (r_File (GetFile h R))\<rparr>"

definition ResetFile :: "host \<Rightarrow> file_reader \<Rightarrow> file_reader" where
  "ResetFile h R =
     on_file h (\<lambda>st. if f_eof st then f_rewind (f_clear st) else f_rewind st) R"

section \<open>Lines\<close>

text \<open>\<open>IsComment\<close> trims the line it is asked about.\<close>

definition IsComment :: "string \<Rightarrow> bool \<times> string" where
  "IsComment sLine = (let l = MOOSTrimWhiteSpace sLine in (search_by (=) l ''//'' = Some 0, l))"

text \<open>The buffer up to its first NUL character, as \<open>std::string(Tmp)\<close> reads it.\<close>

definition read_line :: "ifstream \<Rightarrow> string \<times> ifstream" where
  "read_line st =
     (let (l, st') = f_getline MAXLINESIZE (f_ws st)
      in (takeWhile (\<lambda>c. c \<noteq> CHR 0x00) l, st'))"

lemma f_ws_rest_length: "length (f_rest (f_ws st)) \<le> length (f_rest st)"
  by (simp add: f_ws_def length_dropWhile_le)

lemma f_getline_length:
  "f_getline n st = (l, st') \<Longrightarrow> length l + length (f_rest st') \<le> length (f_rest st)"
proof -
  assume g: "f_getline n st = (l, st')"
  define m where "m = take (n - 1) (takeWhile (\<lambda>c. c \<noteq> newline) (f_rest st))"
  have m: "length m \<le> length (f_rest st)"
    by (simp add: m_def length_takeWhile_le min.coboundedI1)
  show ?thesis
  proof (cases "f_good st")
    case True
    then have eq: "(case drop (length m) (f_rest st) of
          [] \<Rightarrow> (m, st\<lparr>f_rest := [], f_eof := True, f_fail := (m = [])\<rparr>)
        | c # r \<Rightarrow> if c = newline then (m, st\<lparr>f_rest := r\<rparr>)
                   else (m, st\<lparr>f_rest := drop (length m) (f_rest st), f_fail := True\<rparr>)) = (l, st')"
      using g unfolding f_getline_def Let_def m_def by simp
    show ?thesis
    proof (cases "drop (length m) (f_rest st)")
      case Nil
      with eq m show ?thesis by auto
    next
      case (Cons c r)
      have len: "length (f_rest st) = length m + Suc (length r)"
        using m arg_cong [OF Cons, of length] by simp
      from eq have "l = m" "length (f_rest st') \<le> Suc (length r)"
        unfolding Cons by (auto split: if_splits)
      with len show ?thesis by simp
    qed
  qed (use g in \<open>auto simp: f_getline_def\<close>)
qed

lemma read_line_length:
  "read_line st = (l, st') \<Longrightarrow> length l + length (f_rest st') \<le> length (f_rest st)"
proof -
  assume r: "read_line st = (l, st')"
  obtain k where k: "f_getline MAXLINESIZE (f_ws st) = (k, st')" and l: "l = takeWhile (\<lambda>c. c \<noteq> CHR 0x00) k"
    using r by (auto simp: read_line_def split: prod.splits)
  have "length l \<le> length k" using l by (simp add: length_takeWhile_le)
  with f_getline_length [OF k] f_ws_rest_length [of st] show ?thesis by linarith
qed

text \<open>The loop that passes over comment lines, from the line just read.\<close>

function skip_comments :: "string \<Rightarrow> ifstream \<Rightarrow> string \<times> ifstream" where
  "skip_comments sLine st =
     (if sLine = [] then ([], st)
      else if fst (IsComment sLine) then skip_comments (fst (read_line st)) (snd (read_line st))
      else (snd (IsComment sLine), st))"
  by pat_completeness auto
termination
proof (relation "measure (\<lambda>(l, st). length l + length (f_rest st))", simp, goal_cases)
  case (1 sLine st)
  then show ?case
    using read_line_length [of st "fst (read_line st)" "snd (read_line st)"]
    by (cases sLine) (auto split: prod.splits)
qed

declare skip_comments.simps [simp del]

text \<open>\<open>nC<<nS2\<close> of the condition on quotes, as the processor shifts a 64-bit word (by the count
  modulo 64; the language leaves counts from 64 on undefined). \<open>npos\<close> has every bit set.\<close>

definition shl_nonzero :: "nat option \<Rightarrow> nat \<Rightarrow> bool" where
  "shl_nonzero nC k \<longleftrightarrow> (case nC of None \<Rightarrow> True | Some c \<Rightarrow> c * 2 ^ (k mod 64) mod 2 ^ 64 \<noteq> 0)"

definition find_from :: "string \<Rightarrow> string \<Rightarrow> nat \<Rightarrow> nat option" where
  "find_from s tok p =
     (if p \<le> length s then map_option (\<lambda>i. i + p) (search_by (=) (drop p s) tok) else None)"

text \<open>The first quoted section loses its quotes, and a comment is cut off: the line, and where
  \<open>//\<close> is.\<close>

definition unquote_line :: "bool \<Rightarrow> string \<Rightarrow> string \<times> nat option" where
  "unquote_line bVerbatim sLine =
     (let nC = search_by (=) sLine ''//'' in
      case search_by (=) sLine [CHR 0x22] of
        None \<Rightarrow> (sLine, nC)
      | Some nS1 \<Rightarrow>
          if \<not> bVerbatim then (sLine, nC)
          else (case find_from sLine [CHR 0x22] (nS1 + 1) of
                  None \<Rightarrow> (sLine, nC)
                | Some nS2 \<Rightarrow>
                    (let sF = take (nS2 - nS1 - 1) (drop (nS1 + 1) sLine);
                         l = take nS1 sLine @ sF @ drop (nS2 + 1) sLine
                     in (l, if (case nC of None \<Rightarrow> True | Some c \<Rightarrow> nS1 < c) \<and> shl_nonzero nC nS2
                            then find_from l ''//'' (nS2 - 1) else nC))))"

definition cut_comment :: "string \<times> nat option \<Rightarrow> string" where
  "cut_comment p = (case p of (l, nC) \<Rightarrow>
     (case nC of None \<Rightarrow> l | Some c \<Rightarrow> if c \<le> length l then take c l else l))"

section \<open>Expansion\<close>

text \<open>The value \<open>${sExpand}\<close> stands for: a definition of the file, else a variable of the
  environment, else the name itself.\<close>

definition expand_name :: "host \<Rightarrow> (string, string) omap \<Rightarrow> string \<Rightarrow> string" where
  "expand_name h vars sExpand =
     (case map_of vars sExpand of
        Some v \<Rightarrow> v
      | None \<Rightarrow> (case h_getenv h sExpand of Some v \<Rightarrow> v | None \<Rightarrow> sExpand))"

function expand_loop :: "host \<Rightarrow> (string, string) omap \<Rightarrow> string \<Rightarrow> string \<Rightarrow> string" where
  "expand_loop h vars sVal sBuilt =
     (let (pre, v1) = MOOSChomp sVal ''${'' False;
          (sExpand, v2) = MOOSChomp v1 ''}'' False
      in if sExpand = [] then sBuilt @ pre
         else let x = expand_name h vars sExpand
              in if x = [] then sBuilt @ pre else expand_loop h vars v2 (sBuilt @ pre @ x))"
  by pat_completeness auto
termination
proof (relation "measure (\<lambda>(h, vars, v, b). length v)", simp, goal_cases)
  case (1 h vars sVal sBuilt p pre v1 q sExpand v2 x)
  have v: "v1 \<noteq> []"
  proof
    assume "v1 = []"
    with 1 have "sExpand = []" by (auto simp: MOOSChomp_def MOOSStrFind_def split: option.splits if_splits)
    with 1 show False by simp
  qed
  have l2: "length v2 < length v1" using MOOSChomp_shorter [OF v, of "''}''" False] 1 by (metis snd_conv)
  have "sVal \<noteq> []"
  proof
    assume "sVal = []"
    with 1 v show False by (auto simp: MOOSChomp_def MOOSStrFind_def split: option.splits if_splits)
  qed
  then have "length v1 < length sVal" using MOOSChomp_shorter [of sVal "''${''" False] 1 by (metis snd_conv)
  with l2 show ?case by simp
qed

declare expand_loop.simps [simp del]

definition DoVariableExpansion :: "host \<Rightarrow> (string, string) omap \<Rightarrow> string \<Rightarrow> string" where
  "DoVariableExpansion h vars sVal = expand_loop h vars sVal []"

section \<open>Reading lines and values\<close>

definition GetNextValidLine :: "host \<Rightarrow> bool \<Rightarrow> file_reader \<Rightarrow> string \<times> file_reader" where
  "GetNextValidLine h bDoSubstitution R0 =
     (let R = GetFile h R0 in
      case r_File R of
        None \<Rightarrow> ([], R)
      | Some st \<Rightarrow>
          if f_eof st then ([], R)
          else (let (l0, st1) = read_line st;
                    (l1, st2) = skip_comments l0 st1;
                    l2 = cut_comment (unquote_line (r_bEnableVerbatimQuoting R) l1);
                    l3 = (if bDoSubstitution
                          then DoVariableExpansion h (r_LocalShellVariables R) l2 else l2)
                in (l3, R\<lparr>r_File := Some st2\<rparr>)))"

definition GetTokenValPair :: "string \<Rightarrow> bool \<Rightarrow> (string \<times> string) option" where
  "GetTokenValPair sLine bPreserveWhiteSpace =
     (if CHR ''='' \<in> set sLine
      then (let l = MOOSRemoveChars sLine [CHR 0x0D];
                l = (if bPreserveWhiteSpace then l else MOOSRemoveChars l [CHR '' '', CHR 0x09])
            in Some (MOOSChomp l ''='' False))
      else None)"

text \<open>\<open>while(!GetFile()->eof())\<close> around \<open>GetNextValidLine\<close>: the body returns what it carries
  to the next line or what the function returns.\<close>

partial_function (option) read_loop ::
  "host \<Rightarrow> bool \<Rightarrow> (string \<Rightarrow> 's \<Rightarrow> 's + 'r) \<Rightarrow> 's \<Rightarrow> file_reader \<Rightarrow> (('s + 'r) \<times> file_reader) option"
  where
  "read_loop h b body s R =
     (if reader_eof h R then Some (Inl s, GetFile h R)
      else (case body (fst (GetNextValidLine h b R)) s of
              Inl s' \<Rightarrow> read_loop h b body s' (snd (GetNextValidLine h b R))
            | Inr r \<Rightarrow> Some (Inr r, snd (GetNextValidLine h b R))))"

definition goto_body :: "string \<Rightarrow> string \<Rightarrow> unit \<Rightarrow> unit + unit" where
  "goto_body key l u =
     (if MOOSStrCmp (MOOSRemoveChars l [CHR '' '', CHR 0x09, CHR 0x0D]) key then Inr () else Inl ())"

definition GoTo :: "host \<Rightarrow> string \<Rightarrow> file_reader \<Rightarrow> (bool \<times> file_reader) option" where
  "GoTo h sLine R =
     (if IsOpen h R
      then map_option (\<lambda>(r, R'). (\<not> isl r, R'))
             (read_loop h True (goto_body (MOOSRemoveChars sLine [CHR '' '', CHR 0x09, CHR 0x0D])) () R)
      else Some (False, GetFile h R))"

definition value_body :: "string \<Rightarrow> string \<Rightarrow> unit \<Rightarrow> unit + string" where
  "value_body sName l u =
     (case GetTokenValPair l False of
        None \<Rightarrow> Inl ()
      | Some (sTok, sVal) \<Rightarrow> if MOOSStrCmp sTok sName then Inr sVal else Inl ())"

definition found :: "'s + 'r \<Rightarrow> 'r option" where
  "found x = (case x of Inl _ \<Rightarrow> None | Inr r \<Rightarrow> Some r)"

definition GetValue :: "host \<Rightarrow> string \<Rightarrow> file_reader \<Rightarrow> (string option \<times> file_reader) option" where
  "GetValue h sName R =
     (if IsOpen h R
      then map_option (\<lambda>(r, R'). (found r, R'))
             (read_loop h True (value_body sName) () (on_file h f_rewind (ResetFile h R)))
      else Some (None, GetFile h R))"

text \<open>The typed readers: what is found of the string, converted; \<open>None\<close> leaves the caller's
  variable as it was.\<close>

definition double_of :: "string \<Rightarrow> real option" where
  "double_of sTmp = (if MOOSIsNumeric sTmp then Some (atof sTmp) else None)"

definition int_of :: "string \<Rightarrow> int option" where
  "int_of sTmp = (if MOOSIsNumeric sTmp then Some (atoi sTmp) else None)"

definition bool_of :: "string \<Rightarrow> bool" where
  "bool_of sT \<longleftrightarrow> MOOSStrCmp sT ''TRUE'' \<or> (MOOSIsNumeric sT \<and> atof sT > 0)"

definition GetValue_as ::
  "(string \<Rightarrow> 'a option) \<Rightarrow> host \<Rightarrow> string \<Rightarrow> file_reader \<Rightarrow> ('a option \<times> file_reader) option" where
  "GetValue_as conv h sName R =
     map_option (\<lambda>(v, R'). (Option.bind v conv, R')) (GetValue h sName R)"

definition GetValue_double :: "host \<Rightarrow> string \<Rightarrow> file_reader \<Rightarrow> (real option \<times> file_reader) option" where
  "GetValue_double = GetValue_as double_of"

definition GetValue_int :: "host \<Rightarrow> string \<Rightarrow> file_reader \<Rightarrow> (int option \<times> file_reader) option" where
  "GetValue_int = GetValue_as int_of"

definition GetValue_bool :: "host \<Rightarrow> string \<Rightarrow> file_reader \<Rightarrow> (bool option \<times> file_reader) option" where
  "GetValue_bool = GetValue_as (\<lambda>s. Some (bool_of s))"

definition GetValue_unsigned :: "host \<Rightarrow> string \<Rightarrow> file_reader \<Rightarrow> (int option \<times> file_reader) option" where
  "GetValue_unsigned = GetValue_as (\<lambda>s. map_option (\<lambda>n. max n 0) (int_of s))"

section \<open>Choosing the file\<close>

definition shell_body :: "string \<Rightarrow> (string, string) omap \<Rightarrow> (string, string) omap + unit" where
  "shell_body l vars =
     (let l' = snd (MOOSChomp l ''define:'' False) in
      Inl (if l' = [] then vars
           else case GetTokenValPair l' False of
                  None \<Rightarrow> vars
                | Some (sVarName, sVarVal) \<Rightarrow> map_set sVarName sVarVal vars))"

definition BuildLocalShellVars :: "host \<Rightarrow> file_reader \<Rightarrow> (bool \<times> file_reader) option" where
  "BuildLocalShellVars h R =
     (if IsOpen h R
      then map_option
             (\<lambda>(r, R'). (True, ResetFile h (R'\<lparr>r_LocalShellVariables :=
                 (case r of Inl vars \<Rightarrow> vars | Inr _ \<Rightarrow> r_LocalShellVariables R')\<rparr>)))
             (read_loop h False shell_body (r_LocalShellVariables R)
                (on_file h f_rewind (ResetFile h R)))
      else Some (False, GetFile h R))"

definition SetFile :: "host \<Rightarrow> string \<Rightarrow> file_reader \<Rightarrow> (bool \<times> file_reader) option" where
  "SetFile h sFile R =
     (let R1 = R\<lparr>r_sFileName := sFile\<rparr> in
      if \<not> IsOpen h R1 then Some (False, GetFile h R1)
      else map_option (\<lambda>(_, R'). (True, R'))
             (BuildLocalShellVars h ((GetFile h R1)\<lparr>r_File := None\<rparr>)))"

section \<open>Copies with overloaded values\<close>

definition copy_line :: "(string, string) omap \<Rightarrow> string \<Rightarrow> string" where
  "copy_line OverLoads sLine =
     (let sTmp = MOOSTrimWhiteSpace sLine;
          ignoreLine = (sTmp = [] \<or> take 2 sTmp = ''//'')
      in case (if ignoreLine then None
               else Option.bind (GetTokenValPair sLine False)
                      (\<lambda>(sVarName, _). map_option (\<lambda>v. (sVarName, v)) (map_of OverLoads sVarName))) of
           None \<Rightarrow> sLine @ [newline]
         | Some (sVarName, v) \<Rightarrow>
             ''//----  Next Line was commented and replaced with a command line overload ---- //''
             @ [newline] @ ''//'' @ sLine @ ''    (default)'' @ [newline]
             @ sVarName @ '' = '' @ v @ [newline])"

partial_function (option) copy_loop ::
  "(string, string) omap \<Rightarrow> ifstream \<Rightarrow> string \<Rightarrow> (string \<times> ifstream) option" where
  "copy_loop OverLoads st out =
     (if f_eof st then Some (out, st)
      else (let (l, st') = f_getline MAXLINESIZE st in
            copy_loop OverLoads st'
              (out @ copy_line OverLoads (takeWhile (\<lambda>c. c \<noteq> CHR 0x00) l))))"

text \<open>What is written to the copy, \<open>None\<close> when it cannot be opened for writing.\<close>

definition MakeOverloadedCopy ::
  "host \<Rightarrow> bool \<Rightarrow> (string, string) omap \<Rightarrow> file_reader \<Rightarrow> (string option \<times> file_reader) option" where
  "MakeOverloadedCopy h bWritable OverLoads R =
     (if IsOpen h R \<and> bWritable
      then (let R1 = on_file h f_rewind (ResetFile h R) in
            case r_File R1 of
              None \<Rightarrow> Some (None, R1)
            | Some st \<Rightarrow>
                map_option (\<lambda>(out, st'). (Some out, ResetFile h (R1\<lparr>r_File := Some st'\<rparr>)))
                  (copy_loop OverLoads st []))
      else Some (None, GetFile h R))"

end
