(* ===== verification/Moos_Config.thy ===== *)
theory Moos_Config
  imports Moos_FileReader
begin

text \<open>
  The configuration reader of \<open>Utils/ProcessConfigReader.cpp\<close>: the block
  \<open>ProcessConfig = <application> { ... }\<close> of a mission file as a list of parameters, and the
  parameters of an application as strings, numbers and flags. An overload that fails leaves the
  caller's variable alone; it is \<open>None\<close> here. \<open>None\<close> around the whole is a call that never
  returns (\<open>Moos_FileReader\<close>).
\<close>

record config_reader =
  c_file :: file_reader
  c_sAppName :: string
  c_Audit :: "(string, string list) omap"

definition new_config_reader :: config_reader where
  "new_config_reader = \<lparr>c_file = new_file_reader, c_sAppName = [], c_Audit = []\<rparr>"

definition SetAppName :: "string \<Rightarrow> config_reader \<Rightarrow> config_reader" where
  "SetAppName sAppName C = C\<lparr>c_sAppName := sAppName\<rparr>"

definition SetConfigFile :: "host \<Rightarrow> string \<Rightarrow> config_reader \<Rightarrow> (bool \<times> config_reader) option" where
  "SetConfigFile h sFile C =
     map_option (\<lambda>(b, R). (b, C\<lparr>c_file := R\<rparr>)) (SetFile h sFile (c_file C))"

section \<open>Blocks\<close>

text \<open>One line of a block: what \<open>Params\<close> is then, or the end of the block.\<close>

definition has_bracket :: "string \<Rightarrow> bool" where
  "has_bracket s \<longleftrightarrow> CHR ''['' \<in> set s \<or> CHR '']'' \<in> set s"

definition space_body :: "string \<Rightarrow> string list \<Rightarrow> string list + string list" where
  "space_body l Params =
     (let sLine = MOOSTrimWhiteSpace l in
      if take 1 sLine = ''}'' then Inr Params
      else (let (sTok, sVal) = MOOSChomp sLine ''='' False;
                sTok = MOOSTrimWhiteSpace sTok; sVal = MOOSTrimWhiteSpace sVal
            in Inl (if sTok = [] then Params
                    else if sVal \<noteq> [] then Params @ [sTok @ ''='' @ sVal]
                    else if has_bracket sLine then Params @ [sLine]
                    else Params)))"

definition strip_body :: "string \<Rightarrow> string list \<Rightarrow> string list + string list" where
  "strip_body l Params =
     (let sLine = MOOSRemoveChars l [CHR '' '', CHR 0x09, CHR 0x0D] in
      if take 1 sLine = ''}'' then Inr Params
      else (let (sTok, sTmp) = MOOSChomp sLine ''='' False;
                sTok = MOOSTrimWhiteSpace sTok; sTmp = MOOSTrimWhiteSpace sTmp
            in Inl (if sTok = [] \<or> sTmp \<noteq> [] \<or> has_bracket sLine
                    then (sTok @ ''='' @ sTmp) # Params else Params)))"

text \<open>The two functions differ in the body of the loop: whether the block was found and closed,
  what is in \<open>Params\<close> then, and the reader.\<close>

definition read_block ::
  "(string \<Rightarrow> string list \<Rightarrow> string list + string list) \<Rightarrow> host \<Rightarrow> string \<Rightarrow> file_reader
   \<Rightarrow> (bool \<times> string list \<times> file_reader) option" where
  "read_block body h sAppName R =
     (case GoTo h (''PROCESSCONFIG='' @ sAppName) (ResetFile h R) of
        None \<Rightarrow> None
      | Some (False, R1) \<Rightarrow> Some (False, [], R1)
      | Some (True, R1) \<Rightarrow>
          (let (sBracket, R2) = GetNextValidLine h True R1 in
           if take 1 sBracket \<noteq> ''{'' then Some (False, [], R2)
           else map_option
                  (\<lambda>(r, R3). case r of Inl Params \<Rightarrow> (False, Params, R3)
                             | Inr Params \<Rightarrow> (True, Params, R3))
                  (read_loop h True body [] R2)))"

definition GetConfigurationAndPreserveSpace ::
  "host \<Rightarrow> string \<Rightarrow> config_reader \<Rightarrow> (bool \<times> string list \<times> config_reader) option" where
  "GetConfigurationAndPreserveSpace h sAppName C =
     map_option (\<lambda>(b, Params, R). (b, Params, C\<lparr>c_file := R\<rparr>))
       (read_block space_body h sAppName (c_file C))"

definition GetConfiguration ::
  "host \<Rightarrow> string \<Rightarrow> config_reader \<Rightarrow> (bool \<times> string list \<times> config_reader) option" where
  "GetConfiguration h sAppName C =
     map_option (\<lambda>(b, Params, R). (b, Params, C\<lparr>c_file := R\<rparr>))
       (read_block strip_body h sAppName (c_file C))"

section \<open>Parameters\<close>

text \<open>The search of \<open>GetConfigurationParam\<close> through the block.\<close>

fun find_param :: "string \<Rightarrow> string list \<Rightarrow> string option" where
  "find_param sParam [] = None"
| "find_param sParam (p # Params) =
     (let (sTok, sTmp) = MOOSChomp p ''='' False;
          sTok = MOOSTrimWhiteSpace sTok
      in if sTmp = [] then None
         else if MOOSStrCmp sTok sParam then Some (MOOSTrimWhiteSpace sTmp)
         else find_param sParam Params)"

definition audit :: "string \<Rightarrow> string \<Rightarrow> config_reader \<Rightarrow> config_reader" where
  "audit sAppName sParam C =
     C\<lparr>c_Audit := map_set sAppName
         (insort_insert (MOOSToLower sParam) (map_get [] (c_Audit C) sAppName)) (c_Audit C)\<rparr>"

definition GetConfigurationParam_of ::
  "host \<Rightarrow> string \<Rightarrow> string \<Rightarrow> config_reader \<Rightarrow> (string option \<times> config_reader) option" where
  "GetConfigurationParam_of h sAppName sParam C =
     map_option (\<lambda>(b, Params, C'). (if b then find_param sParam Params else None, C'))
       (GetConfigurationAndPreserveSpace h sAppName
          (audit sAppName sParam (C\<lparr>c_file := ResetFile h (c_file C)\<rparr>)))"

text \<open>The overloads without an application name, which need \<open>m_sAppName\<close>.\<close>

definition GetConfigurationParam ::
  "host \<Rightarrow> string \<Rightarrow> config_reader \<Rightarrow> (string option \<times> config_reader) option" where
  "GetConfigurationParam h sParam C =
     (if c_sAppName C \<noteq> [] then GetConfigurationParam_of h (c_sAppName C) sParam C
      else Some (None, C))"

text \<open>The types: a double must start with a digit or a minus sign, integers are whatever
  \<open>atoi\<close> makes of the text, unsigned ones modulo their width.\<close>

definition param_as ::
  "(string \<Rightarrow> 'a option) \<Rightarrow> (string option \<times> config_reader) option \<Rightarrow> ('a option \<times> config_reader) option"
  where
  "param_as conv x = map_option (\<lambda>(v, C). (Option.bind v conv, C)) x"

definition param_double :: "string \<Rightarrow> real option" where
  "param_double sTmp =
     (if sTmp \<noteq> [] \<and> (isdigit (hd sTmp) \<or> hd sTmp = CHR ''-'') then Some (atof sTmp) else None)"

definition GetConfigurationParam_double ::
  "host \<Rightarrow> string \<Rightarrow> config_reader \<Rightarrow> (real option \<times> config_reader) option" where
  "GetConfigurationParam_double h sParam C = param_as param_double (GetConfigurationParam h sParam C)"

definition GetConfigurationParam_bool ::
  "host \<Rightarrow> string \<Rightarrow> config_reader \<Rightarrow> (bool option \<times> config_reader) option" where
  "GetConfigurationParam_bool h sParam C =
     param_as (\<lambda>s. Some (bool_of s)) (GetConfigurationParam h sParam C)"

definition GetConfigurationParam_int ::
  "host \<Rightarrow> string \<Rightarrow> config_reader \<Rightarrow> (int option \<times> config_reader) option" where
  "GetConfigurationParam_int h sParam C =
     param_as (\<lambda>s. Some (atoi s)) (GetConfigurationParam h sParam C)"

definition GetConfigurationParam_unsigned ::
  "host \<Rightarrow> string \<Rightarrow> config_reader \<Rightarrow> (32 word option \<times> config_reader) option" where
  "GetConfigurationParam_unsigned h sParam C =
     param_as (\<lambda>s. Some (word_of_int (atoi s))) (GetConfigurationParam h sParam C)"

definition GetConfigurationParam_ushort ::
  "host \<Rightarrow> string \<Rightarrow> config_reader \<Rightarrow> (16 word option \<times> config_reader) option" where
  "GetConfigurationParam_ushort h sParam C =
     param_as (\<lambda>s. Some (word_of_int (atoi s))) (GetConfigurationParam h sParam C)"

definition GetConfigurationParam_of_double ::
  "host \<Rightarrow> string \<Rightarrow> string \<Rightarrow> config_reader \<Rightarrow> (real option \<times> config_reader) option" where
  "GetConfigurationParam_of_double h sAppName sParam C =
     param_as param_double (GetConfigurationParam_of h sAppName sParam C)"

definition GetConfigurationParam_of_bool ::
  "host \<Rightarrow> string \<Rightarrow> string \<Rightarrow> config_reader \<Rightarrow> (bool option \<times> config_reader) option" where
  "GetConfigurationParam_of_bool h sAppName sParam C =
     param_as (\<lambda>s. Some (bool_of s)) (GetConfigurationParam_of h sAppName sParam C)"

definition GetConfigurationParam_of_int ::
  "host \<Rightarrow> string \<Rightarrow> string \<Rightarrow> config_reader \<Rightarrow> (int option \<times> config_reader) option" where
  "GetConfigurationParam_of_int h sAppName sParam C =
     param_as (\<lambda>s. Some (atoi s)) (GetConfigurationParam_of h sAppName sParam C)"

definition GetSearchedParameters :: "string \<Rightarrow> config_reader \<Rightarrow> string list" where
  "GetSearchedParameters sAppName C = map_get [] (c_Audit C) sAppName"

end
