(* ===== verification/Moos_CommandLine.thy ===== *)
theory Moos_CommandLine
  imports Moos_Config
begin

text \<open>
  The command line, \<open>Utils/CommandLineParser.cpp\<close>. The arguments are parsed by the third-party
  class GetPot, which the record \<open>getpot\<close> stands for: which arguments are there
  (\<open>search\<close>), which variables \<open>name=value\<close> (\<open>get_variable_names\<close>), their values given a
  default (the call operator), what follows an option (\<open>follow\<close>) and the arguments without a
  minus sign. A variable of the caller that is read and set is an argument and a result.
\<close>

record getpot =
  gp_search :: "string \<Rightarrow> bool"
  gp_names :: "string list"
  gp_string :: "string \<Rightarrow> string \<Rightarrow> string"
  gp_real :: "string \<Rightarrow> real \<Rightarrow> real"
  gp_int :: "string \<Rightarrow> int \<Rightarrow> int"
  gp_follow_string :: "string \<Rightarrow> string \<Rightarrow> string"
  gp_follow_real :: "string \<Rightarrow> real \<Rightarrow> real"
  gp_follow_int :: "string \<Rightarrow> int \<Rightarrow> int"
  gp_nominus :: "string list"

text \<open>\<open>pcl_\<close>: absent until \<open>Open\<close>.\<close>

type_synonym command_line = "getpot option"

definition IsAvailable :: "command_line \<Rightarrow> bool" where
  "IsAvailable cl \<longleftrightarrow> cl \<noteq> None"

definition CommandLineVariableExists :: "string \<Rightarrow> command_line \<Rightarrow> bool" where
  "CommandLineVariableExists sVar cl \<longleftrightarrow> (case cl of None \<Rightarrow> False | Some g \<Rightarrow> sVar \<in> set (gp_names g))"

definition GetFlag :: "string \<Rightarrow> string \<Rightarrow> command_line \<Rightarrow> bool" where
  "GetFlag flag alternative cl \<longleftrightarrow>
     (case cl of None \<Rightarrow> False
      | Some g \<Rightarrow> if alternative = [] then gp_search g flag
                 else gp_search g flag \<or> gp_search g alternative)"

text \<open>\<open>GetOption\<close>: whether the option was there, and the variable.\<close>

definition get_option :: "(getpot \<Rightarrow> string \<Rightarrow> 'a \<Rightarrow> 'a) \<Rightarrow> string \<Rightarrow> 'a \<Rightarrow> command_line \<Rightarrow> bool \<times> 'a" where
  "get_option follow option result cl =
     (case cl of None \<Rightarrow> (False, result)
      | Some g \<Rightarrow> if \<not> gp_search g option then (False, result) else (True, follow g option result))"

definition GetOption_double :: "string \<Rightarrow> real \<Rightarrow> command_line \<Rightarrow> bool \<times> real" where
  "GetOption_double = get_option gp_follow_real"

definition GetOption_string :: "string \<Rightarrow> string \<Rightarrow> command_line \<Rightarrow> bool \<times> string" where
  "GetOption_string = get_option gp_follow_string"

definition GetOption_int :: "string \<Rightarrow> int \<Rightarrow> command_line \<Rightarrow> bool \<times> int" where
  "GetOption_int = get_option gp_follow_int"

definition GetOption_unsigned :: "string \<Rightarrow> int \<Rightarrow> command_line \<Rightarrow> bool \<times> int" where
  "GetOption_unsigned option result cl =
     (case get_option gp_follow_int option result cl of
        (b, sr) \<Rightarrow> if b \<and> 0 \<le> sr then (True, sr) else (False, result))"

text \<open>\<open>GetVariable\<close>: whether the variable was there, and the caller's variable. The unsigned
  reader goes through an \<open>int\<close> and refuses a negative one.\<close>

definition get_variable :: "(getpot \<Rightarrow> string \<Rightarrow> 'a \<Rightarrow> 'a) \<Rightarrow> string \<Rightarrow> 'a \<Rightarrow> command_line \<Rightarrow> bool \<times> 'a" where
  "get_variable val var result cl =
     (case cl of None \<Rightarrow> (False, result)
      | Some g \<Rightarrow> if \<not> CommandLineVariableExists var cl then (False, result) else (True, val g var result))"

definition GetVariable_double :: "string \<Rightarrow> real \<Rightarrow> command_line \<Rightarrow> bool \<times> real" where
  "GetVariable_double = get_variable gp_real"

definition GetVariable_string :: "string \<Rightarrow> string \<Rightarrow> command_line \<Rightarrow> bool \<times> string" where
  "GetVariable_string = get_variable gp_string"

definition GetVariable_int :: "string \<Rightarrow> int \<Rightarrow> command_line \<Rightarrow> bool \<times> int" where
  "GetVariable_int = get_variable gp_int"

definition GetVariable_unsigned :: "string \<Rightarrow> int \<Rightarrow> command_line \<Rightarrow> bool \<times> int" where
  "GetVariable_unsigned var result cl =
     (case get_variable gp_int var result cl of
        (b, sr) \<Rightarrow> if b \<and> 0 \<le> sr then (True, sr) else (False, result))"

text \<open>A variable whose value is none of the spellings of true leaves \<open>result\<close> as it was.\<close>

definition GetVariable_bool :: "string \<Rightarrow> bool \<Rightarrow> command_line \<Rightarrow> bool \<times> bool" where
  "GetVariable_bool var result cl =
     (case GetVariable_string var [] cl of
        (True, sT) \<Rightarrow> (True, if sT \<in> {''true'', ''1'', ''True''} then True else result)
      | (False, _) \<Rightarrow> if GetFlag var [] cl then (True, True) else (False, False))"

definition GetFreeParameters :: "command_line \<Rightarrow> string list option" where
  "GetFreeParameters cl = map_option gp_nominus cl"

definition GetFreeParameter :: "nat \<Rightarrow> string \<Rightarrow> command_line \<Rightarrow> string" where
  "GetFreeParameter ndx default_value cl =
     (let free_params = (case GetFreeParameters cl of None \<Rightarrow> [] | Some l \<Rightarrow> l)
      in if ndx < length free_params then free_params ! ndx else default_value)"

end
