(* ===== verification/Moos_Variable.thy ===== *)
theory Moos_Variable
  imports Moos_Msg
begin

text \<open>
  \<open>CMOOSVariable\<close> (\<open>Comms/MOOSVariable.cpp\<close>): the latest value of something an application
  publishes or subscribes to, and whether it is fresh. \<open>GetAsString\<close> (which pads with the
  stream's formats) is left out.
\<close>

record moos_variable =
  v_dfVal :: real
  v_sVal :: string
  v_bDouble :: bool
  v_bFresh :: bool
  v_dfTimeWritten :: real
  v_dfCommsTime :: real
  v_sName :: string
  v_sSrc :: string
  v_sSubscribeName :: string
  v_sPublishName :: string

definition new_variable :: "string \<Rightarrow> string \<Rightarrow> string \<Rightarrow> real \<Rightarrow> moos_variable" where
  "new_variable sName sSubscribe sPublish dfCommsTime =
     \<lparr>v_dfVal = 0, v_sVal = [], v_bDouble = False, v_bFresh = False, v_dfTimeWritten = -1,
      v_dfCommsTime = dfCommsTime, v_sName = sName, v_sSrc = [], v_sSubscribeName = sSubscribe,
      v_sPublishName = sPublish\<rparr>"

definition SetVarDouble :: "real \<Rightarrow> real \<Rightarrow> moos_variable \<Rightarrow> moos_variable" where
  "SetVarDouble dfVal dfTime v =
     v\<lparr>v_dfVal := dfVal, v_dfTimeWritten := dfTime, v_bDouble := True, v_bFresh := True\<rparr>"

definition SetVarString :: "string \<Rightarrow> real \<Rightarrow> moos_variable \<Rightarrow> moos_variable" where
  "SetVarString sVal dfTime v =
     v\<lparr>v_sVal := sVal, v_dfTimeWritten := dfTime, v_bDouble := False, v_bFresh := True\<rparr>"

text \<open>\<open>Set(const CMOOSMsg &)\<close> takes over the name of the message as well.\<close>

definition SetVarMsg :: "moos_msg \<Rightarrow> moos_variable \<Rightarrow> moos_variable" where
  "SetVarMsg Msg v =
     (let v = (if m_cDataType Msg = MOOS_DOUBLE then v\<lparr>v_bDouble := True, v_dfVal := m_dfVal Msg\<rparr>
               else if m_cDataType Msg = MOOS_STRING \<or> m_cDataType Msg = MOOS_BINARY_STRING
               then v\<lparr>v_bDouble := False, v_sVal := m_sVal Msg\<rparr> else v)
      in v\<lparr>v_dfTimeWritten := m_dfTime Msg, v_sName := m_sKey Msg, v_sSrc := m_sSrc Msg,
           v_bFresh := True\<rparr>)"

definition SetFresh :: "bool \<Rightarrow> moos_variable \<Rightarrow> moos_variable" where
  "SetFresh bFresh v = v\<lparr>v_bFresh := bFresh\<rparr>"

definition VarAge :: "real \<Rightarrow> moos_variable \<Rightarrow> real" where
  "VarAge dfTimeNow v = dfTimeNow - v_dfTimeWritten v"

end
