(* ===== verification/Moos_Sleeper.thy ===== *)
theory Moos_Sleeper
  imports Moos_WildCmp
begin

text \<open>
  \<open>SuicidalSleeper\<close> (\<open>Comms/SuicidalSleeper.cpp\<close>): an application listens on a multicast
  channel for instructions \<open>action:phrase:pattern\<close> and ends itself when it is told to with the
  right phrase and a pattern that its name matches. What is multicast back is the result; the
  process identifier, address and last words it mentions are arguments.
\<close>

record sleeper =
  z_name :: string
  z_pass_phrase :: string
  z_channel :: string
  z_port :: int
  z_running :: bool

definition new_sleeper :: sleeper where
  "new_sleeper = \<lparr>z_name = [], z_pass_phrase = ''elks have been know to waltz'',
     z_channel = ''224.1.1.3'', z_port = 4000, z_running = False\<rparr>"

datatype sleeper_action = Ignore | WouldDie string | Dies "string list"

text \<open>One message: what \<open>Work\<close> does about it. \<open>header\<close> is the formatted text naming the process,
  \<open>last_words\<close> what the callback of the application says, if there is one and it succeeds.\<close>

definition sleeper_work :: "string \<Rightarrow> string option \<Rightarrow> sleeper \<Rightarrow> string \<Rightarrow> sleeper_action" where
  "sleeper_work header last_words z msg =
     (let (Action, msg) = MOOSChomp msg '':'' False;
          (Phrase, msg) = MOOSChomp msg '':'' False;
          AppPattern = fst (MOOSChomp msg [CHR 0x0A] False)
      in if Phrase \<noteq> z_pass_phrase z \<or> \<not> MOOSWildCmp AppPattern (z_name z) then Ignore
         else if Action = ''?'' then WouldDie (header @ '' would die'' @ [CHR 0x0A])
         else if Action = ''K''
         then Dies ((header @ '' is committing suicide'' @ [CHR 0x0A])
                # (case last_words of None \<Rightarrow> []
                   | Some w \<Rightarrow> [header @ '' last words are '' @ [CHR 0x22] @ w @ [CHR 0x22, CHR 0x0A]]))
         else Ignore)"

end
