(* ===== verification/Moos_App.thy ===== *)
theory Moos_App
  imports Moos_AsyncProperties Moos_CommandLine Moos_Variable Moos_Sleeper
    "HOL-Library.Monad_Syntax"
begin

text \<open>
  The application class \<open>CMOOSApp\<close> (\<open>App/MOOSApp.cpp\<close>): what it reads from the command line and
  the mission file, how it starts its communications, its variables, and the main loop that
  sleeps, fetches the mail, hands it to the application and iterates.

  \<^item> The state is the record \<open>app\<close>; \<open>p_user\<close> is the state of the derived class and the record
    \<open>hooks\<close> its virtual functions, arbitrary functions of the whole state.
  \<^item> \<open>m_Comms\<close> is the asynchronous client of \<open>Moos_Async\<close>, the mission reader the one of
    \<open>Moos_Config\<close>; \<open>None\<close> is a call that never returns, as there.
  \<^item> \<open>env\<close>: files and environment variables, and what uninitialised local variables hold.
  \<^item> The clock, the wake-ups of the mail event and what the communication threads do while the
    application sleeps are arguments of the turn (\<open>turn\<close>).
  \<^item> The time warp and the time skew are globals of the process; here they are fields.
\<close>

section \<open>State\<close>

datatype iterate_mode = REGULAR_ITERATE_AND_MAIL | COMMS_DRIVEN_ITERATE_AND_MAIL
  | REGULAR_ITERATE_AND_COMMS_DRIVEN_MAIL

record 'u app =
  p_dfFreq :: real
  p_nCommsFreq :: int
  p_dfMaxAppTick :: real
  p_IterationMode :: iterate_mode
  p_nIterateCount :: int
  p_nMailCount :: int
  p_sServerHost :: string
  p_lServerPort :: int
  p_bServerSet :: bool
  p_bSimMode :: bool
  p_bQuiet :: bool
  p_bUseMOOSComms :: bool
  p_dfAppStartTime :: real
  p_dfLastRunTime :: real
  p_dfLastStatusTime :: real
  p_bCommandMessageFiltering :: bool
  p_bSortMailByTime :: bool
  p_bAppError :: bool
  p_sAppError :: string
  p_bQuitOnIterateFail :: bool
  p_bQuitRequested :: bool
  p_bIterateWithoutComms :: bool
  p_sAppName :: string
  p_sMOOSName :: string
  p_sMissionFile :: string
  p_MissionReader :: config_reader
  p_CommandLine :: command_line
  p_Comms :: aclient
  p_bMailCallBack :: bool
  p_MOOSVars :: "(string, moos_variable) omap"
  p_Sleeper :: sleeper
  p_dfTimeWarp :: real
  p_dfTimeWarpScale :: real
  p_user :: 'u

record env =
  e_host :: host
  e_junk_real :: real
  e_junk_int :: int

definition DEFAULT_MOOS_APP_FREQ :: real where "DEFAULT_MOOS_APP_FREQ = 5"
definition DEFAULT_MOOS_APP_COMMS_FREQ :: int where "DEFAULT_MOOS_APP_COMMS_FREQ = 5"
definition MOOS_MAX_APP_FREQ :: real where "MOOS_MAX_APP_FREQ = 100"
definition MOOS_MAX_COMMS_FREQ :: int where "MOOS_MAX_COMMS_FREQ = 200"
definition STATUS_PERIOD :: real where "STATUS_PERIOD = 2"
definition MAX_TIME_WARP :: real where "MAX_TIME_WARP = 400"
definition MAX_TIME_WARP_AGGLOMERATION_CONSTANT :: real where
  "MAX_TIME_WARP_AGGLOMERATION_CONSTANT = 10"

text \<open>The constructor; the members it leaves alone (host, port, names) are as if empty.\<close>

definition new_app :: "'u \<Rightarrow> 'u app" where
  "new_app u =
     \<lparr>p_dfFreq = DEFAULT_MOOS_APP_FREQ, p_nCommsFreq = DEFAULT_MOOS_APP_COMMS_FREQ,
      p_dfMaxAppTick = DEFAULT_MOOS_APP_FREQ, p_IterationMode = REGULAR_ITERATE_AND_MAIL,
      p_nIterateCount = 0, p_nMailCount = 0, p_sServerHost = [], p_lServerPort = 0,
      p_bServerSet = False, p_bSimMode = False, p_bQuiet = False, p_bUseMOOSComms = True,
      p_dfAppStartTime = -1, p_dfLastRunTime = -1, p_dfLastStatusTime = -1,
      p_bCommandMessageFiltering = False, p_bSortMailByTime = True, p_bAppError = False,
      p_sAppError = [], p_bQuitOnIterateFail = False, p_bQuitRequested = False,
      p_bIterateWithoutComms = False, p_sAppName = [], p_sMOOSName = [], p_sMissionFile = [],
      p_MissionReader = new_config_reader, p_CommandLine = None, p_Comms = new_aclient,
      p_bMailCallBack = True, p_MOOSVars = [], p_Sleeper = new_sleeper, p_dfTimeWarp = 1,
      p_dfTimeWarpScale = 1 / 5, p_user = u\<rparr>"

section \<open>Talking to the client\<close>

text \<open>An operation of the client that posts through the asynchronous \<open>Post\<close>.\<close>

definition on_comms :: "(client \<Rightarrow> bool \<times> client) \<Rightarrow> 'u app \<Rightarrow> bool \<times> 'u app" where
  "on_comms f A = (let (b, a) = via_AsyncPost f (p_Comms A) in (b, A\<lparr>p_Comms := a\<rparr>))"

definition AppNotifyDouble :: "string \<Rightarrow> real \<Rightarrow> string \<Rightarrow> real \<Rightarrow> real \<Rightarrow> 'u app \<Rightarrow> bool \<times> 'u app" where
  "AppNotifyDouble sVar dfVal sSrcAux dfTime now = on_comms (NotifyDouble sVar dfVal sSrcAux dfTime now)"

definition AppNotifyString :: "string \<Rightarrow> string \<Rightarrow> string \<Rightarrow> real \<Rightarrow> real \<Rightarrow> 'u app \<Rightarrow> bool \<times> 'u app" where
  "AppNotifyString sVar sVal sSrcAux dfTime now = on_comms (NotifyString sVar sVal sSrcAux dfTime now)"

definition AppNotifyBinary :: "string \<Rightarrow> string \<Rightarrow> real \<Rightarrow> real \<Rightarrow> 'u app \<Rightarrow> bool \<times> 'u app" where
  "AppNotifyBinary sVar sData dfTime now = on_comms (NotifyBinary sVar sData dfTime now)"

definition AppRegister :: "string \<Rightarrow> real \<Rightarrow> real \<Rightarrow> 'u app \<Rightarrow> bool \<times> 'u app" where
  "AppRegister sVar dfInterval now = on_comms (RegisterVar sVar dfInterval now)"

definition AppRegisterPattern :: "string \<Rightarrow> string \<Rightarrow> real \<Rightarrow> real \<Rightarrow> 'u app \<Rightarrow> bool \<times> 'u app" where
  "AppRegisterPattern sVarPattern sAppPattern dfInterval now =
     on_comms (RegisterPattern sVarPattern sAppPattern dfInterval now)"

definition AppUnRegister :: "string \<Rightarrow> real \<Rightarrow> 'u app \<Rightarrow> bool \<times> 'u app" where
  "AppUnRegister sVar now = on_comms (UnRegisterVar sVar now)"

text \<open>The base class of the client without posting: fetching, queues.\<close>

definition on_base :: "(client \<Rightarrow> 'a \<times> client) \<Rightarrow> 'u app \<Rightarrow> 'a \<times> 'u app" where
  "on_base f A =
     (let (x, c) = f (a_Base (p_Comms A)) in (x, A\<lparr>p_Comms := (p_Comms A)\<lparr>a_Base := c\<rparr>\<rparr>))"

definition AppHasQueue :: "string \<Rightarrow> 'u app \<Rightarrow> bool" where
  "AppHasQueue sQueueName A = HasActiveQueue sQueueName (a_Base (p_Comms A))"

text \<open>The two overloads of \<open>AddMessageRouteToActiveQueue\<close>: without and with a callback to make the
  queue with. The callback itself is the consumer of the queue and no part of the state.\<close>

definition AppRouteToQueue :: "string \<Rightarrow> string \<Rightarrow> 'u app \<Rightarrow> bool \<times> 'u app" where
  "AppRouteToQueue sQueueName sMsgName A =
     (if \<not> AppHasQueue sQueueName A then (False, A)
      else on_base (AddMessageRouteToActiveQueue sQueueName sMsgName) A)"

definition AppAddRouteWithQueue :: "string \<Rightarrow> string \<Rightarrow> 'u app \<Rightarrow> bool \<times> 'u app" where
  "AppAddRouteWithQueue sQueueName sMsgName A =
     (let A = (if \<not> AppHasQueue sQueueName A then snd (on_base (AddActiveQueue sQueueName) A) else A)
      in on_base (AddMessageRouteToActiveQueue sQueueName sMsgName) A)"

definition AddMessageRouteToOnMessage :: "string \<Rightarrow> 'u app \<Rightarrow> bool \<times> 'u app" where
  "AddMessageRouteToOnMessage sMsgName = AppAddRouteWithQueue (sMsgName @ ''_CB'') sMsgName"

text \<open>\<open>WaitForEmptyOutbox\<close> sleeps as long as this holds.\<close>

definition HasUnsent :: "'u app \<Rightarrow> bool" where
  "HasUnsent A \<longleftrightarrow> c_OutBox (a_Base (p_Comms A)) \<noteq> []"

section \<open>Small settings\<close>

definition AppSetQuiet :: "bool \<Rightarrow> 'u app \<Rightarrow> 'u app" where
  "AppSetQuiet bQ A = A\<lparr>p_bQuiet := bQ\<rparr>"

definition SetMOOSTimeWarp :: "real \<Rightarrow> 'u app \<Rightarrow> bool \<times> 'u app" where
  "SetMOOSTimeWarp dfWarp A =
     (if dfWarp > 0 \<and> dfWarp \<le> MAX_TIME_WARP then (True, A\<lparr>p_dfTimeWarp := dfWarp\<rparr>) else (False, A))"

definition SetCommsControlTimeWarpScaleFactor :: "real \<Rightarrow> 'u app \<Rightarrow> bool \<times> 'u app" where
  "SetCommsControlTimeWarpScaleFactor dfSF A =
     (if dfSF < 0 \<or> dfSF > MAX_TIME_WARP_AGGLOMERATION_CONSTANT then (False, A)
      else (True, A\<lparr>p_dfTimeWarpScale := dfSF\<rparr>))"

text \<open>The client is asynchronous, so every mode is accepted.\<close>

definition SetIterateMode :: "iterate_mode \<Rightarrow> 'u app \<Rightarrow> bool \<times> 'u app" where
  "SetIterateMode Mode A = (True, A\<lparr>p_IterationMode := Mode\<rparr>)"

definition SetAppFreq :: "real \<Rightarrow> real \<Rightarrow> 'u app \<Rightarrow> 'u app" where
  "SetAppFreq dfFreq dfMaxFreq A =
     (let A = (if p_dfFreq A \<le> MOOS_MAX_APP_FREQ then A\<lparr>p_dfFreq := dfFreq\<rparr> else A)
      in if dfMaxFreq \<ge> 0 then A\<lparr>p_dfMaxAppTick := dfMaxFreq\<rparr> else A)"

definition SetCommsFreq :: "int \<Rightarrow> 'u app \<Rightarrow> bool \<times> 'u app" where
  "SetCommsFreq nFreq A =
     (if nFreq \<le> MOOS_MAX_COMMS_FREQ
      then on_base (SetCommsTick nFreq) (A\<lparr>p_nCommsFreq := nFreq\<rparr>) else (False, A))"

definition SetServer :: "string \<Rightarrow> int \<Rightarrow> 'u app \<Rightarrow> 'u app" where
  "SetServer sServerHost lPort A =
     A\<lparr>p_sServerHost := sServerHost, p_lServerPort := lPort, p_bServerSet := True\<rparr>"

definition CheckSetUp :: "'u app \<Rightarrow> bool" where
  "CheckSetUp A \<longleftrightarrow> p_sServerHost A \<noteq> [] \<and> p_lServerPort A \<noteq> 0"

definition SetAppError :: "bool \<Rightarrow> string \<Rightarrow> 'u app \<Rightarrow> 'u app" where
  "SetAppError bErr sErr A = A\<lparr>p_bAppError := bErr, p_sAppError := (if bErr then sErr else [])\<rparr>"

definition RequestQuit :: "'u app \<Rightarrow> 'u app" where
  "RequestQuit A = A\<lparr>p_bQuitRequested := True\<rparr>"

definition EnableIterateWithoutComms :: "bool \<Rightarrow> 'u app \<Rightarrow> 'u app" where
  "EnableIterateWithoutComms bEnable A = A\<lparr>p_bIterateWithoutComms := bEnable\<rparr>"

definition UseMOOSComms :: "bool \<Rightarrow> 'u app \<Rightarrow> 'u app" where
  "UseMOOSComms bUse A = A\<lparr>p_bUseMOOSComms := bUse\<rparr>"

definition GetCommandKey :: "'u app \<Rightarrow> string" where
  "GetCommandKey A = MOOSToUpper (p_sAppName A @ ''_CMD'')"

definition EnableCommandMessageFiltering :: "bool \<Rightarrow> real \<Rightarrow> 'u app \<Rightarrow> 'u app" where
  "EnableCommandMessageFiltering bEnable now A =
     (let A = A\<lparr>p_bCommandMessageFiltering := bEnable\<rparr>
      in if bEnable then snd (AppRegister (GetCommandKey A) 0 now A)
         else snd (AppUnRegister (GetCommandKey A) now A))"

section \<open>Settings from the command line and the mission file\<close>

definition cfg ::
  "(config_reader \<Rightarrow> ('a \<times> config_reader) option) \<Rightarrow> 'u app \<Rightarrow> ('a \<times> 'u app) option" where
  "cfg f A = map_option (\<lambda>(v, C). (v, A\<lparr>p_MissionReader := C\<rparr>)) (f (p_MissionReader A))"

text \<open>A question to the file reader part of \<open>m_MissionReader\<close>.\<close>

definition global ::
  "(file_reader \<Rightarrow> ('a \<times> file_reader) option) \<Rightarrow> config_reader \<Rightarrow> ('a \<times> config_reader) option" where
  "global f C = map_option (\<lambda>(v, R). (v, C\<lparr>c_file := R\<rparr>)) (f (c_file C))"

definition GetFlagFromCommandLineOrConfigurationFile ::
  "env \<Rightarrow> string \<Rightarrow> 'u app \<Rightarrow> (bool \<times> 'u app) option" where
  "GetFlagFromCommandLineOrConfigurationFile E sOption A = do {
     (bF, A) \<leftarrow> cfg (GetConfigurationParam_bool (e_host E) sOption) A;
     Some (if GetFlag (''--'' @ sOption) [] (p_CommandLine A) then True
           else case bF of Some bFlag \<Rightarrow> bFlag | None \<Rightarrow> False, A) }"

text \<open>\<open>GetParameterFromCommandLineOrConfigurationFile\<close> for one type: its reader in the file, its
  reader on the command line and what the local variable holds before. \<open>None\<close> leaves the
  caller's variable alone.\<close>

definition get_parameter ::
  "(host \<Rightarrow> string \<Rightarrow> config_reader \<Rightarrow> ('a option \<times> config_reader) option)
   \<Rightarrow> (string \<Rightarrow> 'a \<Rightarrow> command_line \<Rightarrow> bool \<times> 'a) \<Rightarrow> 'a
   \<Rightarrow> env \<Rightarrow> string \<Rightarrow> 'u app \<Rightarrow> ('a option \<times> 'u app) option" where
  "get_parameter file cmd vC0 E sOption A = do {
     (vF, A) \<leftarrow> cfg (file (e_host E) sOption) A;
     Some (case cmd (''--'' @ sOption) vC0 (p_CommandLine A) of
             (True, vC) \<Rightarrow> Some vC | (False, _) \<Rightarrow> vF, A) }"

definition GetParameter_string :: "env \<Rightarrow> string \<Rightarrow> 'u app \<Rightarrow> (string option \<times> 'u app) option" where
  "GetParameter_string = get_parameter GetConfigurationParam GetVariable_string []"

definition GetParameter_double :: "env \<Rightarrow> string \<Rightarrow> 'u app \<Rightarrow> (real option \<times> 'u app) option" where
  "GetParameter_double E = get_parameter GetConfigurationParam_double GetVariable_double (e_junk_real E) E"

definition GetParameter_int :: "env \<Rightarrow> string \<Rightarrow> 'u app \<Rightarrow> (int option \<times> 'u app) option" where
  "GetParameter_int E = get_parameter GetConfigurationParam_int GetVariable_int (e_junk_int E) E"

definition file_unsigned ::
  "host \<Rightarrow> string \<Rightarrow> config_reader \<Rightarrow> (int option \<times> config_reader) option" where
  "file_unsigned h sParam C =
     map_option (\<lambda>(v, C). (map_option uint v, C)) (GetConfigurationParam_unsigned h sParam C)"

definition GetParameter_unsigned :: "env \<Rightarrow> string \<Rightarrow> 'u app \<Rightarrow> (int option \<times> 'u app) option" where
  "GetParameter_unsigned E = get_parameter file_unsigned GetVariable_unsigned (e_junk_int E) E"

definition keep :: "'a \<Rightarrow> 'a option \<Rightarrow> 'a" where
  "keep x v = (case v of None \<Rightarrow> x | Some y \<Rightarrow> y)"

definition mode_of :: "int \<Rightarrow> iterate_mode" where
  "mode_of nMode = (if nMode = 1 then COMMS_DRIVEN_ITERATE_AND_MAIL
     else if nMode = 2 then REGULAR_ITERATE_AND_COMMS_DRIVEN_MAIL else REGULAR_ITERATE_AND_MAIL)"

text \<open>\<open>Configure\<close>, in the order of the code: first the flags and the sleeper, with the mission
  file opened after \<open>moos_quiet\<close> was looked up.\<close>

definition configure_sleeper :: "env \<Rightarrow> 'u app \<Rightarrow> 'u app option" where
  "configure_sleeper E A = do {
     (v, A) \<leftarrow> GetParameter_string E ''moos_suicide_channel'' A;
     let A = A\<lparr>p_Sleeper := (p_Sleeper A)\<lparr>z_channel := keep (z_channel (p_Sleeper A)) v\<rparr>\<rparr>;
     (v, A) \<leftarrow> GetParameter_int E ''moos_suicide_port'' A;
     let A = A\<lparr>p_Sleeper := (p_Sleeper A)\<lparr>z_port := keep (z_port (p_Sleeper A)) v\<rparr>\<rparr>;
     (v, A) \<leftarrow> GetParameter_string E ''moos_suicide_phrase'' A;
     let A = A\<lparr>p_Sleeper := (p_Sleeper A)\<lparr>z_pass_phrase := keep (z_pass_phrase (p_Sleeper A)) v\<rparr>\<rparr>;
     (b, A) \<leftarrow> GetFlagFromCommandLineOrConfigurationFile E ''moos_suicide_print'' A;
     (b, A) \<leftarrow> GetFlagFromCommandLineOrConfigurationFile E ''moos_suicide_disable'' A;
     Some (if b then A
           else A\<lparr>p_Sleeper := (p_Sleeper A)\<lparr>z_name := p_sAppName A, z_running := True\<rparr>\<rparr>) }"

definition configure_files :: "env \<Rightarrow> 'u app \<Rightarrow> 'u app option" where
  "configure_files E A = do {
     (b, A) \<leftarrow> GetFlagFromCommandLineOrConfigurationFile E ''moos_quiet'' A;
     let A = AppSetQuiet (b \<or> p_bQuiet A) A;
     (b, A) \<leftarrow> cfg (SetConfigFile (e_host E) (c_str (p_sMissionFile A))) A;
     (b, A) \<leftarrow> GetFlagFromCommandLineOrConfigurationFile E ''moos_iterate_no_comms'' A;
     Some (EnableIterateWithoutComms b A) }"

definition configure_time :: "env \<Rightarrow> 'u app \<Rightarrow> 'u app option" where
  "configure_time E A = do {
     (v, A) \<leftarrow> GetParameter_double E ''moos_time_warp'' A;
     (v, A) \<leftarrow> (case v of Some w \<Rightarrow> Some (Some w, A)
                 | None \<Rightarrow> cfg (global (GetValue_double (e_host E) ''MOOSTimeWarp'')) A);
     let A = (case v of None \<Rightarrow> A | Some w \<Rightarrow> snd (SetMOOSTimeWarp w A));
     (v, A) \<leftarrow> GetParameter_double E ''moos_tw_delay_factor'' A;
     Some (case v of None \<Rightarrow> A | Some w \<Rightarrow> snd (SetCommsControlTimeWarpScaleFactor w A)) }"

definition configure_flags :: "env \<Rightarrow> 'u app \<Rightarrow> 'u app option" where
  "configure_flags E A = do {
     (b, A) \<leftarrow> GetFlagFromCommandLineOrConfigurationFile E ''moos_no_comms'' A;
     let A = (if b then A\<lparr>p_bUseMOOSComms := False\<rparr> else A);
     (v, A) \<leftarrow> cfg (global (GetValue_bool (e_host E) ''UseMOOSComms'')) A;
     let A = A\<lparr>p_bUseMOOSComms := keep (p_bUseMOOSComms A) v, p_bSortMailByTime := True\<rparr>;
     (b, A) \<leftarrow> GetFlagFromCommandLineOrConfigurationFile E ''moos_no_sort_mail'' A;
     let A = (if b then A\<lparr>p_bSortMailByTime := False\<rparr> else A);
     (v, A) \<leftarrow> cfg (GetConfigurationParam_bool (e_host E) ''SortMailByTime'') A;
     let A = A\<lparr>p_bSortMailByTime := keep (p_bSortMailByTime A) v\<rparr>;
     (b, A) \<leftarrow> GetFlagFromCommandLineOrConfigurationFile E ''moos_quit_on_iterate_fail'' A;
     Some (if b then A\<lparr>p_bQuitOnIterateFail := True\<rparr> else A) }"

definition configure_tick :: "env \<Rightarrow> 'u app \<Rightarrow> 'u app option" where
  "configure_tick E A = do {
     (v, A) \<leftarrow> GetParameter_double E ''moos_app_tick'' A;
     let A = A\<lparr>p_dfFreq := keep (p_dfFreq A) v\<rparr>;
     (v, A) \<leftarrow> cfg (GetConfigurationParam_double (e_host E) ''APPTICK'') A;
     Some (A\<lparr>p_dfFreq := keep (p_dfFreq A) v\<rparr>) }"

definition configure_max_tick :: "env \<Rightarrow> 'u app \<Rightarrow> 'u app option" where
  "configure_max_tick E A = do {
     (v, A) \<leftarrow> GetParameter_double E ''moos_max_app_tick'' A;
     let A = A\<lparr>p_dfMaxAppTick := keep (p_dfMaxAppTick A) v\<rparr>;
     (v, A) \<leftarrow> cfg (GetConfigurationParam_double (e_host E) ''MAXAPPTICK'') A;
     Some (A\<lparr>p_dfMaxAppTick := keep (p_dfMaxAppTick A) v\<rparr>) }"

definition configure_mode :: "env \<Rightarrow> 'u app \<Rightarrow> 'u app option" where
  "configure_mode E A = do {
     (v, A) \<leftarrow> GetParameter_unsigned E ''moos_iterate_mode'' A;
     (v', A) \<leftarrow> cfg (file_unsigned (e_host E) ''ITERATEMODE'') A;
     Some (snd (SetIterateMode (mode_of (keep (keep 0 v) v')) A)) }"

definition configure_filter :: "env \<Rightarrow> 'u app \<Rightarrow> 'u app option" where
  "configure_filter E A = do {
     (b, A) \<leftarrow> GetFlagFromCommandLineOrConfigurationFile E ''moos_filter_command'' A;
     let A = (if b then A\<lparr>p_bCommandMessageFiltering := True\<rparr> else A);
     (v, A) \<leftarrow> cfg (GetConfigurationParam_bool (e_host E) ''CatchCommandMessages'') A;
     Some (A\<lparr>p_bCommandMessageFiltering := keep (p_bCommandMessageFiltering A) v\<rparr>) }"

definition Configure :: "env \<Rightarrow> 'u app \<Rightarrow> 'u app option" where
  "Configure E A = do {
     A \<leftarrow> configure_files E A;
     A \<leftarrow> configure_sleeper E A;
     A \<leftarrow> configure_time E A;
     A \<leftarrow> configure_flags E A;
     A \<leftarrow> configure_tick E A;
     A \<leftarrow> configure_max_tick E A;
     A \<leftarrow> configure_mode E A;
     configure_filter E A }"

section \<open>Starting the communications\<close>

text \<open>\<open>ConfigureComms\<close>: whether the settings are complete; the client then runs under the name.\<close>

definition ConfigureComms :: "env \<Rightarrow> 'u app \<Rightarrow> (bool \<times> 'u app) option" where
  "ConfigureComms E A = do {
     let (b, host) = GetVariable_string ''--moos_host'' ''LOCALHOST'' (p_CommandLine A);
     (v, A) \<leftarrow> (if b then Some (Some host, A)
                 else cfg (global (GetValue (e_host E) ''SERVERHOST'')) A);
     let A = A\<lparr>p_sServerHost := keep host v\<rparr>;
     let (b, port) = GetVariable_int ''--moos_port'' 9000 (p_CommandLine A);
     (v, A) \<leftarrow> (if b then Some (Some port, A)
                 else cfg (global (GetValue_int (e_host E) ''SERVERPORT'')) A);
     let A = A\<lparr>p_lServerPort := keep port v\<rparr>;
     if \<not> CheckSetUp A then Some (False, A)
     else do {
       (v, A) \<leftarrow> cfg (GetConfigurationParam_int (e_host E) ''COMMSTICK'') A;
       let n = snd (GetOption_int ''--moos_comms_tick'' (keep (p_nCommsFreq A) v) (p_CommandLine A));
       let n = (if n < 0 then 1 else n);
       let A = A\<lparr>p_nCommsFreq := n,
                 p_sMOOSName := (if p_sMOOSName A = [] then p_sAppName A else p_sMOOSName A)\<rparr>;
       Some (True, A\<lparr>p_Comms := (p_Comms A)\<lparr>a_Base :=
               RunClient (c_str (p_sMOOSName A)) (nat n) (a_Base (p_Comms A))\<rparr>\<rparr>) } }"

section \<open>The virtual functions\<close>

record 'u hooks =
  k_OnNewMail :: "moos_msg list \<Rightarrow> 'u app \<Rightarrow> bool \<times> 'u app"
  k_OnCommandMsg :: "moos_msg \<Rightarrow> 'u app \<Rightarrow> bool \<times> 'u app"
  k_OnIteratePrepare :: "'u app \<Rightarrow> bool \<times> 'u app"
  k_Iterate :: "'u app \<Rightarrow> bool \<times> 'u app"
  k_OnIterateComplete :: "'u app \<Rightarrow> bool \<times> 'u app"
  k_OnProcessCommandLine :: "'u app \<Rightarrow> bool \<times> 'u app"
  k_OnStartUpPrepare :: "'u app \<Rightarrow> bool \<times> 'u app"
  k_OnStartUp :: "'u app \<Rightarrow> bool \<times> 'u app"
  k_OnStartUpComplete :: "'u app \<Rightarrow> bool \<times> 'u app"
  k_OnConnectToServer :: "'u app \<Rightarrow> bool \<times> 'u app"
  k_OnDisconnectFromServer :: "'u app \<Rightarrow> bool \<times> 'u app"

text \<open>The handlers of the class itself, which do nothing.\<close>

definition default_hooks :: "'u hooks" where
  "default_hooks =
     \<lparr>k_OnNewMail = (\<lambda>_ A. (True, A)), k_OnCommandMsg = (\<lambda>_ A. (True, A)),
      k_OnIteratePrepare = Pair True, k_Iterate = Pair True, k_OnIterateComplete = Pair True,
      k_OnProcessCommandLine = Pair True, k_OnStartUpPrepare = Pair True, k_OnStartUp = Pair True,
      k_OnStartUpComplete = Pair True, k_OnConnectToServer = Pair True,
      k_OnDisconnectFromServer = Pair True\<rparr>"

text \<open>\<open>MOOSAPP_OnConnect\<close> and \<open>MOOSAPP_OnDisconnect\<close>, the callbacks of the client.\<close>

definition MOOSAPP_OnConnect :: "'u hooks \<Rightarrow> real \<Rightarrow> 'u app \<Rightarrow> bool \<times> 'u app" where
  "MOOSAPP_OnConnect hk now A =
     k_OnConnectToServer hk
       (if p_bCommandMessageFiltering A then snd (AppRegister (GetCommandKey A) 0 now A) else A)"

definition MOOSAPP_OnDisconnect :: "'u hooks \<Rightarrow> 'u app \<Rightarrow> bool \<times> 'u app" where
  "MOOSAPP_OnDisconnect hk A = k_OnDisconnectFromServer hk A"

section \<open>Sleeping\<close>

text \<open>What a turn meets: the clock when the sleep is worked out, whether the event wakes the wait
  and the clock then, what the threads of the client do meanwhile, the clock when the turn starts
  its work, the readings for the status message and the processor and memory part of it.\<close>

record turn =
  t_now :: real
  t_woken :: bool
  t_later :: real
  t_during :: "aclient \<Rightarrow> aclient"
  t_start :: real
  t_status :: "real \<times> real \<times> real \<times> real"
  t_procs :: string

text \<open>\<open>static_cast<int>\<close> of a double rounds towards zero. For a number that is no \<open>int\<close> the language
  leaves the result open; it is the least \<open>int\<close> on the processors the library runs on. That
  happens: before the first turn the time since the last one is counted from -1.\<close>

definition trunc :: "real \<Rightarrow> int" where
  "trunc x =
     (let n = (if 0 \<le> x then \<lfloor>x\<rfloor> else \<lceil>x\<rceil>)
      in if - (2 ^ 31) \<le> n \<and> n < 2 ^ 31 then n else - (2 ^ 31))"

definition unread_mail :: "'u app \<Rightarrow> nat" where
  "unread_mail A = length (c_InBox (a_Base (p_Comms A)))"

text \<open>\<open>SleepAsRequired\<close>: whether \<open>Iterate\<close> is due, and the pauses in milliseconds.\<close>

definition SleepAsRequired :: "turn \<Rightarrow> 'u app \<Rightarrow> bool \<times> int list" where
  "SleepAsRequired t A =
     (if p_dfFreq A \<le> 0 then (True, [])
      else let nAppPeriod_ms = trunc (1000 / p_dfFreq A);
               nElapsedTime_ms = max 0 (trunc (1000 * (t_now t - p_dfLastRunTime A)));
               nSleep = nAppPeriod_ms - nElapsedTime_ms
           in if nSleep < 1 then (True, [])
              else case p_IterationMode A of
                     REGULAR_ITERATE_AND_MAIL \<Rightarrow> (True, [nSleep])
                   | REGULAR_ITERATE_AND_COMMS_DRIVEN_MAIL \<Rightarrow>
                       (if unread_mail A > 0 \<or> t_woken t
                        then (\<not> t_later t - p_dfLastRunTime A < 1 / p_dfFreq A, []) else (True, []))
                   | COMMS_DRIVEN_ITERATE_AND_MAIL \<Rightarrow>
                       (if unread_mail A > 0 \<or> t_woken t
                        then (let dfTimeSinceRun = t_later t - p_dfLastRunTime A;
                                  dfMinPeriod = (if p_dfMaxAppTick A > 0 then 1 / p_dfMaxAppTick A else 0);
                                  n = trunc (1000 * (dfMinPeriod - dfTimeSinceRun))
                              in (True, if dfTimeSinceRun < dfMinPeriod \<and> n > 0 then [n] else []))
                        else (True, [])))"

section \<open>A turn of the main loop\<close>

fun handle_commands :: "'u hooks \<Rightarrow> moos_msg list \<Rightarrow> 'u app \<Rightarrow> bool \<times> 'u app" where
  "handle_commands hk [] A = (True, A)"
| "handle_commands hk (q # NewMail) A =
     (if MOOSStrCmp (m_sKey q) (GetCommandKey A)
      then (let (b, A) = k_OnCommandMsg hk q A; (r, A) = handle_commands hk NewMail A in (b \<and> r, A))
      else handle_commands hk NewMail A)"

definition LookForAndHandleAppCommand :: "'u hooks \<Rightarrow> moos_msg list \<Rightarrow> 'u app \<Rightarrow> bool \<times> 'u app" where
  "LookForAndHandleAppCommand = handle_commands"

definition OnNewMailPrivate :: "'u hooks \<Rightarrow> moos_msg list \<Rightarrow> 'u app \<Rightarrow> 'u app" where
  "OnNewMailPrivate hk Mail A =
     (if p_bCommandMessageFiltering A then snd (LookForAndHandleAppCommand hk Mail A) else A)"

definition quoted_list :: "string list \<Rightarrow> string" where
  "quoted_list l = [CHR 0x22] @ concat (map (\<lambda>s. s @ '','') l) @ [CHR 0x22]"

definition MakeStatusString :: "real \<Rightarrow> string \<Rightarrow> 'u app \<Rightarrow> string" where
  "MakeStatusString now procs A =
     ''AppErrorFlag='' @ (if p_bAppError A then ''true,'' @ ''AppErrorReason='' @ p_sAppError A @ '',''
                          else ''false,'')
     @ ''Uptime='' @ show_g (now - p_dfAppStartTime A) @ '',''
     @ procs
     @ ''MOOSName='' @ p_sAppName A @ '',''
     @ ''Publishing='' @ quoted_list (c_Published (a_Base (p_Comms A))) @ '',''
     @ ''Subscribing='' @ quoted_list (c_Registered (a_Base (p_Comms A)))"

definition IteratePrivate :: "turn \<Rightarrow> 'u app \<Rightarrow> 'u app" where
  "IteratePrivate t A =
     (case t_status t of (t0, t1, t2, t3) \<Rightarrow>
        if \<bar>p_dfLastStatusTime A - t0\<bar> > STATUS_PERIOD
        then (snd (AppNotifyString (MOOSToUpper (MOOSToUpper (p_sAppName A) @ ''_STATUS''))
                (MakeStatusString t1 (t_procs t) A) [] (-1) t2 A))\<lparr>p_dfLastStatusTime := t3\<rparr>
        else A)"

definition failed :: "bool \<times> 'u app \<Rightarrow> bool" where
  "failed x \<longleftrightarrow> p_bQuitOnIterateFail (snd x) \<and> \<not> fst x"

definition iterate_hooks :: "'u hooks \<Rightarrow> 'u app \<Rightarrow> bool \<times> 'u app" where
  "iterate_hooks hk A =
     (let x = k_OnIteratePrepare hk A in if failed x then (False, snd x)
      else let x = k_Iterate hk (snd x) in if failed x then (False, snd x)
      else let x = k_OnIterateComplete hk (snd x) in if failed x then (False, snd x)
      else (True, snd x))"

definition count_iterate :: "bool \<times> 'u app \<Rightarrow> bool \<times> 'u app" where
  "count_iterate x =
     (if fst x then (True, (snd x)\<lparr>p_nIterateCount := p_nIterateCount (snd x) + 1\<rparr>) else x)"

definition ProcessMail :: "'u hooks \<Rightarrow> 'u app \<Rightarrow> 'u app" where
  "ProcessMail hk A =
     (let (got, MailIn, c) = Fetch [] (a_Base (p_Comms A));
          A = A\<lparr>p_Comms := (p_Comms A)\<lparr>a_Base := c\<rparr>\<rparr>
      in if \<not> got then A
         else let MailIn = (if p_bSortMailByTime A then sort_key m_dfTime MailIn else MailIn);
                  A = OnNewMailPrivate hk MailIn A;
                  A = snd (k_OnNewMail hk MailIn A)
              in A\<lparr>p_nMailCount := p_nMailCount A + 1\<rparr>)"

definition DoRunWork :: "'u hooks \<Rightarrow> turn \<Rightarrow> 'u app \<Rightarrow> bool \<times> 'u app" where
  "DoRunWork hk t A =
     (let bIterateRequired = fst (SleepAsRequired t A);
          A = A\<lparr>p_Comms := t_during t (p_Comms A), p_dfLastRunTime := t_start t\<rparr>
      in if p_bUseMOOSComms A
         then (let A = ProcessMail hk A in
               if c_bConnected (a_Base (p_Comms A)) \<or> p_bIterateWithoutComms A
               then (let A = IteratePrivate t A
                     in count_iterate (if bIterateRequired then iterate_hooks hk A else (True, A)))
               else (True, A))
         else (let A = IteratePrivate t A;
                   x = (if bIterateRequired then k_Iterate hk A else (True, A))
               in if bIterateRequired \<and> failed x then (False, snd x)
                  else (True, (snd x)\<lparr>p_nIterateCount := p_nIterateCount (snd x) + 1\<rparr>)))"

text \<open>How \<open>Run\<close> ends: an information switch ends the process, \<open>Run\<close> returns, an exception leaves the
  threads of the client while it is closed, or the turns given are used up with the application still
  running.\<close>

datatype run_result = Exited | Returned bool | Threw string | Running

text \<open>What the threads of the client still do while it is closed on the way out, and the time then.\<close>

record closing =
  x_before :: "comms_round list"
  x_after :: "writer_round list"
  x_now :: real

text \<open>The loop, over the turns it meets, and the closing of the client behind it.\<close>

fun main_loop :: "'u hooks \<Rightarrow> closing \<Rightarrow> turn list \<Rightarrow> 'u app \<Rightarrow> run_result \<times> 'u app" where
  "main_loop hk cl ts A =
     (if p_bQuitRequested A
      then (case AsyncClose (x_before cl) (x_after cl) (x_now cl) (p_Comms A) of
              Inl e \<Rightarrow> (Threw e, A)
            | Inr a \<Rightarrow> (Returned True, A\<lparr>p_Comms := a\<rparr>))
      else case ts of [] \<Rightarrow> (Running, A)
           | t # ts \<Rightarrow>
               (let (bOK, A) = DoRunWork hk t A
                in if p_bQuitOnIterateFail A \<and> \<not> bOK then (Returned False, A) else main_loop hk cl ts A))"

declare main_loop.simps [simp del]

section \<open>Starting\<close>

text \<open>\<open>Run\<close> up to the loop. \<open>Exits\<close>: a switch asked for information only.\<close>

datatype start = Exits | Quits bool | Runs

definition set_names :: "string \<Rightarrow> string \<Rightarrow> 'u app \<Rightarrow> 'u app" where
  "set_names sName sMissionFile A =
     (let cl = p_CommandLine A;
          sAppName = snd (GetOption_string ''--moos_app_name'' sName cl);
          sFile = snd (GetVariable_string ''--moos_file'' sMissionFile cl);
          sMOOSName = (if p_sMOOSName A = [] then sAppName else p_sMOOSName A);
          sMOOSName = snd (GetVariable_string ''--moos_name'' sMOOSName cl)
      in A\<lparr>p_sAppName := sAppName, p_sMissionFile := sFile, p_sMOOSName := sMOOSName,
           p_MissionReader := SetAppName sAppName (p_MissionReader A)\<rparr>)"

definition asks_for_information :: "command_line \<Rightarrow> bool" where
  "asks_for_information cl \<longleftrightarrow>
     list_ex (\<lambda>f. GetFlag f [] cl)
       [''--moos_help'', ''--help'', ''--moos_print_example'', ''--moos_print_interface'',
        ''--moos_print_version'']"

definition start_hooks :: "'u hooks \<Rightarrow> 'u app \<Rightarrow> bool \<times> 'u app" where
  "start_hooks hk A =
     (let x = k_OnStartUpPrepare hk A in if \<not> fst x then x
      else let x = k_OnStartUp hk (snd x) in if \<not> fst x then x
      else k_OnStartUpComplete hk (snd x))"

definition StartApp ::
  "env \<Rightarrow> 'u hooks \<Rightarrow> string \<Rightarrow> string \<Rightarrow> real \<Rightarrow> 'u app \<Rightarrow> (start \<times> 'u app) option" where
  "StartApp E hk sName sMissionFile now A =
     (let A = set_names sName sMissionFile A in
      if asks_for_information (p_CommandLine A) then Some (Exits, A)
      else do {
        A \<leftarrow> Configure E A;
        let A = (if IsAvailable (p_CommandLine A) then snd (k_OnProcessCommandLine hk A) else A);
        let A = A\<lparr>p_dfAppStartTime := now\<rparr>;
        (ok, A) \<leftarrow> (if p_bUseMOOSComms A then ConfigureComms E A else Some (True, A));
        let (ok, A) = (if ok then start_hooks hk A else (False, A));
        Some (if \<not> ok then (Quits False, A)
              else if GetFlag ''--moos_configuration_audit'' [] (p_CommandLine A) then (Quits True, A)
              else (Runs, A)) })"

text \<open>\<open>Run\<close>: starting, the loop and the closing of the client.\<close>

definition RunApp ::
  "env \<Rightarrow> 'u hooks \<Rightarrow> string \<Rightarrow> string \<Rightarrow> real \<Rightarrow> closing \<Rightarrow> turn list \<Rightarrow> 'u app \<Rightarrow> (run_result \<times> 'u app) option"
where
  "RunApp E hk sName sMissionFile now cl ts A =
     do {
       (s, A) \<leftarrow> StartApp E hk sName sMissionFile now A;
       Some (case s of
          Exits \<Rightarrow> (Exited, A)
        | Quits b \<Rightarrow> (Returned b, A)
        | Runs \<Rightarrow> main_loop hk cl ts A) }"

section \<open>Variables\<close>

definition AddMOOSVariable :: "string \<Rightarrow> string \<Rightarrow> string \<Rightarrow> real \<Rightarrow> 'u app \<Rightarrow> bool \<times> 'u app" where
  "AddMOOSVariable sName sSubscribeName sPublishName dfCommsTime A =
     (if map_of (p_MOOSVars A) sName \<noteq> None then (False, A)
      else (True, A\<lparr>p_MOOSVars := map_set sName
              (new_variable sName sSubscribeName sPublishName dfCommsTime) (p_MOOSVars A)\<rparr>))"

definition update_var :: "string \<Rightarrow> (moos_variable \<Rightarrow> moos_variable) \<Rightarrow> 'u app \<Rightarrow> bool \<times> 'u app" where
  "update_var sVarName f A =
     (case map_of (p_MOOSVars A) sVarName of
        None \<Rightarrow> (False, A)
      | Some v \<Rightarrow> (True, A\<lparr>p_MOOSVars := map_set sVarName (f v) (p_MOOSVars A)\<rparr>))"

definition SetMOOSVarDouble :: "string \<Rightarrow> real \<Rightarrow> real \<Rightarrow> 'u app \<Rightarrow> bool \<times> 'u app" where
  "SetMOOSVarDouble sVarName dfVal dfTime = update_var sVarName (SetVarDouble dfVal dfTime)"

definition SetMOOSVarString :: "string \<Rightarrow> string \<Rightarrow> real \<Rightarrow> 'u app \<Rightarrow> bool \<times> 'u app" where
  "SetMOOSVarString sVarName sVal dfTime = update_var sVarName (SetVarString sVal dfTime)"

definition SetMOOSVar :: "moos_variable \<Rightarrow> 'u app \<Rightarrow> bool \<times> 'u app" where
  "SetMOOSVar Var = update_var (v_sName Var) (\<lambda>_. SetFresh True Var)"

definition publish_var :: "real \<Rightarrow> moos_variable \<Rightarrow> 'u app \<Rightarrow> 'u app" where
  "publish_var now Var A =
     (if v_bDouble Var
      then snd (AppNotifyDouble (v_sPublishName Var) (v_dfVal Var) [] (v_dfTimeWritten Var) now A)
      else snd (AppNotifyString (v_sPublishName Var) (v_sVal Var) [] (v_dfTimeWritten Var) now A))"

text \<open>The loop over the map; \<open>now\<close> is the clock of the messages.\<close>

definition PublishFreshMOOSVariables :: "real \<Rightarrow> 'u app \<Rightarrow> 'u app" where
  "PublishFreshMOOSVariables now A =
     (fold (\<lambda>(n, v) A. if v_bFresh v then publish_var now v A else A) (p_MOOSVars A) A)
       \<lparr>p_MOOSVars := map_vals (\<lambda>n v. if v_bFresh v then SetFresh False v else v) (p_MOOSVars A)\<rparr>"

definition update_from_mail :: "moos_msg list \<Rightarrow> real \<Rightarrow> moos_variable \<Rightarrow> moos_variable" where
  "update_from_mail NewMail dfTimeNow rVar =
     (case PeekMail NewMail (v_sSubscribeName rVar) False False of
        None \<Rightarrow> rVar
      | Some (Msg, _) \<Rightarrow>
          if fst (IsSkewed Msg dfTimeNow) then rVar else SetFresh True (SetVarMsg Msg rVar))"

definition UpdateMOOSVariables :: "moos_msg list \<Rightarrow> real \<Rightarrow> 'u app \<Rightarrow> 'u app" where
  "UpdateMOOSVariables NewMail dfTimeNow A =
     A\<lparr>p_MOOSVars := map_vals (\<lambda>n. update_from_mail NewMail dfTimeNow) (p_MOOSVars A)\<rparr>"

fun register_vars :: "real \<Rightarrow> moos_variable list \<Rightarrow> 'u app \<Rightarrow> bool \<times> 'u app" where
  "register_vars now [] A = (True, A)"
| "register_vars now (v # vs) A =
     (if v_sSubscribeName v \<noteq> []
      then (let (b, A) = AppRegister (v_sSubscribeName v) (max 0 (v_dfCommsTime v)) now A;
                (r, A) = register_vars now vs A in (b \<and> r, A))
      else register_vars now vs A)"

definition RegisterMOOSVariables :: "real \<Rightarrow> 'u app \<Rightarrow> bool \<times> 'u app" where
  "RegisterMOOSVariables now A = register_vars now (map snd (p_MOOSVars A)) A"

definition MOOSDebugWrite :: "string \<Rightarrow> real \<Rightarrow> 'u app \<Rightarrow> bool \<times> 'u app" where
  "MOOSDebugWrite sTxt now A =
     (if c_bConnected (a_Base (p_Comms A)) then AppNotifyString ''MOOS_DEBUG'' sTxt [] (-1) now A
      else (False, A))"

end
