(* ===== verification/Moos_FileProps.thy ===== *)
theory Moos_FileProps
  imports Moos_Config
begin

text \<open>
  How the reader moves through a file. A file is laid out as lines with gaps (white space and
  comment lines) before them; \<open>skip_gap\<close> shows what one \<open>GetNextValidLine\<close> reads of it, and
  \<open>read_loop_lines\<close> what a loop over the lines does. \<open>stream_ok\<close> is the invariant of a
  stream whose lines fit the buffer: every loop over it returns (\<open>read_loop_returns\<close>).
\<close>

section \<open>Trimming a comment\<close>

lemma trim_keeps:
  assumes "a \<noteq> []" and "\<not> moos_white (hd a)" and "\<not> moos_white (last a)"
  shows "MOOSTrimWhiteSpace (a @ x) = a @ rev (dropWhile moos_white (rev x))"
proof -
  have d: "dropWhile moos_white (a @ x) = a @ x"
    using assms(1,2) by (cases a) auto
  have "rev a \<noteq> []" "\<not> moos_white (hd (rev a))"
    using assms by (simp_all add: hd_rev)
  then have "dropWhile moos_white (rev a) = rev a" by (cases "rev a") auto
  then have "dropWhile moos_white (rev x @ rev a) = dropWhile moos_white (rev x) @ rev a"
    by (simp add: dropWhile_append dropWhile_eq_Nil_conv)
  then show ?thesis by (simp add: trim_eq d)
qed

lemma IsComment_comment: "fst (IsComment (''//'' @ x))"
  using trim_keeps [of "''//''" x] by (simp add: IsComment_def Let_def moos_white_def)

section \<open>Gaps and lines\<close>

inductive gap :: "string \<Rightarrow> bool" where
  gap_Nil: "gap []"
| gap_space: "isspace c \<Longrightarrow> gap g \<Longrightarrow> gap (c # g)"
| gap_comment: "newline \<notin> set x \<Longrightarrow> length x < 1998 \<Longrightarrow> gap g \<Longrightarrow> gap (''//'' @ x @ newline # g)"

text \<open>A line that is read as it stands: no comment, quote or expansion in it.\<close>

definition clean :: "string \<Rightarrow> bool" where
  "clean l \<longleftrightarrow> l \<noteq> [] \<and> \<not> isspace (hd l) \<and> \<not> moos_white (last l) \<and> length l < MAXLINESIZE
     \<and> newline \<notin> set l \<and> CHR 0x00 \<notin> set l \<and> CHR 0x22 \<notin> set l
     \<and> search_by (=) l ''//'' = None \<and> search_by (=) l ''${'' = None"

lemma moos_white_isspace: "moos_white c \<Longrightarrow> isspace c"
  by (auto simp: moos_white_def isspace_def)

lemma read_line_space:
  assumes "isspace c" and "f_good st" and "f_rest st = c # r" and "dropWhile isspace r \<noteq> []"
  shows "read_line st = read_line (st\<lparr>f_rest := r\<rparr>)"
  using assms by (simp add: read_line_def f_ws_def f_good_def)

lemma dropWhile_start: "l \<noteq> [] \<Longrightarrow> \<not> P (hd l) \<Longrightarrow> dropWhile P (l @ r) = l @ r"
  by (cases l) auto

lemma read_line_at:
  assumes "f_good st" and "f_rest st = l @ newline # r" and "l \<noteq> []" and "\<not> isspace (hd l)"
    and "newline \<notin> set l" and "length l < MAXLINESIZE"
  shows "read_line st = (takeWhile (\<lambda>c. c \<noteq> CHR 0x00) l, st\<lparr>f_rest := r\<rparr>)"
proof -
  have w: "f_ws st = st"
    using assms dropWhile_start [of l isspace "newline # r"] by (simp add: f_ws_def f_good_def)
  have t: "takeWhile (\<lambda>c. c \<noteq> newline) (l @ newline # r) = l"
    using assms(5) by (auto simp: takeWhile_append takeWhile_eq_all_conv)
  have "take (MAXLINESIZE - 1) l = l" using assms(6) by simp
  with assms w t show ?thesis by (simp add: read_line_def f_getline_def Let_def)
qed

lemma takeWhile_notin: "c \<notin> set l \<Longrightarrow> takeWhile (\<lambda>x. x \<noteq> c) l = l"
  by (auto simp: takeWhile_eq_all_conv)

text \<open>One \<open>GetNextValidLine\<close> passes over the gap and reads the line.\<close>

definition valid_line :: "ifstream \<Rightarrow> string \<times> ifstream" where
  "valid_line st = skip_comments (fst (read_line st)) (snd (read_line st))"

lemma gap_then_line: "gap g \<Longrightarrow> l \<noteq> [] \<Longrightarrow> \<not> isspace (hd l) \<Longrightarrow> dropWhile isspace (g @ l @ r) \<noteq> []"
  by (induction rule: gap.induct) (auto simp: dropWhile_start isspace_def)

lemma skip_gap:
  assumes "gap g" and "clean l"
  shows "f_good st \<Longrightarrow> f_rest st = g @ l @ newline # r \<Longrightarrow> valid_line st = (l, st\<lparr>f_rest := r\<rparr>)"
  using assms(1)
proof (induction arbitrary: st rule: gap.induct)
  case gap_Nil
  have "\<not> moos_white (hd l)" using assms(2) moos_white_isspace by (auto simp: clean_def)
  then have "MOOSTrimWhiteSpace l = l" using assms(2) by (intro trim_id) (simp add: clean_def)
  then have "\<not> fst (IsComment l)" "snd (IsComment l) = l"
    using assms(2) by (simp_all add: IsComment_def clean_def Let_def)
  then show ?case
    using gap_Nil assms(2) read_line_at [of st l r] skip_comments.simps [of l]
    by (simp add: valid_line_def clean_def takeWhile_notin)
next
  case (gap_space c g)
  have "read_line st = read_line (st\<lparr>f_rest := g @ l @ newline # r\<rparr>)"
    using gap_space.prems gap_space.hyps assms(2) gap_then_line [of g l "newline # r"]
    by (intro read_line_space [of c]) (auto simp: clean_def)
  with gap_space.IH [of "st\<lparr>f_rest := g @ l @ newline # r\<rparr>"] gap_space.prems(1)
  show ?case by (simp add: valid_line_def f_good_def)
next
  case (gap_comment x g)
  define st' where "st' = st\<lparr>f_rest := g @ l @ newline # r\<rparr>"
  have rl: "read_line st = (''//'' @ takeWhile (\<lambda>c. c \<noteq> CHR 0x00) x, st')"
    using gap_comment.prems gap_comment.hyps
      read_line_at [of st "''//'' @ x" "g @ l @ newline # r"]
    by (simp add: st'_def isspace_def MAXLINESIZE_def)
  have "valid_line st = valid_line st'"
    using IsComment_comment [of "takeWhile (\<lambda>c. c \<noteq> CHR 0x00) x"]
    by (simp add: valid_line_def rl skip_comments.simps [of "''//'' @ _"] del: append.simps)
  with gap_comment.IH [of st'] gap_comment.prems(1) show ?case
    by (simp add: st'_def f_good_def)
qed

lemma clean_unquote: "clean l \<Longrightarrow> unquote_line b l = (l, None)"
  by (simp add: unquote_line_def clean_def search_by_char)

lemma expand_none: "search_by (=) l ''${'' = None \<Longrightarrow> DoVariableExpansion h vars l = l"
  by (subst DoVariableExpansion_def, subst expand_loop.simps)
     (simp add: MOOSChomp_def MOOSStrFind_def)

section \<open>A reader at a place of the file\<close>

definition open_at :: "file_reader \<Rightarrow> string \<Rightarrow> string \<Rightarrow> file_reader" where
  "open_at R w r = R\<lparr>r_File := Some \<lparr>f_whole = w, f_rest = r, f_eof = False, f_fail = False\<rparr>\<rparr>"

lemma GetFile_open [simp]: "r_File R = Some st \<Longrightarrow> GetFile h R = R"
  by (simp add: GetFile_def)

lemma open_at_simps [simp]:
  "GetFile h (open_at R w r) = open_at R w r"
  "IsOpen h (open_at R w r)"
  "\<not> reader_eof h (open_at R w r)"
  "r_sFileName (open_at R w r) = r_sFileName R"
  "r_LocalShellVariables (open_at R w r) = r_LocalShellVariables R"
  "r_bEnableVerbatimQuoting (open_at R w r) = r_bEnableVerbatimQuoting R"
  "open_at (open_at R w' r') w r = open_at R w r"
  by (simp_all add: open_at_def GetFile_def IsOpen_def reader_eof_def)

text \<open>The reader has the file \<open>w\<close>: not opened yet, or left by calls that returned.\<close>

definition ready :: "host \<Rightarrow> string \<Rightarrow> file_reader \<Rightarrow> bool" where
  "ready h w R \<longleftrightarrow> r_sFileName R \<noteq> [] \<and> h_disk h (r_sFileName R) = Some w
     \<and> (case r_File R of None \<Rightarrow> True | Some st \<Rightarrow> f_whole st = w \<and> (f_fail st \<longrightarrow> f_eof st))"

lemma ready_reset: "ready h w R \<Longrightarrow> ResetFile h R = open_at R w w"
  by (cases "r_File R")
     (auto simp: ready_def ResetFile_def on_file_def GetFile_def open_at_def f_open_def
        f_rewind_def f_clear_def)

lemma ready_open: "ready h w R \<Longrightarrow> IsOpen h R"
  by (cases "r_File R") (auto simp: ready_def IsOpen_def GetFile_def)

lemma ready_open_at [simp]: "ready h w (open_at R w r) = (r_sFileName R \<noteq> [] \<and> h_disk h (r_sFileName R) = Some w)"
  by (simp add: ready_def) (simp add: open_at_def)

lemma rewind_open_at: "on_file h f_rewind (open_at R w r) = open_at R w w"
  by (simp add: on_file_def) (simp add: open_at_def f_rewind_def)

lemma next_line_valid:
  assumes "r_File R = Some st" and "\<not> f_eof st" and "valid_line st = (l, st')"
  shows "GetNextValidLine h b R =
    (let l2 = cut_comment (unquote_line (r_bEnableVerbatimQuoting R) l)
     in (if b then DoVariableExpansion h (r_LocalShellVariables R) l2 else l2,
         R\<lparr>r_File := Some st'\<rparr>))"
  using assms by (simp add: GetNextValidLine_def split_beta valid_line_def Let_def)

lemma next_line_at:
  assumes "gap g" and "clean l"
  shows "GetNextValidLine h b (open_at R w (g @ l @ newline # r)) = (l, open_at R w r)"
proof -
  define st where "st = \<lparr>f_whole = w, f_rest = g @ l @ newline # r, f_eof = False, f_fail = False\<rparr>"
  have v: "valid_line st = (l, st\<lparr>f_rest := r\<rparr>)"
    using skip_gap [OF assms, of st r] by (simp add: st_def f_good_def)
  have f: "open_at R w (g @ l @ newline # r) = R\<lparr>r_File := Some st\<rparr>"
    by (simp add: open_at_def st_def)
  have "search_by (=) l ''${'' = None" using assms(2) by (simp add: clean_def)
  moreover have "\<not> f_eof st" "R\<lparr>r_File := Some (st\<lparr>f_rest := r\<rparr>)\<rparr> = open_at R w r"
    by (simp_all add: st_def open_at_def)
  ultimately show ?thesis
    using next_line_valid [OF _ _ v, of "R\<lparr>r_File := Some st\<rparr>" h b] clean_unquote [OF assms(2)]
    by (simp add: f cut_comment_def expand_none Let_def)
qed

section \<open>Loops over lines\<close>

definition render :: "(string \<times> string) list \<Rightarrow> string" where
  "render ls = concat (map (\<lambda>(g, l). g @ l @ [newline]) ls)"

definition lines_ok :: "(string \<times> string) list \<Rightarrow> bool" where
  "lines_ok ls \<longleftrightarrow> (\<forall>(g, l) \<in> set ls. gap g \<and> clean l)"

lemma render_simps [simp]:
  "render [] = []"
  "render ((g, l) # ls) = g @ l @ newline # render ls"
  "render (ls @ ls') = render ls @ render ls'"
  by (simp_all add: render_def)

lemma lines_ok_simps [simp]:
  "lines_ok []"
  "lines_ok ((g, l) # ls) \<longleftrightarrow> gap g \<and> clean l \<and> lines_ok ls"
  "lines_ok (ls @ ls') \<longleftrightarrow> lines_ok ls \<and> lines_ok ls'"
  by (auto simp: lines_ok_def)

fun run_lines :: "(string \<Rightarrow> 's \<Rightarrow> 's + 'r) \<Rightarrow> 's \<Rightarrow> string list \<Rightarrow> 's option" where
  "run_lines body s [] = Some s"
| "run_lines body s (l # ls) = (case body l s of Inl s' \<Rightarrow> run_lines body s' ls | Inr _ \<Rightarrow> None)"

lemma read_loop_line:
  assumes "gap g" and "clean l"
  shows "read_loop h b body s (open_at R w (g @ l @ newline # r)) =
    (case body l s of Inl s' \<Rightarrow> read_loop h b body s' (open_at R w r)
     | Inr x \<Rightarrow> Some (Inr x, open_at R w r))"
  by (subst read_loop.simps) (simp add: next_line_at [OF assms] split: sum.split)

lemma read_loop_lines:
  assumes "lines_ok ls" and "run_lines body s (map snd ls) = Some s'"
  shows "read_loop h b body s (open_at R w (render ls @ r)) = read_loop h b body s' (open_at R w r)"
  using assms
proof (induction ls arbitrary: s)
  case Nil
  then show ?case by simp
next
  case (Cons p ls)
  obtain g l where p: "p = (g, l)" by (cases p)
  obtain t where t: "body l s = Inl t" "run_lines body t (map snd ls) = Some s'"
    using Cons.prems(2) by (auto simp: p split: sum.splits)
  show ?case
    using Cons.prems(1) t Cons.IH [of t] by (simp add: p read_loop_line)
qed

text \<open>At the end of the file the loop sees one more line, an empty one, and stops.\<close>

lemma read_loop_end:
  assumes "body [] s = Inl s'"
  shows "\<exists>R'. read_loop h b body s (open_at R w []) = Some (Inl s', R')
    \<and> r_sFileName R' = r_sFileName R
    \<and> r_LocalShellVariables R' = r_LocalShellVariables R
    \<and> (\<exists>st. r_File R' = Some st \<and> f_whole st = w \<and> f_eof st)"
proof -
  define st where "st = \<lparr>f_whole = w, f_rest = [], f_eof = True, f_fail = True\<rparr>"
  have n: "GetNextValidLine h b (open_at R w []) = ([], R\<lparr>r_File := Some st\<rparr>)"
    by (simp add: GetNextValidLine_def)
       (simp add: open_at_def read_line_def f_ws_def f_getline_def f_good_def st_def
          skip_comments.simps unquote_line_def cut_comment_def expand_none)
  have e: "reader_eof h (R\<lparr>r_File := Some st\<rparr>)" by (simp add: reader_eof_def st_def)
  show ?thesis
    by (subst read_loop.simps) (simp add: n assms read_loop.simps e, simp add: st_def)
qed

section \<open>Files whose lines fit\<close>

text \<open>No line of the file is longer than the buffer takes.\<close>

fun lines_fit :: "string \<Rightarrow> bool" where
  "lines_fit [] = True"
| "lines_fit (c # s) =
     (length (takeWhile (\<lambda>x. x \<noteq> newline) (c # s)) < MAXLINESIZE \<and> lines_fit s)"

lemma lines_fit_drop: "lines_fit s \<Longrightarrow> lines_fit (drop k s)"
  by (induction s arbitrary: k) (auto simp: drop_Cons split: nat.splits)

lemma lines_fit_first: "lines_fit s \<Longrightarrow> length (takeWhile (\<lambda>x. x \<noteq> newline) s) < MAXLINESIZE"
  by (cases s) (auto simp: MAXLINESIZE_def)

definition stream_ok :: "ifstream \<Rightarrow> bool" where
  "stream_ok st \<longleftrightarrow> lines_fit (f_whole st) \<and> lines_fit (f_rest st) \<and> (f_fail st \<longrightarrow> f_eof st)"

definition left :: "ifstream \<Rightarrow> nat" where
  "left st = (if f_eof st then 0 else Suc (length (f_rest st)))"

lemma f_ws_ok: "stream_ok st \<Longrightarrow> stream_ok (f_ws st) \<and> f_whole (f_ws st) = f_whole st
    \<and> left (f_ws st) \<le> left st"
  using length_dropWhile_le [of isspace "f_rest st"] lines_fit_drop [of "f_rest st"]
  by (auto simp: stream_ok_def f_ws_def left_def f_good_def dropWhile_eq_drop)

lemma f_getline_fit:
  assumes "stream_ok st" and "\<not> f_eof st"
  shows "stream_ok (snd (f_getline MAXLINESIZE st))
    \<and> f_whole (snd (f_getline MAXLINESIZE st)) = f_whole st
    \<and> left (snd (f_getline MAXLINESIZE st)) < left st"
proof -
  define m where "m = takeWhile (\<lambda>c. c \<noteq> newline) (f_rest st)"
  have g: "f_good st" using assms by (auto simp: stream_ok_def f_good_def)
  have "length m < MAXLINESIZE"
    using assms(1) lines_fit_first by (auto simp: m_def stream_ok_def)
  then have t: "take (MAXLINESIZE - 1) m = m" by simp
  have d: "drop (length m) (f_rest st) = dropWhile (\<lambda>c. c \<noteq> newline) (f_rest st)"
    by (simp add: m_def drop_takeWhile)
  have eq: "f_getline MAXLINESIZE st =
      (case drop (length m) (f_rest st) of
          [] \<Rightarrow> (m, st\<lparr>f_rest := [], f_eof := True, f_fail := (m = [])\<rparr>)
        | c # r \<Rightarrow> if c = newline then (m, st\<lparr>f_rest := r\<rparr>)
                   else (m, st\<lparr>f_rest := drop (length m) (f_rest st), f_fail := True\<rparr>))"
    using g unfolding f_getline_def Let_def t [unfolded m_def] unfolding m_def by simp
  show ?thesis
  proof (cases "drop (length m) (f_rest st)")
    case Nil
    with eq have "f_getline MAXLINESIZE st =
        (m, st\<lparr>f_rest := [], f_eof := True, f_fail := (m = [])\<rparr>)" by simp
    with assms show ?thesis by (simp add: stream_ok_def left_def)
  next
    case (Cons c r)
    have "dropWhile (\<lambda>c. c \<noteq> newline) (f_rest st) = c # r" using Cons d by simp
    with hd_dropWhile [of "\<lambda>c. c \<noteq> newline" "f_rest st"] have c: "c = newline" by simp
    have r: "r = drop (Suc (length m)) (f_rest st)"
      using arg_cong [OF Cons, of "drop 1"] by simp
    from eq Cons c have "f_getline MAXLINESIZE st = (m, st\<lparr>f_rest := r\<rparr>)" by simp
    moreover have "length r < length (f_rest st)"
      using arg_cong [OF Cons, of length] by simp
    ultimately show ?thesis
      using assms lines_fit_drop [of "f_rest st" "Suc (length m)"]
      by (simp add: stream_ok_def left_def r)
  qed
qed

lemma read_line_ok:
  assumes "stream_ok st"
  shows "stream_ok (snd (read_line st)) \<and> f_whole (snd (read_line st)) = f_whole st
    \<and> left (snd (read_line st)) \<le> left st \<and> (\<not> f_eof st \<longrightarrow> left (snd (read_line st)) < left st)"
proof (cases "f_eof (f_ws st)")
  case True
  then have "snd (read_line st) = (f_ws st)\<lparr>f_fail := True\<rparr>"
    by (simp add: read_line_def f_getline_def f_good_def)
  with True f_ws_ok [OF assms] show ?thesis by (auto simp: stream_ok_def left_def)
next
  case False
  have "snd (read_line st) = snd (f_getline MAXLINESIZE (f_ws st))"
    by (simp add: read_line_def split_beta)
  with False f_ws_ok [OF assms] f_getline_fit [of "f_ws st"] show ?thesis by auto
qed

lemma skip_comments_ok:
  "stream_ok st \<Longrightarrow> stream_ok (snd (skip_comments l st))
    \<and> f_whole (snd (skip_comments l st)) = f_whole st \<and> left (snd (skip_comments l st)) \<le> left st"
proof (induction l st rule: skip_comments.induct)
  case (1 l st)
  show ?case
  proof (cases "l \<noteq> [] \<and> fst (IsComment l)")
    case True
    with 1 read_line_ok [OF "1.prems"] show ?thesis
      by (simp add: skip_comments.simps [of l])
  next
    case False
    with "1.prems" show ?thesis by (auto simp: skip_comments.simps [of l])
  qed
qed

lemma next_line_ok:
  assumes "r_File R = Some st" and "stream_ok st" and "\<not> f_eof st"
  shows "\<exists>st'. snd (GetNextValidLine h b R) = R\<lparr>r_File := Some st'\<rparr>
    \<and> stream_ok st' \<and> f_whole st' = f_whole st \<and> left st' < left st"
proof (intro exI [of _ "snd (skip_comments (fst (read_line st)) (snd (read_line st)))"] conjI)
  show "snd (GetNextValidLine h b R) =
      R\<lparr>r_File := Some (snd (skip_comments (fst (read_line st)) (snd (read_line st))))\<rparr>"
    using assms by (simp add: GetNextValidLine_def split_beta Let_def)
qed (use read_line_ok [OF assms(2)] assms(3)
       skip_comments_ok [of "snd (read_line st)" "fst (read_line st)"] in auto)

lemma read_loop_returns:
  assumes "r_File R = Some st" and "stream_ok st"
  shows "\<exists>x st'. read_loop h b body s R = Some (x, R\<lparr>r_File := Some st'\<rparr>)
    \<and> stream_ok st' \<and> f_whole st' = f_whole st"
  using assms
proof (induction "left st" arbitrary: R st s rule: less_induct)
  case less
  show ?case
  proof (cases "f_eof st")
    case True
    then have "read_loop h b body s R = Some (Inl s, R)"
      using less.prems by (subst read_loop.simps) (simp add: reader_eof_def)
    moreover have "R\<lparr>r_File := Some st\<rparr> = R" using less.prems(1) by (cases R) simp
    ultimately show ?thesis using less.prems(2) by (intro exI [of _ "Inl s"] exI [of _ st]) simp
  next
    case False
    obtain st' where n: "snd (GetNextValidLine h b R) = R\<lparr>r_File := Some st'\<rparr>"
        and st': "stream_ok st'" "f_whole st' = f_whole st" "left st' < left st"
      using next_line_ok [OF less.prems False] by blast
    have e: "\<not> reader_eof h R" using less.prems False by (simp add: reader_eof_def)
    show ?thesis
    proof (cases "body (fst (GetNextValidLine h b R)) s")
      case (Inl s')
      then have "read_loop h b body s R = read_loop h b body s' (R\<lparr>r_File := Some st'\<rparr>)"
        by (subst read_loop.simps) (simp add: e n)
      with less.hyps [OF st'(3), of "R\<lparr>r_File := Some st'\<rparr>" s'] st' show ?thesis by simp
    next
      case (Inr x)
      then have "read_loop h b body s R = Some (Inr x, R\<lparr>r_File := Some st'\<rparr>)"
        by (subst read_loop.simps) (simp add: e n)
      with st' show ?thesis by blast
    qed
  qed
qed

section \<open>A stream that failed\<close>

definition jammed :: "file_reader \<Rightarrow> bool" where
  "jammed R \<longleftrightarrow> (\<exists>st. r_File R = Some st \<and> f_fail st \<and> \<not> f_eof st)"

lemma jammed_next_line:
  assumes "jammed R"
  shows "fst (GetNextValidLine h b R) = [] \<and> jammed (snd (GetNextValidLine h b R))"
proof -
  obtain st where st: "r_File R = Some st" "f_fail st" "\<not> f_eof st" using assms by (auto simp: jammed_def)
  then have "read_line st = ([], st\<lparr>f_fail := True\<rparr>)"
    by (simp add: read_line_def f_ws_def f_getline_def f_good_def)
  with st show ?thesis
    by (simp add: GetNextValidLine_def skip_comments.simps unquote_line_def cut_comment_def
        expand_none jammed_def)
qed

text \<open>A loop that does not stop at an empty line never returns on such a stream.\<close>

lemma jammed_loop_aux:
  assumes "read_loop h b body s R = Some y"
  shows "jammed R \<longrightarrow> (\<forall>s. \<exists>s'. body [] s = Inl s') \<longrightarrow> False"
proof (rule read_loop.raw_induct [where P =
      "\<lambda>h b body s R y. jammed R \<longrightarrow> (\<forall>s. \<exists>s'. body [] s = Inl s') \<longrightarrow> False", OF _ assms],
    intro impI)
  fix loop h b R y and body :: "string \<Rightarrow> 'a \<Rightarrow> 'a + 'b" and s :: 'a
  assume IH: "\<And>h b (body :: string \<Rightarrow> 'a \<Rightarrow> 'a + 'b) s R y. loop h b body s R = Some y \<Longrightarrow>
      jammed R \<longrightarrow> (\<forall>s. \<exists>s'. body [] s = Inl s') \<longrightarrow> False"
    and eq: "(if reader_eof h R then Some (Inl s, GetFile h R)
      else case body (fst (GetNextValidLine h b R)) s of
           Inl s' \<Rightarrow> loop h b body s' (snd (GetNextValidLine h b R))
         | Inr r \<Rightarrow> Some (Inr r, snd (GetNextValidLine h b R))) = Some y"
    and R: "jammed R" and b: "\<forall>s. \<exists>s'. body [] s = Inl s'"
  have e: "\<not> reader_eof h R" using R by (auto simp: jammed_def reader_eof_def)
  obtain s' where "body [] s = Inl s'" using b by blast
  with eq e jammed_next_line [OF R, of h b]
  have "loop h b body s' (snd (GetNextValidLine h b R)) = Some y" by simp
  from IH [OF this] b jammed_next_line [OF R, of h b] show False by blast
qed

lemma jammed_loop:
  assumes "jammed R" and "\<And>s. \<exists>s'. body [] s = Inl s'"
  shows "read_loop h b body s R = None"
  using jammed_loop_aux [of h b body s R] assms by (cases "read_loop h b body s R") blast+

end
