(* ===== verification/Moos_ConfigProperties.thy ===== *)
theory Moos_ConfigProperties
  imports Moos_FileProps
begin

text \<open>
  What the configuration reader promises about a mission file: a block written out is read back
  (\<open>block_roundtrip\<close>, \<open>param_read\<close>), whatever else is in the file before it and after it;
  every call returns when the lines of the file fit the buffer (\<open>param_returns\<close>) and does not
  when a comment line is too long (\<open>long_comment_hangs\<close>); what \<open>${...}\<close> becomes
  (\<open>expand_template\<close>, \<open>empty_expansion_cuts\<close>); and what an overloaded copy says
  (\<open>overload_wins\<close>).
\<close>

section \<open>Blocks\<close>

definition spaces :: string where
  "spaces = [CHR '' '', CHR 0x09, CHR 0x0D]"

definition heads :: "string \<Rightarrow> string \<Rightarrow> bool" where
  "heads sAppName l \<longleftrightarrow>
     MOOSStrCmp (MOOSRemoveChars l spaces) (MOOSRemoveChars (''PROCESSCONFIG='' @ sAppName) spaces)"

definition param_line :: "string \<Rightarrow> string \<Rightarrow> string" where
  "param_line k v = k @ '' = '' @ v"

definition trimmed :: "string \<Rightarrow> bool" where
  "trimmed s \<longleftrightarrow> s \<noteq> [] \<and> \<not> moos_white (hd s) \<and> \<not> moos_white (last s)"

definition param_ok :: "string \<times> string \<times> string \<Rightarrow> bool" where
  "param_ok p \<longleftrightarrow> (case p of (g, k, v) \<Rightarrow>
     gap g \<and> clean (param_line k v) \<and> trimmed k \<and> trimmed v
     \<and> CHR ''='' \<notin> set k \<and> hd k \<noteq> CHR ''}'')"

definition param_lines :: "(string \<times> string \<times> string) list \<Rightarrow> (string \<times> string) list" where
  "param_lines ps = map (\<lambda>(g, k, v). (g, param_line k v)) ps"

definition mission ::
  "(string \<times> string) list \<Rightarrow> string \<times> string \<Rightarrow> string \<Rightarrow> (string \<times> string) list \<Rightarrow> string
   \<Rightarrow> string \<Rightarrow> string" where
  "mission before heading g1 block g2 after =
     render (before @ [heading, (g1, ''{'')] @ block @ [(g2, ''}'')]) @ after"

lemma GoTo_heading:
  assumes "lines_ok before" and "\<forall>l \<in> snd ` set before. \<not> heads sAppName l"
    and "gap g" and "clean l" and "heads sAppName l"
  shows "GoTo h (''PROCESSCONFIG='' @ sAppName) (open_at R w (render before @ g @ l @ newline # r)) =
    Some (True, open_at R w r)"
proof -
  define key where "key = MOOSRemoveChars (''PROCESSCONFIG='' @ sAppName) spaces"
  have b: "goto_body key l u = (if heads sAppName l then Inr () else Inl ())" for l u
    by (simp add: goto_body_def heads_def key_def spaces_def)
  have "run_lines (goto_body key) () (map snd before) = Some ()"
    using assms(2) by (induction before) (auto simp: b)
  then have
    "read_loop h True (goto_body key) () (open_at R w (render before @ g @ l @ newline # r)) =
     read_loop h True (goto_body key) () (open_at R w (g @ l @ newline # r))"
    by (rule read_loop_lines [OF assms(1)])
  also have "\<dots> = Some (Inr (), open_at R w r)"
    using assms(5) by (simp add: read_loop_line [OF assms(3,4)] b)
  finally show ?thesis by (simp add: GoTo_def key_def spaces_def)
qed

lemma brace_clean [simp]: "clean ''{''" "clean ''}''"
  by (simp_all add: clean_def isspace_def moos_white_def MAXLINESIZE_def)

lemma trim_brace: "MOOSTrimWhiteSpace ''}'' = ''}''"
  by (rule trim_id) (simp add: moos_white_def)

lemma read_mission:
  assumes "ready h (mission before (g, l) g1 block g2 after) R"
    and "lines_ok (before @ [(g, l)] @ block)" and "gap g1" and "gap g2"
    and "\<forall>l \<in> snd ` set before. \<not> heads sAppName l" and "heads sAppName l"
    and "run_lines space_body [] (map snd block) = Some Params"
  shows "read_block space_body h sAppName R =
    Some (True, Params, open_at R (mission before (g, l) g1 block g2 after) after)"
proof -
  define w where "w = mission before (g, l) g1 block g2 after"
  define t where "t = g1 @ ''{'' @ newline # render block @ g2 @ ''}'' @ newline # after"
  have w: "w = render before @ g @ l @ newline # t"
    by (simp add: w_def mission_def t_def)
  have R: "ResetFile h R = open_at R w w" using assms(1) ready_reset w_def by blast
  have go: "GoTo h (''PROCESSCONFIG='' @ sAppName) (ResetFile h R) = Some (True, open_at R w t)"
    unfolding R using assms GoTo_heading [of before sAppName g l h R w t] by (simp add: w)
  have nx: "GetNextValidLine h True (open_at R w t) =
      (''{'', open_at R w (render block @ g2 @ ''}'' @ newline # after))"
    using next_line_at [OF assms(3) brace_clean(1)] by (simp add: t_def)
  have "read_loop h True space_body [] (open_at R w (render block @ g2 @ ''}'' @ newline # after)) =
      read_loop h True space_body Params (open_at R w (g2 @ ''}'' @ newline # after))"
    using read_loop_lines assms by (metis lines_ok_simps(3))
  also have "\<dots> = Some (Inr Params, open_at R w after)"
    by (subst read_loop_line [OF assms(4) brace_clean(2)])
       (simp add: space_body_def trim_brace Let_def)
  finally have lp: "read_loop h True space_body []
      (open_at R w (render block @ g2 @ ''}'' @ newline # after)) = Some (Inr Params, open_at R w after)" .
  show ?thesis unfolding w_def [symmetric] read_block_def go
    by (simp add: nx lp del: append.simps)
qed

section \<open>Parameter lines\<close>

lemma trimmed_trim: "trimmed s \<Longrightarrow> MOOSTrimWhiteSpace s = s"
  by (rule trim_id) (simp add: trimmed_def)

lemma trim_side:
  assumes "trimmed s"
  shows "MOOSTrimWhiteSpace (s @ '' '') = s" and "MOOSTrimWhiteSpace ('' '' @ s) = s"
proof -
  show "MOOSTrimWhiteSpace (s @ '' '') = s"
    using assms trim_keeps [of s "'' ''"] by (simp add: trimmed_def moos_white_def)
  have "MOOSTrimWhiteSpace ('' '' @ s) = MOOSTrimWhiteSpace s"
    by (simp add: trim_eq moos_white_def)
  with assms trimmed_trim show "MOOSTrimWhiteSpace ('' '' @ s) = s" by simp
qed

lemma space_body_param:
  assumes "param_ok (g, k, v)"
  shows "space_body (param_line k v) Params = Inl (Params @ [k @ ''='' @ v])"
proof -
  have k: "trimmed k" and v: "trimmed v" and e: "CHR ''='' \<notin> set k" and b: "hd k \<noteq> CHR ''}''"
    using assms by (auto simp: param_ok_def)
  have "trimmed (param_line k v)"
    using k v by (simp add: trimmed_def param_line_def)
  then have t: "MOOSTrimWhiteSpace (param_line k v) = param_line k v" by (rule trimmed_trim)
  have c: "MOOSChomp (param_line k v) ''='' False = (k @ '' '', '' '' @ v)"
    using e MOOSChomp_piece [of "CHR ''=''" "k @ '' ''" "'' '' @ v"] by (simp add: param_line_def)
  have h: "take 1 (param_line k v) \<noteq> ''}''"
    using k b by (cases k) (auto simp: trimmed_def param_line_def)
  have "k \<noteq> []" "v \<noteq> []" using k v by (simp_all add: trimmed_def)
  then show ?thesis
    unfolding space_body_def Let_def t using c h trim_side [OF k] trim_side [OF v] by simp
qed

lemma run_params:
  "\<forall>p \<in> set ps. param_ok p \<Longrightarrow>
   run_lines space_body Params (map snd (param_lines ps)) =
     Some (Params @ map (\<lambda>(g, k, v). k @ ''='' @ v) ps)"
  by (induction ps arbitrary: Params) (auto simp: param_lines_def space_body_param)

lemma param_lines_ok: "\<forall>p \<in> set ps. param_ok p \<Longrightarrow> lines_ok (param_lines ps)"
  by (auto simp: param_lines_def lines_ok_def param_ok_def)

definition lookup_param :: "string \<Rightarrow> (string \<times> string \<times> string) list \<Rightarrow> string option" where
  "lookup_param sParam ps =
     map_option (\<lambda>(g, k, v). v) (find (\<lambda>(g, k, v). MOOSStrCmp k sParam) ps)"

lemma find_param_line:
  assumes "param_ok (g, k, v)"
  shows "find_param sParam ((k @ ''='' @ v) # ps) =
    (if MOOSStrCmp k sParam then Some v else find_param sParam ps)"
  using assms MOOSChomp_piece [of "CHR ''=''" k v]
  by (auto simp: param_ok_def trimmed_trim trimmed_def)

lemma find_params:
  "\<forall>p \<in> set ps. param_ok p \<Longrightarrow>
   find_param sParam (map (\<lambda>(g, k, v). k @ ''='' @ v) ps @ qs) =
     (case lookup_param sParam ps of Some v \<Rightarrow> Some v | None \<Rightarrow> find_param sParam qs)"
proof (induction ps)
  case Nil
  then show ?case by (simp add: lookup_param_def)
next
  case (Cons p ps)
  obtain g k v where p: "p = (g, k, v)" by (cases p)
  have "find_param sParam ((k @ ''='' @ v) # map (\<lambda>(g, k, v). k @ ''='' @ v) ps @ qs) =
      (if MOOSStrCmp k sParam then Some v
       else find_param sParam (map (\<lambda>(g, k, v). k @ ''='' @ v) ps @ qs))"
    using Cons.prems p by (intro find_param_line [of g]) simp
  with Cons p show ?case by (simp add: lookup_param_def del: find_param.simps)
qed

section \<open>Reading a block back\<close>

lemma ready_audit: "ready h w (c_file (audit a p C)) = ready h w (c_file C)"
  by (simp add: audit_def)

lemma block_read_lemma:
  assumes "ready h (mission before (g, l) g1 (param_lines ps) g2 after) (c_file C)"
    and "lines_ok (before @ [(g, l)])" and "gap g1" and "gap g2" and "\<forall>p \<in> set ps. param_ok p"
    and "\<forall>l \<in> snd ` set before. \<not> heads sAppName l" and "heads sAppName l"
  shows "GetConfigurationAndPreserveSpace h sAppName C =
    Some (True, map (\<lambda>(g, k, v). k @ ''='' @ v) ps,
      C\<lparr>c_file := open_at (c_file C) (mission before (g, l) g1 (param_lines ps) g2 after) after\<rparr>)"
proof -
  have "lines_ok (before @ [(g, l)] @ param_lines ps)"
    using assms(2) param_lines_ok [OF assms(5)] by simp
  from read_mission [OF assms(1) this assms(3,4,6,7)] run_params [OF assms(5), of "[]"]
  show ?thesis by (simp add: GetConfigurationAndPreserveSpace_def)
qed

lemma param_read_lemma:
  assumes "ready h (mission before (g, l) g1 (param_lines ps) g2 after) (c_file C)"
    and "lines_ok (before @ [(g, l)])" and "gap g1" and "gap g2" and "\<forall>p \<in> set ps. param_ok p"
    and "\<forall>l \<in> snd ` set before. \<not> heads sAppName l" and "heads sAppName l"
  shows "\<exists>C'. GetConfigurationParam_of h sAppName sParam C = Some (lookup_param sParam ps, C')
    \<and> ready h (mission before (g, l) g1 (param_lines ps) g2 after) (c_file C')
    \<and> MOOSToLower sParam \<in> set (GetSearchedParameters sAppName C')"
proof -
  define w where "w = mission before (g, l) g1 (param_lines ps) g2 after"
  define C1 where "C1 = audit sAppName sParam (C\<lparr>c_file := ResetFile h (c_file C)\<rparr>)"
  have R: "ResetFile h (c_file C) = open_at (c_file C) w w"
    using assms(1) ready_reset w_def by blast
  have r1: "ready h w (c_file C1)"
    using assms(1) by (simp add: C1_def ready_audit R) (simp add: ready_def w_def)
  have "find_param sParam (map (\<lambda>(g, k, v). k @ ''='' @ v) ps) = lookup_param sParam ps"
    using find_params [OF assms(5), of sParam "[]"] by (simp split: option.splits)
  with block_read_lemma [OF r1 [unfolded w_def] assms(2-7)]
  have "GetConfigurationParam_of h sAppName sParam C =
      Some (lookup_param sParam ps, C1\<lparr>c_file := open_at (c_file C1) w after\<rparr>)"
    by (simp add: GetConfigurationParam_of_def C1_def w_def)
  moreover have "ready h w (open_at (c_file C1) w after)"
    using r1 by (simp add: ready_def open_at_def)
  moreover have "MOOSToLower sParam \<in> set (GetSearchedParameters sAppName C1)"
    by (simp add: C1_def audit_def GetSearchedParameters_def map_get_def set_insort_insert)
  ultimately show ?thesis by (auto simp: w_def GetSearchedParameters_def)
qed

section \<open>Lines in brackets\<close>

text \<open>A line without a value that has a bracket in it is kept, and ends every later search.\<close>

lemma space_body_bracket:
  assumes "trimmed b" and "CHR ''='' \<notin> set b" and "has_bracket b" and "hd b \<noteq> CHR ''}''"
  shows "space_body b Params = Inl (Params @ [b])"
proof -
  have "take 1 b \<noteq> ''}''" using assms(1,4) by (cases b) (auto simp: trimmed_def)
  moreover have "MOOSTrimWhiteSpace [] = []" by (simp add: trim_eq)
  ultimately show ?thesis
    using assms MOOSChomp_last [OF assms(2)]
    by (simp add: space_body_def trimmed_trim Let_def trimmed_def)
qed

lemma find_param_bracket: "CHR ''='' \<notin> set b \<Longrightarrow> find_param sParam (b # ps) = None"
  by (simp add: MOOSChomp_last)

lemma run_lines_append:
  "run_lines body s (ls @ ls') = Option.bind (run_lines body s ls) (\<lambda>t. run_lines body t ls')"
  by (induction ls arbitrary: s) (auto split: sum.splits)

lemma bracket_hides_lemma:
  assumes "ready h (mission before (g, l) g1 (param_lines ps @ [(gb, b)] @ param_lines qs) g2 after)
      (c_file C)"
    and "lines_ok (before @ [(g, l), (gb, b)])" and "gap g1" and "gap g2"
    and "\<forall>p \<in> set (ps @ qs). param_ok p"
    and "\<forall>l \<in> snd ` set before. \<not> heads sAppName l" and "heads sAppName l"
    and "trimmed b" and "CHR ''='' \<notin> set b" and "has_bracket b" and "hd b \<noteq> CHR ''}''"
    and "lookup_param sParam ps = None"
  shows "\<exists>C'. GetConfigurationParam_of h sAppName sParam C = Some (None, C')"
proof -
  define w where "w = mission before (g, l) g1 (param_lines ps @ [(gb, b)] @ param_lines qs) g2 after"
  define C1 where "C1 = audit sAppName sParam (C\<lparr>c_file := ResetFile h (c_file C)\<rparr>)"
  define line where "line = (\<lambda>(g :: string, k, v). k @ ''='' @ v)"
  have R: "ResetFile h (c_file C) = open_at (c_file C) w w"
    using assms(1) ready_reset w_def by blast
  have r1: "ready h w (c_file C1)"
    using assms(1) by (simp add: C1_def ready_audit R) (simp add: ready_def w_def)
  have ok: "lines_ok (before @ [(g, l)] @ param_lines ps @ [(gb, b)] @ param_lines qs)"
    using assms(2) param_lines_ok [of ps] param_lines_ok [of qs] assms(5) by simp
  have run: "run_lines space_body [] (map snd (param_lines ps @ [(gb, b)] @ param_lines qs)) =
      Some (map line ps @ b # map line qs)"
    using assms(5) space_body_bracket [OF assms(8-11)] run_params [of ps "[]"] run_params [of qs]
    by (simp add: run_lines_append line_def)
  have "find_param sParam (map line ps @ b # map line qs) = None"
    using find_params [of ps sParam "b # map line qs"] assms(5,12) find_param_bracket [OF assms(9)]
    by (simp add: line_def del: find_param.simps)
  with read_mission [OF r1 [unfolded w_def] ok assms(3,4,6,7) run] show ?thesis
    by (auto simp: GetConfigurationParam_of_def GetConfigurationAndPreserveSpace_def
        simp flip: C1_def)
qed

section \<open>Calls that return\<close>

definition reading :: "host \<Rightarrow> string \<Rightarrow> file_reader \<Rightarrow> bool" where
  "reading h w R \<longleftrightarrow> r_sFileName R \<noteq> [] \<and> h_disk h (r_sFileName R) = Some w \<and> lines_fit w
     \<and> (\<exists>st. r_File R = Some st \<and> stream_ok st \<and> f_whole st = w)"

lemma reading_reset: "ready h w R \<Longrightarrow> lines_fit w \<Longrightarrow> reading h w (ResetFile h R)"
  by (simp add: ready_reset reading_def) (simp add: ready_def open_at_def stream_ok_def)

lemma reading_ready: "reading h w R \<Longrightarrow> ready h w R"
  by (auto simp: reading_def ready_def stream_ok_def)

lemma reading_open: "reading h w R \<Longrightarrow> IsOpen h R"
  by (auto simp: reading_def IsOpen_def)

lemma reading_loop:
  assumes "reading h w R"
  shows "\<exists>x R'. read_loop h b body s R = Some (x, R') \<and> reading h w R'"
proof -
  obtain st where st: "r_File R = Some st" "stream_ok st" "f_whole st = w"
    using assms by (auto simp: reading_def)
  from read_loop_returns [OF st(1,2), of h b body s] st(3) assms show ?thesis
    by (fastforce simp: reading_def)
qed

lemma reading_next:
  assumes "reading h w R"
  shows "reading h w (snd (GetNextValidLine h b R))"
proof -
  obtain st where st: "r_File R = Some st" "stream_ok st" "f_whole st = w"
    using assms by (auto simp: reading_def)
  show ?thesis
  proof (cases "f_eof st")
    case True
    with st assms show ?thesis by (simp add: GetNextValidLine_def)
  next
    case False
    from next_line_ok [OF st(1,2) False, of h b] st(3) assms show ?thesis
      by (auto simp: reading_def)
  qed
qed

lemma GoTo_returns:
  assumes "reading h w R"
  shows "\<exists>b R'. GoTo h key R = Some (b, R') \<and> reading h w R'"
proof -
  define k where "k = MOOSRemoveChars key [CHR '' '', CHR 0x09, CHR 0x0D]"
  obtain x R' where "read_loop h True (goto_body k) () R = Some (x, R')" "reading h w R'"
    using reading_loop [OF assms, of True "goto_body k" "()"] by blast
  with reading_open [OF assms] show ?thesis
    by (simp add: GoTo_def del: MOOSRemoveChars.simps flip: k_def)
qed

lemma read_block_returns:
  assumes "ready h w R" and "lines_fit w"
  shows "\<exists>b Params R'. read_block body h a R = Some (b, Params, R') \<and> reading h w R'"
proof -
  obtain b R1 where go: "GoTo h (''PROCESSCONFIG='' @ a) (ResetFile h R) = Some (b, R1)" "reading h w R1"
    using GoTo_returns [OF reading_reset [OF assms]] by blast
  define R2 where "R2 = snd (GetNextValidLine h True R1)"
  have R2: "reading h w R2" unfolding R2_def by (rule reading_next [OF go(2)])
  obtain x R3 where lp: "read_loop h True body [] R2 = Some (x, R3)" "reading h w R3"
    using reading_loop [OF R2, of True body "[]"] by blast
  show ?thesis
  proof (cases b)
    case False
    with go show ?thesis
      by (intro exI [of _ False]) (simp add: read_block_def del: append.simps)
  next
    case True
    with go R2 lp show ?thesis
      by (cases x) (auto simp: read_block_def split_beta simp flip: R2_def simp del: append.simps)
  qed
qed

lemma param_returns_lemma:
  assumes "ready h w (c_file C)" and "lines_fit w"
  shows "\<exists>v C'. GetConfigurationParam_of h a p C = Some (v, C') \<and> ready h w (c_file C')"
proof -
  define C1 where "C1 = audit a p (C\<lparr>c_file := ResetFile h (c_file C)\<rparr>)"
  have "ready h w (c_file C1)"
    unfolding C1_def ready_audit using reading_ready [OF reading_reset [OF assms]] by simp
  from read_block_returns [OF this assms(2), of space_body a] obtain b Params R' where
    "read_block space_body h a (c_file C1) = Some (b, Params, R')" "reading h w R'" by blast
  with reading_ready show ?thesis
    by (simp add: GetConfigurationParam_of_def GetConfigurationAndPreserveSpace_def flip: C1_def)
qed

lemma GetValue_returns:
  assumes "ready h w R" and "lines_fit w"
  shows "\<exists>v R'. GetValue h n R = Some (v, R') \<and> ready h w R'"
proof -
  have "ResetFile h R = open_at R w w" using assms(1) by (rule ready_reset)
  then have "reading h w (on_file h f_rewind (ResetFile h R))"
    using reading_reset [OF assms] by (simp add: rewind_open_at)
  from reading_loop [OF this, of True "value_body n" "()"] obtain x R' where
    "read_loop h True (value_body n) () (on_file h f_rewind (ResetFile h R)) = Some (x, R')"
    "reading h w R'" by blast
  with ready_open [OF assms(1)] reading_ready show ?thesis by (simp add: GetValue_def)
qed

lemma SetFile_returns:
  assumes "f \<noteq> []" and "h_disk h f = Some w" and "lines_fit w"
  shows "\<exists>R'. SetFile h f R = Some (True, R') \<and> ready h w R' \<and> r_sFileName R' = f"
proof -
  define R1 where "R1 = (GetFile h (R\<lparr>r_sFileName := f\<rparr>))\<lparr>r_File := None\<rparr>"
  have n1: "r_sFileName R1 = f" by (simp add: R1_def GetFile_def)
  have r1: "ready h w R1" using assms n1 by (simp add: ready_def) (simp add: R1_def)
  have o: "IsOpen h (R\<lparr>r_sFileName := f\<rparr>)"
    using assms by (cases "r_File R") (simp_all add: IsOpen_def GetFile_def)
  define R2 where "R2 = on_file h f_rewind (ResetFile h R1)"
  have R2: "R2 = open_at R1 w w" using ready_reset [OF r1] by (simp add: R2_def rewind_open_at)
  define st where "st = \<lparr>f_whole = w, f_rest = w, f_eof = False, f_fail = False\<rparr>"
  have "stream_ok st" using assms(3) by (simp add: st_def stream_ok_def)
  with read_loop_returns [of R2 st h False shell_body "r_LocalShellVariables R1"]
  obtain x st' where lp: "read_loop h False shell_body (r_LocalShellVariables R1) R2 =
      Some (x, R2\<lparr>r_File := Some st'\<rparr>)" and st': "stream_ok st'" "f_whole st' = w"
    by (auto simp: R2 open_at_def st_def)
  define R3 where "R3 = (R2\<lparr>r_File := Some st'\<rparr>)\<lparr>r_LocalShellVariables :=
      (case x of Inl vars \<Rightarrow> vars | Inr _ \<Rightarrow> r_LocalShellVariables (R2\<lparr>r_File := Some st'\<rparr>))\<rparr>"
  have b: "BuildLocalShellVars h R1 = Some (True, ResetFile h R3)"
    using ready_open [OF r1] lp by (simp add: BuildLocalShellVars_def R3_def flip: R2_def)
  have n3: "r_sFileName R3 = f" by (simp add: R3_def R2 n1)
  have "ready h w R3"
    using assms st' n3 by (simp add: ready_def) (simp add: R3_def stream_ok_def)
  then have "ready h w (ResetFile h R3)" "r_sFileName (ResetFile h R3) = f"
    using ready_reset n3 assms by auto
  with b o show ?thesis by (simp add: SetFile_def Let_def flip: R1_def)
qed

section \<open>A comment that is too long\<close>

lemma long_comment_jammed:
  assumes "newline \<notin> set x" and "1998 \<le> length x"
  shows "fst (GetNextValidLine h b (open_at R w (''//'' @ x @ r))) = []
    \<and> jammed (snd (GetNextValidLine h b (open_at R w (''//'' @ x @ r))))"
proof -
  define st where "st = \<lparr>f_whole = w, f_rest = ''//'' @ x @ r, f_eof = False, f_fail = False\<rparr>"
  define st' where "st' = st\<lparr>f_rest := drop 1999 (''//'' @ x @ r), f_fail := True\<rparr>"
  have ws: "f_ws st = st" by (simp add: f_ws_def f_good_def st_def isspace_def)
  have "takeWhile (\<lambda>c. c \<noteq> newline) (''//'' @ x @ r) =
      ''//'' @ x @ takeWhile (\<lambda>c. c \<noteq> newline) r"
    using assms(1) by (auto simp: takeWhile_append)
  then have tk: "take 1999 (takeWhile (\<lambda>c. c \<noteq> newline) (''//'' @ x @ r)) = ''//'' @ take 1997 x"
    using assms(2) by simp
  obtain c y where d: "drop 1999 (''//'' @ x @ r) = c # y" and c: "c \<noteq> newline"
  proof -
    have "drop 1997 x \<noteq> []" using assms(2) by simp
    then obtain c z where z: "drop 1997 x = c # z" by (cases "drop 1997 x") auto
    then have "c \<in> set x" by (metis in_set_dropD list.set_intros(1))
    with assms(1) have "c \<noteq> newline" by blast
    moreover have "drop 1999 (''//'' @ x @ r) = c # z @ r" using z assms(2) by simp
    ultimately show ?thesis using that by blast
  qed
  have "f_getline MAXLINESIZE st = (''//'' @ take 1997 x, st')"
    unfolding f_getline_def Let_def MAXLINESIZE_def
    using tk d c assms(2) by (simp add: st_def st'_def f_good_def)
  then have rl: "read_line st = (''//'' @ takeWhile (\<lambda>c. c \<noteq> CHR 0x00) (take 1997 x), st')"
    by (simp add: read_line_def ws)
  have rl': "read_line st' = ([], st')"
    by (simp add: read_line_def f_ws_def f_getline_def f_good_def st'_def)
  have v: "valid_line st = ([], st')"
    using IsComment_comment [of "takeWhile (\<lambda>c. c \<noteq> CHR 0x00) (take 1997 x)"]
    by (simp add: valid_line_def rl rl' skip_comments.simps [of "''//'' @ _"]
        skip_comments.simps [of "[]"] del: append.simps)
  have "jammed (R\<lparr>r_File := Some st'\<rparr>)" by (simp add: jammed_def st'_def st_def)
  moreover have "open_at R w (''//'' @ x @ r) = R\<lparr>r_File := Some st\<rparr>" "\<not> f_eof st"
    by (simp_all add: open_at_def st_def)
  ultimately show ?thesis
    using next_line_valid [OF _ _ v, of "R\<lparr>r_File := Some st\<rparr>" h b]
    by (simp add: unquote_line_def cut_comment_def expand_none Let_def del: append.simps)
qed

lemma goto_body_nil: "goto_body (MOOSRemoveChars (''PROCESSCONFIG='' @ a) spaces) [] u = Inl ()"
  by (simp add: goto_body_def MOOSStrCmp_def MOOSToUpper_def MOOSRemoveChars_eq spaces_def)

lemma long_comment_hangs_lemma:
  assumes "ready h (render before @ ''//'' @ x @ r) (c_file C)" and "lines_ok before"
    and "\<forall>l \<in> snd ` set before. \<not> heads sAppName l"
    and "newline \<notin> set x" and "1998 \<le> length x"
  shows "GetConfigurationParam_of h sAppName sParam C = None"
proof -
  define w where "w = render before @ ''//'' @ x @ r"
  define C1 where "C1 = audit sAppName sParam (C\<lparr>c_file := ResetFile h (c_file C)\<rparr>)"
  define R1 where "R1 = c_file C1"
  have r1: "ready h w R1"
    using assms(1) ready_reset [OF assms(1)] by (simp add: R1_def C1_def ready_audit w_def)
       (simp add: ready_def)
  define key where "key = MOOSRemoveChars (''PROCESSCONFIG='' @ sAppName) spaces"
  have b: "goto_body key l u = (if heads sAppName l then Inr () else Inl ())" for l u
    by (simp add: goto_body_def heads_def key_def spaces_def)
  have nil: "goto_body key [] u = Inl ()" for u
    unfolding key_def by (rule goto_body_nil)
  have "run_lines (goto_body key) () (map snd before) = Some ()"
    using assms(3) by (induction before) (auto simp: b)
  then have "read_loop h True (goto_body key) () (open_at R1 w w) =
      read_loop h True (goto_body key) () (open_at R1 w (''//'' @ x @ r))"
    unfolding w_def by (rule read_loop_lines [OF assms(2)])
  also have "\<dots> = read_loop h True (goto_body key) ()
      (snd (GetNextValidLine h True (open_at R1 w (''//'' @ x @ r))))"
    using long_comment_jammed [OF assms(4,5), of h True R1 w r]
    by (subst read_loop.simps) (simp add: nil del: append.simps)
  also have "\<dots> = None"
    using long_comment_jammed [OF assms(4,5), of h True R1 w r] nil by (intro jammed_loop) auto
  finally have "GoTo h (''PROCESSCONFIG='' @ sAppName) (ResetFile h R1) = None"
    unfolding ready_reset [OF r1] by (simp add: GoTo_def spaces_def flip: key_def)
       (simp add: key_def spaces_def)
  then show ?thesis
    by (simp add: GetConfigurationParam_of_def GetConfigurationAndPreserveSpace_def read_block_def
        R1_def C1_def del: append.simps)
qed

section \<open>Expansion\<close>

lemma search_dollar:
  "search_by (=) t ''${'' = None \<Longrightarrow> search_by (=) (t @ ''${'' @ r) ''${'' = Some (length t)"
proof (induction t)
  case (Cons c t)
  then show ?case by (cases t) (auto split: if_splits)
qed simp

lemma expand_step:
  assumes "search_by (=) t ''${'' = None" and "CHR ''}'' \<notin> set n" and "n \<noteq> []"
    and "expand_name h vars n \<noteq> []"
  shows "expand_loop h vars (t @ ''${'' @ n @ ''}'' @ r) b =
    expand_loop h vars r (b @ t @ expand_name h vars n)"
proof -
  have c1: "MOOSChomp (t @ ''${'' @ n @ ''}'' @ r) ''${'' False = (t, n @ ''}'' @ r)"
    using search_dollar [OF assms(1), of "n @ ''}'' @ r"]
    by (simp add: MOOSChomp_def MOOSStrFind_def)
  have c2: "MOOSChomp (n @ ''}'' @ r) ''}'' False = (n, r)"
    using MOOSChomp_piece [OF assms(2)] by simp
  show ?thesis
    by (subst expand_loop.simps) (simp only: c1 c2 Let_def prod.case assms if_False)
qed

text \<open>A text with expansions: pieces of text each followed by a name in braces, and the rest.\<close>

fun template :: "(string \<times> string) list \<Rightarrow> string \<Rightarrow> string" where
  "template [] r = r"
| "template ((t, n) # ps) r = t @ ''${'' @ n @ ''}'' @ template ps r"

fun expanded :: "(string \<Rightarrow> string) \<Rightarrow> (string \<times> string) list \<Rightarrow> string \<Rightarrow> string" where
  "expanded f [] r = r"
| "expanded f ((t, n) # ps) r = t @ f n @ expanded f ps r"

lemma expand_template_loop:
  assumes "\<forall>(t, n) \<in> set ps. search_by (=) t ''${'' = None \<and> CHR ''}'' \<notin> set n \<and> n \<noteq> []
      \<and> expand_name h vars n \<noteq> []"
  shows "expand_loop h vars (template ps r) b =
    expand_loop h vars r (b @ expanded (expand_name h vars) ps [])"
  using assms
proof (induction ps arbitrary: b)
  case (Cons p ps)
  obtain t n where p: "p = (t, n)" by (cases p)
  with Cons show ?case by (simp only: template.simps expanded.simps) (simp add: expand_step del: append.simps)
qed simp

lemma expanded_append: "expanded f ps [] @ r = expanded f ps r"
  by (induction ps) auto

lemma expand_last:
  "search_by (=) r ''${'' = None \<Longrightarrow> expand_loop h vars r b = b @ r"
  by (subst expand_loop.simps) (simp add: MOOSChomp_def MOOSStrFind_def)

lemma expand_empty:
  assumes "search_by (=) t ''${'' = None" and "CHR ''}'' \<notin> set n"
    and "n = [] \<or> expand_name h vars n = []"
  shows "expand_loop h vars (t @ ''${'' @ n @ ''}'' @ r) b = b @ t"
proof -
  have c1: "MOOSChomp (t @ ''${'' @ n @ ''}'' @ r) ''${'' False = (t, n @ ''}'' @ r)"
    using search_dollar [OF assms(1), of "n @ ''}'' @ r"]
    by (simp add: MOOSChomp_def MOOSStrFind_def)
  have c2: "MOOSChomp (n @ ''}'' @ r) ''}'' False = (n, r)"
    using MOOSChomp_piece [OF assms(2)] by simp
  show ?thesis
    using assms(3) by (subst expand_loop.simps) (auto simp only: c1 c2 Let_def prod.case if_True if_False split: if_splits)
qed

section \<open>Overloaded copies\<close>

definition text_of :: "string list \<Rightarrow> string" where
  "text_of ls = concat (map (\<lambda>l. l @ [newline]) ls)"

lemma copy_loop_text:
  assumes "\<forall>l \<in> set ls. newline \<notin> set l \<and> CHR 0x00 \<notin> set l \<and> length l < MAXLINESIZE"
  shows "\<exists>st'. copy_loop OL \<lparr>f_whole = w, f_rest = text_of ls, f_eof = False, f_fail = False\<rparr> out =
      Some (out @ concat (map (copy_line OL) ls) @ [newline], st') \<and> f_whole st' = w \<and> f_eof st'"
  using assms
proof (induction ls arbitrary: out)
  case Nil
  have "copy_line OL [] = [newline]" by (simp add: copy_line_def trim_eq)
  then show ?case
    by (simp add: text_of_def copy_loop.simps f_getline_def f_good_def)
next
  case (Cons l ls)
  have l: "newline \<notin> set l" "CHR 0x00 \<notin> set l" "length l < MAXLINESIZE" using Cons.prems by auto
  have t: "takeWhile (\<lambda>c. c \<noteq> newline) (l @ newline # text_of ls) = l"
    using l(1) by (auto simp: takeWhile_append takeWhile_eq_all_conv)
  have "take (MAXLINESIZE - 1) l = l" using l(3) by simp
  then have g: "f_getline MAXLINESIZE
        \<lparr>f_whole = w, f_rest = text_of (l # ls), f_eof = False, f_fail = False\<rparr> =
      (l, \<lparr>f_whole = w, f_rest = text_of ls, f_eof = False, f_fail = False\<rparr>)"
    using t by (simp add: f_getline_def f_good_def text_of_def Let_def)
  show ?case
    using Cons.IH [of "out @ copy_line OL l"] Cons.prems
    by (subst copy_loop.simps) (simp add: g takeWhile_notin [OF l(2)])
qed

text \<open>The line of the copy that a line of the original becomes, with the comments before it.\<close>

definition copied :: "(string, string) omap \<Rightarrow> string \<Rightarrow> string \<times> string" where
  "copied OL l =
     (case Option.bind (GetTokenValPair l False) (\<lambda>(t, _). map_option (\<lambda>v. (t, v)) (map_of OL t)) of
        None \<Rightarrow> ([], l)
      | Some (t, v) \<Rightarrow>
          (''//----  Next Line was commented and replaced with a command line overload ---- //''
             @ [newline] @ ''//'' @ l @ ''    (default)'' @ [newline], t @ '' = '' @ v))"

definition copyable :: "(string, string) omap \<Rightarrow> string \<Rightarrow> bool" where
  "copyable OL l \<longleftrightarrow> clean l \<and> length l < 1980
     \<and> (\<forall>t v. (t, v) \<in> set OL \<longrightarrow> clean (t @ '' = '' @ v))"

lemma clean_no_comment: "clean l \<Longrightarrow> MOOSTrimWhiteSpace l \<noteq> [] \<and> take 2 (MOOSTrimWhiteSpace l) \<noteq> ''//''"
proof -
  assume c: "clean l"
  then have "\<not> moos_white (hd l)" using moos_white_isspace by (auto simp: clean_def)
  with c have t: "MOOSTrimWhiteSpace l = l" by (intro trim_id) (simp add: clean_def)
  have "search_by (=) l ''//'' = None" "l \<noteq> []" using c by (simp_all add: clean_def)
  then have "take 2 l \<noteq> ''//''"
    using search_by_None [of l "''//''" 0] prefix_by_eq [of "''//''" l]
    by (auto simp: numeral_2_eq_2)
  with t \<open>l \<noteq> []\<close> show ?thesis by simp
qed

lemma copy_line_render: "clean l \<Longrightarrow> copy_line OL l = render [copied OL l]"
  using clean_no_comment [of l]
  by (auto simp: copy_line_def copied_def Let_def split: option.splits)

lemma copy_lines_render:
  "\<forall>x \<in> set ls. clean x \<Longrightarrow> concat (map (copy_line OL) ls) = render (map (copied OL) ls)"
  by (induction ls) (auto simp: copy_line_render render_def)

lemma copied_ok:
  assumes "copyable OL l"
  shows "gap (fst (copied OL l)) \<and> clean (snd (copied OL l))"
proof (cases "Option.bind (GetTokenValPair l False) (\<lambda>(t, _). map_option (\<lambda>v. (t, v)) (map_of OL t))")
  case None
  with assms show ?thesis by (simp add: copied_def copyable_def gap_Nil)
next
  case (Some p)
  obtain t v where p: "p = (t, v)" by (cases p)
  with Some have "(t, v) \<in> set OL" by (auto simp: bind_eq_Some_conv dest: map_of_SomeD)
  then have c: "clean (t @ '' = '' @ v)" using assms by (simp add: copyable_def)
  have nl: "newline \<notin> set l" "length l < 1980"
    using assms by (auto simp: copyable_def clean_def)
  have g2: "gap (''//'' @ (l @ ''    (default)'') @ newline # [])"
    using nl by (intro gap_comment gap_Nil) auto
  have "gap (''//'' @ ''----  Next Line was commented and replaced with a command line overload ---- //''
      @ newline # (''//'' @ (l @ ''    (default)'') @ newline # []))"
    by (rule gap_comment [OF _ _ g2]) auto
  with Some p c show ?thesis by (simp add: copied_def)
qed

definition token_of :: "string \<Rightarrow> string option" where
  "token_of l = map_option fst (GetTokenValPair l False)"

lemma token_pair:
  assumes "GetTokenValPair l False = Some (t, v)"
  shows "GetTokenValPair (t @ '' = '' @ u) False = Some (t, MOOSRemoveChars u spaces)"
proof -
  define s where "s = filter (\<lambda>c. c \<notin> set spaces) l"
  have "t = takeWhile (\<lambda>x. x \<noteq> CHR ''='') s"
    using assms
    by (auto simp: GetTokenValPair_def MOOSRemoveChars_eq Let_def MOOSChomp_char s_def spaces_def
        conj_ac split: if_splits)
  then have e: "CHR ''='' \<notin> set t" and b: "\<forall>c \<in> set t. c \<notin> set spaces"
    by (auto simp: s_def dest: set_takeWhileD)
  have f: "filter (\<lambda>c. c \<notin> set spaces) t = t" using b by (intro filter_True) auto
  have "MOOSRemoveChars (MOOSRemoveChars (t @ '' = '' @ u) [CHR 0x0D]) [CHR '' '', CHR 0x09] =
      filter (\<lambda>c. c \<notin> set spaces) (t @ '' = '' @ u)"
    unfolding MOOSRemoveChars_eq filter_filter by (rule filter_cong) (auto simp: spaces_def)
  also have "\<dots> = t @ CHR ''='' # MOOSRemoveChars u spaces"
    by (simp add: f MOOSRemoveChars_eq) (simp add: spaces_def)
  finally show ?thesis
    using MOOSChomp_piece [OF e] by (simp add: GetTokenValPair_def)
qed

lemma copied_token: "token_of (snd (copied OL l)) = token_of l"
proof (cases "GetTokenValPair l False")
  case None
  then show ?thesis by (simp add: copied_def)
next
  case (Some p)
  obtain t v where p: "p = (t, v)" by (cases p)
  with Some token_pair [of l t v] show ?thesis
    by (cases "map_of OL t") (auto simp: copied_def token_of_def)
qed

lemma overload_lemma:
  assumes "ready h (text_of (before @ [l] @ after)) R"
    and "\<forall>x \<in> set (before @ [l] @ after). copyable OL x"
    and "token_of l = Some k" and "map_of OL k = Some u"
    and "\<forall>x \<in> set before. \<forall>t. token_of x = Some t \<longrightarrow> \<not> MOOSStrCmp t k"
  shows "\<exists>out R'. MakeOverloadedCopy h True OL R = Some (Some out, R')
    \<and> (\<forall>h' R2. ready h' out R2 \<longrightarrow>
        (\<exists>R3. GetValue h' k R2 = Some (Some (MOOSRemoveChars u spaces), R3)))"
proof -
  define ls where "ls = before @ [l] @ after"
  define cs where "cs = map (copied OL) ls"
  define out where "out = render cs @ [newline]"
  have cl: "\<forall>x \<in> set ls. clean x" using assms(2) by (simp add: ls_def copyable_def)
  have con: "concat (map (copy_line OL) ls) = render cs"
    using cl unfolding cs_def by (rule copy_lines_render)
  have "\<forall>x \<in> set ls. newline \<notin> set x \<and> CHR 0x00 \<notin> set x \<and> length x < MAXLINESIZE"
    using cl by (auto simp: clean_def)
  from copy_loop_text [OF this, of OL "text_of ls" "[]"] con
  obtain st' where st': "copy_loop OL
      \<lparr>f_whole = text_of ls, f_rest = text_of ls, f_eof = False, f_fail = False\<rparr> [] = Some (out, st')"
    by (auto simp: out_def)
  have R: "on_file h f_rewind (ResetFile h R) = open_at R (text_of ls) (text_of ls)"
    using ready_reset [OF assms(1)] by (simp add: rewind_open_at ls_def)
  have "\<exists>R'. MakeOverloadedCopy h True OL R = Some (Some out, R')"
    using ready_open [OF assms(1)] st'
    by (simp add: MakeOverloadedCopy_def R) (simp add: open_at_def)
  moreover have "\<exists>R3. GetValue h' k R2 = Some (Some (MOOSRemoveChars u spaces), R3)"
    if r2: "ready h' out R2" for h' R2
  proof -
    obtain g y where c: "copied OL l = (g, y)" by (cases "copied OL l")
    obtain v where tv: "GetTokenValPair l False = Some (k, v)"
      using assms(3) by (auto simp: token_of_def)
    have y: "y = k @ '' = '' @ u" using c tv assms(4) by (auto simp: copied_def)
    have gy: "gap g" "clean y" using copied_ok [of OL l] assms(2) c by auto
    define bs where "bs = map (copied OL) before"
    have o: "out = render bs @ g @ y @ newline # render (map (copied OL) after) @ [newline]"
      by (simp add: out_def cs_def ls_def bs_def c)
    have bok: "lines_ok bs" using copied_ok assms(2) by (simp add: lines_ok_def bs_def split_beta)
    have miss: "value_body k x () = Inl ()" if "\<forall>t. token_of x = Some t \<longrightarrow> \<not> MOOSStrCmp t k" for x
      using that by (auto simp: value_body_def token_of_def split: option.splits)
    have "run_lines (value_body k) () (map snd bs) = Some ()"
      using assms(5) unfolding bs_def
      by (induction before) (auto simp: miss copied_token)
    from read_loop_lines [OF bok this] have
      "read_loop h' True (value_body k) () (open_at R2 out out) =
       read_loop h' True (value_body k) ()
         (open_at R2 out (g @ y @ newline # render (map (copied OL) after) @ [newline]))"
      unfolding o .
    also have "\<dots> = Some (Inr (MOOSRemoveChars u spaces),
        open_at R2 out (render (map (copied OL) after) @ [newline]))"
      using token_pair [OF tv, of u]
      by (subst read_loop_line [OF gy]) (simp add: value_body_def y MOOSStrCmp_def del: append.simps)
    finally show ?thesis
      using ready_open [OF r2] ready_reset [OF r2]
      by (simp add: GetValue_def found_def rewind_open_at)
  qed
  ultimately show ?thesis by blast
qed

section \<open>Properties\<close>

text \<open>C5: A configuration block reads back as it was written. The block is the first headed by the
  application's name (spelt in any case, with any blanks) and holds, between
  a line \<open>{\<close> and a line \<open>}\<close>, the parameters \<open>ps\<close>, each on a line \<open>name = value\<close> with both sides not
  empty and a name that does not start with a brace; then the value of a parameter is the one of the first
  line with its name, in any case, or it has none, whatever follows the block in the file. Before
  the block and in it there may be blank lines and whole comment lines of less than 2000 characters;
  every other line is shorter than 2000 characters and has no quotes, \<open>//\<close>, expansion or NUL in it.
  The reader is then fit for the next call, and the name asked for is in the audit.\<close>

theorem param_read:
  assumes "ready h (mission before (g, l) g1 (param_lines ps) g2 after) (c_file C)"
    and "lines_ok (before @ [(g, l)])" and "gap g1" and "gap g2" and "\<forall>p \<in> set ps. param_ok p"
    and "\<forall>l \<in> snd ` set before. \<not> heads sAppName l" and "heads sAppName l"
  shows "\<exists>C'. GetConfigurationParam_of h sAppName sParam C = Some (lookup_param sParam ps, C')
    \<and> ready h (mission before (g, l) g1 (param_lines ps) g2 after) (c_file C')
    \<and> MOOSToLower sParam \<in> set (GetSearchedParameters sAppName C')"
  using assms by (rule param_read_lemma)

text \<open>Reading a parameter returns, on every file all of whose lines fit the buffer of 2000
  characters, whatever the file holds, and the next call returns as well.\<close>

theorem param_returns:
  assumes "ready h w (c_file C)" and "lines_fit w"
  shows "\<exists>v C'. GetConfigurationParam_of h a p C = Some (v, C') \<and> ready h w (c_file C')"
  using assms by (rule param_returns_lemma)

text \<open>C19: It does not return when a comment line of 2000 characters or more, its two slashes included,
  stands before the block: the failed stream never reaches its end.\<close>

theorem long_comment_hangs:
  assumes "ready h (render before @ ''//'' @ x @ r) (c_file C)" and "lines_ok before"
    and "\<forall>l \<in> snd ` set before. \<not> heads sAppName l"
    and "newline \<notin> set x" and "1998 \<le> length x"
  shows "GetConfigurationParam_of h sAppName sParam C = None"
  using assms by (rule long_comment_hangs_lemma)

text \<open>A line of the block with a bracket and no value hides every parameter after it: the search
  reports them missing although they are in the block.\<close>

theorem bracket_hides:
  assumes "ready h (mission before (g, l) g1 (param_lines ps @ [(gb, b)] @ param_lines qs) g2 after)
      (c_file C)"
    and "lines_ok (before @ [(g, l), (gb, b)])" and "gap g1" and "gap g2"
    and "\<forall>p \<in> set (ps @ qs). param_ok p"
    and "\<forall>l \<in> snd ` set before. \<not> heads sAppName l" and "heads sAppName l"
    and "trimmed b" and "CHR ''='' \<notin> set b" and "has_bracket b" and "hd b \<noteq> CHR ''}''"
    and "lookup_param sParam ps = None"
  shows "\<exists>C'. GetConfigurationParam_of h sAppName sParam C = Some (None, C')"
  using assms by (rule bracket_hides_lemma)

text \<open>Expansion replaces every \<open>${name}\<close> by its value, a definition of the file before a variable
  of the environment and the bare name when there is neither, and leaves the rest as it is.\<close>

theorem expand_template:
  assumes "\<forall>(t, n) \<in> set ps. search_by (=) t ''${'' = None \<and> CHR ''}'' \<notin> set n \<and> n \<noteq> []
      \<and> expand_name h vars n \<noteq> []"
    and "search_by (=) r ''${'' = None"
  shows "DoVariableExpansion h vars (template ps r) = expanded (expand_name h vars) ps r"
  using expand_template_loop [OF assms(1), of r "[]"] expand_last [OF assms(2)]
  by (simp add: DoVariableExpansion_def expanded_append)

text \<open>A name whose value is empty, or an empty name, cuts off everything after it.\<close>

theorem empty_expansion_cuts:
  assumes "search_by (=) t ''${'' = None" and "CHR ''}'' \<notin> set n"
    and "n = [] \<or> expand_name h vars n = []"
  shows "DoVariableExpansion h vars (t @ ''${'' @ n @ ''}'' @ r) = t"
  using expand_empty [OF assms, of r "[]"] by (simp add: DoVariableExpansion_def del: append.simps)

text \<open>An overloaded copy says what it was told to: reading an overloaded name back from the copy
  gives the overload (without its blanks), provided the first line of the original with that name
  spells it as the overload does.\<close>

theorem overload_wins:
  assumes "ready h (text_of (before @ [l] @ after)) R"
    and "\<forall>x \<in> set (before @ [l] @ after). copyable OL x"
    and "token_of l = Some k" and "map_of OL k = Some u"
    and "\<forall>x \<in> set before. \<forall>t. token_of x = Some t \<longrightarrow> \<not> MOOSStrCmp t k"
  shows "\<exists>out R'. MakeOverloadedCopy h True OL R = Some (Some out, R')
    \<and> (\<forall>h' R2. ready h' out R2 \<longrightarrow>
        (\<exists>R3. GetValue h' k R2 = Some (Some (MOOSRemoveChars u spaces), R3)))"
  using assms by (rule overload_lemma)

end
