(* ===== verification/Moos_AppConfig.thy ===== *)
theory Moos_AppConfig
  imports Moos_App Moos_ConfigProperties
begin

text \<open>
  How an application is configured. A reader that is \<open>settled\<close> has no file or one whose lines
  fit; every question it is asked returns and leaves it settled on the same file
  (\<open>param_settled\<close>), so starting up returns (\<open>configure_returns\<close>), and the answer to a question
  does not depend on those asked before (\<open>file_param\<close>). With that, which of the command line and the
  mission file decides the frequency of the application (\<open>tick_precedence\<close>), and that the
  mission file cannot silence it (\<open>quiet_ignored\<close>).
\<close>

section \<open>Settled readers\<close>

definition no_file :: "host \<Rightarrow> file_reader \<Rightarrow> bool" where
  "no_file h R \<longleftrightarrow> r_File R = None \<and> (r_sFileName R = [] \<or> h_disk h (r_sFileName R) = None)"

definition settled :: "host \<Rightarrow> file_reader \<Rightarrow> bool" where
  "settled h R \<longleftrightarrow> no_file h R \<or> (\<exists>w. ready h w R \<and> lines_fit w)"

lemma no_file_closed: "no_file h R \<Longrightarrow> GetFile h R = R \<and> \<not> IsOpen h R \<and> ResetFile h R = R"
  by (cases R) (auto simp: no_file_def GetFile_def IsOpen_def ResetFile_def on_file_def)

text \<open>Two readers of the same file under the same definitions.\<close>

definition same_file :: "file_reader \<Rightarrow> file_reader \<Rightarrow> bool" where
  "same_file R R' \<longleftrightarrow> open_at R [] [] = open_at R' [] []"

lemma same_file_refl [simp]: "same_file R R"
  by (simp add: same_file_def)

lemma same_file_trans: "same_file R S \<Longrightarrow> same_file S T \<Longrightarrow> same_file R T"
  by (simp add: same_file_def)

lemma same_file_stream [simp]: "same_file R (R'\<lparr>r_File := x\<rparr>) = same_file R R'"
  by (simp add: same_file_def open_at_def)

lemma same_file_open [simp]: "same_file R (open_at R' w r) = same_file R R'"
  by (simp add: open_at_def)

lemma same_file_reset [simp]: "same_file R (ResetFile h R') = same_file R R'"
  by (simp add: ResetFile_def on_file_def GetFile_def)

lemma same_file_reset_left [simp]: "same_file (ResetFile h R) R' = same_file R R'"
  by (metis same_file_def same_file_reset)

lemma open_at_same: "same_file R R' \<Longrightarrow> open_at R w r = open_at R' w r"
  unfolding same_file_def by (metis open_at_simps(7))

lemma same_file_name: "same_file R R' \<Longrightarrow> r_sFileName R = r_sFileName R'"
  unfolding same_file_def by (metis open_at_simps(4))

section \<open>Reading leaves the file alone\<close>

lemma reading_loop_same:
  assumes "reading h w R"
  shows "\<exists>x R'. read_loop h b body s R = Some (x, R') \<and> reading h w R' \<and> same_file R R'"
proof -
  obtain st where st: "r_File R = Some st" "stream_ok st" "f_whole st = w"
    using assms by (auto simp: reading_def)
  obtain x st' where "read_loop h b body s R = Some (x, R\<lparr>r_File := Some st'\<rparr>)"
    "stream_ok st'" "f_whole st' = f_whole st"
    using read_loop_returns [OF st(1,2), of h b body s] by blast
  with st(3) assms show ?thesis by (auto simp: reading_def)
qed

lemma reading_next_same: "reading h w R \<Longrightarrow> same_file R (snd (GetNextValidLine h b R))"
  by (auto simp: GetNextValidLine_def reading_def split_beta Let_def)

lemma read_block_same:
  assumes "ready h w R" and "lines_fit w"
  shows "\<exists>b Params R'. read_block body h a R = Some (b, Params, R') \<and> reading h w R' \<and> same_file R R'"
proof -
  define key where "key = MOOSRemoveChars (''PROCESSCONFIG='' @ a) [CHR '' '', CHR 0x09, CHR 0x0D]"
  have r0: "reading h w (ResetFile h R)" using assms by (rule reading_reset)
  obtain x R1 where g: "read_loop h True (goto_body key) () (ResetFile h R) = Some (x, R1)"
    "reading h w R1" "same_file R R1"
    using reading_loop_same [OF r0, of True "goto_body key" "()"] by auto
  have go: "GoTo h (''PROCESSCONFIG='' @ a) (ResetFile h R) = Some (\<not> isl x, R1)"
    using reading_open [OF r0] g(1) unfolding GoTo_def key_def by simp
  define R2 where "R2 = snd (GetNextValidLine h True R1)"
  have R2: "reading h w R2" "same_file R R2"
    using reading_next [OF g(2)] reading_next_same [OF g(2)] g(3) same_file_trans
    unfolding R2_def by blast+
  obtain y R3 where lp: "read_loop h True body [] R2 = Some (y, R3)" "reading h w R3" "same_file R R3"
    using reading_loop_same [OF R2(1), of True body "[]"] R2(2) same_file_trans by blast
  show ?thesis
  proof (cases "\<not> isl x \<and> take 1 (fst (GetNextValidLine h True R1)) = ''{''")
    case True
    then show ?thesis
      using lp by (cases y) (auto simp: read_block_def go split_beta simp flip: R2_def simp del: append.simps)
  next
    case False
    with g R2 show ?thesis
      by (cases x)
        (auto simp: read_block_def go split_beta simp flip: R2_def simp del: append.simps)
  qed
qed

lemma GetValue_same:
  assumes "ready h w R" and "lines_fit w"
  shows "\<exists>v R'. GetValue h n R = Some (v, R') \<and> ready h w R' \<and> same_file R R'"
proof -
  have "reading h w (on_file h f_rewind (ResetFile h R))"
    using reading_reset [OF assms] ready_reset [OF assms(1)] by (simp add: rewind_open_at)
  moreover have "same_file R (on_file h f_rewind (ResetFile h R))"
    using ready_reset [OF assms(1)] by (simp add: rewind_open_at)
  ultimately obtain x R' where
    "read_loop h True (value_body n) () (on_file h f_rewind (ResetFile h R)) = Some (x, R')"
    "reading h w R'" "same_file R R'"
    using reading_loop_same [of h w _ True "value_body n" "()"] same_file_trans by blast
  with ready_open [OF assms(1)] reading_ready show ?thesis by (auto simp: GetValue_def)
qed

section \<open>Questions\<close>

definition same_reader :: "config_reader \<Rightarrow> config_reader \<Rightarrow> bool" where
  "same_reader C C' \<longleftrightarrow> c_sAppName C = c_sAppName C' \<and> same_file (c_file C) (c_file C')"

lemma same_reader_refl [simp]: "same_reader C C"
  by (simp add: same_reader_def)

lemma same_reader_trans: "same_reader C D \<Longrightarrow> same_reader D F \<Longrightarrow> same_reader C F"
  using same_file_trans by (auto simp: same_reader_def)

text \<open>A question returns, and leaves the reader settled on the same file.\<close>

definition answers :: "host \<Rightarrow> (config_reader \<Rightarrow> ('a \<times> config_reader) option) \<Rightarrow> bool" where
  "answers h f \<longleftrightarrow> (\<forall>C. settled h (c_file C) \<longrightarrow>
     (\<exists>v C'. f C = Some (v, C') \<and> settled h (c_file C') \<and> same_reader C C'
        \<and> (no_file h (c_file C) \<longleftrightarrow> no_file h (c_file C'))))"

lemma ready_not_no_file: "ready h w R \<Longrightarrow> \<not> no_file h R"
  by (auto simp: ready_def no_file_def)

lemma no_file_block:
  assumes "no_file h R"
  shows "read_block body h a R = Some (False, [], R)"
  using no_file_closed [OF assms] by (simp add: read_block_def GoTo_def del: append.simps)

lemma param_settled: "answers h (GetConfigurationParam h p)"
  unfolding answers_def
proof (intro allI impI)
  fix C :: config_reader assume s: "settled h (c_file C)"
  define C1 where "C1 = audit (c_sAppName C) p (C\<lparr>c_file := ResetFile h (c_file C)\<rparr>)"
  show "\<exists>v C'. GetConfigurationParam h p C = Some (v, C') \<and> settled h (c_file C') \<and> same_reader C C'
      \<and> (no_file h (c_file C) \<longleftrightarrow> no_file h (c_file C'))"
  proof (cases "no_file h (c_file C)")
    case True
    have f: "c_file C1 = c_file C" "c_sAppName C1 = c_sAppName C"
      using no_file_closed [OF True] by (simp_all add: C1_def audit_def)
    have "GetConfigurationParam_of h (c_sAppName C) p C = Some (None, C1)"
      using no_file_block [of h "c_file C1"] True
      by (simp add: GetConfigurationParam_of_def GetConfigurationAndPreserveSpace_def f flip: C1_def)
    with f s show ?thesis by (simp add: GetConfigurationParam_def same_reader_def)
  next
    case False
    then obtain w where w: "ready h w (c_file C)" "lines_fit w" using s by (auto simp: settled_def)
    have r1: "ready h w (c_file C1)" "same_file (c_file C) (c_file C1)" "c_sAppName C1 = c_sAppName C"
      using reading_ready [OF reading_reset [OF w]] by (simp_all add: C1_def audit_def)
    obtain b Params R' where rb: "read_block space_body h (c_sAppName C) (c_file C1) = Some (b, Params, R')"
      and R': "reading h w R'" "same_file (c_file C1) R'"
      using read_block_same [OF r1(1) w(2)] by blast
    have "GetConfigurationParam_of h (c_sAppName C) p C =
        Some (if b then find_param p Params else None, C1\<lparr>c_file := R'\<rparr>)"
      using rb by (simp add: GetConfigurationParam_of_def GetConfigurationAndPreserveSpace_def C1_def)
    moreover have "settled h R'" "\<not> no_file h R'"
      using reading_ready [OF R'(1)] w(2) ready_not_no_file by (auto simp: settled_def)
    moreover have "same_file (c_file C) R'" using same_file_trans [OF r1(2) R'(2)] .
    ultimately show ?thesis
      using False s r1(3) by (simp add: GetConfigurationParam_def same_reader_def)
  qed
qed

lemma answers_map: "answers h f \<Longrightarrow> answers h (\<lambda>C. map_option (\<lambda>(v, C). (g v, C)) (f C))"
  unfolding answers_def by fastforce

lemma param_as_settled: "answers h (\<lambda>C. param_as conv (GetConfigurationParam h p C))"
  unfolding param_as_def by (rule answers_map [OF param_settled])

lemmas typed_settled =
  param_as_settled [of h param_double p for h p, folded GetConfigurationParam_double_def]
  param_as_settled [of h "\<lambda>s. Some (bool_of s)" p for h p, folded GetConfigurationParam_bool_def]
  param_as_settled [of h "\<lambda>s. Some (atoi s)" p for h p, folded GetConfigurationParam_int_def]
  param_as_settled [of h "\<lambda>s. Some (word_of_int (atoi s) :: 32 word)" p for h p,
    folded GetConfigurationParam_unsigned_def]

lemma file_unsigned_settled: "answers h (file_unsigned h p)"
  unfolding file_unsigned_def by (rule answers_map [OF typed_settled(4)])

lemma value_settled: "answers h (global (GetValue h n))"
  unfolding answers_def
proof (intro allI impI)
  fix C :: config_reader assume s: "settled h (c_file C)"
  show "\<exists>v C'. global (GetValue h n) C = Some (v, C') \<and> settled h (c_file C') \<and> same_reader C C'
      \<and> (no_file h (c_file C) \<longleftrightarrow> no_file h (c_file C'))"
  proof (cases "no_file h (c_file C)")
    case True
    then have "GetValue h n (c_file C) = Some (None, c_file C)"
      using no_file_closed [OF True] by (simp add: GetValue_def)
    with s show ?thesis by (simp add: global_def same_reader_def)
  next
    case False
    then obtain w where w: "ready h w (c_file C)" "lines_fit w" using s by (auto simp: settled_def)
    from GetValue_same [OF w, of n] w ready_not_no_file show ?thesis
      by (auto simp: global_def settled_def same_reader_def)
  qed
qed

lemma value_as_settled: "answers h (global (GetValue_as conv h n))"
proof -
  have "global (GetValue_as conv h n) =
      (\<lambda>C. map_option (\<lambda>(v, C). (Option.bind v conv, C)) (global (GetValue h n) C))"
    by (auto simp: global_def GetValue_as_def option.map_comp comp_def split_beta
        intro!: ext option.map_cong)
  then show ?thesis using answers_map [OF value_settled] by simp
qed

section \<open>Steps of an application\<close>

abbreviation reader_of :: "'u app \<Rightarrow> file_reader" where
  "reader_of A \<equiv> c_file (p_MissionReader A)"

lemma cfg_step:
  assumes "answers h f" and "settled h (reader_of A)"
  shows "\<exists>v C'. cfg f A = Some (v, A\<lparr>p_MissionReader := C'\<rparr>) \<and> f (p_MissionReader A) = Some (v, C')
    \<and> settled h (c_file C') \<and> same_reader (p_MissionReader A) C'
    \<and> (no_file h (reader_of A) \<longleftrightarrow> no_file h (c_file C'))"
  using assms unfolding answers_def cfg_def by fastforce

definition returns :: "env \<Rightarrow> 'u app option \<Rightarrow> bool" where
  "returns E x \<longleftrightarrow> (\<exists>A'. x = Some A' \<and> settled (e_host E) (reader_of A'))"

definition gives :: "env \<Rightarrow> ('a \<times> 'u app) option \<Rightarrow> bool" where
  "gives E x \<longleftrightarrow> (\<exists>v A'. x = Some (v, A') \<and> settled (e_host E) (reader_of A'))"

lemma returns_Some [simp]: "returns E (Some A) \<longleftrightarrow> settled (e_host E) (reader_of A)"
  by (simp add: returns_def)

lemma gives_Some [simp]: "gives E (Some (v, A)) \<longleftrightarrow> settled (e_host E) (reader_of A)"
  by (simp add: gives_def)

lemma returns_bind:
  assumes "gives E x" and "\<And>v A. settled (e_host E) (reader_of A) \<Longrightarrow> returns E (k (v, A))"
  shows "returns E (Option.bind x k)"
  using assms by (auto simp: gives_def returns_def)

lemma returns_then:
  assumes "returns E x" and "\<And>A. settled (e_host E) (reader_of A) \<Longrightarrow> returns E (k A)"
  shows "returns E (Option.bind x k)"
  using assms by (auto simp: returns_def)

lemma gives_cfg: "answers (e_host E) f \<Longrightarrow> settled (e_host E) (reader_of A) \<Longrightarrow> gives E (cfg f A)"
  using cfg_step [of "e_host E" f A] by (auto simp: gives_def)

lemma gives_flag:
  assumes "settled (e_host E) (reader_of A)"
  shows "gives E (GetFlagFromCommandLineOrConfigurationFile E n A)"
  using cfg_step [OF typed_settled(2) assms, of n]
  by (auto simp: GetFlagFromCommandLineOrConfigurationFile_def gives_def)

lemma gives_parameter:
  assumes "answers (e_host E) (file (e_host E) n)" and "settled (e_host E) (reader_of A)"
  shows "gives E (get_parameter file cmd v0 E n A)"
  using cfg_step [OF assms] by (auto simp: get_parameter_def gives_def split: prod.splits bool.splits)

lemma parameter_settled:
  assumes "settled (e_host E) (reader_of A)"
  shows "gives E (GetParameter_string E n A)" and "gives E (GetParameter_double E n A)"
    and "gives E (GetParameter_int E n A)" and "gives E (GetParameter_unsigned E n A)"
  using assms
  by (auto simp: GetParameter_string_def GetParameter_double_def GetParameter_int_def
      GetParameter_unsigned_def
      intro!: gives_parameter param_settled typed_settled file_unsigned_settled)

lemma value_types:
  "answers h (global (GetValue_double h n))" "answers h (global (GetValue_bool h n))"
  "answers h (global (GetValue_int h n))"
  by (simp_all add: GetValue_double_def GetValue_bool_def GetValue_int_def value_as_settled)

lemmas steps = gives_flag parameter_settled gives_cfg param_settled typed_settled
  file_unsigned_settled value_settled value_types

section \<open>Configuring returns\<close>

lemma SetConfigFile_settled:
  assumes "settled h (c_file C)" and "h_disk h f = None \<or> (\<exists>w. h_disk h f = Some w \<and> lines_fit w)"
    and "r_File (c_file C) = None \<or> r_sFileName (c_file C) = f"
  shows "\<exists>b C'. SetConfigFile h f C = Some (b, C') \<and> settled h (c_file C')"
proof (cases "f \<noteq> [] \<and> h_disk h f \<noteq> None")
  case True
  then obtain w where "f \<noteq> []" "h_disk h f = Some w" "lines_fit w" using assms(2) by auto
  from SetFile_returns [OF this, of "c_file C"] \<open>lines_fit w\<close> show ?thesis
    by (auto simp: SetConfigFile_def settled_def)
next
  case False
  show ?thesis
  proof (cases "r_File (c_file C)")
    case None
    with False have "no_file h ((c_file C)\<lparr>r_sFileName := f\<rparr>)" by (auto simp: no_file_def)
    with no_file_closed [OF this] show ?thesis
      by (auto simp: SetConfigFile_def SetFile_def Let_def settled_def)
  next
    case (Some st)
    with assms False show ?thesis by (auto simp: settled_def no_file_def ready_def)
  qed
qed

lemma returns_case:
  assumes "gives E x" and "\<And>v A. settled (e_host E) (reader_of A) \<Longrightarrow> returns E (k v A)"
  shows "returns E (Option.bind x (\<lambda>(v, A). k v A))"
  using assms by (auto intro: returns_bind)

lemma sleeper_returns:
  assumes "settled (e_host E) (reader_of A)"
  shows "returns E (configure_sleeper E A)"
  unfolding configure_sleeper_def Let_def
  by (rule returns_case parameter_settled assms gives_flag | simp)+

lemma returns_choice:
  "(\<And>w. v = Some w \<Longrightarrow> gives E (f w)) \<Longrightarrow> (v = None \<Longrightarrow> gives E g) \<Longrightarrow>
    gives E (case v of Some w \<Rightarrow> f w | None \<Rightarrow> g)"
  by (cases v) auto

lemma kept_reader [simp]:
  "reader_of (case v of None \<Rightarrow> A | Some w \<Rightarrow> snd (SetMOOSTimeWarp w A)) = reader_of A"
  "reader_of (case v of None \<Rightarrow> A | Some w \<Rightarrow> snd (SetCommsControlTimeWarpScaleFactor w A)) = reader_of A"
  "reader_of (EnableIterateWithoutComms b A) = reader_of A"
  "reader_of (AppSetQuiet b A) = reader_of A"
  "reader_of (snd (SetIterateMode m A)) = reader_of A"
  by (auto simp: SetMOOSTimeWarp_def SetCommsControlTimeWarpScaleFactor_def
      EnableIterateWithoutComms_def AppSetQuiet_def SetIterateMode_def split: option.splits)

lemma time_returns:
  assumes "settled (e_host E) (reader_of A)"
  shows "returns E (configure_time E A)"
  unfolding configure_time_def Let_def
  by (rule returns_case returns_choice parameter_settled assms gives_cfg value_types | simp)+

lemma flags_returns:
  assumes "settled (e_host E) (reader_of A)"
  shows "returns E (configure_flags E A)"
  unfolding configure_flags_def Let_def
  by (rule returns_case gives_flag assms gives_cfg value_types typed_settled | simp)+

lemma ticks_return:
  assumes "settled (e_host E) (reader_of A)"
  shows "returns E (configure_tick E A)" and "returns E (configure_max_tick E A)"
    and "returns E (configure_mode E A)" and "returns E (configure_filter E A)"
  unfolding configure_tick_def configure_max_tick_def configure_mode_def configure_filter_def Let_def
  by (rule returns_case gives_flag parameter_settled assms gives_cfg typed_settled
      file_unsigned_settled | simp)+

lemma files_returns:
  fixes A :: "'u app"
  assumes "no_file (e_host E) (reader_of A)"
    and "\<forall>w. h_disk (e_host E) (c_str (p_sMissionFile A)) = Some w \<longrightarrow> lines_fit w"
  shows "returns E (configure_files E A)"
proof -
  have s: "settled (e_host E) (reader_of A)" using assms(1) by (simp add: settled_def)
  obtain v C' where c: "GetConfigurationParam_bool (e_host E) ''moos_quiet'' (p_MissionReader A) =
      Some (v, C')" "settled (e_host E) (c_file C')" "no_file (e_host E) (c_file C')"
    using cfg_step [OF typed_settled(2) s, of "''moos_quiet''"] assms(1) by auto
  obtain b C'' where f: "SetConfigFile (e_host E) (c_str (p_sMissionFile A)) C' = Some (b, C'')"
      "settled (e_host E) (c_file C'')"
    using SetConfigFile_settled [OF c(2), of "c_str (p_sMissionFile A)"] assms(2) c(3)
    by (cases "h_disk (e_host E) (c_str (p_sMissionFile A))") (auto simp: no_file_def)
  have "returns E (GetFlagFromCommandLineOrConfigurationFile E ''moos_iterate_no_comms'' B
      \<bind> (\<lambda>(b, A). Some (EnableIterateWithoutComms b A)))"
    if "p_MissionReader B = C''" for B :: "'u app"
    using gives_flag [of E B] f(2) that by (intro returns_case) simp_all
  then show ?thesis
    unfolding configure_files_def
    by (simp add: GetFlagFromCommandLineOrConfigurationFile_def [of E "''moos_quiet''"] c(1) cfg_def f(1)
        AppSetQuiet_def Let_def)
qed

lemma configure_returns_lemma:
  assumes "no_file (e_host E) (reader_of A)"
    and "\<forall>w. h_disk (e_host E) (c_str (p_sMissionFile A)) = Some w \<longrightarrow> lines_fit w"
  shows "returns E (Configure E A)"
  unfolding Configure_def
  by (rule returns_then files_returns [OF assms] sleeper_returns time_returns flags_returns
      ticks_return | assumption)+

section \<open>Answers do not depend on the questions before\<close>

definition file_param :: "host \<Rightarrow> string \<Rightarrow> config_reader \<Rightarrow> string option" where
  "file_param h p C = Option.bind (GetConfigurationParam h p C) fst"

lemma block_same:
  assumes "settled h R" and "settled h R'" and "same_file R R'"
  shows "map_option (\<lambda>(b, Params, _). (b, Params)) (read_block body h a R) =
    map_option (\<lambda>(b, Params, _). (b, Params)) (read_block body h a R')"
proof (cases "no_file h R")
  case True
  have "no_file h R'"
  proof (rule ccontr)
    assume "\<not> no_file h R'"
    then obtain w where "ready h w R'" using assms(2) by (auto simp: settled_def)
    with True same_file_name [OF assms(3)] show False by (auto simp: no_file_def ready_def)
  qed
  with True show ?thesis by (simp add: no_file_block)
next
  case False
  then obtain w where w: "ready h w R" using assms(1) by (auto simp: settled_def)
  have w': "ready h w R'"
    using assms(2) w same_file_name [OF assms(3)] by (auto simp: settled_def ready_def no_file_def)
  have "ResetFile h R = ResetFile h R'"
    using ready_reset [OF w] ready_reset [OF w'] open_at_same [OF assms(3)] by simp
  then show ?thesis by (simp add: read_block_def)
qed

lemma audit_file [simp]: "c_file (audit a p C) = c_file C" "c_sAppName (audit a p C) = c_sAppName C"
  by (simp_all add: audit_def)

lemma settled_reset: "settled h R \<Longrightarrow> settled h (ResetFile h R)"
  using reading_ready reading_reset no_file_closed unfolding settled_def by metis

lemma file_param_same:
  assumes "settled h (c_file C)" and "settled h (c_file C')" and "same_reader C C'"
  shows "file_param h p C = file_param h p C'"
proof -
  have n: "c_sAppName C = c_sAppName C'" and f: "same_file (c_file C) (c_file C')"
    using assms(3) by (auto simp: same_reader_def)
  have "map_option (\<lambda>(b, Params, _). (b, Params))
      (read_block space_body h (c_sAppName C) (ResetFile h (c_file C))) =
    map_option (\<lambda>(b, Params, _). (b, Params))
      (read_block space_body h (c_sAppName C) (ResetFile h (c_file C')))"
    using f by (intro block_same settled_reset assms) simp
  then show ?thesis
    unfolding file_param_def GetConfigurationParam_def GetConfigurationParam_of_def
      GetConfigurationAndPreserveSpace_def n
    by (cases "read_block space_body h (c_sAppName C') (ResetFile h (c_file C))";
        cases "read_block space_body h (c_sAppName C') (ResetFile h (c_file C'))") auto
qed

text \<open>What a typed reader of the file gives, and the file after it.\<close>

lemma double_step:
  assumes "settled h (reader_of A)"
  shows "\<exists>C'. cfg (GetConfigurationParam_double h p) A =
      Some (Option.bind (file_param h p (p_MissionReader A)) param_double, A\<lparr>p_MissionReader := C'\<rparr>)
    \<and> settled h (c_file C') \<and> same_reader (p_MissionReader A) C'"
proof -
  obtain v C' where c: "cfg (GetConfigurationParam_double h p) A = Some (v, A\<lparr>p_MissionReader := C'\<rparr>)"
      "GetConfigurationParam_double h p (p_MissionReader A) = Some (v, C')"
      "settled h (c_file C')" "same_reader (p_MissionReader A) C'"
    using cfg_step [OF typed_settled(1) assms, of p] by blast
  then have "v = Option.bind (file_param h p (p_MissionReader A)) param_double"
    by (auto simp: GetConfigurationParam_double_def param_as_def file_param_def)
  with c show ?thesis by blast
qed

text \<open>The value the command line gives a variable of type double, if it has it.\<close>

definition command_double :: "env \<Rightarrow> string \<Rightarrow> 'u app \<Rightarrow> real option" where
  "command_double E sOption A =
     (case GetVariable_double (''--'' @ sOption) (e_junk_real E) (p_CommandLine A) of
        (True, v) \<Rightarrow> Some v | (False, _) \<Rightarrow> None)"

lemma parameter_step:
  assumes "settled (e_host E) (reader_of A)"
  shows "\<exists>C'. GetParameter_double E p A =
      Some (case command_double E p A of Some v \<Rightarrow> Some v
            | None \<Rightarrow> Option.bind (file_param (e_host E) p (p_MissionReader A)) param_double,
            A\<lparr>p_MissionReader := C'\<rparr>)
    \<and> settled (e_host E) (c_file C') \<and> same_reader (p_MissionReader A) C'"
  using double_step [OF assms, of p]
  by (auto simp: GetParameter_double_def get_parameter_def command_double_def split: prod.splits bool.splits)

lemma tick_lemma:
  assumes "settled (e_host E) (reader_of A)"
  defines "fp \<equiv> \<lambda>p. Option.bind (file_param (e_host E) p (p_MissionReader A)) param_double"
  shows "\<exists>A'. configure_tick E A = Some A' \<and> p_dfFreq A' =
    keep (keep (p_dfFreq A) (case command_double E ''moos_app_tick'' A of Some v \<Rightarrow> Some v
      | None \<Rightarrow> fp ''moos_app_tick'')) (fp ''APPTICK'')"
proof -
  obtain C1 where s1: "GetParameter_double E ''moos_app_tick'' A =
      Some (case command_double E ''moos_app_tick'' A of Some v \<Rightarrow> Some v | None \<Rightarrow> fp ''moos_app_tick'',
        A\<lparr>p_MissionReader := C1\<rparr>)"
      and C1: "settled (e_host E) (c_file C1)" "same_reader (p_MissionReader A) C1"
    using parameter_step [OF assms(1)] unfolding fp_def by blast
  define f1 where "f1 = keep (p_dfFreq A) (case command_double E ''moos_app_tick'' A of Some v \<Rightarrow> Some v
      | None \<Rightarrow> fp ''moos_app_tick'')"
  define A1 where "A1 = A\<lparr>p_MissionReader := C1, p_dfFreq := f1\<rparr>"
  have m: "p_MissionReader A1 = C1" by (simp add: A1_def)
  have "file_param (e_host E) ''APPTICK'' C1 = file_param (e_host E) ''APPTICK'' (p_MissionReader A)"
    using file_param_same [OF assms(1) C1] by simp
  with double_step [of "e_host E" A1 "''APPTICK''"] C1 obtain C2 where
    s2: "cfg (GetConfigurationParam_double (e_host E) ''APPTICK'') A1 =
      Some (fp ''APPTICK'', A1\<lparr>p_MissionReader := C2\<rparr>)"
    by (auto simp: m fp_def)
  have "configure_tick E A = Some ((A1\<lparr>p_MissionReader := C2\<rparr>)\<lparr>p_dfFreq := keep f1 (fp ''APPTICK'')\<rparr>)"
    using s2 unfolding configure_tick_def Let_def s1 by (simp add: A1_def f1_def)
  then show ?thesis by (simp add: f1_def)
qed

text \<open>The questions of \<open>Configure\<close> after the frequency leave it alone.\<close>

lemma cfg_freq: "cfg f A = Some (v, A') \<Longrightarrow> p_dfFreq A' = p_dfFreq A"
  by (auto simp: cfg_def)

lemma ask_freq:
  "get_parameter file cmd v0 E n A = Some (w, A') \<Longrightarrow> p_dfFreq A' = p_dfFreq A"
  "GetFlagFromCommandLineOrConfigurationFile E n A = Some (b, A') \<Longrightarrow> p_dfFreq A' = p_dfFreq A"
  by (auto simp: get_parameter_def GetFlagFromCommandLineOrConfigurationFile_def bind_eq_Some_conv
      dest: cfg_freq)

lemma later_steps:
  "configure_max_tick E A = Some A' \<Longrightarrow> p_dfFreq A' = p_dfFreq A"
  "configure_mode E A = Some A' \<Longrightarrow> p_dfFreq A' = p_dfFreq A"
  "configure_filter E A = Some A' \<Longrightarrow> p_dfFreq A' = p_dfFreq A"
  by (auto simp: configure_max_tick_def configure_mode_def configure_filter_def bind_eq_Some_conv
      GetParameter_double_def GetParameter_unsigned_def Let_def SetIterateMode_def dest!: ask_freq cfg_freq)

lemma no_file_answer:
  assumes "no_file h (c_file C)"
  shows "\<exists>C'. GetConfigurationParam h p C = Some (None, C')"
proof (cases "c_sAppName C = []")
  case False
  have "read_block space_body h (c_sAppName C) (ResetFile h (c_file C)) = Some (False, [], c_file C)"
    using no_file_block [OF assms] no_file_closed [OF assms] by simp
  with False show ?thesis
    by (simp add: GetConfigurationParam_def GetConfigurationParam_of_def GetConfigurationAndPreserveSpace_def)
qed (simp add: GetConfigurationParam_def)

section \<open>Properties\<close>

text \<open>C16: Configuring an application returns, whatever the command line and the mission file say,
  when the lines of the mission file fit the reader's buffer or there is no such file, and leaves
  the reader fit for the questions of the application.\<close>

theorem configure_returns:
  assumes "no_file (e_host E) (c_file (p_MissionReader A))"
    and "\<forall>w. h_disk (e_host E) (c_str (p_sMissionFile A)) = Some w \<longrightarrow> lines_fit w"
  shows "\<exists>A'. Configure E A = Some A' \<and> settled (e_host E) (c_file (p_MissionReader A'))"
  using configure_returns_lemma [OF assms] by (simp add: returns_def)

text \<open>Which setting of the frequency counts: \<open>APPTICK\<close> of the mission file, else
  \<open>--moos_app_tick\<close> of the command line, else \<open>moos_app_tick\<close> of the mission file, else what it
  was. So here the mission file wins over the command line.\<close>

theorem tick_precedence:
  assumes "settled (e_host E) (c_file (p_MissionReader A))"
  shows "\<exists>A'. configure_tick E A = Some A' \<and> p_dfFreq A' =
    (case Option.bind (file_param (e_host E) ''APPTICK'' (p_MissionReader A)) param_double of
       Some f \<Rightarrow> f
     | None \<Rightarrow> (case command_double E ''moos_app_tick'' A of
         Some f \<Rightarrow> f
       | None \<Rightarrow> (case Option.bind (file_param (e_host E) ''moos_app_tick'' (p_MissionReader A)) param_double of
           Some f \<Rightarrow> f | None \<Rightarrow> p_dfFreq A)))"
  using tick_lemma [OF assms] by (auto simp: keep_def split: option.splits)

text \<open>\<open>moos_quiet\<close> in the mission file is without effect: it is looked up before the file is
  opened, so only the command line and what was set before count.\<close>

theorem quiet_ignored:
  assumes "no_file (e_host E) (c_file (p_MissionReader A))" and "configure_files E A = Some A'"
  shows "p_bQuiet A' \<longleftrightarrow> GetFlag ''--moos_quiet'' [] (p_CommandLine A) \<or> p_bQuiet A"
proof -
  obtain C' where "GetConfigurationParam (e_host E) ''moos_quiet'' (p_MissionReader A) = Some (None, C')"
    using no_file_answer [OF assms(1)] by blast
  then have e: "GetFlagFromCommandLineOrConfigurationFile E ''moos_quiet'' A =
      Some (GetFlag ''--moos_quiet'' [] (p_CommandLine A), A\<lparr>p_MissionReader := C'\<rparr>)"
    by (simp add: GetFlagFromCommandLineOrConfigurationFile_def cfg_def GetConfigurationParam_bool_def
        param_as_def)
  from assms(2) obtain b c A1 A2 where
    a1: "cfg (SetConfigFile (e_host E) (c_str (p_sMissionFile A))) (AppSetQuiet
        (GetFlag ''--moos_quiet'' [] (p_CommandLine A) \<or> p_bQuiet A) (A\<lparr>p_MissionReader := C'\<rparr>)) = Some (b, A1)"
    and a2: "GetFlagFromCommandLineOrConfigurationFile E ''moos_iterate_no_comms'' A1 = Some (c, A2)"
    and a3: "A' = EnableIterateWithoutComms c A2"
    unfolding configure_files_def e by (auto simp: bind_eq_Some_conv AppSetQuiet_def)
  have "p_bQuiet A2 = p_bQuiet A1"
    using a2 by (auto simp: GetFlagFromCommandLineOrConfigurationFile_def bind_eq_Some_conv cfg_def)
  moreover have "p_bQuiet A1 \<longleftrightarrow> GetFlag ''--moos_quiet'' [] (p_CommandLine A) \<or> p_bQuiet A"
    using a1 by (auto simp: cfg_def AppSetQuiet_def)
  ultimately show ?thesis by (simp add: a3 EnableIterateWithoutComms_def)
qed

end
