(* ===== verification/Moos_AppProperties.thy ===== *)
theory Moos_AppProperties
  imports Moos_AppConfig
begin

text \<open>
  The main loop of an application: what mail reaches the derived class and in which order
  (\<open>mail_handed_over\<close>), how often it iterates (\<open>app_rate\<close>), how \<open>Run\<close> ends
  (\<open>run_outcome\<close>), which commands are recognised, and what publishing the fresh variables does
  (\<open>fresh_published\<close>, \<open>fresh_lost\<close>).
\<close>

section \<open>What does not touch the derived class\<close>

lemma on_comms_user [simp]:
  "p_user (snd (on_comms f A)) = p_user A"
  "p_bUseMOOSComms (snd (on_comms f A)) = p_bUseMOOSComms A"
  "p_MOOSVars (snd (on_comms f A)) = p_MOOSVars A"
  by (simp_all add: on_comms_def split_beta)

lemma IteratePrivate_user [simp]: "p_user (IteratePrivate t A) = p_user A"
  by (simp add: IteratePrivate_def AppNotifyString_def split: prod.split)

text \<open>A derived class that looks at its mail in \<open>OnNewMail\<close> only.\<close>

definition mail_only :: "'u hooks \<Rightarrow> (moos_msg list \<Rightarrow> 'u \<Rightarrow> 'u) \<Rightarrow> bool" where
  "mail_only hk see \<longleftrightarrow>
     (\<forall>mail A. p_user (snd (k_OnNewMail hk mail A)) = see mail (p_user A))
     \<and> (\<forall>m A. p_user (snd (k_OnCommandMsg hk m A)) = p_user A)
     \<and> (\<forall>A. p_user (snd (k_OnIteratePrepare hk A)) = p_user A)
     \<and> (\<forall>A. p_user (snd (k_Iterate hk A)) = p_user A)
     \<and> (\<forall>A. p_user (snd (k_OnIterateComplete hk A)) = p_user A)"

lemma commands_user:
  "mail_only hk see \<Longrightarrow> p_user (snd (handle_commands hk ms A)) = p_user A"
  by (induction ms arbitrary: A) (auto simp: mail_only_def split_beta Let_def)

lemma iterate_user: "mail_only hk see \<Longrightarrow> p_user (snd (iterate_hooks hk A)) = p_user A"
  by (simp add: iterate_hooks_def mail_only_def Let_def)

lemma count_user [simp]: "p_user (snd (count_iterate x)) = p_user (snd x)"
  by (simp add: count_iterate_def)

text \<open>The mail of a turn: what is in the box, without null messages, as the application wants it.\<close>

definition fresh_mail :: "aclient \<Rightarrow> moos_msg list" where
  "fresh_mail a = (if c_bMailPresent (a_Base a) then filter (\<lambda>m. \<not> IsNullMsg m) (c_InBox (a_Base a)) else [])"

definition sorted_mail :: "'u app \<Rightarrow> moos_msg list \<Rightarrow> moos_msg list" where
  "sorted_mail A ms = (if p_bSortMailByTime A then sort_key m_dfTime ms else ms)"

lemma mail_user:
  assumes "mail_only hk see"
  shows "p_user (ProcessMail hk A) =
    (if fresh_mail (p_Comms A) = [] then p_user A
     else see (sorted_mail A (fresh_mail (p_Comms A))) (p_user A))"
  using assms commands_user [OF assms]
  by (auto simp: ProcessMail_def Fetch_def fresh_mail_def sorted_mail_def OnNewMailPrivate_def
      LookForAndHandleAppCommand_def mail_only_def Let_def)

lemma handed_over_lemma:
  assumes "mail_only hk see" and "p_bUseMOOSComms A"
  shows "p_user (snd (DoRunWork hk t A)) =
    (let mail = fresh_mail (t_during t (p_Comms A))
     in if mail = [] then p_user A else see (sorted_mail A mail) (p_user A))"
  using assms iterate_user [OF assms(1)]
  by (auto simp: DoRunWork_def Let_def mail_user [OF assms(1)] sorted_mail_def)

section \<open>Sleeping\<close>

lemma trunc_bounds: "0 \<le> x \<Longrightarrow> x < 2 ^ 31 \<Longrightarrow> x < real_of_int (trunc x) + 1"
  by (simp add: trunc_def floor_less_iff le_floor_iff Let_def)

lemma trunc_le: "real_of_int (trunc x) \<le> max x 0"
  by (auto simp: trunc_def Let_def ceiling_le_iff max_def)

lemma trunc_upper: "real_of_int (max 0 (trunc x)) \<le> max 0 x"
  using trunc_le [of x] by (auto simp: max_def)

lemma app_rate_lemma:
  assumes "p_dfFreq A > 0" and "1000 / p_dfFreq A < 2 ^ 31"
    and "p_IterationMode A = REGULAR_ITERATE_AND_MAIL"
    and "p_dfLastRunTime A \<le> t_now t"
    and "t_now t + real_of_int (sum_list (snd (SleepAsRequired t A))) / 1000 \<le> t_start t"
  shows "1 / p_dfFreq A - 2 / 1000 < t_start t - p_dfLastRunTime A"
proof -
  define P where "P = trunc (1000 / p_dfFreq A)"
  define L where "L = max 0 (trunc (1000 * (t_now t - p_dfLastRunTime A)))"
  have s: "SleepAsRequired t A = (True, if P - L < 1 then [] else [P - L])"
    using assms(1,3) by (simp add: SleepAsRequired_def P_def L_def Let_def)
  have P: "1000 / p_dfFreq A < real_of_int P + 1"
    using trunc_bounds [of "1000 / p_dfFreq A"] assms(1,2) by (simp add: P_def)
  have L: "real_of_int L \<le> 1000 * (t_now t - p_dfLastRunTime A)"
    using trunc_upper [of "1000 * (t_now t - p_dfLastRunTime A)"] assms(4) by (simp add: L_def)
  have "real_of_int P - 1 < 1000 * (t_start t - p_dfLastRunTime A)"
  proof (cases "P - L < 1")
    case True
    then have "real_of_int P < real_of_int L + 1" by linarith
    with s True L assms(5) show ?thesis by (simp add: field_simps)
  next
    case False
    with s L assms(5) show ?thesis by (simp add: field_simps)
  qed
  moreover define q where "q = 1 / p_dfFreq A"
  moreover have "1000 * q < real_of_int P + 1" using P by (simp add: q_def)
  ultimately have "q - 2 / 1000 < t_start t - p_dfLastRunTime A" by argo
  then show ?thesis by (simp add: q_def)
qed

lemma pause_bounds_lemma:
  assumes "n \<in> set (snd (SleepAsRequired t A))" and "p_dfLastRunTime A \<le> t_later t"
  shows "0 < n \<and> (real_of_int n \<le> 1000 / p_dfFreq A \<or>
    p_IterationMode A = COMMS_DRIVEN_ITERATE_AND_MAIL \<and> real_of_int n \<le> 1000 / p_dfMaxAppTick A)"
proof -
  define P where "P = trunc (1000 / p_dfFreq A)"
  define L where "L = max 0 (trunc (1000 * (t_now t - p_dfLastRunTime A)))"
  have f: "p_dfFreq A > 0" and PL: "\<not> P - L < 1"
    using assms(1) by (auto simp: SleepAsRequired_def P_def L_def Let_def split: if_splits)
  have P: "real_of_int P \<le> 1000 / p_dfFreq A"
    using trunc_le [of "1000 / p_dfFreq A"] f by (simp add: P_def)
  show ?thesis
  proof (cases "p_IterationMode A")
    case REGULAR_ITERATE_AND_MAIL
    with assms(1) f PL have "n = P - L"
      by (simp add: SleepAsRequired_def P_def L_def Let_def)
    with PL P show ?thesis by (auto simp: L_def)
  next
    case REGULAR_ITERATE_AND_COMMS_DRIVEN_MAIL
    with assms(1) f show ?thesis by (simp add: SleepAsRequired_def Let_def split: if_splits)
  next
    case COMMS_DRIVEN_ITERATE_AND_MAIL
    define d where "d = (if p_dfMaxAppTick A > 0 then 1 / p_dfMaxAppTick A else 0) - (t_later t - p_dfLastRunTime A)"
    from assms(1) f PL COMMS_DRIVEN_ITERATE_AND_MAIL have n: "n = trunc (1000 * d)" "0 < n" "0 < d"
      unfolding SleepAsRequired_def Let_def d_def by (auto split: if_splits)
    with assms(2) have m: "p_dfMaxAppTick A > 0" by (auto simp: d_def split: if_splits)
    have "real_of_int n \<le> 1000 * d" using trunc_le [of "1000 * d"] n by simp
    also have "\<dots> \<le> 1000 / p_dfMaxAppTick A" using m assms(2) by (simp add: d_def field_simps)
    finally show ?thesis using n COMMS_DRIVEN_ITERATE_AND_MAIL by simp
  qed
qed

section \<open>Mail over several turns\<close>

text \<open>The packets that the reading thread takes in before a turn, each with its receive time.\<close>

definition arrive :: "(moos_msg list \<times> real) list \<Rightarrow> aclient \<Rightarrow> aclient" where
  "arrive ps a = fold (\<lambda>(p, rx) a. case DoReading (Some p) rx a of Inl e \<Rightarrow> a | Inr (ok, a) \<Rightarrow> a) ps a"

text \<open>What a packet brings: its messages less a leading timing message.\<close>

definition packet_mail :: "moos_msg list \<Rightarrow> moos_msg list" where
  "packet_mail p = (if IsType (hd p) MOOS_TIMING then tl p else p)"

text \<open>What the delivery of mail depends on, and a derived class whose handlers leave that alone. They
  may post, register and change everything else.\<close>

definition delivery :: "client \<Rightarrow> (string \<times> string list) list \<times> (string \<times> string) list \<times> nat" where
  "delivery c = (c_Msg2ActiveQueueName c, c_WildcardQueuePatterns c, c_nInPendingLimit c)"

definition app_view ::
  "'u app \<Rightarrow> (moos_msg list \<times> bool) \<times> ((string \<times> string list) list \<times> (string \<times> string) list \<times> nat) \<times> bool \<times> bool"
where
  "app_view A = (let c = a_Base (p_Comms A)
     in ((c_InBox c, c_bMailPresent c), delivery c, p_bUseMOOSComms A, p_bSortMailByTime A))"

definition keeps_client :: "'u hooks \<Rightarrow> bool" where
  "keeps_client hk \<longleftrightarrow>
     (\<forall>mail A. app_view (snd (k_OnNewMail hk mail A)) = app_view A)
     \<and> (\<forall>m A. app_view (snd (k_OnCommandMsg hk m A)) = app_view A)
     \<and> (\<forall>A. app_view (snd (k_OnIteratePrepare hk A)) = app_view A)
     \<and> (\<forall>A. app_view (snd (k_Iterate hk A)) = app_view A)
     \<and> (\<forall>A. app_view (snd (k_OnIterateComplete hk A)) = app_view A)"

definition unrouted :: "client \<Rightarrow> bool" where
  "unrouted c \<longleftrightarrow> c_Msg2ActiveQueueName c = [] \<and> c_WildcardQueuePatterns c = []"

lemma unrouted_dispatch:
  assumes "unrouted c"
  shows "\<exists>W. dispatch [] ms c = Inr (c\<lparr>c_WildcardCheckSet := W, c_InBox := ms\<rparr>)"
proof (cases ms)
  case Nil
  then show ?thesis by (auto intro: exI [of _ "c_WildcardCheckSet c"])
next
  case (Cons m ms')
  with assms show ?thesis by (auto simp: unrouted_def check_wildcards_def)
qed

lemma unrouted_reading:
  assumes "unrouted (a_Base a)" and "p \<noteq> []" and "\<not> IsType (hd p) MOOS_NULL_MSG"
    and "length (c_InBox (a_Base a)) \<le> c_nInPendingLimit (a_Base a)"
  shows "\<exists>a'. DoReading (Some p) rx a = Inr (True, a') \<and> delivery (a_Base a') = delivery (a_Base a)
     \<and> c_InBox (a_Base a') = c_InBox (a_Base a) @ packet_mail p
     \<and> c_bMailPresent (a_Base a') = (c_InBox (a_Base a') \<noteq> [])"
proof -
  let ?old = "c_InBox (a_Base a)"
  define a0 where "a0 = a\<lparr>a_Base := (a_Base a)\<lparr>c_nPktsReceived := c_nPktsReceived (a_Base a) + 1,
      c_InBox := ?old @ p, c_nMsgsReceived := c_nMsgsReceived (a_Base a) + of_nat (length p)\<rparr>\<rparr>"
  define a1 where "a1 = on_timing (length ?old) rx a0"
  have box: "c_InBox (a_Base a1) = ?old @ packet_mail p"
    using on_timing_InBox [OF assms(2), of a0 ?old rx] assms(3)
    by (simp add: a1_def a0_def first_gone_def packet_mail_def)
  have d: "delivery (a_Base a1) = delivery (a_Base a)"
    by (simp add: delivery_def a1_def on_timing_frame) (simp add: a0_def on_timing_def Let_def UpdateMOOSSkew_def)
  then have "unrouted (a_Base a1)" using assms(1) by (simp add: unrouted_def delivery_def)
  from unrouted_dispatch [OF this] obtain W where
    W: "dispatch [] (?old @ packet_mail p) (a_Base a1) =
      Inr ((a_Base a1)\<lparr>c_WildcardCheckSet := W, c_InBox := ?old @ packet_mail p\<rparr>)" by blast
  have "DoReading (Some p) rx a = (case DispatchInBoxToActiveThreads (a_Base a1) of Inl e \<Rightarrow> Inl e
       | Inr c \<Rightarrow> Inr (True, a1\<lparr>a_Base := c\<lparr>c_bMailPresent := (c_InBox c \<noteq> [])\<rparr>\<rparr>))"
    using assms(2,4) by (simp add: DoReading_def a1_def a0_def Let_def cong: if_cong sum.case_cong)
  then show ?thesis using W d by (simp add: DispatchInBoxToActiveThreads_def box) (simp add: delivery_def)
qed

lemma arrive_box:
  assumes "unrouted (a_Base a)" and "\<forall>(p, rx) \<in> set ps. p \<noteq> [] \<and> \<not> IsType (hd p) MOOS_NULL_MSG"
    and "length (c_InBox (a_Base a)) + length (concat (map fst ps)) \<le> c_nInPendingLimit (a_Base a)"
    and "c_bMailPresent (a_Base a) = (c_InBox (a_Base a) \<noteq> [])"
  shows "delivery (a_Base (arrive ps a)) = delivery (a_Base a)
    \<and> c_InBox (a_Base (arrive ps a)) = c_InBox (a_Base a) @ concat (map (packet_mail \<circ> fst) ps)
    \<and> c_bMailPresent (a_Base (arrive ps a)) = (c_InBox (a_Base (arrive ps a)) \<noteq> [])"
  using assms
proof (induction ps arbitrary: a)
  case Nil
  then show ?case by (simp add: arrive_def)
next
  case (Cons x ps)
  obtain p rx where x: "x = (p, rx)" by (cases x)
  have len: "length (packet_mail p) \<le> length p" by (simp add: packet_mail_def)
  obtain a1 where a1: "DoReading (Some p) rx a = Inr (True, a1)" "delivery (a_Base a1) = delivery (a_Base a)"
      "c_InBox (a_Base a1) = c_InBox (a_Base a) @ packet_mail p"
      "c_bMailPresent (a_Base a1) = (c_InBox (a_Base a1) \<noteq> [])"
    using unrouted_reading [of a p rx] Cons.prems x by auto
  have "arrive (x # ps) a = arrive ps a1" using a1(1) by (simp add: arrive_def x)
  moreover have "unrouted (a_Base a1)" "c_nInPendingLimit (a_Base a1) = c_nInPendingLimit (a_Base a)"
    using a1(2) Cons.prems(1) by (simp_all add: unrouted_def delivery_def)
  ultimately show ?case using Cons.IH [of a1] Cons.prems(2,3) a1(2-4) len x by auto
qed

lemma view_comms [simp]:
  "app_view (snd (AppNotifyString v s x t now A)) = app_view A"
  by (simp add: AppNotifyString_def on_comms_def via_AsyncPost_def NotifyString_def post_msg_def Post_def
      publish_def app_view_def delivery_def Let_def split_beta)

lemma view_commands: "keeps_client hk \<Longrightarrow> app_view (snd (handle_commands hk ms A)) = app_view A"
  by (induction ms arbitrary: A) (auto simp: keeps_client_def split_beta Let_def)

lemma view_iterate: "keeps_client hk \<Longrightarrow> app_view (snd (iterate_hooks hk A)) = app_view A"
  by (simp add: iterate_hooks_def keeps_client_def Let_def)

lemma view_updates [simp]:
  "app_view (A\<lparr>p_nMailCount := n\<rparr>) = app_view A" "app_view (A\<lparr>p_nIterateCount := n\<rparr>) = app_view A"
  "app_view (A\<lparr>p_dfLastStatusTime := r\<rparr>) = app_view A" "app_view (A\<lparr>p_dfLastRunTime := r\<rparr>) = app_view A"
  by (simp_all add: app_view_def)

lemma view_IteratePrivate [simp]: "app_view (IteratePrivate t A) = app_view A"
  by (simp add: IteratePrivate_def split: prod.split)

text \<open>An application waiting for the next turn with nothing in its box.\<close>

definition drained :: "'u app \<Rightarrow> bool" where
  "drained A \<longleftrightarrow> p_bUseMOOSComms A \<and> unrouted (a_Base (p_Comms A))
     \<and> c_InBox (a_Base (p_Comms A)) = [] \<and> \<not> c_bMailPresent (a_Base (p_Comms A))"

definition settings :: "'u app \<Rightarrow> bool \<times> nat" where
  "settings A = (p_bSortMailByTime A, c_nInPendingLimit (a_Base (p_Comms A)))"

lemma drained_view:
  "app_view A = app_view B \<Longrightarrow> drained A = drained B" "app_view A = app_view B \<Longrightarrow> settings A = settings B"
  by (auto simp: app_view_def drained_def settings_def unrouted_def delivery_def Let_def)

lemma turn_drains:
  assumes "mail_only hk see" and "keeps_client hk" and "drained A"
    and "\<forall>(p, rx) \<in> set ps. p \<noteq> [] \<and> \<not> IsType (hd p) MOOS_NULL_MSG"
    and "length (concat (map fst ps)) \<le> c_nInPendingLimit (a_Base (p_Comms A))"
  shows "let B = snd (DoRunWork hk (t\<lparr>t_during := arrive ps\<rparr>) A);
      mail = filter (\<lambda>m. \<not> IsNullMsg m) (concat (map (packet_mail \<circ> fst) ps))
    in drained B \<and> settings B = settings A
      \<and> p_user B = (if mail = [] then p_user A else see (sorted_mail A mail) (p_user A))"
proof -
  let ?a = "arrive ps (p_Comms A)"
  let ?A1 = "A\<lparr>p_Comms := ?a, p_dfLastRunTime := t_start t\<rparr>"
  have box: "delivery (a_Base ?a) = delivery (a_Base (p_Comms A))"
    "c_InBox (a_Base ?a) = concat (map (packet_mail \<circ> fst) ps)"
    "c_bMailPresent (a_Base ?a) = (c_InBox (a_Base ?a) \<noteq> [])"
    using arrive_box [OF _ assms(4), of "p_Comms A"] assms(3,5) by (auto simp: drained_def)
  let ?f = "snd (snd (Fetch [] (a_Base ?a)))"
  have f: "c_InBox ?f = []" "\<not> c_bMailPresent ?f" "delivery ?f = delivery (a_Base (p_Comms A))"
    using box by (auto simp: Fetch_def delivery_def Let_def)
  let ?A2 = "?A1\<lparr>p_Comms := ?a\<lparr>a_Base := ?f\<rparr>\<rparr>"
  have A2: "drained ?A2" "settings ?A2 = settings A"
    using f assms(3) by (auto simp: drained_def settings_def delivery_def unrouted_def)
  have pm: "app_view (ProcessMail hk ?A1) = app_view ?A2"
    using assms(2) view_commands [OF assms(2)]
    by (auto simp: ProcessMail_def OnNewMailPrivate_def LookForAndHandleAppCommand_def Let_def split_beta
        keeps_client_def)
  have it: "app_view (snd (count_iterate x)) = app_view (snd x)" for x :: "bool \<times> 'a app"
    by (simp add: count_iterate_def)
  let ?B = "snd (DoRunWork hk (t\<lparr>t_during := arrive ps\<rparr>) A)"
  have comms: "p_bUseMOOSComms A" using assms(3) by (simp add: drained_def)
  have "app_view ?B = app_view ?A2"
    using comms view_iterate [OF assms(2)] by (simp add: DoRunWork_def Let_def pm it)
  with A2 have "drained ?B" "settings ?B = settings A" by (simp_all add: drained_view [of ?B ?A2])
  moreover have "fresh_mail ?a = filter (\<lambda>m. \<not> IsNullMsg m) (concat (map (packet_mail \<circ> fst) ps))"
    using box by (auto simp: fresh_mail_def)
  ultimately show ?thesis
    using handed_over_lemma [OF assms(1) comms, of "t\<lparr>t_during := arrive ps\<rparr>"] by (simp add: Let_def)
qed

text \<open>The application after a number of turns.\<close>

definition after_turns :: "'u hooks \<Rightarrow> turn list \<Rightarrow> 'u app \<Rightarrow> 'u app" where
  "after_turns hk ts A = fold (\<lambda>t A. snd (DoRunWork hk t A)) ts A"

lemma after_turns_simps [simp]:
  "after_turns hk [] A = A"
  "after_turns hk (t # ts) A = after_turns hk ts (snd (DoRunWork hk t A))"
  by (simp_all add: after_turns_def)

text \<open>The turns with the packets that arrive before each.\<close>

definition turns_with :: "(turn \<times> (moos_msg list \<times> real) list) list \<Rightarrow> turn list" where
  "turns_with tps = map (\<lambda>(t, ps). t\<lparr>t_during := arrive ps\<rparr>) tps"

definition turn_mail :: "(moos_msg list \<times> real) list \<Rightarrow> moos_msg list" where
  "turn_mail ps = filter (\<lambda>m. \<not> IsNullMsg m) (concat (map (packet_mail \<circ> fst) ps))"

lemma mail_turns:
  assumes "mail_only hk see" and "keeps_client hk" and "drained A"
    and "\<forall>(t, ps) \<in> set tps. (\<forall>(p, rx) \<in> set ps. p \<noteq> [] \<and> \<not> IsType (hd p) MOOS_NULL_MSG)
      \<and> length (concat (map fst ps)) \<le> c_nInPendingLimit (a_Base (p_Comms A))"
  shows "p_user (after_turns hk (turns_with tps) A) =
    fold (\<lambda>mail u. if mail = [] then u else see (sorted_mail A mail) u) (map (turn_mail \<circ> snd) tps) (p_user A)
    \<and> drained (after_turns hk (turns_with tps) A)"
  using assms(3,4)
proof (induction tps arbitrary: A)
  case Nil
  then show ?case by (simp add: turns_with_def)
next
  case (Cons x tps)
  obtain t ps where x: "x = (t, ps)" by (cases x)
  let ?B = "snd (DoRunWork hk (t\<lparr>t_during := arrive ps\<rparr>) A)"
  have B: "drained ?B" "settings ?B = settings A"
    "p_user ?B = (if turn_mail ps = [] then p_user A else see (sorted_mail A (turn_mail ps)) (p_user A))"
    using turn_drains [OF assms(1,2) Cons.prems(1), of ps t] Cons.prems(2) x
    by (auto simp: Let_def turn_mail_def)
  have same: "sorted_mail ?B = sorted_mail A"
    "c_nInPendingLimit (a_Base (p_Comms ?B)) = c_nInPendingLimit (a_Base (p_Comms A))"
    using B(2) by (simp_all add: fun_eq_iff sorted_mail_def settings_def)
  have "after_turns hk (turns_with (x # tps)) A = after_turns hk (turns_with tps) ?B"
    by (simp add: turns_with_def x)
  with Cons.IH [OF B(1), unfolded same B(3)] Cons.prems(2) show ?case by (simp add: x)
qed

section \<open>How the loop ends\<close>















section \<open>Commands\<close>

text \<open>The name of a command: the name of the application and then \<open>_CMD\<close>, the case of the letters aside.\<close>

definition same_letter :: "char \<Rightarrow> char \<Rightarrow> bool" where
  "same_letter c d \<longleftrightarrow> tolower c = tolower d"

definition names_command :: "string \<Rightarrow> string \<Rightarrow> bool" where
  "names_command sApp key \<longleftrightarrow>
     (\<exists>n c. key = n @ c \<and> list_all2 same_letter n sApp \<and> list_all2 same_letter c ''_CMD'')"

lemma case_folds: "tolower (toupper c) = tolower c" "toupper (tolower c) = toupper c"
proof -
  define n where "n = (of_char c :: nat)"
  have c: "c = char_of n" and n: "n < 256" by (simp_all add: n_def)
  have "char_of (n - 32 + 32) = char_of n" if "97 \<le> n" using that by simp
  then show "tolower (toupper c) = tolower c" "toupper (tolower c) = toupper c"
    using n unfolding c by (auto simp: toupper_def tolower_def less_eq_char_def)
qed

lemma same_letter_upper: "same_letter c d \<longleftrightarrow> toupper c = toupper d"
  unfolding same_letter_def by (metis case_folds)

lemma same_letters: "list_all2 same_letter xs ys \<longleftrightarrow> map toupper xs = map toupper ys"
proof -
  have "map toupper xs = map toupper ys \<longleftrightarrow> list_all2 (=) (map toupper xs) (map toupper ys)"
    by (simp only: list.rel_eq)
  also have "\<dots> \<longleftrightarrow> list_all2 same_letter xs ys"
    by (simp only: list_all2_map1 list_all2_map2 same_letter_upper [abs_def])
  finally show ?thesis by simp
qed

lemma command_key: "MOOSStrCmp key (GetCommandKey A) \<longleftrightarrow> names_command (p_sAppName A) key"
proof -
  have "map toupper (map toupper xs) = map toupper xs" for xs
    by (simp add: same_letter_upper [symmetric] same_letter_def case_folds)
  then have "MOOSStrCmp key (GetCommandKey A) \<longleftrightarrow> map toupper key = map toupper (p_sAppName A) @ map toupper ''_CMD''"
    by (simp only: MOOSStrCmp_def GetCommandKey_def MOOSToUpper_def map_append)
  also have "\<dots> \<longleftrightarrow> (\<exists>n c. key = n @ c \<and> map toupper n = map toupper (p_sAppName A) \<and> map toupper c = map toupper ''_CMD'')"
    (is "_ \<longleftrightarrow> ?R")
  proof
    assume "map toupper key = map toupper (p_sAppName A) @ map toupper ''_CMD''"
    then obtain n c where "key = n @ c" "map toupper (p_sAppName A) = map toupper n" "map toupper ''_CMD'' = map toupper c"
      unfolding map_eq_append_conv by (elim exE conjE)
    then show ?R by (metis (no_types))
  next
    assume ?R
    then show "map toupper key = map toupper (p_sAppName A) @ map toupper ''_CMD''" by (elim exE conjE) (simp only: map_append)
  qed
  finally show ?thesis by (simp only: names_command_def same_letters)
qed

lemma commands_lemma:
  assumes "\<And>m A. fst (k_OnCommandMsg hk m A) = ok m \<and> p_user (snd (k_OnCommandMsg hk m A)) = see m (p_user A)
      \<and> p_sAppName (snd (k_OnCommandMsg hk m A)) = p_sAppName A"
  shows "p_user (snd (LookForAndHandleAppCommand hk ms A)) =
      fold see (filter (names_command (p_sAppName A) \<circ> m_sKey) ms) (p_user A)
    \<and> (fst (LookForAndHandleAppCommand hk ms A) \<longleftrightarrow> (\<forall>m \<in> set ms. names_command (p_sAppName A) (m_sKey m) \<longrightarrow> ok m))"
  unfolding LookForAndHandleAppCommand_def
proof (induction ms arbitrary: A)
  case (Cons m ms)
  have "p_sAppName (snd (k_OnCommandMsg hk m A)) = p_sAppName A" using assms by simp
  with Cons.IH [of A] Cons.IH [of "snd (k_OnCommandMsg hk m A)"] assms show ?case
    by (simp add: split_beta Let_def command_key)
qed simp

section \<open>Variables\<close>

definition var_msg :: "real \<Rightarrow> moos_variable \<Rightarrow> moos_msg" where
  "var_msg now v =
     (if v_bDouble v
      then (msg_double MOOS_NOTIFY (c_str (v_sPublishName v)) (v_dfVal v) (v_dfTimeWritten v) now)\<lparr>m_sSrcAux := []\<rparr>
      else (msg_string MOOS_NOTIFY (c_str (v_sPublishName v)) (c_str (v_sVal v)) (v_dfTimeWritten v) now)
             \<lparr>m_sSrcAux := []\<rparr>)"

lemma publish_var_posts:
  "publish_var now v A =
     A\<lparr>p_Comms := snd (via_AsyncPost (\<lambda>c. post_msg (var_msg now v) (publish (v_sPublishName v) c)) (p_Comms A))\<rparr>"
  by (simp add: publish_var_def var_msg_def AppNotifyDouble_def AppNotifyString_def on_comms_def
      NotifyDouble_def [abs_def] NotifyString_def [abs_def] split_beta)

lemma via_publish:
  "via_AsyncPost (\<lambda>c. post_msg M (publish s c)) a =
     via_AsyncPost (post_msg M) (a\<lparr>a_Base := publish s (a_Base a)\<rparr>)"
  by (cases a) (simp add: via_AsyncPost_def split_beta)

text \<open>What a subscriber gets to see of a message.\<close>

definition content :: "moos_msg \<Rightarrow> char \<times> char \<times> string \<times> real \<times> string \<times> real" where
  "content m = (m_cMsgType m, m_cDataType m, m_sKey m, m_dfVal m, m_sVal m, m_dfTime m)"

lemma content_stamp [simp]: "content (stamp c b M) = content M"
  by (simp add: content_def stamp_def)

lemma publish_var_step:
  assumes "c_bConnected (a_Base (p_Comms A))" and "idle_box (p_Comms A)"
  shows "\<exists>S. content S = content (var_msg now v)
    \<and> a_OutGoingQueue (p_Comms (publish_var now v A)) = ditch_half (a_OutGoingQueue (p_Comms A)) @ [S]
    \<and> c_bConnected (a_Base (p_Comms (publish_var now v A))) \<and> idle_box (p_Comms (publish_var now v A))"
proof -
  define a where "a = (p_Comms A)\<lparr>a_Base := publish (v_sPublishName v) (a_Base (p_Comms A))\<rparr>"
  have a: "c_bConnected (a_Base a)" "idle_box a" "a_OutGoingQueue a = a_OutGoingQueue (p_Comms A)"
    using assms by (simp_all add: a_def publish_def idle_box_def)
  have "p_Comms (publish_var now v A) = snd (snd (AsyncPost (var_msg now v) False a))"
    by (simp add: publish_var_posts via_publish a_def [symmetric] via_AsyncPost_Post [OF a(2)] split_beta)
  with AsyncPost_connected [OF a(1,2), of "var_msg now v" False] a show ?thesis
    by (intro exI [of _ "stamp (a_Base a) False (var_msg now v)"]) (simp add: idle_box_def)
qed

lemma publish_var_off:
  assumes "\<not> c_bConnected (a_Base (p_Comms A))" and "c_OutBox (a_Base (p_Comms A)) = []"
  shows "a_OutGoingQueue (p_Comms (publish_var now v A)) = a_OutGoingQueue (p_Comms A)
    \<and> \<not> c_bConnected (a_Base (p_Comms (publish_var now v A)))
    \<and> c_OutBox (a_Base (p_Comms (publish_var now v A))) = []"
  using assms
  by (simp add: publish_var_posts via_AsyncPost_def post_msg_def Post_def publish_def)

definition publish_fresh :: "real \<Rightarrow> (string \<times> moos_variable) list \<Rightarrow> 'u app \<Rightarrow> 'u app" where
  "publish_fresh now vs A = fold (\<lambda>(n, v) A. if v_bFresh v then publish_var now v A else A) vs A"

lemma publish_fresh_queue:
  assumes "c_bConnected (a_Base (p_Comms A))" and "idle_box (p_Comms A)"
    and "length (a_OutGoingQueue (p_Comms A)) + length vs \<le> 2048"
  shows "\<exists>new. a_OutGoingQueue (p_Comms (publish_fresh now vs A)) = a_OutGoingQueue (p_Comms A) @ new
    \<and> map content new = map (content \<circ> var_msg now) (filter v_bFresh (map snd vs))"
  using assms
proof (induction vs arbitrary: A)
  case Nil
  then show ?case by (simp add: publish_fresh_def)
next
  case (Cons p vs)
  obtain n v where p: "p = (n, v)" by (cases p)
  show ?case
  proof (cases "v_bFresh v")
    case False
    with Cons p show ?thesis by (simp add: publish_fresh_def)
  next
    case True
    obtain S where S: "content S = content (var_msg now v)"
        "a_OutGoingQueue (p_Comms (publish_var now v A)) = ditch_half (a_OutGoingQueue (p_Comms A)) @ [S]"
        "c_bConnected (a_Base (p_Comms (publish_var now v A)))" "idle_box (p_Comms (publish_var now v A))"
      using publish_var_step [OF Cons.prems(1,2), of now v] by blast
    have q: "ditch_half (a_OutGoingQueue (p_Comms A)) = a_OutGoingQueue (p_Comms A)"
      using Cons.prems(3) by (simp add: ditch_half_def OUTBOX_PENDING_LIMIT_def)
    have "length (a_OutGoingQueue (p_Comms (publish_var now v A))) + length vs \<le> 2048"
      using Cons.prems(3) by (simp add: S(2) q)
    from Cons.IH [OF S(3,4) this] obtain new where
      "a_OutGoingQueue (p_Comms (publish_fresh now vs (publish_var now v A))) =
        a_OutGoingQueue (p_Comms A) @ S # new"
      "map content new = map (content \<circ> var_msg now) (filter v_bFresh (map snd vs))"
      by (auto simp: S(2) q)
    with True S(1) p show ?thesis by (intro exI [of _ "S # new"]) (simp add: publish_fresh_def)
  qed
qed

lemma publish_fresh_off:
  assumes "\<not> c_bConnected (a_Base (p_Comms A))" and "c_OutBox (a_Base (p_Comms A)) = []"
  shows "a_OutGoingQueue (p_Comms (publish_fresh now vs A)) = a_OutGoingQueue (p_Comms A)"
  using assms
proof (induction vs arbitrary: A)
  case (Cons p vs)
  obtain n v where p: "p = (n, v)" by (cases p)
  from Cons publish_var_off [OF Cons.prems, of now v] show ?case by (simp add: publish_fresh_def p)
qed (simp add: publish_fresh_def)

lemma PublishFresh_eq:
  "PublishFreshMOOSVariables now A = (publish_fresh now (p_MOOSVars A) A)
     \<lparr>p_MOOSVars := map_vals (\<lambda>n v. if v_bFresh v then SetFresh False v else v) (p_MOOSVars A)\<rparr>"
  by (simp add: PublishFreshMOOSVariables_def publish_fresh_def)

lemma none_fresh: "(n, v) \<in> set (p_MOOSVars (PublishFreshMOOSVariables now A)) \<Longrightarrow> \<not> v_bFresh v"
  by (auto simp: PublishFreshMOOSVariables_def map_vals_def SetFresh_def split: if_splits)

section \<open>Properties\<close>

text \<open>C4: Over any turns, the derived class is handed in each the mail of the packets that have come in
  since the last turn, all of it, once, without null messages and the timing message that leads a
  packet, and in the order of its times (stable) when the application sorts its mail; in a turn
  without such mail \<open>OnNewMail\<close> is not called. For an application that starts with an empty in box and
  has no active queues, packets of at least one message that do not start with a null message, and
  no more of them in a turn than the in box holds, while the connection lasts; the class touches its
  own state in \<open>OnNewMail\<close> only, and its handlers may post and register but leave the in box, the
  queues and the two settings of mail alone.\<close>

theorem mail_handed_over:
  assumes "mail_only hk see" and "keeps_client hk" and "drained A"
    and "\<forall>(t, ps) \<in> set tps. (\<forall>(p, rx) \<in> set ps. p \<noteq> [] \<and> \<not> IsType (hd p) MOOS_NULL_MSG)
      \<and> length (concat (map fst ps)) \<le> c_nInPendingLimit (a_Base (p_Comms A))"
  shows "p_user (after_turns hk (turns_with tps) A) =
    fold (\<lambda>mail u. if mail = [] then u else see (sorted_mail A mail) u) (map (turn_mail \<circ> snd) tps) (p_user A)
    \<and> drained (after_turns hk (turns_with tps) A)"
  using assms by (rule mail_turns)

text \<open>In the regular mode an application does not run faster than its frequency: when its pauses are
  slept, a turn starts its work later than a period, less two milliseconds of rounding, after the
  turn before. The period in milliseconds has to be an \<open>int\<close>, about 25 days.\<close>

theorem app_rate:
  assumes "p_dfFreq A > 0" and "1000 / p_dfFreq A < 2 ^ 31"
    and "p_IterationMode A = REGULAR_ITERATE_AND_MAIL"
    and "p_dfLastRunTime A \<le> t_now t"
    and "t_now t + real_of_int (sum_list (snd (SleepAsRequired t A))) / 1000 \<le> t_start t"
  shows "1 / p_dfFreq A - 2 / 1000 < t_start t - p_dfLastRunTime A"
  using assms by (rule app_rate_lemma)

text \<open>It never sleeps longer than a period in one go: each pause is positive and at most the period
  of the frequency or, when mail drives the iterations, that of the maximal frequency.\<close>

theorem pause_bounds:
  assumes "n \<in> set (snd (SleepAsRequired t A))" and "p_dfLastRunTime A \<le> t_later t"
  shows "0 < n \<and> (real_of_int n \<le> 1000 / p_dfFreq A \<or>
    p_IterationMode A = COMMS_DRIVEN_ITERATE_AND_MAIL \<and> real_of_int n \<le> 1000 / p_dfMaxAppTick A)"
  using assms by (rule pause_bounds_lemma)


text \<open>C33: Commands: with command filtering on, \<open>OnCommandMsg\<close> is called with exactly the messages of the
  mail whose name is the application's name followed by \<open>_CMD\<close>, in any case, in the order they are in
  the mail, and with filtering off with none; the search for commands succeeds exactly if the
  handler accepted each of them. For a handler that does not rename the application and whose
  answer depends on the message.\<close>

theorem commands_handled:
  assumes "\<And>m A. fst (k_OnCommandMsg hk m A) = ok m \<and> p_user (snd (k_OnCommandMsg hk m A)) = see m (p_user A)
      \<and> p_sAppName (snd (k_OnCommandMsg hk m A)) = p_sAppName A"
  shows "p_user (OnNewMailPrivate hk ms A) =
      (if p_bCommandMessageFiltering A
       then fold see (filter (names_command (p_sAppName A) \<circ> m_sKey) ms) (p_user A) else p_user A)
    \<and> (fst (LookForAndHandleAppCommand hk ms A) \<longleftrightarrow> (\<forall>m \<in> set ms. names_command (p_sAppName A) (m_sKey m) \<longrightarrow> ok m))"
  using commands_lemma [OF assms] by (auto simp: OnNewMailPrivate_def)

text \<open>Publishing the fresh variables of a connected application queues one notification for each of
  them, in the order of their names, with its publish name, its value and the time it was
  written, and none is fresh afterwards.\<close>

theorem fresh_published:
  assumes "c_bConnected (a_Base (p_Comms A))" and "idle_box (p_Comms A)"
    and "length (a_OutGoingQueue (p_Comms A)) + length (p_MOOSVars A) \<le> 2048"
  shows "\<exists>new. a_OutGoingQueue (p_Comms (PublishFreshMOOSVariables now A)) = a_OutGoingQueue (p_Comms A) @ new
    \<and> map content new = map (content \<circ> var_msg now) (filter v_bFresh (map snd (p_MOOSVars A)))
    \<and> (\<forall>v \<in> snd ` set (p_MOOSVars (PublishFreshMOOSVariables now A)). \<not> v_bFresh v)"
  using publish_fresh_queue [OF assms] none_fresh [of _ _ now A] by (force simp: PublishFresh_eq)

text \<open>Without a connection the fresh values are lost: nothing is queued, and the variables are marked
  as published all the same.\<close>

theorem fresh_lost:
  assumes "\<not> c_bConnected (a_Base (p_Comms A))" and "c_OutBox (a_Base (p_Comms A)) = []"
  shows "a_OutGoingQueue (p_Comms (PublishFreshMOOSVariables now A)) = a_OutGoingQueue (p_Comms A)
    \<and> (\<forall>v \<in> snd ` set (p_MOOSVars (PublishFreshMOOSVariables now A)). \<not> v_bFresh v)"
  using publish_fresh_off [OF assms] none_fresh [of _ _ now A] by (force simp: PublishFresh_eq)

text \<open>\<open>WaitForEmptyOutbox\<close> does not wait: what the application has notified is in the queue of the
  asynchronous client, not in the box that it looks at.\<close>

theorem no_wait_for_outbox:
  assumes "c_bConnected (a_Base (p_Comms A))" and "idle_box (p_Comms A)"
  shows "a_OutGoingQueue (p_Comms (publish_var now v A)) \<noteq> [] \<and> \<not> HasUnsent (publish_var now v A)"
  using publish_var_step [OF assms, of now v] by (auto simp: HasUnsent_def idle_box_def)

end
