(* ===== verification/Moos_AppSystem.thy ===== *)
theory Moos_AppSystem
  imports Moos_AsyncSystem Moos_AppProperties
begin

text \<open>
  The whole way of a value: from the client that publishes it, through the database and the
  threaded server, over the asynchronous client of an application, into the function in which the
  application handles its mail.
\<close>

lemma fresh_mail_Fetch: "fresh_mail a = fst (snd (Fetch [] (a_Base a)))"
  by (simp add: fresh_mail_def Fetch_def Let_def)

lemma set_sorted_mail [simp]: "set (sorted_mail A ms) = set ms"
  by (simp add: sorted_mail_def)

text \<open>C1: a notification that a client publishes is handed to every other application whose
  subscription was due, without the application asking for it: the server's next round queues it,
  the writer of the application's client sends it, its reader takes it in while the application
  sleeps, and the application's next turn passes it to \<open>OnNewMail\<close>, with its name, value, time,
  type and source.\<close>

theorem publish_reaches_application:
  assumes "t_ok t" and "db_ok (s_DB (t_Base t))" and "t_DataFromClient t = SD # rest" and "sd_Status SD = PKT_READ"
    and "sd_Pkt SD = Some rx" and "payload rx = pre @ m # post" and "m_cMsgType m = MOOS_NOTIFY"
    and "map_of (t_ClientThreads t) b = Some th" and "th_bAsynchronous th" and "b \<noteq> sd_sClientName SD"
    and "th_DataOutgoing th = []" and "th_bWriting th"
    and "delivered_to m (snd (process_all (view (io_timing io) (io_date io) (t_Base t)) pre [] (s_DB (t_Base t)))) b"
    and "\<forall>x \<in> set post. \<not> is_clear x"
    and "t_exec (TServe io) t = Some t'" and "map_of (t_ClientThreads t') b = Some th'"
    and "queues_ok (a_Base (p_Comms A))" and "c_Msg2ActiveQueueName (a_Base (p_Comms A)) = []"
    and "c_WildcardQueuePatterns (a_Base (p_Comms A)) = []"
    and "DoReading (fst (WriteStep True th')) r (p_Comms A) = Inr (ok, a')" and "t_during turn (p_Comms A) = a'"
    and "mail_only hk see" and "p_bUseMOOSComms A"
  shows "\<exists>mail. p_user (snd (DoRunWork hk turn A)) = see mail (p_user A)
     \<and> (\<exists>x \<in> set mail. IsType x MOOS_NOTIFY \<and> m_sKey x = m_sKey m
     \<and> m_cDataType x = m_cDataType m \<and> m_dfVal x = m_dfVal m \<and> m_sVal x = m_sVal m \<and> m_dfTime x = m_dfTime m
     \<and> m_sSrc x = m_sSrc m \<and> m_sSrcAux x = m_sSrcAux m)"
proof -
  obtain x where x: "x \<in> set (fresh_mail a')" and c: "IsType x MOOS_NOTIFY \<and> m_sKey x = m_sKey m
     \<and> m_cDataType x = m_cDataType m \<and> m_dfVal x = m_dfVal m \<and> m_sVal x = m_sVal m \<and> m_dfTime x = m_dfTime m
     \<and> m_sSrc x = m_sSrc m \<and> m_sSrcAux x = m_sSrcAux m"
    using publish_in_mail [OF assms(1-20)] unfolding fresh_mail_Fetch by blast
  have "p_user (snd (DoRunWork hk turn A)) = see (sorted_mail A (fresh_mail a')) (p_user A)"
    using handed_over_lemma [OF assms(22,23), of turn] x assms(21) by (auto simp: Let_def)
  with x c show ?thesis by (intro exI [of _ "sorted_mail A (fresh_mail a')"]) auto
qed

end
