(* ===== verification/Moos_ConfigExamples.thy ===== *)
theory Moos_ConfigExamples
  imports Moos_ConfigProperties
begin

text \<open>
  The properties of the configuration reader at a small mission file: a comment, a global
  setting and the block of one application.
\<close>

lemmas clean_simps = clean_def isspace_def moos_white_def MAXLINESIZE_def

lemmas heads_simps = heads_def MOOSStrCmp_def MOOSToUpper_def toupper_def spaces_def

definition mission_before :: "(string \<times> string) list" where
  "mission_before = [(''// a mission'' @ [newline], ''ServerHost = localhost'')]"

definition mission_params :: "(string \<times> string \<times> string) list" where
  "mission_params = [('' '', ''AppTick'', ''10''), ([], ''Mode'', ''a fast one'')]"

definition mission_text :: string where
  "mission_text = mission mission_before ([], ''ProcessConfig = pNav'') [] (param_lines mission_params) []
     ''ProcessConfig = pOther''"

definition mission_host :: "string \<Rightarrow> host" where
  "mission_host w = \<lparr>h_disk = (\<lambda>f. if f = ''m.moos'' then Some w else None), h_getenv = (\<lambda>n. None)\<rparr>"

definition mission_reader :: config_reader where
  "mission_reader = new_config_reader\<lparr>c_file := new_file_reader\<lparr>r_sFileName := ''m.moos''\<rparr>\<rparr>"

lemma mission_ready: "ready (mission_host w) w (c_file mission_reader)"
  by (simp add: ready_def mission_host_def mission_reader_def new_file_reader_def new_config_reader_def)

lemma mission_gap: "gap (''// a mission'' @ [newline])"
  using gap_comment [of "'' a mission''" "[]"] gap_Nil by simp

lemma mission_ok: "lines_ok (mission_before @ [([], ''ProcessConfig = pNav'')])"
  using mission_gap gap_Nil by (simp add: mission_before_def clean_simps)

lemma mission_params_ok: "\<forall>p \<in> set mission_params. param_ok p"
  using gap_space [OF _ gap_Nil, of "CHR '' ''"] gap_Nil
  by (simp add: mission_params_def param_ok_def trimmed_def param_line_def clean_simps)

lemma mission_heads:
  "heads ''pNav'' ''ProcessConfig = pNav''" "\<forall>l \<in> snd ` set mission_before. \<not> heads ''pNav'' l"
  by code_simp+

theorem param_read_witness:
  "\<exists>C'. GetConfigurationParam_of (mission_host mission_text) ''pNav'' ''MODE'' mission_reader =
     Some (Some ''a fast one'', C')"
proof -
  have "lookup_param ''MODE'' mission_params = Some ''a fast one''" by code_simp
  with param_read [OF mission_ready mission_ok gap_Nil gap_Nil mission_params_ok mission_heads(2,1),
      of "''ProcessConfig = pOther''" "''MODE''"]
  show ?thesis unfolding mission_text_def by auto
qed

theorem param_returns_witness:
  "\<exists>v C'. GetConfigurationParam_of (mission_host mission_text) ''pOther'' ''MODE'' mission_reader =
     Some (v, C')"
proof -
  have "lines_fit mission_text" by code_simp
  with param_returns [OF mission_ready, of mission_text "''pOther''" "''MODE''"] show ?thesis by blast
qed

theorem long_comment_hangs_witness:
  "GetConfigurationParam_of
     (mission_host (render mission_before @ ''//'' @ replicate 1998 CHR ''-'' @ [newline]))
     ''pNav'' ''MODE'' mission_reader = None"
  using mission_ok mission_heads
  by (intro long_comment_hangs [OF mission_ready]) auto

theorem bracket_hides_witness:
  "\<exists>C'. GetConfigurationParam_of
     (mission_host (mission mission_before ([], ''ProcessConfig = pNav'') []
        (param_lines [] @ [([], ''[section]'')] @ param_lines mission_params) [] []))
     ''pNav'' ''MODE'' mission_reader = Some (None, C')"
proof (rule bracket_hides [OF mission_ready])
  show "lines_ok (mission_before @ [([], ''ProcessConfig = pNav''), ([], ''[section]'')])"
    using mission_ok gap_Nil by (simp add: clean_simps)
  show "trimmed ''[section]''" "CHR ''='' \<notin> set ''[section]''" "has_bracket ''[section]''"
    "hd ''[section]'' \<noteq> CHR ''}''"
    by (simp_all add: trimmed_def moos_white_def has_bracket_def)
qed (use mission_params_ok mission_heads gap_Nil in \<open>simp_all add: lookup_param_def\<close>)

theorem expand_template_witness:
  "DoVariableExpansion (mission_host []) [(''HOST'', ''oxford'')] ''at ${HOST}, $${PORT}.'' =
     ''at oxford, $PORT.''"
proof -
  have "DoVariableExpansion (mission_host []) [(''HOST'', ''oxford'')]
      (template [(''at '', ''HOST''), ('', $'', ''PORT'')] ''.'') =
    expanded (expand_name (mission_host []) [(''HOST'', ''oxford'')])
      [(''at '', ''HOST''), ('', $'', ''PORT'')] ''.''"
    by (rule expand_template) (simp_all add: expand_name_def mission_host_def)
  then show ?thesis by (simp add: expand_name_def mission_host_def)
qed

theorem empty_expansion_cuts_witness:
  "DoVariableExpansion (mission_host []) [(''NONE'', [])] ''at ${NONE}, port 9000'' = ''at ''"
  using empty_expansion_cuts [of "''at ''" "''NONE''" "mission_host []" "[(''NONE'', [])]"
      "'', port 9000''"]
  by (simp add: expand_name_def)

theorem overload_wins_witness:
  "\<exists>out R'. MakeOverloadedCopy (mission_host (text_of [''ServerHost = localhost'', ''ServerPort = 9000'']))
       True [(''ServerPort'', ''9100'')] (c_file mission_reader) = Some (Some out, R')
     \<and> (\<exists>R3. GetValue (mission_host out) ''ServerPort'' (c_file mission_reader) =
          Some (Some ''9100'', R3))"
proof -
  define ls where "ls = [''ServerHost = localhost'', ''ServerPort = 9000'']"
  have w: "text_of ls = text_of ([''ServerHost = localhost''] @ [''ServerPort = 9000''] @ [])"
    by (simp add: ls_def)
  have "\<forall>x \<in> set ([''ServerHost = localhost''] @ [''ServerPort = 9000''] @ []).
      copyable [(''ServerPort'', ''9100'')] x"
    by (simp add: copyable_def clean_simps)
  moreover have "token_of ''ServerPort = 9000'' = Some ''ServerPort''" by code_simp
  moreover have "\<forall>x \<in> set [''ServerHost = localhost'']. \<forall>t. token_of x = Some t
      \<longrightarrow> \<not> MOOSStrCmp t ''ServerPort''"
  proof -
    have "token_of ''ServerHost = localhost'' = Some ''ServerHost''" by code_simp
    moreover have "\<not> MOOSStrCmp ''ServerHost'' ''ServerPort''" by code_simp
    ultimately show ?thesis by simp
  qed
  moreover have "MOOSRemoveChars ''9100'' spaces = ''9100''" by code_simp
  ultimately show ?thesis
    using overload_wins [OF mission_ready [of "text_of ls", unfolded w],
        of "[(''ServerPort'', ''9100'')]" "''ServerPort''" "''9100''"] mission_ready
    unfolding ls_def by fastforce
qed

end
