(* ===== verification/Moos_Wire.thy ===== *)
theory Moos_Wire
  imports Moos_Msg
begin

text \<open>
  The wire format: \<open>CMOOSMsg::Serialize\<close> and its stream operators (\<open>Comms/MOOSMsg.cpp\<close>).

  \<^item> A buffer is a list of bytes (\<open>char\<close>); a \<open>double\<close> is its 64-bit pattern, an \<open>int\<close> a 32-bit
    word. The machine's byte order is the argument \<open>le\<close> of every routine.
  \<^item> A routine ends with a value or a fault: \<open>OutOfSpace\<close> is the \<open>CMOOSException\<close> the code
    throws and catches, \<open>LengthError\<close> the \<open>std::length_error\<close> of \<open>string::assign\<close> with a
    negative count, \<open>BadAccess\<close> an access outside the buffer the routine was given.
\<close>

section \<open>Faults\<close>

datatype fault = OutOfSpace | LengthError | BadAccess

type_synonym 'a res = "fault + 'a"

fun and_then :: "'a res \<Rightarrow> ('a \<Rightarrow> 'b res) \<Rightarrow> 'b res" where
  "and_then (Inl e) f = Inl e"
| "and_then (Inr x) f = f x"

lemma and_then_Inr_iff: "and_then r f = Inr y \<longleftrightarrow> (\<exists>x. r = Inr x \<and> f x = Inr y)"
  by (cases r) auto

lemma and_then_Bad:
  "and_then r f = Inl BadAccess \<longleftrightarrow> r = Inl BadAccess \<or> (\<exists>x. r = Inr x \<and> f x = Inl BadAccess)"
  by (cases r) auto

section \<open>Bytes of a number\<close>

fun nat_bytes :: "nat \<Rightarrow> nat \<Rightarrow> char list" where
  "nat_bytes 0 x = []"
| "nat_bytes (Suc k) x = char_of (x mod 256) # nat_bytes k (x div 256)"

fun nat_of_bytes :: "char list \<Rightarrow> nat" where
  "nat_of_bytes [] = 0"
| "nat_of_bytes (c # cs) = of_char c + 256 * nat_of_bytes cs"

text \<open>The bytes of a value in the memory of a machine, and back; \<open>nSize\<close> is \<open>sizeof(T)\<close>.\<close>

definition to_mem :: "bool \<Rightarrow> nat \<Rightarrow> 'a::len word \<Rightarrow> char list" where
  "to_mem le nSize w = (if le then nat_bytes nSize (unat w) else rev (nat_bytes nSize (unat w)))"

definition from_mem :: "bool \<Rightarrow> char list \<Rightarrow> 'a::len word" where
  "from_mem le bs = of_nat (nat_of_bytes (if le then bs else rev bs))"

definition SwapByteOrder :: "bool \<Rightarrow> nat \<Rightarrow> 'a::len word \<Rightarrow> 'a word" where
  "SwapByteOrder le nSize w = from_mem le (rev (to_mem le nSize w))"

definition CopyToBufferAsLittleEndian :: "bool \<Rightarrow> nat \<Rightarrow> 'a::len word \<Rightarrow> char list" where
  "CopyToBufferAsLittleEndian le nSize Var =
     (if \<not> le then to_mem le nSize (SwapByteOrder le nSize Var) else to_mem le nSize Var)"

definition CopyFromBufferAsLittleEndian :: "bool \<Rightarrow> nat \<Rightarrow> char list \<Rightarrow> 'a::len word" where
  "CopyFromBufferAsLittleEndian le nSize bs =
     (let Val = from_mem le bs in if \<not> le then SwapByteOrder le nSize Val else Val)"

lemma length_nat_bytes [simp]: "length (nat_bytes k x) = k"
  by (induction k arbitrary: x) auto

lemma nat_of_nat_bytes: "nat_of_bytes (nat_bytes k x) = x mod 256 ^ k"
proof (induction k arbitrary: x)
  case (Suc k)
  have "of_char (char_of (x mod 256) :: char) = x mod 256" by simp
  with Suc show ?case by (simp add: mod_mult2_eq)
qed simp

lemma nat_bytes_of_bytes: "nat_bytes (length bs) (nat_of_bytes bs) = bs"
  by (induction bs) (simp_all add: div_add1_eq)

lemma digit_bound: "c < 256 \<Longrightarrow> n < p \<Longrightarrow> c + 256 * n < 256 * (p :: nat)"
  by linarith

lemma nat_of_bytes_less: "nat_of_bytes bs < 256 ^ length bs"
proof (induction bs)
  case (Cons c cs)
  from digit_bound [OF nat_of_char_less_256 [of c] this] show ?case by simp
qed simp

lemma unat_of_bytes:
  "256 ^ length bs \<le> (2::nat) ^ LENGTH('a) \<Longrightarrow> unat (of_nat (nat_of_bytes bs) :: 'a::len word) = nat_of_bytes bs"
  using nat_of_bytes_less [of bs] by (simp add: unat_of_nat take_bit_eq_mod)

text \<open>Either byte order writes and reads the same bytes.\<close>

lemma copy_to:
  "(256::nat) ^ k = 2 ^ LENGTH('a) \<Longrightarrow>
   CopyToBufferAsLittleEndian le k (w :: 'a::len word) = nat_bytes k (unat w)"
proof -
  assume k: "(256::nat) ^ k = 2 ^ LENGTH('a)"
  define bs where "bs = nat_bytes k (unat w)"
  have l: "length bs = k" by (simp add: bs_def)
  then have u: "unat (of_nat (nat_of_bytes (rev bs)) :: 'a word) = nat_of_bytes (rev bs)"
    using k by (intro unat_of_bytes) simp
  have "nat_bytes k (nat_of_bytes (rev bs)) = rev bs"
    using nat_bytes_of_bytes [of "rev bs"] l by simp
  with u show ?thesis
    by (simp add: CopyToBufferAsLittleEndian_def SwapByteOrder_def to_mem_def from_mem_def bs_def)
qed

lemma copy_from:
  "(256::nat) ^ k = 2 ^ LENGTH('a) \<Longrightarrow> length bs = k \<Longrightarrow>
   CopyFromBufferAsLittleEndian le k bs = (of_nat (nat_of_bytes bs) :: 'a::len word)"
proof -
  assume k: "(256::nat) ^ k = 2 ^ LENGTH('a)" and l: "length bs = k"
  then have u: "unat (of_nat (nat_of_bytes (rev bs)) :: 'a word) = nat_of_bytes (rev bs)"
    by (intro unat_of_bytes) simp
  have "nat_bytes k (nat_of_bytes (rev bs)) = rev bs"
    using nat_bytes_of_bytes [of "rev bs"] l by simp
  with u show ?thesis
    by (simp add: CopyFromBufferAsLittleEndian_def SwapByteOrder_def to_mem_def from_mem_def)
qed

lemma word_bytes:
  "(256::nat) ^ k = 2 ^ LENGTH('a) \<Longrightarrow> of_nat (nat_of_bytes (nat_bytes k (unat w))) = (w :: 'a::len word)"
proof -
  assume k: "(256::nat) ^ k = 2 ^ LENGTH('a)"
  have "unat w < 2 ^ LENGTH('a)" by (rule unsigned_less)
  with k show ?thesis by (simp add: nat_of_nat_bytes)
qed

section \<open>The serialisation buffer\<close>

text \<open>\<open>sb_mem\<close> is the memory from \<open>m_pSerializeBufferStart\<close> on, \<open>sb_pos\<close> the distance of
  \<open>m_pSerializeBuffer\<close> from there, \<open>sb_len\<close> is \<open>m_nSerializeBufferLen\<close>.\<close>

record sbuf =
  sb_mem :: "char list"
  sb_pos :: nat
  sb_len :: int

definition CanSerialiseN :: "int \<Rightarrow> sbuf \<Rightarrow> bool" where
  "CanSerialiseN N b \<longleftrightarrow> int (sb_pos b) + N \<le> sb_len b"

definition memcpy_to :: "char list \<Rightarrow> sbuf \<Rightarrow> sbuf res" where
  "memcpy_to bs b =
     (if sb_pos b + length bs \<le> length (sb_mem b)
      then Inr (b\<lparr>sb_mem := take (sb_pos b) (sb_mem b) @ bs @ drop (sb_pos b + length bs) (sb_mem b),
                  sb_pos := sb_pos b + length bs\<rparr>)
      else Inl BadAccess)"

definition memcpy_from :: "nat \<Rightarrow> sbuf \<Rightarrow> (char list \<times> sbuf) res" where
  "memcpy_from n b =
     (if sb_pos b + n \<le> length (sb_mem b)
      then Inr (take n (drop (sb_pos b) (sb_mem b)), b\<lparr>sb_pos := sb_pos b + n\<rparr>)
      else Inl BadAccess)"

definition put_double :: "bool \<Rightarrow> 64 word \<Rightarrow> sbuf \<Rightarrow> sbuf res" where
  "put_double le dfVal b =
     (if CanSerialiseN 8 b then memcpy_to (CopyToBufferAsLittleEndian le 8 dfVal) b else Inl OutOfSpace)"

definition get_double :: "bool \<Rightarrow> sbuf \<Rightarrow> (64 word \<times> sbuf) res" where
  "get_double le b =
     (if CanSerialiseN 8 b
      then and_then (memcpy_from 8 b) (\<lambda>(bs, b). Inr (CopyFromBufferAsLittleEndian le 8 bs, b))
      else Inl OutOfSpace)"

definition put_int :: "bool \<Rightarrow> 32 word \<Rightarrow> sbuf \<Rightarrow> sbuf res" where
  "put_int le nVal b =
     (if CanSerialiseN 4 b then memcpy_to (CopyToBufferAsLittleEndian le 4 nVal) b else Inl OutOfSpace)"

definition get_int :: "bool \<Rightarrow> sbuf \<Rightarrow> (32 word \<times> sbuf) res" where
  "get_int le b =
     (if CanSerialiseN 4 b
      then and_then (memcpy_from 4 b) (\<lambda>(bs, b). Inr (CopyFromBufferAsLittleEndian le 4 bs, b))
      else Inl OutOfSpace)"

definition put_char :: "char \<Rightarrow> sbuf \<Rightarrow> sbuf res" where
  "put_char cVal b = (if CanSerialiseN 1 b then memcpy_to [cVal] b else Inl OutOfSpace)"

definition get_char :: "sbuf \<Rightarrow> (char \<times> sbuf) res" where
  "get_char b =
     (if CanSerialiseN 1 b then and_then (memcpy_from 1 b) (\<lambda>(bs, b). Inr (hd bs, b)) else Inl OutOfSpace)"

text \<open>The size of a string is an \<open>int\<close>; a negative one becomes a huge \<open>size_t\<close> in \<open>memcpy\<close> and
  in \<open>assign\<close>.\<close>

definition put_string :: "bool \<Rightarrow> string \<Rightarrow> sbuf \<Rightarrow> sbuf res" where
  "put_string le sVal b =
     (let nSize = (of_nat (length sVal) :: 32 word)
      in and_then (put_int le nSize b)
           (\<lambda>b. if CanSerialiseN (sint nSize) b
                then (if sint nSize < 0 then Inl BadAccess else memcpy_to (take (nat (sint nSize)) sVal) b)
                else Inl OutOfSpace))"

definition get_string :: "bool \<Rightarrow> sbuf \<Rightarrow> (string \<times> sbuf) res" where
  "get_string le b =
     and_then (get_int le b)
       (\<lambda>(nSize, b). if CanSerialiseN (sint nSize) b
                     then (if sint nSize < 0 then Inl LengthError else memcpy_from (nat (sint nSize)) b)
                     else Inl OutOfSpace)"

section \<open>Messages\<close>

type_synonym wire_msg = "64 word msg"

text \<open>A \<open>size_t\<close> sum truncated to \<open>unsigned int\<close>.\<close>

definition GetSizeInBytesWhenSerialised :: "'d msg \<Rightarrow> 32 word" where
  "GetSizeInBytesWhenSerialised m =
     of_nat (2 * 4 + 2 * 1
       + (4 + length (m_sSrc m) + (4 + length (m_sSrcAux m)) + (4 + length (m_sOriginatingCommunity m))
          + (4 + length (m_sKey m)) + (4 + length (m_sVal m)))
       + 3 * 8)"

text \<open>The body of the \<open>try\<close> block that packs, then the whole branch: the new memory and the
  result, with \<open>OutOfSpace\<close> caught.\<close>

definition pack_fields :: "bool \<Rightarrow> wire_msg \<Rightarrow> sbuf \<Rightarrow> sbuf res" where
  "pack_fields le m b =
     and_then (put_int le (m_nID m) b) (\<lambda>b.
     and_then (put_char (m_cMsgType m) b) (\<lambda>b.
     and_then (put_char (m_cDataType m) b) (\<lambda>b.
     and_then (put_string le (m_sSrc m) b) (\<lambda>b.
     and_then (put_string le (m_sSrcAux m) b) (\<lambda>b.
     and_then (put_string le (m_sOriginatingCommunity m) b) (\<lambda>b.
     and_then (put_string le (m_sKey m) b) (\<lambda>b.
     and_then (put_double le (m_dfTime m) b) (\<lambda>b.
     and_then (put_double le (m_dfVal m) b) (\<lambda>b.
     and_then (put_double le (m_dfVal2 m) b) (\<lambda>b.
     put_string le (m_sVal m) b))))))))))"

definition pack_msg :: "bool \<Rightarrow> wire_msg \<Rightarrow> sbuf \<Rightarrow> (32 word \<times> sbuf) res" where
  "pack_msg le m b =
     and_then (pack_fields le m (b\<lparr>sb_pos := 4\<rparr>)) (\<lambda>b.
       let nLength = of_nat (sb_pos b)
       in and_then (put_int le nLength (b\<lparr>sb_pos := 0\<rparr>)) (\<lambda>b. Inr (nLength, b)))"

text \<open>\<open>None\<close> is the result -1: \<open>OutOfSpace\<close> was caught and the buffer is partly written.\<close>

definition Serialize_to :: "bool \<Rightarrow> wire_msg \<Rightarrow> char list \<Rightarrow> int \<Rightarrow> (32 word \<times> char list) option res" where
  "Serialize_to le m mem nLen =
     (case pack_msg le m \<lparr>sb_mem = mem, sb_pos = 0, sb_len = nLen\<rparr> of
        Inr (n, b) \<Rightarrow> Inr (Some (n, sb_mem b))
      | Inl OutOfSpace \<Rightarrow> Inr None
      | Inl e \<Rightarrow> Inl e)"

definition unpack_fields :: "bool \<Rightarrow> sbuf \<Rightarrow> (wire_msg \<times> sbuf) res" where
  "unpack_fields le b =
     and_then (get_int le b) (\<lambda>(nID, b).
     and_then (get_char b) (\<lambda>(cMsgType, b).
     and_then (get_char b) (\<lambda>(cDataType, b).
     and_then (get_string le b) (\<lambda>(sSrc, b).
     and_then (get_string le b) (\<lambda>(sSrcAux, b).
     and_then (get_string le b) (\<lambda>(sOriginatingCommunity, b).
     and_then (get_string le b) (\<lambda>(sKey, b).
     and_then (get_double le b) (\<lambda>(dfTime, b).
     and_then (get_double le b) (\<lambda>(dfVal, b).
     and_then (get_double le b) (\<lambda>(dfVal2, b).
     and_then (get_string le b) (\<lambda>(sVal, b).
       Inr (\<lparr>m_cMsgType = cMsgType, m_cDataType = cDataType, m_sKey = sKey, m_nID = nID,
             m_dfTime = dfTime, m_dfVal = dfVal, m_dfVal2 = dfVal2, m_sVal = sVal, m_sSrc = sSrc,
             m_sSrcAux = sSrcAux, m_sOriginatingCommunity = sOriginatingCommunity\<rparr>, b))))))))))))"

text \<open>Unpacking returns the length it read and the message, \<open>None\<close> for the result -1.\<close>

definition Serialize_from :: "bool \<Rightarrow> char list \<Rightarrow> int \<Rightarrow> (32 word \<times> wire_msg) option res" where
  "Serialize_from le mem nLen =
     (case and_then (get_int le \<lparr>sb_mem = mem, sb_pos = 0, sb_len = nLen\<rparr>)
             (\<lambda>(nLength, b). and_then (unpack_fields le b) (\<lambda>(m, b). Inr (nLength, m))) of
        Inr r \<Rightarrow> Inr (Some r)
      | Inl OutOfSpace \<Rightarrow> Inr None
      | Inl e \<Rightarrow> Inl e)"

section \<open>What is written\<close>

definition str_bytes :: "string \<Rightarrow> char list" where
  "str_bytes s = nat_bytes 4 (length s) @ s"

definition field_bytes :: "wire_msg \<Rightarrow> char list" where
  "field_bytes m =
     nat_bytes 4 (unat (m_nID m)) @ [m_cMsgType m] @ [m_cDataType m] @ str_bytes (m_sSrc m)
     @ str_bytes (m_sSrcAux m) @ str_bytes (m_sOriginatingCommunity m) @ str_bytes (m_sKey m)
     @ nat_bytes 8 (unat (m_dfTime m)) @ nat_bytes 8 (unat (m_dfVal m)) @ nat_bytes 8 (unat (m_dfVal2 m))
     @ str_bytes (m_sVal m)"

definition msg_size :: "wire_msg \<Rightarrow> nat" where
  "msg_size m = 4 + length (field_bytes m)"

definition msg_bytes :: "wire_msg \<Rightarrow> char list" where
  "msg_bytes m = nat_bytes 4 (msg_size m) @ field_bytes m"

lemma length_msg_bytes [simp]: "length (msg_bytes m) = msg_size m"
  by (simp add: msg_bytes_def msg_size_def)

lemma msg_size_sum:
  "msg_size m = 2 * 4 + 2 * 1
       + (4 + length (m_sSrc m) + (4 + length (m_sSrcAux m)) + (4 + length (m_sOriginatingCommunity m))
          + (4 + length (m_sKey m)) + (4 + length (m_sVal m)))
       + 3 * 8"
  by (simp add: msg_size_def field_bytes_def str_bytes_def)

lemma msg_size_eq: "GetSizeInBytesWhenSerialised m = of_nat (msg_size m)"
  unfolding GetSizeInBytesWhenSerialised_def msg_size_sum ..

definition wr :: "char list \<Rightarrow> sbuf \<Rightarrow> sbuf res" where
  "wr bs b = (if int (sb_pos b) + int (length bs) \<le> sb_len b then memcpy_to bs b else Inl OutOfSpace)"

definition room :: "sbuf \<Rightarrow> bool" where
  "room b \<longleftrightarrow> sb_len b \<le> int (length (sb_mem b))"

lemma and_then_assoc: "and_then (and_then r f) g = and_then r (\<lambda>x. and_then (f x) g)"
  by (cases r) auto

lemma wr_fits: "room b \<Longrightarrow> int (sb_pos b) + int (length bs) \<le> sb_len b \<Longrightarrow>
    wr bs b = Inr (b\<lparr>sb_mem := take (sb_pos b) (sb_mem b) @ bs @ drop (sb_pos b + length bs) (sb_mem b),
                     sb_pos := sb_pos b + length bs\<rparr>)"
  by (simp add: wr_def memcpy_to_def room_def)

lemma wr_full: "\<not> int (sb_pos b) + int (length bs) \<le> sb_len b \<Longrightarrow> wr bs b = Inl OutOfSpace"
  by (simp add: wr_def)

lemma wr_append:
  assumes "room b"
  shows "and_then (wr a b) (wr c) = wr (a @ c) b"
proof (cases "int (sb_pos b) + int (length a) \<le> sb_len b")
  case True
  let ?b = "b\<lparr>sb_mem := take (sb_pos b) (sb_mem b) @ a @ drop (sb_pos b + length a) (sb_mem b),
              sb_pos := sb_pos b + length a\<rparr>"
  have le: "sb_pos b + length a \<le> length (sb_mem b)" using True assms by (simp add: room_def)
  have room: "room ?b" using assms le by (simp add: room_def)
  show ?thesis
  proof (cases "int (sb_pos b) + int (length (a @ c)) \<le> sb_len b")
    case fits: True
    have "wr c ?b = wr (a @ c) b"
      using fits le by (simp add: wr_fits [OF room] wr_fits [OF assms] ac_simps)
    then show ?thesis by (simp add: wr_fits [OF assms True])
  next
    case False
    then have "wr c ?b = Inl OutOfSpace" by (intro wr_full) simp
    then show ?thesis by (simp add: wr_fits [OF assms True] wr_full [OF False])
  qed
next
  case False
  then show ?thesis by (simp add: wr_full)
qed

lemma wr_chain:
  "room b \<Longrightarrow> and_then (wr a b) (\<lambda>b. and_then (wr c b) f) = and_then (wr (a @ c) b) f"
  by (simp add: wr_append [symmetric] and_then_assoc)

lemma put_int_wr: "put_int le w = wr (nat_bytes 4 (unat w))"
  by (simp add: put_int_def wr_def CanSerialiseN_def copy_to fun_eq_iff)

lemma put_double_wr: "put_double le w = wr (nat_bytes 8 (unat w))"
  by (simp add: put_double_def wr_def CanSerialiseN_def copy_to fun_eq_iff)

lemma put_char_wr: "put_char c = wr [c]"
  by (simp add: put_char_def wr_def CanSerialiseN_def fun_eq_iff)

lemma size_word:
  assumes "n < 2 ^ 31"
  shows "unat (of_nat n :: 32 word) = n" and "sint (of_nat n :: 32 word) = int n"
proof -
  show u: "unat (of_nat n :: 32 word) = n" using assms by (simp add: unat_of_nat take_bit_eq_mod)
  have "signed_take_bit 31 (int n) = int n"
    using assms by (intro signed_take_bit_int_eq_self) auto
  then show "sint (of_nat n :: 32 word) = int n" by (simp add: signed_of_nat)
qed

lemma put_string_wr:
  assumes "length s < 2 ^ 31"
  shows "put_string le s b = and_then (wr (nat_bytes 4 (length s)) b) (wr s)"
proof -
  have "(\<lambda>b. if CanSerialiseN (sint (of_nat (length s) :: 32 word)) b
          then (if sint (of_nat (length s) :: 32 word) < 0 then Inl BadAccess
                else memcpy_to (take (nat (sint (of_nat (length s) :: 32 word))) s) b)
          else Inl OutOfSpace) = wr s"
    by (simp add: wr_def CanSerialiseN_def size_word [OF assms] fun_eq_iff)
  then show ?thesis by (simp add: put_string_def Let_def put_int_wr size_word [OF assms])
qed

definition sizes_ok :: "wire_msg \<Rightarrow> bool" where
  "sizes_ok m \<longleftrightarrow> msg_size m < 2 ^ 31"

lemma sizes_okD:
  assumes "sizes_ok m"
  shows "length (m_sSrc m) < 2 ^ 31" "length (m_sSrcAux m) < 2 ^ 31" "length (m_sKey m) < 2 ^ 31"
    "length (m_sOriginatingCommunity m) < 2 ^ 31" "length (m_sVal m) < 2 ^ 31" "msg_size m < 2 ^ 31"
  using assms by (simp_all add: sizes_ok_def msg_size_def field_bytes_def str_bytes_def)

lemma pack_fields_wr:
  assumes "sizes_ok m" and "room b"
  shows "pack_fields le m b = wr (field_bytes m) b"
  unfolding pack_fields_def put_int_wr put_double_wr put_char_wr field_bytes_def str_bytes_def
    put_string_wr [OF sizes_okD(1) [OF assms(1)]] put_string_wr [OF sizes_okD(2) [OF assms(1)]]
    put_string_wr [OF sizes_okD(3) [OF assms(1)]] put_string_wr [OF sizes_okD(4) [OF assms(1)]]
    put_string_wr [OF sizes_okD(5) [OF assms(1)]] and_then_assoc
  by (simp only: wr_chain [OF assms(2)] wr_append [OF assms(2)] append_assoc)

lemma Serialize_to_eq:
  assumes "sizes_ok m" and "0 \<le> nLen" and "nLen \<le> int (length mem)"
  shows "Serialize_to le m mem nLen =
     (if int (msg_size m) \<le> nLen then Inr (Some (of_nat (msg_size m), msg_bytes m @ drop (msg_size m) mem))
      else Inr None)"
proof -
  let ?b = "\<lparr>sb_mem = mem, sb_pos = 4, sb_len = nLen\<rparr>"
  have room: "room ?b" using assms(3) by (simp add: room_def)
  note pf = pack_fields_wr [OF assms(1) room, of le]
  show ?thesis
  proof (cases "int (msg_size m) \<le> nLen")
    case True
    let ?b2 = "\<lparr>sb_mem = take 4 mem @ field_bytes m @ drop (4 + length (field_bytes m)) mem,
                sb_pos = 4 + length (field_bytes m), sb_len = nLen\<rparr>"
    have fits: "int (sb_pos ?b) + int (length (field_bytes m)) \<le> sb_len ?b"
      using True by (simp add: msg_size_def)
    have p: "pack_fields le m ?b = Inr ?b2"
      unfolding pf by (subst wr_fits [OF room fits]) simp
    have l4: "4 \<le> length mem" using True assms(3) by (simp add: msg_size_def)
    have room2: "room (?b2\<lparr>sb_pos := 0\<rparr>)"
      using True assms(3) by (simp add: room_def msg_size_def)
    have "put_int le (of_nat (msg_size m)) (?b2\<lparr>sb_pos := 0\<rparr>) =
        Inr (?b2\<lparr>sb_mem := nat_bytes 4 (msg_size m) @ drop 4 (sb_mem ?b2), sb_pos := 4\<rparr>)"
      unfolding put_int_wr size_word(1) [OF sizes_okD(6) [OF assms(1)]]
      by (subst wr_fits [OF room2]) (use True l4 in \<open>simp_all add: msg_size_def\<close>)
    then show ?thesis
      using True l4 p
      by (simp add: Serialize_to_def pack_msg_def Let_def msg_size_def [symmetric] msg_bytes_def)
  next
    case False
    then have "pack_fields le m ?b = Inl OutOfSpace"
      unfolding pf by (intro wr_full) (simp add: msg_size_def)
    with False show ?thesis by (simp add: Serialize_to_def pack_msg_def)
  qed
qed

section \<open>What is read\<close>

text \<open>\<open>reads f x bs\<close>: where the buffer continues with the bytes \<open>bs\<close>, \<open>f\<close> returns \<open>x\<close> and
  moves past them.\<close>

definition reads :: "(sbuf \<Rightarrow> ('a \<times> sbuf) res) \<Rightarrow> 'a \<Rightarrow> char list \<Rightarrow> bool" where
  "reads f x bs \<longleftrightarrow>
     (\<forall>b rest. drop (sb_pos b) (sb_mem b) = bs @ rest \<longrightarrow> sb_pos b \<le> length (sb_mem b) \<longrightarrow>
        int (sb_pos b) + int (length bs) \<le> sb_len b \<longrightarrow>
        f b = Inr (x, b\<lparr>sb_pos := sb_pos b + length bs\<rparr>))"

lemma readsD:
  "reads f x bs \<Longrightarrow> drop (sb_pos b) (sb_mem b) = bs @ rest \<Longrightarrow> sb_pos b \<le> length (sb_mem b) \<Longrightarrow>
   int (sb_pos b) + int (length bs) \<le> sb_len b \<Longrightarrow> f b = Inr (x, b\<lparr>sb_pos := sb_pos b + length bs\<rparr>)"
  by (auto simp: reads_def)

lemma reads_then:
  assumes "reads f x bs" and "reads (g x) y cs"
  shows "reads (\<lambda>b. and_then (f b) (\<lambda>(x, b). g x b)) y (bs @ cs)"
  unfolding reads_def
proof (intro allI impI)
  fix b :: sbuf and rest
  assume d: "drop (sb_pos b) (sb_mem b) = (bs @ cs) @ rest" and p: "sb_pos b \<le> length (sb_mem b)"
    and l: "int (sb_pos b) + int (length (bs @ cs)) \<le> sb_len b"
  have f: "f b = Inr (x, b\<lparr>sb_pos := sb_pos b + length bs\<rparr>)"
    using d p l by (intro readsD [OF assms(1), of _ "cs @ rest"]) simp_all
  have "length (bs @ cs @ rest) = length (sb_mem b) - sb_pos b"
    using arg_cong [OF d, of length] by simp
  then have p2: "sb_pos b + length bs \<le> length (sb_mem b)" using p by simp
  have "drop (sb_pos b + length bs) (sb_mem b) = drop (length bs) (drop (sb_pos b) (sb_mem b))"
    by (simp add: add.commute)
  then have d2: "drop (sb_pos b + length bs) (sb_mem b) = cs @ rest" using d by simp
  have "g x (b\<lparr>sb_pos := sb_pos b + length bs\<rparr>) =
      Inr (y, (b\<lparr>sb_pos := sb_pos b + length bs\<rparr>)\<lparr>sb_pos := sb_pos b + length bs + length cs\<rparr>)"
    using d2 p2 l by (subst readsD [OF assms(2), of _ rest]) simp_all
  with f show "and_then (f b) (\<lambda>(x, b). g x b) = Inr (y, b\<lparr>sb_pos := sb_pos b + length (bs @ cs)\<rparr>)"
    by (simp add: add.assoc)
qed

lemma reads_done: "reads (\<lambda>b. Inr (x, b)) x []"
  by (simp add: reads_def)

lemma memcpy_from_drop:
  fixes b :: sbuf
  assumes "drop (sb_pos b) (sb_mem b) = bs @ rest" and "sb_pos b \<le> length (sb_mem b)"
  shows "memcpy_from (length bs) b = Inr (bs, b\<lparr>sb_pos := sb_pos b + length bs\<rparr>)"
proof -
  have "length bs \<le> length (sb_mem b) - sb_pos b" using arg_cong [OF assms(1), of length] by simp
  with assms show ?thesis by (simp add: memcpy_from_def)
qed

lemma reads_int: "reads (get_int le) w (nat_bytes 4 (unat w))"
  unfolding reads_def
proof (intro allI impI)
  fix b :: sbuf and rest
  assume a: "drop (sb_pos b) (sb_mem b) = nat_bytes 4 (unat w) @ rest" "sb_pos b \<le> length (sb_mem b)"
    "int (sb_pos b) + int (length (nat_bytes 4 (unat w))) \<le> sb_len b"
  have "memcpy_from 4 b = Inr (nat_bytes 4 (unat w), b\<lparr>sb_pos := sb_pos b + 4\<rparr>)"
    using memcpy_from_drop [OF a(1,2)] by simp
  then show "get_int le b = Inr (w, b\<lparr>sb_pos := sb_pos b + length (nat_bytes 4 (unat w))\<rparr>)"
    using a(3) by (simp add: get_int_def CanSerialiseN_def copy_from word_bytes)
qed

lemma reads_double: "reads (get_double le) w (nat_bytes 8 (unat w))"
  unfolding reads_def
proof (intro allI impI)
  fix b :: sbuf and rest
  assume a: "drop (sb_pos b) (sb_mem b) = nat_bytes 8 (unat w) @ rest" "sb_pos b \<le> length (sb_mem b)"
    "int (sb_pos b) + int (length (nat_bytes 8 (unat w))) \<le> sb_len b"
  have "memcpy_from 8 b = Inr (nat_bytes 8 (unat w), b\<lparr>sb_pos := sb_pos b + 8\<rparr>)"
    using memcpy_from_drop [OF a(1,2)] by simp
  then show "get_double le b = Inr (w, b\<lparr>sb_pos := sb_pos b + length (nat_bytes 8 (unat w))\<rparr>)"
    using a(3) by (simp add: get_double_def CanSerialiseN_def copy_from word_bytes)
qed

lemma reads_char: "reads get_char c [c]"
  using memcpy_from_drop [of _ "[c]"] by (simp add: reads_def get_char_def CanSerialiseN_def)

lemma reads_string:
  assumes "length s < 2 ^ 31"
  shows "reads (get_string le) s (str_bytes s)"
proof -
  let ?n = "of_nat (length s) :: 32 word"
  have body: "reads (\<lambda>b. if CanSerialiseN (sint ?n) b
      then (if sint ?n < 0 then Inl LengthError else memcpy_from (nat (sint ?n)) b) else Inl OutOfSpace) s s"
    by (auto simp: reads_def size_word [OF assms] CanSerialiseN_def memcpy_from_drop)
  have "reads (get_int le) ?n (nat_bytes 4 (length s))"
    using reads_int [of le ?n] by (simp add: size_word [OF assms])
  from reads_then [where g = "\<lambda>n b. if CanSerialiseN (sint n) b
      then (if sint n < 0 then Inl LengthError else memcpy_from (nat (sint n)) b) else Inl OutOfSpace", OF this body]
  show ?thesis by (simp add: str_bytes_def get_string_def [abs_def])
qed

lemma reads_last: "reads f x bs \<Longrightarrow> reads (\<lambda>b. and_then (f b) (\<lambda>(x, b). Inr (h x, b))) (h x) bs"
  by (auto simp: reads_def)

lemma reads_fields:
  assumes "sizes_ok m"
  shows "reads (unpack_fields le) m (field_bytes m)"
proof -
  note str = reads_string [OF sizes_okD(1) [OF assms]] reads_string [OF sizes_okD(2) [OF assms]]
    reads_string [OF sizes_okD(4) [OF assms]] reads_string [OF sizes_okD(3) [OF assms]]
    reads_string [OF sizes_okD(5) [OF assms]]
  have "reads (unpack_fields le)
      \<lparr>m_cMsgType = m_cMsgType m, m_cDataType = m_cDataType m, m_sKey = m_sKey m, m_nID = m_nID m,
        m_dfTime = m_dfTime m, m_dfVal = m_dfVal m, m_dfVal2 = m_dfVal2 m, m_sVal = m_sVal m,
        m_sSrc = m_sSrc m, m_sSrcAux = m_sSrcAux m, m_sOriginatingCommunity = m_sOriginatingCommunity m\<rparr>
      (field_bytes m)"
    unfolding unpack_fields_def [abs_def] field_bytes_def
    by (rule reads_then [OF reads_int], rule reads_then [OF reads_char], rule reads_then [OF reads_char],
        rule reads_then [OF str(1)], rule reads_then [OF str(2)], rule reads_then [OF str(3)],
        rule reads_then [OF str(4)], rule reads_then [OF reads_double], rule reads_then [OF reads_double],
        rule reads_then [OF reads_double], rule reads_last [OF str(5)])
  then show ?thesis by (cases m) simp
qed

lemma Serialize_from_eq:
  assumes "sizes_ok m" and "int (msg_size m) \<le> nLen"
  shows "Serialize_from le (msg_bytes m @ rest) nLen = Inr (Some (of_nat (msg_size m), m))"
proof -
  let ?b = "\<lparr>sb_mem = msg_bytes m @ rest, sb_pos = 0, sb_len = nLen\<rparr>"
  have "reads (get_int le) (of_nat (msg_size m)) (nat_bytes 4 (msg_size m))"
    using reads_int [of le "of_nat (msg_size m)"] by (simp add: size_word(1) [OF sizes_okD(6) [OF assms(1)]])
  then have i: "get_int le ?b = Inr (of_nat (msg_size m), ?b\<lparr>sb_pos := 4\<rparr>)"
    using assms(2) by (subst readsD [of _ "of_nat (msg_size m)" "nat_bytes 4 (msg_size m)" _ "field_bytes m @ rest"])
      (simp_all add: msg_bytes_def msg_size_def)
  have "unpack_fields le (?b\<lparr>sb_pos := 4\<rparr>) = Inr (m, ?b\<lparr>sb_pos := 4 + length (field_bytes m)\<rparr>)"
    using assms(2)
    by (subst readsD [OF reads_fields [OF assms(1)], of _ rest]) (simp_all add: msg_bytes_def msg_size_def)
  with i show ?thesis by (simp add: Serialize_from_def)
qed

section \<open>Reading stays in the buffer\<close>

definition safe :: "(sbuf \<Rightarrow> ('a \<times> sbuf) res) \<Rightarrow> bool" where
  "safe f \<longleftrightarrow> (\<forall>b. room b \<longrightarrow> f b \<noteq> Inl BadAccess \<and> (\<forall>x b'. f b = Inr (x, b') \<longrightarrow> room b'))"

lemma safe_then: "safe f \<Longrightarrow> (\<And>x. safe (g x)) \<Longrightarrow> safe (\<lambda>b. and_then (f b) (\<lambda>(x, b). g x b))"
  unfolding safe_def
proof (intro allI impI conjI)
  fix b :: sbuf
  assume f: "\<forall>b. room b \<longrightarrow> f b \<noteq> Inl BadAccess \<and> (\<forall>x b'. f b = Inr (x, b') \<longrightarrow> room b')"
    and g: "\<And>x. \<forall>b. room b \<longrightarrow> g x b \<noteq> Inl BadAccess \<and> (\<forall>y b'. g x b = Inr (y, b') \<longrightarrow> room b')"
    and b: "room b"
  have r: "and_then (f b) (\<lambda>(x, b). g x b) \<noteq> Inl BadAccess
      \<and> (\<forall>y b'. and_then (f b) (\<lambda>(x, b). g x b) = Inr (y, b') \<longrightarrow> room b')"
  proof (cases "f b")
    case (Inl e)
    with f b show ?thesis by fastforce
  next
    case (Inr p)
    obtain x b1 where p: "p = (x, b1)" by fastforce
    then have "room b1" using Inr f b by blast
    with g [of x] show ?thesis by (simp add: Inr p)
  qed
  then show "and_then (f b) (\<lambda>(x, b). g x b) \<noteq> Inl BadAccess" by blast
  show "room b'" if "and_then (f b) (\<lambda>(x, b). g x b) = Inr (y, b')" for y b'
    using r that by blast
qed

lemma safe_done: "safe (\<lambda>b. Inr (x, b))"
  by (simp add: safe_def)

lemma memcpy_from_safe:
  "room b \<Longrightarrow> 0 \<le> n \<Longrightarrow> CanSerialiseN n b \<Longrightarrow>
   memcpy_from (nat n) b = Inr (take (nat n) (drop (sb_pos b) (sb_mem b)), b\<lparr>sb_pos := sb_pos b + nat n\<rparr>)"
  by (simp add: memcpy_from_def CanSerialiseN_def room_def)

lemma safe_int: "safe (get_int le)" and safe_double: "safe (get_double le)" and safe_char: "safe get_char"
  using memcpy_from_safe [of _ 4] memcpy_from_safe [of _ 8] memcpy_from_safe [of _ 1]
  by (auto simp: safe_def get_int_def get_double_def get_char_def room_def)

lemma safe_string: "safe (get_string le)"
  unfolding get_string_def [abs_def]
  by (rule safe_then [OF safe_int])
    (auto simp: safe_def memcpy_from_safe room_def split: if_splits)

lemma safe_fields: "safe (unpack_fields le)"
  unfolding unpack_fields_def [abs_def]
  by (intro safe_then safe_int safe_double safe_char safe_string safe_done)

text \<open>a message of less than 2 GB survives the wire: what one machine packs, another
  machine, whatever the byte order of either, unpacks to the same message and the same length.\<close>

theorem message_roundtrip:
  assumes "msg_size m < 2 ^ 31" and "int (msg_size m) \<le> nLen" and "nLen \<le> int (length mem)"
  shows "\<exists>bytes. Serialize_to le m mem nLen = Inr (Some (GetSizeInBytesWhenSerialised m, bytes))
     \<and> length bytes = length mem
     \<and> Serialize_from le' bytes nLen = Inr (Some (GetSizeInBytesWhenSerialised m, m))"
proof -
  have ok: "sizes_ok m" using assms(1) by (simp add: sizes_ok_def)
  have "0 \<le> nLen" using assms(2) by linarith
  with assms Serialize_to_eq [OF ok this assms(3)] Serialize_from_eq [OF ok assms(2)] show ?thesis
    by (simp add: msg_size_eq)
qed

text \<open>packing fails, with the caught exception and the result -1, exactly when the buffer
  length given is less than \<open>GetSizeInBytesWhenSerialised\<close>; it never writes outside the buffer.\<close>

theorem message_overflow:
  assumes "msg_size m < 2 ^ 31" and "0 \<le> nLen" and "nLen \<le> int (length mem)"
  shows "(Serialize_to le m mem nLen = Inr None) = (nLen < int (unat (GetSizeInBytesWhenSerialised m)))
     \<and> (\<exists>r. Serialize_to le m mem nLen = Inr r)"
  using Serialize_to_eq [of m nLen mem le] assms
  by (auto simp: sizes_ok_def msg_size_eq size_word)

text \<open>unpacking arbitrary bytes never reads outside the buffer it was given.\<close>

theorem message_read_safe:
  assumes "nLen \<le> int (length mem)"
  shows "Serialize_from le mem nLen \<noteq> Inl BadAccess"
proof -
  let ?f = "\<lambda>b. and_then (get_int le b) (\<lambda>(n, b). and_then (unpack_fields le b) (\<lambda>(m, b). Inr ((n, m), b)))"
  have "safe ?f" by (intro safe_then safe_int safe_fields safe_done)
  then have "?f \<lparr>sb_mem = mem, sb_pos = 0, sb_len = nLen\<rparr> \<noteq> Inl BadAccess"
    using assms by (simp add: safe_def room_def)
  then show ?thesis
    by (auto simp: Serialize_from_def and_then_Bad split: sum.splits fault.splits)
qed

end
