(* ===== verification/Moos_CommPkt.thy ===== *)
theory Moos_CommPkt
  imports Moos_Wire
begin

text \<open>
  Packets: \<open>CMOOSCommPkt\<close> (\<open>Comms/MOOSCommPkt.cpp\<close>), and their passage over a socket,
  \<open>ReadPkt\<close>, \<open>SendPkt\<close>, \<open>ReadMsg\<close> and \<open>SendMsg\<close> of \<open>Comms/MOOSCommObject.cpp\<close>.

  \<^item> \<open>p_stream\<close> is the allocated buffer, of \<open>m_nStreamSpace\<close> bytes; \<open>p_next\<close> the distance of
    \<open>m_pNextData\<close> from its start. Bytes that \<open>new\<close> leaves uninitialised are given by the
    argument \<open>fill\<close>.
  \<^item> The socket is the bytes the peer sends and a list of what each receive call meets: some
    bytes having arrived, the connection closed, an error, or an exception of the socket class.
\<close>

section \<open>State\<close>

record pkt =
  p_nByteCount :: int
  p_nMsgLen :: int
  p_stream :: "char list"
  p_next :: int
  p_nMsgsSerialised :: nat

definition new_pkt :: "(nat \<Rightarrow> char) \<Rightarrow> pkt" where
  "new_pkt fill = \<lparr>p_nByteCount = 0, p_nMsgLen = 0, p_stream = map fill [0..<4], p_next = 0,
     p_nMsgsSerialised = 0\<rparr>"

definition InflateTo :: "(nat \<Rightarrow> char) \<Rightarrow> int \<Rightarrow> pkt \<Rightarrow> pkt" where
  "InflateTo fill nNewStreamSize p =
     (if nNewStreamSize \<le> int (length (p_stream p)) then p
      else p\<lparr>p_stream := take (nat (p_nByteCount p)) (p_stream p)
                         @ map fill [nat (p_nByteCount p)..<nat nNewStreamSize],
             p_next := p_nByteCount p\<rparr>)"

text \<open>An \<open>int\<close> stored in or read from memory little-endian, as \<open>memcpy\<close> and the swap do.\<close>

definition int_at :: "bool \<Rightarrow> nat \<Rightarrow> char list \<Rightarrow> int" where
  "int_at le i s = sint (let w = (from_mem le (take 4 (drop i s)) :: 32 word)
                         in if \<not> le then SwapByteOrder le 4 w else w)"

definition int_bytes :: "bool \<Rightarrow> int \<Rightarrow> char list" where
  "int_bytes le i = (let w = (of_int i :: 32 word) in to_mem le 4 (if le then w else SwapByteOrder le 4 w))"

definition OnBytesWritten :: "(nat \<Rightarrow> char) \<Rightarrow> bool \<Rightarrow> int \<Rightarrow> pkt \<Rightarrow> pkt" where
  "OnBytesWritten fill le nData p =
     (let p = p\<lparr>p_nByteCount := p_nByteCount p + nData, p_next := p_next p + nData\<rparr>
      in if p_nByteCount p \<le> 4 \<and> p_nByteCount p = 4
         then (let p = p\<lparr>p_nMsgLen := int_at le 0 (p_stream p)\<rparr> in InflateTo fill (p_nMsgLen p) p)
         else p)"

definition GetBytesRequired :: "pkt \<Rightarrow> int" where
  "GetBytesRequired p = (if p_nByteCount p < 4 then 4 - p_nByteCount p else p_nMsgLen p - p_nByteCount p)"

section \<open>To the stream\<close>

definition nHeaderSize :: nat where "nHeaderSize = 2 * 4 + 1"

text \<open>The loop over the messages: \<open>pos\<close> is both \<open>m_nByteCount\<close> and the distance of
  \<open>m_pNextData\<close>; \<open>None\<close> is the return of false after a failed message.\<close>

fun pack_msgs :: "bool \<Rightarrow> nat \<Rightarrow> wire_msg list \<Rightarrow> char list \<Rightarrow> nat \<Rightarrow> (char list \<times> nat) option res" where
  "pack_msgs le nBufferSize [] s pos = Inr (Some (s, pos))"
| "pack_msgs le nBufferSize (m # ms) s pos =
     (case Serialize_to le m (drop pos s) (int nBufferSize - int pos) of
        Inl e \<Rightarrow> Inl e
      | Inr None \<Rightarrow> Inr None
      | Inr (Some (nCopied, bytes)) \<Rightarrow>
          pack_msgs le nBufferSize ms (take pos s @ bytes) (pos + nat (sint nCopied)))"

definition put_at :: "nat \<Rightarrow> char list \<Rightarrow> char list \<Rightarrow> char list" where
  "put_at i bs s = take i s @ bs @ drop (i + length bs) s"

text \<open>\<open>None\<close>: a message did not fit, false was returned and the packet is partly written.\<close>

definition to_stream :: "(nat \<Rightarrow> char) \<Rightarrow> bool \<Rightarrow> wire_msg list \<Rightarrow> pkt \<Rightarrow> pkt option res" where
  "to_stream fill le List p =
     (let nBufferSize = unat (fold (\<lambda>m n. n + GetSizeInBytesWhenSerialised m) List (of_nat nHeaderSize :: 32 word));
          p = InflateTo fill (sint (of_nat nBufferSize :: 32 word))
                (p\<lparr>p_nMsgLen := 0, p_nByteCount := 0, p_nMsgsSerialised := 0\<rparr>)
      in case pack_msgs le nBufferSize List (p_stream p) nHeaderSize of
           Inl e \<Rightarrow> Inl e
         | Inr None \<Rightarrow> Inr None
         | Inr (Some (s, nByteCount)) \<Rightarrow>
             Inr (Some (p\<lparr>p_stream := put_at 8 [CHR 0x00] (put_at 4 (int_bytes le (int (length List)))
                              (put_at 0 (int_bytes le (int nByteCount)) s)),
                          p_nByteCount := int nByteCount, p_nMsgLen := int nByteCount, p_next := 9,
                          p_nMsgsSerialised := length List\<rparr>)))"

section \<open>From the stream\<close>

text \<open>The loop over \<open>nMessages\<close>. \<open>pos\<close> is the distance of \<open>m_pNextData\<close>; a length field read
  from the stream may take it outside the buffer, and reading there is an access outside.\<close>

fun unpack_msgs ::
    "bool \<Rightarrow> bool \<Rightarrow> char list \<Rightarrow> nat \<Rightarrow> bool \<Rightarrow> int \<Rightarrow> int \<Rightarrow> wire_msg list \<times> 64 word option
      \<Rightarrow> (wire_msg list \<times> 64 word option \<times> int) res" where
  "unpack_msgs le bNoNULL s 0 first pos nSpaceFree (List, t) = Inr (List, t, pos)"
| "unpack_msgs le bNoNULL s (Suc k) first pos nSpaceFree (List, t) =
     (if pos < 0 \<or> int (length s) < pos then Inl BadAccess
      else case Serialize_from le (drop (nat pos) s) nSpaceFree of
             Inl e \<Rightarrow> Inl e
           | Inr None \<Rightarrow> Inr (List, t, pos)
           | Inr (Some (nUsed, Msg)) \<Rightarrow>
               if nUsed = - 1 then Inr (List, t, pos)
               else (let bNull = (m_cMsgType Msg = MOOS_NULL_MSG);
                         t = (if bNull \<and> first then Some (m_dfVal Msg) else t);
                         List = (if bNoNULL \<and> bNull then List else List @ [Msg])
                     in unpack_msgs le bNoNULL s k False (pos + sint nUsed) (nSpaceFree - sint nUsed) (List, t)))"

text \<open>The extraction: the messages are appended to \<open>List\<close>, and \<open>pdfPktTime\<close> is set from a
  leading null message.\<close>

definition from_stream ::
    "bool \<Rightarrow> bool \<Rightarrow> wire_msg list \<Rightarrow> pkt \<Rightarrow> (wire_msg list \<times> 64 word option \<times> pkt) res" where
  "from_stream le bNoNULL List p =
     (if length (p_stream p) < 9 then Inl BadAccess
      else let nMsgLen = int_at le 0 (p_stream p);
               nMessages = int_at le 4 (p_stream p)
           in case unpack_msgs le bNoNULL (p_stream p) (nat nMessages) True 9 (nMsgLen - 9) (List, None) of
                Inl e \<Rightarrow> Inl e
              | Inr (List, t, pos) \<Rightarrow>
                  Inr (List, t, p\<lparr>p_nByteCount := pos, p_nMsgLen := pos, p_next := pos\<rparr>))"

section \<open>The socket\<close>

datatype rx_event = Arrive nat | Closed | Gross | Thrown

datatype comm_error =
  RemoteClosed | GrossError | FailedRx | PacketRejects | Blocked | CommFault fault

definition CHUNK_READ :: int where "CHUNK_READ = 8192"

text \<open>One receive call of at most \<open>n\<close> bytes into the buffer at \<open>p_next\<close>. Nothing arriving is
  the result 0.\<close>

definition recv_into :: "int \<Rightarrow> nat \<Rightarrow> char list \<Rightarrow> pkt \<Rightarrow> (char list \<times> nat \<times> pkt) res" where
  "recv_into n k bytes p =
     (let bs = take (min k (nat n)) bytes
      in if n < 0 \<or> p_next p < 0 \<or> p_next p + int (length bs) > int (length (p_stream p)) then Inl BadAccess
         else Inr (drop (length bs) bytes, length bs, p\<lparr>p_stream := put_at (nat (p_next p)) bs (p_stream p)\<rparr>))"

text \<open>\<open>ReadPkt\<close>: one event per receive call; \<open>Blocked\<close> when the events run out. The timeout
  only selects the receive call and the text of an exception.\<close>

fun ReadPkt ::
    "(nat \<Rightarrow> char) \<Rightarrow> bool \<Rightarrow> rx_event list \<Rightarrow> char list \<Rightarrow> pkt \<Rightarrow> comm_error + (char list \<times> pkt)" where
  "ReadPkt fill le evs bytes p =
     (let nRqd = GetBytesRequired p
      in if nRqd = 0 then Inr (bytes, p)
         else case evs of
             [] \<Rightarrow> Inl Blocked
           | Closed # _ \<Rightarrow> Inl RemoteClosed
           | Gross # _ \<Rightarrow> Inl GrossError
           | Thrown # _ \<Rightarrow> Inl FailedRx
           | Arrive k # evs' \<Rightarrow>
               (case recv_into (if nRqd < CHUNK_READ then nRqd else CHUNK_READ) k bytes p of
                  Inl e \<Rightarrow> Inl (CommFault e)
                | Inr (bytes', nRxd, p') \<Rightarrow>
                    if nRxd = 0 then Inl RemoteClosed
                    else ReadPkt fill le evs' bytes' (OnBytesWritten fill le (int nRxd) p')))"

declare ReadPkt.simps [simp del]

text \<open>\<open>SendPkt\<close> hands \<open>GetStreamLength\<close> bytes of the stream to the socket; the argument is how
  many of them it takes.\<close>

definition SendPkt :: "nat \<Rightarrow> pkt \<Rightarrow> comm_error + char list" where
  "SendPkt nSent p =
     (if int nSent \<noteq> p_nByteCount p then Inl FailedRx else Inr (take nSent (p_stream p)))"

definition ReadMsg ::
    "(nat \<Rightarrow> char) \<Rightarrow> bool \<Rightarrow> rx_event list \<Rightarrow> char list \<Rightarrow> comm_error + (char list \<times> wire_msg option)" where
  "ReadMsg fill le evs bytes =
     (case ReadPkt fill le evs bytes (new_pkt fill) of
        Inl e \<Rightarrow> Inl e
      | Inr (bytes', p) \<Rightarrow>
          (case from_stream le False [] p of
             Inl e \<Rightarrow> Inl (CommFault e)
           | Inr (List, _, _) \<Rightarrow> Inr (bytes', case List of [] \<Rightarrow> None | m # _ \<Rightarrow> Some m)))"

section \<open>The bytes of a packet\<close>

definition total_size :: "wire_msg list \<Rightarrow> nat" where
  "total_size ms = 9 + sum_list (map msg_size ms)"

definition body_bytes :: "wire_msg list \<Rightarrow> char list" where
  "body_bytes ms = concat (map msg_bytes ms)"

definition pkt_bytes :: "wire_msg list \<Rightarrow> char list" where
  "pkt_bytes ms = nat_bytes 4 (total_size ms) @ nat_bytes 4 (length ms) @ [CHR 0x00] @ body_bytes ms"

definition pkt_ok :: "wire_msg list \<Rightarrow> bool" where
  "pkt_ok ms \<longleftrightarrow> total_size ms < 2 ^ 31"

lemma length_body [simp]: "length (body_bytes ms) = sum_list (map msg_size ms)"
  by (simp add: body_bytes_def length_concat comp_def)

lemma length_pkt_bytes [simp]: "length (pkt_bytes ms) = total_size ms"
  by (simp add: pkt_bytes_def total_size_def)

lemma pkt_okD:
  assumes "pkt_ok ms" and "m \<in> set ms"
  shows "sizes_ok m"
proof -
  have "msg_size m \<le> sum_list (map msg_size ms)" using assms(2) by (intro member_le_sum_list) simp_all
  with assms(1) show ?thesis by (simp add: pkt_ok_def total_size_def sizes_ok_def)
qed

lemma count_le_size: "length ms \<le> sum_list (map msg_size ms)"
  by (induction ms) (simp_all add: msg_size_def)

lemma int_bytes_eq: "n < 2 ^ 31 \<Longrightarrow> int_bytes le (int n) = nat_bytes 4 n"
  using copy_to [of 4 le "of_nat n :: 32 word"]
  by (cases le) (simp_all add: int_bytes_def CopyToBufferAsLittleEndian_def size_word Let_def)

lemma int_at_eq:
  assumes "take 4 (drop i s) = nat_bytes 4 n" and "n < 2 ^ 31"
  shows "int_at le i s = int n"
proof -
  have "(CopyFromBufferAsLittleEndian le 4 (nat_bytes 4 n) :: 32 word) = of_nat n"
    by (subst copy_from) (use assms(2) in \<open>simp_all add: nat_of_nat_bytes\<close>)
  then show ?thesis
    using assms by (simp add: int_at_def CopyFromBufferAsLittleEndian_def size_word Let_def)
qed

section \<open>Packing\<close>

lemma pack_msgs_eq:
  assumes "\<forall>m \<in> set ms. sizes_ok m" and "pos + sum_list (map msg_size ms) \<le> n" and "n \<le> length s"
  shows "pack_msgs le n ms s pos = Inr (Some
     (take pos s @ body_bytes ms @ drop (pos + sum_list (map msg_size ms)) s, pos + sum_list (map msg_size ms)))"
  using assms
proof (induction ms arbitrary: s pos)
  case Nil
  then show ?case by (simp add: body_bytes_def)
next
  case (Cons m ms)
  have ok: "sizes_ok m" using Cons.prems by simp
  have fits: "pos + msg_size m \<le> length s" using Cons.prems by simp
  have one: "Serialize_to le m (drop pos s) (int n - int pos) =
      Inr (Some (of_nat (msg_size m), msg_bytes m @ drop (msg_size m) (drop pos s)))"
    using Cons.prems by (subst Serialize_to_eq [OF ok]) auto
  let ?s = "take pos s @ msg_bytes m @ drop (msg_size m) (drop pos s)"
  have "length ?s = length s" using fits by simp
  then have "pack_msgs le n ms ?s (pos + msg_size m) = Inr (Some
     (take (pos + msg_size m) ?s @ body_bytes ms @ drop (pos + msg_size m + sum_list (map msg_size ms)) ?s,
      pos + msg_size m + sum_list (map msg_size ms)))"
    using Cons.prems by (intro Cons.IH) auto
  then show ?case
    using fits one size_word(2) [OF sizes_okD(6) [OF ok]]
    by (simp add: body_bytes_def add.assoc) (simp add: ac_simps)
qed

lemma fold_size_word:
  "fold (\<lambda>m n. n + GetSizeInBytesWhenSerialised m) ms (of_nat k :: 32 word) =
     of_nat (k + sum_list (map msg_size ms))"
  by (induction ms arbitrary: k) (simp_all add: msg_size_eq ac_simps flip: of_nat_add)

lemma InflateTo_length: "n \<le> int (length (p_stream (InflateTo fill n (p\<lparr>p_nByteCount := 0\<rparr>))))"
  by (simp add: InflateTo_def)

lemma to_stream_eq:
  assumes "pkt_ok ms"
  shows "\<exists>p' junk. to_stream fill le ms p = Inr (Some p') \<and> p_stream p' = pkt_bytes ms @ junk
     \<and> p_nByteCount p' = int (total_size ms) \<and> p_nMsgsSerialised p' = length ms"
proof -
  let ?n = "total_size ms"
  let ?p = "InflateTo fill (int ?n) (p\<lparr>p_nMsgLen := 0, p_nByteCount := 0, p_nMsgsSerialised := 0\<rparr>)"
  have n: "?n < 2 ^ 31" using assms by (simp add: pkt_ok_def)
  have size: "fold (\<lambda>m n. n + GetSizeInBytesWhenSerialised m) ms (of_nat nHeaderSize :: 32 word) = of_nat ?n"
    by (simp only: fold_size_word) (simp add: total_size_def nHeaderSize_def)
  have len: "?n \<le> length (p_stream ?p)" by (simp add: InflateTo_def)
  have "9 + sum_list (map msg_size ms) = ?n" by (simp add: total_size_def)
  then have packed: "pack_msgs le ?n ms (p_stream ?p) nHeaderSize =
      Inr (Some (take 9 (p_stream ?p) @ body_bytes ms @ drop ?n (p_stream ?p), ?n))"
    using pack_msgs_eq [of ms 9 ?n "p_stream ?p" le] len pkt_okD [OF assms]
    by (simp add: nHeaderSize_def)
  have c: "length ms < 2 ^ 31" using count_le_size [of ms] n by (simp add: total_size_def)
  define s where "s = take 9 (p_stream ?p) @ body_bytes ms @ drop ?n (p_stream ?p)"
  have l9: "length (take 9 (p_stream ?p)) = 9" using len by (simp add: total_size_def)
  have "put_at 8 [CHR 0x00] (put_at 4 (nat_bytes 4 (length ms)) (put_at 0 (nat_bytes 4 ?n) s))
      = pkt_bytes ms @ drop ?n (p_stream ?p)"
    using l9 by (simp add: put_at_def s_def pkt_bytes_def)
  then show ?thesis
    by (simp add: to_stream_def Let_def size size_word [OF n] packed s_def [symmetric]
        int_bytes_eq [OF n] int_bytes_eq [OF c])
qed

section \<open>Unpacking\<close>

definition is_null :: "wire_msg \<Rightarrow> bool" where
  "is_null m \<longleftrightarrow> m_cMsgType m = MOOS_NULL_MSG"

lemma unpack_msgs_eq:
  assumes "\<forall>m \<in> set ms. sizes_ok m" and "drop (nat pos) s = body_bytes ms @ rest"
    and "0 \<le> pos" and "pos \<le> int (length s)" and "int (sum_list (map msg_size ms)) \<le> free"
  shows "unpack_msgs le bNoNULL s (length ms) first pos free (List, t) =
     Inr (List @ filter (\<lambda>m. \<not> (bNoNULL \<and> is_null m)) ms,
          if first \<and> ms \<noteq> [] \<and> is_null (hd ms) then Some (m_dfVal (hd ms)) else t,
          pos + int (sum_list (map msg_size ms)))"
  using assms
proof (induction ms arbitrary: pos free first List t)
  case Nil
  then show ?case by simp
next
  case (Cons m ms)
  have ok: "sizes_ok m" using Cons.prems by simp
  have one: "Serialize_from le (drop (nat pos) s) free = Inr (Some (of_nat (msg_size m), m))"
    using Serialize_from_eq [OF ok, of free le "body_bytes ms @ rest"] Cons.prems by (simp add: body_bytes_def)
  have sz: "sint (of_nat (msg_size m) :: 32 word) = int (msg_size m)"
    using size_word(2) [OF sizes_okD(6) [OF ok]] .
  have ne: "(of_nat (msg_size m) :: 32 word) \<noteq> - 1"
  proof
    assume "(of_nat (msg_size m) :: 32 word) = - 1"
    with sz show False by simp
  qed
  have len: "int (length (body_bytes (m # ms) @ rest)) = int (length s) - pos"
    using arg_cong [OF Cons.prems(2), of length] Cons.prems(3,4) by simp
  have "drop (nat (pos + int (msg_size m))) s = drop (msg_size m) (drop (nat pos) s)"
    using Cons.prems(3) by (simp add: nat_add_distrib add.commute)
  also have "\<dots> = body_bytes ms @ rest" using Cons.prems(2) by (simp add: body_bytes_def)
  finally have d: "drop (nat (pos + int (msg_size m))) s = body_bytes ms @ rest" .
  show ?case
    using Cons.prems one ne len sz
    by (simp add: Cons.IH [OF _ d] Let_def is_null_def)
qed

lemma from_stream_eq:
  assumes "pkt_ok ms" and "p_stream p = pkt_bytes ms @ junk"
  shows "\<exists>p'. from_stream le bNoNULL List p =
     Inr (List @ filter (\<lambda>m. \<not> (bNoNULL \<and> is_null m)) ms,
          if ms \<noteq> [] \<and> is_null (hd ms) then Some (m_dfVal (hd ms)) else None, p')
     \<and> p_nByteCount p' = int (total_size ms)"
proof -
  have n: "total_size ms < 2 ^ 31" using assms(1) by (simp add: pkt_ok_def)
  have c: "length ms < 2 ^ 31" using count_le_size [of ms] n by (simp add: total_size_def)
  have len: "int_at le 0 (p_stream p) = int (total_size ms)"
    using assms(2) n by (intro int_at_eq) (simp_all add: pkt_bytes_def)
  have cnt: "int_at le 4 (p_stream p) = int (length ms)"
    using assms(2) c by (intro int_at_eq) (simp_all add: pkt_bytes_def)
  have "drop (nat 9) (p_stream p) = body_bytes ms @ junk"
    using assms(2) by (simp add: pkt_bytes_def)
  then have "unpack_msgs le bNoNULL (p_stream p) (length ms) True 9 (int (total_size ms) - 9) (List, None) =
     Inr (List @ filter (\<lambda>m. \<not> (bNoNULL \<and> is_null m)) ms,
          if True \<and> ms \<noteq> [] \<and> is_null (hd ms) then Some (m_dfVal (hd ms)) else None,
          9 + int (sum_list (map msg_size ms)))"
    using assms pkt_okD [OF assms(1)] by (intro unpack_msgs_eq) (simp_all add: total_size_def)
  moreover have "9 \<le> length (p_stream p)" using assms(2) by (simp add: total_size_def)
  ultimately show ?thesis
    by (simp add: from_stream_def len cnt Let_def total_size_def not_less)
qed

section \<open>Receiving\<close>

text \<open>\<open>c\<close> bytes of the packet \<open>bs\<close> have arrived.\<close>

definition receiving :: "char list \<Rightarrow> nat \<Rightarrow> pkt \<Rightarrow> bool" where
  "receiving bs c p \<longleftrightarrow> c \<le> length bs \<and> p_nByteCount p = int c \<and> p_next p = int c
     \<and> take c (p_stream p) = take c bs \<and> c \<le> length (p_stream p)
     \<and> (if c < 4 then 4 \<le> length (p_stream p)
        else p_nMsgLen p = int (length bs) \<and> length bs \<le> length (p_stream p))"

definition framed :: "char list \<Rightarrow> bool" where
  "framed bs \<longleftrightarrow> 4 \<le> length bs \<and> length bs < 2 ^ 31 \<and> take 4 bs = nat_bytes 4 (length bs)"

lemma framed_pkt_bytes: "pkt_ok ms \<Longrightarrow> framed (pkt_bytes ms)"
  by (simp add: framed_def pkt_ok_def) (simp add: pkt_bytes_def total_size_def)

lemma receiving_new: "receiving bs 0 (new_pkt fill)"
  by (simp add: receiving_def new_pkt_def)

lemma take_put_at:
  "c \<le> length s \<Longrightarrow> take (c + length xs) (put_at c xs s) = take c s @ xs"
  by (simp add: put_at_def)

lemma length_put_at: "c + length xs \<le> length s \<Longrightarrow> length (put_at c xs s) = length s"
  by (simp add: put_at_def)

lemma GetBytesRequired_receiving:
  "receiving bs c p \<Longrightarrow> GetBytesRequired p = (if c < 4 then 4 - int c else int (length bs) - int c)"
  by (simp add: receiving_def GetBytesRequired_def)

lemma receiving_step:
  assumes r: "receiving bs c p" and f: "framed bs" and xs: "xs \<noteq> []"
    and b: "take (length xs) (drop c bs) = xs"
    and n: "int (length xs) \<le> GetBytesRequired p"
  shows "receiving bs (c + length xs)
     (OnBytesWritten fill le (int (length xs)) (p\<lparr>p_stream := put_at c xs (p_stream p)\<rparr>))"
proof -
  let ?s = "put_at c xs (p_stream p)"
  have c: "c \<le> length (p_stream p)" using r by (simp add: receiving_def)
  have l: "c + length xs \<le> length bs"
    using b r by (metis length_drop length_take min.absorb_iff2 Nat.le_diff_conv2 add.commute receiving_def)
  have fit: "c + length xs \<le> length (p_stream p)"
    using r n l by (auto simp: receiving_def GetBytesRequired_def split: if_splits)
  have len: "length ?s = length (p_stream p)" by (rule length_put_at [OF fit])
  have "take (c + length xs) ?s = take c (p_stream p) @ xs" by (rule take_put_at [OF c])
  also have "\<dots> = take (c + length xs) bs" using r b by (simp add: take_add receiving_def)
  finally have tk: "take (c + length xs) ?s = take (c + length xs) bs" .
  show ?thesis
  proof (cases "c < 4 \<and> c + length xs = 4")
    case True
    have "take 4 ?s = nat_bytes 4 (length bs)"
      using tk True f by (simp add: framed_def)
    then have at: "int_at le 0 ?s = int (length bs)"
      using f by (intro int_at_eq) (simp_all add: framed_def)
    have c4: "int c + int (length xs) = 4" using True by linarith
    let ?q = "p\<lparr>p_stream := ?s, p_nByteCount := 4, p_next := 4, p_nMsgLen := int (length bs)\<rparr>"
    have q: "OnBytesWritten fill le (int (length xs)) (p\<lparr>p_stream := ?s\<rparr>) = InflateTo fill (int (length bs)) ?q"
      using r c4 at by (simp add: OnBytesWritten_def receiving_def Let_def)
    show ?thesis
      unfolding q using True tk f len fit
      by (auto simp: receiving_def InflateTo_def framed_def)
  next
    case False
    then have "int c + int (length xs) \<noteq> 4"
    proof (cases "c < 4")
      case True
      with False show ?thesis by linarith
    next
      case False
      then have "4 \<le> c" "0 < length xs" using xs by simp_all
      then show ?thesis by linarith
    qed
    then have q: "OnBytesWritten fill le (int (length xs)) (p\<lparr>p_stream := ?s\<rparr>) =
        p\<lparr>p_stream := ?s, p_nByteCount := int (c + length xs), p_next := int (c + length xs)\<rparr>"
      using r by (simp add: OnBytesWritten_def receiving_def Let_def)
    have "c < 4 \<Longrightarrow> c + length xs < 4"
      using n False by (simp add: GetBytesRequired_receiving [OF r])
    then show ?thesis
      unfolding q using r tk l len fit by (cases "c < 4") (simp_all add: receiving_def)
  qed
qed

lemma ReadPkt_receiving:
  assumes "receiving bs c p" and "framed bs" and "\<forall>e \<in> set evs. \<exists>k > 0. e = Arrive k"
    and "length bs - c \<le> length evs"
  shows "\<exists>p'. ReadPkt fill le evs (drop c bs @ extra) p = Inr (extra, p') \<and> receiving bs (length bs) p'"
  using assms
proof (induction evs arbitrary: c p)
  case Nil
  then have "c = length bs" by (simp add: receiving_def)
  with Nil show ?case
    by (auto simp: ReadPkt.simps [of _ _ "[]"] GetBytesRequired_receiving framed_def)
next
  case (Cons e evs)
  note r = Cons.prems(1)
  obtain k where k: "e = Arrive k" "k > 0" using Cons.prems(3) by auto
  show ?case
  proof (cases "c = length bs")
    case True
    with Cons.prems show ?thesis
      by (auto simp: ReadPkt.simps [of _ _ "e # evs"] GetBytesRequired_receiving framed_def)
  next
    case False
    let ?rq = "GetBytesRequired p"
    let ?n = "if ?rq < CHUNK_READ then ?rq else CHUNK_READ"
    have c: "c < length bs" using False r by (simp add: receiving_def)
    have rq: "0 < ?rq" "?rq \<le> int (length bs) - int c"
      using c Cons.prems(2) by (auto simp: GetBytesRequired_receiving [OF r] framed_def)
    define xs where "xs = take (min k (nat ?n)) (drop c bs @ extra)"
    have n: "0 < ?n" "?n \<le> ?rq" using rq by (auto simp: CHUNK_READ_def)
    have m: "min k (nat ?n) \<le> length bs - c" using n rq by linarith
    then have xs: "xs = take (min k (nat ?n)) (drop c bs)" by (simp add: xs_def)
    have lx: "length xs = min k (nat ?n)" using m by (simp add: xs)
    then have ne: "xs \<noteq> []" using k(2) n(1) by auto
    have le: "int (length xs) \<le> ?rq" using lx n by linarith
    have b: "take (length xs) (drop c bs) = xs" by (simp add: lx) (simp add: xs)
    have nx: "p_next p = int c" using r by (simp add: receiving_def)
    have fit: "c + length xs \<le> length (p_stream p)"
      using le m lx r by (auto simp: receiving_def GetBytesRequired_def split: if_splits)
    have rest: "drop (length xs) (drop c bs @ extra) = drop (c + length xs) bs @ extra"
      using m lx by (simp add: add.commute)
    have recv: "recv_into ?n k (drop c bs @ extra) p =
        Inr (drop (c + length xs) bs @ extra, length xs, p\<lparr>p_stream := put_at c xs (p_stream p)\<rparr>)"
      unfolding recv_into_def Let_def xs_def [symmetric] using n(1) nx fit rest by simp
    let ?p = "OnBytesWritten fill le (int (length xs)) (p\<lparr>p_stream := put_at c xs (p_stream p)\<rparr>)"
    have step: "receiving bs (c + length xs) ?p"
      by (rule receiving_step [OF r Cons.prems(2) ne b le])
    have short: "length bs - (c + length xs) \<le> length evs"
      using Cons.prems(4) ne by (cases xs) auto
    have arr: "\<forall>e \<in> set evs. \<exists>k > 0. e = Arrive k" using Cons.prems(3) by simp
    obtain p' where "ReadPkt fill le evs (drop (c + length xs) bs @ extra) ?p = Inr (extra, p')"
      and "receiving bs (length bs) p'"
      using Cons.IH [OF step Cons.prems(2) arr short] by blast
    then show ?thesis
      unfolding k(1) using rq ne recv by (simp add: ReadPkt.simps [of _ _ "Arrive k # evs"] Let_def)
  qed
qed

text \<open>C8: a list of messages sent in one packet arrives unchanged: whatever the byte orders of
  the two machines, however the network splits the bytes, the receiver reads exactly the bytes
  of the packet, leaves the rest in the socket, and extracts the same messages in order (less
  null messages when asked), and the time of a leading null message.\<close>

theorem packet_end_to_end:
  assumes "total_size ms < 2 ^ 31"
    and "\<forall>e \<in> set evs. \<exists>k > 0. e = Arrive k" and "total_size ms \<le> length evs"
  shows "\<exists>p wire p' p''. to_stream fill le ms (new_pkt fill) = Inr (Some p)
     \<and> SendPkt (total_size ms) p = Inr wire
     \<and> ReadPkt fill' le' evs (wire @ extra) (new_pkt fill') = Inr (extra, p')
     \<and> from_stream le' bNoNULL [] p' =
         Inr (filter (\<lambda>m. \<not> (bNoNULL \<and> is_null m)) ms,
              if ms \<noteq> [] \<and> is_null (hd ms) then Some (m_dfVal (hd ms)) else None, p'')"
proof -
  have ok: "pkt_ok ms" using assms(1) by (simp add: pkt_ok_def)
  obtain p junk where p: "to_stream fill le ms (new_pkt fill) = Inr (Some p)"
    "p_stream p = pkt_bytes ms @ junk" "p_nByteCount p = int (total_size ms)"
    using to_stream_eq [OF ok] by blast
  have send: "SendPkt (total_size ms) p = Inr (pkt_bytes ms)"
    using p by (simp add: SendPkt_def)
  have "\<exists>p'. ReadPkt fill' le' evs (drop 0 (pkt_bytes ms) @ extra) (new_pkt fill') = Inr (extra, p')
      \<and> receiving (pkt_bytes ms) (length (pkt_bytes ms)) p'"
    using assms(2,3) by (intro ReadPkt_receiving [OF receiving_new framed_pkt_bytes [OF ok]]) simp_all
  then obtain p' where p': "ReadPkt fill' le' evs (pkt_bytes ms @ extra) (new_pkt fill') = Inr (extra, p')"
    and r: "receiving (pkt_bytes ms) (total_size ms) p'" by auto
  have "p_stream p' = pkt_bytes ms @ drop (total_size ms) (p_stream p')"
    using r append_take_drop_id [of "total_size ms" "p_stream p'"] by (simp add: receiving_def)
  from from_stream_eq [OF ok this, of le' bNoNULL "[]"] p(1) send p' show ?thesis by auto
qed

text \<open>The number of bytes a packet still asks for is never negative, and is 0 exactly when it
  is complete, at every moment of its reception.\<close>

theorem packet_required:
  assumes "receiving bs c p" and "framed bs"
  shows "0 \<le> GetBytesRequired p \<and> (GetBytesRequired p = 0 \<longleftrightarrow> c = length bs)"
proof -
  have "c \<le> length bs" "4 \<le> length bs" using assms by (auto simp: receiving_def framed_def)
  then show ?thesis unfolding GetBytesRequired_receiving [OF assms(1)] by auto
qed

end
