(* ===== verification/Moos_Examples.thy ===== *)
theory Moos_Examples
  imports Moos_DBProperties Moos_CommPkt
begin

text \<open>
  Concrete instances: small databases, messages and packets at which the properties of the
  other theories apply, each with its hypotheses discharged by evaluation.
\<close>

section \<open>The database\<close>

text \<open>A database of community \<open>lake\<close> at time 5 with one written variable \<open>X\<close>, to which the client
  \<open>nav\<close> has subscribed with period 1, one message waiting for \<open>nav\<close>, and a wildcard filter of
  the client \<open>log\<close>.\<close>

definition demo_var :: db_var where
  "demo_var = (new_var ''X'')\<lparr>v_cDataType := MOOS_DOUBLE, v_dfVal := 7, v_nWrittenTo := 1,
     v_sWhoChangedMe := ''gps'', v_Writers := [''gps''],
     v_Subscribers := [(''nav'', \<lparr>r_dfPeriod = 1, r_sClientName = ''nav'', r_dfLastTimeSent = 0\<rparr>)]\<rparr>"

definition demo_db :: db where
  "demo_db = \<lparr>db_sDBName = ''MOOSDB_lake'', db_sCommunityName = ''lake'', db_dfStartTime = 0,
     db_dfSummaryTime = 4, db_HeldMailMap = [(''nav'', [reply_msg demo_var])],
     db_VarMap = [(''X'', demo_var)],
     db_ClientFilters = [(''log'', [new_filter ''*'' ''*'' 1])],
     db_bLogging = False, db_EventLog = [], db_clock = real, db_tick = 5\<rparr>"

definition demo_write :: moos_msg where
  "demo_write = (msg_double MOOS_NOTIFY ''X'' 8 5 5)\<lparr>m_sSrc := ''gps''\<rparr>"

definition demo_new :: moos_msg where
  "demo_new = (msg_string MOOS_NOTIFY ''Y'' ''on'' 5 5)\<lparr>m_sSrc := ''gps''\<rparr>"

definition demo_msg :: "char \<Rightarrow> string \<Rightarrow> string \<Rightarrow> moos_msg" where
  "demo_msg t k src = (msg_double t k 2 5 5)\<lparr>m_sSrc := src\<rparr>"

lemma demo_ok: "db_ok demo_db"
  by (simp add: db_ok_def demo_db_def demo_var_def var_ok_def subs_ok_def new_var_def map_ok_def
      filters_sorted_def mail_ok_def map_get_def reply_msg_def set_ok_def Var2Msg_def)

lemma demo_frame [simp]:
  "db_VarMap demo_db = [(''X'', demo_var)]" "now_of demo_db = 5"
  "filters_of demo_db ''log'' = [new_filter ''*'' ''*'' 1]"
  "v_nWrittenTo demo_var = 1" "v_cDataType demo_var = MOOS_DOUBLE" "v_sName demo_var = ''X''"
  "abs_value demo_db ''X'' = Some (reply_msg demo_var)"
  "sub_of demo_db ''nav'' ''X'' = Some \<lparr>r_dfPeriod = 1, r_sClientName = ''nav'', r_dfLastTimeSent = 0\<rparr>"
  by (simp_all add: demo_db_def now_of_def map_get_def abs_value_def sub_of_def demo_var_def new_var_def)

lemma demo_msg_frame [simp]:
  "m_cMsgType (demo_msg t k src) = t" "m_sKey (demo_msg t k src) = k" "m_sSrc (demo_msg t k src) = src"
  "m_cMsgType demo_write = MOOS_NOTIFY" "m_sKey demo_write = ''X''" "m_cDataType demo_write = MOOS_DOUBLE"
  "m_sKey demo_new = ''Y''"
  by (simp_all add: demo_msg_def demo_write_def demo_new_def moos_simps)

theorem reachable_ok_witness:
  "db_ok (snd (db_exec (Connect ''nav'') (StartDB ''lake'' (new_db real 0 False))))"
  by (rule reachable_ok, rule reach_step, rule reach_start)

theorem notify_refines_witness:
  "abs_db (OnNotify demo_write demo_db) = spec_notify (db_sCommunityName demo_db) 5 demo_write (abs_db demo_db)
   \<and> spec_accepts demo_write (abs_db demo_db)"
  using notify_refines [OF demo_ok, of demo_write] by (simp add: spec_accepts_def)

theorem register_refines_witness:
  "abs_db (snd (OnRegister (demo_msg MOOS_REGISTER ''X'' ''log'') demo_db)) =
     spec_register ''log'' ''X'' (m_dfVal (demo_msg MOOS_REGISTER ''X'' ''log'')) 5 (abs_db demo_db)"
  using register_refines [OF demo_ok, of "demo_msg MOOS_REGISTER ''X'' ''log''"] by simp

theorem unregister_refines_witness:
  "abs_db (snd (OnUnRegister (demo_msg MOOS_UNREGISTER ''X'' ''nav'') demo_db)) =
     spec_unregister ''nav'' ''X'' (abs_db demo_db)"
  using unregister_refines [OF demo_ok, of "demo_msg MOOS_UNREGISTER ''X'' ''nav''"] by simp

definition demo_wild :: "char \<Rightarrow> moos_msg" where
  "demo_wild t = (demo_msg t [] ''log'')\<lparr>m_sVal := ''AppPattern=*,VarPattern=*,Interval=0''\<rparr>"

lemma demo_wild_frame [simp]: "m_cMsgType (demo_wild t) = t" "m_sSrc (demo_wild t) = ''log''"
  by (simp_all add: demo_wild_def)

lemma demo_patterns:
  "app_pattern (demo_wild t) = ''*''" "var_pattern (demo_wild t) = ''*''"
proof -
  have v: "m_sVal (demo_wild t) = ''AppPattern=*,VarPattern=*,Interval=0''" by (simp add: demo_wild_def)
  have "MOOSValFromString ''AppPattern=*,VarPattern=*,Interval=0'' ''AppPattern'' False = Some ''*''" by code_simp
  moreover have "MOOSValFromString ''AppPattern=*,VarPattern=*,Interval=0'' ''VarPattern'' False = Some ''*''" by code_simp
  ultimately show "app_pattern (demo_wild t) = ''*''" "var_pattern (demo_wild t) = ''*''"
    by (simp_all add: app_pattern_def var_pattern_def v)
qed

theorem wildcard_register_witness:
  "box (snd (OnRegister (demo_wild MOOS_WILDCARD_REGISTER) demo_db)) ''log'' = box demo_db ''log'' @ [reply_msg demo_var]"
proof -
  have "hits (new_filter ''*'' ''*'' p) demo_db ''X''" for p
    by (simp add: hits_def Matches_def app_filter_def var_filter_def new_filter_def MOOSWildCmp_star)
  then show ?thesis
    using wildcard_register [OF demo_ok, of "demo_wild MOOS_WILDCARD_REGISTER" "''log''"]
    by (simp add: demo_patterns value_list_def)
qed

theorem wildcard_unregister_witness:
  "filters_of (snd (OnUnRegister (demo_wild MOOS_WILDCARD_UNREGISTER) demo_db)) ''log'' = [new_filter ''*'' ''*'' 1]"
  using wildcard_unregister [OF demo_ok, of "demo_wild MOOS_WILDCARD_UNREGISTER" "''log''" "''X''"] by simp

theorem disconnect_refines_witness:
  "\<exists>M now. m_sKey M = ''DB_EVENT'' \<and> m_sVal M = MOOSFormat (''disconnected='' @ c_str ''nav'')
     \<and> abs_db (snd (OnDisconnect ''nav'' demo_db)) =
         spec_notify (db_sCommunityName demo_db) now M (spec_leave ''nav'' (abs_db demo_db))"
  by (rule disconnect_refines [OF demo_ok])

lemma demo_clear: "is_clear (demo_msg MOOS_SERVER_REQUEST ''DB_CLEAR'' ''nav'')"
  by (simp add: is_clear_def contains_def)

definition demo_view :: server_view where
  "demo_view = \<lparr>sv_ClientNames = [''gps'', ''nav''], sv_TimingSummary = None, sv_TimeToDate = (\<lambda>_. [])\<rparr>"

theorem clear_refines_witness:
  "abs_db (snd (snd (ProcessMsg demo_view (demo_msg MOOS_SERVER_REQUEST ''DB_CLEAR'' ''nav'') [] demo_db))) =
     spec_clear (abs_db demo_db)"
  using clear_refines [OF demo_ok demo_clear] by simp

theorem type_stable_witness:
  "\<exists>v'. var_of (db_run [RxPkt demo_view ''gps'' [demo_write, demo_new] [], Disconnect ''nav''] demo_db) ''X'' = Some v'
     \<and> v_cDataType v' = MOOS_DOUBLE \<and> 1 \<le> v_nWrittenTo v'"
  using type_stable [OF demo_ok, of "''X''" demo_var "[RxPkt demo_view ''gps'' [demo_write, demo_new] [], Disconnect ''nav'']"]
  by (simp add: no_clear_def is_clear_def)
    (simp add: demo_new_def moos_simps)

theorem departed_silent_witness:
  "box (db_run [RxPkt demo_view ''gps'' [demo_write] []] (snd (OnDisconnect ''nav'' demo_db))) ''nav'' = []"
  using departed_silent [OF demo_ok, of "[RxPkt demo_view ''gps'' [demo_write] []]" "''nav''"]
  by (simp add: sends_def) (simp add: demo_write_def)

theorem mail_in_order_witness:
  "\<exists>new. fst (db_exec (FetchAllMail ''nav'' []) (db_run [RxPkt demo_view ''gps'' [demo_write] []] demo_db))
     = reply_msg demo_var # new"
  using mail_in_order [OF demo_ok, of "[RxPkt demo_view ''gps'' [demo_write] []]" "''nav''" "[]"]
  by (simp add: no_clear_def is_clear_def) (auto simp: demo_db_def map_get_def)

theorem packet_reply_witness:
  "\<exists>new. fst (snd (OnRxPkt demo_view ''nav'' [demo_write] [] demo_db))
     = reply_msg demo_var # new @ fst (process_all demo_view [demo_write] [] demo_db)"
  using packet_reply [OF demo_ok, of "[demo_write]" demo_view "''nav''" "[]"]
  by (simp add: is_clear_def) (auto simp: demo_db_def map_get_def)

theorem rate_limit_witness:
  "successively (\<lambda>a b. 1 \<le> b - a) (0 # deliveries ''nav'' ''X'' [demo_write, demo_write] demo_db)"
  using rate_limit [OF demo_ok, of "''X''" "''nav''" _ "[demo_write, demo_write]"] by simp

theorem wildcard_first_write_witness:
  "box (OnNotify demo_new demo_db) ''log'' = box demo_db ''log'' @ [sent_msg demo_new demo_db]"
proof -
  have "first_write demo_new demo_db"
    by (simp add: first_write_def current_var_def made_var_def new_var_def)
  moreover have "Matches (new_filter ''*'' ''*'' 1) demo_new"
    by (simp add: Matches_def app_filter_def var_filter_def new_filter_def MOOSWildCmp_star)
  moreover have "f_period (new_filter ''*'' ''*'' 1) = 1" by (simp add: new_filter_def)
  ultimately show ?thesis
    using wildcard_first_write [OF demo_ok, of demo_new "new_filter ''*'' ''*'' 1" "''log''"] by simp
qed

theorem all_request_witness:
  "ProcessMsg demo_view (demo_msg MOOS_SERVER_REQUEST ''ALL'' ''nav'') [] demo_db =
     (True, [server_all_msg (demo_msg MOOS_SERVER_REQUEST ''ALL'' ''nav'') (db_dfStartTime demo_db) demo_var], demo_db)"
  using all_request [of "demo_msg MOOS_SERVER_REQUEST ''ALL'' ''nav''" demo_view "[]" demo_db] by simp

theorem var_summary_reply_witness:
  "\<exists>m s'. ProcessMsg demo_view (demo_msg MOOS_SERVER_REQUEST ''VAR_SUMMARY'' ''nav'') [] demo_db = (True, [m], s')
     \<and> StringListToVector (m_sVal m) '','' = [''X'']"
  using var_summary_reply [of "demo_msg MOOS_SERVER_REQUEST ''VAR_SUMMARY'' ''nav''" demo_db demo_view "[]"]
  by (simp del: StringListToVector.simps) blast

theorem unknown_request_witness:
  "ProcessMsg demo_view (demo_msg MOOS_SERVER_REQUEST ''REBOOT'' ''nav'') [demo_new] demo_db = (False, [demo_new], demo_db)"
  using unknown_request [of "demo_msg MOOS_SERVER_REQUEST ''REBOOT'' ''nav''" demo_view "[demo_new]" demo_db]
  by (simp add: contains_def)

section \<open>Messages and packets on the wire\<close>

definition demo_wire :: wire_msg where
  "demo_wire = \<lparr>m_cMsgType = MOOS_NOTIFY, m_cDataType = MOOS_STRING, m_sKey = ''Y'', m_nID = - 1,
     m_dfTime = 7, m_dfVal = 0, m_dfVal2 = 0, m_sVal = ''on'', m_sSrc = ''gps'', m_sSrcAux = [],
     m_sOriginatingCommunity = ''lake''\<rparr>"

definition demo_null :: wire_msg where
  "demo_null = demo_wire\<lparr>m_cMsgType := MOOS_NULL_MSG, m_dfVal := 9\<rparr>"

lemma demo_size: "msg_size demo_wire = 64" "msg_size demo_null = 64"
  by (simp_all add: msg_size_sum demo_wire_def demo_null_def)

theorem message_roundtrip_witness:
  "\<exists>bytes. Serialize_to True demo_wire (replicate 70 CHR ''x'') 70 = Inr (Some (GetSizeInBytesWhenSerialised demo_wire, bytes))
     \<and> Serialize_from False bytes 70 = Inr (Some (GetSizeInBytesWhenSerialised demo_wire, demo_wire))"
  using message_roundtrip [of demo_wire 70 "replicate 70 CHR ''x''" True False] by (auto simp: demo_size)

theorem message_overflow_witness:
  "Serialize_to True demo_wire (replicate 63 CHR ''x'') 63 = Inr None"
  using message_overflow [of demo_wire 63 "replicate 63 CHR ''x''" True]
  by (simp add: demo_size msg_size_eq)

theorem message_read_safe_witness:
  "Serialize_from True [CHR ''a'', CHR ''b'', CHR ''c'', CHR ''d'', CHR ''e''] 5 \<noteq> Inl BadAccess"
  by (rule message_read_safe) simp

theorem packet_end_to_end_witness:
  "\<exists>p wire p' p''. to_stream (\<lambda>_. CHR ''u'') True [demo_null, demo_wire] (new_pkt (\<lambda>_. CHR ''u'')) = Inr (Some p)
     \<and> SendPkt 137 p = Inr wire
     \<and> ReadPkt (\<lambda>_. CHR ''v'') False (replicate 200 (Arrive 3)) (wire @ ''next'') (new_pkt (\<lambda>_. CHR ''v'')) = Inr (''next'', p')
     \<and> from_stream False True [] p' = Inr ([demo_wire], Some 9, p'')"
  using packet_end_to_end [of "[demo_null, demo_wire]" "replicate 200 (Arrive 3)" "\<lambda>_. CHR ''u''" True
      "\<lambda>_. CHR ''v''" False "''next''" True]
  by (simp add: total_size_def demo_size) (simp add: is_null_def demo_null_def demo_wire_def)

theorem packet_required_witness:
  "GetBytesRequired (new_pkt (\<lambda>_. CHR ''u'')) \<noteq> 0"
proof -
  have ok: "pkt_ok []" by (simp add: pkt_ok_def total_size_def)
  show ?thesis
    using packet_required [OF receiving_new framed_pkt_bytes [OF ok]] by (auto simp: total_size_def pkt_bytes_def)
qed

end
