(* ===== verification/Moos_SystemExamples.thy ===== *)
theory Moos_SystemExamples
  imports Moos_System Moos_Examples
begin

text \<open>
  Concrete clients and a concrete server, built by their own operations, at which the properties
  of \<open>Moos_ClientProps\<close>, \<open>Moos_ClientProperties\<close>, \<open>Moos_ServerRuns\<close> and \<open>Moos_System\<close> apply.
\<close>

section \<open>Clients\<close>

definition demo_client :: client where
  "demo_client = (RunClient ''nav'' 5 new_client)\<lparr>c_bConnected := True\<rparr>"

definition demo_small :: client where
  "demo_small = ExpectOutboxOverflow 1 demo_client"

definition demo_x :: moos_msg where
  "demo_x = msg_double MOOS_NOTIFY ''X'' 1 5 5"

lemma demo_client_ok: "client_ok demo_client" "client_ok demo_small"
  by (simp_all add: demo_client_def demo_small_def)

lemma demo_client_frame [simp]:
  "c_bConnected demo_client" "c_sMyName demo_client = ''nav''" "c_OutBox demo_client = []" "c_InBox demo_client = []"
  "c_nInPendingLimit demo_client = 2048" "c_nOutPendingLimit demo_client = 2048"
  "c_Msg2ActiveQueueName demo_client = []" "c_WildcardQueuePatterns demo_client = []"
  "c_ActiveQueueMap demo_client = []" "\<not> c_bFakeSource demo_client" "c_Registered demo_client = []"
  "c_RecurrentSubscriptions demo_client = []"
  by (simp_all add: demo_client_def RunClient_def new_client_def)

lemma demo_small_frame [simp]:
  "c_bConnected demo_small" "c_OutBox demo_small = []" "\<not> c_bFakeSource demo_small"
  "c_nOutPendingLimit demo_small = 1" "c_bPostNewestToFront demo_small = False"
  by (simp_all add: demo_small_def ExpectOutboxOverflow_def) (simp add: demo_client_def RunClient_def new_client_def)

lemma demo_x_frame [simp]: "m_sKey demo_x = ''X''" "m_cMsgType demo_x = MOOS_NOTIFY" "\<not> IsNullMsg demo_x"
  by (simp_all add: demo_x_def msg_double_def IsNullMsg_def IsType_def)

theorem outbox_latest_witness:
  "\<exists>sent c'. post_all [demo_x, demo_x] demo_small = (sent, c') \<and> length sent = 2
     \<and> by_age (c_bPostNewestToFront c') (c_OutBox c') = [sent ! 1]"
proof -
  obtain sent c' where p: "post_all [demo_x, demo_x] demo_small = (sent, c')" by fastforce
  then have o: "by_age (c_bPostNewestToFront c') (c_OutBox c') = latest 1 sent"
      and l: "length sent = 2"
    using outbox_latest [of demo_small "[demo_x, demo_x]" sent c']
    by (auto simp: by_age_def dest: list_all2_lengthD)
  then obtain a b where "sent = [a, b]" by (metis length_0_conv length_Suc_conv numeral_2_eq_2)
  then show ?thesis using p o l by (simp add: latest_def)
qed

theorem client_never_throws_witness:
  "client_ok (RunClient ''nav'' 5 new_client)
   \<and> (\<exists>ok c'. DoClientWork (\<lambda>_. None) 0 0 (RunClient ''nav'' 5 new_client) = Inr (ok, c'))"
  by (rule client_never_throws, rule creach_step [OF creach_new, of "CallRun ''nav'' 5"]) simp_all

definition demo_queued :: client where
  "demo_queued = snd (AddMessageCallBack ''q'' ''X'' demo_client)"

lemma demo_queued_ok: "client_ok demo_queued"
  by (simp add: demo_queued_def demo_client_ok)

lemma demo_queued_frame [simp]:
  "c_bConnected demo_queued" "c_OutBox demo_queued = []" "c_InBox demo_queued = []"
  "c_nInPendingLimit demo_queued = 2048" "c_ActiveQueueMap demo_queued = [(''q'', [])]"
  "c_Msg2ActiveQueueName demo_queued = [(''X'', [''q''])]" "c_WildcardQueuePatterns demo_queued = []"
  by (simp_all add: demo_queued_def AddMessageCallBack_def AddMessageRouteToActiveQueue_def HasActiveQueue_def
      AddActiveQueue_def add_route_def map_get_def insort_insert_key_def)

theorem exchange_delivers_witness:
  "\<exists>c'. DoClientWork (\<lambda>_. Some [demo_x]) 0 0 demo_queued = Inr (True, c')
     \<and> map_of (c_ActiveQueueMap c') ''q'' = Some [demo_x] \<and> c_InBox c' = []"
proof -
  have p: "pending demo_queued [demo_x] = [demo_x]" by (simp add: pending_def)
  have t: "targets demo_queued ''X'' = {''q''}"
    by (auto simp: targets_def routes_def map_get_def matching_def)
  have "routed demo_queued [demo_x] = [demo_x]" and "unpicked demo_queued [demo_x] = []"
    by (simp_all add: routed_def unpicked_def has_route_def t)
  then show ?thesis
    using exchange_delivers [where server = "\<lambda>_. Some [demo_x]" and c = demo_queued and reply = "[demo_x]" and tx = 0 and rx = 0]
    by (auto simp: demo_queued_ok p t)
qed

theorem exchange_fails_witness:
  "\<exists>c'. DoClientWork (\<lambda>_. None) 0 0 demo_queued = Inr (False, c')
     \<and> \<not> c_bConnected c' \<and> c_ActiveQueueMap c' = [(''q'', [])]"
  using exchange_fails [where server = "\<lambda>_. None" and c = demo_queued and tx = 0 and rx = 0] by auto

theorem mail_fetched_once_witness:
  "\<exists>c'. DoClientWork (\<lambda>_. Some [new_msg, demo_x]) 0 0 demo_client = Inr (True, c')
     \<and> fst (snd (Fetch [] c')) = [demo_x]"
proof -
  obtain c' where c': "DoClientWork (\<lambda>_. Some [new_msg, demo_x]) 0 0 demo_client = Inr (True, c')"
    using exchange_ok [OF demo_client_ok(1), of "\<lambda>_. Some [new_msg, demo_x]" "[new_msg, demo_x]" 0 0] by auto
  have p: "pending demo_client [new_msg, demo_x] = [demo_x]"
    by (simp add: pending_def new_msg_def IsNullMsg_def IsType_def)
  obtain got mail c'' where f: "Fetch [] c' = (got, mail, c'')" by (metis prod_cases3)
  have "got = True \<and> mail = [demo_x]"
    using mail_fetched_once [where server = "\<lambda>_. Some [new_msg, demo_x]" and reply = "[new_msg, demo_x]",
        OF demo_client_ok(1) _ _ _ _ c' f] p by simp
  with c' f show ?thesis by simp
qed

theorem close_strands_wildcards_witness:
  "\<exists>e. DoClientWork (\<lambda>_. Some [demo_x]) 0 0
     ((CloseClient (snd (AddWildcardActiveQueue ''w'' ''*'' demo_client)))\<lparr>c_bConnected := True\<rparr>) = Inl e"
proof (rule close_strands_wildcards)
  have w: "c_WildcardQueuePatterns (fold (\<lambda>k c. if P k then add_route k q c else c) ks c) = c_WildcardQueuePatterns c"
    for P q ks c by (induction ks arbitrary: c) (simp_all add: add_route_def)
  show "map_ok (c_WildcardQueuePatterns (snd (AddWildcardActiveQueue ''w'' ''*'' demo_client)))"
    and "map_of (c_WildcardQueuePatterns (snd (AddWildcardActiveQueue ''w'' ''*'' demo_client))) ''w'' = Some ''*''"
    by (simp_all add: AddWildcardActiveQueue_def AddActiveQueue_def w map_ok_def)
qed (simp_all add: MOOSWildCmp_star)

theorem skew_error_witness:
  "\<bar>c_dfMOOSSkew (UpdateMOOSSkew 10 (11 + 100) 14 demo_client) - 100\<bar> \<le> 2"
  by (rule skew_error) (simp_all add: demo_client_def RunClient_def new_client_def)

theorem peek_mail_witness:
  "PeekMail [demo_x, demo_x\<lparr>m_dfTime := 9\<rparr>] ''X'' True True = Some (demo_x\<lparr>m_dfTime := 9\<rparr>, [demo_x])
   \<and> (\<exists>xs ys. [demo_x, demo_x\<lparr>m_dfTime := 9\<rparr>] = xs @ demo_x\<lparr>m_dfTime := 9\<rparr> # ys
        \<and> (\<forall>x \<in> set xs. m_sKey x = ''X'' \<longrightarrow> m_dfTime x < 9))"
proof -
  have p: "PeekMail [demo_x, demo_x\<lparr>m_dfTime := 9\<rparr>] ''X'' True True = Some (demo_x\<lparr>m_dfTime := 9\<rparr>, [demo_x])"
    by (simp add: PeekMail_def) (simp add: demo_x_def msg_double_def)
  show ?thesis
    using peek_mail [of "[demo_x, demo_x\<lparr>m_dfTime := 9\<rparr>]" "''X''" True True] unfolding p by simp blast
qed

theorem recurrent_renewed_witness:
  "IsRegisteredFor ''X'' (snd (ApplyRecurrentSubscriptions 5 (snd (AddRecurrentSubscription ''X'' 0 demo_client))))"
proof -
  let ?c = "snd (AddRecurrentSubscription ''X'' 0 demo_client)"
  have c: "c_RecurrentSubscriptions ?c = [(''X'', 0)]" "c_bConnected ?c"
    by (simp_all add: AddRecurrentSubscription_def)
  obtain sent c1 where "post_all (map (\<lambda>(k, p). msg_double MOOS_REGISTER (c_str k) p (-1) 5) (c_RecurrentSubscriptions ?c)) ?c = (sent, c1)"
    by fastforce
  with recurrent_renewed [of ?c 5 sent c1] have "\<forall>(k, p) \<in> set (c_RecurrentSubscriptions ?c).
      IsRegisteredFor k (snd (ApplyRecurrentSubscriptions 5 ?c))"
    using c(2) demo_client_ok(1) client_ok_recurrent(1) by blast
  then show ?thesis unfolding c(1) by simp
qed

section \<open>The server\<close>

text \<open>The database of \<open>Moos_Examples\<close> behind a server with two clients.\<close>

definition demo_server :: server where
  "demo_server = (new_server demo_db)
     \<lparr>s_ClientSocketList := [(4, 5), (3, 1)], s_Socket2ClientMap := [(3, ''gps''), (4, ''nav'')],
      s_sCommunityName := ''lake''\<rparr>"

lemma demo_server_frame [simp]:
  "s_DB demo_server = demo_db" "s_Socket2ClientMap demo_server = [(3, ''gps''), (4, ''nav'')]"
  "s_ClientSocketList demo_server = [(4, 5), (3, 1)]" "s_dfClientTimeout demo_server = 5"
  "s_sCommunityName demo_server = ''lake''"
  by (simp_all add: demo_server_def new_server_def)

lemma demo_server_ok: "server_ok demo_server"
  by (simp add: server_ok_def map_ok_def)

theorem server_reachable_witness:
  "distinct (GetClientNames (snd (SetClientTimeout 5 (new_server (StartDB ''lake'' (new_db real 0 False))))
     \<lparr>s_sCommunityName := ''lake''\<rparr>))"
  using server_reachable [OF sreach_start [OF reach_start, where t = 5 and n = "''lake''"]] by blast

text \<open>The client \<open>log\<close> asks to join.\<close>

definition demo_log :: client where
  "demo_log = RunClient ''log'' 5 new_client"

lemma demo_log_frame [simp]: "c_sMyName demo_log = ''log''" "\<not> c_bConnected demo_log" "\<not> c_bQuit demo_log"
  by (simp_all add: demo_log_def RunClient_def new_client_def)

theorem handshake_outcome_witness:
  "fst (OnNewClient 5 (Some hello_bytes) (Inr (Some (hello_msg 6 demo_log))) True ''10.0.0.2'' 6 demo_server)"
proof -
  obtain ok answer s' where o: "OnNewClient 5 (Some hello_bytes) (Inr (Some (hello_msg 6 demo_log))) True ''10.0.0.2'' 6 demo_server
      = (ok, answer, s')" by (metis prod_cases3)
  have "c_str ''log'' = ''log''" by (simp add: c_str_def)
  then have "m_sVal (hello_msg 6 demo_log) = ''log''" by (simp add: hello_msg_def msg_string_def)
  with handshake_outcome [OF o] show ?thesis by (simp add: o hello_protocol IsUniqueName_def)
qed

theorem welcome_lost_witness:
  "\<not> fst (OnNewClient 6 (Some hello_bytes) (Inr (Some (hello_msg 7 demo_log))) True ''10.0.0.2'' 7
     (snd (snd (OnNewClient 5 (Some hello_bytes) (Inr (Some (hello_msg 6 demo_log))) False ''10.0.0.2'' 6 demo_server))))"
proof -
  obtain ok answer s' where o: "OnNewClient 5 (Some hello_bytes) (Inr (Some (hello_msg 6 demo_log))) False ''10.0.0.2'' 6 demo_server
      = (ok, answer, s')" by (metis prod_cases3)
  have "c_str ''log'' = ''log''" by (simp add: c_str_def)
  then have v: "m_sVal (hello_msg t demo_log) = ''log''" for t by (simp add: hello_msg_def msg_string_def)
  have "IsUniqueName (m_sVal (hello_msg 6 demo_log)) demo_server" by (simp add: v IsUniqueName_def)
  from welcome_lost [OF hello_protocol this o, of "hello_msg 7 demo_log"] show ?thesis by (simp add: o v)
qed

theorem timer_forgets_witness:
  "s_ClientSocketList (TimerPass 8 demo_server) = [(4, 5)] \<and> IsUniqueName ''gps'' (TimerPass 8 demo_server)"
  using timer_forgets [OF demo_server_ok, of 8] demo_ok by (simp add: GetClientName_def)

theorem client_joins_witness:
  "\<exists>answer s' c'. OnNewClient 5 (Some hello_bytes) (Inr (Some (hello_msg 6 demo_log))) True ''10.0.0.2'' 6 demo_server = (True, answer, s')
     \<and> StartSession answer ''10.0.0.3'' False 7 demo_log = (True, c') \<and> c_sCommunityName c' = ''lake''"
proof -
  obtain ok answer s' where o: "OnNewClient 5 (Some hello_bytes) (Inr (Some (hello_msg 6 demo_log))) True ''10.0.0.2'' 6 demo_server
      = (ok, answer, s')" by (metis prod_cases3)
  obtain ok' c' where s: "StartSession answer ''10.0.0.3'' False 7 demo_log = (ok', c')" by fastforce
  have "ok = IsUniqueName ''log'' demo_server \<and> ok' = ok \<and> (ok \<longrightarrow> c_sCommunityName c' = ''lake'')"
    using client_joins [OF _ _ _ o s] by simp
  moreover have "IsUniqueName ''log'' demo_server" by (simp add: IsUniqueName_def)
  ultimately show ?thesis using o s by auto
qed

section \<open>The system\<close>

theorem register_reaches_db_witness:
  "sub_of (snd (process_all demo_view (outgoing (snd (RegisterVar ''Y'' 2 5 demo_client))) [] demo_db)) ''nav'' ''Y'' \<noteq> None"
proof -
  obtain ok c' where c': "RegisterVar ''Y'' 2 5 demo_client = (ok, c')" by fastforce
  then have "ok = True" by (simp add: RegisterVar_eq)
  then have "abs_db (snd (process_all demo_view (outgoing c') [] demo_db)) = spec_register ''nav'' ''Y'' 2 5 (abs_db demo_db)"
    using register_reaches_db [of demo_client "''Y''" 2 5 c' demo_db demo_view "[]"] c' demo_ok by simp
  then have "sub_of (snd (process_all demo_view (outgoing c') [] demo_db)) ''nav'' ''Y''
      = ps_sub (spec_register ''nav'' ''Y'' 2 5 (abs_db demo_db)) ''nav'' ''Y''" by (metis abs_db_sel(2))
  then show ?thesis by (simp add: c' spec_register_def Let_def split: option.split)
qed

theorem pattern_reaches_db_witness:
  "\<exists>M. outgoing (snd (RegisterPattern ''NAV_*'' ''*'' 0 5 demo_client)) = [M] \<and> var_pattern M = ''NAV_*''"
proof -
  have "MOOSTrimWhiteSpace ''NAV_*'' = ''NAV_*''" by code_simp
  then show ?thesis using pattern_reaches_db [of demo_client "''NAV_*''" "''*''" 0 5] by auto
qed

theorem rw_summary_read_witness:
  "\<exists>c'. ProcessClientCommsStatusSummary
      (new_msg\<lparr>m_sKey := ''DB_RWSUMMARY'', m_sVal := rw_summary [''gps'', ''nav''] (db_VarMap demo_db)\<rparr>) demo_client = Inr (True, c')
     \<and> (\<exists>r. GetClientCommsStatus ''nav'' c' = Some r \<and> cs_subscribes r = [''X''] \<and> cs_publishes r = [])"
  using rw_summary_read [OF demo_ok, of "[''gps'', ''nav'']"
      "new_msg\<lparr>m_sKey := ''DB_RWSUMMARY'', m_sVal := rw_summary [''gps'', ''nav''] (db_VarMap demo_db)\<rparr>" demo_client]
  by (force simp: name_ok_def HasSubscriber_def demo_var_def new_var_def)

definition demo_io :: client_io where
  "demo_io = \<lparr>io_MsgLstRx = Some [demo_write], io_bSent = True, io_MOOSTime = 6, io_MOOSLocalTime = 6,
     io_timing = None, io_date = (\<lambda>_. [])\<rparr>"

theorem publish_reaches_subscriber_witness:
  "\<exists>c'. DoClientWork (\<lambda>rx. fst (snd (ProcessClient (demo_io\<lparr>io_MsgLstRx := Some rx\<rparr>) 4
       (snd (snd (ProcessClient demo_io 3 demo_server)))))) 6 6 demo_client = Inr (True, c')
     \<and> (\<exists>x \<in> set (fst (snd (Fetch [] c'))). m_sKey x = ''X'' \<and> m_dfVal x = 8 \<and> m_sSrc x = ''gps'')"
proof -
  let ?s = "snd (snd (ProcessClient demo_io 3 demo_server))"
  let ?srv = "\<lambda>rx. fst (snd (ProcessClient (demo_io\<lparr>io_MsgLstRx := Some rx\<rparr>) 4 ?s))"
  have io: "io_MsgLstRx demo_io = Some ([] @ demo_write # [])" "io_bSent demo_io" by (simp_all add: demo_io_def)
  have d: "delivered_to demo_write demo_db ''nav''"
    by (simp add: delivered_to_def accepted_def due_def seen_var_def current_var_def made_var_def first_write_def
        demo_var_def new_var_def Expired_def)
  have s: "?s = server_run [] ?s" by (simp add: server_run_def)
  have clear: "\<forall>x \<in> set (outgoing demo_client). \<not> is_clear x"
    by (simp add: outgoing_def is_clear_def new_msg_def)
  have "\<exists>r. ?srv (outgoing demo_client) = Some r"
    by (simp add: ProcessClient_def demo_io_def Let_def case_prod_beta)
  then obtain r where "?srv (outgoing demo_client) = Some r" by blast
  from exchange_ok [where server = ?srv, OF demo_client_ok(1) _ this, of 6 6]
  obtain c' where c': "DoClientWork ?srv 6 6 demo_client = Inr (True, c')" by auto
  have "\<exists>x \<in> set (fst (snd (Fetch [] c'))). IsType x MOOS_NOTIFY \<and> m_sKey x = m_sKey demo_write
     \<and> m_cDataType x = m_cDataType demo_write \<and> m_dfVal x = m_dfVal demo_write \<and> m_sVal x = m_sVal demo_write
     \<and> m_dfTime x = m_dfTime demo_write \<and> m_sSrc x = m_sSrc demo_write \<and> m_sSrcAux x = m_sSrcAux demo_write"
    by (rule publish_reaches_subscriber [where b = "''nav''", OF demo_server_ok _ _ _ _ io(1) _ _ _ _ s demo_client_ok(1) _ clear _ _ io(2) c'])
      (simp_all add: demo_ok d process_all_def)
  moreover have "m_dfVal demo_write = 8" "m_sSrc demo_write = ''gps''" by (simp_all add: demo_write_def msg_double_def)
  ultimately show ?thesis using c' by (metis demo_msg_frame(5))
qed

end
