(* ===== verification/Moos_ThreadedExamples.thy ===== *)
theory Moos_ThreadedExamples
  imports Moos_AsyncSystem Moos_SystemExamples
begin

text \<open>
  A concrete threaded server and asynchronous clients, at which the properties of
  \<open>Moos_ThreadedProperties\<close>, \<open>Moos_AsyncProperties\<close> and \<open>Moos_AsyncSystem\<close> apply.
\<close>

section \<open>The server\<close>

text \<open>The server of \<open>Moos_SystemExamples\<close>: \<open>gps\<close> is synchronous and waits for the reply to the packet
  \<open>packet\<close>, \<open>nav\<close> is asynchronous.\<close>

definition demo_gps :: client_thread where
  "demo_gps = \<lparr>th_sClientName = ''gps'', th_Socket = 3, th_bAsynchronous = False, th_dfConsolidationPeriod = 0,
     th_dfClientTimeout = 5, th_DataOutgoing = [], th_Reader = Waiting, th_bWriting = False\<rparr>"

definition demo_nav :: client_thread where
  "demo_nav = \<lparr>th_sClientName = ''nav'', th_Socket = 4, th_bAsynchronous = True, th_dfConsolidationPeriod = 0,
     th_dfClientTimeout = 5, th_DataOutgoing = [], th_Reader = Reading, th_bWriting = True\<rparr>"

definition demo_pkt :: "moos_msg list \<Rightarrow> shared_data" where
  "demo_pkt Ms = \<lparr>sd_sClientName = ''gps'', sd_Status = PKT_READ, sd_Pkt = Some Ms\<rparr>"

definition demo_tserver :: "moos_msg list \<Rightarrow> tserver" where
  "demo_tserver Ms = (new_tserver demo_server)
     \<lparr>t_ClientThreads := [(''gps'', demo_gps), (''nav'', demo_nav)], t_DataFromClient := [demo_pkt Ms]\<rparr>"

lemma demo_tserver_frame [simp]:
  "t_Base (demo_tserver Ms) = demo_server" "\<not> t_bTerminated (demo_tserver Ms)" "t_DataFromClient (demo_tserver Ms) = [demo_pkt Ms]"
  "t_ClientThreads (demo_tserver Ms) = [(''gps'', demo_gps), (''nav'', demo_nav)]"
  "sd_sClientName (demo_pkt Ms) = ''gps''" "sd_Status (demo_pkt Ms) = PKT_READ" "sd_Pkt (demo_pkt Ms) = Some Ms"
  by (simp_all add: demo_tserver_def new_tserver_def demo_pkt_def)

lemma demo_tserver_ok: "t_ok (demo_tserver Ms)"
proof -
  have "client_fits n (map_of (t_ClientThreads (demo_tserver Ms)) n) (from_client n (demo_tserver Ms)) demo_server" for n
    by (auto simp: client_fits_def from_client_def thread_ok_def known_def demo_gps_def demo_nav_def demo_pkt_def
        intro!: exI [of _ "1 :: nat"])
  then show ?thesis by (simp add: t_ok_def demo_server_ok map_ok_def)
qed

theorem threaded_reachable_witness:
  "t_exec (TSilence ''nav'' 6) (SetResponses ''5'' (new_tserver (snd (SetClientTimeout 5
     (new_server (StartDB ''lake'' (new_db real 0 False))))\<lparr>s_sCommunityName := ''lake''\<rparr>))) \<noteq> None"
  using threaded_reachable [OF treach_start [OF reach_start, where r = "''5''" and u = 5 and n = "''lake''"], of "TSilence ''nav'' 6"]
  by (simp add: t_fresh_def)

theorem sync_answered_witness:
  "\<exists>t1 th1 tx t2. t_exec (TServe demo_io) (demo_tserver [demo_write]) = Some t1
     \<and> map_of (t_ClientThreads t1) ''gps'' = Some th1
     \<and> ReplyStep True th1 t1 = (Some (new_msg\<lparr>m_dfVal := 6\<rparr> # tx), t2)"
  using sync_answered [OF demo_tserver_ok, of "[demo_write]" "demo_pkt [demo_write]" "[]" "[demo_write]" demo_gps demo_io] demo_ok
  by (simp add: demo_gps_def [THEN arg_cong [of _ _ th_bAsynchronous]]) (auto simp: demo_io_def)

theorem empty_packet_stalls_witness:
  "\<exists>t'. t_run [TServe demo_io, TSilence ''gps'' 100] (demo_tserver []) = Some t'
     \<and> \<not> IsUniqueName ''gps'' (t_Base t')"
proof -
  have "t_exec (TServe demo_io) (demo_tserver []) = Some ((demo_tserver [])\<lparr>t_DataFromClient := []\<rparr>)"
    by (simp add: ServerRound_def ThreadedProcessClient_def)
  then obtain t' where r: "t_run (TServe demo_io # [TSilence ''gps'' 100]) (demo_tserver []) = Some t'"
    by (auto simp: t_fresh_def on_thread_def SilenceStep_def ThreadOnClientDisconnect_def Let_def demo_gps_def)
  have "map_of (t_ClientThreads t') (sd_sClientName (demo_pkt [])) = Some demo_gps \<and> th_Reader demo_gps = Waiting
     \<and> th_DataOutgoing demo_gps = [] \<and> \<not> IsUniqueName (sd_sClientName (demo_pkt [])) (t_Base t')"
    by (rule empty_packet_stalls [OF demo_tserver_ok _ _ _ _ _ _ r]) (simp_all add: demo_ok demo_gps_def)
  then show ?thesis using r by auto
qed

theorem writer_outlives_socket_witness:
  "\<exists>t' th'. t_run [TRead ''nav'' None 6, TServe demo_io] ((demo_tserver [])\<lparr>t_DataFromClient := [],
       t_ClientThreads := [(''nav'', demo_nav\<lparr>th_DataOutgoing := [outgoing_pkt ''gps'' [demo_write]]\<rparr>)]\<rparr>) = Some t'
     \<and> th' \<in> set (t_OldClientThreads t') \<and> fst (WriteStep True th') = Some [demo_write]
     \<and> th_Socket th' \<notin> fst ` set (s_ClientSocketList (t_Base t'))"
proof -
  let ?th = "demo_nav\<lparr>th_DataOutgoing := [outgoing_pkt ''gps'' [demo_write]]\<rparr>"
  let ?t = "(demo_tserver [])\<lparr>t_DataFromClient := [], t_ClientThreads := [(''nav'', ?th)]\<rparr>"
  have "client_fits n (map_of (t_ClientThreads ?t) n) (from_client n ?t) demo_server" for n
    by (auto simp: client_fits_def from_client_def thread_ok_def known_def demo_nav_def)
  then have ok: "t_ok ?t" by (simp add: t_ok_def demo_server_ok map_ok_def)
  have db: "db_ok (s_DB (t_Base ?t))" by (simp add: demo_ok)
  obtain t' where r: "t_run [TRead ''nav'' None 6, TServe demo_io] ?t = Some t'"
    by (auto simp: t_fresh_def on_thread_def ReadStep_def ThreadOnClientDisconnect_def ServerRound_def
        ThreadedOnClientDisconnect_def StopAndCleanUpClientThread_def demo_nav_def Let_def)
  have "\<exists>th' \<in> set (t_OldClientThreads t'). th_bWriting th' \<and> th_Socket th' = th_Socket ?th
     \<and> (\<exists>q'. th_DataOutgoing th' = outgoing_pkt ''gps'' [demo_write] # q')
     \<and> fst (WriteStep True th') = sd_Pkt (outgoing_pkt ''gps'' [demo_write])
     \<and> th_Socket ?th \<notin> fst ` set (s_ClientSocketList (t_Base t'))
     \<and> map_of (s_Socket2ClientMap (t_Base t')) (th_Socket ?th) = None"
    by (rule writer_outlives_socket [OF ok db _ _ _ _ _ _ _ r]) (simp_all add: demo_nav_def outgoing_pkt_def)
  then obtain th' where "th' \<in> set (t_OldClientThreads t')" "fst (WriteStep True th') = Some [demo_write]"
      "th_Socket th' \<notin> fst ` set (s_ClientSocketList (t_Base t'))"
    by (auto simp: outgoing_pkt_def [of _ "[demo_write]"])
  then show ?thesis using r by blast
qed

section \<open>Asynchronous clients\<close>

definition demo_aclient :: aclient where
  "demo_aclient = new_aclient\<lparr>a_Base := demo_client\<rparr>"

lemma demo_aclient_frame [simp]:
  "a_Base demo_aclient = demo_client" "a_OutGoingQueue demo_aclient = []" "a_dfLastTimingMessage demo_aclient = 0"
  "idle_box demo_aclient" "queues_ok demo_client"
  using client_okD(2) [OF demo_client_ok(1)] by (simp_all add: demo_aclient_def new_aclient_def idle_box_def)

theorem async_queue_latest_witness:
  "\<exists>sent a'. apost_all [demo_x, demo_x] demo_aclient = (sent, a') \<and> a_OutGoingQueue a' = sent \<and> length sent = 2"
proof -
  obtain sent a' where p: "apost_all [demo_x, demo_x] demo_aclient = (sent, a')" by fastforce
  with async_queue_latest [of demo_aclient "[demo_x, demo_x]" sent a'] show ?thesis by auto
qed

theorem writing_sends_witness:
  "fst (WritingRound 5 5 5 True (demo_aclient\<lparr>a_OutGoingQueue := [demo_x]\<rparr>)) = Some [timing_msg 5, demo_x]"
proof -
  let ?a = "demo_aclient\<lparr>a_OutGoingQueue := [demo_x]\<rparr>"
  obtain sent a' where w: "WritingRound 5 5 5 True ?a = (sent, a')" by fastforce
  have "no_quit (a_OutGoingQueue ?a)" by (simp add: no_quit_def IsType_def)
  from writing_sends [OF _ this w] show ?thesis by (simp add: w TIMING_MESSAGE_PERIOD_def Let_def)
qed

theorem stale_quit_ends_session_witness:
  "\<exists>a1 queued a3. WritingRound 5 5 5 False (demo_aclient\<lparr>a_OutGoingQueue := [demo_x]\<rparr>) = (None, a1)
     \<and> apost_all [demo_x] (a1\<lparr>a_OutGoingQueue := a_OutGoingQueue a1 @ [quit_msg 6], a_Base := demo_client\<rparr>) = (queued, a3)
     \<and> fst (WritingRound 7 7 7 True a3) = None"
proof -
  let ?a = "demo_aclient\<lparr>a_OutGoingQueue := [demo_x]\<rparr>"
  obtain sent a1 where w: "WritingRound 5 5 5 False ?a = (sent, a1)" by fastforce
  let ?a2 = "a1\<lparr>a_OutGoingQueue := a_OutGoingQueue a1 @ [quit_msg 6]\<rparr>"
  obtain queued a3 where p: "apost_all [demo_x] (?a2\<lparr>a_Base := demo_client\<rparr>) = (queued, a3)" by fastforce
  obtain sent3 a4 where w3: "WritingRound 7 7 7 True a3 = (sent3, a4)" by fastforce
  have q: "no_quit (a_OutGoingQueue ?a)" by (simp add: no_quit_def IsType_def)
  have "sent3 = None \<and> \<not> c_bConnected (a_Base a4) \<and> a_OutGoingQueue a4 = [] \<and> length queued = length [demo_x]"
    by (rule stale_quit_ends_session [OF _ q _ w refl _ _ _ p w3]) (simp_all add: idle_box_def)
  moreover have "sent = None" using writing_round [OF _ q w] by (simp add: Let_def)
  ultimately show ?thesis using w p w3 by (intro exI [of _ a1] exI [of _ queued] exI [of _ a3]) simp
qed

theorem async_reading_witness:
  "\<exists>a'. DoReading (Some [timing_msg 5, demo_x]) 6 demo_aclient = Inr (True, a') \<and> c_InBox (a_Base a') = [demo_x]"
proof -
  have t: "IsType (timing_msg 5) MOOS_TIMING" "\<not> IsType (timing_msg 5) MOOS_NULL_MSG"
    by (simp_all add: timing_msg_def msg_double_def IsType_def)
  have "unpicked demo_client [demo_x] = [demo_x]" by (rule no_routes) simp_all
  moreover have "unread demo_aclient = []" by (simp add: unread_def)
  ultimately show ?thesis
    using async_reading [of demo_aclient "[timing_msg 5, demo_x]" "[demo_x]" 6] t by auto
qed

theorem null_reply_loses_mail_witness:
  "\<exists>ok a'. DoReading (Some [new_msg]) 6 (demo_aclient\<lparr>a_Base := demo_client\<lparr>c_InBox := [demo_x]\<rparr>\<rparr>) = Inr (ok, a')
     \<and> c_InBox (a_Base a') = [new_msg]"
proof -
  let ?a = "demo_aclient\<lparr>a_Base := demo_client\<lparr>c_InBox := [demo_x]\<rparr>\<rparr>"
  have q: "queues_ok (a_Base ?a)" by (simp add: queues_ok_def routes_def)
  obtain a' where r: "DoReading (Some [new_msg]) 6 ?a = Inr (True, a')"
    using reading_ok [OF q, of "[new_msg]" 6] by auto
  have "c_InBox (a_Base a') = [] @ new_msg # []"
    by (rule null_reply_loses_mail [OF q _ _ _ _ r, where lost = demo_x]) (simp_all add: unread_def new_msg_def IsType_def)
  then show ?thesis using r by auto
qed

section \<open>The two together\<close>

theorem async_client_joins_witness:
  "\<exists>answer t' th. ThreadedAccept 5 (Some hello_bytes) (Inr (Some (async_hello_msg 6 (demo_aclient\<lparr>a_Base := demo_log\<rparr>))))
       True ''10.0.0.2'' 6 6 (demo_tserver []) = (answer, t')
     \<and> map_of (t_ClientThreads t') ''log'' = Some th \<and> th_bAsynchronous th"
proof -
  let ?a = "demo_aclient\<lparr>a_Base := demo_log\<rparr>"
  obtain answer t' where j: "ThreadedAccept 5 (Some hello_bytes) (Inr (Some (async_hello_msg 6 ?a))) True ''10.0.0.2'' 6 6 (demo_tserver [])
      = (answer, t')" by fastforce
  obtain ok c where h: "HandShake answer ''10.0.0.3'' False (a_Base ?a) = (ok, c)" by fastforce
  have "IsUniqueName (c_sMyName (a_Base ?a)) (t_Base (demo_tserver []))" by (simp add: IsUniqueName_def)
  from async_client_joins [OF demo_tserver_ok _ _ this j h] show ?thesis using j by auto
qed

theorem publish_reaches_async_subscriber_witness:
  "\<exists>t' th' a'. t_exec (TServe demo_io) (demo_tserver [demo_write]) = Some t'
     \<and> map_of (t_ClientThreads t') ''nav'' = Some th'
     \<and> DoReading (fst (WriteStep True th')) 6 demo_aclient = Inr (True, a')
     \<and> (\<exists>x \<in> set (fst (snd (Fetch [] (a_Base a')))). m_sKey x = ''X'' \<and> m_dfVal x = 8 \<and> m_sSrc x = ''gps'')"
proof -
  let ?t = "demo_tserver [demo_write]"
  have p: "payload [demo_write] = [] @ demo_write # []"
    by (simp add: payload_def IsType_def)
  have d: "delivered_to demo_write demo_db ''nav''"
    by (simp add: delivered_to_def accepted_def due_def seen_var_def current_var_def made_var_def first_write_def
        demo_var_def new_var_def Expired_def)
  obtain t' th' Ms where s: "t_exec (TServe demo_io) ?t = Some t'" "map_of (t_ClientThreads t') ''nav'' = Some th'"
      and w: "fst (WriteStep True th') = Some Ms" "Ms \<noteq> []"
    using push_delivery [OF demo_tserver_ok, where SD = "demo_pkt [demo_write]" and b = "''nav''" and th = demo_nav and io = demo_io,
      OF _ _ _ _ p _ _ _ _ refl] d
    by (force simp: demo_ok process_all_def demo_nav_def WriteStep_def outgoing_pkt_def)
  obtain a' where r: "DoReading (fst (WriteStep True th')) 6 demo_aclient = Inr (True, a')"
    using reading_ok [of demo_aclient Ms 6] w by auto
  have "True \<and> (\<exists>x \<in> set (fst (snd (Fetch [] (a_Base a')))). IsType x MOOS_NOTIFY \<and> m_sKey x = m_sKey demo_write
     \<and> m_cDataType x = m_cDataType demo_write \<and> m_dfVal x = m_dfVal demo_write \<and> m_sVal x = m_sVal demo_write
     \<and> m_dfTime x = m_dfTime demo_write \<and> m_sSrc x = m_sSrc demo_write \<and> m_sSrcAux x = m_sSrcAux demo_write)"
    by (rule publish_reaches_async_subscriber [OF demo_tserver_ok, where SD = "demo_pkt [demo_write]" and b = "''nav''"
          and th = demo_nav and io = demo_io, OF _ _ _ _ p _ _ _ _ _ _ _ _ s _ _ _ r])
      (simp_all add: demo_ok d process_all_def demo_nav_def)
  moreover have "m_dfVal demo_write = 8" "m_sSrc demo_write = ''gps''" by (simp_all add: demo_write_def msg_double_def)
  ultimately show ?thesis using s r by (metis demo_msg_frame(5))
qed

end
