(* ===== verification/Moos_AppExamples.thy ===== *)
theory Moos_AppExamples
  imports Moos_AppSystem Moos_ConfigExamples Moos_ThreadedExamples
begin

text \<open>
  The properties of applications at small examples: an application that collects its mail, the
  client of \<open>Moos_ThreadedExamples\<close> and the mission file of \<open>Moos_ConfigExamples\<close>.
\<close>

section \<open>An application that collects its mail\<close>

definition collect :: "moos_msg list hooks" where
  "collect = default_hooks\<lparr>k_OnNewMail := (\<lambda>mail A. (True, A\<lparr>p_user := p_user A @ mail\<rparr>)),
     k_OnCommandMsg := (\<lambda>m A. (True, A))\<rparr>"

definition collect_commands :: "moos_msg list hooks" where
  "collect_commands = default_hooks\<lparr>k_OnCommandMsg := (\<lambda>m A. (True, A\<lparr>p_user := p_user A @ [m]\<rparr>))\<rparr>"

lemma collect_mail_only: "mail_only collect (\<lambda>mail u. u @ mail)"
  by (simp add: mail_only_def collect_def default_hooks_def)

definition demo_app :: "moos_msg list app" where
  "demo_app = (new_app [])\<lparr>p_Comms := demo_aclient\<rparr>"

lemma demo_app_frame [simp]:
  "p_Comms demo_app = demo_aclient" "p_bUseMOOSComms demo_app" "p_user demo_app = []"
  "p_bSortMailByTime demo_app" "p_bQuitRequested demo_app = False" "p_dfFreq demo_app = 5"
  "p_IterationMode demo_app = REGULAR_ITERATE_AND_MAIL" "p_dfLastRunTime demo_app = -1"
  "p_sAppName demo_app = []" "p_MOOSVars demo_app = []"
  by (simp_all add: demo_app_def new_app_def DEFAULT_MOOS_APP_FREQ_def)

definition demo_turn :: turn where
  "demo_turn = \<lparr>t_now = 0, t_woken = False, t_later = 0, t_during = id, t_start = 1,
     t_status = (0, 0, 0, 0), t_procs = []\<rparr>"

text \<open>Two messages that came in the wrong order.\<close>

definition late :: moos_msg where "late = msg_double MOOS_NOTIFY ''X'' 1 7 7"
definition early :: moos_msg where "early = msg_double MOOS_NOTIFY ''Y'' 2 3 3"

lemma collect_keeps_client: "keeps_client collect"
  by (simp add: keeps_client_def collect_def default_hooks_def app_view_def Let_def)

text \<open>Two packets before the first turn, none before the second and one before the third.\<close>

definition three_turns :: "(turn \<times> (moos_msg list \<times> real) list) list" where
  "three_turns = [(demo_turn, [([timing_msg 8, late], 8), ([early], 9)]), (demo_turn, []), (demo_turn, [([late], 10)])]"

theorem mail_handed_over_witness:
  "p_user (after_turns collect (turns_with three_turns) demo_app) = [early, late, late]"
proof -
  have "sort_key m_dfTime [late, early] = [early, late]"
    by (simp add: late_def early_def msg_double_def)
  moreover have n: "\<not> IsNullMsg late" "\<not> IsNullMsg early" "\<not> IsType late MOOS_TIMING" "\<not> IsType early MOOS_TIMING"
      "IsType (timing_msg 8) MOOS_TIMING"
    by (simp_all add: late_def early_def IsNullMsg_def IsType_def msg_double_def timing_msg_def)
  moreover have "drained demo_app"
    by (simp add: drained_def unrouted_def demo_client_def RunClient_def new_client_def)
  moreover have "\<forall>(t, ps) \<in> set three_turns. (\<forall>(p, rx) \<in> set ps. p \<noteq> [] \<and> \<not> IsType (hd p) MOOS_NULL_MSG)
      \<and> length (concat (map fst ps)) \<le> c_nInPendingLimit (a_Base (p_Comms demo_app))"
    by (simp add: three_turns_def demo_client_def RunClient_def new_client_def timing_msg_def late_def early_def IsType_def msg_double_def)
  ultimately show ?thesis
    using mail_handed_over [OF collect_mail_only collect_keeps_client, of demo_app three_turns]
    by (simp add: three_turns_def turn_mail_def packet_mail_def sorted_mail_def)
qed

theorem publish_reaches_application_witness:
  "\<exists>t' th' a' mail. t_exec (TServe demo_io) (demo_tserver [demo_write]) = Some t'
     \<and> map_of (t_ClientThreads t') ''nav'' = Some th'
     \<and> DoReading (fst (WriteStep True th')) 6 demo_aclient = Inr (True, a')
     \<and> p_user (snd (DoRunWork collect (demo_turn\<lparr>t_during := (\<lambda>_. a')\<rparr>) demo_app)) = mail
     \<and> (\<exists>x \<in> set mail. m_sKey x = ''X'' \<and> m_dfVal x = 8 \<and> m_sSrc x = ''gps'')"
proof -
  let ?t = "demo_tserver [demo_write]"
  have p: "payload [demo_write] = [] @ demo_write # []"
    by (simp add: payload_def IsType_def)
  have d: "delivered_to demo_write demo_db ''nav''"
    by (simp add: delivered_to_def accepted_def due_def seen_var_def current_var_def made_var_def first_write_def
        demo_var_def new_var_def Expired_def)
  obtain t' th' Ms where s: "t_exec (TServe demo_io) ?t = Some t'" "map_of (t_ClientThreads t') ''nav'' = Some th'"
      and w: "fst (WriteStep True th') = Some Ms" "Ms \<noteq> []"
    using push_delivery [OF demo_tserver_ok, where SD = "demo_pkt [demo_write]" and b = "''nav''" and th = demo_nav and io = demo_io,
      OF _ _ _ _ p _ _ _ _ refl] d
    by (force simp: demo_ok process_all_def demo_nav_def WriteStep_def outgoing_pkt_def)
  obtain a' where r: "DoReading (fst (WriteStep True th')) 6 demo_aclient = Inr (True, a')"
    using reading_ok [of demo_aclient Ms 6] w by auto
  have r': "DoReading (fst (WriteStep True th')) 6 (p_Comms demo_app) = Inr (True, a')" using r by simp
  let ?u = "p_user (snd (DoRunWork collect (demo_turn\<lparr>t_during := (\<lambda>_. a')\<rparr>) demo_app))"
  have "\<exists>mail. ?u = p_user demo_app @ mail
     \<and> (\<exists>x \<in> set mail. IsType x MOOS_NOTIFY \<and> m_sKey x = m_sKey demo_write
     \<and> m_cDataType x = m_cDataType demo_write \<and> m_dfVal x = m_dfVal demo_write \<and> m_sVal x = m_sVal demo_write
     \<and> m_dfTime x = m_dfTime demo_write \<and> m_sSrc x = m_sSrc demo_write \<and> m_sSrcAux x = m_sSrcAux demo_write)"
    by (rule publish_reaches_application [OF demo_tserver_ok, where SD = "demo_pkt [demo_write]" and b = "''nav''"
          and th = demo_nav and io = demo_io and see = "\<lambda>mail u. u @ mail",
          OF _ _ _ _ p _ _ _ _ _ _ _ _ s _ _ _ r' _ collect_mail_only])
      (simp_all add: demo_ok d process_all_def demo_nav_def)
  then obtain x where x: "x \<in> set ?u" "m_sKey x = m_sKey demo_write" "m_dfVal x = m_dfVal demo_write"
      "m_sSrc x = m_sSrc demo_write"
    by auto
  have v: "m_sKey demo_write = ''X''" "m_dfVal demo_write = 8" "m_sSrc demo_write = ''gps''"
    by (simp_all add: demo_write_def msg_double_def)
  show ?thesis
    by (intro exI conjI, rule s(1), rule s(2), rule r, rule refl, intro bexI [OF _ x(1)]) (simp add: x v)
qed

section \<open>Sleeping and stopping\<close>

definition paced :: "moos_msg list app" where
  "paced = demo_app\<lparr>p_dfLastRunTime := 0\<rparr>"

lemma paced_sleep: "SleepAsRequired (demo_turn\<lparr>t_now := 1 / 20\<rparr>) paced = (True, [150])"
  by (simp add: SleepAsRequired_def paced_def demo_turn_def trunc_def)

theorem app_rate_witness:
  "SleepAsRequired (demo_turn\<lparr>t_now := 1 / 20\<rparr>) paced = (True, [150])
   \<and> (1 / 5 - 2 / 1000 :: real) < 1"
  using app_rate [of paced "demo_turn\<lparr>t_now := 1 / 20\<rparr>"] paced_sleep
  by (simp add: paced_def demo_turn_def)

theorem pause_bounds_witness:
  "150 \<in> set (snd (SleepAsRequired (demo_turn\<lparr>t_now := 1 / 20\<rparr>) paced)) \<and> 0 < (150 :: int)
   \<and> (real_of_int 150 \<le> 1000 / p_dfFreq paced \<or> p_IterationMode paced = COMMS_DRIVEN_ITERATE_AND_MAIL
      \<and> real_of_int 150 \<le> 1000 / p_dfMaxAppTick paced)"
proof -
  have i: "150 \<in> set (snd (SleepAsRequired (demo_turn\<lparr>t_now := 1 / 20\<rparr>) paced))"
    by (simp add: paced_sleep)
  from pause_bounds [OF i] show ?thesis using i by (simp add: paced_def demo_turn_def)
qed









definition pNav :: "moos_msg list app" where
  "pNav = demo_app\<lparr>p_sAppName := ''pNav'', p_bCommandMessageFiltering := True\<rparr>"

theorem commands_handled_witness:
  "p_user (OnNewMailPrivate collect_commands [late\<lparr>m_sKey := ''pnav_cmd''\<rparr>, early] pNav) = [late\<lparr>m_sKey := ''pnav_cmd''\<rparr>]
   \<and> fst (LookForAndHandleAppCommand collect_commands [late\<lparr>m_sKey := ''pnav_cmd''\<rparr>, early] pNav)"
proof -
  have "\<And>m A. fst (k_OnCommandMsg collect_commands m A) = (\<lambda>_. True) m
      \<and> p_user (snd (k_OnCommandMsg collect_commands m A)) = (\<lambda>m u. u @ [m]) m (p_user A)
      \<and> p_sAppName (snd (k_OnCommandMsg collect_commands m A)) = p_sAppName A"
    by (simp add: collect_commands_def)
  from commands_handled [OF this, where ms = "[late\<lparr>m_sKey := ''pnav_cmd''\<rparr>, early]" and A = pNav]
  have c: "p_user (OnNewMailPrivate collect_commands [late\<lparr>m_sKey := ''pnav_cmd''\<rparr>, early] pNav) =
      fold (\<lambda>m u. u @ [m]) (filter (names_command ''pNav'' \<circ> m_sKey) [late\<lparr>m_sKey := ''pnav_cmd''\<rparr>, early]) []
    \<and> fst (LookForAndHandleAppCommand collect_commands [late\<lparr>m_sKey := ''pnav_cmd''\<rparr>, early] pNav)"
    by (simp add: pNav_def)
  have "MOOSToUpper (''pNav'' @ ''_CMD'') = ''PNAV_CMD''" by code_simp
  then have "GetCommandKey pNav = ''PNAV_CMD''" by (simp add: GetCommandKey_def pNav_def)
  moreover have "MOOSStrCmp ''pnav_cmd'' ''PNAV_CMD''" "\<not> MOOSStrCmp ''Y'' ''PNAV_CMD''" by code_simp+
  ultimately have "names_command ''pNav'' ''pnav_cmd''" "\<not> names_command ''pNav'' ''Y''"
    using command_key [of _ pNav] by (auto simp: pNav_def)
  moreover have "m_sKey early = ''Y''" by (simp add: early_def msg_double_def)
  ultimately show ?thesis using c by simp
qed

section \<open>Variables\<close>

definition depth :: moos_variable where
  "depth = SetVarDouble 12 3 (new_variable ''Depth'' [] ''NAV_DEPTH'' 0)"

definition with_depth :: "moos_msg list app \<Rightarrow> moos_msg list app" where
  "with_depth A = A\<lparr>p_MOOSVars := [(''Depth'', depth)]\<rparr>"

lemma demo_connected [simp]: "c_bConnected demo_client" "c_OutBox demo_client = []"
  using demo_aclient_frame(4) by (simp_all add: idle_box_def demo_client_def)

theorem fresh_published_witness:
  "\<exists>new. a_OutGoingQueue (p_Comms (PublishFreshMOOSVariables 5 (with_depth demo_app))) = new
     \<and> map content new = [(MOOS_NOTIFY, MOOS_DOUBLE, ''NAV_DEPTH'', 12, [], 3)]"
proof -
  have "c_bConnected (a_Base (p_Comms (with_depth demo_app)))" "idle_box (p_Comms (with_depth demo_app))"
    "length (a_OutGoingQueue (p_Comms (with_depth demo_app))) + length (p_MOOSVars (with_depth demo_app)) \<le> 2048"
    by (simp_all add: with_depth_def)
  from fresh_published [OF this, of 5] show ?thesis
    by (simp add: with_depth_def depth_def SetVarDouble_def new_variable_def var_msg_def content_def
        msg_double_def new_msg_def c_str_def)
qed

theorem fresh_lost_witness:
  "a_OutGoingQueue (p_Comms (PublishFreshMOOSVariables 5 (with_depth (new_app [])))) = []
   \<and> v_bFresh depth"
  using fresh_lost [of "with_depth (new_app [])" 5]
  by (simp add: with_depth_def new_app_def new_aclient_def new_client_def depth_def SetVarDouble_def)

theorem no_wait_for_outbox_witness:
  "\<not> HasUnsent (publish_var 5 depth demo_app)"
  using no_wait_for_outbox [of demo_app 5 depth] by simp

section \<open>Configuring\<close>

definition nav_app :: "moos_msg list app" where
  "nav_app = demo_app\<lparr>p_sAppName := ''pNav'', p_sMissionFile := ''m.moos'',
     p_MissionReader := new_config_reader\<lparr>c_sAppName := ''pNav''\<rparr>\<rparr>"

definition mission_env :: env where
  "mission_env = \<lparr>e_host = mission_host mission_text, e_junk_real = 0, e_junk_int = 0\<rparr>"

lemma nav_no_file: "no_file (e_host mission_env) (c_file (p_MissionReader nav_app))"
  by (simp add: no_file_def nav_app_def new_config_reader_def new_file_reader_def)

theorem configure_returns_witness: "\<exists>A'. Configure mission_env nav_app = Some A'"
proof -
  have "lines_fit mission_text" by code_simp
  then have "\<forall>w. h_disk (e_host mission_env) (c_str (p_sMissionFile nav_app)) = Some w \<longrightarrow> lines_fit w"
    by (auto simp: mission_env_def mission_host_def split: if_splits)
  with configure_returns [OF nav_no_file] show ?thesis by blast
qed

definition tick_line :: command_line where
  "tick_line = Some \<lparr>gp_search = (\<lambda>_. False), gp_names = [''--moos_app_tick''],
     gp_string = (\<lambda>_ d. d), gp_real = (\<lambda>_ d. 7), gp_int = (\<lambda>_ d. d), gp_follow_string = (\<lambda>_ d. d),
     gp_follow_real = (\<lambda>_ d. d), gp_follow_int = (\<lambda>_ d. d), gp_nominus = []\<rparr>"

text \<open>The command line says 7, the mission file 10.\<close>

theorem tick_precedence_witness:
  "command_double mission_env ''moos_app_tick'' (nav_app\<lparr>p_CommandLine := tick_line\<rparr>) = Some 7
   \<and> (\<exists>A'. configure_tick mission_env (nav_app\<lparr>p_CommandLine := tick_line,
        p_MissionReader := mission_reader\<lparr>c_sAppName := ''pNav''\<rparr>\<rparr>) = Some A' \<and> p_dfFreq A' = 10)"
proof -
  let ?C = "mission_reader\<lparr>c_sAppName := ''pNav''\<rparr>"
  let ?A = "nav_app\<lparr>p_CommandLine := tick_line, p_MissionReader := ?C\<rparr>"
  have fit: "lines_fit mission_text" by code_simp
  have r: "ready (mission_host mission_text) mission_text (c_file ?C)" using mission_ready by simp
  then have s: "settled (e_host mission_env) (c_file (p_MissionReader ?A))"
    using fit by (auto simp: settled_def mission_env_def)
  have "lookup_param ''APPTICK'' mission_params = Some ''10''" by code_simp
  with param_read_lemma [OF r [unfolded mission_text_def] mission_ok gap_Nil gap_Nil mission_params_ok
      mission_heads(2,1), of "''APPTICK''"]
  have "file_param (e_host mission_env) ''APPTICK'' ?C = Some ''10''"
    by (auto simp: file_param_def GetConfigurationParam_def mission_env_def mission_text_def)
  moreover have "param_double ''10'' = Some 10"
  proof -
    have "take_sign ''10'' = (1, ''10'')" "dropWhile isspace ''10'' = ''10''" "takeWhile isdigit ''10'' = ''10''"
      "dropWhile isdigit ''10'' = []" "nat_of_digits ''10'' = 10" "isdigit CHR ''1''" by code_simp+
    then show ?thesis by (simp add: param_double_def atof_def strtod_def)
  qed
  moreover have "command_double mission_env ''moos_app_tick'' (nav_app\<lparr>p_CommandLine := tick_line\<rparr>) = Some 7"
    by (simp add: command_double_def GetVariable_double_def get_variable_def tick_line_def CommandLineVariableExists_def)
  ultimately show ?thesis using tick_precedence [OF s] by simp
qed

theorem quiet_ignored_witness:
  "\<exists>A'. configure_files mission_env nav_app = Some A' \<and> \<not> p_bQuiet A'"
proof -
  have "lines_fit mission_text" by code_simp
  then have f: "\<forall>w. h_disk (e_host mission_env) (c_str (p_sMissionFile nav_app)) = Some w \<longrightarrow> lines_fit w"
    by (auto simp: mission_env_def mission_host_def split: if_splits)
  obtain A' where c: "configure_files mission_env nav_app = Some A'"
    using files_returns [OF nav_no_file f] by (auto simp: returns_def)
  from quiet_ignored [OF nav_no_file c] have "\<not> p_bQuiet A'"
    by (simp add: nav_app_def demo_app_def new_app_def GetFlag_def)
  with c show ?thesis by blast
qed

end
