(* ===== verification/Moos_Skew.thy ===== *)
theory Moos_Skew
  imports Moos_Prelude
begin

text \<open>
  The filter that tracks the drift between the clock of a client and the one of the server
  (\<open>Comms/MOOSSkewFilter.cpp\<close> and its header).

  \<^item> \<open>envelope\<close> is \<open>CConvexEnvelope\<close>: the deque of segments of the convex envelope of the
    measurements, with the index and the length of the longest.
  \<^item> \<open>skew_filter\<close> is \<open>CMOOSSkewFilter\<close> with a lower and an upper envelope, \<open>conditioned\<close> the
    wrapper \<open>CMOOSConditionedSkewFilter\<close>.
  \<^item> Doubles are reals; the counters of measurements do not wrap.
  \<^item> \<open>CropFrontBefore\<close> may loop for ever: \<open>None\<close>.
\<close>

section \<open>Segments\<close>

record tpt =
  pt_x :: real
  pt_y :: real

record tseg =
  sg_dfPeriod :: real
  sg_dfM :: real
  sg_dfC :: real
  sg_p1 :: tpt
  sg_p2 :: tpt

datatype direction = envelopeAbove | envelopeBelow

record envelope =
  en_segs :: "tseg list"
  en_bHaveInitPt :: bool
  en_InitPt :: tpt
  en_uiLongestSegID :: nat
  en_dfLongestSegLen :: real
  en_aboveOrBelow :: direction
  en_nMeas :: nat

definition new_envelope :: "direction \<Rightarrow> envelope" where
  "new_envelope d =
     \<lparr>en_segs = [], en_bHaveInitPt = False, en_InitPt = \<lparr>pt_x = 0, pt_y = 0\<rparr>,
      en_uiLongestSegID = 0, en_dfLongestSegLen = 0, en_aboveOrBelow = d, en_nMeas = 0\<rparr>"

definition IsStable :: "envelope \<Rightarrow> bool" where
  "IsStable e \<longleftrightarrow> en_nMeas e > 50"

definition ResetEnvelope :: "envelope \<Rightarrow> envelope" where
  "ResetEnvelope e = new_envelope (en_aboveOrBelow e)"

definition GetLongestSeg :: "envelope \<Rightarrow> tseg option" where
  "GetLongestSeg e =
     (if length (en_segs e) < 1 then None
      else if en_uiLongestSegID e \<ge> length (en_segs e) then None
      else Some (en_segs e ! en_uiLongestSegID e))"

text \<open>The pair of the slope and the intersect.\<close>

definition GetLineEstimate :: "envelope \<Rightarrow> real \<times> real" where
  "GetLineEstimate e =
     (case GetLongestSeg e of
        Some g \<Rightarrow> (sg_dfM g, sg_dfC g)
      | None \<Rightarrow> (0, pt_y (en_InitPt e)))"

definition GetLineParams :: "tpt \<Rightarrow> tpt \<Rightarrow> (real \<times> real) option" where
  "GetLineParams p1 p2 =
     (if pt_x p1 = pt_x p2 then None
      else let M = (pt_y p2 - pt_y p1) / (pt_x p2 - pt_x p1)
           in Some (M, pt_y p2 - M * pt_x p2))"

definition MakeSeg :: "tpt \<Rightarrow> tpt \<Rightarrow> tseg option" where
  "MakeSeg p1 p2 =
     (case GetLineParams p1 p2 of
        None \<Rightarrow> None
      | Some (M, C) \<Rightarrow>
          Some \<lparr>sg_dfPeriod = \<bar>pt_x p2 - pt_x p1\<bar>, sg_dfM = M, sg_dfC = C, sg_p1 = p1, sg_p2 = p2\<rparr>)"

definition AppendSeg :: "tseg \<Rightarrow> envelope \<Rightarrow> envelope" where
  "AppendSeg g e =
     (let e = e\<lparr>en_segs := en_segs e @ [g]\<rparr>
      in case GetLongestSeg e of
           Some longest \<Rightarrow>
             (if sg_dfPeriod longest < sg_dfPeriod g
              then e\<lparr>en_uiLongestSegID := length (en_segs e) - 1, en_dfLongestSegLen := sg_dfPeriod g\<rparr>
              else e)
         | None \<Rightarrow> e\<lparr>en_uiLongestSegID := 0, en_dfLongestSegLen := sg_dfPeriod g\<rparr>)"

text \<open>The last segment turns back towards the one before: the two may not be merged.\<close>

definition turns :: "direction \<Rightarrow> tseg \<Rightarrow> tseg \<Rightarrow> bool" where
  "turns d seg1 seg2 \<longleftrightarrow>
     (case d of envelopeAbove \<Rightarrow> sg_dfM seg2 < sg_dfM seg1 | envelopeBelow \<Rightarrow> sg_dfM seg2 > sg_dfM seg1)"

definition MergeLastSeg :: "envelope \<Rightarrow> bool \<times> envelope" where
  "MergeLastSeg e =
     (case rev (en_segs e) of
        seg2 # seg1 # rest \<Rightarrow>
          (if turns (en_aboveOrBelow e) seg1 seg2 then (False, e)
           else let e = (if en_uiLongestSegID e \<ge> length (en_segs e) - 1
                         then e\<lparr>en_dfLongestSegLen := 0\<rparr> else e)
                in case MakeSeg (sg_p1 seg1) (sg_p2 seg2) of
                     None \<Rightarrow> (False, e)
                   | Some g \<Rightarrow>
                       (let g = g\<lparr>sg_dfPeriod := sg_dfPeriod seg1 + sg_dfPeriod seg2\<rparr>;
                            e = e\<lparr>en_segs := rev rest @ [g]\<rparr>
                        in (True, if sg_dfPeriod g > en_dfLongestSegLen e
                                  then e\<lparr>en_uiLongestSegID := length (en_segs e) - 1,
                                         en_dfLongestSegLen := sg_dfPeriod g\<rparr>
                                  else e)))
      | _ \<Rightarrow> (False, e))"

lemma MergeLastSeg_shorter:
  assumes "MergeLastSeg e = (True, e')"
  shows "length (en_segs e') < length (en_segs e)"
proof -
  obtain g2 g1 r where "rev (en_segs e) = g2 # g1 # r"
    using assms by (auto simp: MergeLastSeg_def split: list.splits)
  then have s: "en_segs e = rev r @ [g1, g2]" using rev_swap by fastforce
  from assms show ?thesis
    by (auto simp: MergeLastSeg_def s Let_def split: option.splits if_splits)
qed

text \<open>The loop of \<open>AddPoint\<close>.\<close>

function merge_segs :: "envelope \<Rightarrow> envelope" where
  "merge_segs e =
     (if length (en_segs e) > 1
      then (let (bMerged, e') = MergeLastSeg e in if bMerged then merge_segs e' else e')
      else e)"
  by auto
termination
  by (relation "measure (\<lambda>e. length (en_segs e))") (auto simp: MergeLastSeg_shorter)

declare merge_segs.simps [simp del]

definition AddPoint :: "real \<Rightarrow> real \<Rightarrow> envelope \<Rightarrow> bool \<times> envelope" where
  "AddPoint x y e =
     (let pt = \<lparr>pt_x = x, pt_y = y\<rparr>
      in if en_segs e = [] \<and> \<not> en_bHaveInitPt e
         then (True, e\<lparr>en_InitPt := pt, en_bHaveInitPt := True\<rparr>)
         else if \<not> en_bHaveInitPt e then (False, e)
         else case MakeSeg (en_InitPt e) pt of
                None \<Rightarrow> (False, e)
              | Some g \<Rightarrow>
                  (let e = merge_segs (AppendSeg g e)
                   in (True, e\<lparr>en_InitPt := pt, en_nMeas := en_nMeas e + 1\<rparr>)))"

partial_function (option) CropFrontBefore :: "real \<Rightarrow> envelope \<Rightarrow> envelope option" where
  "CropFrontBefore x_min e =
     (if length (en_segs e) > 0 \<and> en_uiLongestSegID e > 0
      then (if pt_x (sg_p2 (hd (en_segs e))) < x_min
            then CropFrontBefore x_min
                   (e\<lparr>en_segs := tl (en_segs e), en_uiLongestSegID := en_uiLongestSegID e - 1\<rparr>)
            else CropFrontBefore x_min e)
      else Some e)"

declare CropFrontBefore.simps [code]

section \<open>The filter\<close>

record skew_filter =
  sk_LowerBound :: envelope
  sk_UpperBound :: envelope
  sk_dfLastVal :: real
  sk_dfLastTime :: real
  sk_nMeas :: nat

record skew_info =
  si_m :: real
  si_c :: real
  si_LB :: real
  si_UB :: real
  si_envLB :: real
  si_envUB :: real
  si_envEst :: real
  si_filtEst :: real

definition new_skew_filter :: skew_filter where
  "new_skew_filter =
     \<lparr>sk_LowerBound = new_envelope envelopeAbove, sk_UpperBound = new_envelope envelopeBelow,
      sk_dfLastVal = 0, sk_dfLastTime = 0, sk_nMeas = 0\<rparr>"

definition ResetSkewFilter :: "skew_filter \<Rightarrow> skew_filter" where
  "ResetSkewFilter f =
     \<lparr>sk_LowerBound = ResetEnvelope (sk_LowerBound f), sk_UpperBound = ResetEnvelope (sk_UpperBound f),
      sk_dfLastVal = 0, sk_dfLastTime = 0, sk_nMeas = 0\<rparr>"

definition line_at :: "real \<times> real \<Rightarrow> real \<Rightarrow> real" where
  "line_at l dfTime = fst l * dfTime + snd l"

definition GetLBSkewAtServerTime :: "real \<Rightarrow> skew_filter \<Rightarrow> real" where
  "GetLBSkewAtServerTime dfTime f = line_at (GetLineEstimate (sk_LowerBound f)) dfTime"

definition GetUBSkewAtServerTime :: "real \<Rightarrow> skew_filter \<Rightarrow> real" where
  "GetUBSkewAtServerTime dfTime f = line_at (GetLineEstimate (sk_UpperBound f)) dfTime"

definition GetMidLine :: "skew_filter \<Rightarrow> real \<times> real" where
  "GetMidLine f =
     (let (m1, c1) = GetLineEstimate (sk_LowerBound f); (m2, c2) = GetLineEstimate (sk_UpperBound f)
      in ((m1 + m2) / 2, (c1 + c2) / 2))"

definition GetSkewAtServerTime :: "real \<Rightarrow> skew_filter \<Rightarrow> real" where
  "GetSkewAtServerTime dfTime f = line_at (GetMidLine f) dfTime"

definition GetSkewAtLocalTime :: "real \<Rightarrow> skew_filter \<Rightarrow> real option" where
  "GetSkewAtLocalTime dfTime f =
     (let (m, c) = GetMidLine f in if m \<ge> 1 then None else Some ((m * dfTime + c) / (1 - m)))"

definition SmoothingFilter :: "real \<Rightarrow> real \<Rightarrow> real \<Rightarrow> real \<Rightarrow> real" where
  "SmoothingFilter dfDT dfOldFilterVal dfNewMeas dfGradient =
     (let pred = dfOldFilterVal + dfGradient * dfDT; innov = dfNewMeas - pred
      in pred + 1 / 1000 * innov)"

definition push_point :: "real \<Rightarrow> real \<Rightarrow> envelope \<Rightarrow> envelope" where
  "push_point x y e = (let (ok, e) = AddPoint x y e in if ok then e else ResetEnvelope e)"

definition UpdateEnvelopes :: "real \<Rightarrow> real \<Rightarrow> real \<Rightarrow> skew_filter \<Rightarrow> skew_filter" where
  "UpdateEnvelopes dfTXtime dfSkewLB dfSkewUB f =
     f\<lparr>sk_LowerBound := push_point dfTXtime dfSkewLB (sk_LowerBound f),
       sk_UpperBound := push_point dfTXtime dfSkewUB (sk_UpperBound f)\<rparr>"

text \<open>The estimate of the skew at the time of the measurement, with the line it rests on.\<close>

definition skew_estimate :: "real \<Rightarrow> real \<Rightarrow> real \<Rightarrow> skew_filter \<Rightarrow> real \<times> real \<times> real" where
  "skew_estimate dfTXtime dfSkewLB dfSkewUB f =
     (let dfEnvSkewLB = GetLBSkewAtServerTime dfTXtime f;
          dfEnvSkewUB = GetUBSkewAtServerTime dfTXtime f;
          dfSkew = (if sk_nMeas f < 10 then dfSkewLB else (dfSkewLB + dfSkewUB) / 2)
      in if IsStable (sk_LowerBound f)
         then (if IsStable (sk_UpperBound f) \<and> dfEnvSkewUB \<ge> dfEnvSkewLB
               then ((dfEnvSkewLB + dfEnvSkewUB) / 2, GetMidLine f)
               else (dfEnvSkewLB, GetLineEstimate (sk_LowerBound f)))
         else if IsStable (sk_UpperBound f)
         then (dfEnvSkewUB, GetLineEstimate (sk_UpperBound f))
         else (dfSkew, 0, dfSkew))"

definition crop_long :: "real \<Rightarrow> envelope \<Rightarrow> envelope option" where
  "crop_long x_min e = (if length (en_segs e) > 500 then CropFrontBefore x_min e else Some e)"

definition UpdateSkew ::
  "real \<Rightarrow> real \<Rightarrow> real \<Rightarrow> skew_filter \<Rightarrow> (real \<times> skew_info \<times> skew_filter) option" where
  "UpdateSkew dfRQtime dfTXtime dfRXtime f =
     (let dfSkewLB = dfTXtime - dfRXtime;
          dfSkewUB = dfTXtime - dfRQtime;
          f = UpdateEnvelopes dfTXtime dfSkewLB dfSkewUB f;
          (dfSkew, dfM, dfC) = skew_estimate dfTXtime dfSkewLB dfSkewUB f;
          dfFiltOut = (if sk_nMeas f > 0
                       then SmoothingFilter (dfTXtime - sk_dfLastTime f) (sk_dfLastVal f) dfSkew dfM
                       else dfSkew);
          info = \<lparr>si_m = dfM, si_c = dfC, si_LB = dfSkewLB, si_UB = dfSkewUB,
                  si_envLB = GetLBSkewAtServerTime dfTXtime f, si_envUB = GetUBSkewAtServerTime dfTXtime f,
                  si_envEst = dfSkew, si_filtEst = dfFiltOut\<rparr>
      in case crop_long (dfTXtime - 3600) (sk_LowerBound f) of
           None \<Rightarrow> None
         | Some lo \<Rightarrow>
             (case crop_long (dfTXtime - 3600) (sk_UpperBound f) of
                None \<Rightarrow> None
              | Some up \<Rightarrow>
                  Some (dfFiltOut, info,
                    f\<lparr>sk_LowerBound := lo, sk_UpperBound := up, sk_dfLastVal := dfFiltOut,
                      sk_dfLastTime := dfTXtime, sk_nMeas := sk_nMeas f + 1\<rparr>)))"

section \<open>The conditioned filter\<close>

record conditioned =
  cd_filter :: skew_filter
  cd_dfBeginTime :: real
  cd_dfSkewOffset :: real
  cd_dfRXOffset :: real

definition new_conditioned :: conditioned where
  "new_conditioned =
     \<lparr>cd_filter = new_skew_filter, cd_dfBeginTime = 0, cd_dfSkewOffset = 0, cd_dfRXOffset = 0\<rparr>"

definition ResetConditioned :: "conditioned \<Rightarrow> conditioned" where
  "ResetConditioned k =
     \<lparr>cd_filter = ResetSkewFilter (cd_filter k), cd_dfBeginTime = 0, cd_dfSkewOffset = 0,
      cd_dfRXOffset = 0\<rparr>"

definition UpdateConditioned ::
  "real \<Rightarrow> real \<Rightarrow> real \<Rightarrow> conditioned \<Rightarrow> (real \<times> skew_info \<times> conditioned) option" where
  "UpdateConditioned dfRQtime dfTXtime dfRXtime k =
     (let k = (if sk_nMeas (cd_filter k) = 0
               then k\<lparr>cd_dfBeginTime := dfRQtime, cd_dfSkewOffset := dfTXtime - dfRXtime,
                      cd_dfRXOffset := dfTXtime - dfRXtime - dfRQtime\<rparr>
               else k)
      in map_option
           (\<lambda>(dfSkew, info, f). (dfSkew - cd_dfSkewOffset k, info, k\<lparr>cd_filter := f\<rparr>))
           (UpdateSkew (dfRQtime + cd_dfRXOffset k) (dfTXtime - cd_dfBeginTime k)
              (dfRXtime + cd_dfRXOffset k) (cd_filter k)))"

end
