(* ===== verification/Moos_SkewProps.thy ===== *)
theory Moos_SkewProps
  imports Moos_Skew
begin

text \<open>
  What the envelopes of the skew filter are. A chain of segments that turns the same way all along
  bounds what it covers by each of its lines (\<open>chain_bounds\<close>); appending a segment and merging
  from the back keeps the measurements covered (\<open>merge_covered\<close>) and the index of the longest
  segment right. So the line the filter uses supports the measurements
  (\<open>envelope_supports\<close>). Cropping the front may not return (\<open>crop_returns\<close>), and the conditioned
  filter answers with twice the offset it takes off (\<open>conditioned_offset\<close>).
\<close>

section \<open>Lines\<close>

definition side :: "direction \<Rightarrow> real" where
  "side d = (case d of envelopeAbove \<Rightarrow> 1 | envelopeBelow \<Rightarrow> -1)"

lemma turns_iff: "turns d g h \<longleftrightarrow> side d * sg_dfM h < side d * sg_dfM g"
  by (cases d) (auto simp: turns_def side_def)

definition seg_line :: "tseg \<Rightarrow> real \<Rightarrow> real" where
  "seg_line g x = sg_dfM g * x + sg_dfC g"

definition seg_ok :: "tseg \<Rightarrow> bool" where
  "seg_ok g \<longleftrightarrow> pt_x (sg_p1 g) < pt_x (sg_p2 g) \<and> sg_dfPeriod g = pt_x (sg_p2 g) - pt_x (sg_p1 g)
     \<and> sg_dfM g = (pt_y (sg_p2 g) - pt_y (sg_p1 g)) / (pt_x (sg_p2 g) - pt_x (sg_p1 g))
     \<and> sg_dfC g = pt_y (sg_p2 g) - sg_dfM g * pt_x (sg_p2 g)"

lemma MakeSeg_ok:
  assumes "pt_x p < pt_x q"
  obtains g where "MakeSeg p q = Some g" "seg_ok g" "sg_p1 g = p" "sg_p2 g = q"
proof -
  let ?M = "(pt_y q - pt_y p) / (pt_x q - pt_x p)"
  let ?g = "\<lparr>sg_dfPeriod = \<bar>pt_x q - pt_x p\<bar>, sg_dfM = ?M, sg_dfC = pt_y q - ?M * pt_x q, sg_p1 = p, sg_p2 = q\<rparr>"
  have "MakeSeg p q = Some ?g" using assms by (simp add: MakeSeg_def GetLineParams_def Let_def)
  moreover have "seg_ok ?g" using assms by (simp add: seg_ok_def)
  ultimately show thesis by (rule that) simp_all
qed

lemma line_from_end:
  assumes "seg_ok g"
  shows "seg_line g x = pt_y (sg_p2 g) + sg_dfM g * (x - pt_x (sg_p2 g))"
proof -
  have "sg_dfC g = pt_y (sg_p2 g) - sg_dfM g * pt_x (sg_p2 g)" using assms by (simp add: seg_ok_def)
  then show ?thesis by (simp add: seg_line_def algebra_simps)
qed

lemma rise: "seg_ok g \<Longrightarrow> sg_dfM g * (pt_x (sg_p2 g) - pt_x (sg_p1 g)) = pt_y (sg_p2 g) - pt_y (sg_p1 g)"
  by (simp add: seg_ok_def)

lemma line_from_start:
  assumes "seg_ok g"
  shows "seg_line g x = pt_y (sg_p1 g) + sg_dfM g * (x - pt_x (sg_p1 g))"
  using line_from_end [OF assms, of x] rise [OF assms] by (simp add: algebra_simps)

section \<open>Chains\<close>

fun chain :: "tseg list \<Rightarrow> bool" where
  "chain [] = True"
| "chain [g] = seg_ok g"
| "chain (g # h # gs) = (seg_ok g \<and> sg_p2 g = sg_p1 h \<and> chain (h # gs))"

lemma chain_snoc:
  "chain (gs @ [g]) \<longleftrightarrow> chain gs \<and> seg_ok g \<and> (gs \<noteq> [] \<longrightarrow> sg_p2 (last gs) = sg_p1 g)"
  by (induction gs rule: chain.induct) auto

lemma chain_ok: "chain gs \<Longrightarrow> g \<in> set gs \<Longrightarrow> seg_ok g"
  by (induction gs rule: chain.induct) auto

lemma chain_start: "chain gs \<Longrightarrow> g \<in> set gs \<Longrightarrow> pt_x (sg_p1 (hd gs)) \<le> pt_x (sg_p1 g)"
  by (induction gs rule: chain.induct) (force simp: seg_ok_def)+

lemma chain_end:
  assumes "chain gs" and "g \<in> set gs"
  shows "pt_x (sg_p2 g) \<le> pt_x (sg_p2 (last gs))"
  using assms
proof (induction gs arbitrary: g rule: chain.induct)
  case (3 k h gs)
  have "pt_x (sg_p2 h) \<le> pt_x (sg_p2 (last (h # gs)))" using 3 by auto
  moreover have "pt_x (sg_p2 k) < pt_x (sg_p2 h)"
    using "3.prems"(1) chain_ok [of "h # gs" h] by (simp add: seg_ok_def)
  ultimately have "pt_x (sg_p2 k) \<le> pt_x (sg_p2 (last (h # gs)))" by linarith
  then show ?case using 3 by (cases "g = k") auto
qed auto

definition spans :: "tseg \<Rightarrow> real \<Rightarrow> bool" where
  "spans g x \<longleftrightarrow> pt_x (sg_p1 g) \<le> x \<and> x \<le> pt_x (sg_p2 g)"

lemma chain_spans:
  assumes "chain gs" and "gs \<noteq> []" and "pt_x (sg_p1 (hd gs)) \<le> x" and "x \<le> pt_x (sg_p2 (last gs))"
  shows "\<exists>g \<in> set gs. spans g x"
  using assms
proof (induction gs rule: chain.induct)
  case (3 g h gs)
  then show ?case by (cases "x \<le> pt_x (sg_p2 g)") (auto simp: spans_def)
qed (auto simp: spans_def)

text \<open>The slopes turn towards the measurements from one segment to the next.\<close>

definition bent :: "direction \<Rightarrow> tseg list \<Rightarrow> bool" where
  "bent d = sorted_wrt (turns d)"

lemma bent_simps [simp]:
  "bent d []" "bent d (g # gs) \<longleftrightarrow> (\<forall>h \<in> set gs. turns d g h) \<and> bent d gs"
  by (simp_all add: bent_def)

lemma bent_snoc: "bent d (gs @ [g]) \<longleftrightarrow> bent d gs \<and> (\<forall>h \<in> set gs. turns d h g)"
  by (simp add: bent_def sorted_wrt_append)

lemma line_before:
  assumes "chain (g # gs)" and "bent d (g # gs)" and "x \<le> pt_x (sg_p2 g)" and "h \<in> set gs"
  shows "side d * seg_line g x \<le> side d * seg_line h x"
  using assms
proof (induction gs arbitrary: g)
  case (Cons k gs)
  have ok: "seg_ok g" "seg_ok k" using Cons.prems(1) chain_ok by auto
  have k: "side d * seg_line g x \<le> side d * seg_line k x"
  proof -
    have "side d * sg_dfM g * (x - pt_x (sg_p2 g)) \<le> side d * sg_dfM k * (x - pt_x (sg_p2 g))"
      using Cons.prems(2,3) by (intro mult_right_mono_neg) (auto simp: turns_iff)
    then show ?thesis
      using Cons.prems(1) by (simp add: line_from_end [OF ok(1)] line_from_start [OF ok(2)] algebra_simps)
  qed
  show ?case
  proof (cases "h = k")
    case False
    have "pt_x (sg_p2 g) < pt_x (sg_p2 k)" using Cons.prems(1) ok by (simp add: seg_ok_def)
    with Cons False have "side d * seg_line k x \<le> side d * seg_line h x" by (intro Cons.IH) auto
    with k show ?thesis by linarith
  qed (use k in simp)
qed simp

lemma line_after:
  assumes "chain (g # k # gs)" and "turns d g k" and "pt_x (sg_p1 k) \<le> x"
  shows "side d * seg_line k x \<le> side d * seg_line g x"
proof -
  have ok: "seg_ok g" "seg_ok k" using assms(1) chain_ok by auto
  have "side d * sg_dfM k * (x - pt_x (sg_p1 k)) \<le> side d * sg_dfM g * (x - pt_x (sg_p1 k))"
    using assms(2,3) by (intro mult_right_mono) (auto simp: turns_iff)
  then show ?thesis
    using assms(1) by (simp add: line_from_end [OF ok(1)] line_from_start [OF ok(2)] algebra_simps)
qed

text \<open>Where a segment of a bent chain is, no line of another segment is beyond its own.\<close>

lemma chain_bounds:
  assumes "chain gs" and "bent d gs" and "j \<in> set gs" and "spans j x" and "h \<in> set gs"
  shows "side d * seg_line j x \<le> side d * seg_line h x"
  using assms
proof (induction gs arbitrary: h)
  case (Cons g gs)
  show ?case
  proof (cases "j = g")
    case True
    show ?thesis
    proof (cases "h = g")
      case False
      with Cons.prems True show ?thesis by (intro line_before) (auto simp: spans_def)
    qed (use True in simp)
  next
    case False
    then obtain k gs' where gs: "gs = k # gs'" using Cons.prems(3) by (cases gs) auto
    have tl: "chain gs" "bent d gs" "j \<in> set gs" using Cons.prems False gs by auto
    show ?thesis
    proof (cases "h = g")
      case True
      have "pt_x (sg_p1 k) \<le> x" using chain_start [OF tl(1,3)] Cons.prems(4) by (simp add: gs spans_def)
      then have "side d * seg_line k x \<le> side d * seg_line g x"
        using Cons.prems by (intro line_after [of g k gs']) (auto simp: gs)
      moreover have "side d * seg_line j x \<le> side d * seg_line k x"
        by (rule Cons.IH [OF tl Cons.prems(4)]) (simp add: gs)
      ultimately show ?thesis unfolding True by (rule order_trans [rotated])
    next
      case False
      with Cons.prems tl show ?thesis by (intro Cons.IH) auto
    qed
  qed
qed simp

section \<open>Covering the measurements\<close>

text \<open>A measurement is on the side of the envelope it bounds where a segment spans it.\<close>

definition covered :: "direction \<Rightarrow> tseg \<Rightarrow> (real \<times> real) set \<Rightarrow> bool" where
  "covered d g P \<longleftrightarrow> (\<forall>(x, y) \<in> P. spans g x \<longrightarrow> side d * y \<le> side d * seg_line g x)"

definition pt_of :: "real \<times> real \<Rightarrow> tpt" where
  "pt_of q = \<lparr>pt_x = fst q, pt_y = snd q\<rparr>"

lemma pt_of_simps [simp]: "pt_x (pt_of q) = fst q" "pt_y (pt_of q) = snd q"
  by (simp_all add: pt_of_def)

text \<open>Joining the ends of two segments that do not turn gives a segment between their slopes.\<close>

lemma joined_slope:
  assumes "seg_ok g" and "seg_ok h" and "sg_p2 g = sg_p1 h" and "seg_ok k"
    and "sg_p1 k = sg_p1 g" and "sg_p2 k = sg_p2 h" and "\<not> turns d g h"
  shows "side d * sg_dfM g \<le> side d * sg_dfM k" and "side d * sg_dfM k \<le> side d * sg_dfM h"
proof -
  let ?a = "pt_x (sg_p2 g) - pt_x (sg_p1 g)" and ?b = "pt_x (sg_p2 h) - pt_x (sg_p1 h)"
  let ?D = "side d * sg_dfM h - side d * sg_dfM g"
  have pos: "?a > 0" "?b > 0" using assms(1,2) by (auto simp: seg_ok_def)
  have e: "sg_dfM k * (?a + ?b) = sg_dfM g * ?a + sg_dfM h * ?b"
    using rise [OF assms(1)] rise [OF assms(2)] rise [OF assms(4)] assms(3,5,6) by simp
  have D: "?D \<ge> 0" using assms(7) by (simp add: turns_iff)
  have "(side d * sg_dfM k - side d * sg_dfM g) * (?a + ?b) = ?D * ?b"
    using arg_cong [OF e, of "(*) (side d)"] by (simp add: algebra_simps)
  moreover have "?D * ?b \<ge> 0" using D pos by simp
  ultimately show "side d * sg_dfM g \<le> side d * sg_dfM k"
    using pos by (metis add_pos_pos diff_ge_0_iff_ge not_le mult_neg_pos)
  have "(side d * sg_dfM h - side d * sg_dfM k) * (?a + ?b) = ?D * ?a"
    using arg_cong [OF e, of "(*) (side d)"] by (simp add: algebra_simps)
  moreover have "?D * ?a \<ge> 0" using D pos by simp
  ultimately show "side d * sg_dfM k \<le> side d * sg_dfM h"
    using pos by (metis add_pos_pos diff_ge_0_iff_ge not_le mult_neg_pos)
qed

lemma joined_covered:
  assumes "seg_ok g" and "seg_ok h" and "sg_p2 g = sg_p1 h" and "seg_ok k"
    and "sg_p1 k = sg_p1 g" and "sg_p2 k = sg_p2 h" and "\<not> turns d g h"
    and "covered d g P" and "covered d h P"
  shows "covered d k P"
  unfolding covered_def
proof (intro ballI, clarify)
  fix x y assume q: "(x, y) \<in> P" "spans k x"
  note M = joined_slope [OF assms(1-7)]
  show "side d * y \<le> side d * seg_line k x"
  proof (cases "x \<le> pt_x (sg_p2 g)")
    case True
    then have "spans g x" using q(2) assms(5) by (simp add: spans_def)
    then have "side d * y \<le> side d * seg_line g x" using q(1) assms(8) by (auto simp: covered_def)
    moreover have "side d * sg_dfM g * (x - pt_x (sg_p1 g)) \<le> side d * sg_dfM k * (x - pt_x (sg_p1 g))"
      using M(1) \<open>spans g x\<close> by (intro mult_right_mono) (auto simp: spans_def)
    ultimately show ?thesis
      by (simp add: line_from_start [OF assms(1)] line_from_start [OF assms(4)] assms(5) algebra_simps)
  next
    case False
    then have "spans h x" using q(2) assms(3,6) by (simp add: spans_def)
    then have "side d * y \<le> side d * seg_line h x" using q(1) assms(9) by (auto simp: covered_def)
    moreover have "side d * sg_dfM h * (x - pt_x (sg_p2 h)) \<le> side d * sg_dfM k * (x - pt_x (sg_p2 h))"
      using M(2) \<open>spans h x\<close> by (intro mult_right_mono_neg) (auto simp: spans_def)
    ultimately show ?thesis
      by (simp add: line_from_end [OF assms(2)] line_from_end [OF assms(4)] assms(6) algebra_simps)
  qed
qed

section \<open>The invariant of an envelope\<close>

text \<open>The index of the longest segment is one of a segment. The length kept with it may be less than
  the length of that segment: the first segment is compared with itself, so its length is never
  stored, and the index can then move to a segment that is not the longest
  (\<open>longest_missed\<close>).\<close>

definition longest_ok :: "envelope \<Rightarrow> bool" where
  "longest_ok e \<longleftrightarrow> en_segs e \<noteq> [] \<longrightarrow>
     en_uiLongestSegID e < length (en_segs e)
     \<and> en_dfLongestSegLen e \<le> sg_dfPeriod (en_segs e ! en_uiLongestSegID e)"

text \<open>An envelope in the middle of merging: all but the last segment are bent.\<close>

definition merging :: "(real \<times> real) list \<Rightarrow> envelope \<Rightarrow> bool" where
  "merging P e \<longleftrightarrow> en_segs e \<noteq> [] \<and> chain (en_segs e) \<and> bent (en_aboveOrBelow e) (butlast (en_segs e))
     \<and> (\<forall>g \<in> set (en_segs e). covered (en_aboveOrBelow e) g (set P) \<and> sg_p1 g \<in> pt_of ` set P)
     \<and> sg_p1 (hd (en_segs e)) = pt_of (hd P) \<and> sg_p2 (last (en_segs e)) = pt_of (last P) \<and> longest_ok e"

lemma longest_append:
  assumes "longest_ok e" and "en_segs e = [] \<longrightarrow> en_dfLongestSegLen e = 0" and "sg_dfPeriod g \<ge> 0"
  shows "longest_ok (AppendSeg g e)"
proof (cases "en_segs e = []")
  case True
  with assms show ?thesis by (auto simp: AppendSeg_def longest_ok_def GetLongestSeg_def Let_def)
next
  case False
  let ?i = "en_uiLongestSegID e"
  have i: "?i < length (en_segs e)" "en_dfLongestSegLen e \<le> sg_dfPeriod (en_segs e ! ?i)"
    using assms(1) False by (auto simp: longest_ok_def)
  then have "GetLongestSeg (e\<lparr>en_segs := en_segs e @ [g]\<rparr>) = Some (en_segs e ! ?i)"
    by (simp add: GetLongestSeg_def nth_append)
  with i show ?thesis by (simp add: AppendSeg_def longest_ok_def Let_def nth_append)
qed

lemma AppendSeg_frame [simp]:
  "en_segs (AppendSeg g e) = en_segs e @ [g]" "en_aboveOrBelow (AppendSeg g e) = en_aboveOrBelow e"
  "en_nMeas (AppendSeg g e) = en_nMeas e" "en_bHaveInitPt (AppendSeg g e) = en_bHaveInitPt e"
  by (simp_all add: AppendSeg_def Let_def split: option.split)

lemma MergeLastSeg_frame [simp]:
  "en_aboveOrBelow (snd (MergeLastSeg e)) = en_aboveOrBelow e"
  "en_nMeas (snd (MergeLastSeg e)) = en_nMeas e" "en_bHaveInitPt (snd (MergeLastSeg e)) = en_bHaveInitPt e"
  by (auto simp: MergeLastSeg_def Let_def split: list.splits option.splits)

text \<open>One merge: it turns, and nothing changes, or the last two segments become one.\<close>

lemma merged_longest:
  assumes "en_segs e = r @ [g, h]" "longest_ok e" "turns (en_aboveOrBelow e) g h = False"
    and k: "MakeSeg (sg_p1 g) (sg_p2 h) = Some k"
    and per: "sg_dfPeriod g + sg_dfPeriod h = sg_dfPeriod k" and pos: "sg_dfPeriod g > 0" "sg_dfPeriod h > 0"
  obtains e' where "MergeLastSeg e = (True, e')" "en_segs e' = r @ [k]" "en_aboveOrBelow e' = en_aboveOrBelow e"
    "longest_ok e'"
proof -
  let ?n = "length r" and ?i = "en_uiLongestSegID e"
  let ?e0 = "if ?i \<ge> ?n + 1 then e\<lparr>en_dfLongestSegLen := 0\<rparr> else e"
  define e' where "e' = (let e = ?e0\<lparr>en_segs := r @ [k]\<rparr>
      in if sg_dfPeriod k > en_dfLongestSegLen e
         then e\<lparr>en_uiLongestSegID := ?n, en_dfLongestSegLen := sg_dfPeriod k\<rparr> else e)"
  have kk: "k\<lparr>sg_dfPeriod := sg_dfPeriod g + sg_dfPeriod h\<rparr> = k" by (simp add: per)
  have "rev (en_segs e) = h # g # rev r" by (simp add: assms(1))
  then have ml: "MergeLastSeg e = (True, e')"
    using assms(3) by (simp add: MergeLastSeg_def Let_def k kk e'_def assms(1) per)
  have i: "?i < ?n + 2" "en_dfLongestSegLen e \<le> sg_dfPeriod ((r @ [g, h]) ! ?i)"
    using assms(2) by (auto simp: longest_ok_def assms(1))
  consider "?i < ?n" | "?i = ?n" | "?i = ?n + 1" using i(1) by linarith
  then have "longest_ok e'"
  proof cases
    case 1
    with i show ?thesis by (simp add: longest_ok_def e'_def Let_def nth_append)
  next
    case 2
    with i per pos show ?thesis by (simp add: longest_ok_def e'_def Let_def nth_append)
  next
    case 3
    with per pos show ?thesis by (simp add: longest_ok_def e'_def Let_def nth_append)
  qed
  then show thesis by (intro that [OF ml]) (simp_all add: e'_def Let_def)
qed

lemma merge_step:
  assumes "merging P e" and "length (en_segs e) > 1"
  obtains (turned) "MergeLastSeg e = (False, e)" "bent (en_aboveOrBelow e) (en_segs e)"
  | (merged) e' where "MergeLastSeg e = (True, e')" "merging P e'"
proof -
  obtain a h where a: "en_segs e = a @ [h]"
    using assms(2) by (cases "en_segs e" rule: rev_cases) auto
  then obtain r g where "a = r @ [g]"
    using assms(2) by (cases a rule: rev_cases) auto
  with a have s: "en_segs e = r @ [g, h]" by simp
  then have rv: "rev (en_segs e) = h # g # rev r" by simp
  let ?d = "en_aboveOrBelow e"
  have m: "chain (r @ [g, h])" "bent ?d (r @ [g])"
    "\<And>k. k \<in> set (r @ [g, h]) \<Longrightarrow> covered ?d k (set P) \<and> sg_p1 k \<in> pt_of ` set P"
    "sg_p1 (hd (r @ [g, h])) = pt_of (hd P)" "sg_p2 h = pt_of (last P)" "longest_ok e"
    using assms(1) by (auto simp: merging_def s butlast_append)
  have c: "chain (r @ [g])" "seg_ok g" "seg_ok h" "sg_p2 g = sg_p1 h"
    using m(1) chain_snoc [of "r @ [g]" h] chain_ok [OF m(1)] by auto
  show thesis
  proof (cases "turns ?d g h")
    case True
    have "\<forall>k \<in> set (r @ [g]). turns ?d k h"
      using m(2) True by (fastforce simp: bent_snoc turns_iff)
    then have "bent ?d (en_segs e)" using bent_snoc [of ?d "r @ [g]" h] m(2) by (simp add: s)
    then show thesis using True by (intro turned) (auto simp: MergeLastSeg_def rv)
  next
    case False
    have lt: "pt_x (sg_p1 g) < pt_x (sg_p2 h)" using c by (simp add: seg_ok_def)
    then obtain k where k: "MakeSeg (sg_p1 g) (sg_p2 h) = Some k" "seg_ok k"
      "sg_p1 k = sg_p1 g" "sg_p2 k = sg_p2 h"
      by (rule MakeSeg_ok)
    have per: "sg_dfPeriod g + sg_dfPeriod h = sg_dfPeriod k"
      using c k by (simp add: seg_ok_def)
    have pos: "sg_dfPeriod g > 0" "sg_dfPeriod h > 0" using c by (auto simp: seg_ok_def)
    obtain e' where ml: "MergeLastSeg e = (True, e')"
      and f: "en_segs e' = r @ [k]" "en_aboveOrBelow e' = ?d" and lo: "longest_ok e'"
      using merged_longest [OF s m(6) _ k(1) per pos] False by auto
    have "covered ?d k (set P)"
      by (rule joined_covered [OF c(2,3,4) k(2,3,4) False]) (use m(3) in auto)
    moreover have "chain (r @ [k])"
      using c(1) k(2,3) by (simp add: chain_snoc)
    moreover have "\<forall>x \<in> set r. covered ?d x (set P) \<and> sg_p1 x \<in> pt_of ` set P"
      "sg_p1 g \<in> pt_of ` set P"
      using m(3) by auto
    ultimately have "merging P e'"
      using m(2,4,5) k(3,4) lo by (cases r) (simp_all add: merging_def f bent_snoc)
    with ml show thesis by (rule merged)
  qed
qed

lemma merge_merged:
  assumes "merging P e"
  shows "merging P (merge_segs e) \<and> bent (en_aboveOrBelow e) (en_segs (merge_segs e))
    \<and> en_aboveOrBelow (merge_segs e) = en_aboveOrBelow e \<and> en_nMeas (merge_segs e) = en_nMeas e
    \<and> en_bHaveInitPt (merge_segs e) = en_bHaveInitPt e"
  using assms
proof (induction e rule: merge_segs.induct)
  case (1 e)
  show ?case
  proof (cases "length (en_segs e) > 1")
    case True
    from "1.prems" True show ?thesis
    proof (cases rule: merge_step)
      case turned
      then have "merge_segs e = e" by (subst merge_segs.simps) simp
      then show ?thesis using "1.prems" turned by simp
    next
      case (merged e')
      then have "merge_segs e = merge_segs e'" using True by (subst merge_segs.simps) simp
      moreover have "en_aboveOrBelow e' = en_aboveOrBelow e" "en_nMeas e' = en_nMeas e"
        "en_bHaveInitPt e' = en_bHaveInitPt e"
        using MergeLastSeg_frame [of e] merged(1) by simp_all
      ultimately show ?thesis using "1.IH" [OF True merged(1) [symmetric]] merged by simp
    qed
  next
    case False
    then have "merge_segs e = e" by (subst merge_segs.simps) simp
    moreover obtain g where "en_segs e = [g]"
      using False "1.prems" by (cases "en_segs e") (auto simp: merging_def)
    ultimately show ?thesis using "1.prems" by (simp add: bent_def)
  qed
qed

definition measured :: "direction \<Rightarrow> (real \<times> real) list \<Rightarrow> envelope" where
  "measured d P = fold (\<lambda>(x, y) e. snd (AddPoint x y e)) P (new_envelope d)"

lemma measured_simps [simp]:
  "measured d [] = new_envelope d" "measured d (P @ [(x, y)]) = snd (AddPoint x y (measured d P))"
  by (simp_all add: measured_def)

definition enveloping :: "direction \<Rightarrow> (real \<times> real) list \<Rightarrow> envelope \<Rightarrow> bool" where
  "enveloping d P e \<longleftrightarrow> en_aboveOrBelow e = d \<and> en_bHaveInitPt e \<and> en_InitPt e = pt_of (last P)
     \<and> en_nMeas e = length P - 1 \<and> (en_segs e = [] \<longleftrightarrow> length P = 1)
     \<and> (en_segs e = [] \<longrightarrow> en_dfLongestSegLen e = 0)
     \<and> (en_segs e \<noteq> [] \<longrightarrow> merging P e \<and> bent d (en_segs e))"

lemma merging_append:
  assumes "enveloping d P e" and "P \<noteq> []" and "fst (last P) < x" and "\<And>q. q \<in> set P \<Longrightarrow> fst q \<le> fst (last P)"
    and "distinct (map fst P)"
    and "MakeSeg (en_InitPt e) (pt_of (x, y)) = Some g" and "seg_ok g"
    and "sg_p1 g = en_InitPt e" and "sg_p2 g = pt_of (x, y)"
  shows "merging (P @ [(x, y)]) (AppendSeg g e)"
proof -
  have d: "en_aboveOrBelow e = d" "en_InitPt e = pt_of (last P)"
    using assms(1) by (auto simp: enveloping_def)
  have lo: "longest_ok (AppendSeg g e)"
    using assms(1,7) by (intro longest_append) (auto simp: enveloping_def merging_def longest_ok_def seg_ok_def)
  have cov: "covered d g (set (P @ [(x, y)]))"
    unfolding covered_def
  proof (intro ballI, clarify)
    fix u v assume q: "(u, v) \<in> set (P @ [(x, y)])" "spans g u"
    show "side d * v \<le> side d * seg_line g u"
    proof (cases "(u, v) = (x, y)")
      case True
      then show ?thesis using assms(9) by (simp add: line_from_end [OF assms(7)])
    next
      case False
      then have uv: "(u, v) \<in> set P" "u = fst (last P)"
        using q assms(4,8) by (auto simp: spans_def d intro: antisym)
      then have "(u, v) = last P"
        using assms(2,5) by (metis eq_key_imp_eq_value fst_conv last_in_set prod.collapse)
      then have "fst (last P) = u" "snd (last P) = v" by (metis fst_conv, metis snd_conv)
      then show ?thesis using assms(8) by (simp add: line_from_start [OF assms(7)] d)
    qed
  qed
  have old: "covered d k (set (P @ [(x, y)]))" if "k \<in> set (en_segs e)" for k
  proof -
    have "merging P e" using that assms(1) by (auto simp: enveloping_def)
    then have c: "chain (en_segs e)" "covered d k (set P)" "sg_p2 (last (en_segs e)) = pt_of (last P)"
      using that d by (auto simp: merging_def)
    have "pt_x (sg_p2 k) \<le> fst (last P)"
      using chain_end [OF c(1) that] c(3) by simp
    with c(2) assms(3) show ?thesis by (auto simp: covered_def spans_def)
  qed
  show ?thesis
  proof (cases "en_segs e = []")
    case True
    then obtain q where P: "P = [q]" using assms(1) by (auto simp: enveloping_def length_Suc_conv)
    show ?thesis
      using True lo cov assms(7,8,9) by (auto simp: merging_def d P)
  next
    case False
    then have m: "merging P e" "bent d (en_segs e)" using assms(1) by (auto simp: enveloping_def)
    have "hd (P @ [(x, y)]) = hd P" using assms(2) by simp
    moreover have "chain (en_segs e @ [g])"
      using m(1) assms(7,8) d by (auto simp: chain_snoc merging_def)
    ultimately show ?thesis
      using m lo cov old assms(2,8,9) False d by (auto simp: merging_def hd_append)
  qed
qed

lemma enveloping_measured:
  assumes "sorted_wrt (<) (map fst P)" and "P \<noteq> []"
  shows "enveloping d P (measured d P)"
  using assms
proof (induction P rule: rev_induct)
  case (snoc q P)
  obtain x y where q: "q = (x, y)" by force
  show ?case
  proof (cases "P = []")
    case True
    then show ?thesis
      by (simp add: q enveloping_def measured_def AddPoint_def new_envelope_def pt_of_def Let_def)
  next
    case False
    have st: "sorted_wrt (<) (map fst P)" "\<forall>u \<in> set P. fst u < x"
      using snoc.prems(1) by (auto simp: sorted_wrt_append q)
    have e: "enveloping d P (measured d P)" using snoc.IH [OF st(1) False] .
    have lt: "fst (last P) < x" using st(2) False by simp
    have le: "fst u \<le> fst (last P)" if "u \<in> set P" for u
      using that st(1) by (cases P rule: rev_cases) (auto simp: sorted_wrt_append)
    have di: "distinct (map fst P)" using st(1) by (simp add: strict_sorted_iff)
    have i: "en_bHaveInitPt (measured d P)" "en_InitPt (measured d P) = pt_of (last P)"
      "en_aboveOrBelow (measured d P) = d" "en_nMeas (measured d P) = length P - 1"
      using e by (auto simp: enveloping_def)
    obtain g where g: "MakeSeg (en_InitPt (measured d P)) (pt_of (x, y)) = Some g" "seg_ok g"
      "sg_p1 g = en_InitPt (measured d P)" "sg_p2 g = pt_of (x, y)"
      by (rule MakeSeg_ok [of "en_InitPt (measured d P)" "pt_of (x, y)"]) (use lt i in simp)
    have m: "merging (P @ [(x, y)]) (AppendSeg g (measured d P))"
      by (rule merging_append [OF e False lt le di g])
    let ?E = "merge_segs (AppendSeg g (measured d P))"
    have E: "merging (P @ [(x, y)]) ?E" "bent d (en_segs ?E)" "en_aboveOrBelow ?E = d"
      "en_nMeas ?E = length P - 1" "en_bHaveInitPt ?E"
      using merge_merged [OF m] i by simp_all
    have "snd (AddPoint x y (measured d P)) =
        ?E\<lparr>en_InitPt := pt_of (x, y), en_nMeas := en_nMeas ?E + 1\<rparr>"
      using g(1) i(1) by (simp add: AddPoint_def Let_def pt_of_def)
    moreover have "en_segs ?E \<noteq> []" using E(1) by (simp add: merging_def)
    ultimately show ?thesis
      using E False by (auto simp: enveloping_def q merging_def longest_ok_def)
  qed
qed simp

lemma sorted_ends:
  fixes P :: "(real \<times> real) list"
  assumes "sorted_wrt (<) (map fst P)" and "q \<in> set P"
  shows "fst (hd P) \<le> fst q" and "fst q \<le> fst (last P)"
proof -
  show "fst (hd P) \<le> fst q" using assms by (cases P) auto
  show "fst q \<le> fst (last P)" using assms by (cases P rule: rev_cases) (auto simp: sorted_wrt_append)
qed

lemma supports_lemma:
  assumes "sorted_wrt (<) (map fst P)" and "P \<noteq> []"
    and "l = GetLineEstimate (measured d P)"
  shows "(\<forall>(x, y) \<in> set P. side d * y \<le> side d * line_at l x) \<and> (\<exists>(x, y) \<in> set P. line_at l x = y)"
proof -
  let ?e = "measured d P"
  have e: "enveloping d P ?e" using enveloping_measured [OF assms(1,2)] .
  show ?thesis
  proof (cases "en_segs ?e = []")
    case True
    then obtain q where "P = [q]" using e by (auto simp: enveloping_def length_Suc_conv)
    with True e assms(3) show ?thesis
      by (cases q) (auto simp: GetLineEstimate_def GetLongestSeg_def enveloping_def line_at_def)
  next
    case False
    let ?g = "en_segs ?e ! en_uiLongestSegID ?e"
    have m: "merging P ?e" "bent d (en_segs ?e)" "en_aboveOrBelow ?e = d"
      using e False by (auto simp: enveloping_def)
    have g: "?g \<in> set (en_segs ?e)" and "GetLongestSeg ?e = Some ?g"
      using m(1) by (auto simp: merging_def longest_ok_def GetLongestSeg_def)
    then have l: "line_at l x = seg_line ?g x" for x
      by (simp add: assms(3) GetLineEstimate_def line_at_def seg_line_def)
    have c: "chain (en_segs ?e)" using m by (simp add: merging_def)
    have "side d * y \<le> side d * seg_line ?g x" if q: "(x, y) \<in> set P" for x y
    proof -
      have "fst (hd P) \<le> x" "x \<le> fst (last P)"
        using sorted_ends [OF assms(1) q] by simp_all
      then obtain j where j: "j \<in> set (en_segs ?e)" "spans j x"
        using chain_spans [OF c False, of x] m(1) by (auto simp: merging_def)
      then have "side d * y \<le> side d * seg_line j x"
        using m q by (fastforce simp: merging_def covered_def)
      also have "\<dots> \<le> side d * seg_line ?g x" by (rule chain_bounds [OF c m(2) j g])
      finally show ?thesis .
    qed
    moreover obtain q where "q \<in> set P" "sg_p1 ?g = pt_of q" using m(1) g by (auto simp: merging_def)
    then have "\<exists>(x, y) \<in> set P. seg_line ?g x = y"
      using line_from_start [OF chain_ok [OF c g], of "fst q"] by (intro bexI [of _ q]) auto
    ultimately show ?thesis by (auto simp: l)
  qed
qed

section \<open>Cropping\<close>

lemma crop_some:
  assumes "\<forall>g \<in> set (take (en_uiLongestSegID e) (en_segs e)). pt_x (sg_p2 g) < x"
  shows "CropFrontBefore x e =
    Some (e\<lparr>en_segs := drop (en_uiLongestSegID e) (en_segs e),
            en_uiLongestSegID := en_uiLongestSegID e - length (en_segs e)\<rparr>)"
  using assms
proof (induction "en_segs e" arbitrary: e)
  case Nil
  then show ?case by (subst CropFrontBefore.simps) simp
next
  case (Cons g gs)
  note gs = Cons.hyps(2) [symmetric]
  show ?case
  proof (cases "en_uiLongestSegID e")
    case 0
    then show ?thesis by (subst CropFrontBefore.simps) (simp add: gs)
  next
    case (Suc n)
    let ?e = "e\<lparr>en_segs := gs, en_uiLongestSegID := n\<rparr>"
    have "CropFrontBefore x e = CropFrontBefore x ?e"
      using Cons.prems by (subst CropFrontBefore.simps) (simp add: gs Suc)
    also have "\<dots> = Some (?e\<lparr>en_segs := drop (en_uiLongestSegID ?e) (en_segs ?e),
        en_uiLongestSegID := en_uiLongestSegID ?e - length (en_segs ?e)\<rparr>)"
      by (rule Cons.hyps(1)) (use Cons.prems in \<open>simp_all add: gs Suc\<close>)
    finally show ?thesis by (simp add: gs Suc)
  qed
qed

lemma crop_only:
  assumes "CropFrontBefore x e = Some e'"
  shows "\<forall>g \<in> set (take (en_uiLongestSegID e) (en_segs e)). pt_x (sg_p2 g) < x"
proof (rule CropFrontBefore.raw_induct [of "\<lambda>x e e'.
    \<forall>g \<in> set (take (en_uiLongestSegID e) (en_segs e)). pt_x (sg_p2 g) < x", OF _ assms])
  fix crop x e e'
  assume IH: "\<And>x e e'. crop x e = Some e' \<Longrightarrow>
      \<forall>g \<in> set (take (en_uiLongestSegID e) (en_segs e)). pt_x (sg_p2 g) < x"
    and eq: "(if length (en_segs e) > 0 \<and> en_uiLongestSegID e > 0
      then if pt_x (sg_p2 (hd (en_segs e))) < x
           then crop x (e\<lparr>en_segs := tl (en_segs e), en_uiLongestSegID := en_uiLongestSegID e - 1\<rparr>)
           else crop x e
      else Some e) = Some e'"
  show "\<forall>g \<in> set (take (en_uiLongestSegID e) (en_segs e)). pt_x (sg_p2 g) < x"
  proof (cases "length (en_segs e) > 0 \<and> en_uiLongestSegID e > 0")
    case True
    then obtain g gs n where e: "en_segs e = g # gs" "en_uiLongestSegID e = Suc n"
      by (cases "en_segs e"; cases "en_uiLongestSegID e") auto
    show ?thesis
    proof (cases "pt_x (sg_p2 g) < x")
      case True
      then show ?thesis using IH [of x "e\<lparr>en_segs := gs, en_uiLongestSegID := n\<rparr>" e'] eq by (simp add: e)
    next
      case False
      then have "crop x e = Some e'" using eq by (simp add: e)
      then show ?thesis by (rule IH)
    qed
  qed auto
qed

lemma crop_eq:
  "CropFrontBefore x e =
    (if \<forall>g \<in> set (take (en_uiLongestSegID e) (en_segs e)). pt_x (sg_p2 g) < x
     then Some (e\<lparr>en_segs := drop (en_uiLongestSegID e) (en_segs e),
                  en_uiLongestSegID := en_uiLongestSegID e - length (en_segs e)\<rparr>)
     else None)"
  using crop_some [of e x] crop_only [of x e] by (cases "CropFrontBefore x e") auto

section \<open>Moving the axes\<close>

definition move_pt :: "real \<Rightarrow> real \<Rightarrow> tpt \<Rightarrow> tpt" where
  "move_pt a b p = \<lparr>pt_x = pt_x p - a, pt_y = pt_y p - b\<rparr>"

definition move_seg :: "real \<Rightarrow> real \<Rightarrow> tseg \<Rightarrow> tseg" where
  "move_seg a b g =
     \<lparr>sg_dfPeriod = sg_dfPeriod g, sg_dfM = sg_dfM g, sg_dfC = sg_dfC g + sg_dfM g * a - b,
      sg_p1 = move_pt a b (sg_p1 g), sg_p2 = move_pt a b (sg_p2 g)\<rparr>"

definition move_env :: "real \<Rightarrow> real \<Rightarrow> envelope \<Rightarrow> envelope" where
  "move_env a b e = e\<lparr>en_segs := map (move_seg a b) (en_segs e),
     en_InitPt := (if en_bHaveInitPt e then move_pt a b (en_InitPt e) else en_InitPt e)\<rparr>"

lemma move_simps [simp]:
  "pt_x (move_pt a b p) = pt_x p - a" "pt_y (move_pt a b p) = pt_y p - b"
  "sg_dfPeriod (move_seg a b g) = sg_dfPeriod g" "sg_dfM (move_seg a b g) = sg_dfM g"
  "sg_p1 (move_seg a b g) = move_pt a b (sg_p1 g)" "sg_p2 (move_seg a b g) = move_pt a b (sg_p2 g)"
  "sg_dfC (move_seg a b g) = sg_dfC g + sg_dfM g * a - b"
  "en_segs (move_env a b e) = map (move_seg a b) (en_segs e)"
  "en_bHaveInitPt (move_env a b e) = en_bHaveInitPt e"
  "en_uiLongestSegID (move_env a b e) = en_uiLongestSegID e"
  "en_dfLongestSegLen (move_env a b e) = en_dfLongestSegLen e"
  "en_aboveOrBelow (move_env a b e) = en_aboveOrBelow e" "en_nMeas (move_env a b e) = en_nMeas e"
  by (simp_all add: move_pt_def move_seg_def move_env_def)

lemma turns_move [simp]: "turns d (move_seg a b g) (move_seg a b h) = turns d g h"
  by (simp add: turns_iff)

lemma move_period: "(move_seg a b g)\<lparr>sg_dfPeriod := r\<rparr> = move_seg a b (g\<lparr>sg_dfPeriod := r\<rparr>)"
  by (simp add: move_seg_def)

lemma MakeSeg_move:
  "MakeSeg (move_pt a b p) (move_pt a b q) = map_option (move_seg a b) (MakeSeg p q)"
  by (auto simp: MakeSeg_def GetLineParams_def move_seg_def Let_def algebra_simps)

lemma GetLongestSeg_move:
  "GetLongestSeg (move_env a b e) = map_option (move_seg a b) (GetLongestSeg e)"
  by (simp add: GetLongestSeg_def)

lemma move_env_upd:
  "(move_env a b e)\<lparr>en_segs := map (move_seg a b) gs\<rparr> = move_env a b (e\<lparr>en_segs := gs\<rparr>)"
  "(move_env a b e)\<lparr>en_uiLongestSegID := n\<rparr> = move_env a b (e\<lparr>en_uiLongestSegID := n\<rparr>)"
  "(move_env a b e)\<lparr>en_dfLongestSegLen := r\<rparr> = move_env a b (e\<lparr>en_dfLongestSegLen := r\<rparr>)"
  "(move_env a b e)\<lparr>en_nMeas := n\<rparr> = move_env a b (e\<lparr>en_nMeas := n\<rparr>)"
  by (simp_all add: move_env_def)

lemma AppendSeg_move: "AppendSeg (move_seg a b g) (move_env a b e) = move_env a b (AppendSeg g e)"
proof -
  have "(move_env a b e)\<lparr>en_segs := map (move_seg a b) (en_segs e) @ [move_seg a b g]\<rparr> =
      move_env a b (e\<lparr>en_segs := en_segs e @ [g]\<rparr>)"
    using move_env_upd(1) [of a b "en_segs e @ [g]" e] by simp
  then show ?thesis
    by (simp add: AppendSeg_def Let_def GetLongestSeg_move move_env_upd split: option.split)
qed

lemma MergeLastSeg_move:
  "MergeLastSeg (move_env a b e) = (let (m, e) = MergeLastSeg e in (m, move_env a b e))"
proof (cases "rev (en_segs e)")
  case (Cons h r)
  then show ?thesis
  proof (cases r)
    case (Cons g r')
    have r: "rev (en_segs e) = h # g # r'" using Cons \<open>rev (en_segs e) = h # r\<close> by simp
    have mr: "rev (map (move_seg a b) (en_segs e)) = move_seg a b h # move_seg a b g # map (move_seg a b) r'"
      using r by (simp flip: rev_map)
    have up: "(move_env a b F)\<lparr>en_segs := rev (map (move_seg a b) r') @ [move_seg a b k]\<rparr> =
        move_env a b (F\<lparr>en_segs := rev r' @ [k]\<rparr>)" for F :: envelope and k
      using move_env_upd(1) [of a b "rev r' @ [k]" F] by (simp add: rev_map)
    show ?thesis
      by (simp add: MergeLastSeg_def r mr Let_def MakeSeg_move move_env_upd move_period up
          split: option.split)
  qed (simp add: MergeLastSeg_def rev_map [symmetric])
qed (simp add: MergeLastSeg_def rev_map [symmetric])

lemma merge_segs_move: "merge_segs (move_env a b e) = move_env a b (merge_segs e)"
proof (induction e rule: merge_segs.induct)
  case (1 e)
  obtain m e' where m: "MergeLastSeg e = (m, e')" by force
  then have mm: "MergeLastSeg (move_env a b e) = (m, move_env a b e')" by (simp add: MergeLastSeg_move)
  show ?case
  proof (cases "length (en_segs e) > 1")
    case True
    show ?thesis
    proof (cases m)
      case True
      then show ?thesis
        using 1 [OF \<open>length (en_segs e) > 1\<close> refl m [symmetric] True] \<open>length (en_segs e) > 1\<close> m mm
        by (simp add: merge_segs.simps [of e] merge_segs.simps [of "move_env a b e"])
    next
      case False
      then show ?thesis using \<open>length (en_segs e) > 1\<close> m mm
        by (simp add: merge_segs.simps [of e] merge_segs.simps [of "move_env a b e"])
    qed
  qed (simp add: merge_segs.simps [of e] merge_segs.simps [of "move_env a b e"])
qed

section \<open>The conditioned filter\<close>

text \<open>An envelope without a first measurement has none.\<close>

definition env_ok :: "envelope \<Rightarrow> bool" where
  "env_ok e \<longleftrightarrow> (en_bHaveInitPt e \<or> en_nMeas e = 0 \<and> en_segs e = [])"

lemma env_ok_new [simp]: "env_ok (new_envelope d)"
  by (simp add: env_ok_def new_envelope_def)

lemma ResetEnvelope_move: "ResetEnvelope (move_env a b e) = move_env a b (ResetEnvelope e)"
  by (simp add: ResetEnvelope_def new_envelope_def move_env_def)

lemma merge_segs_init [simp]: "en_bHaveInitPt (merge_segs e) = en_bHaveInitPt e"
proof (induction e rule: merge_segs.induct)
  case (1 e)
  obtain m e' where m: "MergeLastSeg e = (m, e')" by force
  then have "en_bHaveInitPt e' = en_bHaveInitPt e" using MergeLastSeg_frame(3) [of e] by simp
  then show ?case
    using 1 [OF _ refl m [symmetric]] m by (subst merge_segs.simps) simp
qed

lemma AddPoint_move:
  assumes "env_ok e"
  shows "AddPoint (x - a) (y - b) (move_env a b e) = (let (ok, e) = AddPoint x y e in (ok, move_env a b e))"
proof (cases "en_bHaveInitPt e")
  case True
  have "MakeSeg (en_InitPt (move_env a b e)) \<lparr>pt_x = x - a, pt_y = y - b\<rparr> =
      map_option (move_seg a b) (MakeSeg (en_InitPt e) \<lparr>pt_x = x, pt_y = y\<rparr>)"
    using MakeSeg_move [of a b "en_InitPt e" "\<lparr>pt_x = x, pt_y = y\<rparr>"] True
    by (simp add: move_env_def move_pt_def)
  with True show ?thesis
    by (auto simp: AddPoint_def Let_def AppendSeg_move merge_segs_move split: option.split)
      (simp add: move_env_def move_pt_def)
next
  case False
  with assms show ?thesis
    by (simp add: AddPoint_def env_ok_def Let_def) (simp add: move_env_def move_pt_def)
qed

lemma env_ok_push:
  assumes "env_ok e"
  shows "env_ok (push_point x y e)"
  using assms
  by (auto simp: push_point_def AddPoint_def env_ok_def ResetEnvelope_def new_envelope_def Let_def
      split: option.splits)

lemma push_point_move:
  "env_ok e \<Longrightarrow> push_point (x - a) (y - b) (move_env a b e) = move_env a b (push_point x y e)"
  by (simp add: push_point_def AddPoint_move ResetEnvelope_move split_beta Let_def)

definition move_line :: "real \<Rightarrow> real \<Rightarrow> real \<times> real \<Rightarrow> real \<times> real" where
  "move_line a b l = (fst l, snd l + fst l * a - b)"

lemma line_at_move [simp]: "line_at (move_line a b l) (x - a) = line_at l x - b"
  by (simp add: line_at_def move_line_def algebra_simps)

lemma GetLineEstimate_move:
  "en_bHaveInitPt e \<Longrightarrow> GetLineEstimate (move_env a b e) = move_line a b (GetLineEstimate e)"
proof -
  assume "en_bHaveInitPt e"
  then have "en_InitPt (move_env a b e) = move_pt a b (en_InitPt e)" by (simp add: move_env_def)
  then show ?thesis
    by (cases "GetLongestSeg e") (simp_all add: GetLineEstimate_def GetLongestSeg_move move_line_def)
qed

lemma crop_long_move: "crop_long (x - a) (move_env a b e) = map_option (move_env a b) (crop_long x e)"
proof -
  have "(\<forall>g \<in> set (take n (map (move_seg a b) gs)). pt_x (sg_p2 g) < x - a) \<longleftrightarrow>
      (\<forall>g \<in> set (take n gs). pt_x (sg_p2 g) < x)" for n gs
    by (simp add: take_map)
  then show ?thesis
    by (simp add: crop_long_def crop_eq drop_map) (simp add: move_env_def)
qed

lemma crop_long_ok: "crop_long x e = Some e' \<Longrightarrow> env_ok e \<Longrightarrow> env_ok e'"
  by (auto simp: crop_long_def crop_eq env_ok_def split: if_splits)

definition filter_ok :: "skew_filter \<Rightarrow> bool" where
  "filter_ok f \<longleftrightarrow> env_ok (sk_LowerBound f) \<and> env_ok (sk_UpperBound f)"

definition move_filter :: "real \<Rightarrow> real \<Rightarrow> skew_filter \<Rightarrow> skew_filter" where
  "move_filter a b f =
     \<lparr>sk_LowerBound = move_env a b (sk_LowerBound f), sk_UpperBound = move_env a b (sk_UpperBound f),
      sk_dfLastVal = (if sk_nMeas f > 0 then sk_dfLastVal f - b else sk_dfLastVal f),
      sk_dfLastTime = (if sk_nMeas f > 0 then sk_dfLastTime f - a else sk_dfLastTime f),
      sk_nMeas = sk_nMeas f\<rparr>"

lemma estimate_move:
  assumes "filter_ok f"
  shows "skew_estimate (t - a) (lo - b) (up - b) (move_filter a b f) =
    (let (v, l) = skew_estimate t lo up f in (v - b, move_line a b l))"
proof -
  have st: "IsStable (move_env a b e) = IsStable e" for e by (simp add: IsStable_def)
  have est: "GetLineEstimate (move_env a b e) = move_line a b (GetLineEstimate e)"
    if "env_ok e" "IsStable e" for e
    using that by (intro GetLineEstimate_move) (auto simp: env_ok_def IsStable_def)
  have mid: "GetMidLine (move_filter a b f) = move_line a b (GetMidLine f)"
    if "IsStable (sk_LowerBound f)" "IsStable (sk_UpperBound f)"
    using that assms
    by (simp add: GetMidLine_def move_filter_def est filter_ok_def split_beta) (simp add: move_line_def field_simps)
  have lower: "GetLBSkewAtServerTime (t - a) (move_filter a b f) = GetLBSkewAtServerTime t f - b"
    if "IsStable (sk_LowerBound f)"
    using that assms by (simp add: GetLBSkewAtServerTime_def move_filter_def est filter_ok_def)
  have upper: "GetUBSkewAtServerTime (t - a) (move_filter a b f) = GetUBSkewAtServerTime t f - b"
    if "IsStable (sk_UpperBound f)"
    using that assms by (simp add: GetUBSkewAtServerTime_def move_filter_def est filter_ok_def)
  have f: "sk_LowerBound (move_filter a b f) = move_env a b (sk_LowerBound f)"
    "sk_UpperBound (move_filter a b f) = move_env a b (sk_UpperBound f)"
    "sk_nMeas (move_filter a b f) = sk_nMeas f"
    by (simp_all add: move_filter_def)
  consider "IsStable (sk_LowerBound f)" "IsStable (sk_UpperBound f)"
    | "IsStable (sk_LowerBound f)" "\<not> IsStable (sk_UpperBound f)"
    | "\<not> IsStable (sk_LowerBound f)" "IsStable (sk_UpperBound f)"
    | "\<not> IsStable (sk_LowerBound f)" "\<not> IsStable (sk_UpperBound f)" by blast
  then show ?thesis
  proof cases
    case 1
    then show ?thesis using assms
      by (auto simp: skew_estimate_def f st lower upper mid est filter_ok_def Let_def field_simps)
  next
    case 2
    then show ?thesis using assms by (simp add: skew_estimate_def f st lower est filter_ok_def Let_def)
  next
    case 3
    then show ?thesis using assms by (simp add: skew_estimate_def f st upper est filter_ok_def Let_def)
  next
    case 4
    then show ?thesis by (simp add: skew_estimate_def f st Let_def move_line_def field_simps)
  qed
qed

lemma update_move:
  assumes "filter_ok f"
  shows "map_option (\<lambda>(v, _, f). (v, f)) (UpdateSkew (rq + (b - a)) (tx - a) (rx + (b - a)) (move_filter a b f)) =
    map_option (\<lambda>(v, _, f). (v - b, move_filter a b f)) (UpdateSkew rq tx rx f)"
proof -
  let ?u = "UpdateEnvelopes tx (tx - rx) (tx - rq) f"
  have u: "UpdateEnvelopes (tx - a) (tx - a - (rx + (b - a))) (tx - a - (rq + (b - a))) (move_filter a b f) =
      move_filter a b ?u"
    using assms push_point_move [of "sk_LowerBound f" tx a "tx - rx" b]
      push_point_move [of "sk_UpperBound f" tx a "tx - rq" b]
    by (simp add: UpdateEnvelopes_def move_filter_def filter_ok_def algebra_simps)
  have ok: "filter_ok ?u" using assms env_ok_push by (simp add: filter_ok_def UpdateEnvelopes_def)
  obtain v m c where e: "skew_estimate tx (tx - rx) (tx - rq) ?u = (v, m, c)" by (metis prod_cases3)
  have e': "skew_estimate (tx - a) (tx - a - (rx + (b - a))) (tx - a - (rq + (b - a))) (move_filter a b ?u) =
      (v - b, m, c + m * a - b)"
    using estimate_move [OF ok, of tx a "tx - rx" b "tx - rq"] by (simp add: e move_line_def algebra_simps)
  have fr: "sk_LowerBound (move_filter a b ?u) = move_env a b (sk_LowerBound ?u)"
    "sk_UpperBound (move_filter a b ?u) = move_env a b (sk_UpperBound ?u)"
    "sk_nMeas (move_filter a b ?u) = sk_nMeas ?u"
    "sk_nMeas ?u > 0 \<Longrightarrow> sk_dfLastVal (move_filter a b ?u) = sk_dfLastVal ?u - b"
    "sk_nMeas ?u > 0 \<Longrightarrow> sk_dfLastTime (move_filter a b ?u) = sk_dfLastTime ?u - a"
    by (simp_all add: move_filter_def)
  have sm: "SmoothingFilter dt (w - b) (v - b) m = SmoothingFilter dt w v m - b" for dt w
    by (simp add: SmoothingFilter_def Let_def field_simps)
  have x: "tx - a - 3600 = tx - 3600 - a" by simp
  show ?thesis
    unfolding UpdateSkew_def Let_def u e e' fr prod.case x crop_long_move
    by (cases "sk_nMeas ?u > 0"; cases "crop_long (tx - 3600) (sk_LowerBound ?u)";
        cases "crop_long (tx - 3600) (sk_UpperBound ?u)")
      (auto simp: fr sm move_filter_def)
qed

lemma update_ok:
  assumes "filter_ok f" and "UpdateSkew rq tx rx f = Some (v, i, f')"
  shows "filter_ok f'" and "sk_nMeas f' = sk_nMeas f + 1"
proof -
  let ?u = "UpdateEnvelopes tx (tx - rx) (tx - rq) f"
  have u: "env_ok (sk_LowerBound ?u)" "env_ok (sk_UpperBound ?u)" "sk_nMeas ?u = sk_nMeas f"
    using assms(1) env_ok_push by (simp_all add: filter_ok_def UpdateEnvelopes_def)
  from assms(2) obtain lo up w t where "crop_long (tx - 3600) (sk_LowerBound ?u) = Some lo"
    "crop_long (tx - 3600) (sk_UpperBound ?u) = Some up"
    "f' = ?u\<lparr>sk_LowerBound := lo, sk_UpperBound := up, sk_dfLastVal := w, sk_dfLastTime := t,
             sk_nMeas := sk_nMeas ?u + 1\<rparr>"
    by (auto simp: UpdateSkew_def Let_def split: option.splits prod.splits)
  with u show "filter_ok f'" "sk_nMeas f' = sk_nMeas f + 1"
    by (simp_all add: filter_ok_def crop_long_ok)
qed

text \<open>The skews a filter answers with for a sequence of exchanges (request, transmit, receive).\<close>

fun skews :: "(real \<times> real \<times> real) list \<Rightarrow> skew_filter \<Rightarrow> real list option" where
  "skews [] f = Some []"
| "skews ((rq, tx, rx) # ms) f =
     (case UpdateSkew rq tx rx f of None \<Rightarrow> None | Some (v, _, f) \<Rightarrow> map_option ((#) v) (skews ms f))"

fun conditioned_skews :: "(real \<times> real \<times> real) list \<Rightarrow> conditioned \<Rightarrow> real list option" where
  "conditioned_skews [] k = Some []"
| "conditioned_skews ((rq, tx, rx) # ms) k =
     (case UpdateConditioned rq tx rx k of
        None \<Rightarrow> None | Some (v, _, k) \<Rightarrow> map_option ((#) v) (conditioned_skews ms k))"

lemma conditioned_run:
  assumes "filter_ok f" and "sk_nMeas f > 0"
  shows "conditioned_skews ms
      \<lparr>cd_filter = move_filter a b f, cd_dfBeginTime = a, cd_dfSkewOffset = b, cd_dfRXOffset = b - a\<rparr> =
    map_option (map (\<lambda>v. v - 2 * b)) (skews ms f)"
  using assms
proof (induction ms arbitrary: f)
  case (Cons q ms)
  obtain rq tx rx where q: "q = (rq, tx, rx)" by (metis prod_cases3)
  note mv = update_move [OF Cons.prems(1), of rq b a tx rx]
  have n: "sk_nMeas (move_filter a b f) \<noteq> 0" using Cons.prems(2) by (simp add: move_filter_def)
  show ?case
  proof (cases "UpdateSkew rq tx rx f")
    case None
    then have "UpdateSkew (rq + (b - a)) (tx - a) (rx + (b - a)) (move_filter a b f) = None"
      using mv by simp
    with None n show ?thesis by (simp add: q UpdateConditioned_def)
  next
    case (Some x)
    then obtain v i f' where x: "UpdateSkew rq tx rx f = Some (v, i, f')" by (cases x) auto
    then obtain i' where "UpdateSkew (rq + (b - a)) (tx - a) (rx + (b - a)) (move_filter a b f) =
        Some (v - b, i', move_filter a b f')"
      using mv by (auto simp: map_option_case split: option.splits)
    with x n show ?thesis
      using Cons.IH [OF update_ok(1) [OF Cons.prems(1) x]] update_ok(2) [OF Cons.prems(1) x]
      by (simp add: q UpdateConditioned_def option.map_comp comp_def)
  qed
qed simp

lemma conditioned_lemma:
  "conditioned_skews ((rq, tx, rx) # ms) new_conditioned =
    map_option (map (\<lambda>v. v - 2 * (tx - rx))) (skews ((rq, tx, rx) # ms) new_skew_filter)"
proof -
  let ?f = new_skew_filter and ?b = "tx - rx"
  have ok: "filter_ok ?f" by (simp add: filter_ok_def new_skew_filter_def)
  have m: "move_filter rq ?b ?f = ?f"
    by (simp add: move_filter_def new_skew_filter_def move_env_def new_envelope_def)
  note mv = update_move [OF ok, of rq ?b rq tx rx, unfolded m]
  show ?thesis
  proof (cases "UpdateSkew rq tx rx ?f")
    case None
    then have "UpdateSkew (rq + (?b - rq)) (tx - rq) (rx + (?b - rq)) ?f = None" using mv by simp
    with None show ?thesis by (simp add: UpdateConditioned_def new_conditioned_def new_skew_filter_def)
  next
    case (Some x)
    then obtain v i f' where x: "UpdateSkew rq tx rx ?f = Some (v, i, f')" by (cases x) auto
    then obtain i' where u: "UpdateSkew (rq + (?b - rq)) (tx - rq) (rx + (?b - rq)) ?f =
        Some (v - ?b, i', move_filter rq ?b f')"
      using mv by (auto simp: map_option_case split: option.splits)
    have "UpdateConditioned rq tx rx new_conditioned = Some (v - 2 * ?b, i',
        \<lparr>cd_filter = move_filter rq ?b f', cd_dfBeginTime = rq, cd_dfSkewOffset = ?b, cd_dfRXOffset = ?b - rq\<rparr>)"
      using u by (simp add: UpdateConditioned_def new_conditioned_def Let_def new_skew_filter_def)
    moreover have "sk_nMeas f' > 0" using update_ok(2) [OF ok x] by simp
    ultimately show ?thesis
      using conditioned_run [OF update_ok(1) [OF ok x]] x by (simp add: option.map_comp comp_def)
  qed
qed

section \<open>Properties\<close>

text \<open>C26: The line an envelope answers with supports the measurements it was given, in the order of their
  times: it passes through one of them and has all of them on the side the envelope bounds, below
  it for an envelope from above.\<close>

theorem envelope_supports:
  assumes "sorted_wrt (<) (map fst P)" and "P \<noteq> []"
    and "l = GetLineEstimate (measured d P)"
  shows "(\<forall>(x, y) \<in> set P. side d * y \<le> side d * line_at l x) \<and> (\<exists>(x, y) \<in> set P. line_at l x = y)"
  using assms by (rule supports_lemma)

theorem envelope_supports_witness:
  "line_at (GetLineEstimate (measured envelopeAbove [(0, 0), (1, 3), (2, 4)])) 2 \<ge> 4"
  using envelope_supports [of "[(0, 0), (1, 3), (2, 4)]" _ envelopeAbove, OF _ _ refl]
  by (simp add: side_def)

text \<open>The segment that \<open>GetLongestSeg\<close> answers need not be the longest.\<close>

theorem longest_missed:
  "\<exists>P g h. sorted_wrt (<) (map fst P) \<and> GetLongestSeg (measured envelopeAbove P) = Some g
     \<and> h \<in> set (en_segs (measured envelopeAbove P)) \<and> sg_dfPeriod g < sg_dfPeriod h"
proof -
  let ?P = "[(0, 0), (10, 10), (11, 10), (12, 10)] :: (real \<times> real) list"
  let ?e = "measured envelopeAbove ?P"
  note defs = measured_def AddPoint_def new_envelope_def MakeSeg_def GetLineParams_def AppendSeg_def
    GetLongestSeg_def merge_segs.simps MergeLastSeg_def turns_def Let_def
  have e: "en_uiLongestSegID ?e = 1 \<and> map sg_dfPeriod (en_segs ?e) = [10, 2]"
    by (simp add: defs)
  then obtain g h where gh: "en_segs ?e = [h, g]" "sg_dfPeriod h = 10" "sg_dfPeriod g = 2" by auto
  then have "GetLongestSeg ?e = Some g" using e by (simp add: GetLongestSeg_def)
  with gh show ?thesis by (intro exI [of _ ?P] exI [of _ g] exI [of _ h]) simp
qed

text \<open>C27: Cropping the front of an envelope returns only when every segment before the longest ends
  before the limit, and then removes exactly these; otherwise its loop goes on for ever.\<close>

theorem crop_returns:
  "CropFrontBefore x e =
    (if \<forall>g \<in> set (take (en_uiLongestSegID e) (en_segs e)). pt_x (sg_p2 g) < x
     then Some (e\<lparr>en_segs := drop (en_uiLongestSegID e) (en_segs e),
                  en_uiLongestSegID := en_uiLongestSegID e - length (en_segs e)\<rparr>)
     else None)"
  by (rule crop_eq)

text \<open>The conditioned filter is the plain one with its axes moved, but it moves the answer in the
  wrong direction: for every sequence of exchanges it answers the skews of the plain filter
  less twice the first measured skew.\<close>

theorem conditioned_offset:
  "conditioned_skews ((rq, tx, rx) # ms) new_conditioned =
    map_option (map (\<lambda>v. v - 2 * (tx - rx))) (skews ((rq, tx, rx) # ms) new_skew_filter)"
  by (rule conditioned_lemma)

text \<open>Two segments of which the first ends at 1 and the second is the longest, cropped before 0 and
  before 2.\<close>

theorem crop_returns_witness:
  "CropFrontBefore 0 ((new_envelope envelopeAbove)
      \<lparr>en_segs := [\<lparr>sg_dfPeriod = 1, sg_dfM = 0, sg_dfC = 0, sg_p1 = \<lparr>pt_x = 0, pt_y = 0\<rparr>, sg_p2 = \<lparr>pt_x = 1, pt_y = 0\<rparr>\<rparr>,
                   \<lparr>sg_dfPeriod = 4, sg_dfM = 1, sg_dfC = 0, sg_p1 = \<lparr>pt_x = 1, pt_y = 0\<rparr>, sg_p2 = \<lparr>pt_x = 5, pt_y = 4\<rparr>\<rparr>],
       en_uiLongestSegID := 1\<rparr>) = None
   \<and> CropFrontBefore 2 ((new_envelope envelopeAbove)
      \<lparr>en_segs := [\<lparr>sg_dfPeriod = 1, sg_dfM = 0, sg_dfC = 0, sg_p1 = \<lparr>pt_x = 0, pt_y = 0\<rparr>, sg_p2 = \<lparr>pt_x = 1, pt_y = 0\<rparr>\<rparr>,
                   \<lparr>sg_dfPeriod = 4, sg_dfM = 1, sg_dfC = 0, sg_p1 = \<lparr>pt_x = 1, pt_y = 0\<rparr>, sg_p2 = \<lparr>pt_x = 5, pt_y = 4\<rparr>\<rparr>],
       en_uiLongestSegID := 1\<rparr>) \<noteq> None"
  by (simp add: crop_returns)

end
