(* ===== verification/Moos_Hex.thy ===== *)
theory Moos_Hex
  imports Moos_Params
begin

text \<open>
  Hexadecimal numbers as streams write and read them (\<open>ios::hex\<close>): the check sums of the
  instruments and the escapes of the web server.
\<close>

section \<open>Writing\<close>

definition hex_digit :: "nat \<Rightarrow> char" where
  "hex_digit d = char_of (if d < 10 then 48 + d else 87 + d)"

fun show_hex :: "nat \<Rightarrow> string" where
  "show_hex n = (if n < 16 then [hex_digit n] else show_hex (n div 16) @ [hex_digit (n mod 16)])"

declare show_hex.simps [simp del]

section \<open>Reading\<close>

definition xval :: "char \<Rightarrow> nat" where
  "xval c = (if isdigit c then digit_val c
     else if CHR ''a'' \<le> c \<and> c \<le> CHR ''f'' then of_char c - 87 else of_char c - 55)"

definition isxdigit :: "char \<Rightarrow> bool" where
  "isxdigit c \<longleftrightarrow> isdigit c \<or> (CHR ''a'' \<le> c \<and> c \<le> CHR ''f'') \<or> (CHR ''A'' \<le> c \<and> c \<le> CHR ''F'')"

definition nat_of_hex :: "string \<Rightarrow> nat" where
  "nat_of_hex ds = foldl (\<lambda>a c. 16 * a + xval c) 0 ds"

section \<open>Digits\<close>

lemma hex_codes:
  "d < 16 \<Longrightarrow> (of_char (toupper (hex_digit d)) :: nat) = (if d < 10 then 48 + d else 55 + d)"
  by (auto simp: toupper_def hex_digit_def less_eq_char_def)

lemma hex_digit_inj:
  assumes "d < 16" and "e < 16" and "toupper (hex_digit d) = toupper (hex_digit e)"
  shows "d = e"
proof -
  have "(if d < 10 then 48 + d else 55 + d) = (if e < 10 then 48 + e else 55 + e)"
    using hex_codes [of d] hex_codes [of e] assms by simp
  then show ?thesis using assms(1,2) by (simp split: if_splits)
qed

lemma hex_zero: "hex_digit 0 = CHR ''0''"
  by code_simp

abbreviation marks :: "char set" where
  "marks \<equiv> {CHR 0x00, CHR 0x0A, CHR 0x0D, CHR ''*'', CHR ''$''}"

lemma hex_chars:
  assumes "d < 16"
  shows "toupper (hex_digit d) \<notin> marks"
    and "toupper (toupper (hex_digit d)) = toupper (hex_digit d)"
proof -
  have b: "48 \<le> (of_char (toupper (hex_digit d)) :: nat)" "(of_char (toupper (hex_digit d)) :: nat) \<le> 70"
    using hex_codes [OF assms] assms by simp_all
  have "\<forall>c \<in> marks. (of_char c :: nat) < 48" by simp
  then show "toupper (hex_digit d) \<notin> marks" using b(1) by (meson not_le)
  show "toupper (toupper (hex_digit d)) = toupper (hex_digit d)"
    using b(2) by (simp add: toupper_def [of "toupper _"] less_eq_char_def)
qed

lemma upper_digit:
  assumes "d < 16"
  shows "isxdigit (toupper (hex_digit d))" and "xval (toupper (hex_digit d)) = d"
proof -
  let ?c = "toupper (hex_digit d)"
  have c: "(of_char ?c :: nat) = (if d < 10 then 48 + d else 55 + d)" by (rule hex_codes [OF assms])
  then show "isxdigit ?c"
    using assms by (simp add: isxdigit_def isdigit_def less_eq_char_def split: if_splits)
  show "xval ?c = d"
    using c assms by (simp add: xval_def isdigit_def digit_val_def less_eq_char_def split: if_splits)
qed

text \<open>A byte with two digits.\<close>

definition two_digits :: "nat \<Rightarrow> string" where
  "two_digits n = [toupper (hex_digit (n div 16 mod 16)), toupper (hex_digit (n mod 16))]"

lemma two_digits_value: "n < 256 \<Longrightarrow> nat_of_hex (two_digits n) = n"
  using upper_digit(2) [of "n div 16 mod 16"] upper_digit(2) [of "n mod 16"]
  by (simp add: nat_of_hex_def two_digits_def)

lemma two_digits_x: "\<forall>c \<in> set (two_digits n). isxdigit c \<and> c \<notin> marks"
  using upper_digit(1) hex_chars(1) by (auto simp: two_digits_def simp del: insert_iff)

end
