(* ===== verification/Moos_Serial.thy ===== *)
theory Moos_Serial
  imports Moos_Params
begin

text \<open>
  The serial port of an instrument (\<open>Utils/MOOSSerialPort.cpp\<close>): its settings, the loop of
  its thread, which cuts what the device sends into telegrams, its in box, and reading a single
  telegram from a device that does not stream.

  \<^item> The driver below (\<open>Create\<close>, \<open>GrabN\<close>, a platform's file) is a parameter: whether the port
    opens, and the sequence of what its reads return.
  \<^item> What is read within the time-out of a round is an argument of the round.
  \<^item> A write outside a buffer is a value of its own (\<open>Overrun\<close>), with the index.
\<close>

section \<open>State and settings\<close>

type_synonym telegram = "string \<times> real"

record serial_port =
  rs_sPort :: string
  rs_nBaudRate :: int
  rs_bHandShaking :: bool
  rs_bStreaming :: bool
  rs_bVerbose :: bool
  rs_bQuit :: bool
  rs_cTermCharacter :: char
  rs_bUseCsmExt :: bool
  rs_InBox :: "telegram list"

definition DEFAULT_BAUDRATE :: int where "DEFAULT_BAUDRATE = 9600"
definition TELEGRAM_LEN :: nat where "TELEGRAM_LEN = 1000"
definition DEFAULT_COMMS_SPACE :: nat where "DEFAULT_COMMS_SPACE = 1000"
definition MOOS_SERIAL_INBOX_MAX_SIZE :: nat where "MOOS_SERIAL_INBOX_MAX_SIZE = 1000"

definition new_serial_port :: serial_port where
  "new_serial_port =
     \<lparr>rs_sPort = ''/dev/ttyS0'', rs_nBaudRate = DEFAULT_BAUDRATE, rs_bHandShaking = False,
      rs_bStreaming = False, rs_bVerbose = False, rs_bQuit = False, rs_cTermCharacter = CHR 0x0D,
      rs_bUseCsmExt = False, rs_InBox = []\<rparr>"

definition SetTermCharacter :: "char \<Rightarrow> serial_port \<Rightarrow> serial_port" where
  "SetTermCharacter cTermChar p = p\<lparr>rs_cTermCharacter := cTermChar\<rparr>"

text \<open>One line of the configuration block.\<close>

definition configure_line :: "string \<Rightarrow> serial_port \<Rightarrow> serial_port" where
  "configure_line sLine p =
     (let (sTok, sVal) = MOOSChomp sLine ''='' False
      in if MOOSStrCmp sTok ''PORT'' then p\<lparr>rs_sPort := sVal\<rparr>
         else if MOOSStrCmp sTok ''BAUDRATE''
         then p\<lparr>rs_nBaudRate := (if atoi sVal = 0 then DEFAULT_BAUDRATE else atoi sVal)\<rparr>
         else if MOOSStrCmp sTok ''HANDSHAKING'' then p\<lparr>rs_bHandShaking := MOOSStrCmp sVal ''TRUE''\<rparr>
         else if MOOSStrCmp sTok ''VERBOSE'' then p\<lparr>rs_bVerbose := MOOSStrCmp sVal ''TRUE''\<rparr>
         else if MOOSStrCmp sTok ''STREAMING'' then p\<lparr>rs_bStreaming := MOOSStrCmp sVal ''TRUE''\<rparr>
         else if MOOSStrCmp sTok ''USECSMEXT'' then p\<lparr>rs_bUseCsmExt := MOOSStrCmp sVal ''TRUE''\<rparr>
         else p)"

text \<open>\<open>Create\<close> opens the port; \<open>Start\<close> is whether the thread of a streaming port starts.\<close>

definition ConfigurePort ::
  "(string \<Rightarrow> int \<Rightarrow> bool) \<Rightarrow> bool \<Rightarrow> string list \<Rightarrow> serial_port \<Rightarrow> bool \<times> serial_port" where
  "ConfigurePort Create Start sParams p =
     (let p = fold configure_line sParams p
      in if \<not> Create (c_str (rs_sPort p)) (rs_nBaudRate p) then (False, p)
         else if rs_bStreaming p then (Start, p\<lparr>rs_bQuit := False\<rparr>)
         else (True, p))"

section \<open>The thread of a streaming port\<close>

text \<open>A telegram as it is put in the in box: up to its first NUL character, without line ends.\<close>

definition telegram_text :: "string \<Rightarrow> string" where
  "telegram_text b = MOOSRemoveChars (c_str b) [CHR 0x0D, CHR 0x0A]"

text \<open>The inner loop: the telegrams that are complete, each stamped with the clock, newest first
  in front of the in box, and what stays in the accumulator.\<close>

fun cut_telegrams :: "nat \<Rightarrow> char \<Rightarrow> (nat \<Rightarrow> real) \<Rightarrow> string \<times> telegram list \<Rightarrow> string \<times> telegram list" where
  "cut_telegrams n t clock (acc, box) =
     (if t \<in> set acc
      then (let m = length (takeWhile (\<lambda>c. c \<noteq> t) acc) + 1
            in (case n of
                  0 \<Rightarrow> (acc, box)
                | Suc n \<Rightarrow>
                    cut_telegrams n t clock (drop m acc, (telegram_text (take m acc), clock n) # box)))
      else (acc, box))"

declare cut_telegrams.simps [simp del]

text \<open>A round of \<open>CommsLoop\<close> with what was read; the accumulator holds twice the space of a
  read. A telegram has at least one character, so as many turns of the inner loop as the
  accumulator has characters are enough.\<close>

definition CommsRound :: "string \<Rightarrow> (nat \<Rightarrow> real) \<Rightarrow> string \<times> serial_port \<Rightarrow> string \<times> serial_port" where
  "CommsRound pTmp clock x =
     (case x of (acc, p) \<Rightarrow>
        if length acc + length pTmp > 2 * DEFAULT_COMMS_SPACE then ([], p)
        else (let acc = acc @ pTmp;
                  (acc, box) = cut_telegrams (length acc) (rs_cTermCharacter p) clock (acc, rs_InBox p)
              in (acc, p\<lparr>rs_InBox := take MOOS_SERIAL_INBOX_MAX_SIZE box\<rparr>)))"

fun CommsLoop :: "(string \<times> (nat \<Rightarrow> real)) list \<Rightarrow> string \<times> serial_port \<Rightarrow> string \<times> serial_port" where
  "CommsLoop [] x = x"
| "CommsLoop ((pTmp, clock) # rounds) x =
     (if rs_bQuit (snd x) then x else CommsLoop rounds (CommsRound pTmp clock x))"

definition GetLatest :: "serial_port \<Rightarrow> telegram option \<times> serial_port" where
  "GetLatest p =
     (case rs_InBox p of [] \<Rightarrow> (None, p) | g # box \<Rightarrow> (Some g, p\<lparr>rs_InBox := box\<rparr>))"

definition GetEarliest :: "serial_port \<Rightarrow> telegram option \<times> serial_port" where
  "GetEarliest p =
     (if rs_InBox p = [] then (None, p)
      else (Some (last (rs_InBox p)), p\<lparr>rs_InBox := butlast (rs_InBox p)\<rparr>))"

section \<open>Reading one telegram\<close>

text \<open>What a read of one character returns: nothing yet, a character, or an error (-1).\<close>

datatype grab = Nothing | Grabbed char | Failed

text \<open>\<open>Waiting\<close>: the reads given are used up and the function has not returned.\<close>

datatype reading_result = Telegram string | TimedOut | Overrun int | Waiting

text \<open>Without a callback of the user, a reply is complete when it ends with the termination
  character.\<close>

definition IsCompleteReply :: "char \<Rightarrow> string \<Rightarrow> bool" where
  "IsCompleteReply t pData \<longleftrightarrow> pData \<noteq> [] \<and> last pData = t"

text \<open>The loop of \<open>GetTelegram\<close> over what the reads return; \<open>waits\<close> is how often it may still wait
  (\<open>dfTimeOut\<close> in steps of 10 ms) and \<open>pData\<close> the filled part of the buffer. A failed read
  decrements the count of the characters read, and \<open>below\<close> is how far below zero it is.\<close>

fun telegram_loop ::
  "char \<Rightarrow> nat \<Rightarrow> grab list \<Rightarrow> nat \<Rightarrow> string \<Rightarrow> reading_result \<times> nat \<times> string \<times> grab list" where
  "telegram_loop t waits gs below pData =
     (if waits = 0 \<or> length pData \<ge> TELEGRAM_LEN then (TimedOut, below, pData, gs)
      else case gs of
             [] \<Rightarrow> (Waiting, below, pData, [])
           | Nothing # gs \<Rightarrow> telegram_loop t (waits - 1) gs below pData
           | Failed # gs \<Rightarrow>
               (if pData = [] then telegram_loop t waits gs (below + 1) pData
                else if IsCompleteReply t (butlast pData)
                then (Telegram (telegram_text (butlast pData)), below, butlast pData, gs)
                else telegram_loop t waits gs below (butlast pData))
           | Grabbed c # gs \<Rightarrow>
               (if below > 0 then (Overrun (- int below), below, pData, gs)
                else let pData = pData @ [c]
                     in if IsCompleteReply t pData
                        then (if length pData \<ge> TELEGRAM_LEN
                              then (Overrun (int TELEGRAM_LEN), below, pData, gs)
                              else (Telegram (telegram_text pData), below, pData, gs))
                        else telegram_loop t waits gs below pData))"

declare telegram_loop.simps [simp del]

definition GetTelegram :: "serial_port \<Rightarrow> nat \<Rightarrow> grab list \<Rightarrow> reading_result \<times> grab list" where
  "GetTelegram p waits gs =
     (if rs_bStreaming p then (TimedOut, gs)
      else (let (r, _, _, gs) = telegram_loop (rs_cTermCharacter p) waits gs 0 [] in (r, gs)))"

text \<open>\<open>GetTelegramOrAccumulate\<close> keeps its buffer from one call to the next and empties it when a
  telegram is complete.\<close>

definition GetTelegramOrAccumulate ::
  "serial_port \<Rightarrow> nat \<Rightarrow> grab list \<Rightarrow> nat \<times> string \<Rightarrow> reading_result \<times> (nat \<times> string) \<times> grab list" where
  "GetTelegramOrAccumulate p waits gs buf =
     (if rs_bStreaming p then (TimedOut, buf, gs)
      else (let (r, below, pData, gs) = telegram_loop (rs_cTermCharacter p) waits gs (fst buf) (snd buf)
            in (r, case r of Telegram _ \<Rightarrow> (0, []) | _ \<Rightarrow> (below, pData), gs)))"

text \<open>\<open>ReadNWithTimeOut\<close>: the reads made before the time is over, each of at most the space
  left; a failed one is tried again.\<close>

fun ReadNWithTimeOut :: "string option list \<Rightarrow> nat \<Rightarrow> string" where
  "ReadNWithTimeOut [] nSpace = []"
| "ReadNWithTimeOut (r # rs) nSpace =
     (case r of
        None \<Rightarrow> ReadNWithTimeOut rs nSpace
      | Some s \<Rightarrow> (let s = take nSpace s
                  in if s = [] then ReadNWithTimeOut rs nSpace
                     else if nSpace - length s = 0 then s
                     else s @ ReadNWithTimeOut rs (nSpace - length s)))"

text \<open>\<open>ReadNWithTimeOut2\<close> answers -1 at a failed read.\<close>

fun ReadNWithTimeOut2 :: "string option list \<Rightarrow> nat \<Rightarrow> string option" where
  "ReadNWithTimeOut2 [] nSpace = Some []"
| "ReadNWithTimeOut2 (r # rs) nSpace =
     (case r of
        None \<Rightarrow> None
      | Some s \<Rightarrow> (let s = take nSpace s
                  in if s = [] then ReadNWithTimeOut2 rs nSpace
                     else if nSpace - length s = 0 then Some s
                     else map_option ((@) s) (ReadNWithTimeOut2 rs (nSpace - length s))))"

section \<open>Framing\<close>

text \<open>A stream cut after every termination character: the complete pieces and the rest.\<close>

fun frames :: "char \<Rightarrow> string \<Rightarrow> string list \<times> string" where
  "frames t [] = ([], [])"
| "frames t (c # s) =
     (let (fs, r) = frames t s
      in if c = t then ([c] # fs, r)
         else case fs of [] \<Rightarrow> ([], c # r) | f # fs \<Rightarrow> ((c # f) # fs, r))"

lemma frames_none: "t \<notin> set s \<Longrightarrow> frames t s = ([], s)"
  by (induction s) auto

lemma frames_first:
  assumes "t \<notin> set a"
  shows "frames t (a @ t # s) = ((a @ [t]) # fst (frames t s), snd (frames t s))"
  using assms by (induction a) (auto split: prod.split)

lemma frames_append:
  "frames t (a @ b) = (fst (frames t a) @ fst (frames t (snd (frames t a) @ b)),
     snd (frames t (snd (frames t a) @ b)))"
proof (induction "length a" arbitrary: a rule: less_induct)
  case less
  show ?case
  proof (cases "t \<in> set a")
    case True
    then obtain u v where a: "a = u @ t # v" "t \<notin> set u" by (metis split_list_first)
    have "frames t (v @ b) = (fst (frames t v) @ fst (frames t (snd (frames t v) @ b)),
        snd (frames t (snd (frames t v) @ b)))"
      by (rule less) (simp add: a)
    then show ?thesis using a frames_first [OF a(2), of v] frames_first [OF a(2), of "v @ b"] by simp
  qed (simp add: frames_none)
qed

lemma frames_rest: "t \<notin> set (snd (frames t s))"
  by (induction s) (auto split: list.splits prod.splits)

lemma cut_frames:
  assumes "length acc \<le> n"
  shows "\<exists>stamps. length stamps = length (fst (frames t acc)) \<and>
    cut_telegrams n t clock (acc, box) =
      (snd (frames t acc), rev (zip (map telegram_text (fst (frames t acc))) stamps) @ box)"
  using assms
proof (induction n arbitrary: acc box)
  case 0
  then show ?case by (simp add: cut_telegrams.simps [of 0])
next
  case (Suc n)
  show ?case
  proof (cases "t \<in> set acc")
    case True
    then obtain a s where a: "acc = a @ t # s" "t \<notin> set a" by (metis split_list_first)
    then have m: "takeWhile (\<lambda>c. c \<noteq> t) acc = a" by (induction a arbitrary: acc) auto
    have "length s \<le> n" using Suc.prems a by simp
    then obtain stamps where st: "length stamps = length (fst (frames t s))"
      "cut_telegrams n t clock (s, (telegram_text (a @ [t]), clock n) # box) =
        (snd (frames t s), rev (zip (map telegram_text (fst (frames t s))) stamps) @
           (telegram_text (a @ [t]), clock n) # box)"
      using Suc.IH by blast
    have "cut_telegrams (Suc n) t clock (acc, box) =
        cut_telegrams n t clock (s, (telegram_text (a @ [t]), clock n) # box)"
      using True m by (subst cut_telegrams.simps) (simp add: a Let_def)
    with st show ?thesis
      by (intro exI [of _ "clock n # stamps"]) (simp add: frames_first [OF a(2)] a(1))
  next
    case False
    then show ?thesis by (subst cut_telegrams.simps) (simp add: frames_none)
  qed
qed

section \<open>The loop of the thread\<close>

lemma frames_keep_rest:
  "length (snd (frames t a)) \<le> length (snd (frames t (a @ b)))
   \<or> (\<exists>f \<in> set (fst (frames t (a @ b))). length (snd (frames t a)) < length f)"
proof -
  let ?r = "snd (frames t a)"
  have "length ?r \<le> length (snd (frames t (?r @ b))) \<or> (\<exists>f \<in> set (fst (frames t (?r @ b))). length ?r < length f)"
  proof (cases "t \<in> set b")
    case True
    then obtain u v where b: "b = u @ t # v" "t \<notin> set u" by (metis split_list_first)
    have "frames t (?r @ b) = ((?r @ u @ [t]) # fst (frames t v), snd (frames t v))"
      using frames_first [of t "?r @ u" v] b frames_rest [of t a] by simp
    then show ?thesis by simp
  next
    case False
    then show ?thesis using frames_none [of t "?r @ b"] frames_rest [of t a] by simp
  qed
  then show ?thesis unfolding frames_append [of t a b] by auto
qed

text \<open>No stretch of the stream between termination characters is longer than a read.\<close>

definition short_pieces :: "char \<Rightarrow> string \<Rightarrow> bool" where
  "short_pieces t s \<longleftrightarrow> (\<forall>f \<in> set (fst (frames t s)). length f \<le> DEFAULT_COMMS_SPACE + 1)
     \<and> length (snd (frames t s)) \<le> DEFAULT_COMMS_SPACE"

lemma short_rest: "short_pieces t (a @ b) \<Longrightarrow> length (snd (frames t a)) \<le> DEFAULT_COMMS_SPACE"
  using frames_keep_rest [of t a b] by (fastforce simp: short_pieces_def)

lemma short_tail: "short_pieces t (a @ b) \<Longrightarrow> short_pieces t (snd (frames t a) @ b)"
  by (auto simp: short_pieces_def frames_append [of t a b])

lemma take_take_append: "take n (a @ take n b) = take n (a @ b)"
  by (simp add: take_append min_def)

lemma comms_loop_frames:
  assumes "\<forall>r \<in> set rounds. length (fst r) \<le> DEFAULT_COMMS_SPACE" and "\<not> rs_bQuit p"
    and "t = rs_cTermCharacter p" and "t \<notin> set acc"
    and "short_pieces t (acc @ concat (map fst rounds))"
    and "length (rs_InBox p) \<le> MOOS_SERIAL_INBOX_MAX_SIZE"
  shows "\<exists>box. CommsLoop rounds (acc, p) = (snd (frames t (acc @ concat (map fst rounds))), p\<lparr>rs_InBox := box\<rparr>)
    \<and> map fst box = take MOOS_SERIAL_INBOX_MAX_SIZE
        (rev (map telegram_text (fst (frames t (acc @ concat (map fst rounds))))) @ map fst (rs_InBox p))"
  using assms
proof (induction rounds arbitrary: acc p)
  case Nil
  then show ?case by (auto simp: frames_none intro!: exI [of _ "rs_InBox p"])
next
  case (Cons r rounds)
  obtain s clock where r: "r = (s, clock)" by force
  let ?S = "concat (map fst rounds)"
  have short: "short_pieces t ((acc @ s) @ ?S)" using Cons.prems(5) by (simp add: r)
  have "length acc \<le> DEFAULT_COMMS_SPACE"
    using short_rest [of t acc "s @ ?S"] Cons.prems(4,5) by (simp add: r frames_none)
  then have fits: "\<not> length acc + length s > 2 * DEFAULT_COMMS_SPACE"
    using Cons.prems(1) by (simp add: r)
  obtain stamps where st: "length stamps = length (fst (frames t (acc @ s)))"
    "cut_telegrams (length (acc @ s)) t clock (acc @ s, rs_InBox p) =
      (snd (frames t (acc @ s)),
       rev (zip (map telegram_text (fst (frames t (acc @ s)))) stamps) @ rs_InBox p)"
    using cut_frames [of "acc @ s" "length (acc @ s)" t clock "rs_InBox p", OF order_refl] by blast
  define p' where "p' = p\<lparr>rs_InBox := take MOOS_SERIAL_INBOX_MAX_SIZE
      (rev (zip (map telegram_text (fst (frames t (acc @ s)))) stamps) @ rs_InBox p)\<rparr>"
  have round: "CommsRound s clock (acc, p) = (snd (frames t (acc @ s)), p')"
    using fits st(2) Cons.prems(3) by (simp add: CommsRound_def p'_def Let_def)
  have p': "\<not> rs_bQuit p'" "t = rs_cTermCharacter p'"
    "length (rs_InBox p') \<le> MOOS_SERIAL_INBOX_MAX_SIZE"
    using Cons.prems by (simp_all add: p'_def)
  have box: "map fst (rs_InBox p') = take MOOS_SERIAL_INBOX_MAX_SIZE
      (rev (map telegram_text (fst (frames t (acc @ s)))) @ map fst (rs_InBox p))"
    using st(1) by (simp add: p'_def rev_map flip: take_map rev_map)
  obtain box' where ih: "CommsLoop rounds (snd (frames t (acc @ s)), p') =
      (snd (frames t (snd (frames t (acc @ s)) @ ?S)), p'\<lparr>rs_InBox := box'\<rparr>)"
    "map fst box' = take MOOS_SERIAL_INBOX_MAX_SIZE
      (rev (map telegram_text (fst (frames t (snd (frames t (acc @ s)) @ ?S)))) @ map fst (rs_InBox p'))"
    using Cons.IH [OF _ p'(1,2) frames_rest short_tail [OF short] p'(3)] Cons.prems(1) by auto
  have same: "p'\<lparr>rs_InBox := box'\<rparr> = p\<lparr>rs_InBox := box'\<rparr>" by (simp add: p'_def)
  have "CommsLoop (r # rounds) (acc, p) =
      (snd (frames t (acc @ concat (map fst (r # rounds)))), p\<lparr>rs_InBox := box'\<rparr>)"
    using ih(1) same round Cons.prems(2) frames_append [of t "acc @ s" ?S] by (simp add: r)
  moreover have "map fst box' = take MOOS_SERIAL_INBOX_MAX_SIZE
      (rev (map telegram_text (fst (frames t (acc @ concat (map fst (r # rounds)))))) @ map fst (rs_InBox p))"
    unfolding ih(2) box take_take_append using frames_append [of t "acc @ s" ?S]
    by (simp add: r del: take_append)
  ultimately show ?case by blast
qed

end
