(* ===== verification/Moos_Instrument.thy ===== *)
theory Moos_Instrument
  imports Moos_Hex Moos_Serial Moos_App
begin

text \<open>
  Instruments (\<open>App/MOOSInstrument.cpp\<close>): an application with a serial port. Its set up from the
  mission file, the initialisation of its sensor, and the NMEA sentences it exchanges with a
  device, with their check sum.

  \<^item> The members of \<open>CMOOSInstrument\<close> are the data of the application (\<open>p_user\<close>).
  \<^item> \<open>InitialiseSensor\<close>, which an instrument overrides, is a parameter; the base class's fails.
  \<^item> A reader of the mission file that does not return makes the operation not return
    (\<open>None\<close>), as in the reader's theory.
\<close>

section \<open>State and set up\<close>

record instrument =
  i_Port :: serial_port
  i_bPublishRaw :: bool
  i_sResourceName :: string
  i_dfMagneticOffset :: real
  i_sPrompt :: string
  i_sInstrumentErrorMessage :: string

definition new_instrument :: instrument where
  "new_instrument =
     \<lparr>i_Port = new_serial_port, i_bPublishRaw = False, i_sResourceName = [],
      i_dfMagneticOffset = 0, i_sPrompt = [], i_sInstrumentErrorMessage = []\<rparr>"

definition of_instrument :: "(instrument \<Rightarrow> instrument) \<Rightarrow> instrument app \<Rightarrow> instrument app" where
  "of_instrument f A = A\<lparr>p_user := f (p_user A)\<rparr>"

definition SetupPort ::
  "host \<Rightarrow> (string \<Rightarrow> int \<Rightarrow> bool) \<Rightarrow> bool \<Rightarrow> instrument app \<Rightarrow> (bool \<times> instrument app) option" where
  "SetupPort h Create Start A =
     map_option
       (\<lambda>(b, sParams, C).
          let A = A\<lparr>p_MissionReader := C\<rparr>
          in if \<not> b then (False, A)
             else (let (ok, p) = ConfigurePort Create Start sParams (i_Port (p_user A))
                   in (ok, of_instrument (i_Port_update (\<lambda>_. p)) A)))
       (GetConfiguration h (p_sAppName A) (p_MissionReader A))"

text \<open>The loop of \<open>InitialiseSensorN\<close>, with the failures so far.\<close>

function init_loop :: "('a \<Rightarrow> bool \<times> 'a) \<Rightarrow> int \<Rightarrow> int \<Rightarrow> 'a \<Rightarrow> bool \<times> 'a" where
  "init_loop InitialiseSensor nAttempts i A =
     (let (ok, A) = InitialiseSensor A
      in if ok then (True, A)
         else if i + 1 > nAttempts then (False, A)
         else init_loop InitialiseSensor nAttempts (i + 1) A)"
  by pat_completeness auto
termination
  by (relation "measure (\<lambda>(_, n, i, _). nat (n - i))") auto

declare init_loop.simps [simp del]

definition InitialiseSensorN :: "('a \<Rightarrow> bool \<times> 'a) \<Rightarrow> int \<Rightarrow> 'a \<Rightarrow> bool \<times> 'a" where
  "InitialiseSensorN InitialiseSensor nAttempts A = init_loop InitialiseSensor nAttempts 0 A"

definition base_InitialiseSensor :: "'a \<Rightarrow> bool \<times> 'a" where
  "base_InitialiseSensor A = (False, A)"

definition instrument_OnStartUp :: "host \<Rightarrow> instrument app \<Rightarrow> instrument app option" where
  "instrument_OnStartUp h A =
     (let A = of_instrument (i_bPublishRaw_update (\<lambda>_. False)) A in
      case GetConfigurationParam h ''PUBLISHRAW'' (p_MissionReader A) of
        None \<Rightarrow> None
      | Some (sRaw, C) \<Rightarrow>
          (let A = (case sRaw of
                      None \<Rightarrow> A
                    | Some s \<Rightarrow> of_instrument (i_bPublishRaw_update (\<lambda>_. MOOSStrCmp s ''TRUE'')) A)
           in map_option
                (\<lambda>(v, R).
                   let A = A\<lparr>p_MissionReader := C\<lparr>c_file := R\<rparr>\<rparr>
                   in case v of
                        None \<Rightarrow> A
                      | Some s \<Rightarrow> of_instrument (i_sResourceName_update (\<lambda>_. s)) A)
                (GetValue h ''CIRCUITNAME'' (c_file C))))"

definition GetMagneticOffset :: "host \<Rightarrow> instrument app \<Rightarrow> (real \<times> instrument app) option" where
  "GetMagneticOffset h A =
     map_option
       (\<lambda>(v, R).
          let A = A\<lparr>p_MissionReader := (p_MissionReader A)\<lparr>c_file := R\<rparr>\<rparr>;
              A = of_instrument (i_dfMagneticOffset_update (\<lambda>_. case v of None \<Rightarrow> 0 | Some x \<Rightarrow> x)) A
          in (i_dfMagneticOffset (p_user A), A))
       (GetValue_double h ''MAGNETICOFFSET'' (c_file (p_MissionReader A)))"

definition SetPrompt :: "string \<Rightarrow> instrument app \<Rightarrow> instrument app" where
  "SetPrompt s = of_instrument (i_sPrompt_update (\<lambda>_. s))"

definition SetInstrumentErrorMessage :: "string \<Rightarrow> instrument app \<Rightarrow> instrument app" where
  "SetInstrumentErrorMessage s = of_instrument (i_sInstrumentErrorMessage_update (\<lambda>_. s))"

section \<open>NMEA sentences\<close>

text \<open>The exclusive or of the characters, in eight bits, and its text (\<open>ios::hex\<close>: lower case)
  with at least two digits.\<close>

definition check_sum :: "string \<Rightarrow> 8 word" where
  "check_sum s = foldl (\<lambda>x c. xor x (of_char c)) 0 s"

definition sum_text :: "8 word \<Rightarrow> string" where
  "sum_text x = (let s = show_hex (unat x) in if length s < 2 then ''0'' @ s else s)"

definition DoNMEACheckSum :: "string \<Rightarrow> bool" where
  "DoNMEACheckSum sNMEA =
     (let (_, sNMEA) = MOOSChomp sNMEA ''$'' False;
          (sToCheck, sRxCheckSum) = MOOSChomp sNMEA ''*'' False
      in MOOSStrCmp (sum_text (check_sum sToCheck)) sRxCheckSum)"

definition Message2NMEA :: "string \<Rightarrow> string" where
  "Message2NMEA sMsg =
     ''$'' @ sMsg @ ''*'' @ map toupper (sum_text (check_sum sMsg)) @ [CHR 0x0D, CHR 0x0A]"

end
