(* ===== verification/Moos_InstrumentProps.thy ===== *)
theory Moos_InstrumentProps
  imports Moos_Instrument
begin

text \<open>
  What holds of the serial port and of the instruments: how a stream is cut into telegrams, how a
  single telegram is read and when that goes wrong, and NMEA sentences sent through the port.
\<close>

section \<open>The text of a check sum\<close>

lemma sum_digit_bounds: "unat (x :: 8 word) div 16 < 16" "unat (x :: 8 word) mod 16 < 16"
  using unsigned_less [of x, where 'a = nat] by simp_all

lemma sum_text_digits: "sum_text x = [hex_digit (unat x div 16), hex_digit (unat x mod 16)]"
  using sum_digit_bounds [of x]
  by (cases "unat x < 16")
    (simp_all add: sum_text_def Let_def show_hex.simps [of "unat x"] show_hex.simps [of "unat x div 16"]
      hex_zero)

definition upper_sum :: "8 word \<Rightarrow> string" where
  "upper_sum x = map toupper (sum_text x)"

lemma upper_sum_eq: "MOOSStrCmp (sum_text x) (upper_sum y) \<longleftrightarrow> x = y"
proof -
  have "MOOSStrCmp (sum_text x) (upper_sum y) \<longleftrightarrow>
      toupper (hex_digit (unat x div 16)) = toupper (hex_digit (unat y div 16)) \<and>
      toupper (hex_digit (unat x mod 16)) = toupper (hex_digit (unat y mod 16))"
    by (simp add: upper_sum_def MOOSStrCmp_def MOOSToUpper_def sum_text_digits
        hex_chars(2) [OF sum_digit_bounds(1)] hex_chars(2) [OF sum_digit_bounds(2)])
  also have "\<dots> \<longleftrightarrow> unat x div 16 = unat y div 16 \<and> unat x mod 16 = unat y mod 16"
    using hex_digit_inj sum_digit_bounds by metis
  also have "\<dots> \<longleftrightarrow> unat x = unat y" by (metis div_mult_mod_eq)
  finally show ?thesis by (simp add: word_unat_eq_iff)
qed

lemma upper_sum_chars: "length (upper_sum x) = 2" "set (upper_sum x) \<inter> marks = {}"
  using hex_chars(1) [OF sum_digit_bounds(1), of x] hex_chars(1) [OF sum_digit_bounds(2), of x]
  by (simp_all add: upper_sum_def sum_text_digits del: insert_iff)

lemma check_of_sentence:
  assumes "CHR ''*'' \<notin> set m"
  shows "DoNMEACheckSum (''$'' @ m @ ''*'' @ upper_sum y) \<longleftrightarrow> check_sum m = y"
  using assms by (simp add: DoNMEACheckSum_def MOOSChomp_char [of "_ # _"] chomp_simps upper_sum_eq)

lemma after_asterisk: "length zs \<le> length (drop 1 (dropWhile (\<lambda>x. x \<noteq> c) (m @ c # zs)))"
  by (induction m) auto

lemma sentence_with_line_end:
  assumes "length zs \<ge> 3"
  shows "\<not> DoNMEACheckSum (''$'' @ m @ ''*'' @ zs)"
proof
  let ?rx = "drop 1 (dropWhile (\<lambda>x. x \<noteq> CHR ''*'') (m @ CHR ''*'' # zs))"
  let ?s = "sum_text (check_sum (takeWhile (\<lambda>x. x \<noteq> CHR ''*'') (m @ CHR ''*'' # zs)))"
  assume "DoNMEACheckSum (''$'' @ m @ ''*'' @ zs)"
  then have "map toupper ?s = map toupper ?rx"
    by (simp add: DoNMEACheckSum_def MOOSChomp_char MOOSStrCmp_def MOOSToUpper_def)
  then have "length ?s = length ?rx" by (rule map_eq_imp_length_eq)
  then show False using after_asterisk [of zs "CHR ''*''" m] assms by (simp add: sum_text_digits)
qed

lemma foldl_xor: "foldl (\<lambda>x c. xor x (of_char c)) (x :: 8 word) s = xor x (check_sum s)"
  unfolding check_sum_def by (induction s rule: rev_induct) (simp_all add: xor.assoc)

lemma check_sum_append: "check_sum (a @ b) = xor (check_sum a) (check_sum b)"
  using foldl_xor [of "check_sum a" b] by (simp add: check_sum_def)

lemma of_char_inj8: "(of_char c :: 8 word) = of_char d \<longleftrightarrow> c = d"
proof -
  have "unat (of_char c :: 8 word) = of_char c" for c
    using unat_of_nat [of "of_char c :: nat", where 'a = 8]
    by (simp add: of_nat_of_char del: unat_of_nat)
  then show ?thesis by (metis of_char_eq_iff)
qed

lemma check_sum_char: "check_sum [c] = of_char c"
  by (simp add: check_sum_def)

section \<open>Sentences in the stream\<close>

definition sentence :: "string \<Rightarrow> string" where
  "sentence m = ''$'' @ m @ ''*'' @ map toupper (sum_text (check_sum m))"

definition nmea_clean :: "string \<Rightarrow> bool" where
  "nmea_clean m \<longleftrightarrow> set m \<inter> {CHR 0x00, CHR 0x0A, CHR 0x0D, CHR ''*''} = {} \<and> length m \<le> 995"

lemma Message2NMEA_sentence: "Message2NMEA m = sentence m @ [CHR 0x0D, CHR 0x0A]"
  by (simp add: Message2NMEA_def sentence_def)

lemma sentence_chars:
  assumes "nmea_clean m"
  shows "set (sentence m) \<inter> {CHR 0x00, CHR 0x0A, CHR 0x0D} = {}" and "length (sentence m) \<le> 999"
  using assms upper_sum_chars(1) [of "check_sum m"] upper_sum_chars(2) [of "check_sum m"]
  by (auto simp: nmea_clean_def sentence_def simp flip: upper_sum_def)

lemma c_str_clean: "CHR 0x00 \<notin> set s \<Longrightarrow> c_str s = s"
  by (auto simp: c_str_def intro: takeWhile_all)

lemma telegram_of_sentence:
  assumes "nmea_clean m" and "l = [] \<or> l = [CHR 0x0A]"
  shows "telegram_text (l @ sentence m @ [CHR 0x0D]) = sentence m"
proof -
  have s: "CHR 0x00 \<notin> set (sentence m)" "filter (\<lambda>c. c \<noteq> CHR 0x0D) (sentence m) = sentence m"
    "filter (\<lambda>c. c \<noteq> CHR 0x0A) (sentence m) = sentence m"
    using sentence_chars(1) [OF assms(1)] by (auto intro: filter_True)
  have "c_str (l @ sentence m @ [CHR 0x0D]) = l @ sentence m @ [CHR 0x0D]"
    using s(1) assms(2) by (intro c_str_clean) auto
  then show ?thesis using s assms(2) by (auto simp: telegram_text_def)
qed

lemma frames_sentences:
  assumes "\<forall>m \<in> set ms. nmea_clean m" and "l = [] \<or> l = [CHR 0x0A]"
  shows "map telegram_text (fst (frames (CHR 0x0D) (l @ concat (map Message2NMEA ms)))) = map sentence ms
    \<and> short_pieces (CHR 0x0D) (l @ concat (map Message2NMEA ms))"
  using assms
proof (induction ms arbitrary: l)
  case Nil
  then show ?case by (auto simp: short_pieces_def DEFAULT_COMMS_SPACE_def)
next
  case (Cons m ms)
  let ?t = "CHR 0x0D" and ?rest = "[CHR 0x0A] @ concat (map Message2NMEA ms)"
  have m: "nmea_clean m" using Cons.prems by simp
  have "?t \<notin> set (l @ sentence m)" using sentence_chars(1) [OF m] Cons.prems(2) by auto
  from frames_first [OF this, of ?rest]
  have f: "frames ?t (l @ concat (map Message2NMEA (m # ms))) =
      ((l @ sentence m @ [?t]) # fst (frames ?t ?rest), snd (frames ?t ?rest))"
    by (simp add: Message2NMEA_sentence)
  have ih: "map telegram_text (fst (frames ?t ?rest)) = map sentence ms \<and> short_pieces ?t ?rest"
    using Cons.prems by (intro Cons.IH) auto
  have "length (l @ sentence m @ [?t]) \<le> 1001"
    using sentence_chars(2) [OF m] Cons.prems(2) by auto
  then show ?case
    using ih telegram_of_sentence [OF m Cons.prems(2)] unfolding short_pieces_def f
    by (auto simp: DEFAULT_COMMS_SPACE_def)
qed

section \<open>One telegram\<close>

text \<open>The characters that reads return, and how often one returns nothing.\<close>

definition grabbed :: "grab list \<Rightarrow> string" where
  "grabbed gs = concat (map (\<lambda>g. case g of Grabbed c \<Rightarrow> [c] | _ \<Rightarrow> []) gs)"

definition pauses :: "grab list \<Rightarrow> nat" where
  "pauses gs = length (filter (\<lambda>g. g = Nothing) gs)"

lemma grabbed_simps [simp]:
  "grabbed [] = []" "grabbed (Grabbed c # gs) = c # grabbed gs" "grabbed (Nothing # gs) = grabbed gs"
  "grabbed (Failed # gs) = grabbed gs"
  "pauses [] = 0" "pauses (Grabbed c # gs) = pauses gs" "pauses (Nothing # gs) = pauses gs + 1"
  "pauses (Failed # gs) = pauses gs"
  by (simp_all add: grabbed_def pauses_def)

lemma telegram_loop_reads:
  assumes "t \<notin> set (grabbed rs)" and "Failed \<notin> set rs" and "pauses rs < waits"
    and "length pData + length (grabbed rs) < TELEGRAM_LEN"
  shows "telegram_loop t waits (rs @ gs) 0 pData
    = telegram_loop t (waits - pauses rs) gs 0 (pData @ grabbed rs)"
  using assms
proof (induction rs arbitrary: pData waits)
  case (Cons r rs)
  then show ?case
    by (cases r; subst telegram_loop.simps) (auto simp: IsCompleteReply_def Let_def)
qed simp

lemma telegram_loop_last:
  assumes "waits > 0" and "length pData < TELEGRAM_LEN"
  shows "telegram_loop t waits (Grabbed t # gs) 0 pData =
    ((if length pData + 1 = TELEGRAM_LEN then Overrun (int TELEGRAM_LEN)
      else Telegram (telegram_text (pData @ [t]))), 0, pData @ [t], gs)"
  using assms by (subst telegram_loop.simps) (auto simp: IsCompleteReply_def Let_def)

lemma telegram_loop_full:
  "length pData \<ge> TELEGRAM_LEN \<Longrightarrow> telegram_loop t waits gs below pData = (TimedOut, below, pData, gs)"
  by (subst telegram_loop.simps) simp

text \<open>Characters with pauses between them, shorter than the time-out in all, and then the
  termination character: \<open>GetTelegram\<close> returns them as one telegram and reads no further. When
  they fill the buffer to its last place, the NUL character behind them is written past its
  end.\<close>

theorem get_telegram_reads:
  assumes "\<not> rs_bStreaming p" and "t = rs_cTermCharacter p" and "t \<notin> set (grabbed rs)"
    and "Failed \<notin> set rs" and "pauses rs < waits" and "length (grabbed rs) < TELEGRAM_LEN"
  shows "GetTelegram p waits (rs @ Grabbed t # gs) =
    ((if length (grabbed rs) + 1 = TELEGRAM_LEN then Overrun (int TELEGRAM_LEN)
      else Telegram (telegram_text (grabbed rs @ [t]))), gs)"
  using assms telegram_loop_reads [of t rs waits "[]" "Grabbed t # gs"]
    telegram_loop_last [of "waits - pauses rs" "grabbed rs" t gs]
  by (simp add: GetTelegram_def)

text \<open>A reading that fails before anything is read moves the place of the next character in
  front of the buffer.\<close>

theorem failed_read_underruns:
  assumes "\<not> rs_bStreaming p" and "waits > 0"
  shows "GetTelegram p waits (Failed # Grabbed c # gs) = (Overrun (-1), gs)"
proof -
  have "telegram_loop t waits (Grabbed c # gs) 1 [] = (Overrun (-1), 1, [], gs)" for t
    using assms(2) by (subst telegram_loop.simps) (simp add: TELEGRAM_LEN_def)
  then have "telegram_loop t waits (Failed # Grabbed c # gs) 0 [] = (Overrun (-1), 1, [], gs)" for t
    using assms(2) by (subst telegram_loop.simps) (simp add: TELEGRAM_LEN_def)
  then show ?thesis using assms(1) by (simp add: GetTelegram_def)
qed

lemma telegram_loop_fills:
  assumes "t \<notin> set (pData @ s)" and "waits > 0" and "length pData + length s = TELEGRAM_LEN"
  shows "telegram_loop t waits (map Grabbed s @ gs) 0 pData = (TimedOut, 0, pData @ s, gs)"
  using assms
proof (induction s arbitrary: pData)
  case Nil
  then show ?case by (simp add: telegram_loop_full)
next
  case (Cons c s)
  have "telegram_loop t waits (map Grabbed (c # s) @ gs) 0 pData =
      telegram_loop t waits (map Grabbed s @ gs) 0 (pData @ [c])"
    using Cons.prems by (subst telegram_loop.simps) (auto simp: IsCompleteReply_def Let_def)
  then show ?case using Cons.IH [of "pData @ [c]"] Cons.prems by simp
qed

text \<open>A device that sends 1000 characters without the termination character fills the buffer that
  \<open>GetTelegramOrAccumulate\<close> keeps. Nothing ever empties it: from then on the function fails
  on every port without reading anything.\<close>

theorem accumulate_stuck:
  assumes "\<not> rs_bStreaming p" and "rs_cTermCharacter p \<notin> set s" and "length s = TELEGRAM_LEN"
    and "waits > 0"
  shows "GetTelegramOrAccumulate p waits (map Grabbed s @ gs) (0, []) = (TimedOut, (0, s), gs)
    \<and> GetTelegramOrAccumulate q waits' gs' (0, s) = (TimedOut, (0, s), gs')"
  using assms telegram_loop_fills [of "rs_cTermCharacter p" "[]" s waits gs]
  by (simp add: GetTelegramOrAccumulate_def telegram_loop_full)

section \<open>A stream of telegrams\<close>

text \<open>C28: However the stream of a device is cut into reads, the in box is the one of cutting the
  whole stream after every termination character: the telegrams newest first, the newest 1000
  of them, as long as no telegram is longer than a read.\<close>

theorem telegrams_framed:
  assumes "\<forall>r \<in> set rounds. length (fst r) \<le> DEFAULT_COMMS_SPACE" and "\<not> rs_bQuit p"
    and "rs_InBox p = []" and "short_pieces (rs_cTermCharacter p) (concat (map fst rounds))"
  shows "map fst (rs_InBox (snd (CommsLoop rounds ([], p)))) =
    take MOOS_SERIAL_INBOX_MAX_SIZE
      (rev (map telegram_text (fst (frames (rs_cTermCharacter p) (concat (map fst rounds))))))"
  using comms_loop_frames [OF assms(1,2) refl, of "[]"] assms(3,4) by auto

text \<open>A telegram longer than the accumulator is thrown away with all that is in it: after a
  round that overflows, the next begins with an empty accumulator.\<close>

lemma overflow_resets:
  "length acc + length s > 2 * DEFAULT_COMMS_SPACE \<Longrightarrow> CommsRound s clock (acc, p) = ([], p)"
  by (simp add: CommsRound_def)

text \<open>C15: The sentences that one side makes with \<open>Message2NMEA\<close> and writes to the port arrive at the
  other side's in box, however the reads cut them, one telegram each, newest first, and every
  one passes \<open>DoNMEACheckSum\<close>.\<close>

theorem nmea_over_port:
  assumes "\<forall>m \<in> set ms. nmea_clean m" and "concat (map fst rounds) = concat (map Message2NMEA ms)"
    and "\<forall>r \<in> set rounds. length (fst r) \<le> DEFAULT_COMMS_SPACE" and "\<not> rs_bQuit p"
    and "rs_InBox p = []" and "rs_cTermCharacter p = CHR 0x0D" and "length ms \<le> MOOS_SERIAL_INBOX_MAX_SIZE"
  shows "map fst (rs_InBox (snd (CommsLoop rounds ([], p)))) = rev (map sentence ms)
    \<and> (\<forall>m \<in> set ms. DoNMEACheckSum (sentence m))"
proof -
  have f: "map telegram_text (fst (frames (CHR 0x0D) (concat (map fst rounds)))) = map sentence ms"
    and s: "short_pieces (CHR 0x0D) (concat (map fst rounds))"
    using frames_sentences [OF assms(1), of "[]"] assms(2) by simp_all
  have "map fst (rs_InBox (snd (CommsLoop rounds ([], p)))) = rev (map sentence ms)"
    using comms_loop_frames [OF assms(3,4) refl, of "[]"] assms(5,6,7) f s by auto
  moreover have "DoNMEACheckSum (sentence m)" if "m \<in> set ms" for m
    using that assms(1) check_of_sentence [of m "check_sum m"]
    by (simp add: sentence_def upper_sum_def nmea_clean_def)
  ultimately show ?thesis by blast
qed

text \<open>A sentence in which one character was changed on the way fails the check.\<close>

theorem nmea_detects:
  assumes "CHR ''*'' \<notin> set (a @ c # d # b)"
  shows "DoNMEACheckSum (''$'' @ (a @ d # b) @ ''*'' @ map toupper (sum_text (check_sum (a @ c # b)))) \<longleftrightarrow> c = d"
proof -
  have "check_sum (a @ x # b) = xor (xor (check_sum a) (check_sum b)) (of_char x)" for x
    using check_sum_append [of a "[x] @ b"] check_sum_append [of "[x]" b]
    by (simp add: check_sum_char ac_simps)
  then have "check_sum (a @ d # b) = check_sum (a @ c # b) \<longleftrightarrow> (of_char d :: 8 word) = of_char c"
    by (metis (no_types) xor.assoc xor_self_eq xor.right_neutral xor.commute)
  then show ?thesis
    using check_of_sentence [of "a @ d # b" "check_sum (a @ c # b)"] assms
    by (auto simp: upper_sum_def of_char_inj8)
qed

text \<open>\<open>DoNMEACheckSum\<close> compares all that follows the asterisk: it refuses a sentence as
  \<open>Message2NMEA\<close> makes it, with its line end.\<close>

theorem nmea_line_end_refused:
  "\<not> DoNMEACheckSum (Message2NMEA m)"
  using sentence_with_line_end [of "upper_sum (check_sum m) @ [CHR 0x0D, CHR 0x0A]" m] upper_sum_chars(1)
  by (simp add: Message2NMEA_def upper_sum_def)

section \<open>Initialisation\<close>

text \<open>\<open>InitialiseSensorN\<close> gives up after one attempt more than it is asked for.\<close>

lemma init_loop_fails:
  assumes "\<forall>j \<le> nat (n - i). \<not> fst (f (((snd \<circ> f) ^^ j) A))"
  shows "init_loop f n i A = (False, ((snd \<circ> f) ^^ (nat (n - i) + 1)) A)"
  using assms
proof (induction "nat (n - i)" arbitrary: i A)
  case 0
  then have "\<not> fst (f A)" by (metis funpow_0 zero_le)
  then show ?case using 0 by (cases "f A") (simp add: init_loop.simps [of f n i A])
next
  case (Suc k)
  have f: "\<not> fst (f A)" using Suc.prems by (metis funpow_0 zero_le)
  have k: "k = nat (n - (i + 1))" using Suc.hyps(2) by simp
  have "\<forall>j \<le> nat (n - (i + 1)). \<not> fst (f (((snd \<circ> f) ^^ j) (snd (f A))))"
  proof (intro allI impI)
    fix j assume "j \<le> nat (n - (i + 1))"
    then have "\<not> fst (f (((snd \<circ> f) ^^ Suc j) A))" using Suc.prems Suc.hyps(2) k by (metis Suc_le_mono)
    then show "\<not> fst (f (((snd \<circ> f) ^^ j) (snd (f A))))" by (simp add: funpow_Suc_right del: funpow.simps)
  qed
  from Suc.hyps(1) [OF k this]
  have ih: "init_loop f n (i + 1) (snd (f A)) = (False, ((snd \<circ> f) ^^ (k + 1)) (snd (f A)))" by (simp flip: k)
  have "i < n" using Suc.hyps(2) by linarith
  with f have step: "init_loop f n i A = init_loop f n (i + 1) (snd (f A))"
    by (subst init_loop.simps) (cases "f A", simp)
  have "((snd \<circ> f) ^^ (Suc k + 1)) A = ((snd \<circ> f) ^^ (k + 1)) (snd (f A))"
    by (metis Suc_eq_plus1 comp_apply funpow_Suc_right)
  with ih step show ?case unfolding Suc.hyps(2) [symmetric] by simp
qed

lemma initialise_gives_up:
  assumes "\<forall>j \<le> nat n. \<not> fst (f (((snd \<circ> f) ^^ j) A))"
  shows "InitialiseSensorN f n A = (False, ((snd \<circ> f) ^^ (nat n + 1)) A)"
  using init_loop_fails [of n 0 f A] assms by (simp add: InitialiseSensorN_def)

section \<open>Witnesses\<close>

lemmas nmea_code = sentence_def Message2NMEA_def check_sum_def sum_text_digits hex_digit_def nmea_clean_def

theorem nmea_over_port_witness:
  "map fst (rs_InBox (snd (CommsLoop
      [(''$A*'', real), (''41'' @ [CHR 0x0D, CHR 0x0A] @ ''$B*42'' @ [CHR 0x0D, CHR 0x0A], real)]
      ([], new_serial_port)))) = rev (map sentence [''A'', ''B''])
   \<and> DoNMEACheckSum (sentence ''A'') \<and> DoNMEACheckSum (sentence ''B'')"
proof -
  let ?rs = "[(''$A*'', real), (''41'' @ [CHR 0x0D, CHR 0x0A] @ ''$B*42'' @ [CHR 0x0D, CHR 0x0A], real)]"
  have "map fst (rs_InBox (snd (CommsLoop ?rs ([], new_serial_port)))) = rev (map sentence [''A'', ''B''])
    \<and> (\<forall>m \<in> set [''A'', ''B'']. DoNMEACheckSum (sentence m))"
  proof (rule nmea_over_port)
    show "concat (map fst ?rs) = concat (map Message2NMEA [''A'', ''B''])" by code_simp
  qed (simp_all add: nmea_clean_def new_serial_port_def DEFAULT_COMMS_SPACE_def MOOS_SERIAL_INBOX_MAX_SIZE_def)
  then show ?thesis by simp
qed

theorem nmea_detects_witness:
  "DoNMEACheckSum (''$'' @ (''GP'' @ CHR ''A'' # ''C'') @ ''*'' @
     map toupper (sum_text (check_sum (''GP'' @ CHR ''G'' # ''C'')))) \<longleftrightarrow> CHR ''G'' = CHR ''A''"
  by (rule nmea_detects) simp

theorem get_telegram_reads_witness:
  "GetTelegram new_serial_port 3 ([Grabbed CHR ''O'', Nothing, Grabbed CHR ''K''] @ Grabbed CHR 0x0D # [Nothing])
   = (Telegram ''OK'', [Nothing])"
proof -
  let ?rs = "[Grabbed CHR ''O'', Nothing, Grabbed CHR ''K'']"
  have "GetTelegram new_serial_port 3 (?rs @ Grabbed CHR 0x0D # [Nothing]) =
      ((if length (grabbed ?rs) + 1 = TELEGRAM_LEN then Overrun (int TELEGRAM_LEN)
        else Telegram (telegram_text (grabbed ?rs @ [CHR 0x0D]))), [Nothing])"
    by (rule get_telegram_reads) (simp_all add: new_serial_port_def TELEGRAM_LEN_def)
  also have "telegram_text (grabbed ?rs @ [CHR 0x0D]) = ''OK''"
    by (simp add: telegram_text_def c_str_def)
  finally show ?thesis by (simp add: TELEGRAM_LEN_def)
qed

theorem failed_read_underruns_witness:
  "GetTelegram new_serial_port 3 (Failed # Grabbed CHR ''O'' # []) = (Overrun (-1), [])"
  by (rule failed_read_underruns) (simp_all add: new_serial_port_def)

theorem accumulate_stuck_witness:
  "GetTelegramOrAccumulate new_serial_port 5 (map Grabbed (replicate 1000 CHR ''x'') @ []) (0, [])
     = (TimedOut, (0, replicate 1000 CHR ''x''), [])
   \<and> GetTelegramOrAccumulate new_serial_port 5 [Grabbed CHR ''O'', Grabbed CHR 0x0D] (0, replicate 1000 CHR ''x'')
     = (TimedOut, (0, replicate 1000 CHR ''x''), [Grabbed CHR ''O'', Grabbed CHR 0x0D])"
  by (rule accumulate_stuck) (simp_all add: new_serial_port_def TELEGRAM_LEN_def)

theorem telegrams_framed_witness:
  "map fst (rs_InBox (snd (CommsLoop [(''a'', real), (''b'' @ [CHR 0x0D] @ ''c'', real)] ([], new_serial_port)))) = [''ab'']"
  using telegrams_framed [of "[(''a'', real), (''b'' @ [CHR 0x0D] @ ''c'', real)]" new_serial_port]
  by (simp add: new_serial_port_def DEFAULT_COMMS_SPACE_def MOOS_SERIAL_INBOX_MAX_SIZE_def short_pieces_def
      telegram_text_def c_str_def)

end
