(* ===== verification/Moos_Request.thy ===== *)
theory Moos_Request
  imports Moos_System
begin

text \<open>
  A client's request to the server (\<open>CMOOSCommClient::ServerRequest\<close>): it posts the request,
  makes an exchange and waits for the answer, which it picks from its mail by the id of the
  request.

  \<^item> \<open>arrivals\<close> is what happens to the client in the pauses of the wait, one after the other; when
    they are used up nothing happens in a pause.
  \<^item> The exceptions are those of an exchange, as in the client's theory.
\<close>

fun wait_reply :: "nat \<Rightarrow> (client \<Rightarrow> client) list \<Rightarrow> bool \<Rightarrow> moos_msg list \<Rightarrow> client \<Rightarrow> bool \<times> moos_msg list \<times> client" where
  "wait_reply 0 arrivals bClear MsgList c = (False, MsgList, c)"
| "wait_reply (Suc n) arrivals bClear MsgList c =
     (let (got, MsgList, c) = Peek MOOS_SERVER_REQUEST_ID bClear c
      in if got then (True, MsgList, c)
         else case arrivals of
                [] \<Rightarrow> wait_reply n [] bClear MsgList c
              | f # fs \<Rightarrow> wait_reply n fs bClear MsgList (f c))"

text \<open>How often \<open>dfWaited < dfTimeOut\<close> holds, in steps of 100 ms.\<close>

definition polls :: "real \<Rightarrow> nat" where
  "polls dfTimeOut = nat \<lceil>dfTimeOut * 10\<rceil>"

definition ServerRequest ::
  "(moos_msg list \<Rightarrow> moos_msg list option) \<Rightarrow> real \<Rightarrow> real \<Rightarrow> real \<Rightarrow> (client \<Rightarrow> client) list
   \<Rightarrow> string \<Rightarrow> moos_msg list \<Rightarrow> real \<Rightarrow> bool \<Rightarrow> client \<Rightarrow> string + (bool \<times> moos_msg list \<times> client)"
  where
  "ServerRequest server tx rx now arrivals sWhat MsgList dfTimeOut bClear c =
     (if \<not> c_bConnected c then Inr (False, MsgList, c)
      else let (ok, Msg, c) = Post (msg_string MOOS_SERVER_REQUEST (c_str sWhat) [] (-1) now) False c
           in if \<not> ok then Inr (False, MsgList, c)
              else case DoClientWork server tx rx c of
                     Inl e \<Rightarrow> Inl e
                   | Inr (False, c) \<Rightarrow> Inr (False, MsgList, c)
                   | Inr (True, c) \<Rightarrow>
                       if m_nID Msg \<noteq> MOOS_SERVER_REQUEST_ID then Inr (False, MsgList, c)
                       else Inr (wait_reply (polls dfTimeOut) arrivals bClear MsgList c))"

section \<open>The answer\<close>

text \<open>The request \<open>ALL\<close> as the client posts it, and what the database answers for a variable.\<close>

definition all_request_msg :: "real \<Rightarrow> client \<Rightarrow> moos_msg" where
  "all_request_msg now c =
     (msg_string MOOS_SERVER_REQUEST ''ALL'' [] (-1) now)\<lparr>m_sSrc := c_sMyName c, m_nID := MOOS_SERVER_REQUEST_ID\<rparr>"

definition all_answer :: "db \<Rightarrow> db_var \<Rightarrow> moos_msg" where
  "all_answer db v = server_all_msg (new_msg\<lparr>m_nID := MOOS_SERVER_REQUEST_ID\<rparr>) (db_dfStartTime db) v"

lemma all_request_simps [simp]:
  "m_cMsgType (all_request_msg now c) = MOOS_SERVER_REQUEST" "m_sKey (all_request_msg now c) = ''ALL''"
  "m_nID (all_request_msg now c) = MOOS_SERVER_REQUEST_ID" "\<not> is_clear (all_request_msg now c)"
  by (simp_all add: all_request_msg_def msg_string_def is_clear_def)

lemma all_answer_id: "m_nID (all_answer db v) = MOOS_SERVER_REQUEST_ID" "\<not> IsNullMsg (all_answer db v)"
  by (simp_all add: all_answer_def server_all_msg_def IsNullMsg_def IsType_def Let_def)

lemma post_request:
  assumes "c_bConnected c" and "\<not> c_bPostNewestToFront c" and "length (c_OutBox c) < c_nOutPendingLimit c"
  shows "Post (msg_string MOOS_SERVER_REQUEST ''ALL'' [] (-1) now) False c =
    (True, all_request_msg now c, c\<lparr>c_OutBox := c_OutBox c @ [all_request_msg now c]\<rparr>)"
  using assms
  by (auto simp: Post_def IsType_def msg_string_def push_newest_def all_request_msg_def Let_def)

lemma answers_in_reply:
  assumes "server_ok s" and "db_ok (s_DB s)" and "map_of (s_Socket2ClientMap s) fb = Some b"
    and "io_bSent j" and "\<forall>x \<in> set pre. \<not> is_clear x"
  defines "db \<equiv> snd (process_all (view (io_timing j) (io_date j) s) pre [] (s_DB s))"
  shows "\<exists>tx. fst (snd (ProcessClient (j\<lparr>io_MsgLstRx := Some (pre @ [all_request_msg now c])\<rparr>) fb s)) = Some tx
    \<and> all_answer db ` snd ` set (db_VarMap db) \<subseteq> set tx"
proof -
  let ?sv = "view (io_timing j) (io_date j) s" and ?q = "all_request_msg now c"
  let ?rx = "pre @ [?q]" and ?j = "j\<lparr>io_MsgLstRx := Some (pre @ [?q])\<rparr>"
  have fb: "fb \<in> fst ` set (s_Socket2ClientMap s)" using assms(3) by (metis map_of_None_notin option.distinct(1))
  have "server_all_msg ?q (db_dfStartTime db) = all_answer db"
    by (simp add: fun_eq_iff all_answer_def server_all_msg_def Let_def)
  then have all: "all_answer db ` snd ` set (db_VarMap db) \<subseteq> set (fst (process_all ?sv ?rx [] (s_DB s)))"
    by (auto simp: process_all_append process_all_def [of _ "[?q]"] ProcessMsg_request DoServerRequest_def
        OnServerAllRequested_def server_all_fold case_prod_beta db_def)
  obtain new where "fst (snd (OnRxPkt ?sv b ?rx [] (s_DB s))) =
      box (s_DB s) b @ new @ fst (process_all ?sv ?rx [] (s_DB s))"
    using reply_of_packet [OF assms(2), of ?rx ?sv b "[]"] assms(5) by auto
  then have sub: "set (fst (process_all ?sv ?rx [] (s_DB s))) \<subseteq> set (fst (snd (OnRxPkt ?sv b ?rx [] (s_DB s))))"
    by auto
  have "fst (snd (ProcessClient ?j fb s)) =
      Some (new_msg\<lparr>m_dfVal := io_MOOSLocalTime j\<rparr> # fst (snd (OnRxPkt ?sv b ?rx [] (s_DB s))))"
    using assms(3,4) by (simp add: ProcessClient_eq [OF assms(1) fb] pkt_call_def GetClientName_def case_prod_beta)
  with all sub show ?thesis by fastforce
qed

lemma peek_loop_replies: "peek_loop n ms l = (rev (filter (\<lambda>m. \<not> IsNullMsg m \<and> m_nID m = n) ms) @ l,
    filter (\<lambda>m. \<not> (\<not> IsNullMsg m \<and> m_nID m = n)) ms)"
  by (induction n ms l rule: peek_loop.induct) auto

lemma wait_reply_there:
  assumes "n > 0" and "m \<in> set (c_InBox c)" and "\<not> IsNullMsg m" and "m_nID m = MOOS_SERVER_REQUEST_ID"
  shows "\<exists>c'. wait_reply n arrivals bClear l0 c = (True,
    rev (filter (\<lambda>m. \<not> IsNullMsg m \<and> m_nID m = MOOS_SERVER_REQUEST_ID) (c_InBox c)), c')
    \<and> c_bConnected c' = c_bConnected c"
proof -
  have "filter (\<lambda>m. \<not> IsNullMsg m \<and> m_nID m = MOOS_SERVER_REQUEST_ID) (c_InBox c) \<noteq> []"
    using assms(2-4) by (auto simp: filter_empty_conv)
  then show ?thesis
    using assms(1) by (cases n) (auto simp: Peek_def peek_loop_replies Let_def)
qed

text \<open>A client that asks for \<open>ALL\<close> gets a message for every variable of the database, in the
  state in which what the client had posted before the request has already been processed.\<close>

lemma all_requested:
  assumes "server_ok s" and "db_ok (s_DB s)" and "map_of (s_Socket2ClientMap s) fb = Some b" and "io_bSent j"
    and "client_ok c" and "c_bConnected c" and "\<not> c_bPostNewestToFront c"
    and "length (c_OutBox c) < c_nOutPendingLimit c" and "\<forall>x \<in> set (c_OutBox c). \<not> is_clear x"
    and "c_Msg2ActiveQueueName c = []" and "c_WildcardQueuePatterns c = []"
    and "0 < dfTimeOut"
  defines "db \<equiv> snd (process_all (view (io_timing j) (io_date j) s) (c_OutBox c) [] (s_DB s))"
  assumes "db_VarMap db \<noteq> []"
  shows "\<exists>l c'. ServerRequest (\<lambda>rx. fst (snd (ProcessClient (j\<lparr>io_MsgLstRx := Some rx\<rparr>) fb s)))
      t r now arrivals ''ALL'' l0 dfTimeOut bClear c = Inr (True, l, c')
    \<and> all_answer db ` snd ` set (db_VarMap db) \<subseteq> set l \<and> c_bConnected c'"
proof -
  let ?q = "all_request_msg now c" and ?server = "\<lambda>rx. fst (snd (ProcessClient (j\<lparr>io_MsgLstRx := Some rx\<rparr>) fb s))"
  let ?c = "c\<lparr>c_OutBox := c_OutBox c @ [?q]\<rparr>"
  have "?c = snd (snd (Post (msg_string MOOS_SERVER_REQUEST ''ALL'' [] (-1) now) False c))"
    using post_request [OF assms(6-8)] by simp
  then have ok: "client_ok ?c" using client_ok_Post [OF assms(5)] by metis
  obtain tx where tx: "?server (outgoing ?c) = Some tx" "all_answer db ` snd ` set (db_VarMap db) \<subseteq> set tx"
    using answers_in_reply [OF assms(1-4,9), of now c] unfolding db_def by (auto simp: outgoing_def)
  obtain c1 where c1: "DoClientWork ?server t r ?c = Inr (True, c1)"
    "c_InBox c1 = unpicked ?c (pending ?c tx)" "c_bConnected c1"
    using exchange_ok [where server = ?server, OF ok _ tx(1), of t r] assms(6) by (auto simp: session_same_def)
  have "unpicked ?c (pending ?c tx) = pending ?c tx"
    using assms(10,11) by (cases "pending ?c tx")
      (simp_all add: unpicked_def routed_def has_route_def matching_def)
  then have sub: "all_answer db ` snd ` set (db_VarMap db) \<subseteq> set (c_InBox c1)"
    using tx(2) c1(2) by (auto simp: pending_def all_answer_id)
  obtain v where v: "v \<in> set (db_VarMap db)" using assms(14) by (cases "db_VarMap db") auto
  have "polls dfTimeOut > 0" using assms(12) by (simp add: polls_def)
  from wait_reply_there [OF this, of "all_answer db (snd v)" c1 arrivals bClear l0] v sub c1(3)
  obtain c' where w: "wait_reply (polls dfTimeOut) arrivals bClear l0 c1 = (True,
      rev (filter (\<lambda>m. \<not> IsNullMsg m \<and> m_nID m = MOOS_SERVER_REQUEST_ID) (c_InBox c1)), c')"
    "c_bConnected c'"
    by (auto simp: all_answer_id)
  have "ServerRequest ?server t r now arrivals ''ALL'' l0 dfTimeOut bClear c = Inr (True,
      rev (filter (\<lambda>m. \<not> IsNullMsg m \<and> m_nID m = MOOS_SERVER_REQUEST_ID) (c_InBox c1)), c')"
    using assms(6) post_request [OF assms(6-8)] c1(1) w(1)
    by (simp add: ServerRequest_def c_str_def)
  then show ?thesis using sub w(2) by (auto simp: all_answer_id)
qed

end
