(* ===== verification/Moos_HTTP.thy ===== *)
theory Moos_HTTP
  imports Moos_Hex Moos_Request
begin

text \<open>
  A connection of the database's web server (\<open>DB/HTTPConnection.cpp\<close> and its header): it reads a
  request, posts the value of a form through a client of the database, asks the database for all
  variables and sends a page with one of them or with all.

  \<^item> What the browser sends is the string \<open>input\<close>, after which it closes its side; a read that fails
    otherwise, which the source asserts not to happen, is not modelled.
  \<^item> The bytes sent are a result of \<open>Serve\<close>. The client is the one of the client's theory; what its
    exchange with the server needs is in the record \<open>web_env\<close>.
  \<^item> \<open>w_junk\<close> is the character of the \<open>int\<close> that \<open>CharFromHex\<close> leaves uninitialised. The loop of
    \<open>Decode\<close> may run for ever, so that it and what calls it return an option.
  \<^item> \<open>MOOSFormat\<close> has a buffer of 2048 characters.
\<close>

section \<open>The header of a request\<close>

type_synonym header_map = "(string, string list) omap"

definition AddHeader :: "string \<Rightarrow> header_map \<Rightarrow> header_map" where
  "AddHeader sLine m_Headers =
     (let (sHeader, sLine) = MOOSChomp (MOOSRemoveChars sLine '' '') '':'' False
      in map_set (MOOSToUpper sHeader) (StringListToVector sLine '','') m_Headers)"

definition GetHeader :: "string \<Rightarrow> header_map \<Rightarrow> string list option" where
  "GetHeader sHeader m_Headers = map_of m_Headers (MOOSToUpper sHeader)"

definition HasProperty :: "string \<Rightarrow> string \<Rightarrow> header_map \<Rightarrow> bool" where
  "HasProperty sHeader sProp m_Headers \<longleftrightarrow>
     (case GetHeader sHeader m_Headers of None \<Rightarrow> False | Some Values \<Rightarrow> \<exists>q \<in> set Values. MOOSStrCmp q sProp)"

definition IsKeepAlive :: "header_map \<Rightarrow> bool" where
  "IsKeepAlive m_Headers \<longleftrightarrow>
     (if HasProperty ''CONNECTION'' ''keep-alive'' m_Headers then True
      else if HasProperty ''CONNECTION'' ''close'' m_Headers then False
      else True)"

definition GetKeepAliveTime :: "header_map \<Rightarrow> real option" where
  "GetKeepAliveTime m_Headers =
     (case GetHeader ''Keep-Alive'' m_Headers of
        None \<Rightarrow> None
      | Some Values \<Rightarrow> if Values = [] then None else Some (atof (c_str (hd Values))))"

section \<open>The connection\<close>

record http =
  h_sFocusVariable :: string
  h_sWebPage :: string
  h_Headers :: header_map
  h_sDBHost :: string
  h_lPort :: int

record web_env =
  w_server :: "moos_msg list \<Rightarrow> moos_msg list option"
  w_tx :: real
  w_rx :: real
  w_now :: real
  w_arrivals :: "(client \<Rightarrow> client) list"
  w_junk :: char

definition new_http :: "string \<Rightarrow> int \<Rightarrow> http" where
  "new_http host port =
     \<lparr>h_sFocusVariable = [], h_sWebPage = [], h_Headers = [], h_sDBHost = host, h_lPort = port\<rparr>"

section \<open>Decoding\<close>

text \<open>\<open>operator>>\<close> with \<open>std::hex\<close> into an \<open>int\<close>: nothing but blanks leaves it alone, no digit
  makes it 0.\<close>

definition CharFromHex :: "char \<Rightarrow> string \<Rightarrow> char" where
  "CharFromHex junk a =
     (let t = dropWhile isspace a
      in if t = [] then junk
         else let (g, u) = take_sign t
              in char_of (nat ((g * int (nat_of_hex (takeWhile isxdigit u))) mod 256)))"

partial_function (option) decode_loop :: "char \<Rightarrow> string \<Rightarrow> string option" where
  "decode_loop junk Text =
     (case find_first (\<lambda>c. c = CHR ''%'') 0 Text of
        None \<Rightarrow> Some Text
      | Some Pos \<Rightarrow>
          decode_loop junk (take Pos Text @ [CharFromHex junk (take 2 (drop (Pos + 1) Text))] @ drop (Pos + 3) Text))"

definition Decode :: "char \<Rightarrow> string \<Rightarrow> string option" where
  "Decode junk Text = decode_loop junk (map (\<lambda>c. if c = CHR ''+'' then CHR '' '' else c) Text)"

section \<open>The request\<close>

text \<open>\<open>ReadLine\<close>: whether it ended with a carriage return, the line, and the rest of the input.\<close>

definition ReadLine :: "string \<Rightarrow> bool \<times> string \<times> string" where
  "ReadLine input =
     (if CHR 0x0D \<in> set input
      then (True, MOOSRemoveChars (takeWhile (\<lambda>c. c \<noteq> CHR 0x0D) input) [CHR 0x0D, CHR 0x0A],
            drop 1 (dropWhile (\<lambda>c. c \<noteq> CHR 0x0D) input))
      else (False, input, []))"

text \<open>The fields of a form, in the map of their names.\<close>

definition form_fields :: "string \<Rightarrow> (string, string) omap" where
  "form_fields sPokeURL =
     fold (\<lambda>sPair m. let (sToken, sVal) = MOOSChomp sPair ''='' False in map_set sToken sVal m)
       (StringListToVector sPokeURL ''&'') []"

definition poke_fields :: "http \<Rightarrow> (string, string) omap \<Rightarrow> (string, string) omap option" where
  "poke_fields H m =
     (if h_sFocusVariable H = []
      then (if map_of m ''VariableToPoke'' = None then None
            else if map_of m ''DoPoke'' = None then None else Some m)
      else Some (map_set ''VariableToPoke'' (h_sFocusVariable H) m))"

definition HandlePoke :: "web_env \<Rightarrow> string \<Rightarrow> http \<Rightarrow> client \<Rightarrow> (bool \<times> client) option" where
  "HandlePoke E sPokeURL H c =
     (case poke_fields H (form_fields sPokeURL) of
        None \<Rightarrow> Some (False, c)
      | Some m \<Rightarrow>
          (case map_of m ''NewValue'' of
             None \<Rightarrow> Some (False, c)
           | Some sWhat \<Rightarrow>
               (let sVar = map_get [] m ''VariableToPoke'' in
                if MOOSIsNumeric sWhat
                then Some (True, snd (NotifyDouble sVar (atof (c_str sWhat)) [] (-1) (w_now E) c))
                else map_option (\<lambda>v. (True, snd (NotifyString sVar v [] (-1) (w_now E) c)))
                       (Decode (w_junk E) sWhat))))"

text \<open>The lines of the header, up to one that is empty.\<close>

function header_loop :: "string \<Rightarrow> header_map \<Rightarrow> header_map \<times> string" where
  "header_loop input m_Headers =
     (let (ok, sLine, rest) = ReadLine input;
          m_Headers = (if ok \<and> sLine \<noteq> [] then AddHeader sLine m_Headers else m_Headers)
      in if sLine = [] then (m_Headers, rest) else header_loop rest m_Headers)"
  by pat_completeness auto
termination
proof (relation "measure (\<lambda>(input, _). length input)")
  fix input m x y ok sLine rest m'
  assume "x = ReadLine input" "(ok, y) = x" "(sLine, rest) = y" "\<not> sLine = []"
  moreover have "length (dropWhile (\<lambda>c. c \<noteq> CHR 0x0D) input) \<le> length input"
    by (rule length_dropWhile_le)
  ultimately show "((rest, m'), input, m) \<in> measure (\<lambda>(input, _). length input)"
    by (cases input) (auto simp: ReadLine_def split: if_splits)
qed simp

declare header_loop.simps [simp del]

definition ReadRequest :: "web_env \<Rightarrow> string \<Rightarrow> http \<Rightarrow> client \<Rightarrow> (bool \<times> http \<times> client) option" where
  "ReadRequest E input H c =
     (let H = H\<lparr>h_Headers := []\<rparr>;
          (ok, sLine, rest) = ReadLine input
      in if \<not> ok then Some (False, H, c)
         else let (sWhat, sLine) = MOOSChomp sLine '' '' False;
                  (sPath, sLine) = MOOSChomp sLine '' '' False;
                  (sFocus, sFormContents) = MOOSChomp sPath ''?'' False;
                  H = H\<lparr>h_sFocusVariable := MOOSRemoveChars sFocus ''/''\<rparr>
              in map_option
                   (\<lambda>c. (True, H\<lparr>h_Headers := fst (header_loop rest [])\<rparr>, c))
                   (if sFormContents \<noteq> [] then map_option snd (HandlePoke E sFormContents H c) else Some c))"

section \<open>Pages\<close>

abbreviation crlf :: string where "crlf \<equiv> [CHR 0x0D, CHR 0x0A]"

definition quoted :: "string \<Rightarrow> string" where "quoted s = CHR 0x22 # s @ [CHR 0x22]"

text \<open>\<open>MOOSFormat\<close> of what \<open>vsnprintf\<close> makes.\<close>

definition fmt :: "string \<Rightarrow> string" where "fmt s = take 2047 s"

definition tag_open :: "string \<Rightarrow> string \<Rightarrow> string \<Rightarrow> bool \<Rightarrow> string" where
  "tag_open sTag sOptions sContents bNewLine =
     ''<'' @ sTag @ '' '' @ sOptions @ ''>'' @ sContents @ (if bNewLine then crlf else [])"

definition tag_close :: "string \<Rightarrow> string" where
  "tag_close sTag = ''</'' @ sTag @ ''>'' @ crlf"

definition tag_print :: "string \<Rightarrow> string \<Rightarrow> string \<Rightarrow> string" where
  "tag_print sTag sOptions sContents = tag_open sTag sOptions sContents False @ tag_close sTag"

text \<open>A tag object: opened where it is declared and closed at the end of its scope.\<close>

definition tagged :: "string \<Rightarrow> string \<Rightarrow> string \<Rightarrow> string" where
  "tagged sTag sOptions body = tag_open sTag sOptions [] True @ body @ tag_close sTag"

definition GetDescription :: "http \<Rightarrow> string" where
  "GetDescription H = fmt (c_str (h_sDBHost H) @ '':'' @ show_int (h_lPort H))"

definition string_of_msg :: "moos_msg \<Rightarrow> string" where
  "string_of_msg M = GetAsString M 12 5"

definition BuildSingleVariableWebPageContents :: "http \<Rightarrow> moos_msg list \<Rightarrow> string" where
  "BuildSingleVariableWebPageContents H MsgList =
     tag_print ''H1'' ''ALIGN=middle''
       (fmt (quoted (c_str (h_sFocusVariable H)) @ '' in MOOSDB : '' @ c_str (GetDescription H) @ '' '')) @
     (case PeekMail MsgList (h_sFocusVariable H) False False of
        Some (Msg, _) \<Rightarrow>
          tagged ''TABLE'' ''BORDER=1''
            (tagged ''TR'' []
               (tag_print ''TH'' [] ''Value'' @ tag_print ''TH'' [] ''Time'' @ tag_print ''TH'' [] ''Freq'' @
                tag_print ''TH'' [] ''Source'' @ tag_print ''TH'' [] ''Community'') @
             tagged ''TR'' []
               (tagged ''FORM'' (''action='' @ [CHR 0x27] @ ''/'' @ h_sFocusVariable H @ [CHR 0x27])
                  (tag_print ''TD'' []
                     (fmt (''<input name=NewValue value='' @ quoted (c_str (string_of_msg Msg)) @ ''>''))) @
                tag_print ''TD'' [] (fmt (show_fixed 3 (m_dfTime Msg))) @
                tag_print ''TD'' [] (fmt (show_fixed 3 (m_dfVal2 Msg))) @
                tag_print ''TD'' [] (m_sSrc Msg) @
                tag_print ''TD'' [] (m_sOriginatingCommunity Msg))) @
          tag_print ''p'' [] ''edit value box and press return to poke (set) this variable''
      | None \<Rightarrow>
          tag_print ''H2'' ''ALIGN=middle,TEXT=red''
            (fmt (''The variable '' @ c_str (h_sFocusVariable H) @ '' does not exist in this DB!''))) @
     ''<p>'' @ crlf @ tag_print ''A'' ''href = /'' ''home'' @
     tag_print ''A'' (''href = /'' @ h_sFocusVariable H) ''refresh''"

text \<open>A row of the table of all variables.\<close>

definition type_text :: "moos_msg \<Rightarrow> string" where
  "type_text M =
     (if m_cDataType M = MOOS_STRING then ''$''
      else if m_cDataType M = MOOS_DOUBLE then ''double''
      else if m_cDataType M = MOOS_BINARY_STRING then ''binary''
      else if m_cDataType M = MOOS_NOT_SET then ''pending'' else [])"

definition page_row :: "moos_msg \<Rightarrow> string" where
  "page_row M =
     tagged ''TR'' []
       (tag_print ''TD'' (''valign='' @ quoted ''left'') (tag_print ''A'' (''href = /'' @ m_sKey M) (m_sKey M)) @
        tag_print ''TD'' (''valign='' @ quoted ''left'') (fmt (show_fixed 3 (m_dfTime M))) @
        tag_print ''TD'' (''valign='' @ quoted ''left'') (fmt (type_text M)) @
        tag_print ''TD'' (''valign='' @ quoted ''left'') (fmt (show_fixed 3 (m_dfVal2 M))) @
        tag_print ''TD'' (''valign='' @ quoted ''left'') (m_sSrc M) @
        tag_print ''TD'' (''valign='' @ quoted ''left'') (m_sOriginatingCommunity M) @
        tag_print ''TD'' (''valign='' @ quoted ''left'' @ '' style='' @ quoted ''WORD-BREAK:BREAK-ALL'')
          (c_str (string_of_msg M)))"

definition BuildFullDBWebPageContents :: "http \<Rightarrow> moos_msg list \<Rightarrow> string" where
  "BuildFullDBWebPageContents H MsgList =
     tag_print ''H1'' ''ALIGN=middle'' (''Contents of MOOSDB : '' @ GetDescription H) @
     tagged ''TABLE'' (''BORDER=1 WIDTH='' @ quoted ''80%'' @ '' '')
       (tagged ''TR'' []
          (tag_print ''TH'' [] ''Name'' @ tag_print ''TH'' [] ''Time'' @ tag_print ''TH'' [] ''Type'' @
           tag_print ''TH'' [] ''Freq'' @ tag_print ''TH'' [] ''Source'' @ tag_print ''TH'' [] ''Community'' @
           tag_print ''TH'' [] ''Value'') @
        concat (map page_row MsgList)) @
     tag_print ''p'' []
       ''Click on a name column for individual variable pages. <A href = /> refresh </A>'' @
     tagged ''FORM'' (''action='' @ [CHR 0x27] @ ''/'' @ [CHR 0x27])
       (tagged ''TABLE'' []
          (tagged ''TR'' []
             (tag_print ''TH'' (''align='' @ quoted ''left'') ''New Name'' @
              tag_print ''TH'' (''align='' @ quoted ''left'') ''New Value'') @
           tagged ''TR'' []
             (tag_print ''TD'' [] ''<input name=VariableToPoke>'' @
              tag_print ''TD'' [] ''<input name=NewValue>'' @
              tag_print ''TD'' [] ''<input type=submit name=DoPoke value=Poke>'')) @
        tag_print ''p'' [] ''Add a new MOOS variable or change an existing one'')"

definition web_page :: "http \<Rightarrow> moos_msg list \<Rightarrow> string" where
  "web_page H MsgList =
     tagged ''HTML'' (''style='' @ quoted ''font-family:arial'')
       (tagged ''HEAD'' []
          (''<meta http-equiv='' @ quoted ''Content-Type'' @ '' content='' @
           quoted ''text/html; charset=utf-8'' @ ''>'' @ [CHR 0x0A] @
           tag_open ''TITLE'' [] ''MOOSDB'' True @ tag_close ''TITLE'') @
        tagged ''BODY'' ''BGCOLOR=white TEXT=black ''
          (tagged ''TABLE'' (''width='' @ quoted ''100%'' @ '' height='' @ quoted ''100%'')
             (tagged ''TR'' []
                (tagged ''TD'' (''valign='' @ quoted ''middle'' @ '' align='' @ quoted ''center'')
                   (if h_sFocusVariable H = [] then BuildFullDBWebPageContents H MsgList
                    else BuildSingleVariableWebPageContents H MsgList)))))"

definition MakeWebPage :: "web_env \<Rightarrow> http \<Rightarrow> client \<Rightarrow> string + (bool \<times> http \<times> client)" where
  "MakeWebPage E H c =
     (if MOOSStrCmp (h_sFocusVariable H) ''favicon.ico''
      then Inr (False, H\<lparr>h_sWebPage := ''Not Found''\<rparr>, c)
      else if \<not> c_bConnected c then Inr (False, H, c)
      else case ServerRequest (w_server E) (w_tx E) (w_rx E) (w_now E) (w_arrivals E) ''ALL'' [] 2 True c of
             Inl e \<Rightarrow> Inl e
           | Inr (ok, MsgList, c) \<Rightarrow>
               if \<not> ok then Inr (False, H, c)
               else Inr (True, H\<lparr>h_sWebPage := web_page H MsgList\<rparr>, c))"

section \<open>The reply\<close>

definition SendLine :: "string \<Rightarrow> string" where
  "SendLine sLine = sLine @ crlf"

definition SendFailureHeader :: string where
  "SendFailureHeader = SendLine ''HTTP/1.1 404 Not Found'' @ SendLine ''NONE'' @ SendLine []"

definition SendHeader :: "http \<Rightarrow> string" where
  "SendHeader H =
     SendLine ''HTTP/1.1 200 OK'' @ SendLine ''Content-Type: text/html; charset=ISO-8859-1'' @
     SendLine (fmt (''Content-Length: '' @ digits_of (length (h_sWebPage H)))) @ SendLine []"

definition SendWebPage :: "http \<Rightarrow> string" where
  "SendWebPage H = SendLine (h_sWebPage H)"

text \<open>What is sent, or the exception of the client's exchange.\<close>

definition Serve :: "web_env \<Rightarrow> string \<Rightarrow> http \<Rightarrow> client \<Rightarrow> (string + (string \<times> http \<times> client)) option" where
  "Serve E input H c =
     (case ReadRequest E input H c of
        None \<Rightarrow> None
      | Some (False, H, c) \<Rightarrow> Some (Inr ([], H, c))
      | Some (True, H, c) \<Rightarrow>
          (case MakeWebPage E H c of
             Inl e \<Rightarrow> Some (Inl e)
           | Inr (ok, H, c) \<Rightarrow>
               Some (Inr ((if ok then SendHeader H else SendFailureHeader) @ SendWebPage H, H, c))))"

end
