(* ===== verification/Moos_HTTPProps.thy ===== *)
theory Moos_HTTPProps
  imports Moos_HTTP
begin

text \<open>
  What holds of the web server: the value of a form arrives in the database as the browser had
  it (\<open>decode_encoded\<close>, \<open>form_posts\<close>) and on the page that is sent back, when decoding
  returns (\<open>decode_returns\<close>) and what a percent sign does to it.
\<close>

section \<open>Encoding by the browser\<close>

definition keep_char :: "char \<Rightarrow> bool" where
  "keep_char c \<longleftrightarrow> isdigit c \<or> (CHR ''A'' \<le> c \<and> c \<le> CHR ''Z'') \<or> (CHR ''a'' \<le> c \<and> c \<le> CHR ''z'')
     \<or> c \<in> set ''*-._''"

text \<open>The encoding of form data (\<open>application/x-www-form-urlencoded\<close>).\<close>

definition enc_char :: "char \<Rightarrow> string" where
  "enc_char c = (if keep_char c then [c] else if c = CHR '' '' then ''+'' else CHR ''%'' # two_digits (of_char c))"

definition url_encode :: "string \<Rightarrow> string" where
  "url_encode s = concat (map enc_char s)"

section \<open>Decoding\<close>

lemma decode_plain: "CHR ''%'' \<notin> set s \<Longrightarrow> decode_loop junk s = Some s"
  by (subst decode_loop.simps) (simp add: find_first_0)

lemma decode_step:
  assumes "CHR ''%'' \<notin> set a"
  shows "decode_loop junk (a @ CHR ''%'' # s) = decode_loop junk (a @ CharFromHex junk (take 2 s) # drop 2 s)"
proof -
  have "takeWhile (\<lambda>c. c \<noteq> CHR ''%'') (a @ CHR ''%'' # s) = a"
    using assms by (simp add: takeWhile_append takeWhile_all)
  then have "find_first (\<lambda>c. c = CHR ''%'') 0 (a @ CHR ''%'' # s) = Some (length a)"
    by (simp add: find_first_0)
  then show ?thesis by (subst decode_loop.simps) (simp add: numeral_2_eq_2 numeral_3_eq_3)
qed

lemma not_x_chars: "isxdigit c \<Longrightarrow> \<not> isspace c \<and> c \<noteq> CHR ''-'' \<and> c \<noteq> CHR ''+'' \<and> c \<noteq> CHR ''%''"
  by (auto simp: isxdigit_def isdigit_def isspace_def less_eq_char_def)

lemma hex_of_digits: "CharFromHex junk (two_digits (of_char c)) = c"
proof -
  obtain x y where d: "two_digits (of_char c) = [x, y]" by (simp add: two_digits_def)
  then have x: "isxdigit x" "isxdigit y" using two_digits_x [of "of_char c"] by auto
  have "nat_of_hex [x, y] = of_char c" using two_digits_value [of "of_char c"] d by simp
  then show ?thesis using x not_x_chars [OF x(1)] unfolding d
    by (simp add: CharFromHex_def take_sign_def Let_def nat_mod_distrib)
qed

lemma decode_encoded_from:
  assumes "CHR ''%'' \<notin> set a" and "CHR ''%'' \<notin> set s"
  shows "decode_loop junk (a @ map (\<lambda>c. if c = CHR ''+'' then CHR '' '' else c) (url_encode s) @ u) =
    decode_loop junk (a @ s @ u)"
  using assms
proof (induction s arbitrary: a)
  case Nil
  then show ?case by (simp add: url_encode_def)
next
  case (Cons c s)
  let ?m = "map (\<lambda>c. if c = CHR ''+'' then CHR '' '' else c)"
  have ih: "decode_loop junk ((a @ [c]) @ ?m (url_encode s) @ u) = decode_loop junk ((a @ [c]) @ s @ u)"
    using Cons.prems by (intro Cons.IH) auto
  show ?case
  proof (cases "keep_char c \<or> c = CHR '' ''")
    case True
    then have "?m (enc_char c) = [c]"
      by (auto simp: enc_char_def keep_char_def isdigit_def less_eq_char_def)
    then show ?thesis using ih by (simp add: url_encode_def)
  next
    case False
    have "?m (two_digits (of_char c)) = two_digits (of_char c)"
      using two_digits_x [of "of_char c"] not_x_chars by (intro map_idI) auto
    then have m: "?m (enc_char c) = CHR ''%'' # two_digits (of_char c)"
      using False by (simp add: enc_char_def)
    have "length (two_digits (of_char c)) = 2" by (simp add: two_digits_def)
    then show ?thesis
      using ih decode_step [OF Cons.prems(1), of junk "two_digits (of_char c) @ ?m (url_encode s) @ u"]
        hex_of_digits [of junk c] m by (simp add: url_encode_def)
  qed
qed

text \<open>Text without a percent sign comes out of \<open>Decode\<close> as it was before the browser encoded
  it.\<close>

lemma decode_encoded_lemma: "CHR ''%'' \<notin> set s \<Longrightarrow> Decode junk (url_encode s) = Some s"
  using decode_encoded_from [of "[]" s junk "[]"] by (simp add: Decode_def decode_plain)

lemma decode_returns_from: "junk \<noteq> CHR ''%'' \<Longrightarrow> \<exists>t. decode_loop junk s = Some t"
proof (induction "length s + length (filter (\<lambda>c. c = CHR ''%'') s)" arbitrary: s rule: less_induct)
  case less
  show ?case
  proof (cases "CHR ''%'' \<in> set s")
    case True
    then obtain a b where s: "s = a @ CHR ''%'' # b" "CHR ''%'' \<notin> set a" by (metis split_list_first)
    let ?t = "a @ CharFromHex junk (take 2 b) # drop 2 b"
    have "length (filter (\<lambda>c. c = CHR ''%'') (drop 2 b)) \<le> length (filter (\<lambda>c. c = CHR ''%'') b)"
      by (metis append_take_drop_id filter_append le_add2 length_append)
    then have "length ?t + length (filter (\<lambda>c. c = CHR ''%'') ?t) < length s + length (filter (\<lambda>c. c = CHR ''%'') s)"
      using less.prems by (cases b) (auto simp: s(1) CharFromHex_def)
    from less.hyps [OF this less.prems] show ?thesis using decode_step [OF s(2)] by (simp add: s(1))
  qed (simp add: decode_plain)
qed

lemma decode_hangs_aux:
  assumes "decode_loop junk s = Some y"
  shows "junk = CHR ''%'' \<longrightarrow> (\<exists>a. s = a @ [CHR ''%''] \<and> CHR ''%'' \<notin> set a) \<longrightarrow> False"
proof (rule decode_loop.raw_induct [where P =
      "\<lambda>junk s y. junk = CHR ''%'' \<longrightarrow> (\<exists>a. s = a @ [CHR ''%''] \<and> CHR ''%'' \<notin> set a) \<longrightarrow> False", OF _ assms],
    intro impI)
  fix loop and junk :: char and s y
  assume IH: "\<And>junk s y. loop junk s = Some y \<Longrightarrow>
      junk = CHR ''%'' \<longrightarrow> (\<exists>a. s = a @ [CHR ''%''] \<and> CHR ''%'' \<notin> set a) \<longrightarrow> False"
    and eq: "(case find_first (\<lambda>c. c = CHR ''%'') 0 s of None \<Rightarrow> Some s
      | Some Pos \<Rightarrow> loop junk (take Pos s @ [CharFromHex junk (take 2 (drop (Pos + 1) s))] @ drop (Pos + 3) s)) = Some y"
    and j: "junk = CHR ''%''" and s: "\<exists>a. s = a @ [CHR ''%''] \<and> CHR ''%'' \<notin> set a"
  from s obtain a where a: "s = a @ [CHR ''%'']" "CHR ''%'' \<notin> set a" by blast
  then have "takeWhile (\<lambda>c. c \<noteq> CHR ''%'') s = a" by (simp add: takeWhile_append takeWhile_all)
  then have "find_first (\<lambda>c. c = CHR ''%'') 0 s = Some (length a)" using a by (simp add: find_first_0)
  with eq have "loop junk s = Some y" using j by (simp add: a(1) CharFromHex_def)
  from IH [OF this] j s show False by blast
qed

text \<open>Whether \<open>Decode\<close> returns depends on an uninitialised \<open>int\<close> as soon as the text ends with a
  percent sign, encoded or not: it returns unless the \<open>int\<close> happens to be a percent sign, and the
  percent sign comes out as whatever it is.\<close>

theorem decode_returns: "(\<forall>s. \<exists>t. Decode junk s = Some t) \<longleftrightarrow> junk \<noteq> CHR ''%''"
proof
  assume "\<forall>s. \<exists>t. Decode junk s = Some t"
  then obtain t where "Decode junk ''%'' = Some t" by blast
  then have "decode_loop junk ([] @ ''%'') = Some t" by (simp add: Decode_def)
  from decode_hangs_aux [OF this] show "junk \<noteq> CHR ''%''" by auto
next
  assume "junk \<noteq> CHR ''%''"
  then show "\<forall>s. \<exists>t. Decode junk s = Some t" using decode_returns_from by (simp add: Decode_def)
qed

theorem percent_lost:
  assumes "CHR ''%'' \<notin> set s" and "junk \<noteq> CHR ''%''"
  shows "Decode junk (url_encode (s @ ''%'')) = Some (s @ [junk])"
proof -
  have two: "two_digits 37 = ''25''" by code_simp
  have "url_encode (s @ ''%'') = url_encode s @ ''%25''"
    using two by (simp add: url_encode_def enc_char_def keep_char_def isdigit_def less_eq_char_def)
  then have "Decode junk (url_encode (s @ ''%'')) = decode_loop junk (s @ ''%25'')"
    using decode_encoded_from [of "[]" s junk "''%25''"] assms(1) by (simp add: Decode_def)
  also have "\<dots> = decode_loop junk (s @ CharFromHex junk (take 2 ''25'') # drop 2 ''25'')"
    using decode_step [OF assms(1), of junk "''25''"] by simp
  also have "CharFromHex junk (take 2 ''25'') = CHR ''%''"
    using hex_of_digits [of junk "CHR ''%''"] two by simp
  also have "decode_loop junk (s @ CHR ''%'' # drop 2 ''25'') = decode_loop junk (s @ [junk])"
    using decode_step [OF assms(1), of junk "[]"] by (simp add: CharFromHex_def)
  also have "\<dots> = Some (s @ [junk])" using assms by (intro decode_plain) auto
  finally show ?thesis .
qed

section \<open>A form\<close>

text \<open>What the browser sends for the form of the page of all variables.\<close>

definition form_query :: "string \<Rightarrow> string \<Rightarrow> string" where
  "form_query sVar sVal =
     join_with ''&'' [''VariableToPoke='' @ sVar, ''NewValue='' @ url_encode sVal, ''DoPoke=Poke'']"

definition form_request :: "string \<Rightarrow> string \<Rightarrow> string \<Rightarrow> string" where
  "form_request sVar sVal rest =
     ''GET'' @ '' '' @ (''/'' @ ''?'' @ form_query sVar sVal) @ '' '' @ ''HTTP/1.1'' @ [CHR 0x0D] @ rest"

text \<open>A name that needs no encoding, and a value that \<open>Decode\<close> keeps and that is not taken for a
  number.\<close>

definition poke_name_ok :: "string \<Rightarrow> bool" where
  "poke_name_ok sVar \<longleftrightarrow> sVar \<noteq> [] \<and> (\<forall>c \<in> set sVar. keep_char c \<or> c = CHR ''_'')"

definition form_ok :: "string \<Rightarrow> string \<Rightarrow> bool" where
  "form_ok sVar sVal \<longleftrightarrow> poke_name_ok sVar
     \<and> CHR ''%'' \<notin> set sVal \<and> CHR 0x00 \<notin> set sVal \<and> \<not> MOOSIsNumeric (url_encode sVal)"

lemma keep_chars: "keep_char c \<or> c = CHR ''_'' \<Longrightarrow> c \<notin> {CHR '' '', CHR ''&'', CHR ''='', CHR ''?'', CHR 0x0D, CHR 0x0A, CHR 0x00, CHR ''+'', CHR ''%''}"
  by (auto simp: keep_char_def isdigit_def less_eq_char_def)

lemma encoded_chars:
  assumes "c \<in> set (url_encode s)"
  shows "c \<notin> {CHR '' '', CHR ''&'', CHR ''='', CHR ''?'', CHR 0x0D, CHR 0x0A, CHR 0x00}"
proof -
  obtain d where "c \<in> set (enc_char d)" using assms by (auto simp: url_encode_def)
  then consider "keep_char c" | "c = CHR ''+''" | "c = CHR ''%''" | "isxdigit c"
    using two_digits_x by (auto simp: enc_char_def split: if_splits)
  then show ?thesis
  proof cases
    case 1
    then show ?thesis using keep_chars by blast
  next
    case 4
    then show ?thesis by (auto simp: isxdigit_def isdigit_def less_eq_char_def)
  qed simp_all
qed

lemma name_chars:
  assumes "poke_name_ok sVar" and "c \<in> {CHR '' '', CHR ''&'', CHR ''='', CHR ''?'', CHR 0x0D, CHR 0x0A, CHR 0x00}"
  shows "c \<notin> set sVar"
  using assms keep_chars [of c] unfolding poke_name_ok_def by blast

lemma form_fields_form:
  assumes "poke_name_ok sVar"
  shows "map_of (form_fields (form_query sVar sVal)) ''VariableToPoke'' = Some sVar"
    and "map_of (form_fields (form_query sVar sVal)) ''NewValue'' = Some (url_encode sVal)"
    and "map_of (form_fields (form_query sVar sVal)) ''DoPoke'' \<noteq> None"
proof -
  let ?fs = "[''VariableToPoke='' @ sVar, ''NewValue='' @ url_encode sVal, ''DoPoke=Poke'']"
  have "StringListToVector (form_query sVar sVal) ''&'' = ?fs"
    unfolding form_query_def using name_chars [OF assms] encoded_chars by (intro split_join) auto
  moreover have "MOOSChomp (''VariableToPoke='' @ sVar) ''='' False = (''VariableToPoke'', sVar)"
    using MOOSChomp_piece [of "CHR ''=''" "''VariableToPoke''" sVar] by simp
  moreover have "MOOSChomp (''NewValue='' @ url_encode sVal) ''='' False = (''NewValue'', url_encode sVal)"
    using MOOSChomp_piece [of "CHR ''=''" "''NewValue''" "url_encode sVal"] by simp
  moreover have "MOOSChomp ''DoPoke=Poke'' ''='' False = (''DoPoke'', ''Poke'')"
    using MOOSChomp_piece [of "CHR ''=''" "''DoPoke''" "''Poke''"] by simp
  ultimately have "form_fields (form_query sVar sVal) =
      map_set ''DoPoke'' ''Poke'' (map_set ''NewValue'' (url_encode sVal) (map_set ''VariableToPoke'' sVar []))"
    by (simp add: form_fields_def del: map_set.simps)
  then show "map_of (form_fields (form_query sVar sVal)) ''VariableToPoke'' = Some sVar"
    and "map_of (form_fields (form_query sVar sVal)) ''NewValue'' = Some (url_encode sVal)"
    and "map_of (form_fields (form_query sVar sVal)) ''DoPoke'' \<noteq> None"
    by (simp_all del: map_set.simps)
qed

lemma form_read:
  assumes "poke_name_ok sVar"
  shows "ReadRequest E (form_request sVar sVal rest) H c =
    map_option (\<lambda>x. (True, H\<lparr>h_sFocusVariable := [], h_Headers := fst (header_loop rest [])\<rparr>, snd x))
      (HandlePoke E (form_query sVar sVal) (H\<lparr>h_Headers := [], h_sFocusVariable := []\<rparr>) c)"
proof -
  let ?q = "form_query sVar sVal" and ?line = "''GET'' @ '' '' @ (''/'' @ ''?'' @ form_query sVar sVal) @ '' '' @ ''HTTP/1.1''"
  have q: "c \<notin> set ?q" if "c \<in> {CHR '' '', CHR ''?'', CHR 0x0D, CHR 0x0A}" for c
    using that name_chars [OF assms] encoded_chars by (auto simp: form_query_def)
  have line: "CHR 0x0D \<notin> set ?line" "CHR 0x0A \<notin> set ?line" using q by auto
  have "filter (\<lambda>c. c \<noteq> CHR 0x0D \<and> c \<noteq> CHR 0x0A) ?q = ?q" using q by (intro filter_True) auto
  moreover have "\<forall>c \<in> set ?q. c \<noteq> CHR 0x0D" using q by auto
  ultimately have "ReadLine (form_request sVar sVal rest) = (True, ?line, rest)"
    using line by (simp add: ReadLine_def form_request_def takeWhile_append takeWhile_all dropWhile_append
        MOOSRemoveChars_eq)
  moreover have "MOOSChomp ?line '' '' False = (''GET'', (''/'' @ ''?'' @ ?q) @ '' '' @ ''HTTP/1.1'')"
    using MOOSChomp_piece [of "CHR '' ''" "''GET''"] by simp
  moreover have "MOOSChomp ((''/'' @ ''?'' @ ?q) @ '' '' @ ''HTTP/1.1'') '' '' False = (''/'' @ ''?'' @ ?q, ''HTTP/1.1'')"
    using MOOSChomp_piece [of "CHR '' ''" "''/'' @ ''?'' @ ?q" "''HTTP/1.1''"] q by simp
  moreover have "MOOSChomp (''/'' @ ''?'' @ ?q) ''?'' False = (''/'', ?q)"
    using MOOSChomp_piece [of "CHR ''?''" "''/''" ?q] by simp
  moreover have "?q \<noteq> []" by (simp add: form_query_def)
  ultimately show ?thesis
    by (simp add: ReadRequest_def Let_def option.map_comp comp_def)
qed

lemma form_posts_lemma:
  assumes "form_ok sVar sVal"
  shows "\<exists>H'. ReadRequest E (form_request sVar sVal rest) H c =
      Some (True, H', snd (NotifyString sVar sVal [] (-1) (w_now E) c)) \<and> h_sFocusVariable H' = []"
proof -
  have n: "poke_name_ok sVar" "\<not> MOOSIsNumeric (url_encode sVal)" "CHR ''%'' \<notin> set sVal"
    using assms by (simp_all add: form_ok_def)
  have "HandlePoke E (form_query sVar sVal) (H\<lparr>h_Headers := [], h_sFocusVariable := []\<rparr>) c =
      Some (True, snd (NotifyString sVar sVal [] (-1) (w_now E) c))"
    using form_fields_form [OF n(1)] n(2,3)
    by (simp add: HandlePoke_def poke_fields_def decode_encoded_lemma map_get_def)
  then show ?thesis by (simp add: form_read [OF n(1)])
qed

text \<open>The form of the page of all variables posts the value as the browser had it, to the variable
  that was named.\<close>

theorem form_posts:
  assumes "form_ok sVar sVal"
  shows "\<exists>H'. ReadRequest E (form_request sVar sVal rest) H c =
      Some (True, H', snd (NotifyString sVar sVal [] (-1) (w_now E) c))"
  using form_posts_lemma [OF assms] by blast

text \<open>Whether a value is a number is asked of the encoded text: what it makes of nothing, or of two
  numbers with a blank between them, is a number too (zero, and the first of the two).\<close>

theorem form_number:
  assumes "poke_name_ok sVar" and "MOOSIsNumeric (url_encode sVal)"
  shows "\<exists>H'. ReadRequest E (form_request sVar sVal rest) H c =
      Some (True, H', snd (NotifyDouble sVar (atof (url_encode sVal)) [] (-1) (w_now E) c))"
proof -
  have "c_str (url_encode sVal) = url_encode sVal"
    using encoded_chars by (auto simp: c_str_def intro: takeWhile_all)
  then have "HandlePoke E (form_query sVar sVal) (H\<lparr>h_Headers := [], h_sFocusVariable := []\<rparr>) c =
      Some (True, snd (NotifyDouble sVar (atof (url_encode sVal)) [] (-1) (w_now E) c))"
    using form_fields_form [OF assms(1)] assms(2)
    by (simp add: HandlePoke_def poke_fields_def map_get_def)
  then show ?thesis by (simp add: form_read [OF assms(1)])
qed

section \<open>The page\<close>

definition shown_in :: "string \<Rightarrow> string \<Rightarrow> bool" where
  "shown_in x page \<longleftrightarrow> (\<exists>pre post. page = pre @ x @ post)"

lemma shown_refl [intro]: "shown_in x x"
  unfolding shown_in_def by (metis append_Nil append_Nil2)

lemma shown_append [intro]: "shown_in x a \<Longrightarrow> shown_in x (a @ b)" "shown_in x b \<Longrightarrow> shown_in x (a @ b)"
  unfolding shown_in_def by (metis append.assoc)+

lemma shown_tagged [intro]: "shown_in x body \<Longrightarrow> shown_in x (tagged t opts body)"
  unfolding tagged_def by (intro shown_append)

lemma shown_concat: "M \<in> set l \<Longrightarrow> shown_in (f M) (concat (map f l))"
  by (induction l) auto

lemma page_shows:
  assumes "M \<in> set l" and "h_sFocusVariable H = []"
  shows "shown_in (page_row M) (web_page H l)"
proof -
  have "shown_in (page_row M) (BuildFullDBWebPageContents H l)"
    unfolding BuildFullDBWebPageContents_def
    by (rule shown_append(2), rule shown_append(1), rule shown_tagged, rule shown_append(2),
        rule shown_concat [OF assms(1)])
  then show ?thesis
    unfolding web_page_def using assms(2) by (simp, intro shown_tagged shown_append(2))
qed

lemma focus_none: "\<not> MOOSStrCmp [] ''favicon.ico''"
  by (simp add: MOOSStrCmp_def MOOSToUpper_def)

text \<open>The message of the form as the client posts it, and what the database then answers.\<close>

lemma notify_first:
  assumes "c_bConnected c" and "c_OutBox c = []" and "1 < c_nOutPendingLimit c"
    and "CHR 0x00 \<notin> set sVar" and "CHR 0x00 \<notin> set sVal"
  shows "\<exists>msg. c_OutBox (snd (NotifyString sVar sVal [] (-1) now c)) = [msg]
    \<and> m_cMsgType msg = MOOS_NOTIFY \<and> m_cDataType msg = MOOS_STRING \<and> m_sKey msg = sVar \<and> m_sVal msg = sVal"
proof -
  have s: "c_str sVar = sVar" "c_str sVal = sVal"
    using assms(4,5) by (auto simp: c_str_def intro: takeWhile_all)
  show ?thesis
    using assms(1-3) unfolding NotifyString_def s
    by (auto simp: post_msg_def Post_def publish_def IsType_def msg_string_def push_newest_def Let_def)
qed

lemma notify_frame:
  assumes "c_bConnected c" and "c1 = snd (NotifyString sVar sVal aux t now c)"
  shows "c_bConnected c1" "c_bPostNewestToFront c1 = c_bPostNewestToFront c"
    "c_nOutPendingLimit c1 = c_nOutPendingLimit c" "c_Msg2ActiveQueueName c1 = c_Msg2ActiveQueueName c"
    "c_WildcardQueuePatterns c1 = c_WildcardQueuePatterns c"
  using assms(1) unfolding assms(2) NotifyString_def
  by (simp_all add: post_msg_posted publish_def posted_eq)

lemma notify_ok: "client_ok c \<Longrightarrow> client_ok (snd (NotifyString sVar sVal aux t now c))"
  by (simp add: NotifyString_def)

lemma poked_answer:
  assumes "db_ok db" and "m_cMsgType msg = MOOS_NOTIFY" and "m_cDataType msg = MOOS_STRING"
    and "\<forall>v. var_of db (m_sKey msg) = Some v \<longrightarrow> v_nWrittenTo v \<noteq> 0 \<longrightarrow> v_cDataType v = MOOS_STRING"
    and "db' = snd (process_all sv [msg] tx db)"
  shows "\<exists>v \<in> snd ` set (db_VarMap db'). m_sKey (all_answer db' v) = m_sKey msg
    \<and> m_sVal (all_answer db' v) = m_sVal msg \<and> m_cDataType (all_answer db' v) = MOOS_STRING"
proof -
  have db': "db' = OnNotify msg db" using assms(2) by (simp add: assms(5) process_all_def ProcessMsg_def)
  have acc: "accepted msg db"
    using assms(3,4) by (auto simp: accepted_def first_write_def current_var_def made_var_def new_var_def split: option.splits)
  let ?v = "written_var msg db"
  have "var_of db' (m_sKey msg) = Some ?v"
    using acc assms(1) by (simp add: db' OnNotify_vars db_okD(1))
  then have mem: "?v \<in> snd ` set (db_VarMap db')" by (metis image_eqI map_of_SomeD snd_conv)
  have t: "v_cDataType (seen_var msg db) = MOOS_STRING" using acc assms(3) by (simp add: accepted_iff)
  have "v_sName ?v = m_sKey msg" "v_sVal ?v = m_sVal msg" "v_cDataType ?v = MOOS_STRING"
    using current_name [OF assms(1), of msg] t by (simp_all add: written_var_def write_var_value)
  then show ?thesis using mem
    by (intro bexI [OF _ mem]) (simp add: all_answer_def server_all_msg_def Let_def)
qed

text \<open>C11: A text value that is typed into the form is on the page that comes back: the client posts it, the
  database stores it before it answers the request for all variables, and the page has a row for
  each of them. The value is text that does not encode to a number, without a percent sign and
  without a NUL; the variable's name is letters, digits and the few signs that are not encoded, and
  it has not been written with another type; the web server's client is connected, has nothing to
  send and no active queues.\<close>

theorem form_to_page:
  assumes "form_ok sVar sVal"
    and "server_ok s" and "db_ok (s_DB s)" and "map_of (s_Socket2ClientMap s) fb = Some b" and "io_bSent j"
    and "client_ok c" and "c_bConnected c" and "\<not> c_bPostNewestToFront c" and "c_OutBox c = []"
    and "2 \<le> c_nOutPendingLimit c" and "c_Msg2ActiveQueueName c = []" and "c_WildcardQueuePatterns c = []"
    and "w_server E = (\<lambda>rx. fst (snd (ProcessClient (j\<lparr>io_MsgLstRx := Some rx\<rparr>) fb s)))"
    and "\<forall>v. var_of (s_DB s) sVar = Some v \<longrightarrow> v_nWrittenTo v \<noteq> 0 \<longrightarrow> v_cDataType v = MOOS_STRING"
  shows "\<exists>sent H' c' M. Serve E (form_request sVar sVal rest) H c = Some (Inr (sent, H', c'))
    \<and> shown_in (page_row M) sent \<and> m_sKey M = sVar \<and> m_sVal M = sVal \<and> m_cDataType M = MOOS_STRING"
proof -
  let ?c = "snd (NotifyString sVar sVal [] (-1) (w_now E) c)" and ?sv = "view (io_timing j) (io_date j) s"
  obtain H1 where read: "ReadRequest E (form_request sVar sVal rest) H c = Some (True, H1, ?c)"
      and H1: "h_sFocusVariable H1 = []"
    using form_posts_lemma [OF assms(1)] by blast
  have nul: "CHR 0x00 \<notin> set sVar" "CHR 0x00 \<notin> set sVal"
    using assms(1) name_chars [of sVar "CHR 0x00"] by (simp_all add: form_ok_def)
  have limit: "1 < c_nOutPendingLimit c" using assms(10) by simp
  obtain msg where msg: "c_OutBox ?c = [msg]" "m_cMsgType msg = MOOS_NOTIFY" "m_cDataType msg = MOOS_STRING"
      "m_sKey msg = sVar" "m_sVal msg = sVal"
    using notify_first [OF assms(7,9) limit nul, of "w_now E"] by blast
  note frame = notify_frame [OF assms(7) refl, of sVar sVal "[]" "-1" "w_now E"]
  define db where "db = snd (process_all ?sv [msg] [] (s_DB s))"
  obtain v where v: "v \<in> snd ` set (db_VarMap db)" "m_sKey (all_answer db v) = sVar"
      "m_sVal (all_answer db v) = sVal" "m_cDataType (all_answer db v) = MOOS_STRING"
    using poked_answer [OF assms(3) msg(2,3) _ db_def] assms(14) msg(4,5) by auto
  have clear: "\<forall>x \<in> set (c_OutBox ?c). \<not> is_clear x" using msg(1,2) by (simp add: is_clear_def)
  have "db_VarMap db \<noteq> []" using v(1) by auto
  then obtain l c' where req: "ServerRequest (w_server E) (w_tx E) (w_rx E) (w_now E) (w_arrivals E) ''ALL'' [] 2 True ?c
      = Inr (True, l, c')" and l: "all_answer db ` snd ` set (db_VarMap db) \<subseteq> set l"
    using all_requested [OF assms(2-5) notify_ok [OF assms(6)] frame(1) _ _ clear, of 2 "w_tx E" "w_rx E" "w_now E"
        "w_arrivals E" "[]" True] assms(8,10-12) frame msg(1)
    unfolding assms(13) db_def by auto
  have "MakeWebPage E H1 ?c = Inr (True, H1\<lparr>h_sWebPage := web_page H1 l\<rparr>, c')"
    using req frame(1) by (simp add: MakeWebPage_def H1 focus_none)
  then have serve: "Serve E (form_request sVar sVal rest) H c =
      Some (Inr (SendHeader (H1\<lparr>h_sWebPage := web_page H1 l\<rparr>) @ SendLine (web_page H1 l),
        H1\<lparr>h_sWebPage := web_page H1 l\<rparr>, c'))"
    by (simp add: Serve_def read SendWebPage_def)
  have "all_answer db v \<in> set l" using l v(1) by blast
  then have "shown_in (page_row (all_answer db v)) (SendHeader (H1\<lparr>h_sWebPage := web_page H1 l\<rparr>) @ SendLine (web_page H1 l))"
    unfolding SendLine_def using page_shows [OF _ H1] by (intro shown_append) blast
  with serve v(2-4) show ?thesis by blast
qed

section \<open>Witnesses\<close>

theorem form_posts_witness:
  "\<forall>E H c rest. \<exists>H'. ReadRequest E (form_request ''NAV_MODE'' ''go home'' rest) H c =
      Some (True, H', snd (NotifyString ''NAV_MODE'' ''go home'' [] (-1) (w_now E) c))"
proof (intro allI, rule form_posts)
  have "poke_name_ok ''NAV_MODE''" by code_simp
  moreover have "\<not> MOOSIsNumeric (url_encode ''go home'')" by code_simp
  ultimately show "form_ok ''NAV_MODE'' ''go home''" by (simp add: form_ok_def)
qed

theorem form_number_witness:
  "\<forall>E H c rest. \<exists>H'. ReadRequest E (form_request ''X'' ''12 5'' rest) H c =
      Some (True, H', snd (NotifyDouble ''X'' 12 [] (-1) (w_now E) c))"
proof -
  have e: "url_encode ''12 5'' = ''12+5''" by code_simp
  have "MOOSIsNumeric ''12+5''" "poke_name_ok ''X''" by code_simp+
  moreover have "atof ''12+5'' = 12"
    by (simp add: atof_def strtod_def take_sign_def Let_def isdigit_def isspace_def nat_of_digits_def
        digit_val_def less_eq_char_def)
  ultimately show ?thesis using form_number [of "''X''" "''12 5''"] by (simp add: e)
qed

theorem percent_lost_witness: "Decode CHR 0x00 (url_encode (''100'' @ ''%'')) = Some (''100'' @ [CHR 0x00])"
  by (rule percent_lost) simp_all

end
