(* ===== verification/Moos_Queues.thy ===== *)
theory Moos_Queues
  imports Moos_ClientRuns
begin

text \<open>
  The queues between threads: the list all of them share (\<open>Utils/SafeList.h\<close>), the queue with a
  callback that a client dispatches mail to (\<open>Comms/ActiveMailQueue.cpp\<close>) and the collector of one
  message of every kind (\<open>Comms/MessageQueueAccumulator.cpp\<close>).

  \<^item> An operation is atomic: the source holds the list's mutex during each. The event that a
    waiting thread sleeps on is a flag of the list.
  \<^item> A callback is a function on the message and on a state of its own.
\<close>

section \<open>The shared list\<close>

record 'm safe_list =
  l_List :: "'m list"
  l_PushEvent :: bool

definition new_safe_list :: "'m safe_list" where
  "new_safe_list = \<lparr>l_List = [], l_PushEvent = False\<rparr>"

definition Push :: "'m \<Rightarrow> 'm safe_list \<Rightarrow> 'm safe_list" where
  "Push Element q = q\<lparr>l_List := l_List q @ [Element], l_PushEvent := True\<rparr>"

definition Pull :: "'m safe_list \<Rightarrow> 'm option \<times> 'm safe_list" where
  "Pull q =
     (let q = q\<lparr>l_PushEvent := False\<rparr>
      in case l_List q of [] \<Rightarrow> (None, q) | m # ms \<Rightarrow> (Some m, q\<lparr>l_List := ms\<rparr>))"

definition Pop :: "'m safe_list \<Rightarrow> 'm safe_list" where
  "Pop q = q\<lparr>l_PushEvent := False, l_List := tl (l_List q)\<rparr>"

text \<open>The two splices: the list that is emptied is part of the result.\<close>

definition AppendToMeInConstantTime :: "'m list \<Rightarrow> 'm safe_list \<Rightarrow> 'm list \<times> 'm safe_list" where
  "AppendToMeInConstantTime ThingToAppend q =
     (if ThingToAppend = [] then (ThingToAppend, q)
      else ([], q\<lparr>l_List := l_List q @ ThingToAppend, l_PushEvent := True\<rparr>))"

definition AppendToOtherInConstantTime :: "'m list \<Rightarrow> 'm safe_list \<Rightarrow> 'm list \<times> 'm safe_list" where
  "AppendToOtherInConstantTime ThingToAppendTo q =
     (if l_List q = [] then (ThingToAppendTo, q)
      else (ThingToAppendTo @ l_List q, q\<lparr>l_List := []\<rparr>))"

definition PeekLatest :: "'m safe_list \<Rightarrow> 'm option" where
  "PeekLatest q = (if l_List q = [] then None else Some (last (l_List q)))"

definition PeekNext :: "'m safe_list \<Rightarrow> 'm option" where
  "PeekNext q = (case l_List q of [] \<Rightarrow> None | m # _ \<Rightarrow> Some m)"

text \<open>\<open>WaitForPush\<close> at the moment its wait ends: whether the event was set, which waiting resets.\<close>

definition WaitForPush :: "'m safe_list \<Rightarrow> bool \<times> 'm safe_list" where
  "WaitForPush q = (l_PushEvent q, q\<lparr>l_PushEvent := False\<rparr>)"

definition IsEmpty :: "'m safe_list \<Rightarrow> bool" where
  "IsEmpty q \<longleftrightarrow> l_List q = []"

definition Size :: "'m safe_list \<Rightarrow> nat" where
  "Size q = length (l_List q)"

definition Clear :: "'m safe_list \<Rightarrow> 'm safe_list" where
  "Clear q = q\<lparr>l_PushEvent := False, l_List := []\<rparr>"

section \<open>The contract of a queue\<close>

text \<open>What the users of the list rely on: what is put in is taken out once, in order.\<close>

locale mail_queue =
  fixes items :: "'q \<Rightarrow> 'm list"
    and enter :: "'m \<Rightarrow> 'q \<Rightarrow> 'q"
    and leave :: "'q \<Rightarrow> 'm option \<times> 'q"
  assumes items_enter: "items (enter m q) = items q @ [m]"
    and leave_none: "items q = [] \<Longrightarrow> fst (leave q) = None \<and> items (snd (leave q)) = []"
    and leave_some: "items q = m # ms \<Longrightarrow> fst (leave q) = Some m \<and> items (snd (leave q)) = ms"
begin

lemma enter_all: "items (fold enter ms q) = items q @ ms"
  by (induction ms arbitrary: q) (simp_all add: items_enter)

lemma leave_entered:
  "items q = [] \<Longrightarrow> ms \<noteq> [] \<Longrightarrow>
   fst (leave (fold enter ms q)) = Some (hd ms) \<and> items (snd (leave (fold enter ms q))) = tl ms"
  by (rule leave_some) (simp add: enter_all)

end

interpretation sl: mail_queue l_List Push Pull
  by unfold_locales (auto simp: Push_def Pull_def)

section \<open>A queue with a callback\<close>

text \<open>The callbacks: a member function and a function with a parameter; both may change the
  message. What they return only makes a warning.\<close>

type_synonym 's callback = "moos_msg \<Rightarrow> 's \<Rightarrow> bool \<times> moos_msg \<times> 's"

record 's active_queue =
  aq_queue :: "moos_msg safe_list"
  aq_member :: "'s callback option"
  aq_pfn :: "'s callback option"

definition new_active_queue :: "'s active_queue" where
  "new_active_queue = \<lparr>aq_queue = new_safe_list, aq_member = None, aq_pfn = None\<rparr>"

definition SetCallback :: "'s callback \<Rightarrow> 's active_queue \<Rightarrow> 's active_queue" where
  "SetCallback pfn Q = Q\<lparr>aq_member := None, aq_pfn := Some pfn\<rparr>"

definition SetMemberCallback :: "'s callback \<Rightarrow> 's active_queue \<Rightarrow> 's active_queue" where
  "SetMemberCallback f Q = Q\<lparr>aq_pfn := None, aq_member := Some f\<rparr>"

definition PushMail :: "moos_msg \<Rightarrow> 's active_queue \<Rightarrow> 's active_queue" where
  "PushMail M Q = Q\<lparr>aq_queue := Push M (aq_queue Q)\<rparr>"

text \<open>\<open>Stop\<close> up to the end of the thread.\<close>

definition terminate_msg :: "real \<Rightarrow> moos_msg" where
  "terminate_msg now = msg_string MOOS_TERMINATE_CONNECTION [] [] (-1) now"

definition StopQueue :: "real \<Rightarrow> 's active_queue \<Rightarrow> 's active_queue" where
  "StopQueue now Q = PushMail (terminate_msg now) Q"

definition call_back :: "'s active_queue \<Rightarrow> moos_msg \<Rightarrow> 's \<Rightarrow> 's" where
  "call_back Q M s =
     (let (M, s) = (case aq_member Q of None \<Rightarrow> (M, s) | Some f \<Rightarrow> snd (f M s))
      in case aq_pfn Q of None \<Rightarrow> s | Some f \<Rightarrow> snd (snd (f M s)))"

text \<open>\<open>DoWork\<close>: an element of \<open>quits\<close> is what \<open>IsQuitRequested\<close> says at a turn of the loop. \<open>Asleep\<close>: the
  list is empty and the thread waits, whatever is requested; \<open>Running\<close>: the turns given are used up.\<close>

datatype work_state = Running | Asleep | Finished

fun DoWork :: "bool list \<Rightarrow> 's active_queue \<Rightarrow> 's \<Rightarrow> work_state \<times> 's active_queue \<times> 's" where
  "DoWork [] Q s = (Running, Q, s)"
| "DoWork (quit # quits) Q s =
     (if quit then (Finished, Q, s)
      else if IsEmpty (aq_queue Q) then (Asleep, Q, s)
      else (let (M, q) = Pull (aq_queue Q); Q = Q\<lparr>aq_queue := q\<rparr>
            in case M of
                 None \<Rightarrow> (Asleep, Q, s)
               | Some M \<Rightarrow>
                   if m_cMsgType M = MOOS_TERMINATE_CONNECTION then (Finished, Q, s)
                   else if m_cMsgType M = MOOS_NOTIFY then DoWork quits Q (call_back Q M s)
                   else DoWork quits Q s))"

lemma DoWork_turn:
  assumes "l_List (aq_queue Q) = M # ms"
  shows "\<exists>q. l_List q = ms \<and> DoWork (False # quits) Q s =
    (if m_cMsgType M = MOOS_TERMINATE_CONNECTION then (Finished, Q\<lparr>aq_queue := q\<rparr>, s)
     else DoWork quits (Q\<lparr>aq_queue := q\<rparr>) (if m_cMsgType M = MOOS_NOTIFY then call_back Q M s else s))"
proof -
  obtain q where q: "Pull (aq_queue Q) = (Some M, q)" "l_List q = ms"
    using sl.leave_some [OF assms] by (metis prod.collapse)
  then show ?thesis
    using assms by (intro exI [of _ q]) (simp add: IsEmpty_def call_back_def)
qed

definition notifications :: "moos_msg list \<Rightarrow> moos_msg list" where
  "notifications ms = filter (\<lambda>M. m_cMsgType M = MOOS_NOTIFY) ms"

lemma DoWork_drains:
  assumes "l_List (aq_queue Q) = ms @ M # rest" and "m_cMsgType M = MOOS_TERMINATE_CONNECTION"
    and "\<forall>m \<in> set ms. m_cMsgType m \<noteq> MOOS_TERMINATE_CONNECTION" and "length ms < n"
  shows "\<exists>q. l_List q = rest \<and>
    DoWork (replicate n False) Q s = (Finished, Q\<lparr>aq_queue := q\<rparr>, fold (call_back Q) (notifications ms) s)"
  using assms
proof (induction ms arbitrary: Q s n)
  case Nil
  then obtain n' where "n = Suc n'" by (cases n) auto
  then show ?case using DoWork_turn [of Q M rest "replicate n' False" s] Nil by (auto simp: notifications_def)
next
  case (Cons m ms)
  obtain n' where n: "n = Suc n'" "length ms < n'" using Cons.prems(4) by (cases n) auto
  obtain q where q: "l_List q = ms @ M # rest"
    "DoWork (False # replicate n' False) Q s =
      DoWork (replicate n' False) (Q\<lparr>aq_queue := q\<rparr>) (if m_cMsgType m = MOOS_NOTIFY then call_back Q m s else s)"
    using DoWork_turn [of Q m "ms @ M # rest" "replicate n' False" s] Cons.prems(1,3) by auto
  have same: "call_back (Q\<lparr>aq_queue := q\<rparr>) = call_back Q" by (simp add: fun_eq_iff call_back_def)
  show ?case
    using Cons.IH [of "Q\<lparr>aq_queue := q\<rparr>" n' "if m_cMsgType m = MOOS_NOTIFY then call_back Q m s else s"]
      q n Cons.prems(2,3)
    by (auto simp: same notifications_def)
qed

text \<open>\<open>Stop\<close> pushes its message also to a queue that is not running, and the message stays when the thread
  sees the request to quit first: the next start ends at that message, before any mail pushed since.\<close>

lemma stale_stop_ends_next_start:
  assumes "l_List (aq_queue Q) = []"
  shows "fst (DoWork (False # quits) (fold PushMail ms (StopQueue now Q)) s) = Finished
    \<and> snd (snd (DoWork (False # quits) (fold PushMail ms (StopQueue now Q)) s)) = s"
proof -
  have "aq_queue (fold PushMail xs Q) = fold Push xs (aq_queue Q)" for xs and Q :: "'a active_queue"
    by (induction xs arbitrary: Q) (simp_all add: PushMail_def)
  then have "l_List (aq_queue (fold PushMail ms (StopQueue now Q))) = terminate_msg now # ms"
    using assms by (simp add: sl.enter_all StopQueue_def PushMail_def [of "terminate_msg now"] Push_def)
  from DoWork_turn [OF this, of quits s] show ?thesis
    by (auto simp: terminate_msg_def msg_string_def)
qed

text \<open>A queue that is stopped first calls back every notification pushed before, once each and in
  the order of pushing, and nothing that is pushed after.\<close>

theorem queue_calls_all:
  assumes "Q = fold PushMail after (StopQueue now (fold PushMail ms new_active_queue\<lparr>aq_member := f, aq_pfn := g\<rparr>))"
    and "\<forall>m \<in> set ms. m_cMsgType m \<noteq> MOOS_TERMINATE_CONNECTION" and "length ms < n"
  shows "fst (DoWork (replicate n False) Q s) = Finished
    \<and> snd (snd (DoWork (replicate n False) Q s)) = fold (call_back Q) (notifications ms) s
    \<and> l_List (aq_queue (fst (snd (DoWork (replicate n False) Q s)))) = after"
proof -
  have push: "l_List (aq_queue (fold PushMail xs Q)) = l_List (aq_queue Q) @ xs" for xs and Q :: "'a active_queue"
  proof -
    have "aq_queue (fold PushMail xs Q) = fold Push xs (aq_queue Q)"
      by (induction xs arbitrary: Q) (simp_all add: PushMail_def)
    then show ?thesis by (simp add: sl.enter_all)
  qed
  have "l_List (aq_queue Q) = ms @ terminate_msg now # after"
    unfolding assms(1) by (simp add: push StopQueue_def PushMail_def [of "terminate_msg now"] Push_def
        new_active_queue_def new_safe_list_def)
  moreover have "m_cMsgType (terminate_msg now) = MOOS_TERMINATE_CONNECTION"
    by (simp add: terminate_msg_def msg_string_def)
  ultimately obtain q where "l_List q = after"
    "DoWork (replicate n False) Q s = (Finished, Q\<lparr>aq_queue := q\<rparr>, fold (call_back Q) (notifications ms) s)"
    using DoWork_drains [of Q ms "terminate_msg now" after n s] assms(2,3) by blast
  then show ?thesis by simp
qed

text \<open>What the loop does with the mail in front of it, whatever it is told about quitting and when.\<close>

lemma DoWork_upto:
  assumes "l_List (aq_queue Q) = ms @ stop" and "stop = [] \<or> stop = [M] \<and> m_cMsgType M = MOOS_TERMINATE_CONNECTION"
    and "\<forall>m \<in> set ms. m_cMsgType m \<noteq> MOOS_TERMINATE_CONNECTION" and "k = length (takeWhile Not quits)"
  shows "\<exists>q. l_List q = drop k (ms @ stop) \<and>
    DoWork quits Q s =
      (if length ms < k then (if stop = [] then Asleep else Finished)
       else if k < length quits then Finished else Running,
       Q\<lparr>aq_queue := q\<rparr>, fold (call_back Q) (notifications (take k ms)) s)"
  using assms
proof (induction ms arbitrary: Q s quits k)
  case Nil
  have same: "Q\<lparr>aq_queue := aq_queue Q\<rparr> = Q" by simp
  show ?case
  proof (cases quits)
    case Nil
    with Nil.prems same show ?thesis by (intro exI [of _ "aq_queue Q"]) (simp add: notifications_def)
  next
    case q: (Cons quit quits')
    show ?thesis
    proof (cases "quit \<or> stop = []")
      case True
      with Nil.prems q same show ?thesis
        by (intro exI [of _ "aq_queue Q"]) (auto simp: notifications_def IsEmpty_def)
    next
      case False
      with Nil.prems have M: "l_List (aq_queue Q) = [M]" "m_cMsgType M = MOOS_TERMINATE_CONNECTION" by auto
      from DoWork_turn [OF M(1), of quits' s] M(2) obtain r where
        "l_List r = []" "DoWork (False # quits') Q s = (Finished, Q\<lparr>aq_queue := r\<rparr>, s)" by auto
      with False q Nil.prems M show ?thesis by (intro exI [of _ r]) (auto simp: notifications_def)
    qed
  qed
next
  case (Cons m ms)
  show ?case
  proof (cases "quits = [] \<or> hd quits")
    case True
    have same: "Q\<lparr>aq_queue := aq_queue Q\<rparr> = Q" by simp
    from True have "k = 0" using Cons.prems(4) by (cases quits) auto
    with True Cons.prems(1) same show ?thesis
      by (intro exI [of _ "aq_queue Q"]) (cases quits; auto simp: notifications_def)
  next
    case False
    then obtain quits' where q: "quits = False # quits'" by (cases quits) auto
    obtain r where r: "l_List r = ms @ stop"
      "DoWork quits Q s = DoWork quits' (Q\<lparr>aq_queue := r\<rparr>) (if m_cMsgType m = MOOS_NOTIFY then call_back Q m s else s)"
      using DoWork_turn [of Q m "ms @ stop" quits' s] Cons.prems(1,3) q by auto
    have same: "call_back (Q\<lparr>aq_queue := r\<rparr>) = call_back Q" by (simp add: fun_eq_iff call_back_def)
    have k: "k = Suc (length (takeWhile Not quits'))" using Cons.prems(4) q by simp
    from Cons.IH [of "Q\<lparr>aq_queue := r\<rparr>" "length (takeWhile Not quits')" quits'
        "if m_cMsgType m = MOOS_NOTIFY then call_back Q m s else s"] r Cons.prems(2,3) same k q
    show ?thesis by (auto simp: notifications_def)
  qed
qed

text \<open>C14: The mail of an exchange that is routed to a queue reaches the queue's callback. The queue was
  empty before the exchange; its thread finds the routed messages of the reply, perhaps followed by
  the message that \<open>Stop\<close> pushes, and is told at every turn whether quitting was requested. The
  callback is called with every notification among the messages it comes to before the first such
  request, once each and in order: with all of them if the request comes after as many turns as
  there are messages. What it did not come to stays in the queue, in order, and is not called back;
  \<open>Stop\<close> requests to quit right after it has pushed its message, so this can be mail from before.\<close>

theorem routed_mail_called:
  assumes "client_ok c" and "c_bConnected c" and "server (outgoing c) = Some reply"
    and "map_of (c_ActiveQueueMap c) sQueue = Some []"
    and "\<forall>m \<in> set (pending c reply). m_cMsgType m \<noteq> MOOS_TERMINATE_CONNECTION"
  shows "\<exists>c' mail. DoClientWork server tx rx c = Inr (True, c') \<and> map_of (c_ActiveQueueMap c') sQueue = Some mail
    \<and> mail = filter (\<lambda>t. sQueue \<in> targets c (m_sKey t)) (routed c (pending c reply))
    \<and> (let Q0 = fold PushMail mail (new_active_queue\<lparr>aq_member := f, aq_pfn := g\<rparr>);
           Q = (if stopped then StopQueue now Q0 else Q0);
           k = length (takeWhile Not quits);
           (state, Q', s') = DoWork quits Q s
       in s' = fold (call_back Q) (notifications (take k mail)) s
          \<and> l_List (aq_queue Q') = drop k (mail @ (if stopped then [terminate_msg now] else []))
          \<and> (length mail < k \<longrightarrow> state = (if stopped then Finished else Asleep)))"
proof -
  define mail where "mail = filter (\<lambda>t. sQueue \<in> targets c (m_sKey t)) (routed c (pending c reply))"
  obtain c' where c': "DoClientWork server tx rx c = Inr (True, c')"
      "map_of (c_ActiveQueueMap c') sQueue = Some mail"
    using exchange_ok [where server = server, OF assms(1-3), of tx rx] assms(4) by (auto simp: mail_def)
  have "set mail \<subseteq> set (pending c reply)" by (auto simp: mail_def routed_def dest: set_takeWhileD)
  then have quiet: "\<forall>m \<in> set mail. m_cMsgType m \<noteq> MOOS_TERMINATE_CONNECTION" using assms(5) by blast
  define Q0 where "Q0 = fold PushMail mail (new_active_queue\<lparr>aq_member := f, aq_pfn := g\<rparr>)"
  define Q where "Q = (if stopped then StopQueue now Q0 else Q0)"
  define stop where "stop = (if stopped then [terminate_msg now] else [])"
  have "aq_queue (fold PushMail xs Q) = fold Push xs (aq_queue Q)" for xs and Q :: "'a active_queue"
    by (induction xs arbitrary: Q) (simp_all add: PushMail_def)
  then have L: "l_List (aq_queue Q) = mail @ stop"
    by (simp add: Q_def Q0_def stop_def StopQueue_def PushMail_def [of "terminate_msg now"] sl.enter_all
        sl.items_enter new_active_queue_def new_safe_list_def)
  have st: "stop = [] \<or> stop = [terminate_msg now] \<and> m_cMsgType (terminate_msg now) = MOOS_TERMINATE_CONNECTION"
    by (simp add: stop_def terminate_msg_def msg_string_def)
  obtain q where q: "l_List q = drop (length (takeWhile Not quits)) (mail @ stop)"
    and D: "DoWork quits Q s =
      (if length mail < length (takeWhile Not quits) then (if stop = [] then Asleep else Finished)
       else if length (takeWhile Not quits) < length quits then Finished else Running,
       Q\<lparr>aq_queue := q\<rparr>, fold (call_back Q) (notifications (take (length (takeWhile Not quits)) mail)) s)"
    using DoWork_upto [where quits = quits and s = s, OF L st quiet refl] by (elim exE conjE)
  have stopped: "stop = [] \<longleftrightarrow> \<not> stopped" by (simp add: stop_def)
  show ?thesis
  proof (intro exI [of _ c'] exI [of _ mail] conjI)
    show "mail = filter (\<lambda>t. sQueue \<in> targets c (m_sKey t)) (routed c (pending c reply))" by (rule mail_def)
  qed (simp_all only: c' Let_def Q0_def [symmetric] Q_def [symmetric] stop_def [symmetric] D prod.case stopped,
       simp add: q)
qed

section \<open>One message of every kind\<close>

record accumulator =
  ac_msg2queue :: "(string, nat) omap"
  ac_store :: "moos_msg list list"
  ac_max_stored :: nat

definition new_accumulator :: accumulator where
  "new_accumulator = \<lparr>ac_msg2queue = [], ac_store = [], ac_max_stored = 10\<rparr>"

fun configure_from :: "nat \<Rightarrow> string list \<Rightarrow> accumulator \<Rightarrow> accumulator" where
  "configure_from k [] a = a"
| "configure_from k (n # MsgNames) a =
     configure_from (Suc k) MsgNames
       (a\<lparr>ac_msg2queue := map_set n k (ac_msg2queue a), ac_store := ac_store a @ [[]]\<rparr>)"

definition ConfigureAccumulator :: "string list \<Rightarrow> accumulator \<Rightarrow> accumulator" where
  "ConfigureAccumulator MsgNames a = configure_from 0 MsgNames a"

text \<open>What \<open>AddMessage\<close> does: it returns, having called back with a vector or not, or it takes the
  front of an empty queue.\<close>

datatype added = Returned bool accumulator "moos_msg list option" | NoFront

definition full_house :: "accumulator \<Rightarrow> bool" where
  "full_house a \<longleftrightarrow> (\<forall>q \<in> set (ac_msg2queue a). ac_store a ! snd q \<noteq> [])"

definition AddMessage :: "(moos_msg list \<Rightarrow> bool) option \<Rightarrow> moos_msg \<Rightarrow> accumulator \<Rightarrow> added" where
  "AddMessage cb M a =
     (case map_of (ac_msg2queue a) (m_sKey M) of
        None \<Rightarrow> Returned False a None
      | Some qnum \<Rightarrow>
          if qnum \<ge> length (ac_store a) then Returned False a None
          else (let q = M # ac_store a ! qnum;
                    q = (if length q > ac_max_stored a then butlast q else q);
                    a = a\<lparr>ac_store := (ac_store a)[qnum := q]\<rparr>
                in if \<not> full_house a then Returned True a None
                   else if [] \<in> set (ac_store a) then NoFront
                   else (let mv = map hd (ac_store a); a = a\<lparr>ac_store := map tl (ac_store a)\<rparr>
                         in case cb of None \<Rightarrow> Returned False a None
                                     | Some f \<Rightarrow> Returned (f mv) a (Some mv))))"

text \<open>As one call of \<open>ConfigureAccumulator\<close> with different names leaves it: every name has its own queue, no
  queue has more messages than are kept, and one holds messages of its name only.\<close>

definition acc_ok :: "string list \<Rightarrow> accumulator \<Rightarrow> bool" where
  "acc_ok names a \<longleftrightarrow> distinct names \<and> length (ac_store a) = length names
     \<and> map_ok (ac_msg2queue a) \<and> map_of (ac_msg2queue a) = map_of (zip names [0..<length names])
     \<and> (\<forall>q \<in> set (ac_store a). length q \<le> ac_max_stored a) \<and> ac_max_stored a = 10
     \<and> (\<forall>k < length names. \<forall>m \<in> set (ac_store a ! k). m_sKey m = names ! k)"

lemma configure_store:
  "ac_store (configure_from k names a) = ac_store a @ replicate (length names) []"
  "ac_max_stored (configure_from k names a) = ac_max_stored a"
  "map_ok (ac_msg2queue a) \<Longrightarrow> map_ok (ac_msg2queue (configure_from k names a))"
  by (induction k names a rule: configure_from.induct) (simp_all add: replicate_app_Cons_same)

lemma configure_map:
  "distinct names \<Longrightarrow> m = k + length names \<Longrightarrow>
   map_of (ac_msg2queue (configure_from k names a)) = map_of (ac_msg2queue a) ++ map_of (zip names [k..<m])"
proof (induction names arbitrary: k a)
  case (Cons n names)
  have z: "zip (n # names) [k..<m] = (n, k) # zip names [Suc k..<m]"
    using Cons.prems(2) upt_conv_Cons [of k m] by simp
  have "map_of (zip names [Suc k..<m]) n = None"
    using Cons.prems(1) by (auto simp: map_of_eq_None_iff dest: set_zip_leftD)
  then show ?case
    unfolding z using Cons.IH [of "Suc k"] Cons.prems
    by (auto simp: fun_eq_iff map_add_def split: option.split dest: set_zip_leftD)
qed simp

lemma acc_ok_configured: "distinct names \<Longrightarrow> acc_ok names (ConfigureAccumulator names new_accumulator)"
proof -
  assume d: "distinct names"
  have "map_ok (ac_msg2queue (configure_from 0 names new_accumulator))"
    by (rule configure_store(3)) (simp add: new_accumulator_def map_ok_def)
  moreover have "ac_store new_accumulator = []" "ac_max_stored new_accumulator = 10" "ac_msg2queue new_accumulator = []"
    by (simp_all add: new_accumulator_def)
  ultimately show ?thesis
    using configure_map [OF d, of _ 0 new_accumulator] d
    by (simp add: acc_ok_def ConfigureAccumulator_def configure_store)
qed

lemma acc_queue:
  assumes "acc_ok names a"
  shows "map_of (ac_msg2queue a) n = Some k \<longleftrightarrow> k < length names \<and> names ! k = n"
proof -
  have "distinct (map fst (zip names [0..<length names]))" using assms by (simp add: acc_ok_def)
  from map_of_eq_Some_iff [OF this, of n k] show ?thesis
    using assms by (auto simp: acc_ok_def in_set_zip)
qed

lemma acc_full:
  assumes "acc_ok names a" and "full_house a"
  shows "[] \<notin> set (ac_store a)"
proof
  assume "[] \<in> set (ac_store a)"
  then obtain k where k: "k < length names" "ac_store a ! k = []"
    using assms(1) by (auto simp: in_set_conv_nth acc_ok_def)
  then have "map_of (ac_msg2queue a) (names ! k) = Some k" using acc_queue [OF assms(1)] by simp
  then show False using k assms(2) map_of_SomeD by (fastforce simp: full_house_def)
qed

lemma acc_ok_store:
  assumes "acc_ok names a" and "length store = length names"
    and "\<forall>k < length names. length (store ! k) \<le> 10 \<and> (\<forall>m \<in> set (store ! k). m_sKey m = names ! k)"
  shows "acc_ok names (a\<lparr>ac_store := store\<rparr>)"
  using assms by (auto simp: acc_ok_def in_set_conv_nth)

lemma acc_okD:
  assumes "acc_ok names a" and "k < length names"
  shows "length (ac_store a ! k) \<le> 10" and "\<forall>m \<in> set (ac_store a ! k). m_sKey m = names ! k"
  using assms by (auto simp: acc_ok_def)

text \<open>A message goes to the front of its list, which keeps ten.\<close>

definition stored_at :: "moos_msg \<Rightarrow> nat \<Rightarrow> accumulator \<Rightarrow> accumulator" where
  "stored_at M k a = (let q = M # ac_store a ! k
     in a\<lparr>ac_store := (ac_store a)[k := if length q > ac_max_stored a then butlast q else q]\<rparr>)"

lemma stored_ok:
  assumes "acc_ok names a" "k < length names" "names ! k = m_sKey M"
  shows "acc_ok names (stored_at M k a)" "hd (ac_store (stored_at M k a) ! k) = M"
proof -
  let ?q0 = "M # ac_store a ! k"
  define q where "q = (if length ?q0 > 10 then butlast ?q0 else ?q0)"
  have len: "length (ac_store a) = length names" "ac_max_stored a = 10" using assms(1) by (simp_all add: acc_ok_def)
  note old = acc_okD [OF assms(1,2)]
  have "length q \<le> 10" using old(1) by (simp add: q_def)
  moreover have "set q \<subseteq> insert M (set (ac_store a ! k))" by (auto simp: q_def dest: in_set_butlastD split: if_splits)
  then have "\<forall>m \<in> set q. m_sKey m = names ! k" using old(2) assms(3) by auto
  ultimately have "acc_ok names (a\<lparr>ac_store := (ac_store a)[k := q]\<rparr>)"
    using acc_okD [OF assms(1)] len assms(2)
    by (intro acc_ok_store [OF assms(1)]) (auto simp: nth_list_update split: if_splits)
  moreover have st: "stored_at M k a = a\<lparr>ac_store := (ac_store a)[k := q]\<rparr>"
    by (simp only: stored_at_def Let_def q_def len(2))
  ultimately show "acc_ok names (stored_at M k a)" by simp
  have "length ?q0 > 10 \<Longrightarrow> ac_store a ! k \<noteq> []" by auto
  then have "hd q = M" by (auto simp: q_def)
  then show "hd (ac_store (stored_at M k a) ! k) = M" using assms(2) len(1) by (simp add: st)
qed

lemma AddMessage_stored:
  assumes "map_of (ac_msg2queue a) (m_sKey M) = Some k" "k < length (ac_store a)"
  shows "AddMessage cb M a = (let a1 = stored_at M k a in
      if \<not> full_house a1 then Returned True a1 None
      else if [] \<in> set (ac_store a1) then NoFront
      else case cb of None \<Rightarrow> Returned False (a1\<lparr>ac_store := map tl (ac_store a1)\<rparr>) None
           | Some f \<Rightarrow> Returned (f (map hd (ac_store a1))) (a1\<lparr>ac_store := map tl (ac_store a1)\<rparr>)
               (Some (map hd (ac_store a1))))"
proof -
  have in_range: "\<not> length (ac_store a) \<le> k" using assms(2) by simp
  show ?thesis unfolding AddMessage_def assms(1) option.case stored_at_def Let_def if_not_P [OF in_range] ..
qed

lemma fronts_taken:
  assumes "acc_ok names a" "full_house a"
  shows "acc_ok names (a\<lparr>ac_store := map tl (ac_store a)\<rparr>)" "map m_sKey (map hd (ac_store a)) = names"
proof -
  have len: "length (ac_store a) = length names" using assms(1) by (simp add: acc_ok_def)
  have "set (tl q) \<subseteq> set q" for q :: "moos_msg list" by (cases q) auto
  then have "\<forall>i < length names. length (map tl (ac_store a) ! i) \<le> 10
      \<and> (\<forall>m \<in> set (map tl (ac_store a) ! i). m_sKey m = names ! i)"
    using acc_okD [OF assms(1)] len by (fastforce simp: le_diff_conv)
  then show "acc_ok names (a\<lparr>ac_store := map tl (ac_store a)\<rparr>)"
    using len by (intro acc_ok_store [OF assms(1)]) simp_all
  show "map m_sKey (map hd (ac_store a)) = names"
  proof (rule nth_equalityI)
    fix i assume "i < length (map m_sKey (map hd (ac_store a)))"
    then have i: "i < length names" "i < length (ac_store a)" using len by simp_all
    then have "ac_store a ! i \<noteq> []" using acc_full [OF assms] by (metis nth_mem)
    then show "map m_sKey (map hd (ac_store a)) ! i = names ! i" using acc_okD(2) [OF assms(1) i(1)] i(2) by simp
  qed (simp add: len)
qed

text \<open>C37: After one call of \<open>ConfigureAccumulator\<close> with different names, \<open>AddMessage\<close> never takes from an empty queue,
  no queue grows beyond ten messages, and a call back gets one message of every name, in the order
  of the names, the message that was added among them.\<close>

theorem collector_complete:
  assumes "acc_ok names a"
  shows "\<exists>r a' mv. AddMessage cb M a = Returned r a' mv \<and> acc_ok names a'
    \<and> (\<forall>v. mv = Some v \<longrightarrow> map m_sKey v = names \<and> M \<in> set v)"
proof (cases "map_of (ac_msg2queue a) (m_sKey M)")
  case None
  then have "AddMessage cb M a = Returned False a None" by (simp add: AddMessage_def)
  with assms show ?thesis by blast
next
  case (Some k)
  then have k: "k < length names" "names ! k = m_sKey M" using acc_queue [OF assms] by simp_all
  let ?a1 = "stored_at M k a"
  let ?mv = "map hd (ac_store ?a1)" and ?a2 = "?a1\<lparr>ac_store := map tl (ac_store ?a1)\<rparr>"
  note ok1 = stored_ok [OF assms k]
  have len: "length (ac_store a) = length names" "length (ac_store ?a1) = length names"
    using assms ok1(1) by (simp_all add: acc_ok_def)
  note add = AddMessage_stored [OF Some, unfolded len(1), OF k(1), of cb, unfolded Let_def]
  show ?thesis
  proof (cases "full_house ?a1")
    case False
    then have "AddMessage cb M a = Returned True ?a1 None" by (simp add: add)
    with ok1(1) show ?thesis by blast
  next
    case True
    have "?mv ! k = M" using k(1) len(2) ok1(2) by simp
    then have "M \<in> set ?mv" using k(1) len(2) by (metis length_map nth_mem)
    moreover have "\<exists>r mv. AddMessage cb M a = Returned r ?a2 mv \<and> (mv = None \<or> mv = Some ?mv)"
      using add acc_full [OF ok1(1) True] True by (cases cb) (simp, blast, simp)
    ultimately show ?thesis using fronts_taken [OF ok1(1) True] by (metis option.distinct(1) option.inject)
  qed
qed

text \<open>A second call of \<open>ConfigureAccumulator\<close> gives its names the queues of the first, beside new queues that
  stay empty: the first message of either name finds all queues of names filled, and takes the
  front of an empty one.\<close>

theorem configured_twice:
  assumes "m_sKey M = A \<or> m_sKey M = B"
  shows "AddMessage cb M (ConfigureAccumulator [B] (ConfigureAccumulator [A] new_accumulator)) = NoFront"
  using assms
  by (auto simp: AddMessage_def ConfigureAccumulator_def new_accumulator_def full_house_def Let_def)

section \<open>Witnesses\<close>

definition demo_note :: "string \<Rightarrow> moos_msg" where
  "demo_note sKey = msg_double MOOS_NOTIFY sKey 1 5 5"

definition remember :: "string list callback" where
  "remember M s = (True, M, s @ [m_sKey M])"

theorem queue_calls_all_witness:
  "fst (DoWork (replicate 5 False) (fold PushMail [demo_note ''Z''] (StopQueue 6 (fold PushMail
       [demo_note ''X'', demo_note ''Y''] new_active_queue\<lparr>aq_member := None, aq_pfn := Some remember\<rparr>))) [])
     = Finished
   \<and> snd (snd (DoWork (replicate 5 False) (fold PushMail [demo_note ''Z''] (StopQueue 6 (fold PushMail
       [demo_note ''X'', demo_note ''Y''] new_active_queue\<lparr>aq_member := None, aq_pfn := Some remember\<rparr>))) []))
     = [''X'', ''Y'']"
proof -
  let ?ms = "[demo_note ''X'', demo_note ''Y'']"
  let ?Q = "fold PushMail [demo_note ''Z''] (StopQueue 6 (fold PushMail ?ms
    new_active_queue\<lparr>aq_member := None, aq_pfn := Some remember\<rparr>))"
  have "\<forall>m \<in> set ?ms. m_cMsgType m \<noteq> MOOS_TERMINATE_CONNECTION"
    by (simp add: demo_note_def msg_double_def)
  from queue_calls_all [OF refl this, where n = 5 and after = "[demo_note ''Z'']" and now = 6 and f = None
      and g = "Some remember" and s = "[]"]
  have "fst (DoWork (replicate 5 False) ?Q []) = Finished"
    and "snd (snd (DoWork (replicate 5 False) ?Q [])) = fold (call_back ?Q) (notifications ?ms) []"
    by simp_all
  moreover have "notifications ?ms = ?ms"
    by (simp add: notifications_def demo_note_def msg_double_def)
  moreover have "call_back ?Q M s = s @ [m_sKey M]" for M s
    by (simp add: call_back_def PushMail_def StopQueue_def new_active_queue_def remember_def)
  moreover have "m_sKey (demo_note k) = k" for k by (simp add: demo_note_def msg_double_def)
  ultimately show ?thesis by simp
qed

theorem collector_complete_witness:
  "\<exists>r a' mv. AddMessage None (demo_note ''Y'') (ConfigureAccumulator [''X'', ''Y''] new_accumulator) = Returned r a' mv
     \<and> acc_ok [''X'', ''Y''] a' \<and> (mv = None \<or> map m_sKey (the mv) = [''X'', ''Y''])"
proof -
  have "acc_ok [''X'', ''Y''] (ConfigureAccumulator [''X'', ''Y''] new_accumulator)" by (rule acc_ok_configured) simp
  from collector_complete [OF this, of None "demo_note ''Y''"] obtain r a' mv
    where "AddMessage None (demo_note ''Y'') (ConfigureAccumulator [''X'', ''Y''] new_accumulator) = Returned r a' mv"
      and "acc_ok [''X'', ''Y''] a'" and "\<forall>v. mv = Some v \<longrightarrow> map m_sKey v = [''X'', ''Y''] \<and> demo_note ''Y'' \<in> set v"
    by blast
  then show ?thesis by (cases mv) (blast, metis option.sel)
qed

theorem configured_twice_witness:
  "AddMessage None (demo_note ''X'') (ConfigureAccumulator [''Y''] (ConfigureAccumulator [''X''] new_accumulator)) = NoFront"
  by (rule configured_twice) (simp add: demo_note_def msg_double_def)

end
