(* ===== verification/Moos_HTTPExamples.thy ===== *)
theory Moos_HTTPExamples
  imports Moos_HTTPProps Moos_Queues Moos_SystemExamples
begin

text \<open>A form sent to the web server of the example database, whose client is \<open>nav\<close> on socket 4, and a
  message that the example client routes to a queue with a callback.\<close>

definition demo_web :: web_env where
  "demo_web =
     \<lparr>w_server = (\<lambda>rx. fst (snd (ProcessClient (demo_io\<lparr>io_MsgLstRx := Some rx\<rparr>) 4 demo_server))),
      w_tx = 6, w_rx = 6, w_now = 6, w_arrivals = [], w_junk = CHR ''x''\<rparr>"

lemma demo_client_order: "\<not> c_bPostNewestToFront demo_client"
  by (simp add: demo_client_def RunClient_def new_client_def)

theorem form_to_page_witness:
  "\<exists>sent H' c' M. Serve demo_web (form_request ''MODE'' ''go home'' [CHR 0x0D]) (new_http ''localhost'' 9000) demo_client
      = Some (Inr (sent, H', c'))
    \<and> shown_in (page_row M) sent \<and> m_sKey M = ''MODE'' \<and> m_sVal M = ''go home'' \<and> m_cDataType M = MOOS_STRING"
proof (rule form_to_page [where s = demo_server and fb = 4 and b = "''nav''" and j = demo_io])
  have "poke_name_ok ''MODE''" by code_simp
  moreover have "\<not> MOOSIsNumeric (url_encode ''go home'')" by code_simp
  ultimately show "form_ok ''MODE'' ''go home''" by (simp add: form_ok_def)
  show "w_server demo_web = (\<lambda>rx. fst (snd (ProcessClient (demo_io\<lparr>io_MsgLstRx := Some rx\<rparr>) 4 demo_server)))"
    by (simp add: demo_web_def)
  show "io_bSent demo_io" by (simp add: demo_io_def)
qed (simp_all add: demo_server_ok demo_ok demo_client_ok demo_client_order)

theorem routed_mail_called_witness:
  "\<exists>c' mail. DoClientWork (\<lambda>_. Some [demo_x]) 0 0 demo_queued = Inr (True, c')
     \<and> map_of (c_ActiveQueueMap c') ''q'' = Some mail
     \<and> snd (snd (DoWork [False, False]
          (StopQueue 9 (fold PushMail mail (new_active_queue\<lparr>aq_member := None, aq_pfn := Some remember\<rparr>))) [])) = [''X'']"
proof -
  have p: "pending demo_queued [demo_x] = [demo_x]" by (simp add: pending_def)
  have t: "targets demo_queued ''X'' = {''q''}"
    by (auto simp: targets_def routes_def map_get_def matching_def)
  have r: "routed demo_queued [demo_x] = [demo_x]" by (simp add: routed_def has_route_def)
  have x: "m_cMsgType demo_x = MOOS_NOTIFY" "m_sKey demo_x = ''X''" by (simp_all add: demo_x_def msg_double_def)
  let ?Q = "StopQueue 9 (fold PushMail [demo_x] (new_active_queue\<lparr>aq_member := None, aq_pfn := Some remember\<rparr>))"
  have c: "fold (call_back ?Q) (notifications [demo_x]) [] = [''X'']"
    by (simp add: x notifications_def call_back_def remember_def StopQueue_def PushMail_def)
  obtain c' where "DoClientWork (\<lambda>_. Some [demo_x]) 0 0 demo_queued = Inr (True, c')"
      "map_of (c_ActiveQueueMap c') ''q'' = Some [demo_x]" "snd (snd (DoWork [False, False] ?Q [])) = [''X'']"
    using routed_mail_called [of demo_queued "\<lambda>_. Some [demo_x]" "[demo_x]" "''q''" 0 0 "Some remember" None True 9
        "[False, False]" "[]"] c
    by (auto simp: demo_queued_ok p r t x Let_def split_beta simp del: DoWork.simps)
  then show ?thesis by blast
qed

end
