(* ===== verification/Moos_Numbers.thy ===== *)
theory Moos_Numbers
  imports Moos_Params
begin

text \<open>Integers printed by streams and read back by \<open>atoi\<close> and \<open>operator>>\<close>.\<close>

lemma digit_val_char: "k < 10 \<Longrightarrow> digit_val (char_of (48 + k :: nat)) = k"
  by (simp add: digit_val_def)

lemma nat_of_digits_of: "nat_of_digits (digits_of n) = n"
proof (induction n rule: digits_of.induct)
  case (1 n)
  have "nat_of_digits (a @ [c]) = 10 * nat_of_digits a + digit_val c" for a c
    by (simp add: nat_of_digits_def)
  then show ?case
    using 1 digit_val_char [of n] digit_val_char [of "n mod 10"]
    by (subst digits_of.simps) (auto simp: nat_of_digits_def)
qed

lemma show_int_reads:
  "(let (g, t) = take_sign (dropWhile isspace (show_int i)) in (g * int (nat_of_digits (takeWhile isdigit t)), takeWhile isdigit t \<noteq> []))
     = (i, True)"
proof -
  have d: "\<forall>c \<in> set (digits_of n). isdigit c" for n using digits_of_digits by blast
  have t: "takeWhile isdigit (digits_of n) = digits_of n" for n using d by (simp add: takeWhile_all)
  obtain c s where c: "digits_of (nat i) = c # s" using digits_of_ne by (cases "digits_of (nat i)") auto
  have "isdigit c" using d [of "nat i"] c by simp
  then have h: "\<not> isspace c" "c \<noteq> CHR ''-''" "c \<noteq> CHR ''+''"
    by (auto simp: isdigit_def isspace_def less_eq_char_def)
  show ?thesis
  proof (cases "i < 0")
    case True
    then show ?thesis using t [of "nat (- i)"] digits_of_ne
      by (simp add: show_int_def isspace_def take_sign_def nat_of_digits_of del: takeWhile_eq_all_conv)
  next
    case False
    then show ?thesis using t [of "nat i"] h c nat_of_digits_of [of "nat i"]
      by (simp add: show_int_def take_sign_def)
  qed
qed

lemma number_show_int: "number_text (show_int i)" "number_start (show_int i)"
  by (simp_all add: show_int_def)

lemma trim_show_int: "MOOSTrimWhiteSpace (show_int i) = show_int i"
proof (rule trim_id)
  have "number_char (hd (show_int i))" "number_char (last (show_int i))"
    using number_show_int [of i] by (simp_all add: number_text_def number_start_def)
  then show "show_int i = [] \<or> \<not> moos_white (hd (show_int i)) \<and> \<not> moos_white (last (show_int i))"
    by (simp add: white_number)
qed

lemma starts_show_int: "starts_with (\<lambda>c. isdigit c \<or> c = CHR ''-'' \<or> c = CHR ''+'') (show_int i)"
proof -
  obtain c s where c: "show_int i = c # s" "isdigit c \<or> c = CHR ''-''"
    using number_show_int(2) [of i] by (cases "show_int i") (auto simp: number_start_def)
  then have "c \<noteq> CHR '' ''" by (auto simp: isdigit_def)
  then have "find_first (\<lambda>c. c \<noteq> CHR '' '') 0 (show_int i) = Some 0"
    by (simp add: c(1) find_first_here)
  then show ?thesis using c by (auto simp: starts_with_def)
qed

lemma atoi_show_int: "atoi (show_int i) = i"
  using show_int_reads [of i] by (simp add: atoi_def Let_def case_prod_beta)

lemma atoi_digits: "atoi (digits_of n) = int n"
  using atoi_show_int [of "int n"] by (simp add: show_int_def)

lemma numeric_digits: "MOOSIsNumeric (digits_of n)"
proof -
  have d: "\<forall>c \<in> set (digits_of n). isdigit c" using digits_of_digits by blast
  have "moos_white c = False" if "c \<in> set (digits_of n)" for c
    using that d white_number(1) [of c] by (simp add: number_char_def)
  then have "MOOSTrimWhiteSpace (digits_of n) = digits_of n"
    using digits_of_ne [of n] by (intro trim_id) auto
  moreover have "isdigit c \<Longrightarrow> c \<in> set ''1234567890.eE-+''" for c
  proof -
    assume c: "isdigit c"
    then have "(of_char c :: nat) \<in> {48..57}" by (simp add: isdigit_def less_eq_char_def)
    then have "(of_char c :: nat) \<in> set [48..<58]" unfolding set_upt by simp
    then have "c \<in> char_of ` set [48..<58 :: nat]" by (metis char_of_char imageI)
    moreover have "char_of ` set [48..<58 :: nat] \<subseteq> set ''1234567890.eE-+''" by code_simp
    ultimately show ?thesis by blast
  qed
  ultimately show ?thesis using d by (auto simp: MOOSIsNumeric_def find_first_0)
qed

end
