(* ===== verification/Moos_Audit.thy ===== *)
theory Moos_Audit
  imports Moos_Wire Moos_Numbers
begin

text \<open>
  What the server and the clients record of the traffic: the statistics of every client of the
  server (\<open>Comms/ServerAudit.cpp\<close>), with the report its thread sends every second, and the record
  of a message's way from one client to another (\<open>Comms/EndToEndAudit.cpp\<close>).

  \<^item> Counters have the width of the source: 64 bits, and 32 for those of type \<open>int\<close>.
  \<^item> The thread's pause and the sending of its report are not modelled: a round of its loop returns
    the datagrams to send, and sending them succeeds.
\<close>

section \<open>The server's statistics\<close>

record client_audit =
  total_received :: "64 word"
  total_sent :: "64 word"
  recently_received :: "64 word"
  recently_sent :: "64 word"
  max_size_received :: "64 word"
  max_size_sent :: "64 word"
  min_size_received :: "64 word"
  min_size_sent :: "64 word"
  recent_packets_received :: "32 word"
  recent_packets_sent :: "32 word"
  recent_messages_sent :: "32 word"
  recent_messages_received :: "32 word"
  timing_messages_received :: "64 word"
  max_latency_ms :: real
  min_latency_ms :: real
  moving_average_latency_ms :: real
  recent_latency_ms :: real
  latency_sum :: real

text \<open>\<open>ClearAll\<close>, which the constructor calls.\<close>

definition new_client_audit :: client_audit where
  "new_client_audit =
     \<lparr>total_received = 0, total_sent = 0, recently_received = 0, recently_sent = 0,
      max_size_received = 0, max_size_sent = 0, min_size_received = 0, min_size_sent = 0,
      recent_packets_received = 0, recent_packets_sent = 0, recent_messages_sent = 0,
      recent_messages_received = 0, timing_messages_received = 0, max_latency_ms = 0,
      min_latency_ms = 10 ^ 9, moving_average_latency_ms = 0, recent_latency_ms = 0, latency_sum = 0\<rparr>"

definition ClearRecents :: "client_audit \<Rightarrow> client_audit" where
  "ClearRecents A =
     A\<lparr>recently_received := 0, recently_sent := 0, recent_packets_received := 0,
       recent_packets_sent := 0, recent_messages_received := 0, recent_messages_sent := 0\<rparr>"

type_synonym audits = "(string, client_audit) omap"

definition Remove :: "string \<Rightarrow> audits \<Rightarrow> audits" where
  "Remove sClient A = map_erase sClient A"

text \<open>The sizes recorded for what was sent are compared with those of what was received, as in the
  source.\<close>

definition note_packet :: "32 word \<Rightarrow> 32 word \<Rightarrow> bool \<Rightarrow> client_audit \<Rightarrow> client_audit" where
  "note_packet nBytes nMessages bIncoming A =
     (let n = ucast nBytes in
      if bIncoming
      then A\<lparr>recently_received := recently_received A + n, total_received := total_received A + n,
             max_size_received := max (max_size_received A) n,
             min_size_received := min (min_size_received A) n,
             recent_packets_received := recent_packets_received A + 1,
             recent_messages_received := recent_messages_received A + nMessages\<rparr>
      else A\<lparr>recently_sent := recently_sent A + n, total_sent := total_sent A + n,
             max_size_sent := max (max_size_received A) n,
             min_size_sent := min (min_size_received A) n,
             recent_packets_sent := recent_packets_sent A + 1,
             recent_messages_sent := recent_messages_sent A + nMessages\<rparr>)"

definition AddStatistic :: "string \<Rightarrow> 32 word \<Rightarrow> 32 word \<Rightarrow> bool \<Rightarrow> audits \<Rightarrow> audits" where
  "AddStatistic sClient nBytes nMessages bIncoming A =
     map_set sClient (note_packet nBytes nMessages bIncoming (map_get new_client_audit A sClient)) A"

definition note_latency :: "real \<Rightarrow> client_audit \<Rightarrow> client_audit" where
  "note_latency dfLatencyMS A =
     (let A = A\<lparr>max_latency_ms := max (max_latency_ms A) dfLatencyMS,
                min_latency_ms := min (min_latency_ms A) dfLatencyMS,
                latency_sum := latency_sum A + dfLatencyMS,
                timing_messages_received := timing_messages_received A + 1\<rparr>
      in if timing_messages_received A \<ge> 5
         then A\<lparr>latency_sum := latency_sum A - recent_latency_ms A, recent_latency_ms := dfLatencyMS,
                moving_average_latency_ms := (latency_sum A - recent_latency_ms A) / 5\<rparr>
         else A)"

definition AddTimingStatistic :: "string \<Rightarrow> real \<Rightarrow> real \<Rightarrow> audits \<Rightarrow> bool \<times> audits" where
  "AddTimingStatistic sClient dfTransmitTime dfReceiveTime A =
     (if sClient = [] then (False, A)
      else (True, map_set sClient
              (note_latency ((dfReceiveTime - dfTransmitTime) * 1000) (map_get new_client_audit A sClient)) A))"

definition timing_summary_of :: "string \<Rightarrow> audits \<Rightarrow> string option" where
  "timing_summary_of sClient A =
     map_option (\<lambda>rA. sClient @ ''='' @ show_g (recent_latency_ms rA) @ '':'' @ show_g (max_latency_ms rA) @ '':'' @
         show_g (min_latency_ms rA) @ '':'' @ show_g (moving_average_latency_ms rA) @ '','')
       (map_of A sClient)"

definition GetTimingStatisticSummary :: "string \<Rightarrow> audits \<Rightarrow> string" where
  "GetTimingStatisticSummary sSummary A =
     fold (\<lambda>c s. case timing_summary_of c A of None \<Rightarrow> s | Some t \<Rightarrow> s @ t) (map fst A) sSummary"

section \<open>The report\<close>

text \<open>\<open>setw\<close>, adjusted to the right.\<close>

definition setw :: "nat \<Rightarrow> string \<Rightarrow> string" where
  "setw w s = replicate (w - length s) CHR '' '' @ s"

definition show64 :: "64 word \<Rightarrow> string" where
  "show64 n = digits_of (unat n)"

definition report_header :: string where
  "report_header =
     [CHR 0x0A] @ setw 12 ''client name'' @ setw 10 ''pkts in'' @ setw 10 ''pkts out'' @ setw 10 ''msgs in'' @
     setw 10 ''msgs out'' @ setw 10 ''B/s in'' @ setw 10 (''B/s out'' @ [CHR 0x0A])"

definition report_row :: "string \<times> client_audit \<Rightarrow> string" where
  "report_row q =
     (case q of (c, A) \<Rightarrow>
        setw 10 c @ setw 10 (show_int (sint (recent_packets_received A))) @
        setw 10 (show_int (sint (recent_packets_sent A))) @
        setw 10 (show_int (sint (recent_messages_received A))) @
        setw 10 (show_int (sint (recent_messages_sent A))) @
        setw 10 (show64 (recently_received A)) @ setw 10 (show64 (recently_sent A)) @ [CHR 0x0A])"

definition total :: "(client_audit \<Rightarrow> 64 word) \<Rightarrow> audits \<Rightarrow> 64 word" where
  "total f A = sum_list (map (f \<circ> snd) A)"

definition report_totals :: "audits \<Rightarrow> string" where
  "report_totals A =
     setw 10 ''total'' @ setw 10 (show64 (total (\<lambda>a. scast (recent_packets_received a)) A)) @
     setw 10 (show64 (total (\<lambda>a. scast (recent_packets_sent a)) A)) @
     setw 10 (show64 (total (\<lambda>a. scast (recent_messages_received a)) A)) @
     setw 10 (show64 (total (\<lambda>a. scast (recent_messages_sent a)) A)) @
     setw 10 (show64 (total recently_received A)) @ setw 10 (show64 (total recently_sent A)) @ [CHR 0x0A]"

fun chunks :: "nat \<Rightarrow> nat \<Rightarrow> string \<Rightarrow> string list" where
  "chunks 0 n s = []"
| "chunks (Suc k) n s = (if s = [] then [] else take n s # chunks k n (drop n s))"

text \<open>A round of \<open>Work\<close>: the datagrams to send and the statistics after it. Sending in pieces of 1024
  needs no more of them than there are characters.\<close>

definition report_text :: "audits \<Rightarrow> string" where
  "report_text A = report_header @ concat (map report_row A) @ report_totals A"

definition audit_round :: "audits \<Rightarrow> string list \<times> audits" where
  "audit_round A =
     (let s = report_text A
      in (chunks (length s) 1024 s, map_vals (\<lambda>_. ClearRecents) A))"

section \<open>End to end\<close>

record message_statistic =
  source_client :: string
  destination_client :: string
  message_name :: string
  message_size :: int
  source_time :: int
  receive_time :: int
  cpu_load :: real

definition MessageStatistic_ToString :: "message_statistic \<Rightarrow> string \<Rightarrow> string" where
  "MessageStatistic_ToString ms out =
     (let out = MOOSAddValToString out ''src'' (source_client ms);
          out = MOOSAddValToString out ''dest'' (destination_client ms);
          out = MOOSAddValToString out ''name'' (message_name ms);
          out = MOOSAddValToString out ''size'' (show_int (message_size ms));
          out = MOOSAddValToString out ''tx'' (show_int (source_time ms));
          out = MOOSAddValToString out ''rx'' (show_int (receive_time ms))
      in MOOSAddValToString out ''load'' (show_g (cpu_load ms)))"

text \<open>A 64-bit integer is read with \<open>operator>>\<close>: a text without digits is no integer, one out of
  range makes the largest or smallest and fails.\<close>

definition MOOSValFromString_int64 :: "string \<Rightarrow> string \<Rightarrow> bool \<Rightarrow> int option" where
  "MOOSValFromString_int64 sStr sTk bInsensitive =
     (case MOOSValFromString sStr sTk bInsensitive of
        None \<Rightarrow> None
      | Some sVal \<Rightarrow>
          (let (g, t) = take_sign (dropWhile isspace sVal); ds = takeWhile isdigit t;
               n = g * int (nat_of_digits ds)
           in if ds = [] \<or> n < - (2 ^ 63) \<or> n \<ge> 2 ^ 63 then None else Some n))"

text \<open>What is not found leaves the member as it was.\<close>

definition MessageStatistic_FromString :: "string \<Rightarrow> message_statistic \<Rightarrow> message_statistic" where
  "MessageStatistic_FromString s ms =
     (let ms = (case MOOSValFromString s ''src'' False of None \<Rightarrow> ms | Some v \<Rightarrow> ms\<lparr>source_client := v\<rparr>);
          ms = (case MOOSValFromString s ''dest'' False of None \<Rightarrow> ms | Some v \<Rightarrow> ms\<lparr>destination_client := v\<rparr>);
          ms = (case MOOSValFromString s ''name'' False of None \<Rightarrow> ms | Some v \<Rightarrow> ms\<lparr>message_name := v\<rparr>);
          ms = (case MOOSValFromString_int s ''size'' False of None \<Rightarrow> ms | Some v \<Rightarrow> ms\<lparr>message_size := v\<rparr>);
          ms = (case MOOSValFromString_int64 s ''tx'' False of None \<Rightarrow> ms | Some v \<Rightarrow> ms\<lparr>source_time := v\<rparr>);
          ms = (case MOOSValFromString_int64 s ''rx'' False of None \<Rightarrow> ms | Some v \<Rightarrow> ms\<lparr>receive_time := v\<rparr>)
      in case MOOSValFromString_double s ''load'' False of None \<Rightarrow> ms | Some v \<Rightarrow> ms\<lparr>cpu_load := v\<rparr>)"

text \<open>The conversion to \<open>int64_t\<close>; out of its range it is the least one on the processors the library
  runs on.\<close>

definition micros :: "real \<Rightarrow> int" where
  "micros t =
     (let x = t * 10 ^ 6; n = (if 0 \<le> x then \<lfloor>x\<rfloor> else \<lceil>x\<rceil>)
      in if - (2 ^ 63) \<le> n \<and> n < 2 ^ 63 then n else - (2 ^ 63))"

definition AddForAudit ::
  "moos_msg \<Rightarrow> string \<Rightarrow> real \<Rightarrow> real \<Rightarrow> message_statistic list \<Rightarrow> message_statistic list" where
  "AddForAudit msg client_name time_now load stats =
     stats @ [\<lparr>source_client = m_sSrc msg, destination_client = client_name, message_name = m_sKey msg,
       message_size = sint (GetSizeInBytesWhenSerialised msg), source_time = micros (m_dfTime msg),
       receive_time = micros time_now, cpu_load = load\<rparr>]"

text \<open>A round of \<open>TransmitWorker\<close>: what is written to the multicast channel, and what stays.\<close>

definition transmit_round :: "message_statistic list \<Rightarrow> string list \<times> message_statistic list" where
  "transmit_round stats = (map (\<lambda>ms. MessageStatistic_ToString ms []) stats, [])"

section \<open>Accounting\<close>

text \<open>What happens to the statistics, and the datagrams of each round.\<close>

datatype audit_event = Packet string "32 word" "32 word" bool | Timing string real real | Gone string | Report

fun audit_exec :: "audit_event \<Rightarrow> audits \<Rightarrow> string list list \<times> audits" where
  "audit_exec (Packet c n k b) A = ([], AddStatistic c n k b A)"
| "audit_exec (Timing c t u) A = ([], snd (AddTimingStatistic c t u A))"
| "audit_exec (Gone c) A = ([], Remove c A)"
| "audit_exec Report A = (let (sent, A) = audit_round A in ([sent], A))"

fun audit_run :: "audit_event list \<Rightarrow> audits \<Rightarrow> string list list \<times> audits" where
  "audit_run [] A = ([], A)"
| "audit_run (e # es) A = (let (d, A) = audit_exec e A; (ds, A) = audit_run es A in (d @ ds, A))"

text \<open>What a report has to say after some events, from the events alone: of every client that has sent
  or received since it last went, or been timed, its traffic since the last report.\<close>

definition since :: "audit_event list \<Rightarrow> audit_event list \<Rightarrow> audit_event list" where
  "since stops es = rev (takeWhile (\<lambda>e. e \<notin> set stops) (rev es))"

fun mentions :: "string \<Rightarrow> audit_event \<Rightarrow> bool" where
  "mentions c (Packet d n k b) \<longleftrightarrow> c = d"
| "mentions c (Timing d t u) \<longleftrightarrow> c = d \<and> d \<noteq> []"
| "mentions c (Gone d) \<longleftrightarrow> False"
| "mentions c Report \<longleftrightarrow> False"

definition audited :: "audit_event list \<Rightarrow> string set" where
  "audited es = {c. \<exists>e \<in> set (since [Gone c] es). mentions c e}"

fun packet_of :: "string \<Rightarrow> bool \<Rightarrow> audit_event \<Rightarrow> (32 word \<times> 32 word) list" where
  "packet_of c b (Packet d n k b') = (if c = d \<and> b = b' then [(n, k)] else [])"
| "packet_of c b e = []"

definition traffic :: "string \<Rightarrow> bool \<Rightarrow> audit_event list \<Rightarrow> (32 word \<times> 32 word) list" where
  "traffic c b es = concat (map (packet_of c b) (since [Report, Gone c] es))"

definition packets_of :: "(32 word \<times> 32 word) list \<Rightarrow> 32 word" where "packets_of ps = of_nat (length ps)"
definition messages_of :: "(32 word \<times> 32 word) list \<Rightarrow> 32 word" where "messages_of ps = sum_list (map snd ps)"
definition bytes_of :: "(32 word \<times> 32 word) list \<Rightarrow> 64 word" where "bytes_of ps = sum_list (map (ucast \<circ> fst) ps)"

definition report_line :: "string list \<Rightarrow> string" where
  "report_line cells = concat (map (setw 10) cells) @ [CHR 0x0A]"

definition account :: "audit_event list \<Rightarrow> string" where
  "account es =
     (let cs = sorted_list_of_set (audited es);
          signed = (\<lambda>n. show_int (sint n)) :: 32 word \<Rightarrow> string;
          summed = (\<lambda>f b. show64 (\<Sum>c\<leftarrow>cs. scast (f (traffic c b es) :: 32 word)))
      in report_header
         @ concat (map (\<lambda>c. report_line
              [c, signed (packets_of (traffic c True es)), signed (packets_of (traffic c False es)),
               signed (messages_of (traffic c True es)), signed (messages_of (traffic c False es)),
               show64 (bytes_of (traffic c True es)), show64 (bytes_of (traffic c False es))]) cs)
         @ report_line
              [''total'', summed packets_of True, summed packets_of False, summed messages_of True, summed messages_of False,
               show64 (\<Sum>c\<leftarrow>cs. bytes_of (traffic c True es)), show64 (\<Sum>c\<leftarrow>cs. bytes_of (traffic c False es))])"

text \<open>The statistics hold just that.\<close>

definition tallies :: "string \<Rightarrow> audit_event list \<Rightarrow> client_audit \<Rightarrow> bool" where
  "tallies c es A \<longleftrightarrow>
     recent_packets_received A = packets_of (traffic c True es) \<and> recent_packets_sent A = packets_of (traffic c False es)
     \<and> recent_messages_received A = messages_of (traffic c True es) \<and> recent_messages_sent A = messages_of (traffic c False es)
     \<and> recently_received A = bytes_of (traffic c True es) \<and> recently_sent A = bytes_of (traffic c False es)"

lemma since_step:
  "since stops (es @ [e]) = (if e \<in> set stops then [] else since stops es @ [e])"
  by (simp add: since_def)

lemma traffic_step:
  "traffic c b (es @ [e]) = (if e = Report \<or> e = Gone c then [] else traffic c b es @ packet_of c b e)"
  by (simp add: traffic_def since_step)

lemma audited_step:
  "c \<in> audited (es @ [e]) \<longleftrightarrow> e \<noteq> Gone c \<and> (c \<in> audited es \<or> mentions c e)"
  by (auto simp: audited_def since_step)

lemma unaudited_traffic: "c \<notin> audited es \<Longrightarrow> traffic c b es = []"
proof (induction es rule: rev_induct)
  case (snoc e es)
  then show ?case by (cases e) (auto simp: traffic_step audited_step)
qed (simp add: traffic_def since_def)

lemma run_step:
  "audit_run (es @ [e]) A =
     (let (ds, A) = audit_run es A; (d, A) = audit_exec e A in (ds @ d, A))"
  by (induction es arbitrary: A) (simp_all add: Let_def split_beta)

lemmas figures = packets_of_def messages_of_def bytes_of_def

lemma empty_tally: "tallies c es A" if "traffic c True es = []" "traffic c False es = []"
    "recent_packets_received A = 0" "recent_packets_sent A = 0" "recent_messages_received A = 0"
    "recent_messages_sent A = 0" "recently_received A = 0" "recently_sent A = 0"
  using that by (simp add: tallies_def figures)

lemma packet_tally:
  assumes "tallies c es A"
  shows "tallies c (es @ [Packet c n k b]) (note_packet n k b A)"
  using assms by (auto simp: tallies_def traffic_step figures note_packet_def Let_def)

lemma other_tally:
  assumes "tallies c es A" and "e \<noteq> Report" "e \<noteq> Gone c" and "\<And>b. packet_of c b e = []"
  shows "tallies c (es @ [e]) A"
  using assms by (simp add: tallies_def traffic_step)

lemma latency_tally: "tallies c es (note_latency l A) = tallies c es A"
  by (simp add: tallies_def note_latency_def Let_def)

definition audits_hold :: "audit_event list \<Rightarrow> audits \<Rightarrow> bool" where
  "audits_hold es A \<longleftrightarrow> map_ok A \<and> fst ` set A = audited es \<and> (\<forall>c. tallies c es (map_get new_client_audit A c))"

lemma get_set: "map_get d (map_set k v A) c = (if c = k then v else map_get d A c)"
  by (simp add: map_get_def)

lemma hold_set:
  assumes "audits_hold es A" and "e \<noteq> Report" and "\<And>c. e \<noteq> Gone c" and "\<And>d. mentions d e = (d = c)"
    and "tallies c (es @ [e]) B" and "\<And>d b. d \<noteq> c \<Longrightarrow> packet_of d b e = []"
  shows "audits_hold (es @ [e]) (map_set c B A)"
proof -
  have "fst ` set (map_set c B A) = audited (es @ [e])"
    using assms(1,3,4) by (auto simp: audits_hold_def fst_set_map_set audited_step)
  moreover have "tallies d (es @ [e]) (map_get new_client_audit (map_set c B A) d)" for d
    using assms other_tally [of d es "map_get new_client_audit A d" e] by (auto simp: get_set audits_hold_def)
  ultimately show ?thesis using assms(1) by (simp add: audits_hold_def)
qed

lemma hold_packet: "audits_hold es A \<Longrightarrow> audits_hold (es @ [Packet c n k b]) (AddStatistic c n k b A)"
  unfolding AddStatistic_def by (rule hold_set) (auto simp: audits_hold_def intro: packet_tally)

lemma hold_timing: "audits_hold es A \<Longrightarrow> audits_hold (es @ [Timing c t u]) (snd (AddTimingStatistic c t u A))"
proof (cases "c = []")
  case True
  assume "audits_hold es A"
  then show ?thesis using True other_tally [of _ es _ "Timing c t u"]
    by (auto simp: audits_hold_def AddTimingStatistic_def audited_step)
next
  case False
  assume h: "audits_hold es A"
  then have "tallies c (es @ [Timing c t u]) (map_get new_client_audit A c)"
    by (intro other_tally) (auto simp: audits_hold_def)
  with h False show ?thesis
    unfolding AddTimingStatistic_def by (auto intro!: hold_set simp: latency_tally)
qed

lemma hold_gone: "audits_hold es A \<Longrightarrow> audits_hold (es @ [Gone c]) (Remove c A)"
proof -
  assume h: "audits_hold es A"
  have m: "map_of (map_erase c A) = (map_of A)(c := None)" using h by (auto simp: audits_hold_def)
  have "fst ` set (map_erase c A) = fst ` set A - {c}" by (auto simp: map_erase_def)
  moreover have "tallies d (es @ [Gone c]) (map_get new_client_audit (map_erase c A) d)" for d
    using h other_tally [of d es "map_get new_client_audit A d" "Gone c"]
    by (cases "d = c") (auto simp: m map_get_def audits_hold_def new_client_audit_def traffic_step intro: empty_tally)
  ultimately show ?thesis using h by (auto simp: audits_hold_def Remove_def audited_step)
qed

lemma hold_report: "audits_hold es A \<Longrightarrow> audits_hold (es @ [Report]) (snd (audit_round A))"
proof -
  assume h: "audits_hold es A"
  let ?A = "map_vals (\<lambda>_. ClearRecents) A"
  have "tallies d (es @ [Report]) (map_get new_client_audit ?A d)" for d
    by (rule empty_tally)
      (auto simp: traffic_step map_get_def new_client_audit_def ClearRecents_def split: option.split)
  moreover have "fst ` set ?A = fst ` set A" by (simp add: map_vals_def image_image)
  ultimately show ?thesis using h by (auto simp: audits_hold_def audit_round_def Let_def audited_step)
qed

lemma audits_hold_run: "audits_hold es (snd (audit_run es []))"
proof (induction es rule: rev_induct)
  case Nil
  then show ?case
    by (simp add: audits_hold_def audited_def since_def map_get_def)
      (simp add: tallies_def traffic_def since_def figures new_client_audit_def)
next
  case (snoc e es)
  then show ?case
    by (cases e) (simp_all add: run_step Let_def split_beta hold_packet hold_timing hold_gone hold_report)
qed

text \<open>So a report is the account.\<close>

lemma report_account:
  assumes "audits_hold es A"
  shows "report_text A = account es"
proof -
  have keys: "map fst A = sorted_list_of_set (audited es)"
    using assms sorted_list_of_set.idem_if_sorted_distinct [of "map fst A"]
    by (simp add: audits_hold_def map_ok_def strict_sorted_iff)
  have get: "(c, B) \<in> set A \<Longrightarrow> tallies c es B" for c B
    using assms by (auto simp: audits_hold_def map_ok_in_iff map_get_def dest!: spec [of _ c])
  have rows: "map report_row A = map (\<lambda>c. report_line
              [c, show_int (sint (packets_of (traffic c True es))), show_int (sint (packets_of (traffic c False es))),
               show_int (sint (messages_of (traffic c True es))), show_int (sint (messages_of (traffic c False es))),
               show64 (bytes_of (traffic c True es)), show64 (bytes_of (traffic c False es))]) (map fst A)"
    using get by (auto simp: report_row_def report_line_def tallies_def)
  have sums: "total g A = (\<Sum>c\<leftarrow>map fst A. f c)" if "\<And>c B. tallies c es B \<Longrightarrow> g B = f c" for g f
    unfolding total_def map_map by (rule arg_cong [of _ _ sum_list]) (use get that in auto)
  have t: "report_totals A = report_line
      [''total'', show64 (\<Sum>c\<leftarrow>map fst A. scast (packets_of (traffic c True es))),
       show64 (\<Sum>c\<leftarrow>map fst A. scast (packets_of (traffic c False es))),
       show64 (\<Sum>c\<leftarrow>map fst A. scast (messages_of (traffic c True es))),
       show64 (\<Sum>c\<leftarrow>map fst A. scast (messages_of (traffic c False es))),
       show64 (\<Sum>c\<leftarrow>map fst A. bytes_of (traffic c True es)), show64 (\<Sum>c\<leftarrow>map fst A. bytes_of (traffic c False es))]"
    unfolding report_totals_def report_line_def
    by (subst sums, (simp add: tallies_def)?)+ simp
  show ?thesis unfolding report_text_def account_def Let_def rows t keys by simp
qed

lemma chunks_concat: "length s \<le> k \<Longrightarrow> 0 < n \<Longrightarrow> concat (chunks k n s) = s \<and> (\<forall>p \<in> set (chunks k n s). length p \<le> n)"
proof (induction k n s rule: chunks.induct)
  case (2 k n s)
  then show ?case by (cases s) (auto simp: Suc_le_eq)
qed simp

text \<open>The datagrams of a round are the report in pieces of at most 1024 characters.\<close>

lemma report_pieces:
  "concat (fst (audit_round A)) = report_text A \<and> (\<forall>p \<in> set (fst (audit_round A)). length p \<le> 1024)"
  using chunks_concat [of "report_text A" "length (report_text A)" 1024] by (simp add: audit_round_def Let_def)

text \<open>C29: The datagrams that the auditor sends give an exact account of the traffic. Whatever packets,
  latencies and departures of clients there are, every report, put together from its datagrams of at
  most 1024 characters, has a row for each client known then, in the order of their names, with the
  packets, messages and bytes in and out since the report before (in the integers of the source),
  and a line of their sums.\<close>

theorem reports_account:
  "map concat (fst (audit_run es [])) = map (\<lambda>i. account (take i es)) (filter (\<lambda>i. es ! i = Report) [0..<length es])
   \<and> (\<forall>sent \<in> set (fst (audit_run es [])). \<forall>d \<in> set sent. length d \<le> 1024)"
proof (induction es rule: rev_induct)
  case (snoc e es)
  let ?A = "snd (audit_run es [])"
  have old: "filter (\<lambda>i. (es @ [e]) ! i = Report) [0..<length es] = filter (\<lambda>i. es ! i = Report) [0..<length es]"
    by (rule filter_cong) (auto simp: nth_append)
  have "map (\<lambda>i. account (take i (es @ [e]))) (filter (\<lambda>i. (es @ [e]) ! i = Report) [0..<length es]) =
      map (\<lambda>i. account (take i es)) (filter (\<lambda>i. es ! i = Report) [0..<length es])"
    unfolding old by auto
  then have now: "map (\<lambda>i. account (take i (es @ [e]))) (filter (\<lambda>i. (es @ [e]) ! i = Report) [0..<length (es @ [e])]) =
      map (\<lambda>i. account (take i es)) (filter (\<lambda>i. es ! i = Report) [0..<length es]) @ (if e = Report then [account es] else [])"
    by simp
  have "concat (fst (audit_round ?A)) = account es"
    using report_pieces [of ?A] report_account [OF audits_hold_run] by simp
  then show ?case
    unfolding now using snoc report_pieces [of ?A] by (cases e) (auto simp: run_step Let_def split_beta)
qed simp

section \<open>Latencies\<close>

definition latencies_noted :: "real list \<Rightarrow> client_audit \<Rightarrow> bool" where
  "latencies_noted ls A \<longleftrightarrow> timing_messages_received A = of_nat (length ls)
    \<and> recent_latency_ms A = (if length ls < 5 then 0 else last ls)
    \<and> latency_sum A = (if length ls < 5 then sum_list ls else sum_list (take 4 ls) + last ls)
    \<and> moving_average_latency_ms A = (if length ls < 5 then 0 else (sum_list (take 4 ls) + last ls) / 5)"

lemma latency_state: "length ls < 2 ^ 63 \<Longrightarrow> latencies_noted ls (fold note_latency ls new_client_audit)"
proof (induction ls rule: rev_induct)
  case Nil
  then show ?case by (simp add: new_client_audit_def latencies_noted_def)
next
  case (snoc l ls)
  define A where "A = fold note_latency ls new_client_audit"
  have ih: "timing_messages_received A = of_nat (length ls)"
    "recent_latency_ms A = (if length ls < 5 then 0 else last ls)"
    "latency_sum A = (if length ls < 5 then sum_list ls else sum_list (take 4 ls) + last ls)"
    "moving_average_latency_ms A = (if length ls < 5 then 0 else (sum_list (take 4 ls) + last ls) / 5)"
    using snoc by (simp_all add: A_def latencies_noted_def)
  have "unat (of_nat (Suc (length ls)) :: 64 word) = Suc (length ls)"
    using snoc.prems by (simp add: unat_of_nat take_bit_nat_eq_self del: of_nat_Suc)
  moreover have "unat (5 :: 64 word) = 5" by (simp add: unat_numeral)
  ultimately have five: "(5 \<le> (of_nat (length ls) + 1 :: 64 word)) = (5 \<le> Suc (length ls))"
    by (simp add: word_le_nat_alt add.commute del: unat_numeral)
  consider "length ls < 4" | "length ls = 4" | "length ls > 4" by linarith
  then have "latencies_noted (ls @ [l]) (note_latency l A)"
  proof cases
    case 1
    then show ?thesis using ih five by (simp add: note_latency_def Let_def latencies_noted_def)
  next
    case 2
    then show ?thesis using ih five by (simp add: note_latency_def Let_def latencies_noted_def)
  next
    case 3
    then show ?thesis using ih five by (simp add: note_latency_def Let_def latencies_noted_def)
  qed
  then show ?case by (simp add: A_def)
qed

text \<open>What is called the moving average of five latencies is the sum of the first four of the
  session and the newest, divided by five: the latencies between them never count.\<close>

theorem average_keeps_first:
  assumes "length ls \<ge> 5" and "length ls < 2 ^ 63"
  shows "moving_average_latency_ms (fold note_latency ls new_client_audit) = (sum_list (take 4 ls) + last ls) / 5"
  using latency_state [OF assms(2)] assms(1) by (simp add: latencies_noted_def)

section \<open>A record and its text\<close>

definition name_text :: "string \<Rightarrow> bool" where
  "name_text s \<longleftrightarrow> CHR '','' \<notin> set s \<and> MOOSTrimWhiteSpace s = s"

definition statistic_fields :: "message_statistic \<Rightarrow> (string \<times> string) list" where
  "statistic_fields ms =
     [(''src'', source_client ms), (''dest'', destination_client ms), (''name'', message_name ms),
      (''size'', show_int (message_size ms)), (''tx'', show_int (source_time ms)),
      (''rx'', show_int (receive_time ms)), (''load'', show_g (cpu_load ms))]"

lemma ToString_params: "MessageStatistic_ToString ms [] = add_params [] (statistic_fields ms)"
  by (simp add: MessageStatistic_ToString_def add_params_def statistic_fields_def Let_def)

text \<open>What a client writes to the audit channel is read back as it was, but for the load, which is
  printed with six digits.\<close>

theorem statistic_roundtrip:
  assumes "name_text (source_client ms)" and "name_text (destination_client ms)" and "name_text (message_name ms)"
    and "- (2 ^ 63) \<le> source_time ms" and "source_time ms < 2 ^ 63"
    and "- (2 ^ 63) \<le> receive_time ms" and "receive_time ms < 2 ^ 63"
  shows "MessageStatistic_FromString (MessageStatistic_ToString ms []) ms0 = ms\<lparr>cpu_load := atof (show_g (cpu_load ms))\<rparr>"
proof -
  let ?s = "MessageStatistic_ToString ms []"
  have comma: "CHR '','' \<notin> set (show_int i)" "CHR '','' \<notin> set (show_g x)" for i x
    using number_show_int(1) [of i] number_text_show_g [of x] white_number(2) by (auto simp: number_text_def)
  have ok: "params_ok (statistic_fields ms)"
    using assms(1-3) comma
    by (auto simp: params_ok_def statistic_fields_def name_text_def key_ok_def moos_white_def)
  have key: "key_ok ''src''" "key_ok ''dest''" "key_ok ''name''" "key_ok ''size''" "key_ok ''tx''" "key_ok ''rx''" "key_ok ''load''"
    by code_simp+
  note r = MOOSValFromString_params [OF ok, folded ToString_params]
  have v: "MOOSValFromString ?s ''src'' False = Some (source_client ms)"
    "MOOSValFromString ?s ''dest'' False = Some (destination_client ms)"
    "MOOSValFromString ?s ''name'' False = Some (message_name ms)"
    "MOOSValFromString ?s ''size'' False = Some (show_int (message_size ms))"
    "MOOSValFromString ?s ''tx'' False = Some (show_int (source_time ms))"
    "MOOSValFromString ?s ''rx'' False = Some (show_int (receive_time ms))"
    "MOOSValFromString ?s ''load'' False = Some (show_g (cpu_load ms))"
    using assms(1-3) by (simp_all add: r key statistic_fields_def name_text_def trim_show_int trim_show_g)
  have "MOOSValFromString_int ?s ''size'' False = Some (message_size ms)"
    by (simp add: MOOSValFromString_int_def v starts_show_int atoi_show_int)
  moreover have "MOOSValFromString_int64 ?s ''tx'' False = Some (source_time ms)"
    "MOOSValFromString_int64 ?s ''rx'' False = Some (receive_time ms)"
    using show_int_reads [of "source_time ms"] show_int_reads [of "receive_time ms"] assms(4-7)
    by (auto simp: MOOSValFromString_int64_def v Let_def case_prod_beta)
  moreover have "MOOSValFromString_double ?s ''load'' False = Some (atof (show_g (cpu_load ms)))"
    by (simp add: MOOSValFromString_double_def v starts_show_g)
  ultimately show ?thesis by (simp add: MessageStatistic_FromString_def v Let_def)
qed

section \<open>Witnesses\<close>

text \<open>A packet in, a latency, a report, a packet out and another report.\<close>

theorem reports_account_witness:
  "map concat (fst (audit_run [Packet ''gps'' 70 2 True, Timing ''nav'' 1 2, Report, Packet ''gps'' 9 1 False, Report] [])) =
     [account [Packet ''gps'' 70 2 True, Timing ''nav'' 1 2],
      account [Packet ''gps'' 70 2 True, Timing ''nav'' 1 2, Report, Packet ''gps'' 9 1 False]]"
proof -
  let ?es = "[Packet ''gps'' 70 2 True, Timing ''nav'' 1 2, Report, Packet ''gps'' 9 1 False, Report]"
  have "[0..<length ?es] = [0, 1, 2, 3, 4]" by code_simp
  then show ?thesis using reports_account [of ?es] by simp
qed

theorem average_keeps_first_witness:
  "moving_average_latency_ms (fold note_latency [1, 1, 1, 1, 50, 60, 6] new_client_audit) = 2"
  using average_keeps_first [of "[1, 1, 1, 1, 50, 60, 6]"] by simp

theorem statistic_roundtrip_witness:
  "MessageStatistic_FromString (MessageStatistic_ToString
      \<lparr>source_client = ''gps'', destination_client = ''nav'', message_name = ''X'', message_size = 70,
       source_time = 5000000, receive_time = 5000250, cpu_load = 0\<rparr> [])
     \<lparr>source_client = [], destination_client = [], message_name = [], message_size = 0, source_time = 0,
      receive_time = 0, cpu_load = 0\<rparr>
   = \<lparr>source_client = ''gps'', destination_client = ''nav'', message_name = ''X'', message_size = 70,
       source_time = 5000000, receive_time = 5000250, cpu_load = 0\<rparr>"
proof -
  have "name_text ''gps''" "name_text ''nav''" "name_text ''X''" by code_simp+
  moreover have "atof (show_g 0) = 0"
    by (simp add: show_g_def atof_def strtod_def take_sign_def isspace_def isdigit_def nat_of_digits_def digit_val_def)
  ultimately show ?thesis
    using statistic_roundtrip [of "\<lparr>source_client = ''gps'', destination_client = ''nav'', message_name = ''X'',
       message_size = 70, source_time = 5000000, receive_time = 5000250, cpu_load = 0\<rparr>"]
    by simp
qed

end
