(* ===== verification/Moos_Address.thy ===== *)
theory Moos_Address
  imports Moos_Numbers "HOL-Library.Word"
begin

text \<open>
  Addresses of hosts (\<open>Utils/IPV4Address.cpp\<close>): parsing and printing \<open>host:port\<close>, the order in which
  they are kept in maps, and the resolution of names, where what the system answers is an
  argument. \<open>None\<close> is the \<open>std::runtime_error\<close> that the constructor throws.
\<close>

datatype ipv4_address = IPV4Address (a_host: string) (a_port: "16 word")

definition parse_address :: "string \<Rightarrow> ipv4_address option" where
  "parse_address host_and_port =
     (if CHR '':'' \<notin> set host_and_port then None
      else let (host, tmp) = MOOSChomp host_and_port '':'' False
           in if host = [] \<or> tmp = [] then None
              else if \<not> MOOSIsNumeric tmp then None
              else Some (IPV4Address host (word_of_int (atoi (c_str tmp)))))"

definition address_to_string :: "ipv4_address \<Rightarrow> string" where
  "address_to_string a = a_host a @ '':'' @ digits_of (unat (a_port a))"

definition set_host :: "string \<Rightarrow> ipv4_address \<Rightarrow> ipv4_address" where
  "set_host host a = IPV4Address host (a_port a)"

definition set_port :: "16 word \<Rightarrow> ipv4_address \<Rightarrow> ipv4_address" where
  "set_port p a = IPV4Address (a_host a) p"

definition address_eq :: "ipv4_address \<Rightarrow> ipv4_address \<Rightarrow> bool" where
  "address_eq a b \<longleftrightarrow> a_host a = a_host b \<and> a_port a = a_port b"

definition address_less :: "ipv4_address \<Rightarrow> ipv4_address \<Rightarrow> bool" where
  "address_less a P \<longleftrightarrow>
     (if a_host a < a_host P then True
      else if a_host a = a_host P then a_port a < a_port P
      else False)"

text \<open>\<open>lookup\<close> is \<open>gethostbyname\<close> with the first address it returns.\<close>

definition GetNumericAddress :: "(string \<Rightarrow> string option) \<Rightarrow> string \<Rightarrow> string option" where
  "GetNumericAddress lookup address =
     (if set address \<subseteq> set ''0123456789. '' then Some address else lookup (c_str address))"

definition ConvertHostToNumeric :: "(string \<Rightarrow> string option) \<Rightarrow> ipv4_address \<Rightarrow> bool \<times> ipv4_address" where
  "ConvertHostToNumeric lookup a =
     (case GetNumericAddress lookup (a_host a) of
        None \<Rightarrow> (False, a)
      | Some h \<Rightarrow> (True, set_host h a))"

text \<open>The addresses of the interfaces of the machine, in the order of \<open>getifaddrs\<close>.\<close>

fun GetIPAddress :: "string list \<Rightarrow> string" where
  "GetIPAddress [] = ''127.0.0.1''"
| "GetIPAddress (h # hs) = (if search_by (=) h ''127.0.0.1'' = None then h else GetIPAddress hs)"

section \<open>Order\<close>

text \<open>The operator of the source is the strict part of a linear order, and its equality is equality:
  addresses can be keys of maps.\<close>

instantiation ipv4_address :: linorder
begin

definition less_ipv4_address :: "ipv4_address \<Rightarrow> ipv4_address \<Rightarrow> bool" where
  "less_ipv4_address = address_less"

definition less_eq_ipv4_address :: "ipv4_address \<Rightarrow> ipv4_address \<Rightarrow> bool" where
  "less_eq_ipv4_address a b \<longleftrightarrow> address_less a b \<or> address_eq a b"

instance
proof
  fix a b c :: ipv4_address
  show "a < b \<longleftrightarrow> a \<le> b \<and> \<not> b \<le> a"
    by (auto simp: less_ipv4_address_def less_eq_ipv4_address_def address_less_def address_eq_def split: if_splits)
  show "a \<le> a" by (simp add: less_eq_ipv4_address_def address_eq_def)
  show "a \<le> b \<Longrightarrow> b \<le> c \<Longrightarrow> a \<le> c"
    by (auto simp: less_eq_ipv4_address_def address_less_def address_eq_def split: if_splits)
  show "a \<le> b \<Longrightarrow> b \<le> a \<Longrightarrow> a = b"
    by (auto simp: less_eq_ipv4_address_def address_less_def address_eq_def ipv4_address.expand split: if_splits)
  show "a \<le> b \<or> b \<le> a"
    by (auto simp: less_eq_ipv4_address_def address_less_def address_eq_def)
qed

end

lemma address_eq_iff: "address_eq a b \<longleftrightarrow> a = b"
  by (auto simp: address_eq_def ipv4_address.expand)

section \<open>Text\<close>

text \<open>An address that is printed is parsed again, if its host has a name and no colon in it.\<close>

theorem address_roundtrip:
  assumes "a_host a \<noteq> []" and "CHR '':'' \<notin> set (a_host a)"
  shows "parse_address (address_to_string a) = Some a"
proof -
  let ?ds = "digits_of (unat (a_port a))"
  have "MOOSChomp (a_host a @ '':'' @ ?ds) '':'' False = (a_host a, ?ds)"
    using MOOSChomp_piece [OF assms(2), of ?ds] by simp
  moreover have "c_str ?ds = ?ds"
    using digits_of_digits [of _ "unat (a_port a)"] by (force simp: c_str_def isdigit_def less_eq_char_def intro: takeWhile_all)
  ultimately show ?thesis
    using assms digits_of_ne numeric_digits
    by (simp add: parse_address_def address_to_string_def atoi_digits)
qed

theorem address_roundtrip_witness:
  "parse_address (address_to_string (IPV4Address ''localhost'' 9000)) = Some (IPV4Address ''localhost'' 9000)"
  by (rule address_roundtrip) simp_all

end
