(* ===== verification/Moos_Vector.thy ===== *)
theory Moos_Vector
  imports Moos_Numbers
begin

text \<open>
  Vectors of numbers in the notation of MOOS, \<open>[3x1]{1.0000,2.5000,-0.2500}\<close>, printed and parsed, and
  some arithmetic on angles and limits (\<open>Utils/MOOSUtilityFunctions.cpp\<close>). Memory is unbounded.
\<close>

section \<open>Reading\<close>

text \<open>\<open>strtoul\<close> in base 10, converted to \<open>unsigned int\<close>.\<close>

definition strtoul :: "string \<Rightarrow> (int \<times> string) option" where
  "strtoul s =
     (let (g, t) = take_sign (dropWhile isspace s); ds = takeWhile isdigit t; n = int (nat_of_digits ds)
      in if ds = [] then None
         else Some ((if n \<ge> 2 ^ 64 then 2 ^ 64 - 1 else g * n) mod 2 ^ 32, dropWhile isdigit t))"

text \<open>The loop over the elements: after the last comma the position is \<open>npos\<close>, and the next number is
  looked for at \<open>npos + 1\<close>, which is the beginning of the text.\<close>

fun vector_loop :: "(string \<Rightarrow> ('a \<times> string) option) \<Rightarrow> string \<Rightarrow> nat \<Rightarrow> nat \<Rightarrow> 'a list \<Rightarrow> bool \<times> 'a list" where
  "vector_loop conv sStr 0 from v = (True, v)"
| "vector_loop conv sStr (Suc n) from v =
     (case conv (c_str (drop from sStr)) of
        None \<Rightarrow> (False, v)
      | Some (x, _) \<Rightarrow>
          vector_loop conv sStr n
            (case find_first (\<lambda>c. c = CHR '','') from sStr of None \<Rightarrow> 0 | Some p \<Rightarrow> p + 1) (v @ [x]))"

text \<open>The vector, the rows and the columns, which a failure may have changed as well.\<close>

definition MOOSVectorFromString ::
  "(string \<Rightarrow> ('a \<times> string) option) \<Rightarrow> string \<Rightarrow> 'a list \<times> int \<times> int \<Rightarrow> bool \<times> 'a list \<times> int \<times> int" where
  "MOOSVectorFromString conv sStr out =
     (case find_first (\<lambda>c. c = CHR ''['') 0 sStr of
        None \<Rightarrow> (False, out)
      | Some nPos \<Rightarrow>
          (let nRows = atoi (c_str (drop (nPos + 1) sStr));
               (nCols, nPos) =
                 (case find_first (\<lambda>c. c = CHR ''x'') nPos sStr of
                    None \<Rightarrow> (1, nPos)
                  | Some nXPos \<Rightarrow> (atoi (c_str (drop (nXPos + 1) sStr)), nXPos))
           in case find_first (\<lambda>c. c = CHR 0x7B) nPos sStr of
                None \<Rightarrow> (False, fst out, nRows, nCols)
              | Some nPos \<Rightarrow>
                  if nCols \<le> 0 \<or> nRows \<le> 0 then (False, fst out, nRows, nCols)
                  else (let (ok, v) = vector_loop conv sStr (nat nRows * nat nCols) (nPos + 1) []
                        in (ok, v, nRows, nCols))))"

definition vector_doubles :: "string \<Rightarrow> real list \<times> int \<times> int \<Rightarrow> bool \<times> real list \<times> int \<times> int" where
  "vector_doubles = MOOSVectorFromString strtod"

definition vector_unsigned :: "string \<Rightarrow> int list \<times> int \<times> int \<Rightarrow> bool \<times> int list \<times> int \<times> int" where
  "vector_unsigned = MOOSVectorFromString strtoul"

definition MOOSValFromString_vector ::
  "(string \<Rightarrow> ('a \<times> string) option) \<Rightarrow> string \<Rightarrow> string \<Rightarrow> bool \<Rightarrow> 'a list \<times> int \<times> int \<Rightarrow> bool \<times> 'a list \<times> int \<times> int" where
  "MOOSValFromString_vector conv sStr sToken bInsensitive out =
     (case MOOSStrFind sStr (sToken @ ''='') bInsensitive of
        None \<Rightarrow> (False, out)
      | Some nPos \<Rightarrow> MOOSVectorFromString conv (drop nPos sStr) out)"

section \<open>Writing\<close>

definition write_doubles :: "real list \<Rightarrow> string" where
  "write_doubles Vec =
     ''['' @ show_int (int (length Vec)) @ ''x1]'' @ [CHR 0x7B] @ join_with '','' (map (show_fixed 4) Vec) @ [CHR 0x7D]"

definition write_ints :: "int list \<Rightarrow> string" where
  "write_ints Vec =
     ''['' @ show_int (int (length Vec)) @ ''x1]'' @ [CHR 0x7B] @ join_with '','' (map show_int Vec) @ [CHR 0x7D]"

definition DoubleVector2String :: "real list \<Rightarrow> string" where
  "DoubleVector2String V = write_doubles V"

section \<open>Angles and limits\<close>

definition PI :: real where "PI = 3.141592653589"

definition MOOSDeg2Rad :: "real \<Rightarrow> real" where "MOOSDeg2Rad dfDeg = dfDeg * PI / 180"
definition MOOSRad2Deg :: "real \<Rightarrow> real" where "MOOSRad2Deg dfRad = dfRad * 180 / PI"

definition fmod :: "real \<Rightarrow> real \<Rightarrow> real" where
  "fmod x y = x - y * of_int (if 0 \<le> x / y then \<lfloor>x / y\<rfloor> else \<lceil>x / y\<rceil>)"

definition MOOS_ANGLE_WRAP :: "real \<Rightarrow> real" where
  "MOOS_ANGLE_WRAP dfAng =
     (if dfAng < PI \<and> dfAng > - PI then dfAng
      else let a = fmod (dfAng + PI) (2 * PI); a = (if a < 0 then a + 2 * PI else a)
           in if a = 0 then PI else a - PI)"

definition MOOSAbsLimit :: "real \<Rightarrow> real \<Rightarrow> bool \<times> real" where
  "MOOSAbsLimit dfVal dfLimit =
     (if dfVal > dfLimit then (True, dfLimit) else if dfVal < - dfLimit then (True, - dfLimit) else (False, dfVal))"

lemma PI_pos: "0 < PI" by (simp add: PI_def)

lemma trunc_part:
  fixes q :: real
  defines "d \<equiv> q - of_int (if 0 \<le> q then \<lfloor>q\<rfloor> else \<lceil>q\<rceil>)"
  shows "\<bar>d\<bar> < 1"
proof (cases "0 \<le> q")
  case True
  then have "d = q - of_int \<lfloor>q\<rfloor>" by (simp add: d_def)
  moreover have "of_int \<lfloor>q\<rfloor> \<le> q" "q < of_int \<lfloor>q\<rfloor> + 1" by simp_all
  ultimately show ?thesis by linarith
next
  case False
  then have "d = q - of_int \<lceil>q\<rceil>" by (simp add: d_def)
  moreover have "q \<le> of_int \<lceil>q\<rceil>" "of_int \<lceil>q\<rceil> < q + 1" using ceiling_correct [of q] by simp_all
  ultimately show ?thesis by linarith
qed

lemma fmod_bounds:
  assumes "0 < y"
  shows "\<bar>fmod x y\<bar> < y"
proof -
  define q where "q = x / y"
  have x: "x = q * y" using assms by (simp add: q_def)
  have f: "fmod x y = y * (q - of_int (if 0 \<le> q then \<lfloor>q\<rfloor> else \<lceil>q\<rceil>))"
    unfolding fmod_def q_def [symmetric] by (subst x) (simp add: algebra_simps)
  have "\<bar>fmod x y\<bar> = y * \<bar>q - of_int (if 0 \<le> q then \<lfloor>q\<rfloor> else \<lceil>q\<rceil>)\<bar>"
    unfolding f abs_mult using assms by simp
  also have "\<dots> < y * 1" using trunc_part [of q] assms by (intro mult_strict_left_mono)
  finally show ?thesis by simp
qed

text \<open>A wrapped angle is above \<open>-PI\<close> and at most \<open>PI\<close>, and differs from the angle by whole turns, however
  many there are.\<close>

theorem angle_wrapped:
  "- PI < MOOS_ANGLE_WRAP a \<and> MOOS_ANGLE_WRAP a \<le> PI \<and> (\<exists>k :: int. MOOS_ANGLE_WRAP a = a + 2 * PI * of_int k)"
proof (cases "a < PI \<and> a > - PI")
  case True
  then show ?thesis by (auto simp: MOOS_ANGLE_WRAP_def intro: exI [of _ 0])
next
  case False
  let ?f = "fmod (a + PI) (2 * PI)"
  have b: "\<bar>?f\<bar> < 2 * PI" using fmod_bounds [of "2 * PI" "a + PI"] PI_pos by simp
  obtain k :: int where k: "?f = a + PI + 2 * PI * of_int k"
    unfolding fmod_def by (metis add_uminus_conv_diff mult_minus_right of_int_minus)
  define g where "g = (if ?f < 0 then ?f + 2 * PI else ?f)"
  have g: "0 \<le> g" "g < 2 * PI" using b by (auto simp: g_def)
  obtain j :: int where j: "g = a + PI + 2 * PI * of_int j"
  proof (cases "?f < 0")
    case True
    then show ?thesis using k by (intro that [of "k + 1"]) (simp add: g_def algebra_simps)
  next
    case False
    then show ?thesis using k by (intro that [of k]) (simp add: g_def)
  qed
  have w: "MOOS_ANGLE_WRAP a = (if g = 0 then PI else g - PI)"
    unfolding MOOS_ANGLE_WRAP_def Let_def g_def if_not_P [OF False] ..
  have "MOOS_ANGLE_WRAP a = a + 2 * PI * of_int (if g = 0 then j + 1 else j)"
    using j by (simp add: w algebra_simps)
  then show ?thesis using w g PI_pos by auto
qed

section \<open>Numbers with four decimals\<close>

definition rounded :: "real \<Rightarrow> real" where
  "rounded x = (if x < 0 then -1 else 1) * real (round_even (\<bar>x\<bar> * 10 ^ 4)) / 10 ^ 4"

lemma nat_of_digits_append: "nat_of_digits (a @ b) = nat_of_digits a * 10 ^ length b + nat_of_digits b"
proof -
  have "foldl (\<lambda>a c. 10 * a + digit_val c) n b = n * 10 ^ length b + foldl (\<lambda>a c. 10 * a + digit_val c) 0 b" for n
  proof (induction b rule: rev_induct)
    case (snoc c b)
    then show ?case by (simp add: algebra_simps)
  qed simp
  from this [of "foldl (\<lambda>a c. 10 * a + digit_val c) 0 a"] show ?thesis
    unfolding nat_of_digits_def foldl_append .
qed

lemma nat_of_zeros: "nat_of_digits (replicate k CHR ''0'') = 0"
  by (induction k) (simp_all add: nat_of_digits_def digit_val_def)

lemma digits_length: "n < 10 ^ Suc k \<Longrightarrow> length (digits_of n) \<le> Suc k"
proof (induction k arbitrary: n)
  case 0
  then show ?case by (subst digits_of.simps) simp
next
  case (Suc k)
  show ?case
  proof (cases "n < 10")
    case False
    have "length (digits_of (n div 10)) \<le> Suc k" using Suc.prems by (intro Suc.IH) (simp add: less_mult_imp_div_less)
    then show ?thesis using False by (subst digits_of.simps) simp
  qed (subst digits_of.simps, simp)
qed

lemma all_digits: "\<forall>c \<in> set (digits_of n). isdigit c"
  using digits_of_digits by blast

lemma strtod_fixed:
  assumes "c \<in> {CHR '','', CHR 0x7D}"
  shows "\<exists>rest. strtod (show_fixed 4 x @ c # r) = Some (rounded x, rest)"
proof -
  define m where "m = round_even (\<bar>x\<bar> * 10 ^ 4)"
  define f where "f = replicate (4 - length (digits_of (m mod 10 ^ 4))) CHR ''0'' @ digits_of (m mod 10 ^ 4)"
  define ip where "ip = digits_of (m div 10 ^ 4)"
  have "m mod 10 ^ 4 < 10 ^ Suc 3" by simp
  from digits_length [OF this] have lf: "length f = 4" by (simp add: f_def)
  have df: "\<forall>c \<in> set f. isdigit c" using all_digits by (auto simp: f_def isdigit_def)
  have di: "\<forall>c \<in> set ip. isdigit c" "ip \<noteq> []" using all_digits digits_of_ne by (auto simp: ip_def)
  have shown: "show_fixed 4 x = (if x < 0 then ''-'' else []) @ ip @ CHR ''.'' # f"
    by (simp add: show_fixed_def Let_def m_def f_def ip_def)
  have c: "\<not> isdigit c" "c \<notin> {CHR ''e'', CHR ''E''}" using assms by (auto simp: isdigit_def)
  obtain d ds where ip: "ip = d # ds" using di(2) by (cases ip) auto
  have d: "\<not> isspace d" "d \<noteq> CHR ''-''" "d \<noteq> CHR ''+''"
    using di(1) ip by (auto simp: isdigit_def isspace_def less_eq_char_def)
  let ?t = "ip @ CHR ''.'' # f @ c # r"
  have sign: "take_sign (dropWhile isspace (show_fixed 4 x @ c # r)) = ((if x < 0 then -1 else 1), ?t)"
    using d by (simp add: shown ip take_sign_def isspace_def)
  have i: "takeWhile isdigit ?t = ip" "dropWhile isdigit ?t = CHR ''.'' # f @ c # r"
    using di(1) by (simp_all add: takeWhile_append dropWhile_append isdigit_def takeWhile_all)
  have fr: "takeWhile isdigit (f @ c # r) = f" "dropWhile isdigit (f @ c # r) = c # r"
    using df c(1) by (simp_all add: takeWhile_append dropWhile_append takeWhile_all)
  have "nat_of_digits (ip @ f) = m div 10 ^ 4 * 10 ^ 4 + m mod 10 ^ 4"
    by (simp add: nat_of_digits_append lf ip_def nat_of_digits_of)
      (simp add: f_def nat_of_digits_append nat_of_zeros nat_of_digits_of)
  then have "nat_of_digits (ip @ f) = m" by simp
  then have "strtod (show_fixed 4 x @ c # r) = Some (rounded x, c # r)"
    using di(2) c(2) by (simp add: strtod_def sign i fr lf rounded_def m_def Let_def)
  then show ?thesis by blast
qed

lemma fixed_chars: "number_text (show_fixed 4 x)"
  by (simp add: show_fixed_def Let_def)

lemma fixed_comma: "CHR '','' \<notin> set (show_fixed 4 x)" "CHR 0x00 \<notin> set (show_fixed 4 x)"
proof -
  have "\<forall>c \<in> set (show_fixed 4 x). number_char c" using fixed_chars by (simp add: number_text_def)
  moreover have "\<not> number_char CHR '',''" "\<not> number_char CHR 0x00" by (simp_all add: number_char_def isdigit_def)
  ultimately show "CHR '','' \<notin> set (show_fixed 4 x)" "CHR 0x00 \<notin> set (show_fixed 4 x)" by blast+
qed

lemma c_str_whole: "CHR 0x00 \<notin> set s \<Longrightarrow> c_str s = s"
  by (auto simp: c_str_def intro: takeWhile_all)

lemma find_comma:
  assumes "CHR '','' \<notin> set a"
  shows "find_first (\<lambda>c. c = CHR '','') (length pre) (pre @ a @ CHR '','' # b) = Some (length pre + length a)"
proof -
  have "takeWhile (\<lambda>c. c \<noteq> CHR '','') (a @ CHR '','' # b) = a"
    using assms by (simp add: takeWhile_append takeWhile_all)
  then show ?thesis by (simp add: find_first_def)
qed

lemma vector_loop_reads:
  assumes "V \<noteq> []" and "CHR 0x00 \<notin> set pre"
  shows "vector_loop strtod (pre @ join_with '','' (map (show_fixed 4) V) @ [CHR 0x7D]) (length V) (length pre) acc =
    (True, acc @ map rounded V)"
  using assms
proof (induction V arbitrary: pre acc)
  case (Cons x V)
  let ?j = "join_with '','' (map (show_fixed 4) V) @ [CHR 0x7D]"
  show ?case
  proof (cases V)
    case Nil
    have nul: "c_str (show_fixed 4 x @ [CHR 0x7D]) = show_fixed 4 x @ [CHR 0x7D]"
      using fixed_comma(2) by (intro c_str_whole) simp
    obtain rest where "strtod (show_fixed 4 x @ [CHR 0x7D]) = Some (rounded x, rest)"
      using strtod_fixed [of "CHR 0x7D" x "[]"] by auto
    then show ?thesis using Nil nul by simp
  next
    case (Cons y V')
    let ?s = "pre @ show_fixed 4 x @ CHR '','' # ?j"
    have s: "pre @ join_with '','' (map (show_fixed 4) (x # V)) @ [CHR 0x7D] = ?s" by (simp add: Cons)
    have "set (join_with '','' (map (show_fixed 4) V)) \<subseteq> set '','' \<union> \<Union> (set ` set (map (show_fixed 4) V))"
      by (rule set_join_with)
    then have nul: "CHR 0x00 \<notin> set (show_fixed 4 x @ CHR '','' # ?j)" using fixed_comma(2) by fastforce
    obtain rest where "strtod (show_fixed 4 x @ CHR '','' # ?j) = Some (rounded x, rest)"
      using strtod_fixed [of "CHR '',''" x ?j] by auto
    moreover have "find_first (\<lambda>c. c = CHR '','') (length pre) ?s = Some (length pre + length (show_fixed 4 x))"
      by (rule find_comma [OF fixed_comma(1)])
    moreover have "vector_loop strtod ((pre @ show_fixed 4 x @ '','') @ ?j) (length V)
        (length (pre @ show_fixed 4 x @ '','')) (acc @ [rounded x]) = (True, (acc @ [rounded x]) @ map rounded V)"
      using Cons Cons.prems(2) fixed_comma(2) by (intro Cons.IH) auto
    ultimately show ?thesis unfolding s using c_str_whole [OF nul] by simp
  qed
qed simp

section \<open>What is written is read\<close>

lemma atoi_prefix:
  assumes "\<not> isdigit c"
  shows "atoi (digits_of n @ c # r) = int n"
proof -
  obtain d ds where d: "digits_of n = d # ds" using digits_of_ne by (cases "digits_of n") auto
  then have "isdigit d" using all_digits [of n] by simp
  then have h: "\<not> isspace d" "d \<noteq> CHR ''-''" "d \<noteq> CHR ''+''"
    by (auto simp: isdigit_def isspace_def less_eq_char_def)
  have "takeWhile isdigit (digits_of n @ c # r) = digits_of n"
    using all_digits assms by (simp add: takeWhile_append takeWhile_all)
  then show ?thesis
    using h d nat_of_digits_of [of n] by (simp add: atoi_def take_sign_def)
qed

lemma find_after:
  assumes "c \<notin> set a"
  shows "find_first (\<lambda>x. x = c) (length pre) (pre @ a @ c # b) = Some (length pre + length a)"
proof -
  have "takeWhile (\<lambda>x. x \<noteq> c) (a @ c # b) = a" using assms by (simp add: takeWhile_append takeWhile_all)
  then show ?thesis by (simp add: find_first_def)
qed

text \<open>A vector that is printed is read back with its size, each number rounded to four decimals; an
  empty one is refused.\<close>

theorem vector_roundtrip:
  "vector_doubles (DoubleVector2String V) out =
     (if V = [] then (False, fst out, 0, 1) else (True, map rounded V, int (length V), 1))"
proof -
  let ?ds = "digits_of (length V)" and ?j = "join_with '','' (map (show_fixed 4) V) @ [CHR 0x7D]"
  let ?tail = "''x1]'' @ [CHR 0x7B] @ ?j"
  let ?s = "''['' @ ?ds @ ?tail" and ?pre = "''['' @ ?ds @ ''x1]'' @ [CHR 0x7B]"
  have s: "DoubleVector2String V = ?s"
    by (simp add: DoubleVector2String_def write_doubles_def show_int_def)
  have dig: "\<forall>c \<in> set ?ds. isdigit c" by (rule all_digits)
  have x: "CHR ''x'' \<notin> set ?ds" "CHR 0x00 \<notin> set ?ds" using dig by (auto simp: isdigit_def)
  have "set (join_with '','' (map (show_fixed 4) V)) \<subseteq> set '','' \<union> \<Union> (set ` set (map (show_fixed 4) V))"
    by (rule set_join_with)
  then have nul: "CHR 0x00 \<notin> set ?j" using fixed_comma(2) by fastforce
  have f1: "find_first (\<lambda>c. c = CHR ''['') 0 ?s = Some 0" by (simp add: find_first_def)
  have rows: "atoi (c_str (drop (0 + 1) ?s)) = int (length V)"
  proof -
    have "c_str (drop (0 + 1) ?s) = ?ds @ CHR ''x'' # ''1]'' @ [CHR 0x7B] @ ?j"
      using c_str_whole [of "?ds @ CHR ''x'' # ''1]'' @ [CHR 0x7B] @ ?j"] nul x by simp
    then show ?thesis using atoi_prefix [of "CHR ''x''" "length V"] by (simp add: isdigit_def)
  qed
  have f2: "find_first (\<lambda>c. c = CHR ''x'') 0 ?s = Some (length ?ds + 1)"
    using find_after [of "CHR ''x''" "''['' @ ?ds" "[]" "''1]'' @ [CHR 0x7B] @ ?j"] x by simp
  have one: "digits_of (Suc 0) = ''1''" by code_simp
  have cols: "atoi (c_str (drop (length ?ds + 1 + 1) ?s)) = 1"
  proof -
    have "c_str (drop (length ?ds + 1 + 1) ?s) = digits_of 1 @ CHR '']'' # [CHR 0x7B] @ ?j"
      using c_str_whole [of "CHR ''1'' # CHR '']'' # CHR 0x7B # ?j"] nul one by simp
    then show ?thesis using atoi_prefix [of "CHR '']''" 1] by (simp add: isdigit_def)
  qed
  have f3: "find_first (\<lambda>c. c = CHR 0x7B) (length ?ds + 1) ?s = Some (length ?ds + 4)"
    using find_after [of "CHR 0x7B" "''x1]''" "''['' @ ?ds" ?j] by simp
  have out: "vector_doubles ?s out =
      (if (1 :: int) \<le> 0 \<or> int (length V) \<le> 0 then (False, fst out, int (length V), 1)
       else let (ok, v) = vector_loop strtod ?s (nat (int (length V)) * nat 1) (length ?ds + 4 + 1) []
            in (ok, v, int (length V), 1))"
    unfolding vector_doubles_def MOOSVectorFromString_def f1 option.case Let_def rows f2 prod.case cols f3 ..
  show ?thesis
  proof (cases "V = []")
    case True
    then have "int (length V) \<le> 0" by simp
    then show ?thesis unfolding s out using True by simp
  next
    case False
    have "CHR 0x00 \<notin> set ?pre" using x by simp
    from vector_loop_reads [OF False this, of "[]"]
    moreover have "length ?pre = length ?ds + 4 + 1" by simp
    ultimately have "vector_loop strtod ?s (length V) (length ?ds + 4 + 1) [] = (True, map rounded V)"
      by (simp only: append_assoc append_Nil)
    then show ?thesis unfolding s out using False by (simp add: add.commute)
  qed
qed

lemma round_even_near: "0 \<le> y \<Longrightarrow> \<bar>real (round_even y) - y\<bar> \<le> 1 / 2"
proof -
  assume y: "0 \<le> y"
  define f where "f = nat \<lfloor>y\<rfloor>"
  have f: "real f \<le> y" "y < real f + 1" using y unfolding f_def by linarith+
  show ?thesis using f unfolding round_even_def Let_def f_def [symmetric] by (auto simp: abs_le_iff)
qed

text \<open>Rounding changes a number by no more than half of the last decimal.\<close>

lemma rounded_near: "\<bar>rounded x - x\<bar> \<le> 1 / 20000"
proof -
  define n where "n = real (round_even (\<bar>x\<bar> * 10 ^ 4))"
  have "\<bar>n - \<bar>x\<bar> * 10 ^ 4\<bar> \<le> 1 / 2" unfolding n_def by (rule round_even_near) simp
  then have b: "n - \<bar>x\<bar> * 10000 \<le> 1 / 2" "\<bar>x\<bar> * 10000 - n \<le> 1 / 2"
    unfolding abs_le_iff by simp_all
  have "rounded x = (if x < 0 then - n / 10000 else n / 10000)" by (simp add: rounded_def n_def)
  then have "rounded x - x \<le> 1 / 20000 \<and> x - rounded x \<le> 1 / 20000"
    using b by (cases "x < 0") (auto simp: field_simps)
  then show ?thesis by linarith
qed

text \<open>With fewer numbers than the size says, the position after the last comma is the beginning of
  the text: if that starts with a number the missing ones are taken from there.\<close>

theorem vector_wraps:
  "vector_unsigned (''7 [2x1]'' @ [CHR 0x7B] @ ''5'' @ [CHR 0x7D]) out = (True, [5, 7], 2, 1)"
proof -
  have n: "nat (int 2) * nat 1 = Suc (Suc 0)" by simp
  show ?thesis
    by (simp add: vector_unsigned_def MOOSVectorFromString_def find_first_def atoi_def take_sign_def isspace_def
        isdigit_def nat_of_digits_def digit_val_def c_str_def less_eq_char_def strtoul_def numeral_2_eq_2 Let_def)
qed

end
