(* ===== verification/Moos_Interp.thy ===== *)
theory Moos_Interp
  imports Moos_Prelude Complex_Main
begin

text \<open>
  A buffer of data by time with interpolation (\<open>Utils/InterpBuffer.h\<close>): a map ordered by its keys, an
  interpolating function between two neighbours, and extrapolation at both ends. \<open>None\<close> stands for
  the failed assertion on an empty buffer.
\<close>

type_synonym 'd buffer = "(real, 'd) omap"

definition lower_part :: "real \<Rightarrow> 'd buffer \<Rightarrow> 'd buffer" where
  "lower_part t m = takeWhile (\<lambda>e. fst e < t) m"

definition lower_bound :: "real \<Rightarrow> 'd buffer \<Rightarrow> 'd buffer" where
  "lower_bound t m = dropWhile (\<lambda>e. fst e < t) m"

definition interp_at :: "(real \<times> 'd \<Rightarrow> real \<times> 'd \<Rightarrow> real \<Rightarrow> 'd) \<Rightarrow> 'd buffer \<Rightarrow> real \<Rightarrow> 'd option" where
  "interp_at f m t =
     (if m = [] then None
      else if length m = 1 then Some (snd (hd m))
      else let low = lower_part t m; hi = lower_bound t m
           in if low \<noteq> [] \<and> hi \<noteq> [] then Some (f (last low) (hd hi) t)
              else if low = [] then Some (f (hd m) (m ! 1) t)
              else Some (f (m ! (length m - 2)) (last m) t))"

definition EraseOld :: "real \<Rightarrow> 'd buffer \<Rightarrow> 'd buffer" where
  "EraseOld dfTime m = (if m \<noteq> [] then lower_bound dfTime m else m)"

definition MaxKey :: "'d buffer \<Rightarrow> real option" where
  "MaxKey m = (if m = [] then None else Some (fst (last m)))"

definition MinKey :: "'d buffer \<Rightarrow> real option" where
  "MinKey m = (if m = [] then None else Some (fst (hd m)))"

definition MaxData :: "'d buffer \<Rightarrow> 'd option" where
  "MaxData m = (if m = [] then None else Some (snd (last m)))"

definition MinData :: "'d buffer \<Rightarrow> 'd option" where
  "MinData m = (if m = [] then None else Some (snd (hd m)))"

definition MakeSpanTime :: "real \<Rightarrow> 'd buffer \<Rightarrow> 'd buffer" where
  "MakeSpanTime dfSpan m = (case MaxKey m of None \<Rightarrow> m | Some k \<Rightarrow> EraseOld (k - dfSpan) m)"

section \<open>Interpolators\<close>

definition interp_alpha :: "real \<Rightarrow> real \<Rightarrow> real \<Rightarrow> real" where
  "interp_alpha dfLoTime dfHiTime t =
     (let dt = dfHiTime - dfLoTime in if dt \<noteq> 0 then (t - dfLoTime) / dt else 0)"

definition numeric_interp :: "real \<times> real \<Rightarrow> real \<times> real \<Rightarrow> real \<Rightarrow> real" where
  "numeric_interp lo hi t =
     (let a = interp_alpha (fst lo) (fst hi) t in a * snd hi + (1 - a) * snd lo)"

text \<open>An object is the list of its values.\<close>

definition generic_interp :: "real \<times> real list \<Rightarrow> real \<times> real list \<Rightarrow> real \<Rightarrow> real list" where
  "generic_interp lo hi t =
     (let a = interp_alpha (fst lo) (fst hi) t
      in map2 (\<lambda>dfValLo dfValHi. a * dfValHi + (1 - a) * dfValLo) (snd lo) (snd hi))"

definition closest_interp :: "real \<times> 'd \<Rightarrow> real \<times> 'd \<Rightarrow> real \<Rightarrow> 'd" where
  "closest_interp lo hi t = (if \<bar>t - fst hi\<bar> > \<bar>t - fst lo\<bar> then snd lo else snd hi)"

section \<open>Neighbours\<close>

lemma buffer_parts:
  assumes "map_ok m"
  shows "\<forall>e \<in> set (lower_part t m). fst e < t" and "\<forall>e \<in> set (lower_bound t m). t \<le> fst e"
proof -
  show "\<forall>e \<in> set (lower_part t m). fst e < t" by (auto simp: lower_part_def dest: set_takeWhileD)
  have "sorted_wrt (<) (map fst m)" using assms by (simp add: map_ok_def)
  then show "\<forall>e \<in> set (lower_bound t m). t \<le> fst e"
    unfolding lower_bound_def by (induction m) (auto dest: less_imp_le)
qed

lemma parts_append: "lower_part t m @ lower_bound t m = m"
  by (simp add: lower_part_def lower_bound_def)

lemma erase_old: "map_ok m \<Longrightarrow> EraseOld t m = filter (\<lambda>e. t \<le> fst e) m"
proof -
  assume m: "map_ok m"
  have "filter (\<lambda>e. t \<le> fst e) m = filter (\<lambda>e. t \<le> fst e) (lower_part t m) @ filter (\<lambda>e. t \<le> fst e) (lower_bound t m)"
    by (metis filter_append parts_append)
  moreover have "filter (\<lambda>e. t \<le> fst e) (lower_part t m) = []"
    using buffer_parts(1) [OF m, of t] by (auto simp: filter_empty_conv)
  moreover have "filter (\<lambda>e. t \<le> fst e) (lower_bound t m) = lower_bound t m"
    using buffer_parts(2) [OF m, of t] by (auto intro: filter_True)
  ultimately show ?thesis by (auto simp: EraseOld_def)
qed

text \<open>What a buffer of a limited span keeps: the entries no older than the span before the newest.\<close>

lemma span_kept:
  "map_ok m \<Longrightarrow> m \<noteq> [] \<Longrightarrow> MakeSpanTime dfSpan m = filter (\<lambda>e. fst (last m) - dfSpan \<le> fst e) m"
  by (simp add: MakeSpanTime_def MaxKey_def erase_old)

lemma neighbours_apart: "map_ok m \<Longrightarrow> Suc i < length m \<Longrightarrow> fst (m ! i) < fst (m ! Suc i)"
  using sorted_wrt_nth_less [of "(<)" "map fst m" i "Suc i"] by (auto simp: map_ok_def nth_map)

text \<open>The two entries that are interpolated are neighbours of the buffer.\<close>

lemma interp_pair:
  assumes "map_ok m" and "2 \<le> length m"
  shows "\<exists>i. Suc i < length m \<and> interp_at f m t = Some (f (m ! i) (m ! Suc i) t)
    \<and> (fst (hd m) \<le> t \<longrightarrow> t \<le> fst (last m) \<longrightarrow> fst (m ! i) \<le> t \<and> t \<le> fst (m ! Suc i))"
proof -
  let ?low = "lower_part t m" and ?hi = "lower_bound t m"
  have ne: "m \<noteq> []" "length m \<noteq> 1" using assms(2) by auto
  consider "?low \<noteq> []" "?hi \<noteq> []" | "?low = []" | "?hi = []" "?low \<noteq> []" by blast
  then show ?thesis
  proof cases
    case 1
    let ?i = "length ?low - 1"
    have "length m = length ?low + length ?hi" by (metis length_append parts_append)
    then have i: "Suc ?i < length m" using 1 by (cases "?low"; cases "?hi") auto
    have "m ! ?i = last ?low"
      using 1 by (metis diff_less last_conv_nth length_greater_0_conv less_one nth_append parts_append)
    moreover have "m ! Suc ?i = hd ?hi"
      using 1 parts_append [of t m] by (metis One_nat_def Suc_pred hd_conv_nth length_greater_0_conv nth_append_length_plus plus_nat.add_0 add.right_neutral)
    moreover have "fst (last ?low) \<le> t" "t \<le> fst (hd ?hi)"
      using buffer_parts [OF assms(1), of t] 1 by (auto intro: less_imp_le)
    ultimately show ?thesis
      using 1 i ne by (intro exI [of _ ?i]) (simp add: interp_at_def Let_def)
  next
    case 2
    then have "?hi = m" using parts_append [of t m] by simp
    then have "t \<le> fst (hd m)" using buffer_parts(2) [OF assms(1), of t] ne by auto
    moreover have "fst (m ! 0) < fst (m ! 1)"
      using neighbours_apart [OF assms(1), of 0] assms(2) by simp
    ultimately show ?thesis
      using 2 ne assms(2) by (intro exI [of _ 0]) (auto simp: interp_at_def Let_def hd_conv_nth)
  next
    case 3
    then have "?low = m" using parts_append [of t m] by simp
    then have "fst (last m) < t" using buffer_parts(1) [OF assms(1), of t] ne by auto
    moreover have "Suc (length m - 2) = length m - 1" using assms(2) by simp
    ultimately show ?thesis
      using 3 ne assms(2) by (intro exI [of _ "length m - 2"]) (auto simp: interp_at_def Let_def last_conv_nth)
  qed
qed

section \<open>Properties\<close>

text \<open>Data on a straight line are interpolated, and extrapolated, on that line.\<close>

theorem interp_linear:
  assumes "map_ok m" and "2 \<le> length m" and "\<forall>e \<in> set m. snd e = a * fst e + b"
  shows "interp_at numeric_interp m t = Some (a * t + b)"
proof -
  obtain i where i: "Suc i < length m" "interp_at numeric_interp m t = Some (numeric_interp (m ! i) (m ! Suc i) t)"
    using interp_pair [OF assms(1,2)] by blast
  define x y where "x = fst (m ! i)" and "y = fst (m ! Suc i)"
  have xy: "x < y" using neighbours_apart [OF assms(1) i(1)] by (simp add: x_def y_def)
  have d: "snd (m ! i) = a * x + b" "snd (m ! Suc i) = a * y + b"
    using assms(3) i(1) by (auto simp: x_def y_def)
  define q where "q = (t - x) / (y - x)"
  have q: "q * (y - x) = t - x" using xy by (simp add: q_def)
  have "numeric_interp (m ! i) (m ! Suc i) t = q * (a * y + b) + (1 - q) * (a * x + b)"
    using xy by (simp add: numeric_interp_def interp_alpha_def Let_def d q_def flip: x_def y_def)
  also have "\<dots> = a * (q * (y - x)) + (a * x + b)" by (simp add: algebra_simps)
  also have "\<dots> = a * t + b" unfolding q by (simp add: algebra_simps)
  finally show ?thesis using i(2) by simp
qed

text \<open>Within the times of the buffer the value lies between those of the two neighbours, and is the
  value of an entry at the entry's own time.\<close>

theorem interp_between:
  assumes "map_ok m" and "2 \<le> length m" and "fst (hd m) \<le> t" and "t \<le> fst (last m)"
  shows "\<exists>i v. Suc i < length m \<and> interp_at numeric_interp m t = Some v \<and> fst (m ! i) \<le> t \<and> t \<le> fst (m ! Suc i)
    \<and> min (snd (m ! i)) (snd (m ! Suc i)) \<le> v \<and> v \<le> max (snd (m ! i)) (snd (m ! Suc i))
    \<and> (t = fst (m ! i) \<longrightarrow> v = snd (m ! i)) \<and> (t = fst (m ! Suc i) \<longrightarrow> v = snd (m ! Suc i))"
proof -
  obtain i where i: "Suc i < length m" "interp_at numeric_interp m t = Some (numeric_interp (m ! i) (m ! Suc i) t)"
    "fst (m ! i) \<le> t" "t \<le> fst (m ! Suc i)"
    using interp_pair [OF assms(1,2), of numeric_interp t] assms(3,4) by blast
  have xy: "fst (m ! i) < fst (m ! Suc i)" by (rule neighbours_apart [OF assms(1) i(1)])
  define q where "q = (t - fst (m ! i)) / (fst (m ! Suc i) - fst (m ! i))"
  have q: "0 \<le> q" "q \<le> 1" using xy i(3,4) by (simp_all add: q_def)
  let ?l = "snd (m ! i)" and ?h = "snd (m ! Suc i)" and ?v = "numeric_interp (m ! i) (m ! Suc i) t"
  have v: "?v = q * ?h + (1 - q) * ?l"
    using xy by (simp add: numeric_interp_def interp_alpha_def Let_def q_def)
  have "?v = ?l + q * (?h - ?l)" "?v = ?h - (1 - q) * (?h - ?l)" unfolding v by (simp_all add: algebra_simps)
  moreover have "?l \<le> ?h \<Longrightarrow> 0 \<le> q * (?h - ?l) \<and> 0 \<le> (1 - q) * (?h - ?l)" using q by simp
  moreover have "?h \<le> ?l \<Longrightarrow> q * (?h - ?l) \<le> 0 \<and> (1 - q) * (?h - ?l) \<le> 0"
    using q by (simp add: mult_nonneg_nonpos)
  ultimately have "min ?l ?h \<le> ?v" "?v \<le> max ?l ?h" by (cases "?l \<le> ?h"; simp)+
  moreover have "t = fst (m ! i) \<longrightarrow> ?v = ?l" "t = fst (m ! Suc i) \<longrightarrow> ?v = ?h"
    unfolding v using xy by (auto simp: q_def)
  ultimately show ?thesis using i by blast
qed

theorem interp_linear_witness: "interp_at numeric_interp [(1, 3), (2, 5), (4, 9)] 6 = Some 13"
  using interp_linear [of "[(1, 3), (2, 5), (4, 9)]" 2 1 6] by (simp add: map_ok_def)

theorem interp_between_witness:
  "\<exists>i v. Suc i < length [(1 :: real, 3 :: real), (2, 5), (4, 0)] \<and> interp_at numeric_interp [(1, 3), (2, 5), (4, 0)] 2 = Some v
    \<and> fst ([(1 :: real, 3 :: real), (2, 5), (4, 0)] ! i) \<le> 2 \<and> 0 \<le> v \<and> v \<le> 5"
proof -
  let ?m = "[(1, 3), (2, 5), (4, 0)] :: real buffer"
  obtain i v where i: "Suc i < length ?m" "interp_at numeric_interp ?m 2 = Some v" "fst (?m ! i) \<le> 2"
    and b: "min (snd (?m ! i)) (snd (?m ! Suc i)) \<le> v" "v \<le> max (snd (?m ! i)) (snd (?m ! Suc i))"
    using interp_between [of ?m 2] by (auto simp: map_ok_def)
  have "i = 0 \<or> i = 1" using i(1) by auto
  then have "0 \<le> v" "v \<le> 5" using b by auto
  then show ?thesis using i by blast
qed

end
