(* ===== verification/Moos_Umm.thy ===== *)
theory Moos_Umm
  imports Moos_AppProperties Moos_Request
begin

text \<open>
  The application \<open>umm\<close> (\<open>src/Core/tools/umm/umm.cpp\<close>): it publishes variables at given
  frequencies from a queue of jobs, subscribes to variables and patterns, and sends mail back under
  new names. A derived class of the application of \<open>Moos_App\<close>, whose state is the record \<open>umm\<close>.

  \<^item> Printing, the log file and the loading of processors are left out.
  \<^item> \<open>exit\<close> is \<open>None\<close>, or the flag of the scheduler that it has ended the process.
  \<^item> The priority queue of the jobs is a list sorted by time; of equal times, where the library
    leaves the order open, the older entry is first.
\<close>

section \<open>Jobs\<close>

record umm_job =
  j_dfPeriod :: real
  j_dfTimeScheduled :: real
  j_sName :: string
  j_nCount :: nat
  j_DataSize :: nat

definition new_job :: "real \<Rightarrow> string \<Rightarrow> nat \<Rightarrow> real \<Rightarrow> umm_job" where
  "new_job dfPeriod sName nSize now =
     \<lparr>j_dfPeriod = dfPeriod, j_dfTimeScheduled = now + dfPeriod, j_sName = sName, j_nCount = 0, j_DataSize = nSize\<rparr>"

definition IsBinaryJob :: "umm_job \<Rightarrow> bool" where
  "IsBinaryJob j \<longleftrightarrow> j_DataSize j \<noteq> 0"

text \<open>The two readings of the clock in \<open>Reschedule\<close>.\<close>

definition Reschedule :: "real \<Rightarrow> real \<Rightarrow> umm_job \<Rightarrow> umm_job" where
  "Reschedule t1 t2 j =
     (let j = j\<lparr>j_nCount := j_nCount j + 1\<rparr>;
          dfTerr = t1 - j_dfTimeScheduled j;
          j = j\<lparr>j_dfTimeScheduled := t2 + j_dfPeriod j\<rparr>
      in if j_nCount j mod 100 \<noteq> 0 then j\<lparr>j_dfTimeScheduled := j_dfTimeScheduled j - dfTerr\<rparr> else j)"

definition isActive :: "real \<Rightarrow> umm_job \<Rightarrow> bool" where
  "isActive TimeNow j \<longleftrightarrow> j_dfTimeScheduled j < TimeNow"

fun push_job :: "umm_job \<Rightarrow> umm_job list \<Rightarrow> umm_job list" where
  "push_job j [] = [j]"
| "push_job j (i # is) = (if j_dfTimeScheduled j < j_dfTimeScheduled i then j # i # is else i # push_job j is)"

section \<open>State\<close>

record umm =
  u_vSubscribe :: "string list"
  u_vWildSubscriptions :: "string list"
  u_SimulateNetworkFailure :: bool
  u_NetworkStallProb :: real
  u_NetworkStallTime :: real
  u_ApplicationExitProb :: real
  u_sDBIPAddress :: string
  u_bVerbose :: bool
  u_bShowLatency :: bool
  u_dfMeanLatency :: real
  u_bShowBandwidth :: bool
  u_bShowTimingAdjustment :: bool
  u_bPing :: bool
  u_bPingRxd :: bool
  u_TxCount :: int
  u_cpu_load :: real
  u_Jobs :: "umm_job list"
  u_BinaryArray :: nat
  u_Map :: "(string, string) omap"
  u_dfT :: "real option"

definition on_umm :: "(umm \<Rightarrow> umm) \<Rightarrow> umm app \<Rightarrow> umm app" where
  "on_umm f A = A\<lparr>p_user := f (p_user A)\<rparr>"

section \<open>The command line\<close>

text \<open>\<open>ss >> n\<close> for an unsigned integer: 0 for a text that is none.\<close>

definition read_unsigned :: "string \<Rightarrow> nat" where
  "read_unsigned s =
     (let (g, t) = take_sign (dropWhile isspace s); ds = takeWhile isdigit t; n = nat_of_digits ds
      in if ds = [] then 0 else if n \<ge> 2 ^ 32 then 2 ^ 32 - 1 else nat ((g * int n) mod 2 ^ 32))"

text \<open>One entry of \<open>-b\<close>.\<close>

definition add_bounce :: "string \<Rightarrow> umm \<Rightarrow> umm" where
  "add_bounce q u =
     (let (v, q) = MOOSChomp q '':'' False
      in if q = [] then u
         else u\<lparr>u_Map := map_set v q (u_Map u), u_vSubscribe := u_vSubscribe u @ [v]\<rparr>)"

text \<open>One entry of \<open>-p\<close>: name, size of the data and period; \<open>None\<close> is the exit for a frequency
  that is no number.\<close>

definition read_publication :: "string \<Rightarrow> (string \<times> nat \<times> real) option" where
  "read_publication q =
     (let (sVar, sEntry) = MOOSChomp q ''@'' False;
          (sName, sVar) = MOOSChomp sVar '':'' False;
          nArraySize = (if sVar \<noteq> [] then read_unsigned sVar else 0)
      in if sEntry = [] then Some (sName, nArraySize, 1)
         else if \<not> MOOSIsNumeric sEntry then None
         else Some (sName, nArraySize, 1 / max (atof sEntry) (1 / 100)))"

fun add_publications :: "(nat \<Rightarrow> real) \<Rightarrow> nat \<Rightarrow> string list \<Rightarrow> umm \<Rightarrow> umm option" where
  "add_publications clock k [] u = Some u"
| "add_publications clock k (q # qs) u =
     (case read_publication q of
        None \<Rightarrow> None
      | Some (sName, nArraySize, dfPeriod) \<Rightarrow>
          add_publications clock (k + 1) qs
            (u\<lparr>u_BinaryArray := max (u_BinaryArray u) nArraySize,
               u_Jobs := push_job (new_job dfPeriod sName nArraySize (clock k)) (u_Jobs u)\<rparr>))"

text \<open>The lists that the command line gives: subscriptions, patterns and bounced variables.\<close>

definition split_variable :: "string \<Rightarrow> command_line \<Rightarrow> string list option" where
  "split_variable var cl =
     (case GetVariable_string var [] cl of
        (b, temp) \<Rightarrow> if b then Some (StringListToVector temp '','') else None)"

definition read_lists :: "command_line \<Rightarrow> umm \<Rightarrow> umm" where
  "read_lists cl u =
     (let u = (case split_variable ''-s'' cl of None \<Rightarrow> u | Some v \<Rightarrow> u\<lparr>u_vSubscribe := v\<rparr>);
          u = (case split_variable ''-w'' cl of None \<Rightarrow> u | Some v \<Rightarrow> u\<lparr>u_vWildSubscriptions := v\<rparr>);
          u = (case split_variable ''-b'' cl of None \<Rightarrow> u | Some v \<Rightarrow> fold add_bounce v u);
          u = (if GetFlag ''--spy'' [] cl
               then u\<lparr>u_vWildSubscriptions := u_vWildSubscriptions u @ [''*:*@1.0''], u_bVerbose := True\<rparr> else u);
          u = (if GetFlag ''--spy_all'' [] cl
               then u\<lparr>u_vWildSubscriptions := u_vWildSubscriptions u @ [''*:*@0.0''], u_bVerbose := True\<rparr> else u)
      in case split_variable ''--spy_proc'' cl of None \<Rightarrow> u
         | Some v \<Rightarrow> u\<lparr>u_vWildSubscriptions := u_vWildSubscriptions u @ map (\<lambda>q. ''*:'' @ q @ ''@0.0'') v,
                        u_bVerbose := True\<rparr>)"

definition read_numbers :: "command_line \<Rightarrow> umm \<Rightarrow> umm" where
  "read_numbers cl u =
     u\<lparr>u_NetworkStallProb := snd (GetVariable_double ''--network_failure_prob'' 0 cl),
       u_NetworkStallTime := snd (GetVariable_double ''--network_failure_time'' 0 cl),
       u_ApplicationExitProb := snd (GetVariable_double ''--application_failure_prob'' 0 cl),
       u_cpu_load := snd (GetVariable_double ''--cpu_load'' 0 cl),
       u_SimulateNetworkFailure := GetFlag ''-N'' ''--simulate_network_failure'' cl\<rparr>"

text \<open>\<open>opens\<close>: whether the log file can be opened; \<open>clock\<close> is what the jobs read from the clock.\<close>

definition umm_OnProcessCommandLine :: "(string \<Rightarrow> bool) \<Rightarrow> (nat \<Rightarrow> real) \<Rightarrow> umm app \<Rightarrow> umm app option" where
  "umm_OnProcessCommandLine opens clock A =
     (let cl = p_CommandLine A;
          A = on_umm (\<lambda>u. u\<lparr>u_bShowLatency := GetFlag ''-l'' ''--latency'' cl,
                            u_bVerbose := GetFlag ''-v'' ''--verbose'' cl,
                            u_bShowBandwidth := GetFlag ''-W'' ''--bandwidth'' cl,
                            u_bShowTimingAdjustment := GetFlag ''-k'' ''--skew'' cl\<rparr>) A;
          vPublish = (case split_variable ''-p'' cl of None \<Rightarrow> [] | Some v \<Rightarrow> v);
          A = on_umm (read_lists cl) A;
          A = on_umm (\<lambda>u. u\<lparr>u_TxCount := snd (GetVariable_int ''--num_tx'' (-1) cl)\<rparr>) A;
          ping = GetFlag ''--ping'' [] cl;
          A = on_umm (\<lambda>u. u\<lparr>u_bPing := ping\<rparr>) A;
          A = (if ping then on_umm (\<lambda>u. u\<lparr>u_vSubscribe := u_vSubscribe u @ [''__ping'']\<rparr>)
                              (AppSetQuiet True (EnableIterateWithoutComms True A)) else A);
          vPublish = (if ping then vPublish @ [''__ping:1024@1''] else vPublish);
          A = on_umm (read_numbers cl) A;
          (has_log, sLogFileName) = GetVariable_string ''--log'' [] cl
      in if has_log \<and> \<not> opens sLogFileName then None
         else let A = snd (SetIterateMode COMMS_DRIVEN_ITERATE_AND_MAIL (SetAppFreq 100 400 A))
              in map_option (\<lambda>u. A\<lparr>p_user := u\<rparr>) (add_publications clock 0 vPublish (p_user A)))"

section \<open>Subscribing\<close>

text \<open>The period of a subscription, from its frequency; 0 is every notification.\<close>

definition period_of :: "string \<Rightarrow> real" where
  "period_of sEntry =
     (if MOOSIsNumeric sEntry \<and> sEntry \<noteq> [] then (if atof sEntry > 0 then 1 / atof sEntry else 0) else 0)"

definition subscribe_to :: "real \<Rightarrow> string \<Rightarrow> umm app \<Rightarrow> umm app" where
  "subscribe_to now q A =
     (let (sVar, sEntry) = MOOSChomp q ''@'' False in snd (AppRegister sVar (period_of sEntry) now A))"

text \<open>One pattern: variable, application and period, or \<open>None\<close> for one that is refused.\<close>

definition read_pattern :: "string \<Rightarrow> (string \<times> string \<times> real) option" where
  "read_pattern w =
     (let (sVarPattern, sEntry) = MOOSChomp w '':'' False;
          (sAppPattern, sEntry) = MOOSChomp sEntry ''@'' False
      in if sEntry \<noteq> [] \<and> \<not> MOOSIsNumeric sEntry then None
         else let sAppPattern = (if sEntry = [] \<and> sAppPattern = [] then ''*'' else sAppPattern)
              in if sVarPattern = [] then None else Some (sVarPattern, sAppPattern, period_of sEntry))"

definition subscribe_pattern :: "real \<Rightarrow> string \<Rightarrow> umm app \<Rightarrow> umm app" where
  "subscribe_pattern now w A =
     (case read_pattern w of None \<Rightarrow> A | Some (v, a, p) \<Rightarrow> snd (AppRegisterPattern v a p now A))"

definition DoSubscriptions :: "real \<Rightarrow> umm app \<Rightarrow> bool \<times> umm app" where
  "DoSubscriptions now A =
     (True, fold (subscribe_pattern now) (u_vWildSubscriptions (p_user A))
              (fold (subscribe_to now) (u_vSubscribe (p_user A)) A))"

text \<open>\<open>lookup\<close> is the resolver of names; a name it does not know is an exception nobody catches.\<close>

definition umm_OnConnectToServer :: "(string \<Rightarrow> string option) \<Rightarrow> real \<Rightarrow> umm app \<Rightarrow> (bool \<times> umm app) option" where
  "umm_OnConnectToServer numeric now A =
     map_option (\<lambda>a. DoSubscriptions now (on_umm (u_sDBIPAddress_update (\<lambda>_. a)) A)) (numeric (p_sServerHost A))"

section \<open>Mail\<close>

text \<open>One message, at the time \<open>now\<close>.\<close>

definition umm_mail :: "real \<Rightarrow> moos_msg \<Rightarrow> umm app \<Rightarrow> umm app" where
  "umm_mail now q A =
     (let dfLatencyMS = (now - m_dfTime q) * 1000;
          A = on_umm (\<lambda>u. u\<lparr>u_dfMeanLatency := dfLatencyMS / 10 + 9 / 10 * u_dfMeanLatency u\<rparr>) A;
          (q, A) = (case map_of (u_Map (p_user A)) (m_sKey q) of
                      None \<Rightarrow> (q, A)
                    | Some w \<Rightarrow> (let (_, q, a) = AsyncPost (q\<lparr>m_sKey := w\<rparr>) False (p_Comms A)
                                in (q, A\<lparr>p_Comms := a\<rparr>)))
      in if u_bPing (p_user A) \<and> take 6 (m_sKey q) = ''__ping'' \<and> \<not> fst (IsSkewed q now)
         then on_umm (\<lambda>u. u\<lparr>u_bPingRxd := True\<rparr>) A else A)"

fun umm_mails :: "(nat \<Rightarrow> real) \<Rightarrow> nat \<Rightarrow> moos_msg list \<Rightarrow> umm app \<Rightarrow> umm app" where
  "umm_mails clock k [] A = A"
| "umm_mails clock k (q # NewMail) A = umm_mails clock (k + 1) NewMail (umm_mail (clock k) q A)"

definition umm_OnNewMail :: "(nat \<Rightarrow> real) \<Rightarrow> moos_msg list \<Rightarrow> umm app \<Rightarrow> bool \<times> umm app" where
  "umm_OnNewMail clock NewMail A = (True, umm_mails clock 0 NewMail A)"

section \<open>Iterating\<close>

text \<open>\<open>key\<close> is what the keyboard has, \<open>arrivals\<close> what the reader of the client does while the
  request waits for its reply. \<open>Flush\<close> of the asynchronous client does nothing.\<close>

definition AsyncServerRequest ::
  "(client \<Rightarrow> client) list \<Rightarrow> string \<Rightarrow> real \<Rightarrow> real \<Rightarrow> bool \<Rightarrow> aclient \<Rightarrow> bool \<times> aclient" where
  "AsyncServerRequest arrivals sWhat now dfTimeOut bClear a =
     (if \<not> c_bConnected (a_Base a) then (False, a)
      else let (ok, Msg, a) = AsyncPost (msg_string MOOS_SERVER_REQUEST (c_str sWhat) [] (-1) now) False a
           in if \<not> ok \<or> m_nID Msg \<noteq> MOOS_SERVER_REQUEST_ID then (False, a)
              else let (got, _, c) = wait_reply (polls dfTimeOut) arrivals bClear [] (a_Base a)
                   in (got, a\<lparr>a_Base := c\<rparr>))"

definition umm_Iterate :: "real \<Rightarrow> char option \<Rightarrow> (client \<Rightarrow> client) list \<Rightarrow> real \<Rightarrow> umm app \<Rightarrow> bool \<times> umm app" where
  "umm_Iterate local key arrivals now A =
     (let A = on_umm (\<lambda>u. u\<lparr>u_dfT := (case u_dfT u of None \<Rightarrow> Some local | Some t \<Rightarrow> Some t)\<rparr>) A;
          A = (if local - the (u_dfT (p_user A)) > 1
               then on_umm (\<lambda>u. u\<lparr>u_bPingRxd := (if u_bPing u then False else u_bPingRxd u), u_dfT := Some local\<rparr>) A
               else A);
          A = (if key = Some CHR ''C''
               then A\<lparr>p_Comms := snd (AsyncServerRequest arrivals ''DB_CLEAR'' now 2 True (p_Comms A))\<rparr> else A)
      in (True, A))"

section \<open>The scheduler\<close>

text \<open>A turn of the loop reads the clock to see whether a job is due, and again when it has run
  one: for the time of the message, for its construction, and twice in \<open>Reschedule\<close>.\<close>

record tick =
  tk_check :: real
  tk_post :: real
  tk_now :: real
  tk_t1 :: real
  tk_t2 :: real

definition run_job :: "tick \<Rightarrow> umm_job \<Rightarrow> umm app \<Rightarrow> umm app" where
  "run_job tk j A =
     (if IsBinaryJob j
      then snd (AppNotifyBinary (j_sName j) (replicate (j_DataSize j) CHR 0x00) (tk_post tk) (tk_now tk) A)
      else snd (AppNotifyDouble (j_sName j) (real (j_nCount j)) [] (tk_post tk) (tk_now tk) A))"

text \<open>Over the turns it meets: whether the process has ended, how many messages were sent, and the
  application.\<close>

fun ScheduleLoop :: "tick list \<Rightarrow> int \<Rightarrow> umm app \<Rightarrow> bool \<times> int \<times> umm app" where
  "ScheduleLoop [] nSent A = (False, nSent, A)"
| "ScheduleLoop (tk # tks) nSent A =
     (case u_Jobs (p_user A) of
        [] \<Rightarrow> ScheduleLoop tks nSent A
      | Active # Jobs \<Rightarrow>
          if \<not> isActive (tk_check tk) Active then ScheduleLoop tks nSent A
          else (let A = run_job tk Active (on_umm (\<lambda>u. u\<lparr>u_Jobs := Jobs\<rparr>) A);
                    counting = u_TxCount (p_user A) \<ge> 0;
                    nSent = (if counting then nSent + 1 else nSent)
                in if counting \<and> nSent = u_TxCount (p_user A) then (True, nSent, A)
                   else ScheduleLoop tks nSent
                          (on_umm (\<lambda>u. u\<lparr>u_Jobs := push_job (Reschedule (tk_t1 tk) (tk_t2 tk) Active) Jobs\<rparr>) A)))"

declare ScheduleLoop.simps(2) [simp del]

end
