(* ===== verification/Moos_UmmProps.thy ===== *)
theory Moos_UmmProps
  imports Moos_Umm "HOL-Library.Multiset"
begin

text \<open>
  What \<open>umm\<close> does: its jobs are run as often as their periods ask for (\<open>sent_on_schedule\<close>), mail for a
  bounced variable goes out again under its new name in the turn that receives it
  (\<open>mail_bounced\<close>), and subscriptions are what the entries of the command line say.
\<close>

section \<open>The schedule\<close>

text \<open>When a job was first due.\<close>

definition job_origin :: "umm_job \<Rightarrow> real" where
  "job_origin j = j_dfTimeScheduled j - real (j_nCount j) * j_dfPeriod j"

definition job_ident :: "umm_job \<Rightarrow> string \<times> real \<times> nat \<times> real" where
  "job_ident j = (j_sName j, j_dfPeriod j, j_DataSize j, job_origin j)"

text \<open>A job in the middle of a run that lasts until \<open>T\<close>.\<close>

definition job_ok :: "real \<Rightarrow> umm_job \<Rightarrow> bool" where
  "job_ok T j \<longleftrightarrow> j_dfPeriod j > 0 \<and> T \<le> job_origin j + 99 * j_dfPeriod j
     \<and> (j_nCount j = 0 \<or> j_dfTimeScheduled j - j_dfPeriod j < T)"

lemma reschedule_ok:
  assumes "job_ok T j" and "isActive t j" and "t \<le> T"
  shows "job_ident (Reschedule r r j) = job_ident j \<and> job_ok T (Reschedule r r j)"
proof -
  have p: "j_dfPeriod j > 0" using assms(1) by (simp add: job_ok_def)
  have "j_dfTimeScheduled j < T" "T \<le> job_origin j + 99 * j_dfPeriod j"
    using assms by (auto simp: job_ok_def isActive_def)
  then have "real (j_nCount j) * j_dfPeriod j < 99 * j_dfPeriod j" unfolding job_origin_def by linarith
  then have "j_nCount j < 99" using p by (simp add: mult_less_cancel_right_pos)
  then have "(j_nCount j + 1) mod 100 \<noteq> 0" by simp
  then have r: "Reschedule r r j = j\<lparr>j_nCount := j_nCount j + 1, j_dfTimeScheduled := j_dfTimeScheduled j + j_dfPeriod j\<rparr>"
    by (simp add: Reschedule_def)
  have o: "job_origin (Reschedule r r j) = job_origin j" by (simp add: job_origin_def r algebra_simps)
  then show ?thesis using assms by (simp add: job_ident_def job_ok_def isActive_def r)
qed

lemma push_job_mset: "mset (push_job j js) = add_mset j (mset js)"
  by (induction js) auto

lemma run_job_user [simp]: "p_user (run_job tk j A) = p_user A"
  by (simp add: run_job_def AppNotifyBinary_def AppNotifyDouble_def)

definition job_done :: "tick \<Rightarrow> umm_job \<Rightarrow> umm_job list \<Rightarrow> umm app \<Rightarrow> umm app" where
  "job_done tk j js A =
     on_umm (\<lambda>u. u\<lparr>u_Jobs := push_job (Reschedule (tk_t1 tk) (tk_t2 tk) j) js\<rparr>)
       (run_job tk j (on_umm (\<lambda>u. u\<lparr>u_Jobs := js\<rparr>) A))"

lemma job_done_jobs: "u_Jobs (p_user (job_done tk j js A)) = push_job (Reschedule (tk_t1 tk) (tk_t2 tk) j) js"
  by (simp add: job_done_def on_umm_def)

lemma schedule_turn:
  "ScheduleLoop (tk # tks) n A =
    (case u_Jobs (p_user A) of
       [] \<Rightarrow> ScheduleLoop tks n A
     | j # js \<Rightarrow>
         if \<not> isActive (tk_check tk) j then ScheduleLoop tks n A
         else (let counting = u_TxCount (p_user A) \<ge> 0; n = (if counting then n + 1 else n)
               in if counting \<and> n = u_TxCount (p_user A) then (True, n, run_job tk j (on_umm (\<lambda>u. u\<lparr>u_Jobs := js\<rparr>) A))
                  else ScheduleLoop tks n (job_done tk j js A)))"
  unfolding ScheduleLoop.simps(2) job_done_def by (simp add: Let_def on_umm_def split: list.split)

lemma job_count:
  assumes "job_ok T j" and "\<not> isActive T j"
  shows "j_nCount j = nat \<lceil>(T - job_origin j) / j_dfPeriod j\<rceil>"
proof -
  have p: "j_dfPeriod j > 0" and s: "j_dfTimeScheduled j = job_origin j + real (j_nCount j) * j_dfPeriod j"
    using assms(1) by (auto simp: job_ok_def job_origin_def)
  have up: "(T - job_origin j) / j_dfPeriod j \<le> real (j_nCount j)"
    using assms(2) p s by (simp add: isActive_def pos_divide_le_eq)
  show ?thesis
  proof (cases "j_nCount j")
    case 0
    then have "\<lceil>(T - job_origin j) / j_dfPeriod j\<rceil> \<le> 0" using up by (simp add: ceiling_le_iff)
    then show ?thesis using 0 by simp
  next
    case (Suc n)
    then have "j_dfTimeScheduled j - j_dfPeriod j < T" using assms(1) by (simp add: job_ok_def)
    then have "real n * j_dfPeriod j < T - job_origin j" using s Suc by (simp add: algebra_simps)
    then have "real n < (T - job_origin j) / j_dfPeriod j" using p by (simp add: pos_less_divide_eq)
    then have "\<lceil>(T - job_origin j) / j_dfPeriod j\<rceil> = int (Suc n)"
      using up Suc by (intro ceiling_unique) auto
    then show ?thesis using Suc by simp
  qed
qed

section \<open>What the schedule posts\<close>

text \<open>A message without what posting fills in.\<close>

definition plain :: "moos_msg \<Rightarrow> moos_msg" where
  "plain m = m\<lparr>m_sSrc := [], m_nID := 0\<rparr>"

text \<open>A client that can post so many messages without losing any.\<close>

definition can_post :: "nat \<Rightarrow> aclient \<Rightarrow> bool" where
  "can_post n a \<longleftrightarrow> c_bConnected (a_Base a) \<and> idle_box a \<and> length (a_OutGoingQueue a) + n \<le> 2049"

lemma plain_stamp: "plain (stamp c b M) = plain M"
  by (auto simp: plain_def stamp_def)

lemma post_grows:
  assumes "can_post (Suc n) a"
  shows "\<exists>m a'. AsyncPost M False a = (True, m, a') \<and> plain m = plain M \<and> m_sKey m = m_sKey M
    \<and> a_OutGoingQueue a' = a_OutGoingQueue a @ [m] \<and> can_post n a'"
proof -
  have "ditch_half (a_OutGoingQueue a) = a_OutGoingQueue a"
    using assms by (simp add: can_post_def ditch_half_def OUTBOX_PENDING_LIMIT_def)
  then show ?thesis
    using assms AsyncPost_connected [of a M False] plain_stamp [of "a_Base a" False M]
    by (auto simp: can_post_def idle_box_def stamp_def)
qed

lemma notify_grows:
  assumes "can_post (Suc n) (p_Comms A)"
  shows "\<exists>m. a_OutGoingQueue (p_Comms (snd (on_comms (\<lambda>c. post_msg M (publish v c)) A))) = a_OutGoingQueue (p_Comms A) @ [m]
    \<and> plain m = plain M \<and> can_post n (p_Comms (snd (on_comms (\<lambda>c. post_msg M (publish v c)) A)))"
proof -
  let ?a = "(p_Comms A)\<lparr>a_Base := publish v (a_Base (p_Comms A))\<rparr>"
  have ok: "can_post (Suc n) ?a" using assms by (simp add: can_post_def idle_box_def publish_def)
  obtain m a' where "AsyncPost M False ?a = (True, m, a')" "plain m = plain M"
      "a_OutGoingQueue a' = a_OutGoingQueue ?a @ [m]" "can_post n a'"
    using post_grows [OF ok] by blast
  moreover have "via_AsyncPost (\<lambda>c. post_msg M (publish v c)) (p_Comms A) = via_AsyncPost (post_msg M) ?a"
    by (cases "p_Comms A") (simp add: via_AsyncPost_def split: prod.split)
  moreover have "idle_box ?a" using ok by (simp add: can_post_def)
  ultimately show ?thesis by (simp add: on_comms_def via_AsyncPost_Post)
qed

text \<open>The \<open>k\<close>-th message of a job: a notification of its variable that carries the number \<open>k\<close>, or so many
  zero bytes.\<close>

definition job_message :: "umm_job \<Rightarrow> moos_msg \<Rightarrow> nat \<Rightarrow> bool" where
  "job_message j m k \<longleftrightarrow> m_cMsgType m = MOOS_NOTIFY \<and> m_sKey m = j_sName j
     \<and> (if j_DataSize j = 0 then m_cDataType m = MOOS_DOUBLE \<and> m_dfVal m = real k
        else m_cDataType m = MOOS_BINARY_STRING \<and> m_sVal m = replicate (j_DataSize j) CHR 0x00)"

lemma plain_fields:
  "plain m = plain M \<Longrightarrow> m_cMsgType m = m_cMsgType M \<and> m_cDataType m = m_cDataType M \<and> m_sKey m = m_sKey M
    \<and> m_dfVal m = m_dfVal M \<and> m_sVal m = m_sVal M"
  by (cases m; cases M) (simp add: plain_def)

lemma run_job_posts:
  assumes "can_post (Suc n) (p_Comms A)" and "CHR 0x00 \<notin> set (j_sName j)"
  shows "\<exists>m. a_OutGoingQueue (p_Comms (run_job tk j A)) = a_OutGoingQueue (p_Comms A) @ [m]
    \<and> job_message j m (j_nCount j) \<and> can_post n (p_Comms (run_job tk j A))"
proof -
  define M where "M = (if j_DataSize j \<noteq> 0
    then MarkAsBinary (msg_string MOOS_NOTIFY (j_sName j) (replicate (j_DataSize j) CHR 0x00) (tk_post tk) (tk_now tk))
    else (msg_double MOOS_NOTIFY (c_str (j_sName j)) (real (j_nCount j)) (tk_post tk) (tk_now tk))\<lparr>m_sSrcAux := []\<rparr>)"
  have "run_job tk j A = snd (on_comms (\<lambda>c. post_msg M (publish (j_sName j) c)) A)"
    by (simp add: run_job_def IsBinaryJob_def M_def AppNotifyBinary_def AppNotifyDouble_def NotifyBinary_def [abs_def]
        NotifyDouble_def [abs_def])
  moreover have "plain m = plain M \<Longrightarrow> job_message j m (j_nCount j)" for m
    using assms(2) by (auto simp: job_message_def M_def MarkAsBinary_def msg_string_def msg_double_def c_str_id dest!: plain_fields)
  ultimately show ?thesis using notify_grows [OF assms(1), of M "j_sName j"] by auto
qed

text \<open>How often a job has to be run by the time \<open>T\<close>, and what is left of all of them.\<close>

definition due :: "real \<Rightarrow> umm_job \<Rightarrow> nat" where
  "due T j = nat \<lceil>(T - job_origin j) / j_dfPeriod j\<rceil>"

definition left :: "real \<Rightarrow> umm_job list \<Rightarrow> nat" where
  "left T js = (\<Sum>j\<leftarrow>js. due T j - j_nCount j)"

lemma active_due:
  assumes "job_ok T j" and "isActive t j" and "t \<le> T"
  shows "j_nCount j < due T j"
proof -
  have p: "j_dfPeriod j > 0" and s: "j_dfTimeScheduled j = job_origin j + real (j_nCount j) * j_dfPeriod j"
    using assms(1) by (auto simp: job_ok_def job_origin_def)
  have "real (j_nCount j) < (T - job_origin j) / j_dfPeriod j"
    using assms(2,3) p s by (simp add: isActive_def pos_less_divide_eq)
  then show ?thesis unfolding due_def by linarith
qed

lemma left_mset: "mset js = mset js' \<Longrightarrow> left T js = left T js'"
  by (simp add: left_def flip: sum_mset_sum_list)

lemma due_ident: "job_ident i = job_ident j \<Longrightarrow> due T i = due T j"
  by (simp add: job_ident_def due_def)

lemma job_message_ident: "job_ident i = job_ident j \<Longrightarrow> job_message i = job_message j"
  by (simp add: job_ident_def job_message_def fun_eq_iff)

definition sends :: "real \<Rightarrow> moos_msg list \<Rightarrow> umm_job \<Rightarrow> bool" where
  "sends T sent j \<longleftrightarrow> list_all2 (job_message j) (filter (\<lambda>m. m_sKey m = j_sName j) sent) [j_nCount j..<due T j]"

lemma schedule_posts:
  assumes "ScheduleLoop tks n A = (False, n', A')"
    and "\<forall>j \<in> set (u_Jobs (p_user A)). job_ok T j \<and> CHR 0x00 \<notin> set (j_sName j)"
    and "distinct (map j_sName (u_Jobs (p_user A)))"
    and "\<forall>tk \<in> set tks. tk_check tk \<le> T \<and> tk_t1 tk = tk_t2 tk"
    and "\<forall>j \<in> set (u_Jobs (p_user A')). \<not> isActive T j"
    and "can_post (left T (u_Jobs (p_user A))) (p_Comms A)"
  shows "\<exists>sent. a_OutGoingQueue (p_Comms A') = a_OutGoingQueue (p_Comms A) @ sent
    \<and> m_sKey ` set sent \<subseteq> j_sName ` set (u_Jobs (p_user A)) \<and> (\<forall>j \<in> set (u_Jobs (p_user A)). sends T sent j)"
  using assms
proof (induction tks arbitrary: n A)
  case Nil
  have "sends T [] j" if "j \<in> set (u_Jobs (p_user A))" for j
    using that Nil job_count [of T j] by (simp add: sends_def due_def)
  then show ?case using Nil.prems(1) by auto
next
  case (Cons tk tks)
  have idle: ?case if "ScheduleLoop tks n A = (False, n', A')"
    using Cons.IH [OF that Cons.prems(2,3) _ Cons.prems(5,6)] Cons.prems(4) by simp
  show ?case
  proof (cases "u_Jobs (p_user A)")
    case Nil
    then show ?thesis using Cons.prems(1) idle by (simp add: schedule_turn)
  next
    case j: (Cons j js)
    show ?thesis
    proof (cases "isActive (tk_check tk) j")
      case False
      then show ?thesis using Cons.prems(1) j idle by (simp add: schedule_turn)
    next
      case True
      let ?r = "Reschedule (tk_t1 tk) (tk_t2 tk) j" and ?A = "job_done tk j js A"
      have ok: "job_ok T j" "CHR 0x00 \<notin> set (j_sName j)" "tk_check tk \<le> T" "tk_t1 tk = tk_t2 tk"
        using Cons.prems(2,4) j by auto
      have r: "job_ident ?r = job_ident j" "job_ok T ?r" "j_nCount ?r = Suc (j_nCount j)" "j_sName ?r = j_sName j"
        using reschedule_ok [of T j "tk_check tk" "tk_t2 tk"] True ok by (auto simp: Reschedule_def Let_def)
      have d: "j_nCount j < due T j" by (rule active_due [OF ok(1) True ok(3)])
      define m where "m = (if u_TxCount (p_user A) \<ge> 0 then n + 1 else n)"
      have "(if u_TxCount (p_user A) \<ge> 0 \<and> m = u_TxCount (p_user A)
             then (True, m, run_job tk j (on_umm (\<lambda>u. u\<lparr>u_Jobs := js\<rparr>) A)) else ScheduleLoop tks m ?A) = (False, n', A')"
        using Cons.prems(1) True j by (simp only: schedule_turn list.case Let_def m_def not_True_eq_False if_False)
      then have run: "ScheduleLoop tks m ?A = (False, n', A')"
        by (cases "u_TxCount (p_user A) \<ge> 0 \<and> m = u_TxCount (p_user A)") (simp_all only: if_True if_False prod.inject simp_thms)
      have jobs: "mset (u_Jobs (p_user ?A)) = mset (?r # js)" by (simp add: job_done_jobs push_job_mset)
      then have set: "set (u_Jobs (p_user ?A)) = insert ?r (set js)" by (metis list.simps(15) set_mset_mset)
      have "left T (u_Jobs (p_user A)) = Suc (left T (u_Jobs (p_user ?A)))"
        using d j r(3) left_mset [OF jobs, of T] due_ident [OF r(1), of T] by (simp add: left_def)
      then have "can_post (Suc (left T (u_Jobs (p_user ?A)))) (p_Comms (on_umm (\<lambda>u. u\<lparr>u_Jobs := js\<rparr>) A))"
        using Cons.prems(6) by (simp add: on_umm_def)
      from run_job_posts [OF this ok(2), of tk] obtain x where
        x: "a_OutGoingQueue (p_Comms ?A) = a_OutGoingQueue (p_Comms A) @ [x]" "job_message j x (j_nCount j)"
          "can_post (left T (u_Jobs (p_user ?A))) (p_Comms ?A)"
        by (auto simp: job_done_def on_umm_def)
      have "mset (map j_sName (u_Jobs (p_user ?A))) = mset (map j_sName (u_Jobs (p_user A)))"
        using jobs j r(4) by simp
      then have dist: "distinct (map j_sName (u_Jobs (p_user ?A)))"
        using Cons.prems(3) mset_eq_imp_distinct_iff by blast
      obtain sent where sent: "a_OutGoingQueue (p_Comms A') = a_OutGoingQueue (p_Comms ?A) @ sent"
          "m_sKey ` set sent \<subseteq> j_sName ` insert ?r (set js)" "\<forall>i \<in> insert ?r (set js). sends T sent i"
        using Cons.IH [OF run _ dist _ Cons.prems(5) x(3)] Cons.prems(2,4) r(2,4) ok(2) j by (auto simp: set)
      have key: "m_sKey x = j_sName j" using x(2) by (simp add: job_message_def)
      have "sends T (x # sent) j"
        using sent(3) x(2) key d r(1,3,4) job_message_ident [OF r(1)] due_ident [OF r(1), of T]
        by (simp add: sends_def upt_conv_Cons)
      moreover have "sends T (x # sent) i" if "i \<in> set js" for i
        using that sent(3) key Cons.prems(3) j by (force simp: sends_def)
      ultimately show ?thesis
        using x(1) sent(1,2) key j r(4) by (intro exI [of _ "x # sent"]) auto
    qed
  qed
qed

text \<open>C31: When the scheduler has nothing more to do at the time \<open>T\<close>, it has posted messages of its
  variables only, and of every variable exactly as many as its period asks for by then, numbered in
  order from 0 (or each of so many zero bytes), however late it looked at the clock in between:
  lateness is made up for. It reads the clock twice to reschedule a job; this is for readings that
  are the same, for the first hundred messages of a variable, since every hundredth starts the
  schedule anew, for variables with different names, and for a connected client whose queue has room
  for the messages.\<close>

theorem sent_on_schedule:
  assumes "ScheduleLoop tks n A = (False, n', A')"
    and "\<forall>j \<in> set (u_Jobs (p_user A)). j_nCount j = 0 \<and> j_dfPeriod j > 0 \<and> T \<le> j_dfTimeScheduled j + 99 * j_dfPeriod j"
    and "\<forall>j \<in> set (u_Jobs (p_user A)). CHR 0x00 \<notin> set (j_sName j)" and "distinct (map j_sName (u_Jobs (p_user A)))"
    and "\<forall>tk \<in> set tks. tk_check tk \<le> T \<and> tk_t1 tk = tk_t2 tk"
    and "\<forall>j \<in> set (u_Jobs (p_user A')). \<not> isActive T j"
    and "can_post (\<Sum>j\<leftarrow>u_Jobs (p_user A). nat \<lceil>(T - j_dfTimeScheduled j) / j_dfPeriod j\<rceil>) (p_Comms A)"
  shows "\<exists>sent. a_OutGoingQueue (p_Comms A') = a_OutGoingQueue (p_Comms A) @ sent
    \<and> m_sKey ` set sent \<subseteq> j_sName ` set (u_Jobs (p_user A))
    \<and> (\<forall>j \<in> set (u_Jobs (p_user A)). list_all2 (job_message j) (filter (\<lambda>m. m_sKey m = j_sName j) sent)
         [0..<nat \<lceil>(T - j_dfTimeScheduled j) / j_dfPeriod j\<rceil>])"
proof -
  have ok: "\<forall>j \<in> set (u_Jobs (p_user A)). job_ok T j \<and> CHR 0x00 \<notin> set (j_sName j)"
    using assms(2,3) by (auto simp: job_ok_def job_origin_def)
  have d: "due T j = nat \<lceil>(T - j_dfTimeScheduled j) / j_dfPeriod j\<rceil> \<and> j_nCount j = 0"
    if "j \<in> set (u_Jobs (p_user A))" for j
    using that assms(2) by (auto simp: due_def job_origin_def)
  then have "left T (u_Jobs (p_user A)) = (\<Sum>j\<leftarrow>u_Jobs (p_user A). nat \<lceil>(T - j_dfTimeScheduled j) / j_dfPeriod j\<rceil>)"
    unfolding left_def by (intro arg_cong [of _ _ sum_list] map_cong) auto
  then have "can_post (left T (u_Jobs (p_user A))) (p_Comms A)" using assms(7) by simp
  from schedule_posts [OF assms(1) ok assms(4-6) this] show ?thesis using d by (auto simp: sends_def)
qed

section \<open>Mail sent back\<close>

text \<open>What is to be posted for the mail.\<close>

definition bounced :: "(string, string) omap \<Rightarrow> moos_msg list \<Rightarrow> moos_msg list" where
  "bounced M mail =
     List.map_filter (\<lambda>q. map_option (\<lambda>w. plain (q\<lparr>m_sKey := w\<rparr>)) (map_of M (m_sKey q))) mail"

lemma umm_mail_posts:
  assumes "can_post (Suc n) (p_Comms A)"
  shows "\<exists>sent. a_OutGoingQueue (p_Comms (umm_mail now q A)) = a_OutGoingQueue (p_Comms A) @ sent
    \<and> map plain sent = bounced (u_Map (p_user A)) [q] \<and> can_post n (p_Comms (umm_mail now q A))
    \<and> u_Map (p_user (umm_mail now q A)) = u_Map (p_user A)"
proof (cases "map_of (u_Map (p_user A)) (m_sKey q)")
  case None
  then show ?thesis using assms
    by (auto simp: umm_mail_def on_umm_def Let_def bounced_def map_filter_simps can_post_def)
next
  case (Some w)
  obtain m a' where p: "AsyncPost (q\<lparr>m_sKey := w\<rparr>) False (p_Comms A) = (True, m, a')"
    and m: "plain m = plain (q\<lparr>m_sKey := w\<rparr>)" "a_OutGoingQueue a' = a_OutGoingQueue (p_Comms A) @ [m]" "can_post n a'"
    using post_grows [OF assms] by blast
  show ?thesis
    using Some m
    by (auto simp: umm_mail_def on_umm_def Let_def p bounced_def map_filter_simps intro!: exI [of _ "[m]"])
qed

lemma umm_mails_post:
  assumes "can_post (length mail + n) (p_Comms A)"
  shows "\<exists>sent. a_OutGoingQueue (p_Comms (umm_mails clock k mail A)) = a_OutGoingQueue (p_Comms A) @ sent
    \<and> map plain sent = bounced (u_Map (p_user A)) mail \<and> can_post n (p_Comms (umm_mails clock k mail A))"
  using assms
proof (induction mail arbitrary: k A)
  case Nil
  then show ?case by (simp add: bounced_def map_filter_simps)
next
  case (Cons q mail)
  let ?A = "umm_mail (clock k) q A"
  obtain sent where q: "a_OutGoingQueue (p_Comms ?A) = a_OutGoingQueue (p_Comms A) @ sent"
      "map plain sent = bounced (u_Map (p_user A)) [q]" "can_post (length mail + n) (p_Comms ?A)"
      "u_Map (p_user ?A) = u_Map (p_user A)"
    using umm_mail_posts [of "length mail + n" A "clock k" q] Cons.prems by auto
  obtain more_sent where "a_OutGoingQueue (p_Comms (umm_mails clock (k + 1) mail ?A)) = a_OutGoingQueue (p_Comms ?A) @ more_sent"
      "map plain more_sent = bounced (u_Map (p_user ?A)) mail" "can_post n (p_Comms (umm_mails clock (k + 1) mail ?A))"
    using Cons.IH [OF q(3)] by blast
  then show ?case
    using q by (auto simp: bounced_def map_filter_def intro!: exI [of _ "sent @ more_sent"] split: option.splits)
qed

text \<open>The virtual functions of \<open>umm\<close> in one turn.\<close>

definition umm_hooks ::
  "(nat \<Rightarrow> real) \<Rightarrow> real \<Rightarrow> char option \<Rightarrow> (client \<Rightarrow> client) list \<Rightarrow> real \<Rightarrow> umm hooks" where
  "umm_hooks clock local key arrivals now =
     default_hooks\<lparr>k_OnNewMail := umm_OnNewMail clock, k_Iterate := umm_Iterate local key arrivals now\<rparr>"

lemma umm_commands: "handle_commands (umm_hooks clock local key arrivals now) mail A = (True, A)"
  by (induction mail) (simp_all add: umm_hooks_def default_hooks_def Let_def)

lemma umm_hook_mail: "k_OnNewMail (umm_hooks clock local key arrivals now) = umm_OnNewMail clock"
  by (simp add: umm_hooks_def)

lemma umm_process_mail:
  assumes a_def: "a = p_Comms A" and "can_post (length (fresh_mail a) + n) a"
  shows "\<exists>sent. a_OutGoingQueue (p_Comms (ProcessMail (umm_hooks clock local key arrivals now) A)) = a_OutGoingQueue a @ sent
    \<and> map plain sent = bounced (u_Map (p_user A)) (sorted_mail A (fresh_mail a))
    \<and> can_post n (p_Comms (ProcessMail (umm_hooks clock local key arrivals now) A))"
proof -
  obtain got mail c where f: "Fetch [] (a_Base a) = (got, mail, c)" by (metis prod_cases3)
  let ?A = "A\<lparr>p_Comms := a\<lparr>a_Base := c\<rparr>\<rparr>" and ?hk = "umm_hooks clock local key arrivals now"
  have mail: "mail = fresh_mail a" "got \<longleftrightarrow> fresh_mail a \<noteq> []"
    using f by (auto simp: Fetch_def fresh_mail_def Let_def split: if_splits)
  have c: "can_post m (a\<lparr>a_Base := c\<rparr>) = can_post m a" "a_OutGoingQueue (a\<lparr>a_Base := c\<rparr>) = a_OutGoingQueue a" for m
    using f by (auto simp: Fetch_def can_post_def idle_box_def Let_def split: if_splits)
  show ?thesis
  proof (cases "fresh_mail a = []")
    case True
    then have "ProcessMail ?hk A = ?A" using f mail unfolding a_def by (simp add: ProcessMail_def)
    then show ?thesis using True assms c by (auto simp: bounced_def map_filter_simps sorted_mail_def)
  next
    case False
    have "\<exists>k. ProcessMail ?hk A = (umm_mails clock 0 (sorted_mail A (fresh_mail a)) ?A)\<lparr>p_nMailCount := k\<rparr>"
      using f mail False unfolding a_def
      by (auto simp: ProcessMail_def OnNewMailPrivate_def LookForAndHandleAppCommand_def umm_commands sorted_mail_def
          Let_def umm_hook_mail umm_OnNewMail_def)
    moreover have "length (sorted_mail A (fresh_mail a)) = length (fresh_mail a)" by (simp add: sorted_mail_def)
    ultimately show ?thesis
      using umm_mails_post [of "sorted_mail A (fresh_mail a)" n ?A clock 0] assms(2) c by auto
  qed
qed

lemma status_grows:
  assumes "can_post (Suc n) (p_Comms A)"
  shows "\<exists>rest. a_OutGoingQueue (p_Comms (IteratePrivate t A)) = a_OutGoingQueue (p_Comms A) @ rest
    \<and> can_post n (p_Comms (IteratePrivate t A))"
proof -
  let ?post = "\<lambda>sVar sVal now. AppNotifyString sVar sVal [] (-1) now A"
  have "\<exists>rest. a_OutGoingQueue (p_Comms (snd (?post sVar sVal now))) = a_OutGoingQueue (p_Comms A) @ rest
    \<and> can_post n (p_Comms (snd (?post sVar sVal now)))" for sVar sVal now
  proof -
    let ?a = "(p_Comms A)\<lparr>a_Base := publish sVar (a_Base (p_Comms A))\<rparr>"
    define M where "M = (msg_string MOOS_NOTIFY (c_str sVar) (c_str sVal) (-1) now)\<lparr>m_sSrcAux := []\<rparr>"
    have ok: "can_post (Suc n) ?a" using assms by (simp add: can_post_def idle_box_def publish_def)
    obtain m a' where "AsyncPost M False ?a = (True, m, a')" "a_OutGoingQueue a' = a_OutGoingQueue ?a @ [m]" "can_post n a'"
      using post_grows [OF ok] by blast
    moreover have "via_AsyncPost (NotifyString sVar sVal [] (-1) now) (p_Comms A) = via_AsyncPost (post_msg M) ?a"
      by (cases "p_Comms A") (simp add: via_AsyncPost_def NotifyString_def M_def split: prod.split)
    moreover have "idle_box ?a" using ok by (simp add: can_post_def)
    ultimately show ?thesis
      by (simp add: AppNotifyString_def on_comms_def via_AsyncPost_Post)
  qed
  then show ?thesis using assms
    by (auto simp: IteratePrivate_def can_post_def split: prod.split)
qed

lemma wait_reply_frame:
  "\<forall>f \<in> set arrivals. \<forall>c. c_bConnected (f c) = c_bConnected c \<Longrightarrow> wait_reply n arrivals b l c = (got, l', c')
    \<Longrightarrow> c_bConnected c' = c_bConnected c"
  by (induction n arrivals b l c rule: wait_reply.induct)
    (auto simp: Peek_def split: prod.splits if_splits list.splits)

lemma request_grows:
  assumes "can_post (Suc n) a"
  shows "\<exists>rest. a_OutGoingQueue (snd (AsyncServerRequest arrivals sWhat now dfTimeOut bClear a)) = a_OutGoingQueue a @ rest"
proof -
  obtain m a' where "AsyncPost (msg_string MOOS_SERVER_REQUEST (c_str sWhat) [] (-1) now) False a = (True, m, a')"
      "a_OutGoingQueue a' = a_OutGoingQueue a @ [m]"
    using post_grows [OF assms] by blast
  then show ?thesis using assms
    by (auto simp: AsyncServerRequest_def can_post_def split: prod.split)
qed

text \<open>C32: In the turn that hands mail to \<open>umm\<close>, every message of a variable to be bounced is posted again
  under its new name, with the same contents and in the order of the mail, behind what waits to
  be sent and before anything else the turn posts.\<close>

theorem mail_bounced:
  assumes "a = t_during t (p_Comms A)"
    and "p_bUseMOOSComms A" and "can_post (length (fresh_mail a) + 2) a"
  shows "\<exists>sent rest. a_OutGoingQueue (p_Comms (snd (DoRunWork (umm_hooks clock local key arrivals now) t A)))
      = a_OutGoingQueue a @ sent @ rest
    \<and> map plain sent = bounced (u_Map (p_user A)) (sorted_mail A (fresh_mail a))"
proof -
  let ?hk = "umm_hooks clock local key arrivals now" and ?A = "A\<lparr>p_Comms := a, p_dfLastRunTime := t_start t\<rparr>"
  obtain sent where m: "a_OutGoingQueue (p_Comms (ProcessMail ?hk ?A)) = a_OutGoingQueue a @ sent"
      "map plain sent = bounced (u_Map (p_user A)) (sorted_mail A (fresh_mail a))" "can_post 2 (p_Comms (ProcessMail ?hk ?A))"
    using umm_process_mail [of a ?A 2 clock "local" key arrivals now] assms(3) by (auto simp: sorted_mail_def)
  let ?B = "IteratePrivate t (ProcessMail ?hk ?A)"
  obtain rest where s: "a_OutGoingQueue (p_Comms ?B) = a_OutGoingQueue (p_Comms (ProcessMail ?hk ?A)) @ rest" "can_post 1 (p_Comms ?B)"
    using status_grows [of 1 "ProcessMail ?hk ?A" t] m(3) by (auto simp: numeral_2_eq_2)
  have comms: "p_Comms (on_umm f C) = p_Comms C" for f C by (simp add: on_umm_def)
  have "\<exists>rest. a_OutGoingQueue (p_Comms (snd (iterate_hooks ?hk ?B))) = a_OutGoingQueue (p_Comms ?B) @ rest"
    using request_grows [of 0 "p_Comms ?B" arrivals "''DB_CLEAR''" now 2 True] s(2)
    by (auto simp: iterate_hooks_def umm_hooks_def default_hooks_def umm_Iterate_def failed_def Let_def comms)
  moreover have "c_bConnected (a_Base (p_Comms (ProcessMail ?hk ?A)))" using m(3) by (simp add: can_post_def)
  moreover have count: "p_Comms (snd (count_iterate x)) = p_Comms (snd x)" for x :: "bool \<times> umm app"
    by (simp add: count_iterate_def)
  ultimately have "\<exists>rest. a_OutGoingQueue (p_Comms (snd (DoRunWork ?hk t A))) = a_OutGoingQueue (p_Comms ?B) @ rest"
    using assms(1,2) by (auto simp: DoRunWork_def Let_def)
  then show ?thesis using m s by auto
qed

section \<open>Subscriptions\<close>

text \<open>The registrations that the entries of the command line ask for.\<close>

definition variable_msg :: "real \<Rightarrow> string \<Rightarrow> moos_msg option" where
  "variable_msg now q =
     (case MOOSChomp q ''@'' False of (sVar, sEntry) \<Rightarrow>
        if sVar = [] then None
        else Some (plain (msg_double MOOS_REGISTER (c_str sVar) (period_of sEntry) (-1) now)))"

definition pattern_msg :: "real \<Rightarrow> string \<Rightarrow> string \<Rightarrow> moos_msg option" where
  "pattern_msg now me w =
     (case read_pattern w of None \<Rightarrow> None
      | Some (v, a, p) \<Rightarrow>
          if a = [] then None
          else Some (plain (msg_string MOOS_WILDCARD_REGISTER me (wildcard_params v a p) (-1) now)))"

lemma post_via:
  assumes "can_post (Suc n) (p_Comms A)"
  shows "\<exists>m a'. via_AsyncPost (post_msg M) (p_Comms A) = (True, a') \<and> plain m = plain M
    \<and> a_OutGoingQueue a' = a_OutGoingQueue (p_Comms A) @ [m] \<and> can_post n a'
    \<and> c_sMyName (a_Base a') = c_sMyName (a_Base (p_Comms A))"
proof -
  have "idle_box (p_Comms A)" using assms by (simp add: can_post_def)
  then show ?thesis
    using post_grows [OF assms, of M] AsyncPost_connected [of "p_Comms A" M False] assms
    by (auto simp: via_AsyncPost_Post can_post_def)
qed

text \<open>One step of a loop that posts at most one message for an entry.\<close>

definition step_posts :: "('e \<Rightarrow> umm app \<Rightarrow> umm app) \<Rightarrow> (string \<Rightarrow> 'e \<Rightarrow> moos_msg option) \<Rightarrow> bool" where
  "step_posts f want \<longleftrightarrow>
     (\<forall>n e A. can_post (Suc n) (p_Comms A) \<longrightarrow>
        (\<exists>sent. a_OutGoingQueue (p_Comms (f e A)) = a_OutGoingQueue (p_Comms A) @ sent
          \<and> map plain sent = List.map_filter (want (c_sMyName (a_Base (p_Comms A)))) [e]
          \<and> can_post n (p_Comms (f e A)) \<and> c_sMyName (a_Base (p_Comms (f e A))) = c_sMyName (a_Base (p_Comms A))))"

lemma loop_posts:
  assumes "step_posts f want" and "can_post (length es + n) (p_Comms A)"
  shows "\<exists>sent. a_OutGoingQueue (p_Comms (fold f es A)) = a_OutGoingQueue (p_Comms A) @ sent
    \<and> map plain sent = List.map_filter (want (c_sMyName (a_Base (p_Comms A)))) es
    \<and> can_post n (p_Comms (fold f es A)) \<and> c_sMyName (a_Base (p_Comms (fold f es A))) = c_sMyName (a_Base (p_Comms A))"
  using assms(2)
proof (induction es arbitrary: A)
  case Nil
  then show ?case by (simp add: map_filter_simps)
next
  case (Cons e es)
  obtain sent where e: "a_OutGoingQueue (p_Comms (f e A)) = a_OutGoingQueue (p_Comms A) @ sent"
      "map plain sent = List.map_filter (want (c_sMyName (a_Base (p_Comms A)))) [e]"
      "can_post (length es + n) (p_Comms (f e A))" "c_sMyName (a_Base (p_Comms (f e A))) = c_sMyName (a_Base (p_Comms A))"
    using assms(1) Cons.prems unfolding step_posts_def by fastforce
  obtain others where "a_OutGoingQueue (p_Comms (fold f es (f e A))) = a_OutGoingQueue (p_Comms (f e A)) @ others"
      "map plain others = List.map_filter (want (c_sMyName (a_Base (p_Comms A)))) es"
      "can_post n (p_Comms (fold f es (f e A)))"
      "c_sMyName (a_Base (p_Comms (fold f es (f e A)))) = c_sMyName (a_Base (p_Comms A))"
    using Cons.IH [OF e(3)] e(4) by auto
  with e show ?case by (auto simp: map_filter_def intro!: exI [of _ "sent @ others"])
qed

lemma subscribe_to_posts: "step_posts (subscribe_to now) (\<lambda>_. variable_msg now)"
  unfolding step_posts_def
proof (intro allI impI)
  fix n q and A :: "umm app"
  assume ok: "can_post (Suc n) (p_Comms A)"
  obtain sVar sEntry where q: "MOOSChomp q ''@'' False = (sVar, sEntry)" by fastforce
  let ?M = "msg_double MOOS_REGISTER (c_str sVar) (period_of sEntry) (-1) now"
  obtain m a' where p: "via_AsyncPost (post_msg ?M) (p_Comms A) = (True, a')" "plain m = plain ?M"
      "a_OutGoingQueue a' = a_OutGoingQueue (p_Comms A) @ [m]" "can_post n a'"
      "c_sMyName (a_Base a') = c_sMyName (a_Base (p_Comms A))"
    using post_via [OF ok] by blast
  have conn: "c_bConnected (a_Base (p_Comms A))" "idle_box (p_Comms A)" using ok by (simp_all add: can_post_def)
  show "\<exists>sent. a_OutGoingQueue (p_Comms (subscribe_to now q A)) = a_OutGoingQueue (p_Comms A) @ sent
      \<and> map plain sent = List.map_filter (variable_msg now) [q] \<and> can_post n (p_Comms (subscribe_to now q A))
      \<and> c_sMyName (a_Base (p_Comms (subscribe_to now q A))) = c_sMyName (a_Base (p_Comms A))"
  proof (cases "sVar = []")
    case True
    then show ?thesis
      using ok q conn
      by (auto simp: subscribe_to_def variable_msg_def AppRegister_def on_comms_def via_AsyncPost_def RegisterVar_def
          idle_box_def map_filter_simps can_post_def)
  next
    case False
    obtain c where c: "post_msg ?M (a_Base (p_Comms A)) = (True, c)"
      using conn(1) by (simp add: post_msg_eq)
    have "\<exists>S. via_AsyncPost (RegisterVar sVar (period_of sEntry) now) (p_Comms A)
        = (True, a'\<lparr>a_Base := (a_Base a')\<lparr>c_Registered := S\<rparr>\<rparr>)"
      using p(1) conn(1) False c
      by (cases "p_Comms A"; cases c) (auto simp: via_AsyncPost_def RegisterVar_def split: if_splits)
    then obtain S where "via_AsyncPost (RegisterVar sVar (period_of sEntry) now) (p_Comms A)
        = (True, a'\<lparr>a_Base := (a_Base a')\<lparr>c_Registered := S\<rparr>\<rparr>)" ..
    then show ?thesis
      using p q False
      by (auto simp: subscribe_to_def variable_msg_def AppRegister_def on_comms_def map_filter_simps can_post_def
          idle_box_def intro!: exI [of _ "[m]"])
  qed
qed

lemma subscribe_pattern_posts: "step_posts (subscribe_pattern now) (pattern_msg now)"
  unfolding step_posts_def
proof (intro allI impI)
  fix n w and A :: "umm app"
  assume ok: "can_post (Suc n) (p_Comms A)"
  show "\<exists>sent. a_OutGoingQueue (p_Comms (subscribe_pattern now w A)) = a_OutGoingQueue (p_Comms A) @ sent
      \<and> map plain sent = List.map_filter (pattern_msg now (c_sMyName (a_Base (p_Comms A)))) [w]
      \<and> can_post n (p_Comms (subscribe_pattern now w A))
      \<and> c_sMyName (a_Base (p_Comms (subscribe_pattern now w A))) = c_sMyName (a_Base (p_Comms A))"
  proof (cases "read_pattern w")
    case None
    then show ?thesis using ok by (auto simp: subscribe_pattern_def pattern_msg_def map_filter_simps can_post_def)
  next
    case (Some e)
    obtain v a p where e: "e = (v, a, p)" by (cases e) auto
    have v: "v \<noteq> []" using Some e by (auto simp: read_pattern_def Let_def split: prod.splits if_splits)
    let ?M = "msg_string MOOS_WILDCARD_REGISTER (c_sMyName (a_Base (p_Comms A))) (wildcard_params v a p) (-1) now"
    obtain m a' where q: "via_AsyncPost (post_msg ?M) (p_Comms A) = (True, a')" "plain m = plain ?M"
        "a_OutGoingQueue a' = a_OutGoingQueue (p_Comms A) @ [m]" "can_post n a'"
        "c_sMyName (a_Base a') = c_sMyName (a_Base (p_Comms A))"
      using post_via [OF ok] by blast
    show ?thesis
    proof (cases "a = []")
      case True
      then show ?thesis using Some e ok
        by (auto simp: subscribe_pattern_def pattern_msg_def AppRegisterPattern_def on_comms_def via_AsyncPost_def
            RegisterPattern_def idle_box_def map_filter_simps can_post_def)
    next
      case False
      then have "via_AsyncPost (RegisterPattern v a p now) (p_Comms A) = (True, a')"
        using q(1) v by (simp add: via_AsyncPost_def RegisterPattern_def)
      then show ?thesis using Some e False q
        by (auto simp: subscribe_pattern_def pattern_msg_def AppRegisterPattern_def on_comms_def map_filter_simps
            intro!: exI [of _ "[m]"])
    qed
  qed
qed

text \<open>Connecting posts the subscriptions of the command line in their order, variables before
  patterns; entries without a name and patterns that cannot be read are left out.\<close>

theorem subscriptions_posted:
  assumes "can_post (length (u_vSubscribe (p_user A)) + length (u_vWildSubscriptions (p_user A))) (p_Comms A)"
  shows "\<exists>sent. a_OutGoingQueue (p_Comms (snd (DoSubscriptions now A))) = a_OutGoingQueue (p_Comms A) @ sent
    \<and> map plain sent = List.map_filter (variable_msg now) (u_vSubscribe (p_user A))
        @ List.map_filter (pattern_msg now (c_sMyName (a_Base (p_Comms A)))) (u_vWildSubscriptions (p_user A))"
proof -
  let ?B = "fold (subscribe_to now) (u_vSubscribe (p_user A)) A"
  obtain s where s: "a_OutGoingQueue (p_Comms ?B) = a_OutGoingQueue (p_Comms A) @ s"
      "map plain s = List.map_filter (variable_msg now) (u_vSubscribe (p_user A))"
      "can_post (length (u_vWildSubscriptions (p_user A)) + 0) (p_Comms ?B)"
      "c_sMyName (a_Base (p_Comms ?B)) = c_sMyName (a_Base (p_Comms A))"
    using loop_posts [OF subscribe_to_posts assms] by auto
  obtain w where "a_OutGoingQueue (p_Comms (fold (subscribe_pattern now) (u_vWildSubscriptions (p_user A)) ?B))
        = a_OutGoingQueue (p_Comms ?B) @ w"
      "map plain w = List.map_filter (pattern_msg now (c_sMyName (a_Base (p_Comms A)))) (u_vWildSubscriptions (p_user A))"
    using loop_posts [OF subscribe_pattern_posts s(3), of now] s(4) by auto
  then show ?thesis using s by (auto simp: DoSubscriptions_def intro!: exI [of _ "s @ w"])
qed

text \<open>An entry with a variable, an application and a frequency.\<close>

lemma read_pattern_entry:
  assumes "v \<noteq> []" and "CHR '':'' \<notin> set v" and "CHR ''@'' \<notin> set a" and "f \<noteq> []" and "MOOSIsNumeric f"
  shows "read_pattern (v @ '':'' @ a @ ''@'' @ f) = Some (v, a, period_of f)"
  using assms MOOSChomp_piece [OF assms(2), of "a @ ''@'' @ f"] MOOSChomp_piece [OF assms(3), of f]
  by (simp add: read_pattern_def)

section \<open>Witnesses\<close>

definition umm0 :: umm where
  "umm0 =
     \<lparr>u_vSubscribe = [''x@2''], u_vWildSubscriptions = [''y:gps''], u_SimulateNetworkFailure = False,
      u_NetworkStallProb = 0, u_NetworkStallTime = 0, u_ApplicationExitProb = 0, u_sDBIPAddress = [],
      u_bVerbose = False, u_bShowLatency = False, u_dfMeanLatency = 0, u_bShowBandwidth = False,
      u_bShowTimingAdjustment = False, u_bPing = False, u_bPingRxd = False, u_TxCount = -1, u_cpu_load = 0,
      u_Jobs = [new_job 1 ''p'' 0 0, new_job 2 ''q'' 4 0], u_BinaryArray = 4, u_Map = [(''x'', ''z'')], u_dfT = None\<rparr>"

definition ticks0 :: "tick list" where
  "ticks0 = map (\<lambda>t. \<lparr>tk_check = t, tk_post = t, tk_now = t, tk_t1 = t, tk_t2 = t\<rparr>) [5 / 2, 5 / 2, 5 / 2, 5 / 2]"

definition busy_umm :: "umm app" where
  "busy_umm = (new_app umm0)\<lparr>p_Comms := new_aclient\<lparr>a_Base := (a_Base new_aclient)
     \<lparr>c_bConnected := True, c_bMailPresent := True, c_InBox := [msg_double MOOS_NOTIFY ''x'' 5 3 3]\<rparr>\<rparr>\<rparr>"

lemma busy_ready: "can_post 10 (p_Comms busy_umm)"
  by (simp add: busy_umm_def can_post_def idle_box_def new_aclient_def new_client_def)

theorem sent_on_schedule_witness:
  "\<exists>sent. a_OutGoingQueue (p_Comms (snd (snd (ScheduleLoop ticks0 0 busy_umm)))) = sent
    \<and> map m_dfVal (filter (\<lambda>m. m_sKey m = ''p'') sent) = [0, 1]
    \<and> map m_sVal (filter (\<lambda>m. m_sKey m = ''q'') sent) = [replicate 4 CHR 0x00]"
proof -
  have jobs: "u_Jobs (p_user busy_umm) = [new_job 1 ''p'' 0 0, new_job 2 ''q'' 4 0]"
    by (simp add: busy_umm_def new_app_def umm0_def)
  obtain e n' A' where run: "ScheduleLoop ticks0 0 busy_umm = (e, n', A')" by (metis prod_cases3)
  have A': "e = False \<and> u_Jobs (p_user A') = [\<lparr>j_dfPeriod = 1, j_dfTimeScheduled = 3, j_sName = ''p'', j_nCount = 2, j_DataSize = 0\<rparr>,
      \<lparr>j_dfPeriod = 2, j_dfTimeScheduled = 4, j_sName = ''q'', j_nCount = 1, j_DataSize = 4\<rparr>]"
    using run
    by (auto simp: ticks0_def schedule_turn job_done_def on_umm_def busy_umm_def new_app_def umm0_def new_job_def isActive_def
        Reschedule_def Let_def)
  have n: "\<lceil>3 / 2 :: real\<rceil> = 2" "\<lceil>1 / 4 :: real\<rceil> = 1" by (simp_all add: ceiling_eq_iff)
  have "\<exists>sent. a_OutGoingQueue (p_Comms A') = a_OutGoingQueue (p_Comms busy_umm) @ sent
    \<and> m_sKey ` set sent \<subseteq> j_sName ` set (u_Jobs (p_user busy_umm))
    \<and> (\<forall>j \<in> set (u_Jobs (p_user busy_umm)). list_all2 (job_message j) (filter (\<lambda>m. m_sKey m = j_sName j) sent)
         [0..<nat \<lceil>(5 / 2 - j_dfTimeScheduled j) / j_dfPeriod j\<rceil>])"
  proof (rule sent_on_schedule)
    show "ScheduleLoop ticks0 0 busy_umm = (False, n', A')" using run A' by simp
    show "can_post (\<Sum>j\<leftarrow>u_Jobs (p_user busy_umm). nat \<lceil>(5 / 2 - j_dfTimeScheduled j) / j_dfPeriod j\<rceil>) (p_Comms busy_umm)"
      using busy_ready n by (simp add: jobs new_job_def can_post_def)
  qed (use A' in \<open>auto simp: jobs new_job_def ticks0_def isActive_def\<close>)
  moreover have "a_OutGoingQueue (p_Comms busy_umm) = []" by (simp add: busy_umm_def new_aclient_def)
  ultimately obtain sent where "a_OutGoingQueue (p_Comms A') = sent"
      "list_all2 (job_message (new_job 1 ''p'' 0 0)) (filter (\<lambda>m. m_sKey m = ''p'') sent) [0, Suc 0]"
      "list_all2 (job_message (new_job 2 ''q'' 4 0)) (filter (\<lambda>m. m_sKey m = ''q'') sent) [0]"
    using n by (auto simp: jobs new_job_def upt_rec [of _ 2])
  then show ?thesis using run by (auto simp: list_all2_Cons2 job_message_def new_job_def)
qed

theorem mail_bounced_witness:
  "\<exists>sent rest. a_OutGoingQueue (p_Comms (snd (DoRunWork (umm_hooks (\<lambda>_. 4) 4 None [] 4)
        \<lparr>t_now = 4, t_woken = True, t_later = 4, t_during = id, t_start = 4, t_status = (4, 4, 4, 4), t_procs = []\<rparr> busy_umm)))
      = sent @ rest
    \<and> map plain sent = [plain (msg_double MOOS_NOTIFY ''z'' 5 3 3)]"
proof -
  let ?t = "\<lparr>t_now = 4, t_woken = True, t_later = 4, t_during = id, t_start = 4, t_status = (4, 4, 4, 4), t_procs = []\<rparr>"
  have m: "fresh_mail (p_Comms busy_umm) = [msg_double MOOS_NOTIFY ''x'' 5 3 3]" "u_Map (p_user busy_umm) = [(''x'', ''z'')]"
    "a_OutGoingQueue (p_Comms busy_umm) = []" "p_bUseMOOSComms busy_umm"
    by (simp_all add: busy_umm_def fresh_mail_def new_aclient_def new_client_def new_app_def umm0_def IsNullMsg_def IsType_def msg_double_def)
  have "can_post (length (fresh_mail (p_Comms busy_umm)) + 2) (p_Comms busy_umm)"
    using busy_ready m by (simp add: can_post_def)
  moreover have "bounced [(''x'', ''z'')] (sorted_mail busy_umm [msg_double MOOS_NOTIFY ''x'' 5 3 3])
      = [plain (msg_double MOOS_NOTIFY ''z'' 5 3 3)]"
    by (simp add: bounced_def map_filter_def sorted_mail_def msg_double_def plain_def)
  ultimately show ?thesis
    using mail_bounced [of "p_Comms busy_umm" ?t busy_umm "\<lambda>_. 4" 4 None "[]" 4] m by auto
qed

theorem subscriptions_posted_witness:
  "\<exists>sent. a_OutGoingQueue (p_Comms (snd (DoSubscriptions 4 busy_umm))) = sent
    \<and> map plain sent = [plain (msg_double MOOS_REGISTER ''x'' (1 / 2) (-1) 4),
        plain (msg_string MOOS_WILDCARD_REGISTER [] (wildcard_params ''y'' ''gps'' 0) (-1) 4)]"
proof -
  have m: "u_vSubscribe (p_user busy_umm) = [''x@2'']" "u_vWildSubscriptions (p_user busy_umm) = [''y:gps'']"
    "a_OutGoingQueue (p_Comms busy_umm) = []" "c_sMyName (a_Base (p_Comms busy_umm)) = []"
    by (simp_all add: busy_umm_def new_aclient_def new_client_def new_app_def umm0_def)
  have x: "variable_msg 4 ''x@2'' = Some (plain (msg_double MOOS_REGISTER ''x'' (1 / 2) (-1) 4))"
  proof -
    have "MOOSChomp ''x@2'' ''@'' False = (''x'', ''2'')" "MOOSIsNumeric ''2''" "c_str ''x'' = ''x''" by code_simp+
    moreover have "atof ''2'' = 2"
      by (simp add: atof_def strtod_def take_sign_def Let_def isdigit_def isspace_def nat_of_digits_def digit_val_def less_eq_char_def)
    ultimately show ?thesis by (simp add: variable_msg_def period_of_def)
  qed
  have "read_pattern ''y:gps'' = Some (''y'', ''gps'', 0)"
  proof -
    have "MOOSChomp ''y:gps'' '':'' False = (''y'', ''gps'')" "MOOSChomp ''gps'' ''@'' False = (''gps'', [])" by code_simp+
    then show ?thesis by (simp add: read_pattern_def period_of_def)
  qed
  then have w: "pattern_msg 4 [] ''y:gps'' = Some (plain (msg_string MOOS_WILDCARD_REGISTER [] (wildcard_params ''y'' ''gps'' 0) (-1) 4))"
    by (simp add: pattern_msg_def)
  have "can_post (length (u_vSubscribe (p_user busy_umm)) + length (u_vWildSubscriptions (p_user busy_umm))) (p_Comms busy_umm)"
    using busy_ready m by (simp add: can_post_def)
  then show ?thesis using subscriptions_posted [of busy_umm 4] m x w by (simp add: map_filter_simps)
qed

end
