(* ===== verification/Moos_Gtm.thy ===== *)
theory Moos_Gtm
  imports Moos_System
begin

text \<open>
  The application \<open>gtm\<close> (\<open>src/Core/tools/gtm/gtm.cpp\<close>): it collects for a while what the clients of a
  database publish and subscribe to, and writes the graph in the language of \<open>dot\<close>.

  \<^item> The constructor of a message leaves its two flags as the memory was: \<open>junk\<close> gives them.
  \<^item> A file is the list of its lines. What goes to the console is left out.
\<close>

section \<open>State\<close>

record graph_msg =
  g_producers :: "string list"
  g_consumers :: "string list"
  g_has_no_consumer :: bool
  g_has_no_producer :: bool

type_synonym known_messages = "(string, graph_msg) omap"

record gtm =
  gt_Wildcard_names :: "string list"
  gt_statuses :: "(string, comms_status) omap"
  gt_known_messages :: known_messages

definition new_graph_msg :: "bool \<times> bool \<Rightarrow> graph_msg" where
  "new_graph_msg junk =
     \<lparr>g_producers = [], g_consumers = [], g_has_no_consumer = fst junk, g_has_no_producer = snd junk\<rparr>"

definition gtm_OnProcessCommandLine :: "(string \<Rightarrow> string option) \<Rightarrow> gtm \<Rightarrow> gtm" where
  "gtm_OnProcessCommandLine GetVar g =
     g\<lparr>gt_Wildcard_names := (case GetVar ''--pattern'' of
         Some t \<Rightarrow> StringListToVector t '','' | None \<Rightarrow> gt_Wildcard_names g @ [''*''])\<rparr>"

section \<open>Collecting\<close>

text \<open>One message a client publishes, or subscribes to.\<close>

definition add_producer :: "bool \<times> bool \<Rightarrow> string \<Rightarrow> string \<Rightarrow> known_messages \<Rightarrow> known_messages" where
  "add_producer junk q s m =
     (let rmessage = map_get (new_graph_msg junk) m s
      in map_set s (rmessage\<lparr>g_producers := set_insert q (g_producers rmessage)\<rparr>) m)"

definition add_consumer :: "bool \<times> bool \<Rightarrow> string \<Rightarrow> string \<Rightarrow> known_messages \<Rightarrow> known_messages" where
  "add_consumer junk q s m =
     (let rmessage = map_get (new_graph_msg junk) m s
      in map_set s (rmessage\<lparr>g_consumers := set_insert q (g_consumers rmessage)\<rparr>) m)"

definition add_client :: "bool \<times> bool \<Rightarrow> string \<Rightarrow> string \<times> comms_status \<Rightarrow> known_messages \<Rightarrow> known_messages" where
  "add_client junk app_name e m =
     (if app_name = fst e then m
      else fold (add_consumer junk (fst e)) (cs_subscribes (snd e))
             (fold (add_producer junk (fst e)) (cs_publishes (snd e)) m))"

definition UpdateTopology :: "bool \<times> bool \<Rightarrow> string \<Rightarrow> gtm \<Rightarrow> gtm" where
  "UpdateTopology junk app_name g =
     g\<lparr>gt_known_messages := fold (add_client junk app_name) (gt_statuses g) (gt_known_messages g)\<rparr>"

section \<open>Writing the graph\<close>

definition IsIgnoredMessage :: "string \<Rightarrow> bool" where
  "IsIgnoredMessage name \<longleftrightarrow> MOOSWildCmp ''*_STATUS'' name"

definition in_quotes :: "string \<Rightarrow> string" where
  "in_quotes s = [CHR 0x22] @ s @ [CHR 0x22]"

definition PrintMessageRoute :: "string \<Rightarrow> string \<Rightarrow> string \<Rightarrow> bool \<Rightarrow> bool \<Rightarrow> string list" where
  "PrintMessageRoute src dest name dotted ommit_leg_1 =
     (if IsIgnoredMessage name then []
      else [(if ommit_leg_1 then [] else in_quotes src @ ''->'') @ in_quotes name @ ''->'' @ in_quotes dest
            @ (if dotted then ''[style=dotted]'' else ''[style=solid]'')])"

text \<open>The routes from one client: \<open>links\<close> are the messages whose first leg has been drawn.\<close>

fun print_consumers :: "string \<Rightarrow> string \<Rightarrow> string list \<Rightarrow> string list \<Rightarrow> string list \<times> string list" where
  "print_consumers q s [] links = ([], links)"
| "print_consumers q s (w # ws) links =
     (if s \<notin> set links
      then (let (l, links) = print_consumers q s ws (s # links) in (PrintMessageRoute q w s False False @ l, links))
      else (let (l, links) = print_consumers q s ws links in (PrintMessageRoute q w s False True @ l, links)))"

fun print_publishes ::
  "bool \<times> bool \<Rightarrow> string \<Rightarrow> string list \<Rightarrow> string list \<Rightarrow> known_messages \<Rightarrow> string list \<times> known_messages" where
  "print_publishes junk q [] links m = ([], m)"
| "print_publishes junk q (s # ss) links m =
     (let rmessage = map_get (new_graph_msg junk) m s;
          m = map_set s rmessage m;
          (l, links) = print_consumers q s (g_consumers rmessage) links;
          (l', m) = print_publishes junk q ss links m
      in (l @ l', m))"

fun print_clients :: "bool \<times> bool \<Rightarrow> (string, comms_status) omap \<Rightarrow> known_messages \<Rightarrow> string list \<times> known_messages" where
  "print_clients junk [] m = ([], m)"
| "print_clients junk (e # st) m =
     (let (l, m) = print_publishes junk (fst e) (cs_publishes (snd e)) [] m;
          (l', m) = print_clients junk st m
      in (l @ l', m))"

text \<open>The two kinds of orphans.\<close>

definition kNoConsumer :: string where "kNoConsumer = ''no consumer''"
definition kNoProducer :: string where "kNoProducer = ''no producer''"

definition mark_orphan :: "graph_msg \<Rightarrow> graph_msg" where
  "mark_orphan r =
     (let r = (if g_consumers r = [] then r\<lparr>g_has_no_consumer := True\<rparr> else r)
      in if g_producers r = [] then r\<lparr>g_has_no_producer := True\<rparr> else r)"

definition print_orphan :: "string \<times> graph_msg \<Rightarrow> string list" where
  "print_orphan e =
     (if g_consumers (snd e) = []
      then concat (map (\<lambda>w. PrintMessageRoute w kNoConsumer (fst e) True False) (g_producers (snd e))) else [])
     @ (if g_producers (snd e) = []
        then concat (map (\<lambda>w. PrintMessageRoute kNoProducer w (fst e) True False) (g_consumers (snd e))) else [])"

definition node_params :: "graph_msg \<Rightarrow> string" where
  "node_params r =
     (if g_has_no_consumer r then ''[shape=box,color=red,style=dotted]''
      else if g_has_no_producer r then ''[shape=box,color=red,style=dotted]''
      else ''[shape=box,color=blue]'')"

definition print_node :: "string \<times> graph_msg \<Rightarrow> string list" where
  "print_node e = (if IsIgnoredMessage (fst e) then [] else [in_quotes (fst e) @ node_params (snd e)])"

definition PrintTopologyToFile :: "bool \<times> bool \<Rightarrow> gtm \<Rightarrow> string list \<times> gtm" where
  "PrintTopologyToFile junk g =
     (let (routes, m) = print_clients junk (gt_statuses g) (gt_known_messages g);
          orphans = concat (map print_orphan m);
          m = map (\<lambda>e. (fst e, mark_orphan (snd e))) m;
          nodes = concat (map print_node m);
          shown = filter (\<lambda>e. \<not> IsIgnoredMessage (fst e)) m;
          need_no_consumer = (\<exists>e \<in> set shown. g_has_no_consumer (snd e));
          need_no_producer = (\<exists>e \<in> set shown. \<not> g_has_no_consumer (snd e) \<and> g_has_no_producer (snd e))
      in ([''digraph{'', ''size = '' @ in_quotes ''10,10''] @ routes @ orphans @ nodes
          @ (if need_no_consumer then [in_quotes kNoConsumer @ '' [style=filled,fillcolor=red]''] else [])
          @ (if need_no_producer then [in_quotes kNoProducer @ '' [style=filled,fillcolor=red]''] else [])
          @ [''}''],
          g\<lparr>gt_known_messages := m\<rparr>))"

text \<open>\<open>Iterate\<close>, with the time since the start: the file, if it is written and the process ends.\<close>

definition kSamplePeriod :: real where "kSamplePeriod = 3"

definition gtm_Iterate :: "bool \<times> bool \<Rightarrow> string \<Rightarrow> real \<Rightarrow> client \<Rightarrow> gtm \<Rightarrow> string list option \<times> gtm" where
  "gtm_Iterate junk app_name time_expired c g =
     (let g = g\<lparr>gt_statuses := fold (\<lambda>q m. map_set (cs_name q) q m) (GetClientCommsStatuses c) (gt_statuses g)\<rparr>;
          g = UpdateTopology junk app_name g
      in if time_expired > kSamplePeriod
         then (let (file, g) = PrintTopologyToFile junk g in (Some file, g))
         else (None, g))"

section \<open>What is collected\<close>

definition producers_of :: "known_messages \<Rightarrow> string \<Rightarrow> string set" where
  "producers_of m s = (case map_of m s of None \<Rightarrow> {} | Some r \<Rightarrow> set (g_producers r))"

definition consumers_of :: "known_messages \<Rightarrow> string \<Rightarrow> string set" where
  "consumers_of m s = (case map_of m s of None \<Rightarrow> {} | Some r \<Rightarrow> set (g_consumers r))"

lemma add_producer_sets:
  "producers_of (add_producer junk q s m) t = producers_of m t \<union> (if t = s then {q} else {})"
  "consumers_of (add_producer junk q s m) t = consumers_of m t"
  by (auto simp: add_producer_def producers_of_def consumers_of_def map_get_def new_graph_msg_def set_insort_insert
      split: option.splits)

lemma add_consumer_sets:
  "consumers_of (add_consumer junk q s m) t = consumers_of m t \<union> (if t = s then {q} else {})"
  "producers_of (add_consumer junk q s m) t = producers_of m t"
  by (auto simp: add_consumer_def producers_of_def consumers_of_def map_get_def new_graph_msg_def set_insort_insert
      split: option.splits)

lemma add_producers_sets:
  "producers_of (fold (add_producer junk q) ss m) t = producers_of m t \<union> (if t \<in> set ss then {q} else {})
   \<and> consumers_of (fold (add_producer junk q) ss m) t = consumers_of m t"
  by (induction ss arbitrary: m) (auto simp: add_producer_sets)

lemma add_consumers_sets:
  "consumers_of (fold (add_consumer junk q) ss m) t = consumers_of m t \<union> (if t \<in> set ss then {q} else {})
   \<and> producers_of (fold (add_consumer junk q) ss m) t = producers_of m t"
  by (induction ss arbitrary: m) (auto simp: add_consumer_sets)

lemma add_client_sets:
  "producers_of (add_client junk a e m) t
     = producers_of m t \<union> (if fst e \<noteq> a \<and> t \<in> set (cs_publishes (snd e)) then {fst e} else {})"
  "consumers_of (add_client junk a e m) t
     = consumers_of m t \<union> (if fst e \<noteq> a \<and> t \<in> set (cs_subscribes (snd e)) then {fst e} else {})"
  by (auto simp: add_client_def add_producers_sets add_consumers_sets)

lemma topology_sets:
  "producers_of (fold (add_client junk a) st m) t
     = producers_of m t \<union> {q. q \<noteq> a \<and> (\<exists>r. (q, r) \<in> set st \<and> t \<in> set (cs_publishes r))}
   \<and> consumers_of (fold (add_client junk a) st m) t
     = consumers_of m t \<union> {q. q \<noteq> a \<and> (\<exists>r. (q, r) \<in> set st \<and> t \<in> set (cs_subscribes r))}"
proof (induction st arbitrary: m)
  case (Cons e st)
  show ?case using Cons.IH [of "add_client junk a e m"] by (cases e) (auto simp: add_client_sets)
qed simp


lemma UpdateTopology_sets:
  assumes "gt_known_messages g = []"
  shows "producers_of (gt_known_messages (UpdateTopology junk a g)) t
           = {q. q \<noteq> a \<and> (\<exists>r. (q, r) \<in> set (gt_statuses g) \<and> t \<in> set (cs_publishes r))}"
    and "consumers_of (gt_known_messages (UpdateTopology junk a g)) t
           = {q. q \<noteq> a \<and> (\<exists>r. (q, r) \<in> set (gt_statuses g) \<and> t \<in> set (cs_subscribes r))}"
  using topology_sets [of junk a "gt_statuses g" "[]" t] assms
  by (simp_all add: UpdateTopology_def producers_of_def consumers_of_def)

section \<open>What is drawn\<close>

definition full_route :: "string \<Rightarrow> string \<Rightarrow> string \<Rightarrow> string \<Rightarrow> string" where
  "full_route p s w style = in_quotes p @ ''->'' @ in_quotes s @ ''->'' @ in_quotes w @ style"

definition second_leg :: "string \<Rightarrow> string \<Rightarrow> string \<Rightarrow> string" where
  "second_leg s w style = in_quotes s @ ''->'' @ in_quotes w @ style"

lemma PrintMessageRoute_lines:
  assumes "\<not> IsIgnoredMessage s"
  shows "PrintMessageRoute p w s True False = [full_route p s w ''[style=dotted]'']"
    and "PrintMessageRoute p w s False False = [full_route p s w ''[style=solid]'']"
    and "PrintMessageRoute p w s False True = [second_leg s w ''[style=solid]'']"
  using assms by (simp_all add: PrintMessageRoute_def full_route_def second_leg_def)

lemma print_consumers_links:
  "set (snd (print_consumers q s ws links)) = set links \<union> (if ws = [] then {} else {s})"
  by (induction q s ws links rule: print_consumers.induct) (auto simp: Let_def case_prod_unfold)

lemma print_consumers_each:
  assumes "\<not> IsIgnoredMessage s" "w \<in> set ws"
  shows "full_route q s w ''[style=solid]'' \<in> set (fst (print_consumers q s ws links))
         \<or> second_leg s w ''[style=solid]'' \<in> set (fst (print_consumers q s ws links))"
  using assms
  by (induction q s ws links rule: print_consumers.induct)
    (auto simp: Let_def case_prod_unfold PrintMessageRoute_lines)

lemma print_consumers_first:
  assumes "\<not> IsIgnoredMessage s" "ws \<noteq> []" "s \<notin> set links"
  shows "full_route q s (hd ws) ''[style=solid]'' \<in> set (fst (print_consumers q s ws links))"
  using assms by (cases ws) (auto simp: Let_def case_prod_unfold PrintMessageRoute_lines)

lemma touched_sets [simp]:
  "consumers_of (map_set s (map_get (new_graph_msg junk) m s) m) = consumers_of m"
  "producers_of (map_set s (map_get (new_graph_msg junk) m s) m) = producers_of m"
  by (auto simp: producers_of_def consumers_of_def map_get_def new_graph_msg_def fun_eq_iff split: option.splits)

lemma map_get_sets:
  "set (g_consumers (map_get (new_graph_msg junk) m s)) = consumers_of m s"
  "set (g_producers (map_get (new_graph_msg junk) m s)) = producers_of m s"
  by (auto simp: producers_of_def consumers_of_def map_get_def new_graph_msg_def split: option.splits)

lemma print_publishes_sets [simp]:
  "consumers_of (snd (print_publishes junk q ss links m)) = consumers_of m"
  "producers_of (snd (print_publishes junk q ss links m)) = producers_of m"
  by (induction ss arbitrary: links m) (simp_all add: Let_def case_prod_unfold)

lemma print_clients_sets [simp]:
  "consumers_of (snd (print_clients junk st m)) = consumers_of m"
  "producers_of (snd (print_clients junk st m)) = producers_of m"
  by (induction st arbitrary: m) (simp_all add: Let_def case_prod_unfold)

lemma print_publishes_each:
  assumes "\<not> IsIgnoredMessage s" "s \<in> set ss" "w \<in> consumers_of m s"
  shows "full_route q s w ''[style=solid]'' \<in> set (fst (print_publishes junk q ss links m))
         \<or> second_leg s w ''[style=solid]'' \<in> set (fst (print_publishes junk q ss links m))"
  using assms
proof (induction ss arbitrary: links m)
  case (Cons s' ss)
  show ?case
  proof (cases "s' = s")
    case True
    show ?thesis
      using print_consumers_each [of s w "g_consumers (map_get (new_graph_msg junk) m s)" q links] Cons.prems True
      by (auto simp: Let_def case_prod_unfold map_get_sets)
  next
    case False
    then show ?thesis
      using Cons.IH [of "map_set s' (map_get (new_graph_msg junk) m s') m"
          "snd (print_consumers q s' (g_consumers (map_get (new_graph_msg junk) m s')) links)"] Cons.prems
      by (auto simp: Let_def case_prod_unfold)
  qed
qed simp

lemma print_publishes_first:
  assumes "\<not> IsIgnoredMessage s" "s \<in> set ss" "consumers_of m s \<noteq> {}" "s \<notin> set links"
  shows "\<exists>w. w \<in> consumers_of m s
           \<and> full_route q s w ''[style=solid]'' \<in> set (fst (print_publishes junk q ss links m))"
  using assms
proof (induction ss arbitrary: links m)
  case (Cons s' ss)
  show ?case
  proof (cases "s' = s")
    case True
    let ?ws = "g_consumers (map_get (new_graph_msg junk) m s)"
    have "?ws \<noteq> []" using Cons.prems map_get_sets(1) [of junk m s] by auto
    then have "hd ?ws \<in> consumers_of m s" using map_get_sets(1) [of junk m s] by (metis hd_in_set)
    then show ?thesis
      using print_consumers_first [of s ?ws links q] \<open>?ws \<noteq> []\<close> Cons.prems True
      by (auto simp: Let_def case_prod_unfold)
  next
    case False
    then have "s \<notin> set (snd (print_consumers q s' (g_consumers (map_get (new_graph_msg junk) m s')) links))"
      using Cons.prems by (auto simp: print_consumers_links)
    then show ?thesis
      using Cons.IH [of "map_set s' (map_get (new_graph_msg junk) m s') m"
          "snd (print_consumers q s' (g_consumers (map_get (new_graph_msg junk) m s')) links)"] Cons.prems False
      by (auto simp: Let_def case_prod_unfold)
  qed
qed simp

lemma print_clients_lines:
  assumes "(p, r) \<in> set st"
  shows "\<exists>m'. consumers_of m' = consumers_of m
           \<and> set (fst (print_publishes junk p (cs_publishes r) [] m')) \<subseteq> set (fst (print_clients junk st m))"
  using assms
proof (induction st arbitrary: m)
  case (Cons e st)
  show ?case
  proof (cases "e = (p, r)")
    case True
    then show ?thesis by (intro exI [of _ m]) (auto simp: Let_def case_prod_unfold)
  next
    case False
    then obtain m' where "consumers_of m' = consumers_of (snd (print_publishes junk (fst e) (cs_publishes (snd e)) [] m))"
      "set (fst (print_publishes junk p (cs_publishes r) [] m'))
         \<subseteq> set (fst (print_clients junk st (snd (print_publishes junk (fst e) (cs_publishes (snd e)) [] m))))"
      using Cons.IH [of "snd (print_publishes junk (fst e) (cs_publishes (snd e)) [] m)"] Cons.prems by auto
    then show ?thesis by (intro exI [of _ m']) (auto simp: Let_def case_prod_unfold)
  qed
qed simp

section \<open>The flags and the nodes\<close>

text \<open>With the flags cleared at construction no message has one before the orphans are marked.\<close>

definition unflagged :: "known_messages \<Rightarrow> bool" where
  "unflagged m \<longleftrightarrow> (\<forall>e \<in> set m. \<not> g_has_no_consumer (snd e) \<and> \<not> g_has_no_producer (snd e))"

lemma unflagged_map_get:
  "unflagged m \<Longrightarrow> \<not> g_has_no_consumer (map_get (new_graph_msg (False, False)) m s)
                  \<and> \<not> g_has_no_producer (map_get (new_graph_msg (False, False)) m s)"
  by (auto simp: unflagged_def map_get_def new_graph_msg_def split: option.splits dest!: map_of_SomeD)

lemma set_map_set_sub: "set (map_set k v m) \<subseteq> insert (k, v) (set m)"
  by (induction k v m rule: map_set.induct) auto

lemma unflagged_map_set:
  "unflagged m \<Longrightarrow> \<not> g_has_no_consumer r \<Longrightarrow> \<not> g_has_no_producer r \<Longrightarrow> unflagged (map_set s r m)"
  using set_map_set_sub [of s r m] by (fastforce simp: unflagged_def)

lemma unflagged_add:
  "unflagged m \<Longrightarrow> unflagged (add_producer (False, False) q s m)"
  "unflagged m \<Longrightarrow> unflagged (add_consumer (False, False) q s m)"
  by (simp_all add: add_producer_def add_consumer_def Let_def unflagged_map_get unflagged_map_set)

lemma unflagged_fold:
  "(\<And>x m. unflagged m \<Longrightarrow> unflagged (f x m)) \<Longrightarrow> unflagged m \<Longrightarrow> unflagged (fold f xs m)"
  by (induction xs arbitrary: m) auto

lemma unflagged_UpdateTopology:
  "gt_known_messages g = [] \<Longrightarrow> unflagged (gt_known_messages (UpdateTopology (False, False) a g))"
  by (auto simp: UpdateTopology_def add_client_def intro!: unflagged_fold unflagged_add)
    (simp add: unflagged_def)

lemma unflagged_print_publishes:
  "unflagged m \<Longrightarrow> unflagged (snd (print_publishes (False, False) q ss links m))"
  by (induction ss arbitrary: links m)
    (simp_all add: Let_def case_prod_unfold unflagged_map_get unflagged_map_set)

lemma unflagged_print_clients:
  "unflagged m \<Longrightarrow> unflagged (snd (print_clients (False, False) st m))"
  by (induction st arbitrary: m) (simp_all add: Let_def case_prod_unfold unflagged_print_publishes)

text \<open>The file, line by line.\<close>

lemma file_lines:
  fixes junk g
  defines "m \<equiv> snd (print_clients junk (gt_statuses g) (gt_known_messages g))"
  shows "set (fst (print_clients junk (gt_statuses g) (gt_known_messages g))) \<subseteq> set (fst (PrintTopologyToFile junk g))"
    and "e \<in> set m \<Longrightarrow> set (print_orphan e) \<subseteq> set (fst (PrintTopologyToFile junk g))"
    and "e \<in> set m \<Longrightarrow> set (print_node (fst e, mark_orphan (snd e))) \<subseteq> set (fst (PrintTopologyToFile junk g))"
  unfolding m_def PrintTopologyToFile_def Let_def case_prod_unfold by force+

lemma sets_entry:
  assumes "x \<in> producers_of m s \<or> x \<in> consumers_of m s"
  obtains r where "(s, r) \<in> set m" "producers_of m s = set (g_producers r)" "consumers_of m s = set (g_consumers r)"
  using assms by (cases "map_of m s") (auto simp: producers_of_def consumers_of_def dest: map_of_SomeD)

end
