(* ===== verification/Moos_GtmProps.thy ===== *)
theory Moos_GtmProps
  imports Moos_Gtm
begin

text \<open>What the file written by \<open>gtm\<close> shows, against what the clients publish and subscribe to.\<close>

section \<open>Routes\<close>

text \<open>Some client other than ourselves publishes, or subscribes to, a message.\<close>

definition publishes_it :: "string \<Rightarrow> (string, comms_status) omap \<Rightarrow> string \<Rightarrow> string \<Rightarrow> bool" where
  "publishes_it a st p s \<longleftrightarrow> p \<noteq> a \<and> (\<exists>e \<in> set st. fst e = p \<and> s \<in> set (cs_publishes (snd e)))"

definition subscribes_to_it :: "string \<Rightarrow> (string, comms_status) omap \<Rightarrow> string \<Rightarrow> string \<Rightarrow> bool" where
  "subscribes_to_it a st p s \<longleftrightarrow> p \<noteq> a \<and> (\<exists>e \<in> set st. fst e = p \<and> s \<in> set (cs_subscribes (snd e)))"

lemma collected:
  assumes "gt_known_messages g = []"
  shows "producers_of (gt_known_messages (UpdateTopology junk a g)) s = {p. publishes_it a (gt_statuses g) p s}"
    and "consumers_of (gt_known_messages (UpdateTopology junk a g)) s = {p. subscribes_to_it a (gt_statuses g) p s}"
  by (force simp: UpdateTopology_sets [OF assms] publishes_it_def subscribes_to_it_def)+

lemma UpdateTopology_statuses [simp]: "gt_statuses (UpdateTopology junk a g) = gt_statuses g"
  by (simp add: UpdateTopology_def)

text \<open>C40: every message a client publishes and another subscribes to is drawn, if it is not one of those
  \<open>gtm\<close> ignores, whose name ends in \<open>_STATUS\<close>: the line from the message to the
  subscriber is there, and one line leads from the publisher to the message. The clients are those
  other than \<open>gtm\<close> itself, and the topology is collected into an empty table.\<close>

theorem topology_drawn:
  assumes "gt_known_messages g = []" "publishes_it a (gt_statuses g) p s" "subscribes_to_it a (gt_statuses g) w s"
    and "\<not> IsIgnoredMessage s"
  shows "let file = fst (PrintTopologyToFile junk (UpdateTopology junk a g))
         in (full_route p s w ''[style=solid]'' \<in> set file \<or> second_leg s w ''[style=solid]'' \<in> set file)
            \<and> (\<exists>w'. subscribes_to_it a (gt_statuses g) w' s \<and> full_route p s w' ''[style=solid]'' \<in> set file)"
proof -
  let ?u = "UpdateTopology junk a g"
  let ?m = "gt_known_messages ?u"
  obtain r where r: "(p, r) \<in> set (gt_statuses g)" "s \<in> set (cs_publishes r)"
    using assms(2) by (auto simp: publishes_it_def)
  have c: "consumers_of ?m s = {p. subscribes_to_it a (gt_statuses g) p s}" by (rule collected [OF assms(1)])
  obtain m' where m': "consumers_of m' = consumers_of ?m"
    "set (fst (print_publishes junk p (cs_publishes r) [] m')) \<subseteq> set (fst (print_clients junk (gt_statuses g) ?m))"
    using print_clients_lines [OF r(1)] by blast
  have sub: "set (fst (print_publishes junk p (cs_publishes r) [] m')) \<subseteq> set (fst (PrintTopologyToFile junk ?u))"
    using m'(2) file_lines(1) [of junk ?u] by auto
  have w: "w \<in> consumers_of m' s" using c m'(1) assms(3) by simp
  show ?thesis
    using print_publishes_each [OF assms(4) r(2) w, where junk = junk and q = p and links = "[]"]
      print_publishes_first [OF assms(4) r(2), where m = m' and junk = junk and q = p and links = "[]"] w sub c m'(1)
    by (auto simp: Let_def)
qed

definition two_clients :: "(string, comms_status) omap" where
  "two_clients =
     [(''helm'', new_comms_status\<lparr>cs_name := ''helm'', cs_publishes := [''SPEED''], cs_subscribes := [''POSE'']\<rparr>),
      (''nav'', new_comms_status\<lparr>cs_name := ''nav'', cs_publishes := [''POSE'', ''FIX'']\<rparr>)]"

definition two_clients_gtm :: gtm where
  "two_clients_gtm = \<lparr>gt_Wildcard_names = [''*''], gt_statuses = two_clients, gt_known_messages = []\<rparr>"

lemma examples_not_ignored:
  "\<not> IsIgnoredMessage ''POSE''" "\<not> IsIgnoredMessage ''FIX''" "\<not> IsIgnoredMessage ''SPEED''"
  unfolding IsIgnoredMessage_def MOOSWildCmp_glob by code_simp+

theorem topology_drawn_witness:
  "(let file = fst (PrintTopologyToFile (False, False) (UpdateTopology (False, False) ''gtm-7'' two_clients_gtm))
    in (full_route ''nav'' ''POSE'' ''helm'' ''[style=solid]'' \<in> set file
        \<or> second_leg ''POSE'' ''helm'' ''[style=solid]'' \<in> set file)
       \<and> (\<exists>w'. subscribes_to_it ''gtm-7'' (gt_statuses two_clients_gtm) w' ''POSE''
               \<and> full_route ''nav'' ''POSE'' w' ''[style=solid]'' \<in> set file))"
proof (rule topology_drawn)
  show "gt_known_messages two_clients_gtm = []" by (simp add: two_clients_gtm_def)
  show "publishes_it ''gtm-7'' (gt_statuses two_clients_gtm) ''nav'' ''POSE''"
    "subscribes_to_it ''gtm-7'' (gt_statuses two_clients_gtm) ''helm'' ''POSE''"
    by (simp_all add: publishes_it_def subscribes_to_it_def two_clients_gtm_def two_clients_def)
  show "\<not> IsIgnoredMessage ''POSE''" by (rule examples_not_ignored)
qed

section \<open>Nodes\<close>

definition blue :: string where "blue = ''[shape=box,color=blue]''"
definition red :: string where "red = ''[shape=box,color=red,style=dotted]''"

text \<open>a message somebody else publishes or subscribes to is a node of the graph: blue when it has
  both ends, red when one is missing, and then a dotted route leads to the stand-in.\<close>

theorem nodes_coloured:
  assumes "gt_known_messages g = []" "\<not> IsIgnoredMessage s"
    and "publishes_it a (gt_statuses g) p s \<or> subscribes_to_it a (gt_statuses g) p s"
  shows "let file = fst (PrintTopologyToFile (False, False) (UpdateTopology (False, False) a g));
             produced = (\<exists>q. publishes_it a (gt_statuses g) q s);
             consumed = (\<exists>q. subscribes_to_it a (gt_statuses g) q s)
         in in_quotes s @ (if produced \<and> consumed then blue else red) \<in> set file
            \<and> (consumed \<or> full_route p s kNoConsumer ''[style=dotted]'' \<in> set file)
            \<and> (produced \<or> full_route kNoProducer s p ''[style=dotted]'' \<in> set file)"
proof -
  let ?u = "UpdateTopology (False, False) a g"
  let ?m = "snd (print_clients (False, False) (gt_statuses ?u) (gt_known_messages ?u))"
  have c: "producers_of ?m s = {p. publishes_it a (gt_statuses g) p s}"
    "consumers_of ?m s = {p. subscribes_to_it a (gt_statuses g) p s}"
    using collected [OF assms(1)] by simp_all
  have "unflagged ?m" by (rule unflagged_print_clients [OF unflagged_UpdateTopology [OF assms(1)]])
  have "p \<in> producers_of ?m s \<or> p \<in> consumers_of ?m s" using assms(3) c by auto
  then obtain r where r: "(s, r) \<in> set ?m" "producers_of ?m s = set (g_producers r)"
    "consumers_of ?m s = set (g_consumers r)" by (rule sets_entry)
  have f: "\<not> g_has_no_consumer r" "\<not> g_has_no_producer r"
    using \<open>unflagged ?m\<close> r(1) by (auto simp: unflagged_def)
  have n: "print_node (s, mark_orphan r)
      = [in_quotes s @ (if g_producers r \<noteq> [] \<and> g_consumers r \<noteq> [] then blue else red)]"
    using f assms(2) by (simp add: print_node_def mark_orphan_def node_params_def blue_def red_def Let_def)
  have e: "g_producers r \<noteq> [] \<longleftrightarrow> (\<exists>q. publishes_it a (gt_statuses g) q s)"
    "g_consumers r \<noteq> [] \<longleftrightarrow> (\<exists>q. subscribes_to_it a (gt_statuses g) q s)"
    using r(2,3) c by (metis empty_iff last_in_set mem_Collect_eq set_empty)+
  have o: "g_consumers r = [] \<longrightarrow> full_route p s kNoConsumer ''[style=dotted]'' \<in> set (print_orphan (s, r))"
    "g_producers r = [] \<longrightarrow> full_route kNoProducer s p ''[style=dotted]'' \<in> set (print_orphan (s, r))"
    using assms(2,3) r(2,3) c by (auto simp: print_orphan_def PrintMessageRoute_lines)
  show ?thesis
    using file_lines(2) [OF r(1)] file_lines(3) [OF r(1)] n e o by (auto simp: Let_def)
qed

theorem nodes_coloured_witness:
  "(let file = fst (PrintTopologyToFile (False, False) (UpdateTopology (False, False) ''gtm-7'' two_clients_gtm));
        produced = (\<exists>q. publishes_it ''gtm-7'' (gt_statuses two_clients_gtm) q ''FIX'');
        consumed = (\<exists>q. subscribes_to_it ''gtm-7'' (gt_statuses two_clients_gtm) q ''FIX'')
    in in_quotes ''FIX'' @ (if produced \<and> consumed then blue else red) \<in> set file
       \<and> (consumed \<or> full_route ''nav'' ''FIX'' kNoConsumer ''[style=dotted]'' \<in> set file)
       \<and> (produced \<or> full_route kNoProducer ''FIX'' ''nav'' ''[style=dotted]'' \<in> set file))"
proof (rule nodes_coloured)
  show "gt_known_messages two_clients_gtm = []" by (simp add: two_clients_gtm_def)
  show "publishes_it ''gtm-7'' (gt_statuses two_clients_gtm) ''nav'' ''FIX''
        \<or> subscribes_to_it ''gtm-7'' (gt_statuses two_clients_gtm) ''nav'' ''FIX''"
    by (simp add: publishes_it_def two_clients_gtm_def two_clients_def)
  show "\<not> IsIgnoredMessage ''FIX''" by (rule examples_not_ignored)
qed

text \<open>The constructor of a message does not clear its flags: memory that was not zero draws a message
  with both ends in red.\<close>

lemma uninitialised_flags_show:
  assumes "\<not> IsIgnoredMessage s"
  shows "print_node (s, mark_orphan ((new_graph_msg (True, b))\<lparr>g_producers := p # ps, g_consumers := c # cs\<rparr>))
         = [in_quotes s @ red]"
  using assms by (simp add: new_graph_msg_def print_node_def mark_orphan_def node_params_def red_def)

text \<open>The names asked for on the command line change nothing in what is drawn.\<close>

lemma patterns_unused:
  "fst (PrintTopologyToFile junk (UpdateTopology junk a (gtm_OnProcessCommandLine GetVar g)))
     = fst (PrintTopologyToFile junk (UpdateTopology junk a g))"
  by (simp add: PrintTopologyToFile_def UpdateTopology_def gtm_OnProcessCommandLine_def Let_def case_prod_unfold)

end
