(* ===== verification/Moos_Thread.thy ===== *)
theory Moos_Thread
  imports Moos_Prelude
begin

text \<open>
  A thread and the object that starts and stops it
  (\<open>Utils/include/MOOS/libMOOS/Utils/MOOSThread.h\<close>): the flags the two share, with every
  interleaving of their accesses.

  \<^item> Each access to a flag is a step of its own. One thread, the owner, calls \<open>Initialise\<close>,
    \<open>Start\<close>, \<open>Stop\<close> and \<open>RequestQuit\<close>.
  \<^item> \<open>pthread_create\<close> fails or gives an identifier that is not in use; \<open>pthread_join\<close> waits for the
    thread's end and frees its identifier, and returns at once with an error for a thread that is
    detached or unknown, as the branches of \<open>Stop\<close> expect.
  \<^item> The function of the thread polls \<open>IsQuitRequested\<close> before each of its rounds and may end after any.
\<close>

section \<open>State\<close>

text \<open>Where a thread is in \<open>Work\<close>: before the test of the function, before \<open>SetRunningFlag(true)\<close>, in the
  function, before \<open>SetRunningFlag(false)\<close>, after it, and ended.\<close>

datatype worker_pc = Created | Entering | InFunction | Returned | Finishing | Ended

record worker =
  w_pc :: worker_pc
  w_detached :: bool

text \<open>Where the owner is.\<close>

datatype owner_pc =
    Idle
  | StartCalled bool | StartClearing bool | StartFlagging bool | StartCreating bool | StartFailed
  | StopCalled | StopQuitting | StopJoining | StopClearing

record 'f cthread =
  t_bRunning :: bool
  t_bQuitRequested :: bool
  t_pfnThreadFunc :: "'f option"
  t_nThreadID :: nat
  t_workers :: "nat \<Rightarrow> worker option"
  t_owner :: owner_pc
  t_result :: bool

definition new_thread :: "'f cthread" where
  "new_thread = \<lparr>t_bRunning = False, t_bQuitRequested = False, t_pfnThreadFunc = None, t_nThreadID = 0,
     t_workers = Map.empty, t_owner = Idle, t_result = True\<rparr>"

section \<open>The owner\<close>

datatype 'f thread_call = OwnerInitialise "'f option" | OwnerRequestQuit | OwnerStart bool | OwnerStop

definition thread_called :: "'f thread_call \<Rightarrow> 'f cthread \<Rightarrow> 'f cthread option" where
  "thread_called c s =
     (if t_owner s \<noteq> Idle then None
      else Some (case c of
          OwnerInitialise f \<Rightarrow> s\<lparr>t_pfnThreadFunc := f, t_bQuitRequested := False, t_result := (f \<noteq> None)\<rparr>
        | OwnerRequestQuit \<Rightarrow> s\<lparr>t_bQuitRequested := True\<rparr>
        | OwnerStart bCreatUnixDetached \<Rightarrow> s\<lparr>t_owner := StartCalled bCreatUnixDetached\<rparr>
        | OwnerStop \<Rightarrow> s\<lparr>t_owner := StopCalled\<rparr>))"

text \<open>The next access of \<open>Start\<close>, \<open>Stop\<close>: \<open>os\<close> is what \<open>pthread_create\<close> gives. The result is \<open>None\<close> where
  \<open>pthread_join\<close> has to wait.\<close>

definition start_goes :: "nat option \<Rightarrow> 'f cthread \<Rightarrow> 'f cthread option" where
  "start_goes os s =
     (case t_owner s of
        StartCalled d \<Rightarrow> Some (if t_bRunning s then s\<lparr>t_owner := Idle, t_result := False\<rparr>
                               else s\<lparr>t_owner := StartClearing d\<rparr>)
      | StartClearing d \<Rightarrow> Some (s\<lparr>t_bQuitRequested := False, t_owner := StartFlagging d\<rparr>)
      | StartFlagging d \<Rightarrow> Some (s\<lparr>t_bRunning := True, t_owner := StartCreating d\<rparr>)
      | StartCreating d \<Rightarrow>
          (case os of
             None \<Rightarrow> Some (s\<lparr>t_owner := StartFailed\<rparr>)
           | Some t \<Rightarrow>
               if t_workers s t = None
               then Some (s\<lparr>t_workers := (t_workers s)(t \<mapsto> \<lparr>w_pc = Created, w_detached = d\<rparr>), t_nThreadID := t,
                           t_owner := Idle, t_result := True\<rparr>)
               else None)
      | StartFailed \<Rightarrow> Some (s\<lparr>t_bRunning := False, t_owner := Idle, t_result := False\<rparr>)
      | _ \<Rightarrow> None)"

definition join_thread :: "'f cthread \<Rightarrow> 'f cthread option" where
  "join_thread s =
     (case t_workers s (t_nThreadID s) of
        None \<Rightarrow> Some s
      | Some w \<Rightarrow>
          if w_detached w then Some s
          else if w_pc w = Ended then Some (s\<lparr>t_workers := (t_workers s)(t_nThreadID s := None)\<rparr>)
          else None)"

definition stop_goes :: "'f cthread \<Rightarrow> 'f cthread option" where
  "stop_goes s =
     (case t_owner s of
        StopCalled \<Rightarrow> Some (if t_bRunning s then s\<lparr>t_owner := StopQuitting\<rparr>
                            else s\<lparr>t_owner := Idle, t_result := True\<rparr>)
      | StopQuitting \<Rightarrow> Some (s\<lparr>t_bQuitRequested := True, t_owner := StopJoining\<rparr>)
      | StopJoining \<Rightarrow> map_option (t_owner_update (\<lambda>_. StopClearing)) (join_thread s)
      | StopClearing \<Rightarrow> Some (s\<lparr>t_bRunning := False, t_owner := Idle, t_result := True\<rparr>)
      | _ \<Rightarrow> None)"

section \<open>The thread\<close>

definition at_pc :: "nat \<Rightarrow> worker \<Rightarrow> worker_pc \<Rightarrow> 'f cthread \<Rightarrow> 'f cthread" where
  "at_pc t w pc s = s\<lparr>t_workers := (t_workers s)(t \<mapsto> w\<lparr>w_pc := pc\<rparr>)\<rparr>"

text \<open>\<open>again\<close> says if the function goes for another round, which it does only when no quit is requested.\<close>

definition worker_goes :: "nat \<Rightarrow> bool \<Rightarrow> 'f cthread \<Rightarrow> 'f cthread option" where
  "worker_goes t again s =
     (case t_workers s t of
        None \<Rightarrow> None
      | Some w \<Rightarrow>
          (case w_pc w of
             Created \<Rightarrow> Some (at_pc t w (if t_pfnThreadFunc s = None then Finishing else Entering) s)
           | Entering \<Rightarrow> Some (at_pc t w InFunction (s\<lparr>t_bRunning := True\<rparr>))
           | InFunction \<Rightarrow>
               if again then (if t_bQuitRequested s then None else Some s) else Some (at_pc t w Returned s)
           | Returned \<Rightarrow> Some (at_pc t w Finishing (s\<lparr>t_bRunning := False\<rparr>))
           | Finishing \<Rightarrow>
               Some (if w_detached w then s\<lparr>t_workers := (t_workers s)(t := None)\<rparr> else at_pc t w Ended s)
           | Ended \<Rightarrow> None))"

section \<open>Interleavings\<close>

datatype 'f thread_event = Call "'f thread_call" | StartGoes "nat option" | StopGoes | WorkerGoes nat bool

definition thread_next :: "'f thread_event \<Rightarrow> 'f cthread \<Rightarrow> 'f cthread option" where
  "thread_next e s =
     (case e of
        Call c \<Rightarrow> thread_called c s
      | StartGoes os \<Rightarrow> start_goes os s
      | StopGoes \<Rightarrow> stop_goes s
      | WorkerGoes t again \<Rightarrow> worker_goes t again s)"

text \<open>\<open>detaching\<close> says if the owner may ask for detached threads; no caller in the library does.\<close>

inductive thread_step :: "bool \<Rightarrow> 'f cthread \<Rightarrow> 'f cthread \<Rightarrow> bool" for detaching where
  thread_step: "thread_next e s = Some s' \<Longrightarrow> e = Call (OwnerStart True) \<longrightarrow> detaching \<Longrightarrow> thread_step detaching s s'"

inductive_simps thread_step_iff: "thread_step detaching s s'"

inductive thread_reachable :: "bool \<Rightarrow> 'f cthread \<Rightarrow> bool" for detaching where
  reach_new: "thread_reachable detaching new_thread"
| reach_step: "thread_reachable detaching s \<Longrightarrow> thread_step detaching s s' \<Longrightarrow> thread_reachable detaching s'"

text \<open>A sequence of events, to run examples.\<close>

fun thread_run :: "'f thread_event list \<Rightarrow> 'f cthread \<Rightarrow> 'f cthread option" where
  "thread_run [] s = Some s"
| "thread_run (e # es) s = (case thread_next e s of None \<Rightarrow> None | Some s' \<Rightarrow> thread_run es s')"

text \<open>On every run something comes true: a state where it is, or one that can go on and whose steps all
  lead there.\<close>

inductive eventually_in :: "('s \<Rightarrow> 's \<Rightarrow> bool) \<Rightarrow> ('s \<Rightarrow> bool) \<Rightarrow> 's \<Rightarrow> bool" for step P where
  ev_now: "P s \<Longrightarrow> eventually_in step P s"
| ev_later: "step s s' \<Longrightarrow> (\<And>t. step s t \<Longrightarrow> eventually_in step P t) \<Longrightarrow> eventually_in step P s"

section \<open>The invariant\<close>

text \<open>A thread that has not yet cleared the running flag.\<close>

definition live :: "'f cthread \<Rightarrow> nat \<Rightarrow> bool" where
  "live s t \<longleftrightarrow> (case t_workers s t of None \<Rightarrow> False | Some w \<Rightarrow> w_pc w \<notin> {Finishing, Ended})"

definition may_live :: "owner_pc \<Rightarrow> bool" where
  "may_live pc \<longleftrightarrow> pc \<in> {Idle, StartCalled False, StopCalled, StopQuitting, StopJoining}"

definition stopping :: "owner_pc \<Rightarrow> bool" where
  "stopping pc \<longleftrightarrow> pc \<in> {StopQuitting, StopJoining}"

definition attached :: "owner_pc \<Rightarrow> bool" where
  "attached pc \<longleftrightarrow> pc \<notin> {StartCalled True, StartClearing True, StartFlagging True, StartCreating True}"

definition thread_inv :: "'f cthread \<Rightarrow> bool" where
  "thread_inv s \<longleftrightarrow>
     (\<forall>t w. t_workers s t = Some w \<longrightarrow> \<not> w_detached w)
     \<and> attached (t_owner s)
     \<and> (\<forall>t. live s t \<longrightarrow> t = t_nThreadID s \<and> t_bRunning s \<and> may_live (t_owner s))
     \<and> (t_bRunning s \<and> may_live (t_owner s) \<or> stopping (t_owner s) \<longrightarrow> t_workers s (t_nThreadID s) \<noteq> None)
     \<and> (t_owner s = StopJoining \<longrightarrow> t_bQuitRequested s)
     \<and> (t_owner s = StartCreating False \<longrightarrow> t_bRunning s)"

lemmas thread_inv_defs = thread_inv_def may_live_def stopping_def attached_def

lemma live_updates [simp]:
  "live (s\<lparr>t_owner := pc\<rparr>) = live s" "live (s\<lparr>t_result := r\<rparr>) = live s"
  "live (s\<lparr>t_bRunning := q\<rparr>) = live s" "live (s\<lparr>t_bQuitRequested := q\<rparr>) = live s"
  "live (s\<lparr>t_nThreadID := n\<rparr>) = live s" "live (s\<lparr>t_pfnThreadFunc := f\<rparr>) = live s"
  by (simp_all add: live_def fun_eq_iff)

lemma live_workers [simp]:
  "live (s\<lparr>t_workers := (t_workers s)(t := None)\<rparr>) u \<longleftrightarrow> u \<noteq> t \<and> live s u"
  "live (s\<lparr>t_workers := (t_workers s)(t \<mapsto> w)\<rparr>) u
     \<longleftrightarrow> (if u = t then w_pc w \<notin> {Finishing, Ended} else live s u)"
  by (simp_all add: live_def)

lemma live_at_pc [simp]:
  "live (at_pc t w pc s) u \<longleftrightarrow> (if u = t then pc \<notin> {Finishing, Ended} else live s u)"
  by (simp add: at_pc_def live_def)

lemma live_at: "t_workers s t = Some w \<Longrightarrow> live s t \<longleftrightarrow> w_pc w \<notin> {Finishing, Ended}"
  by (simp add: live_def)

lemma thread_inv_new: "thread_inv new_thread"
  by (simp add: thread_inv_defs new_thread_def live_def)

lemma thread_inv_called:
  "thread_inv s \<Longrightarrow> thread_called c s = Some s' \<Longrightarrow> c \<noteq> OwnerStart True \<Longrightarrow> thread_inv s'"
  by (cases c) (auto simp: thread_inv_defs thread_called_def split: if_splits)

lemma thread_inv_start: "thread_inv s \<Longrightarrow> start_goes os s = Some s' \<Longrightarrow> thread_inv s'"
  by (cases "t_owner s") (auto simp: thread_inv_defs start_goes_def split: if_splits option.splits)

lemma thread_inv_stop: "thread_inv s \<Longrightarrow> stop_goes s = Some s' \<Longrightarrow> thread_inv s'"
  by (cases "t_owner s")
    (auto simp: thread_inv_defs stop_goes_def join_thread_def live_at split: if_splits option.splits)

lemma inv_live:
  assumes "thread_inv s" "live s t"
  shows "t = t_nThreadID s" "t_bRunning s" "may_live (t_owner s)"
  using assms by (simp_all add: thread_inv_def)

lemma thread_inv_at:
  assumes "thread_inv s" "t_workers s t = Some w"
    and "pc \<in> {Finishing, Ended} \<or> live s t" "r = t_bRunning s \<or> live s t \<and> (r \<or> pc = Finishing)"
  shows "thread_inv (at_pc t w pc (s\<lparr>t_bRunning := r\<rparr>))"
proof -
  let ?s = "at_pc t w pc (s\<lparr>t_bRunning := r\<rparr>)"
  have l: "live s u" if "live ?s u" for u
    using that assms(3) by (auto split: if_splits)
  have o: "t_owner ?s = t_owner s" "t_nThreadID ?s = t_nThreadID s" "t_bQuitRequested ?s = t_bQuitRequested s"
    "t_bRunning ?s = r" "\<And>u. t_workers ?s u = None \<longleftrightarrow> t_workers s u = None"
    using assms(2) by (simp_all add: at_pc_def)
  have r: "r" if "live ?s u" for u
  proof -
    have "\<not> (pc = Finishing \<and> live s t)"
    proof
      assume f: "pc = Finishing \<and> live s t"
      then have "u \<noteq> t" using that by auto
      then show False using inv_live(1) [OF assms(1)] l [OF that] f by metis
    qed
    then show ?thesis using assms(4) inv_live(2) [OF assms(1) l [OF that]] by auto
  qed
  have run: "r \<and> may_live (t_owner s) \<longrightarrow> t_bRunning s" using assms(4) inv_live(2) [OF assms(1)] by blast
  have crt: "t_owner s = StartCreating False \<longrightarrow> r"
    using assms(1,4) inv_live(3) [OF assms(1), of t] by (auto simp: thread_inv_def may_live_def)
  have det: "\<forall>u v. t_workers ?s u = Some v \<longrightarrow> \<not> w_detached v"
    using assms(1,2) by (auto simp: at_pc_def thread_inv_def)
  show ?thesis
    using assms(1) l r run crt det unfolding thread_inv_def o by blast
qed

lemma thread_inv_worker:
  assumes "thread_inv s" "worker_goes t again s = Some s'"
  shows "thread_inv s'"
proof -
  obtain w where w: "t_workers s t = Some w" using assms(2) by (auto simp: worker_goes_def split: option.splits)
  have same: "thread_inv (at_pc t w pc s)" if "pc \<in> {Finishing, Ended} \<or> live s t" for pc
    using thread_inv_at [OF assms(1) w that, of "t_bRunning s"] by simp
  have d: "\<not> w_detached w" using assms(1) w by (simp add: thread_inv_def)
  show ?thesis
  proof (cases "w_pc w")
    case InFunction
    then show ?thesis using assms w same by (auto simp: worker_goes_def live_at split: if_splits)
  next
    case Entering
    then show ?thesis
      using assms w thread_inv_at [OF assms(1) w, of InFunction True] by (auto simp: worker_goes_def live_at)
  next
    case Returned
    then show ?thesis
      using assms w thread_inv_at [OF assms(1) w, of Finishing False] by (auto simp: worker_goes_def live_at)
  qed (use assms w same d in \<open>auto simp: worker_goes_def live_at\<close>)
qed

lemma thread_inv_step: "thread_inv s \<Longrightarrow> thread_step False s s' \<Longrightarrow> thread_inv s'"
  unfolding thread_step_iff thread_next_def
  by (elim exE conjE, rename_tac e, case_tac e)
    (auto intro: thread_inv_called thread_inv_start thread_inv_stop thread_inv_worker)

lemma reachable_inv: "thread_reachable False s \<Longrightarrow> thread_inv s"
  by (induction rule: thread_reachable.induct) (auto intro: thread_inv_new thread_inv_step)

end
