(* ===== verification/Moos_ThreadProps.thy ===== *)
theory Moos_ThreadProps
  imports Moos_Thread
begin

text \<open>What holds of a thread and its owner whatever the interleaving, and when \<open>Stop\<close> returns.\<close>

section \<open>Runs\<close>

lemma run_reachable:
  assumes "thread_run es s = Some s'" "thread_reachable detaching s" "Call (OwnerStart True) \<notin> set es \<or> detaching"
  shows "thread_reachable detaching s'"
  using assms
proof (induction es arbitrary: s)
  case (Cons e es)
  obtain s1 where s1: "thread_next e s = Some s1" "thread_run es s1 = Some s'"
    using Cons.prems(1) by (auto split: option.splits)
  have "thread_step detaching s s1" using s1(1) Cons.prems(3) by (auto simp: thread_step_iff)
  then show ?case using Cons.IH [OF s1(2) reach_step] Cons.prems(2,3) by auto
qed simp

section \<open>At most one thread\<close>

definition in_function :: "'f cthread \<Rightarrow> nat \<Rightarrow> bool" where
  "in_function s t \<longleftrightarrow> map_option w_pc (t_workers s t) = Some InFunction"

lemma in_function_live: "in_function s t \<Longrightarrow> live s t"
  by (auto simp: in_function_def live_def)

text \<open>C13: however the owner's calls and the threads it starts interleave, as long as it does not ask for
  detached threads (\<open>Start(true)\<close>, which no caller in the library does), the function is never run by
  two threads at once, and while one runs it the running flag is set.\<close>

theorem one_at_a_time:
  assumes "thread_reachable False s" "in_function s t" "in_function s u"
  shows "t = u \<and> t_bRunning s"
  using inv_live [OF reachable_inv [OF assms(1)] in_function_live] assms(2,3) by metis

text \<open>The events of a start and of the thread's way into its function.\<close>

definition started :: "nat \<Rightarrow> nat thread_event list" where
  "started t = [Call (OwnerStart False), StartGoes None, StartGoes None, StartGoes None, StartGoes (Some t),
     WorkerGoes t True, WorkerGoes t True]"

definition running_thread :: "nat cthread" where
  "running_thread = the (thread_run (Call (OwnerInitialise (Some 0)) # started 5) new_thread)"

lemmas thread_run_simps =
  started_def new_thread_def thread_next_def thread_called_def start_goes_def stop_goes_def join_thread_def
  worker_goes_def at_pc_def

lemma running_thread_is:
  "thread_run (Call (OwnerInitialise (Some 0)) # started 5) new_thread = Some running_thread"
  "t_workers running_thread = [5 \<mapsto> \<lparr>w_pc = InFunction, w_detached = False\<rparr>]"
  "t_owner running_thread = Idle" "t_bRunning running_thread"
  by (simp_all add: running_thread_def thread_run_simps)

lemma running_thread_reachable: "thread_reachable False running_thread"
  by (rule run_reachable [OF running_thread_is(1) reach_new]) (simp add: started_def)

theorem one_at_a_time_witness: "(5::nat) = 5 \<and> t_bRunning running_thread"
  by (rule one_at_a_time [OF running_thread_reachable, of 5 5])
    (simp_all add: in_function_def running_thread_is)

section \<open>Stopping\<close>

fun pc_rank :: "worker_pc \<Rightarrow> nat" where
  "pc_rank Created = 5"
| "pc_rank Entering = 4"
| "pc_rank InFunction = 3"
| "pc_rank Returned = 2"
| "pc_rank Finishing = 1"
| "pc_rank Ended = 0"

definition work_left :: "'f cthread \<Rightarrow> nat" where
  "work_left s = (\<Sum>t \<in> dom (t_workers s). pc_rank (w_pc (the (t_workers s t))))"

lemma work_left_at:
  assumes "finite (dom (t_workers s))" "t_workers s t = Some w"
  shows "work_left (at_pc t w pc s) + pc_rank (w_pc w) = work_left s + pc_rank pc"
proof -
  let ?r = "\<lambda>s u. pc_rank (w_pc (the (t_workers s u)))" and ?D = "dom (t_workers s)" and ?s = "at_pc t w pc s"
  have t: "t \<in> ?D" using assms(2) by auto
  have d: "dom (t_workers ?s) = ?D" using t by (auto simp: at_pc_def)
  have "(\<Sum>u \<in> ?D - {t}. ?r ?s u) = (\<Sum>u \<in> ?D - {t}. ?r s u)"
    by (rule sum.cong) (auto simp: at_pc_def)
  moreover have "?r ?s t = pc_rank pc" "?r s t = pc_rank (w_pc w)" using assms(2) by (simp_all add: at_pc_def)
  ultimately show ?thesis
    unfolding work_left_def d sum.remove [OF assms(1) t, of "?r ?s"] sum.remove [OF assms(1) t, of "?r s"] by simp
qed

lemma work_left_owner [simp]:
  "work_left (s\<lparr>t_owner := pc\<rparr>) = work_left s" "work_left (s\<lparr>t_bRunning := r\<rparr>) = work_left s"
  "work_left (s\<lparr>t_bQuitRequested := r\<rparr>) = work_left s" "work_left (s\<lparr>t_result := r\<rparr>) = work_left s"
  by (simp_all add: work_left_def)

lemma work_left_joined:
  assumes "finite (dom (t_workers s))"
  shows "work_left (s\<lparr>t_workers := (t_workers s)(t := None)\<rparr>) \<le> work_left s"
proof -
  let ?r = "\<lambda>m u. pc_rank (w_pc (the (m u)))" and ?W = "(t_workers s)(t := None)"
  have "(\<Sum>u \<in> dom ?W. ?r ?W u) = (\<Sum>u \<in> dom ?W. ?r (t_workers s) u)"
    by (rule sum.cong) auto
  also have "\<dots> \<le> (\<Sum>u \<in> dom (t_workers s). ?r (t_workers s) u)"
    by (rule sum_mono2) (use assms in auto)
  finally show ?thesis by (simp add: work_left_def)
qed

lemma reachable_finite: "thread_reachable detaching s \<Longrightarrow> finite (dom (t_workers s))"
proof (induction rule: thread_reachable.induct)
  case reach_new
  show ?case by (simp add: new_thread_def)
next
  case (reach_step s s')
  obtain e where "thread_next e s = Some s'" using reach_step.hyps(2) by (auto simp: thread_step_iff)
  then have "dom (t_workers s') \<subseteq> insert (t_nThreadID s') (dom (t_workers s)) \<or> t_workers s' = t_workers s
      \<or> (\<exists>t. dom (t_workers s') \<subseteq> insert t (dom (t_workers s)))"
    by (cases e)
      (auto simp: thread_next_def thread_called_def start_goes_def stop_goes_def join_thread_def worker_goes_def at_pc_def
        split: thread_call.splits owner_pc.splits option.splits worker_pc.splits if_splits)
  then show ?case using reach_step.IH by (metis finite_insert finite_subset)
qed

text \<open>What the owner has left to do in \<open>Stop\<close>.\<close>

fun stop_left :: "owner_pc \<Rightarrow> nat" where
  "stop_left StopCalled = 3"
| "stop_left StopQuitting = 2"
| "stop_left StopJoining = 1"
| "stop_left _ = 0"

definition in_stop :: "'f cthread \<Rightarrow> bool" where
  "in_stop s \<longleftrightarrow> t_owner s \<in> {StopCalled, StopQuitting, StopJoining, StopClearing}"

definition stop_rank :: "'f cthread \<Rightarrow> nat" where
  "stop_rank s = work_left s + stop_left (t_owner s)"

text \<open>A round of the function changes none of the flags. A step that does change something:\<close>

definition thread_moves :: "'f cthread \<Rightarrow> 'f cthread \<Rightarrow> bool" where
  "thread_moves s s' \<longleftrightarrow> thread_step False s s' \<and> s' \<noteq> s"

lemma worker_goes_less:
  assumes "worker_goes t again s = Some s'" "thread_inv s" "finite (dom (t_workers s))" and "\<not> again \<or> s' \<noteq> s"
  shows "work_left s' < work_left s \<and> t_owner s' = t_owner s"
proof -
  obtain w where w: "t_workers s t = Some w" using assms(1) by (auto simp: worker_goes_def split: option.splits)
  have d: "\<not> w_detached w" using assms(2) w by (simp add: thread_inv_def)
  have at: "work_left (at_pc t w pc (s\<lparr>t_bRunning := r\<rparr>)) + pc_rank (w_pc w) = work_left s + pc_rank pc" for pc r
    using work_left_at [of "s\<lparr>t_bRunning := r\<rparr>" t w pc] assms(3) w by simp
  have at': "work_left (at_pc t w pc s) + pc_rank (w_pc w) = work_left s + pc_rank pc" for pc
    using work_left_at [OF assms(3) w] .
  have o: "t_owner (at_pc t w pc u) = t_owner u" for pc u by (simp add: at_pc_def)
  show ?thesis
    using assms(1,4) w d at [of InFunction True] at [of Finishing False] at' [of Finishing] at' [of Entering] at' [of Returned] at' [of Ended]
    by (cases "w_pc w") (auto simp: worker_goes_def o split: if_splits)
qed

lemma stop_step:
  assumes "thread_moves s s'" "thread_inv s" "finite (dom (t_workers s))" and "in_stop s"
  shows "t_owner s' = Idle \<and> t_result s' \<and> \<not> t_bRunning s' \<or> in_stop s' \<and> stop_rank s' < stop_rank s"
proof -
  obtain e where e: "thread_next e s = Some s'" using assms(1) by (auto simp: thread_moves_def thread_step_iff)
  show ?thesis
  proof (cases e)
    case (WorkerGoes t again)
    then show ?thesis
      using worker_goes_less [of t again s s'] e assms by (auto simp: thread_next_def stop_rank_def thread_moves_def in_stop_def)
  next
    case StopGoes
    have l: "work_left (s\<lparr>t_workers := (t_workers s)(t_nThreadID s := None)\<rparr>) \<le> work_left s"
      by (rule work_left_joined [OF assms(3)])
    have "work_left u < Suc (work_left s)" if "join_thread s = Some u" for u
      using that l by (auto simp: join_thread_def split: option.splits if_splits)
    then show ?thesis
      using StopGoes e assms(4) by (auto simp: thread_next_def stop_goes_def stop_rank_def in_stop_def split: if_splits)
  qed (use e assms(4) in \<open>auto simp: thread_next_def thread_called_def start_goes_def in_stop_def\<close>)
qed

lemma stop_not_stuck:
  assumes "thread_inv s" "finite (dom (t_workers s))" "in_stop s"
  shows "\<exists>s'. thread_moves s s'"
proof (cases "t_owner s = StopJoining")
  case False
  then obtain s' where "thread_next StopGoes s = Some s'" "t_owner s' \<noteq> t_owner s"
    using assms(3) by (auto simp: thread_next_def stop_goes_def in_stop_def)
  then show ?thesis by (auto simp: thread_moves_def thread_step_iff)
next
  case o: True
  then obtain w where w: "t_workers s (t_nThreadID s) = Some w"
    using assms(1) by (auto simp: thread_inv_def stopping_def)
  show ?thesis
  proof (cases "w_pc w = Ended")
    case True
    have "thread_next StopGoes s \<noteq> None"
      using o w True by (simp add: thread_next_def stop_goes_def join_thread_def)
    then obtain s' where s': "thread_next StopGoes s = Some s'" by blast
    then have "t_owner s' = StopClearing" using o by (auto simp: thread_next_def stop_goes_def)
    with o s' show ?thesis by (auto simp: thread_moves_def thread_step_iff)
  next
    case False
    have "worker_goes (t_nThreadID s) False s \<noteq> None"
      using w False by (cases "w_pc w") (simp_all add: worker_goes_def)
    then obtain s' where s': "worker_goes (t_nThreadID s) False s = Some s'" by blast
    then have "work_left s' < work_left s" using worker_goes_less [OF _ assms(1,2)] by blast
    then have "s' \<noteq> s" by auto
    moreover have "thread_next (WorkerGoes (t_nThreadID s) False) s = Some s'" using s' by (simp add: thread_next_def)
    ultimately show ?thesis unfolding thread_moves_def thread_step_iff by blast
  qed
qed

text \<open>\<open>Stop\<close> has returned, as it should.\<close>

definition stopped :: "'f cthread \<Rightarrow> bool" where
  "stopped s \<longleftrightarrow> t_owner s = Idle \<and> t_result s \<and> \<not> t_bRunning s \<and> \<not> (\<exists>t. live s t)"

lemma stop_ends:
  assumes "thread_reachable False s" "in_stop s" "thread_moves s s'"
  shows "thread_reachable False s' \<and> (stopped s' \<or> in_stop s' \<and> stop_rank s' < stop_rank s)"
proof -
  have i: "thread_inv s" and f: "finite (dom (t_workers s))"
    using assms(1) by (rule reachable_inv, rule reachable_finite)
  have r: "thread_reachable False s'" using assms(3) by (auto simp: thread_moves_def intro: reach_step [OF assms(1)])
  from stop_step [OF assms(3) i f assms(2)] show ?thesis
    using r inv_live(2) [OF reachable_inv [OF r]] by (auto simp: stopped_def)
qed

text \<open>Once it has requested to quit, the function goes for no further round, and every step counts.\<close>

definition joining :: "'f cthread \<Rightarrow> bool" where
  "joining s \<longleftrightarrow> t_owner s \<in> {StopJoining, StopClearing} \<and> t_bQuitRequested s"

lemma worker_goes_frame:
  assumes "worker_goes t again s = Some s'"
  shows "t_owner s' = t_owner s \<and> t_bQuitRequested s' = t_bQuitRequested s"
proof -
  obtain w where "t_workers s t = Some w" using assms by (auto simp: worker_goes_def split: option.splits)
  with assms show ?thesis by (cases "w_pc w") (auto simp: worker_goes_def at_pc_def split: if_splits)
qed

lemma asking_step:
  assumes "thread_step False s s'" "t_owner s \<in> {StopCalled, StopQuitting}"
  shows "t_owner s' \<noteq> StopClearing"
proof -
  obtain e where e: "thread_next e s = Some s'" using assms(1) by (auto simp: thread_step_iff)
  show ?thesis
  proof (cases e)
    case (WorkerGoes t again)
    then have "worker_goes t again s = Some s'" using e by (simp add: thread_next_def)
    from worker_goes_frame [OF this] show ?thesis using assms(2) by auto
  qed (use e assms(2) in \<open>auto simp: thread_next_def thread_called_def start_goes_def stop_goes_def split: if_splits\<close>)
qed

lemma joining_step:
  assumes "thread_reachable False s" "joining s" "thread_step False s s'"
  shows "thread_moves s s' \<and> (t_owner s' = Idle \<or> joining s')"
proof -
  have i: "thread_inv s" and f: "finite (dom (t_workers s))"
    using assms(1) by (rule reachable_inv, rule reachable_finite)
  obtain e where e: "thread_next e s = Some s'" using assms(3) by (auto simp: thread_step_iff)
  have "s' \<noteq> s \<and> (t_owner s' = Idle \<or> joining s')"
  proof (cases e)
    case (WorkerGoes t again)
    then have g: "worker_goes t again s = Some s'" using e by (simp add: thread_next_def)
    then obtain w where w: "t_workers s t = Some w" by (auto simp: worker_goes_def split: option.splits)
    have g': "worker_goes t False s = Some s'"
      using g w assms(2) by (cases "w_pc w") (simp_all add: worker_goes_def joining_def split: if_splits)
    then have "work_left s' < work_left s \<and> t_owner s' = t_owner s" using worker_goes_less [OF _ i f] by blast
    moreover have "t_bQuitRequested s' = t_bQuitRequested s" using worker_goes_frame [OF g] by simp
    ultimately show ?thesis using assms(2) by (auto simp: joining_def)
  next
    case StopGoes
    then show ?thesis using e assms(2)
      by (auto simp: thread_next_def stop_goes_def joining_def join_thread_def split: option.splits if_splits
          dest!: arg_cong [of _ _ t_owner])
  qed (use e assms(2) in \<open>auto simp: thread_next_def thread_called_def start_goes_def joining_def\<close>)
  then show ?thesis using assms(3) by (simp add: thread_moves_def)
qed

lemma joining_returns: "thread_reachable False s \<Longrightarrow> joining s \<Longrightarrow> eventually_in (thread_step False) stopped s"
proof (induction "stop_rank s" arbitrary: s rule: less_induct)
  case less
  have st: "in_stop s" using less.prems(2) by (auto simp: joining_def in_stop_def)
  obtain s0 where "thread_step False s s0"
    using stop_not_stuck [OF reachable_inv reachable_finite st] less.prems(1) by (auto simp: thread_moves_def)
  then show ?case
  proof (rule ev_later [where step = "thread_step False"])
    fix s' assume "thread_step False s s'"
    from joining_step [OF less.prems this] have m: "thread_moves s s'" "t_owner s' = Idle \<or> joining s'" by auto
    from stop_ends [OF less.prems(1) st m(1)] m(2) show "eventually_in (thread_step False) stopped s'"
      using less.hyps [of s'] by (auto intro: ev_now simp: in_stop_def)
  qed
qed

text \<open>C12: a call of \<open>Stop\<close>, from its start, returns true, and when it returns the running flag is clear and
  no thread is in the function or on its way there. On every interleaving with the thread it stops,
  \<open>Stop\<close> comes to the point where it has requested the thread to quit, or returns because there is
  none; here only steps that change something count, as the function may go for any number of rounds
  while the owner does nothing. From that point on it returns on every interleaving at all, for the
  thread gets through \<open>Stop\<close>'s wait without another round. No state on the way is stuck. This is for
  a function that polls for a request to quit and rounds of it that end, and for an owner that does
  not ask for detached threads.\<close>

theorem stop_returns:
  assumes "thread_reachable False s" "t_owner s = StopCalled"
  shows "eventually_in thread_moves
    (\<lambda>s. stopped s \<or> t_owner s = StopJoining \<and> eventually_in (thread_step False) stopped s) s"
proof -
  let ?P = "\<lambda>s :: 'a cthread. stopped s \<or> t_owner s = StopJoining \<and> eventually_in (thread_step False) stopped s"
  have "eventually_in thread_moves ?P s"
    if "thread_reachable False s" "t_owner s \<in> {StopCalled, StopQuitting, StopJoining}" for s :: "'a cthread"
    using that
  proof (induction "stop_rank s" arbitrary: s rule: less_induct)
    case less
    note r = less.prems(1)
    show ?case
    proof (cases "t_owner s = StopJoining")
      case True
      then have "joining s" using reachable_inv [OF r] by (simp add: joining_def thread_inv_def)
      then show ?thesis using joining_returns [OF r] True by (auto intro: ev_now)
    next
      case False
      then have st: "in_stop s" using less.prems(2) by (auto simp: in_stop_def)
      obtain s0 where "thread_moves s s0"
        using stop_not_stuck [OF reachable_inv [OF r] reachable_finite [OF r] st] by auto
      then show ?thesis
      proof (rule ev_later [where step = thread_moves])
        fix s' assume m: "thread_moves s s'"
        then have "t_owner s' \<noteq> StopClearing"
          using False less.prems(2) by (intro asking_step [of s]) (auto simp: thread_moves_def)
        with stop_ends [OF r st m] show "eventually_in thread_moves ?P s'"
          using less.hyps [of s'] by (auto intro: ev_now simp: in_stop_def)
      qed
    qed
  qed
  then show ?thesis using assms by simp
qed

definition stopping_thread :: "nat cthread" where
  "stopping_thread = the (thread_run [Call OwnerStop] running_thread)"

lemma stopping_thread_is:
  "thread_run [Call OwnerStop] running_thread = Some stopping_thread"
  "t_owner stopping_thread = StopCalled"
  by (simp_all add: stopping_thread_def thread_run_simps running_thread_is)

theorem stop_returns_witness:
  "eventually_in thread_moves
    (\<lambda>s. stopped s \<or> t_owner s = StopJoining \<and> eventually_in (thread_step False) stopped s) stopping_thread"
  by (rule stop_returns [OF run_reachable [OF stopping_thread_is(1) running_thread_reachable] stopping_thread_is(2)])
    simp

section \<open>What can go wrong\<close>

text \<open>A detached thread cannot be joined: \<open>Stop\<close> says that it has stopped, and the next start puts a
  second thread into the function.\<close>

lemma detached_threads_overlap:
  "\<exists>s. thread_reachable True (s :: nat cthread) \<and> in_function s 5 \<and> in_function s 6"
proof -
  let ?go = "[Call (OwnerStart True), StartGoes None, StartGoes None, StartGoes None]"
  let ?es = "[Call (OwnerInitialise (Some 0))] @ ?go @ [StartGoes (Some 5), WorkerGoes 5 True, WorkerGoes 5 True]
      @ [Call OwnerStop, StopGoes, StopGoes, StopGoes, StopGoes]
      @ ?go @ [StartGoes (Some 6), WorkerGoes 6 True, WorkerGoes 6 True]"
  have "\<exists>s. thread_run ?es (new_thread :: nat cthread) = Some s \<and> in_function s 5 \<and> in_function s 6"
    by (simp add: thread_run_simps in_function_def)
  then show ?thesis using run_reachable [OF _ reach_new, of ?es _ True] by blast
qed

text \<open>Without a function the thread ends at once and the running flag stays set.\<close>

lemma no_function_runs_on:
  "\<exists>s. thread_reachable False (s :: nat cthread) \<and> t_owner s = Idle \<and> t_bRunning s \<and> \<not> (\<exists>t. live s t)"
proof -
  let ?es = "[Call (OwnerStart False), StartGoes None, StartGoes None, StartGoes None, StartGoes (Some 5),
     WorkerGoes 5 True, WorkerGoes 5 True]"
  have "\<exists>s. thread_run ?es (new_thread :: nat cthread) = Some s \<and> t_owner s = Idle \<and> t_bRunning s \<and> \<not> (\<exists>t. live s t)"
    by (simp add: thread_run_simps live_def)
  then show ?thesis using run_reachable [OF _ reach_new, of ?es _ False] by auto
qed

text \<open>A thread whose function ends by itself is never joined: the next start forgets it.\<close>

lemma ended_never_joined:
  "\<exists>s. thread_reachable False (s :: nat cthread) \<and> t_owner s = Idle \<and> t_nThreadID s = 6
     \<and> map_option w_pc (t_workers s 5) = Some Ended"
proof -
  let ?es = "[Call (OwnerInitialise (Some 0))] @ started 5 @ [WorkerGoes 5 False, WorkerGoes 5 False, WorkerGoes 5 False]
     @ started 6"
  have "\<exists>s. thread_run ?es (new_thread :: nat cthread) = Some s \<and> t_owner s = Idle \<and> t_nThreadID s = 6
     \<and> map_option w_pc (t_workers s 5) = Some Ended"
    by (simp add: thread_run_simps)
  then show ?thesis using run_reachable [OF _ reach_new, of ?es _ False] by (auto simp: started_def)
qed

end
