(* ===== verification/Moos_Periodic.thy ===== *)
theory Moos_Periodic
  imports Moos_ThreadProps Moos_App
begin

text \<open>
  An event that calls a function of the user again and again (\<open>Utils/PeriodicEvent.cpp\<close>), in a
  thread of its own (\<open>Moos_Thread\<close>).

  \<^item> The state the callback changes is a type variable. Each turn of the loop is given what it reads
    from the clock and from the request to quit.
\<close>

section \<open>State\<close>

type_synonym ('p, 's) event_callback = "real \<Rightarrow> real \<Rightarrow> real \<Rightarrow> 'p option \<Rightarrow> 's \<Rightarrow> bool \<times> 's"

record ('p, 's) periodic_event =
  pe_pfn :: "('p, 's) event_callback"
  pe_pParamCaller :: "'p option"
  pe_Period :: real

text \<open>The default callback prints the times.\<close>

definition DefaultCallback :: "('p, 's) event_callback" where
  "DefaultCallback TimeNow TimeLastRun TimeScheduled pParamCaller s = (True, s)"

definition new_periodic_event :: "('p, 's) periodic_event" where
  "new_periodic_event = \<lparr>pe_pfn = DefaultCallback, pe_pParamCaller = None, pe_Period = 1\<rparr>"

text \<open>The parameter of the caller is not kept.\<close>

definition SetEventCallback ::
  "('p, 's) event_callback \<Rightarrow> 'p option \<Rightarrow> ('p, 's) periodic_event \<Rightarrow> ('p, 's) periodic_event" where
  "SetEventCallback pfn pCallerParam E = E\<lparr>pe_pfn := pfn\<rparr>"

definition SetPeriod :: "real \<Rightarrow> ('p, 's) periodic_event \<Rightarrow> bool \<times> ('p, 's) periodic_event" where
  "SetPeriod PeriodSeconds E =
     (if PeriodSeconds < 0 then (False, E) else (True, E\<lparr>pe_Period := PeriodSeconds\<rparr>))"

text \<open>The calls that \<open>Start\<close> makes to its thread; none and \<open>False\<close> when it runs already.\<close>

definition StartEvent :: "'f \<Rightarrow> 'f cthread \<Rightarrow> bool \<times> 'f thread_call list" where
  "StartEvent fn s =
     (if t_bRunning s then (False, []) else (True, [OwnerInitialise (Some fn), OwnerStart False]))"

section \<open>The loop\<close>

record event_turn =
  et_quit :: bool
  et_sleep_from :: real
  et_now :: real
  et_called :: real

definition sleep_ms :: "real \<Rightarrow> int" where
  "sleep_ms x = trunc (x * 1000)"

text \<open>The pauses and the times of the calls, and the state after them. The loop ends on a request to
  quit or when the callback refuses; \<open>None\<close> is a loop that goes on after the turns given.\<close>

fun PeriodicWork ::
  "('p, 's) periodic_event \<Rightarrow> event_turn list \<Rightarrow> real \<Rightarrow> 's \<Rightarrow> (int option \<times> real \<times> real) list \<times> 's \<times> bool option" where
  "PeriodicWork E [] TimeLast s = ([], s, None)"
| "PeriodicWork E (t # ts) TimeLast s =
     (if et_quit t then ([], s, Some True)
      else (let TimeScheduled = TimeLast + pe_Period E;
                MillisecondsSleep = sleep_ms (TimeScheduled - et_sleep_from t);
                pause = (if MillisecondsSleep > 0 then Some MillisecondsSleep else None);
                TimeNow = et_now t;
                (ok, s) = pe_pfn E (et_called t) TimeLast TimeScheduled (pe_pParamCaller E) s
            in if \<not> ok then ([(pause, TimeNow, TimeScheduled)], s, Some True)
               else (let (l, r) = PeriodicWork E ts TimeNow s in ((pause, TimeNow, TimeScheduled) # l, r))))"

section \<open>On time\<close>

text \<open>A turn that keeps its pause, wakes up at most \<open>late\<close> seconds after it, and whose last callback took less
  than the period.\<close>

definition prompt_turn :: "real \<Rightarrow> real \<Rightarrow> real \<Rightarrow> event_turn \<Rightarrow> bool" where
  "prompt_turn period late TimeLast t \<longleftrightarrow>
     (let ms = sleep_ms (TimeLast + period - et_sleep_from t);
          woken = et_sleep_from t + (if ms > 0 then of_int ms / 1000 else 0)
      in TimeLast \<le> et_sleep_from t \<and> et_sleep_from t < TimeLast + period
         \<and> woken \<le> et_now t \<and> et_now t \<le> woken + late)"

fun prompt_turns :: "real \<Rightarrow> real \<Rightarrow> real \<Rightarrow> event_turn list \<Rightarrow> bool" where
  "prompt_turns period late TimeLast [] \<longleftrightarrow> True"
| "prompt_turns period late TimeLast (t # ts) \<longleftrightarrow>
     prompt_turn period late TimeLast t \<and> prompt_turns period late (et_now t) ts"

lemma sleep_ms_close:
  assumes "0 < x" "x * 1000 < 2 ^ 31"
  shows "x - 1 / 1000 < of_int (sleep_ms x) / 1000" "of_int (sleep_ms x) / 1000 \<le> x" "0 \<le> sleep_ms x"
proof -
  have "\<lfloor>x * 1000\<rfloor> < 2 ^ 31" "0 \<le> \<lfloor>x * 1000\<rfloor>" using assms by (auto simp: floor_less_iff)
  then have s: "sleep_ms x = \<lfloor>x * 1000\<rfloor>" using assms(1) by (simp add: sleep_ms_def trunc_def Let_def)
  have "x * 1000 < of_int \<lfloor>x * 1000\<rfloor> + 1" "of_int \<lfloor>x * 1000\<rfloor> \<le> x * 1000" by linarith+
  then show "x - 1 / 1000 < of_int (sleep_ms x) / 1000" "of_int (sleep_ms x) / 1000 \<le> x"
    unfolding s by (simp_all add: field_simps)
  show "0 \<le> sleep_ms x" using s \<open>0 \<le> \<lfloor>x * 1000\<rfloor>\<close> by simp
qed

lemma prompt_now:
  assumes "prompt_turn period late TimeLast t" "period * 1000 < 2 ^ 31"
  shows "TimeLast + period - 1 / 1000 < et_now t" "et_now t \<le> TimeLast + period + late"
proof -
  let ?x = "TimeLast + period - et_sleep_from t"
  have x: "0 < ?x" "?x * 1000 < 2 ^ 31" using assms by (auto simp: prompt_turn_def Let_def)
  note c = sleep_ms_close [OF x]
  have w: "et_sleep_from t + of_int (sleep_ms ?x) / 1000 \<le> et_now t" "et_now t \<le> et_sleep_from t + of_int (sleep_ms ?x) / 1000 + late"
    using assms(1) c(3) by (auto simp: prompt_turn_def Let_def split: if_splits)
  show "TimeLast + period - 1 / 1000 < et_now t" using w(1) c(1) by linarith
  show "et_now t \<le> TimeLast + period + late" using w(2) c(2) by linarith
qed

text \<open>while the callbacks take less than the period, the next call comes a period after the last, at most
  a millisecond early and as late as the pause lasts too long; the k-th call drifts by k times that.\<close>

theorem called_on_time:
  assumes "prompt_turns (pe_Period E) late TimeStart ts" "pe_Period E * 1000 < 2 ^ 31" "0 \<le> late"
    and "k < length (fst (PeriodicWork E ts TimeStart s))"
  shows "let now = fst (snd (fst (PeriodicWork E ts TimeStart s) ! k))
         in TimeStart + real (k + 1) * (pe_Period E - 1 / 1000) < now
            \<and> now \<le> TimeStart + real (k + 1) * (pe_Period E + late)"
  using assms
proof (induction ts arbitrary: TimeStart s k)
  case (Cons t ts)
  have p: "prompt_turn (pe_Period E) late TimeStart t" "prompt_turns (pe_Period E) late (et_now t) ts"
    using Cons.prems(1) by simp_all
  note n = prompt_now [OF p(1) Cons.prems(2)]
  show ?case
  proof (cases k)
    case 0
    then show ?thesis using n Cons.prems(4) by (auto simp: Let_def case_prod_unfold split: if_splits)
  next
    case (Suc j)
    obtain s' where s': "fst (PeriodicWork E (t # ts) TimeStart s) ! k = fst (PeriodicWork E ts (et_now t) s') ! j"
      "j < length (fst (PeriodicWork E ts (et_now t) s'))"
      using Cons.prems(4) Suc by (auto simp: Let_def case_prod_unfold split: if_splits)
    let ?now = "fst (snd (fst (PeriodicWork E ts (et_now t) s') ! j))"
    have "et_now t + real (j + 1) * (pe_Period E - 1 / 1000) < ?now"
      "?now \<le> et_now t + real (j + 1) * (pe_Period E + late)"
      using Cons.IH [OF p(2) Cons.prems(2,3) s'(2)] by (simp_all add: Let_def)
    then have "TimeStart + ((pe_Period E - 1 / 1000) + real (j + 1) * (pe_Period E - 1 / 1000)) < ?now"
      "?now \<le> TimeStart + ((pe_Period E + late) + real (j + 1) * (pe_Period E + late))"
      using n by (simp_all only: add.assoc [symmetric])
    moreover have "real (k + 1) * c = c + real (j + 1) * c" for c by (simp add: Suc algebra_simps)
    ultimately have "TimeStart + real (k + 1) * (pe_Period E - 1 / 1000) < ?now"
      "?now \<le> TimeStart + real (k + 1) * (pe_Period E + late)" by (simp_all only:)
    then show ?thesis by (simp only: Let_def s'(1))
  qed
qed simp

definition half_second :: "(nat, nat) periodic_event" where
  "half_second = snd (SetPeriod (1 / 2) (SetEventCallback (\<lambda>now last sched p n. (True, n + 1)) (Some 7) new_periodic_event))"

definition two_turns :: "event_turn list" where
  "two_turns = [\<lparr>et_quit = False, et_sleep_from = 1 / 10, et_now = 1 / 2, et_called = 1 / 2\<rparr>,
                \<lparr>et_quit = False, et_sleep_from = 6 / 10, et_now = 1001 / 1000, et_called = 1001 / 1000\<rparr>]"

lemma sleep_400: "sleep_ms (2 / 5) = 400"
  by (simp add: sleep_ms_def trunc_def Let_def)

theorem called_on_time_witness:
  "let now = fst (snd (fst (PeriodicWork half_second two_turns 0 0) ! 1))
   in 0 + real (1 + 1) * (pe_Period half_second - 1 / 1000) < now
      \<and> now \<le> 0 + real (1 + 1) * (pe_Period half_second + 1 / 100)"
proof (rule called_on_time)
  have p: "pe_Period half_second = 1 / 2"
    by (simp add: half_second_def SetPeriod_def SetEventCallback_def)
  show "prompt_turns (pe_Period half_second) (1 / 100) 0 two_turns"
    unfolding p by (simp add: two_turns_def prompt_turn_def Let_def sleep_400)
  show "pe_Period half_second * 1000 < 2 ^ 31" by (simp add: p)
  show "1 < length (fst (PeriodicWork half_second two_turns 0 0))"
    by (simp add: two_turns_def half_second_def SetPeriod_def SetEventCallback_def Let_def case_prod_unfold)
qed simp

text \<open>The parameter given with the callback never reaches it.\<close>

lemma parameter_lost: "pe_pParamCaller (SetEventCallback pfn (Some p) new_periodic_event) = None"
  by (simp add: SetEventCallback_def new_periodic_event_def)

end
