(* ===== verification/Moos_Atm.thy ===== *)
theory Moos_Atm
  imports Moos_Audit Moos_App
begin

text \<open>
  The application \<open>atm\<close> (\<open>src/Core/tools/atm/atm.cpp\<close>): it listens to the records that clients send of
  the way of each message (\<open>Comms/EndToEndAudit.cpp\<close>), logs those that took long, and keeps the
  bandwidth of every flow of messages.

  \<^item> Times are 64-bit counts of microseconds, taken as integers. A division by zero, from which the
    program goes on with an average that is infinite or no number, is \<open>None\<close>.
  \<^item> The log is the list of its lines. Of what goes to the console only the statistics are modelled.
\<close>

section \<open>Flows\<close>

record atm_stat =
  average_bandwidth :: real
  flow_source :: string
  flow_destination :: string
  flow_name :: string
  last_write_time :: int

type_synonym atm_stats = "(string, atm_stat) omap"

definition atm_key :: "message_statistic \<Rightarrow> string" where
  "atm_key ms = message_name ms @ '':'' @ source_client ms @ '':'' @ destination_client ms"

definition kBandwidthFIRConstant :: real where "kBandwidthFIRConstant = 1 / 100"

definition update_flow :: "message_statistic \<Rightarrow> atm_stat option \<Rightarrow> atm_stat option" where
  "update_flow ms q =
     (case q of
        None \<Rightarrow> Some \<lparr>average_bandwidth = 0, flow_source = source_client ms,
                     flow_destination = destination_client ms, flow_name = message_name ms,
                     last_write_time = receive_time ms\<rparr>
      | Some stat \<Rightarrow>
          (let dt = receive_time ms - last_write_time stat + 1 in
           if dt = 0 then None
           else (let point_estimate_bandwidth = 10 ^ 6 * of_int (message_size ms) / of_int dt
                 in Some (stat\<lparr>last_write_time := receive_time ms,
                      average_bandwidth := (1 - kBandwidthFIRConstant) * average_bandwidth stat
                        + kBandwidthFIRConstant * point_estimate_bandwidth\<rparr>))))"

definition AccummulateStatistic :: "message_statistic \<Rightarrow> atm_stats \<Rightarrow> atm_stats option" where
  "AccummulateStatistic ms st =
     (let key = atm_key ms in map_option (\<lambda>s. map_set key s st) (update_flow ms (map_of st key)))"

section \<open>Printing\<close>

definition FormatBytes :: "int \<Rightarrow> string" where
  "FormatBytes n =
     (if n = 0 then show_int n
      else if n > 2 ^ 30 then show_int (n div 2 ^ 30) @ '' GB/s''
      else if n > 2 ^ 20 then show_int (n div 2 ^ 20) @ '' MB/s''
      else if n > 2 ^ 10 then show_int (n div 2 ^ 10) @ '' kB/s''
      else '' B/s'')"

text \<open>The width asked for the name goes to the quotation mark before it.\<close>

definition statistic_line :: "atm_stat \<Rightarrow> string" where
  "statistic_line q =
     setw 8 (FormatBytes (trunc (average_bandwidth q))) @ '' '' @ setw 15 [CHR 0x22] @ flow_name q @ [CHR 0x22]
     @ '' from '' @ flow_source q @ '' to '' @ flow_destination q @ [CHR 0x0A]"

definition sort_on_bw :: "atm_stat list \<Rightarrow> atm_stat list" where
  "sort_on_bw = sort_key (\<lambda>a. - average_bandwidth a)"

definition PrintStatistics :: "atm_stats \<Rightarrow> string list" where
  "PrintStatistics st = map statistic_line (sort_on_bw (map snd st))"

section \<open>The log\<close>

definition setw_left :: "nat \<Rightarrow> string \<Rightarrow> string" where
  "setw_left w s = s @ replicate (w - length s) CHR '' ''"

definition WriteHeader :: string where
  "WriteHeader =
     setw_left 15 ''%delay(uS)'' @ '','' @ setw_left 15 ''name'' @ '','' @ setw_left 15 ''src'' @ '','' @
     setw_left 15 ''dest'' @ '','' @ setw_left 20 ''rx_time'' @ '','' @ setw_left 15 ''cpu_load'' @ [CHR 0x0A]"

definition LogToFile :: "message_statistic \<Rightarrow> string" where
  "LogToFile ms =
     setw_left 15 (show_int (receive_time ms - source_time ms)) @ '','' @ setw_left 15 (message_name ms) @ '','' @
     setw_left 15 (source_client ms) @ '','' @ setw_left 15 (destination_client ms) @ '','' @
     setw_left 20 (show_int (receive_time ms)) @ '','' @ setw_left 15 (show_g (cpu_load ms)) @ [CHR 0x0A]"

definition ShouldBeLogged :: "message_statistic \<Rightarrow> int \<Rightarrow> bool" where
  "ShouldBeLogged ms ignore_delays_below \<longleftrightarrow> \<not> receive_time ms - source_time ms < ignore_delays_below"

section \<open>The loop of the program\<close>

record atm =
  at_stats :: atm_stats
  at_log :: "string list"
  at_rxed :: nat
  at_logged :: nat
  at_average_latency_us :: real
  at_last_display_time :: real

definition new_atm :: "bool \<Rightarrow> real \<Rightarrow> atm" where
  "new_atm logging now =
     \<lparr>at_stats = [], at_log = (if logging then [WriteHeader] else []), at_rxed = 0, at_logged = 0,
      at_average_latency_us = 0, at_last_display_time = now\<rparr>"

text \<open>A record that arrived: \<open>junk\<close> is what the fields of an uninitialised record hold.\<close>

definition atm_rx :: "bool \<Rightarrow> int \<Rightarrow> message_statistic \<Rightarrow> string \<Rightarrow> atm \<Rightarrow> atm option" where
  "atm_rx logging ignore_delay_below_us junk sReply m =
     (let ms = MessageStatistic_FromString sReply junk;
          latency = receive_time ms - source_time ms;
          m = m\<lparr>at_rxed := at_rxed m + 1,
                at_average_latency_us := 1 / 100 * of_int latency + (1 - 1 / 100) * at_average_latency_us m\<rparr>;
          m = (if ShouldBeLogged ms ignore_delay_below_us \<and> logging
               then m\<lparr>at_log := at_log m @ [LogToFile ms], at_logged := at_logged m + 1\<rparr> else m)
      in map_option (\<lambda>st. m\<lparr>at_stats := st\<rparr>) (AccummulateStatistic ms (at_stats m)))"

text \<open>A turn: what \<open>Read\<close> gives and the readings of the clock; what is displayed.\<close>

definition atm_turn ::
  "bool \<Rightarrow> int \<Rightarrow> message_statistic \<Rightarrow> string option \<times> real \<times> real \<Rightarrow> atm \<Rightarrow> (string list \<times> atm) option" where
  "atm_turn logging ignore junk x m =
     (case x of (sReply, t1, t2) \<Rightarrow>
        map_option (\<lambda>m. if t1 - at_last_display_time m > 3
                        then (PrintStatistics (at_stats m), m\<lparr>at_last_display_time := t2\<rparr>) else ([], m))
          (case sReply of None \<Rightarrow> Some m | Some s \<Rightarrow> atm_rx logging ignore junk s m))"

fun atm_loop ::
  "bool \<Rightarrow> int \<Rightarrow> message_statistic \<Rightarrow> (string option \<times> real \<times> real) list \<Rightarrow> atm \<Rightarrow> (string list \<times> atm) option" where
  "atm_loop logging ignore junk [] m = Some ([], m)"
| "atm_loop logging ignore junk (x # xs) m =
     (case atm_turn logging ignore junk x m of
        None \<Rightarrow> None
      | Some (l, m) \<Rightarrow> map_option (\<lambda>(l', m). (l @ l', m)) (atm_loop logging ignore junk xs m))"

section \<open>Flows are kept apart\<close>

fun accumulate_all :: "message_statistic list \<Rightarrow> atm_stats \<Rightarrow> atm_stats option" where
  "accumulate_all [] st = Some st"
| "accumulate_all (ms # mss) st =
     (case AccummulateStatistic ms st of None \<Rightarrow> None | Some st \<Rightarrow> accumulate_all mss st)"

fun flow_run :: "message_statistic list \<Rightarrow> atm_stat option \<Rightarrow> atm_stat option option" where
  "flow_run [] q = Some q"
| "flow_run (ms # mss) q = (case update_flow ms q of None \<Rightarrow> None | Some s \<Rightarrow> flow_run mss (Some s))"

lemma flows_apart:
  "accumulate_all mss st = Some st' \<Longrightarrow> flow_run (filter (\<lambda>ms. atm_key ms = k) mss) (map_of st k) = Some (map_of st' k)"
proof (induction mss arbitrary: st)
  case (Cons ms mss)
  then obtain s where "update_flow ms (map_of st (atm_key ms)) = Some s"
    "accumulate_all mss (map_set (atm_key ms) s st) = Some st'"
    by (auto simp: AccummulateStatistic_def Let_def split: option.splits)
  with Cons.IH [of "map_set (atm_key ms) s st"] show ?case by (auto split: if_splits)
qed simp

text \<open>With times that do not go back no division fails, and the averages stay within the bandwidth of
  the largest message in a microsecond.\<close>

definition flow_ok :: "int \<Rightarrow> int \<Rightarrow> atm_stats \<Rightarrow> bool" where
  "flow_ok S t st \<longleftrightarrow> (\<forall>k s. map_of st k = Some s \<longrightarrow>
     last_write_time s \<le> t \<and> 0 \<le> average_bandwidth s \<and> average_bandwidth s \<le> 10 ^ 6 * of_int S)"

lemma fir_bounds:
  "0 \<le> x \<Longrightarrow> x \<le> B \<Longrightarrow> 0 \<le> y \<Longrightarrow> y \<le> B \<Longrightarrow>
   0 \<le> (1 - kBandwidthFIRConstant) * x + kBandwidthFIRConstant * y"
  "0 \<le> x \<Longrightarrow> x \<le> B \<Longrightarrow> 0 \<le> y \<Longrightarrow> y \<le> B \<Longrightarrow>
   (1 - kBandwidthFIRConstant) * x + kBandwidthFIRConstant * y \<le> B"
  by (simp_all add: kBandwidthFIRConstant_def)

lemma update_flow_ok:
  assumes "\<forall>s. q = Some s \<longrightarrow> last_write_time s \<le> t \<and> 0 \<le> average_bandwidth s \<and> average_bandwidth s \<le> 10 ^ 6 * of_int S"
    and "t \<le> receive_time ms" "0 \<le> message_size ms" "message_size ms \<le> S"
  shows "\<exists>s. update_flow ms q = Some s \<and> last_write_time s \<le> receive_time ms
    \<and> 0 \<le> average_bandwidth s \<and> average_bandwidth s \<le> 10 ^ 6 * of_int S"
proof (cases q)
  case None
  then show ?thesis using assms(3,4) by (auto simp: update_flow_def)
next
  case (Some s)
  let ?dt = "receive_time ms - last_write_time s + 1"
  let ?p = "10 ^ 6 * real_of_int (message_size ms) / real_of_int ?dt"
  have o: "last_write_time s \<le> t" "0 \<le> average_bandwidth s" "average_bandwidth s \<le> 10 ^ 6 * of_int S"
    using assms(1) Some by auto
  have dt: "1 \<le> ?dt" using o(1) assms(2) by simp
  have "?p \<le> 10 ^ 6 * real_of_int (message_size ms) / 1"
    by (rule divide_left_mono) (use dt assms(3) in auto)
  then have p: "0 \<le> ?p" "?p \<le> 10 ^ 6 * of_int S" using dt assms(3,4) by auto
  let ?a = "(1 - kBandwidthFIRConstant) * average_bandwidth s + kBandwidthFIRConstant * ?p"
  have "update_flow ms q = Some (s\<lparr>last_write_time := receive_time ms, average_bandwidth := ?a\<rparr>)"
    unfolding update_flow_def Some option.case Let_def using dt by simp
  moreover have "0 \<le> ?a" "?a \<le> 10 ^ 6 * of_int S"
    using fir_bounds [OF o(2,3) p] .
  ultimately show ?thesis by (intro exI [of _ "s\<lparr>last_write_time := receive_time ms, average_bandwidth := ?a\<rparr>"])
      (simp del: times_divide_eq_right)
qed

lemma accumulate_ok:
  assumes "flow_ok S t st" "sorted (map receive_time mss)" "\<forall>ms \<in> set mss. t \<le> receive_time ms"
    and "\<forall>ms \<in> set mss. 0 \<le> message_size ms \<and> message_size ms \<le> S"
  shows "\<exists>st' t'. accumulate_all mss st = Some st' \<and> flow_ok S t' st'"
  using assms
proof (induction mss arbitrary: st t)
  case (Cons ms mss)
  obtain s where s: "update_flow ms (map_of st (atm_key ms)) = Some s" "last_write_time s \<le> receive_time ms"
    "0 \<le> average_bandwidth s" "average_bandwidth s \<le> 10 ^ 6 * of_int S"
    using update_flow_ok [of "map_of st (atm_key ms)" t S ms] Cons.prems by (auto simp: flow_ok_def)
  have "flow_ok S (receive_time ms) (map_set (atm_key ms) s st)"
    using s(2-4) Cons.prems(1,3) by (fastforce simp: flow_ok_def)
  from Cons.IH [OF this] show ?case using s(1) Cons.prems(2,4) by (auto simp: AccummulateStatistic_def Let_def)
qed auto

end
