(* ===== verification/Moos_AtmProps.thy ===== *)
theory Moos_AtmProps
  imports Moos_Atm
begin

text \<open>From the messages that a client audits to the log and the statistics of \<open>atm\<close>.\<close>

section \<open>The records of a client\<close>

text \<open>The messages a client has received, with the times and the loads of its processor.\<close>

definition audited :: "string \<Rightarrow> (moos_msg \<times> real \<times> real) list \<Rightarrow> message_statistic list" where
  "audited client_name evs = fold (\<lambda>(msg, t, load). AddForAudit msg client_name t load) evs []"

definition as_received :: "message_statistic \<Rightarrow> message_statistic" where
  "as_received ms = ms\<lparr>cpu_load := atof (show_g (cpu_load ms))\<rparr>"

definition statistic_of :: "string \<Rightarrow> moos_msg \<times> real \<times> real \<Rightarrow> message_statistic" where
  "statistic_of client_name e = (case e of (msg, t, load) \<Rightarrow>
     \<lparr>source_client = m_sSrc msg, destination_client = client_name, message_name = m_sKey msg,
      message_size = sint (GetSizeInBytesWhenSerialised msg), source_time = micros (m_dfTime msg),
      receive_time = micros t, cpu_load = load\<rparr>)"

lemma audited_map: "audited client_name evs = map (statistic_of client_name) evs"
proof -
  have "fold (\<lambda>(msg, t, load). AddForAudit msg client_name t load) evs st = st @ map (statistic_of client_name) evs" for st
    by (induction evs arbitrary: st) (auto simp: AddForAudit_def statistic_of_def)
  then show ?thesis by (simp add: audited_def)
qed

lemma micros_range: "- (2 ^ 63) \<le> micros t" "micros t < 2 ^ 63"
  by (auto simp: micros_def Let_def)

text \<open>A clock that has not run out of microseconds.\<close>

definition clock_ok :: "real \<Rightarrow> bool" where
  "clock_ok t \<longleftrightarrow> 0 \<le> t \<and> t * 10 ^ 6 < 2 ^ 63"

lemma micros_mono: "clock_ok t \<Longrightarrow> clock_ok u \<Longrightarrow> t \<le> u \<Longrightarrow> micros t \<le> micros u"
proof -
  have m: "micros t = \<lfloor>t * 10 ^ 6\<rfloor>" if "clock_ok t" for t
  proof -
    have "0 \<le> \<lfloor>t * 10 ^ 6\<rfloor>" "\<lfloor>t * 10 ^ 6\<rfloor> < 2 ^ 63" using that by (auto simp: clock_ok_def floor_less_iff)
    then show ?thesis using that by (simp add: micros_def Let_def clock_ok_def)
  qed
  assume "clock_ok t" "clock_ok u" "t \<le> u"
  then show ?thesis using m by (simp add: floor_mono)
qed

section \<open>The monitor\<close>

lemma atm_rx_record:
  assumes "MessageStatistic_FromString s junk = ms" "AccummulateStatistic ms (at_stats m) = Some st"
  shows "\<exists>m'. atm_rx logging ignore junk s m = Some m' \<and> at_stats m' = st \<and> at_rxed m' = at_rxed m + 1
    \<and> at_log m' = at_log m @ (if logging then map LogToFile (filter (\<lambda>ms. ShouldBeLogged ms ignore) [ms]) else [])"
  using assms by (auto simp: atm_rx_def Let_def)

lemma atm_turn_record:
  assumes "MessageStatistic_FromString s junk = ms" "AccummulateStatistic ms (at_stats m) = Some st"
  shows "\<exists>l m'. atm_turn logging ignore junk (Some s, t1, t2) m = Some (l, m') \<and> at_stats m' = st
    \<and> at_rxed m' = at_rxed m + 1
    \<and> at_log m' = at_log m @ (if logging then map LogToFile (filter (\<lambda>ms. ShouldBeLogged ms ignore) [ms]) else [])"
proof -
  obtain m' where "atm_rx logging ignore junk s m = Some m'" "at_stats m' = st" "at_rxed m' = at_rxed m + 1"
    "at_log m' = at_log m @ (if logging then map LogToFile (filter (\<lambda>ms. ShouldBeLogged ms ignore) [ms]) else [])"
    using atm_rx_record [OF assms, of logging ignore] by blast
  then show ?thesis by (cases "t1 - at_last_display_time m' > 3") (simp_all add: atm_turn_def)
qed

lemma atm_loop_records:
  assumes "map fst xs = map Some ss" "map (\<lambda>s. MessageStatistic_FromString s junk) ss = mss"
    and "accumulate_all mss (at_stats m) = Some st"
  shows "\<exists>l m'. atm_loop logging ignore junk xs m = Some (l, m') \<and> at_stats m' = st
    \<and> at_rxed m' = at_rxed m + length mss
    \<and> at_log m' = at_log m @ (if logging then map LogToFile (filter (\<lambda>ms. ShouldBeLogged ms ignore) mss) else [])"
  using assms
proof (induction xs arbitrary: ss mss m)
  case (Cons x xs)
  then obtain s ss' t1 t2 where ss: "ss = s # ss'" "x = (Some s, t1, t2)" "map fst xs = map Some ss'"
    by (cases x) (auto simp: map_eq_Cons_conv)
  let ?ms = "MessageStatistic_FromString s junk" and ?mss = "map (\<lambda>s. MessageStatistic_FromString s junk) ss'"
  obtain st1 where st1: "AccummulateStatistic ?ms (at_stats m) = Some st1" "accumulate_all ?mss st1 = Some st"
    using Cons.prems(2,3) ss(1) by (auto split: option.splits)
  obtain l m1 where m1: "atm_turn logging ignore junk (Some s, t1, t2) m = Some (l, m1)" "at_stats m1 = st1"
    "at_rxed m1 = at_rxed m + 1"
    "at_log m1 = at_log m @ (if logging then map LogToFile (filter (\<lambda>ms. ShouldBeLogged ms ignore) [?ms]) else [])"
    using atm_turn_record [OF refl st1(1)] by blast
  obtain l' m' where "atm_loop logging ignore junk xs m1 = Some (l', m')" "at_stats m' = st"
    "at_rxed m' = at_rxed m1 + length ?mss"
    "at_log m' = at_log m1 @ (if logging then map LogToFile (filter (\<lambda>ms. ShouldBeLogged ms ignore) ?mss) else [])"
    using Cons.IH [OF ss(3) refl, of m1] st1(2) m1(2) by auto
  then show ?case using m1 ss Cons.prems(2) by auto
qed auto

text \<open>C38: what a client audits reaches the monitor over the channel: every message that took at least the
  given time is in the log, once each and in order, and nothing else; no division fails; each flow
  has the record that its own messages give, and a bandwidth within that of the largest message in
  a microsecond.\<close>

theorem audits_monitored:
  assumes "map fst xs = map Some (fst (transmit_round (audited client_name evs)))"
    and "name_text client_name" "\<forall>(msg, t, load) \<in> set evs. name_text (m_sSrc msg) \<and> name_text (m_sKey msg)
          \<and> clock_ok t \<and> 0 \<le> sint (GetSizeInBytesWhenSerialised msg) \<and> sint (GetSizeInBytesWhenSerialised msg) \<le> S"
    and "sorted (map (fst \<circ> snd) evs)"
  shows "\<exists>l m. atm_loop logging ignore junk xs (new_atm logging now) = Some (l, m)
    \<and> at_log m = (if logging
        then WriteHeader # map LogToFile (filter (\<lambda>ms. ignore \<le> receive_time ms - source_time ms)
                                            (map as_received (audited client_name evs)))
        else [])
    \<and> at_rxed m = length evs
    \<and> (\<forall>k. flow_run (filter (\<lambda>ms. atm_key ms = k) (map as_received (audited client_name evs))) None
             = Some (map_of (at_stats m) k))
    \<and> (\<exists>t. flow_ok S t (at_stats m))"
proof -
  let ?st = "audited client_name evs" and ?mss = "map as_received (audited client_name evs)"
  have dec: "MessageStatistic_FromString (MessageStatistic_ToString ms []) junk = as_received ms" if "ms \<in> set ?st" for ms
    using that assms(2,3) micros_range
    by (auto simp: audited_map statistic_of_def as_received_def intro!: statistic_roundtrip)
  have mss: "map (\<lambda>s. MessageStatistic_FromString s junk) (fst (transmit_round ?st)) = ?mss"
    using dec by (simp add: transmit_round_def)
  have rt: "map receive_time ?mss = map (micros \<circ> fst \<circ> snd) evs"
    by (auto simp: audited_map statistic_of_def as_received_def)
  have "\<forall>e \<in> set evs. clock_ok (fst (snd e))" using assms(3) by auto
  then have "sorted (map (micros \<circ> (fst \<circ> snd)) evs)"
    using assms(4) by (induction evs) (fastforce intro: micros_mono)+
  then have srt: "sorted (map receive_time ?mss)" unfolding rt by (simp add: comp_assoc)
  have size: "\<forall>ms \<in> set ?mss. 0 \<le> message_size ms \<and> message_size ms \<le> S"
    using assms(3) by (auto simp: audited_map statistic_of_def as_received_def)
  have low: "\<forall>ms \<in> set ?mss. - (2 ^ 63) \<le> receive_time ms"
    using micros_range by (auto simp: audited_map statistic_of_def as_received_def)
  have "flow_ok S (- (2 ^ 63)) []" by (simp add: flow_ok_def)
  from accumulate_ok [OF this srt low size] obtain st' t' where st: "accumulate_all ?mss [] = Some st'" "flow_ok S t' st'"
    by auto
  have "accumulate_all ?mss (at_stats (new_atm logging now)) = Some st'" using st(1) by (simp add: new_atm_def)
  from atm_loop_records [OF assms(1) mss this, of logging ignore]
  obtain l m where "atm_loop logging ignore junk xs (new_atm logging now) = Some (l, m)" "at_stats m = st'"
    "at_rxed m = length evs" "at_log m = at_log (new_atm logging now)
       @ (if logging then map LogToFile (filter (\<lambda>ms. ShouldBeLogged ms ignore) ?mss) else [])"
    by (auto simp: audited_map new_atm_def)
  moreover have "ShouldBeLogged ms ignore \<longleftrightarrow> ignore \<le> receive_time ms - source_time ms" for ms
    by (auto simp: ShouldBeLogged_def)
  ultimately show ?thesis using flows_apart [OF st(1)] st(2) by (auto simp: new_atm_def)
qed

section \<open>An example\<close>

definition two_audits :: "(moos_msg \<times> real \<times> real) list" where
  "two_audits = [((msg_double MOOS_NOTIFY ''X'' 1 1 1)\<lparr>m_sSrc := ''gps''\<rparr>, 2, 0),
                 ((msg_double MOOS_NOTIFY ''X'' 2 3 3)\<lparr>m_sSrc := ''gps''\<rparr>, 3, 0)]"

definition two_receptions :: "(string option \<times> real \<times> real) list" where
  "two_receptions = map (\<lambda>s. (Some s, 0, 0)) (fst (transmit_round (audited ''nav'' two_audits)))"

theorem audits_monitored_witness:
  "\<exists>l m. atm_loop True 3000 (statistic_of [] (hd two_audits)) two_receptions (new_atm True 0) = Some (l, m)
    \<and> at_log m = (if True
        then WriteHeader # map LogToFile (filter (\<lambda>ms. 3000 \<le> receive_time ms - source_time ms)
                                            (map as_received (audited ''nav'' two_audits)))
        else [])
    \<and> at_rxed m = length two_audits
    \<and> (\<forall>k. flow_run (filter (\<lambda>ms. atm_key ms = k) (map as_received (audited ''nav'' two_audits))) None
             = Some (map_of (at_stats m) k))
    \<and> (\<exists>t. flow_ok 100 t (at_stats m))"
proof (rule audits_monitored)
  show "map fst two_receptions = map Some (fst (transmit_round (audited ''nav'' two_audits)))"
    by (simp add: two_receptions_def)
  show "name_text ''nav''" by code_simp
  have "name_text ''gps''" "name_text ''X''" by code_simp+
  then show "\<forall>(msg, t, load) \<in> set two_audits. name_text (m_sSrc msg) \<and> name_text (m_sKey msg)
      \<and> clock_ok t \<and> 0 \<le> sint (GetSizeInBytesWhenSerialised msg) \<and> sint (GetSizeInBytesWhenSerialised msg) \<le> 100"
    by (simp add: two_audits_def msg_double_def clock_ok_def GetSizeInBytesWhenSerialised_def new_msg_def)
  show "sorted (map (fst \<circ> snd) two_audits)" by (simp add: two_audits_def)
qed

section \<open>What can go wrong\<close>

text \<open>The key of a flow does not say where a name ends: different flows are taken for one.\<close>

lemma keys_collide:
  "atm_key (ms\<lparr>message_name := ''A:b'', source_client := ''c''\<rparr>) = atm_key (ms\<lparr>message_name := ''A'', source_client := ''b:c''\<rparr>)"
  by (simp add: atm_key_def)

text \<open>A record whose time is a microsecond before that of the last one divides by zero.\<close>

lemma time_back_divides_by_zero:
  "update_flow ms (Some stat) = None \<longleftrightarrow> receive_time ms = last_write_time stat - 1"
  by (auto simp: update_flow_def Let_def)

text \<open>A rate of at most 1024 bytes is printed without its number.\<close>

lemma small_rates_unnamed: "0 < n \<Longrightarrow> n \<le> 1024 \<Longrightarrow> FormatBytes n = '' B/s''"
  by (simp add: FormatBytes_def)

end
