(* ===== verification/Moos_Multicast.thy ===== *)
theory Moos_Multicast
  imports Moos_Queues Moos_Sleeper Moos_Address "HOL-Library.Multiset"
begin

text \<open>
  A node of a multicast group (\<open>Comms/MulticastNode.cpp\<close>), and the program \<open>ktm\<close>
  (\<open>src/Core/tools/ktm/ktm.cpp\<close>) that asks the applications on a channel (\<open>Moos_Sleeper\<close>) whether they
  would end themselves, or tells them to.

  \<^item> A datagram is a text. Setting up the sockets, and what fails there, is left out; the datagrams
    that are received and the results of sending are arguments.
  \<^item> The threads of a node share its two lists; a run is a sequence of their turns.
\<close>

section \<open>A node\<close>

record multicast_node =
  mn_address :: ipv4_address
  mn_hops :: int
  mn_unread_limit :: nat
  mn_inbox :: "string safe_list"
  mn_outbox :: "string safe_list"

definition new_node :: multicast_node where
  "new_node = \<lparr>mn_address = IPV4Address [] 0, mn_hops = 1, mn_unread_limit = 20,
     mn_inbox = new_safe_list, mn_outbox = new_safe_list\<rparr>"

definition ConfigureNode :: "string \<Rightarrow> int \<Rightarrow> int \<Rightarrow> multicast_node \<Rightarrow> multicast_node" where
  "ConfigureNode address port hops n = n\<lparr>mn_address := IPV4Address address (word_of_int port), mn_hops := hops\<rparr>"

definition SetUnreadLimit :: "nat \<Rightarrow> multicast_node \<Rightarrow> multicast_node" where
  "SetUnreadLimit limit n = n\<lparr>mn_unread_limit := limit\<rparr>"

definition WriteNode :: "string \<Rightarrow> multicast_node \<Rightarrow> multicast_node" where
  "WriteNode data n = n\<lparr>mn_outbox := Push data (mn_outbox n)\<rparr>"

text \<open>A turn of \<open>ReadLoop\<close>, when the socket has something: \<open>n > 0\<close> bytes, or an empty datagram. At most
  64K are taken. While more than the limit are unread, the oldest is dropped.\<close>

definition drop_unread :: "nat \<Rightarrow> string safe_list \<Rightarrow> string safe_list" where
  "drop_unread limit q = (Pop ^^ (Size q - limit)) q"

definition ReadTurn :: "string \<Rightarrow> multicast_node \<Rightarrow> multicast_node" where
  "ReadTurn datagram n =
     (let v = take 65536 datagram;
          inbox = (if v \<noteq> [] then Push v (mn_inbox n) else mn_inbox n)
      in n\<lparr>mn_inbox := drop_unread (mn_unread_limit n) inbox\<rparr>)"

text \<open>A turn of \<open>WriteLoop\<close> that finds the outbox not empty or sees a push: what is given to \<open>sendto\<close>.\<close>

definition WriteTurn :: "multicast_node \<Rightarrow> string option \<times> multicast_node" where
  "WriteTurn n =
     (let (waited, outbox) = (if IsEmpty (mn_outbox n) then WaitForPush (mn_outbox n) else (True, mn_outbox n))
      in if \<not> waited then (None, n\<lparr>mn_outbox := outbox\<rparr>)
         else (let (v, outbox) = Pull outbox
               in (Some (case v of None \<Rightarrow> [] | Some d \<Rightarrow> d), n\<lparr>mn_outbox := outbox\<rparr>)))"

text \<open>\<open>Read\<close> by the user: \<open>arrivals\<close> are the turns of the reading thread while it waits, or before the
  next call when it need not wait.\<close>

definition ReadNode :: "string list \<Rightarrow> multicast_node \<Rightarrow> string option \<times> multicast_node" where
  "ReadNode arrivals n =
     (if \<not> IsEmpty (mn_inbox n)
      then (let (d, q) = Pull (mn_inbox n) in (d, fold ReadTurn arrivals (n\<lparr>mn_inbox := q\<rparr>)))
      else (let n = fold ReadTurn arrivals n; (pushed, q) = WaitForPush (mn_inbox n)
            in if pushed then (let (d, q) = Pull q in (d, n\<lparr>mn_inbox := q\<rparr>)) else (None, n\<lparr>mn_inbox := q\<rparr>)))"

section \<open>ktm\<close>

definition ktm_command :: "bool \<Rightarrow> string \<Rightarrow> string \<Rightarrow> string" where
  "ktm_command bQuery phrase name_pattern =
     (if bQuery then ''?'' else ''K'') @ '':'' @ phrase @ '':'' @ name_pattern"

text \<open>The loop of replies, given what arrives in the waits: it ends at the first time-out. The result is
  what is printed.\<close>

fun ktm_replies :: "string \<Rightarrow> string list list \<Rightarrow> multicast_node \<Rightarrow> string list \<times> multicast_node" where
  "ktm_replies command [] n = ([], n)"
| "ktm_replies command (arrivals # ws) n =
     (case ReadNode arrivals n of
        (None, n) \<Rightarrow> ([], n)
      | (Some sReply, n) \<Rightarrow>
          (let (l, n) = ktm_replies command ws n in (if sReply = command then l else sReply # l, n)))"

definition ktm_main ::
  "string \<Rightarrow> int \<Rightarrow> bool \<Rightarrow> bool \<Rightarrow> string \<Rightarrow> string \<Rightarrow> string list list \<Rightarrow> string option \<times> string list" where
  "ktm_main address port all_hosts bQuery phrase name_pattern ws =
     (let n = ConfigureNode address port (if all_hosts then 1 else 0) new_node;
          command = ktm_command bQuery phrase name_pattern;
          (sent, n) = WriteTurn (WriteNode (c_str command) n)
      in (sent, fst (ktm_replies command ws n)))"

section \<open>The loop of a sleeper\<close>

text \<open>Over the messages it reads: what it writes, and if it ends the process.\<close>

fun sleeper_loop :: "string \<Rightarrow> string option \<Rightarrow> sleeper \<Rightarrow> string list \<Rightarrow> string list \<times> bool" where
  "sleeper_loop header last_words z [] = ([], False)"
| "sleeper_loop header last_words z (m # ms) =
     (case sleeper_work header last_words z m of
        Ignore \<Rightarrow> sleeper_loop header last_words z ms
      | WouldDie r \<Rightarrow> (let (l, b) = sleeper_loop header last_words z ms in (r # l, b))
      | Dies rs \<Rightarrow> (rs, True))"

section \<open>What a node keeps\<close>

lemma drop_unread_list: "l_List (drop_unread k q) = drop (length (l_List q) - k) (l_List q)"
proof -
  have "l_List ((Pop ^^ i) q) = drop i (l_List q)" for i
    by (induction i) (simp_all add: Pop_def drop_Suc drop_tl)
  then show ?thesis by (simp add: drop_unread_def Size_def)
qed

definition whole :: "string \<Rightarrow> bool" where
  "whole d \<longleftrightarrow> d \<noteq> [] \<and> length d \<le> 65536"

lemma ReadTurn_list:
  assumes "whole d"
  shows "l_List (mn_inbox (ReadTurn d n))
    = drop (length (l_List (mn_inbox n)) + 1 - mn_unread_limit n) (l_List (mn_inbox n) @ [d])"
  using assms by (simp add: ReadTurn_def Let_def drop_unread_list whole_def Push_def)

lemma ReadTurn_frame [simp]:
  "mn_unread_limit (ReadTurn d n) = mn_unread_limit n" "mn_outbox (ReadTurn d n) = mn_outbox n"
  by (simp_all add: ReadTurn_def Let_def)

lemma ReadTurns_list:
  assumes "\<forall>d \<in> set ds. whole d" "length (l_List (mn_inbox n)) + length ds \<le> mn_unread_limit n"
  shows "l_List (mn_inbox (fold ReadTurn ds n)) = l_List (mn_inbox n) @ ds"
  using assms by (induction ds arbitrary: n) (auto simp: ReadTurn_list)

lemma ReadTurn_event: "whole d \<Longrightarrow> length (l_List (mn_inbox n)) < mn_unread_limit n \<Longrightarrow> l_PushEvent (mn_inbox (ReadTurn d n))"
  by (simp add: ReadTurn_def Let_def drop_unread_def whole_def Push_def Size_def)

lemma ReadTurns_limit [simp]: "mn_unread_limit (fold ReadTurn ds n) = mn_unread_limit n"
  by (induction ds arbitrary: n) simp_all

lemma ReadTurns_event:
  assumes "\<forall>d \<in> set ds. whole d" "length (l_List (mn_inbox n)) + length ds \<le> mn_unread_limit n" "ds \<noteq> []"
  shows "l_PushEvent (mn_inbox (fold ReadTurn ds n))"
  using assms
proof (induction ds arbitrary: n)
  case (Cons d ds)
  show ?case
  proof (cases "ds = []")
    case True
    then show ?thesis using Cons.prems ReadTurn_event by simp
  next
    case False
    then show ?thesis using Cons.IH [of "ReadTurn d n"] Cons.prems by (auto simp: ReadTurn_list)
  qed
qed simp

text \<open>A node whose lists agree with their events.\<close>

definition node_settled :: "multicast_node \<Rightarrow> bool" where
  "node_settled n \<longleftrightarrow> (l_List (mn_inbox n) = [] \<longrightarrow> \<not> l_PushEvent (mn_inbox n))"

lemma ReadNode_some:
  assumes "node_settled n" "\<forall>d \<in> set arr. whole d" "length (l_List (mn_inbox n)) + length arr \<le> mn_unread_limit n"
    and "l_List (mn_inbox n) @ arr = d # rest"
  shows "\<exists>n'. ReadNode arr n = (Some d, n') \<and> l_List (mn_inbox n') = rest \<and> node_settled n'
    \<and> mn_unread_limit n' = mn_unread_limit n"
proof (cases "l_List (mn_inbox n)")
  case Nil
  have l: "l_List (mn_inbox (fold ReadTurn arr n)) = d # rest" using ReadTurns_list [OF assms(2,3)] assms(4) Nil by simp
  have e: "l_PushEvent (mn_inbox (fold ReadTurn arr n))"
    by (rule ReadTurns_event [OF assms(2,3)]) (use assms(4) Nil in auto)
  show ?thesis
    using Nil l e by (auto simp: ReadNode_def IsEmpty_def WaitForPush_def Pull_def Let_def node_settled_def)
next
  case (Cons a as)
  let ?n = "n\<lparr>mn_inbox := (mn_inbox n)\<lparr>l_PushEvent := False, l_List := as\<rparr>\<rparr>"
  have r: "ReadNode arr n = (Some a, fold ReadTurn arr ?n)"
    using Cons by (simp add: ReadNode_def IsEmpty_def Pull_def Let_def)
  have l: "l_List (mn_inbox (fold ReadTurn arr ?n)) = as @ arr"
    using ReadTurns_list [of arr ?n] assms(2,3) Cons by simp
  have "node_settled (fold ReadTurn arr ?n)"
    using l by (cases "arr = []") (auto simp: node_settled_def)
  then show ?thesis using r l Cons assms(4) by auto
qed

lemma ReadNode_none:
  assumes "node_settled n" "l_List (mn_inbox n) = []"
  shows "\<exists>n'. ReadNode [] n = (None, n')"
  using assms by (auto simp: ReadNode_def IsEmpty_def WaitForPush_def node_settled_def Let_def)

text \<open>Bursts of datagrams that do not leave the reader without any, and time to read them all.\<close>

lemma ktm_reads_all:
  assumes "node_settled n" "\<forall>d \<in> set (concat waits). whole d" "\<forall>w \<in> set waits. w \<noteq> []"
    and "length (l_List (mn_inbox n) @ concat waits) \<le> mn_unread_limit n"
    and "length (l_List (mn_inbox n) @ concat waits) < k"
  shows "fst (ktm_replies command (waits @ replicate k []) n)
    = filter (\<lambda>d. d \<noteq> command) (l_List (mn_inbox n) @ concat waits)"
  using assms
proof (induction waits arbitrary: n k)
  case Nil
  then show ?case
  proof (induction "l_List (mn_inbox n)" arbitrary: n k)
    case Nil
    obtain j where j: "k = Suc j" using Nil.prems(5) by (cases k) auto
    obtain n' where "ReadNode [] n = (None, n')" using ReadNode_none [OF Nil.prems(1)] Nil.hyps by auto
    then show ?case using j Nil.hyps by simp
  next
    case (Cons d ds)
    obtain j where j: "k = Suc j" using Cons.prems(5) by (cases k) auto
    have "l_List (mn_inbox n) @ [] = d # ds" using Cons.hyps(2) by simp
    from ReadNode_some [OF Cons.prems(1) _ _ this] Cons.prems(4)
    obtain n' where n': "ReadNode [] n = (Some d, n')" "l_List (mn_inbox n') = ds" "node_settled n'"
      "mn_unread_limit n' = mn_unread_limit n" by auto
    have "fst (ktm_replies command ([] @ replicate j []) n') = filter (\<lambda>d. d \<noteq> command) (l_List (mn_inbox n') @ concat [])"
      using Cons.prems(4,5) arg_cong [OF Cons.hyps(2), of length] n' j by (intro Cons.hyps(1)) auto
    then show ?case using n' j by (simp add: Cons.hyps(2) [symmetric] Let_def case_prod_unfold)
  qed
next
  case (Cons w waits)
  have ne: "l_List (mn_inbox n) @ w \<noteq> []" using Cons.prems(3) by auto
  then obtain d rest where d: "l_List (mn_inbox n) @ w = d # rest" by (cases "l_List (mn_inbox n) @ w") auto
  have w: "\<forall>d \<in> set w. whole d" using Cons.prems(2) by auto
  have lim: "length (l_List (mn_inbox n)) + length w \<le> mn_unread_limit n" using Cons.prems(4) by simp
  obtain n' where n': "ReadNode w n = (Some d, n')" "l_List (mn_inbox n') = rest" "node_settled n'"
      "mn_unread_limit n' = mn_unread_limit n"
    using ReadNode_some [OF Cons.prems(1) w lim d] by auto
  have len: "length (l_List (mn_inbox n)) + length w = Suc (length rest)"
    using arg_cong [OF d, of length] by simp
  have "fst (ktm_replies command (waits @ replicate k []) n')
      = filter (\<lambda>d. d \<noteq> command) (l_List (mn_inbox n') @ concat waits)"
    using Cons.prems(2-5) n' len by (intro Cons.IH) auto
  moreover have "filter (\<lambda>d. d \<noteq> command) (l_List (mn_inbox n)) @ filter (\<lambda>d. d \<noteq> command) w
      = filter (\<lambda>d. d \<noteq> command) (d # rest)"
    unfolding filter_append [symmetric] d ..
  ultimately show ?case using n' by (simp add: Let_def case_prod_unfold append_assoc [symmetric] del: append_assoc)
qed

section \<open>Asking the sleepers\<close>

lemma command_understood:
  assumes "CHR '':'' \<notin> set phrase" "CHR 0x0A \<notin> set name_pattern"
  shows "sleeper_work header last_words z (ktm_command bQuery phrase name_pattern) =
    (if phrase \<noteq> z_pass_phrase z \<or> \<not> MOOSWildCmp name_pattern (z_name z) then Ignore
     else if bQuery then WouldDie (header @ '' would die'' @ [CHR 0x0A])
     else Dies ((header @ '' is committing suicide'' @ [CHR 0x0A])
                # (case last_words of None \<Rightarrow> []
                   | Some w \<Rightarrow> [header @ '' last words are '' @ [CHR 0x22] @ w @ [CHR 0x22, CHR 0x0A]])))"
proof -
  have a: "MOOSChomp (ktm_command bQuery phrase name_pattern) '':'' False
      = (if bQuery then ''?'' else ''K'', phrase @ '':'' @ name_pattern)"
    using MOOSChomp_piece [of "CHR '':''" "''?''" "phrase @ '':'' @ name_pattern"]
      MOOSChomp_piece [of "CHR '':''" "''K''" "phrase @ '':'' @ name_pattern"] by (simp add: ktm_command_def)
  have b: "MOOSChomp (phrase @ '':'' @ name_pattern) '':'' False = (phrase, name_pattern)"
    using MOOSChomp_piece [OF assms(1)] by simp
  have c: "fst (MOOSChomp name_pattern [CHR 0x0A] False) = name_pattern"
    using MOOSChomp_last [OF assms(2)] by simp
  show ?thesis unfolding sleeper_work_def a prod.case b c Let_def by simp
qed

text \<open>What a sleeper answers, and if it dies of the command.\<close>

definition agrees :: "string \<Rightarrow> string \<Rightarrow> string \<times> sleeper \<Rightarrow> bool" where
  "agrees phrase name_pattern hz \<longleftrightarrow> phrase = z_pass_phrase (snd hz) \<and> MOOSWildCmp name_pattern (z_name (snd hz))"

definition answer_of :: "bool \<Rightarrow> string \<times> sleeper \<Rightarrow> string" where
  "answer_of bQuery hz = fst hz @ (if bQuery then '' would die'' else '' is committing suicide'') @ [CHR 0x0A]"

lemma sleeper_answers:
  assumes "CHR '':'' \<notin> set phrase" "CHR 0x0A \<notin> set name_pattern"
  shows "sleeper_loop (fst hz) None (snd hz) [ktm_command bQuery phrase name_pattern]
    = (if agrees phrase name_pattern hz then [answer_of bQuery hz] else [], agrees phrase name_pattern hz \<and> \<not> bQuery)"
  using command_understood [OF assms, of "fst hz" None "snd hz" bQuery]
  by (auto simp: agrees_def answer_of_def)

text \<open>C39: when the replies of all sleepers, and the command itself, come back to the node that sent it,
  \<open>ktm\<close> sends the command it is asked to, and prints one answer of every sleeper whose pass phrase
  and name agree and none of the others; on a kill just those die. This is for a pass phrase without
  a colon, texts without line ends or NUL, a command and answers that fit a datagram of 64 kB, fewer than twenty sleepers, which is
  what the node keeps unread, none of them with a callback for its last rights (it would answer
  twice), and for datagrams that all arrive while \<open>ktm\<close> waits.\<close>

theorem sleepers_asked:
  assumes "CHR '':'' \<notin> set phrase" "CHR 0x0A \<notin> set (phrase @ name_pattern)" "CHR 0x00 \<notin> set (phrase @ name_pattern)"
    and "length (ktm_command bQuery phrase name_pattern) \<le> 65536"
    and "\<forall>hz \<in> set zs. length (answer_of bQuery hz) \<le> 65536"
    and "mset (concat waits) = mset (ktm_command bQuery phrase name_pattern
           # concat (map (\<lambda>hz. fst (sleeper_loop (fst hz) None (snd hz) [ktm_command bQuery phrase name_pattern])) zs))"
    and "\<forall>w \<in> set waits. w \<noteq> []" "length zs < 20" "20 < k"
  shows "\<exists>printed. ktm_main address port all_hosts bQuery phrase name_pattern (waits @ replicate k [])
      = (Some (ktm_command bQuery phrase name_pattern), printed)
    \<and> mset printed = mset (map (answer_of bQuery) (filter (agrees phrase name_pattern) zs))
    \<and> filter (\<lambda>hz. snd (sleeper_loop (fst hz) None (snd hz) [ktm_command bQuery phrase name_pattern])) zs
      = (if bQuery then [] else filter (agrees phrase name_pattern) zs)"
proof -
  let ?c = "ktm_command bQuery phrase name_pattern"
  let ?as = "map (answer_of bQuery) (filter (agrees phrase name_pattern) zs)"
  have nl: "CHR 0x0A \<notin> set name_pattern" using assms(2) by simp
  note ans = sleeper_answers [OF assms(1) nl]
  have "concat (map (\<lambda>hz. fst (sleeper_loop (fst hz) None (snd hz) [?c])) zs) = ?as"
    by (induction zs) (simp_all add: ans del: sleeper_loop.simps)
  then have m: "mset (concat waits) = mset (?c # ?as)" using assms(6) by simp
  then have s: "set (concat waits) = insert ?c (set ?as)" by (metis list.simps(15) set_mset_mset)
  have "length (concat waits) = Suc (length (filter (agrees phrase name_pattern) zs))" using mset_eq_length [OF m] by simp
  then have len: "length (concat waits) \<le> 20"
    using assms(8) length_filter_le [of "agrees phrase name_pattern" zs] by linarith
  have cstr: "c_str ?c = ?c"
    by (rule c_str_id) (use assms(3) in \<open>auto simp: ktm_command_def\<close>)
  have w: "\<forall>d \<in> set (concat waits). whole d"
    unfolding s using assms(4,5) by (auto simp: whole_def ktm_command_def answer_of_def)
  obtain n where sent: "WriteTurn (WriteNode ?c (ConfigureNode address port (if all_hosts then 1 else 0) new_node)) = (Some ?c, n)"
    and n: "node_settled n" "l_List (mn_inbox n) = []" "mn_unread_limit n = 20"
    by (simp add: WriteTurn_def WriteNode_def ConfigureNode_def new_node_def new_safe_list_def
        IsEmpty_def Push_def Pull_def Let_def node_settled_def)
  have r: "fst (ktm_replies ?c (waits @ replicate k []) n) = filter (\<lambda>d. d \<noteq> ?c) (concat waits)"
    using ktm_reads_all [OF n(1) w assms(7), of k ?c] n(2,3) len assms(9) by simp
  have "\<forall>a \<in> set ?as. a \<noteq> ?c"
  proof
    fix a assume "a \<in> set ?as"
    then have "CHR 0x0A \<in> set a" by (auto simp: answer_of_def)
    moreover have "CHR 0x0A \<notin> set ?c" using assms(2) by (simp add: ktm_command_def)
    ultimately show "a \<noteq> ?c" by auto
  qed
  then have "filter (\<lambda>d. d \<noteq> ?c) ?as = ?as" by (simp add: filter_id_conv)
  moreover have "mset (filter (\<lambda>d. d \<noteq> ?c) (concat waits)) = mset (filter (\<lambda>d. d \<noteq> ?c) (?c # ?as))"
    unfolding mset_filter m ..
  ultimately have "mset (filter (\<lambda>d. d \<noteq> ?c) (concat waits)) = mset ?as" by simp
  moreover have "ktm_main address port all_hosts bQuery phrase name_pattern (waits @ replicate k [])
      = (Some ?c, fst (ktm_replies ?c (waits @ replicate k []) n))"
    using sent by (simp add: ktm_main_def Let_def cstr del: ktm_replies.simps)
  ultimately show ?thesis using r by (auto intro!: filter_cong simp: ans filter_False simp del: sleeper_loop.simps)
qed

text \<open>A node that is not read keeps the latest datagrams, as many as its limit: more answers than that lose
  the first.\<close>

lemma flood_keeps_latest:
  assumes "\<forall>d \<in> set ds. whole d" "length (l_List (mn_inbox n)) \<le> mn_unread_limit n"
  shows "l_List (mn_inbox (fold ReadTurn ds n))
    = drop (length (l_List (mn_inbox n)) + length ds - mn_unread_limit n) (l_List (mn_inbox n) @ ds)"
  using assms
proof (induction ds arbitrary: n)
  case (Cons d ds)
  let ?l = "l_List (mn_inbox n)" and ?k = "mn_unread_limit n"
  have l: "l_List (mn_inbox (ReadTurn d n)) = drop (length ?l + 1 - ?k) (?l @ [d])"
    using Cons.prems ReadTurn_list by simp
  have "length (l_List (mn_inbox (ReadTurn d n))) \<le> mn_unread_limit (ReadTurn d n)" using Cons.prems(2) l by simp
  from Cons.IH [OF _ this] Cons.prems(1) have
    "l_List (mn_inbox (fold ReadTurn ds (ReadTurn d n)))
      = drop (length (drop (length ?l + 1 - ?k) (?l @ [d])) + length ds - ?k) (drop (length ?l + 1 - ?k) (?l @ [d]) @ ds)"
    unfolding l by simp
  also have "\<dots> = drop (length ?l + length (d # ds) - ?k) (?l @ d # ds)"
  proof -
    let ?b = "length ?l + 1 - ?k"
    have "drop ?b (?l @ [d]) @ ds = drop ?b (?l @ d # ds)" by (cases "?k = 0") simp_all
    moreover have "length (drop ?b (?l @ [d])) + length ds - ?k + ?b = length ?l + length (d # ds) - ?k"
      using Cons.prems(2) by simp
    ultimately show ?thesis by (simp only: drop_drop)
  qed
  finally show ?case by simp
qed simp

section \<open>An example\<close>

definition two_sleepers :: "(string \<times> sleeper) list" where
  "two_sleepers = [(''nav pid 7'', new_sleeper\<lparr>z_name := ''nav''\<rparr>),
                   (''gps pid 8'', new_sleeper\<lparr>z_name := ''gps'', z_pass_phrase := ''stay''\<rparr>)]"

definition waltz :: string where "waltz = ''elks have been know to waltz''"

definition two_waits :: "string list list" where
  "two_waits = [[ktm_command True waltz ''*''], [answer_of True (hd two_sleepers)]]"

lemma waltz_plain: "CHR '':'' \<notin> set waltz" "CHR 0x0A \<notin> set ''*''" "CHR 0x0A \<notin> set (waltz @ ''*'')"
  "CHR 0x00 \<notin> set (waltz @ ''*'')"
  by (simp_all add: waltz_def)

theorem sleepers_asked_witness:
  "\<exists>printed. ktm_main ''224.1.1.3'' 4000 False True waltz ''*'' (two_waits @ replicate 21 [])
      = (Some (ktm_command True waltz ''*''), printed)
    \<and> mset printed = mset (map (answer_of True) (filter (agrees waltz ''*'') two_sleepers))
    \<and> filter (\<lambda>hz. snd (sleeper_loop (fst hz) None (snd hz) [ktm_command True waltz ''*''])) two_sleepers
      = (if True then [] else filter (agrees waltz ''*'') two_sleepers)"
proof (rule sleepers_asked)
  note ans = sleeper_answers [OF waltz_plain(1,2)]
  have "map (\<lambda>hz. fst (sleeper_loop (fst hz) None (snd hz) [ktm_command True waltz ''*''])) two_sleepers
      = map (\<lambda>hz. if agrees waltz ''*'' hz then [answer_of True hz] else []) two_sleepers"
    by (simp add: ans del: sleeper_loop.simps)
  also have "\<dots> = [[answer_of True (hd two_sleepers)], []]"
    by (simp add: two_sleepers_def agrees_def waltz_def new_sleeper_def MOOSWildCmp_star)
  finally show "mset (concat two_waits) = mset (ktm_command True waltz ''*''
      # concat (map (\<lambda>hz. fst (sleeper_loop (fst hz) None (snd hz) [ktm_command True waltz ''*''])) two_sleepers))"
    by (simp add: two_waits_def)
  show "length (ktm_command True waltz ''*'') \<le> 65536" by (simp add: ktm_command_def waltz_def)
  show "\<forall>hz \<in> set two_sleepers. length (answer_of True hz) \<le> 65536"
    by (simp add: two_sleepers_def answer_of_def)
  show "\<forall>w \<in> set two_waits. w \<noteq> []" by (simp add: two_waits_def)
  show "length two_sleepers < 20" by (simp add: two_sleepers_def)
qed (use waltz_plain in simp_all)

end
