(* ===== verification/Moos_Monitors.thy ===== *)
theory Moos_Monitors
  imports Moos_DBServer Moos_Client
begin

text \<open>
  Two applications that show what a database reports: \<open>mtm\<close> (\<open>src/Core/tools/mtm/mtm.cpp\<close>) the
  table of the variables that it publishes as \<open>DB_VARSUMMARY\<close>, and \<open>mqos\<close>
  (\<open>src/Core/tools/mqos/mqos.cpp\<close>) the state of its clients.

  \<^item> What is printed is a list of lines with the colour that is switched on before them.
\<close>

section \<open>mtm\<close>

datatype line_colour = Magenta | Green | Plain

record mtm =
  mt_known :: "(string, string) omap"
  mt_live_only :: bool

definition new_mtm :: "bool \<Rightarrow> mtm" where
  "new_mtm live_only = \<lparr>mt_known = [], mt_live_only = live_only\<rparr>"

text \<open>The width of the screen is unsigned: less than 3 columns, as where there is no screen, cut nothing.\<close>

definition fit_screen :: "nat \<Rightarrow> string \<Rightarrow> string" where
  "fit_screen width output =
     (let n = unat (of_nat width - 3 :: 32 word) in if length output > n then take n output @ ''...'' else output)"

text \<open>One line of the summary: what is printed, and the table after it.\<close>

definition mtm_line :: "nat \<Rightarrow> string \<Rightarrow> mtm \<Rightarrow> (line_colour \<times> string) list \<times> mtm" where
  "mtm_line width sLine m =
     (let (sVar, sLine) = MOOSChomp sLine '' '' False in
      case map_of (mt_known m) sVar of
        Some old \<Rightarrow>
          if old = sLine \<and> mt_live_only m then ([], m)
          else ([(if old = sLine then Plain else Green, fit_screen width (sVar @ '' '' @ sLine))],
                m\<lparr>mt_known := map_set sVar sLine (mt_known m)\<rparr>)
      | None \<Rightarrow> ([(Magenta, fit_screen width (sVar @ '' '' @ sLine))],
                m\<lparr>mt_known := map_set sVar sLine (mt_known m)\<rparr>))"

function mtm_lines :: "nat \<Rightarrow> string \<Rightarrow> mtm \<Rightarrow> (line_colour \<times> string) list \<times> mtm" where
  "mtm_lines width sAll m =
     (if sAll = [] then ([], m)
      else (let (sLine, sAll) = MOOSChomp sAll [CHR 0x0A] False;
                (l, m) = mtm_line width sLine m;
                (l', m) = mtm_lines width sAll m
            in (l @ l', m)))"
  by auto
termination
  by (relation "measure (\<lambda>(width, sAll, m). length sAll)") (auto, metis MOOSChomp_shorter list.distinct(1) snd_conv)

declare mtm_lines.simps [simp del]

definition mtm_OnSummary :: "nat \<Rightarrow> moos_msg \<Rightarrow> mtm \<Rightarrow> bool \<times> (line_colour \<times> string) list \<times> mtm" where
  "mtm_OnSummary width M m = (case mtm_lines width (m_sVal M) m of (l, m) \<Rightarrow> (True, l @ [(Plain, [])], m))"

section \<open>mqos\<close>

definition mqos_OnProcessCommandLine :: "(string \<Rightarrow> string option) \<Rightarrow> string list \<Rightarrow> string list" where
  "mqos_OnProcessCommandLine GetVar Wildcard_names =
     (case GetVar ''--pattern'' of Some t \<Rightarrow> StringListToVector t '','' | None \<Rightarrow> Wildcard_names @ [''*''])"

text \<open>The statuses in the order they are printed, each as often as a pattern matches its name.\<close>

definition mqos_Iterate :: "string list \<Rightarrow> client \<Rightarrow> comms_status list" where
  "mqos_Iterate Wildcard_names c =
     concat (map (\<lambda>q. map (\<lambda>p. q) (filter (\<lambda>p. MOOSWildCmp p (cs_name q)) Wildcard_names)) (GetClientCommsStatuses c))"

section \<open>The table of a database\<close>

text \<open>The line of a variable after its name.\<close>

definition summary_rest :: "(real \<Rightarrow> string) \<Rightarrow> string \<Rightarrow> db_var \<Rightarrow> string" where
  "summary_rest T k v = butlast (drop (length k + 1) (var_summary_line T k v))"

definition plain_line :: "(real \<Rightarrow> string) \<Rightarrow> string \<Rightarrow> db_var \<Rightarrow> bool" where
  "plain_line T k v \<longleftrightarrow> CHR '' '' \<notin> set k \<and> CHR 0x0A \<notin> set (butlast (var_summary_line T k v))"

lemma summary_line_shape: "\<exists>r. var_summary_line T k v = k @ CHR '' '' # r @ [CHR 0x0A]"
proof -
  obtain p where p: "pad_left 20 k = k @ replicate p CHR '' ''" by (auto simp: pad_left_def)
  show ?thesis
    by (cases p) (auto simp: var_summary_line_def p)
qed

lemma summary_line_rest: "var_summary_line T k v = k @ CHR '' '' # summary_rest T k v @ [CHR 0x0A]"
  using summary_line_shape [of T k v] by (auto simp: summary_rest_def)

lemma mtm_lines_entry:
  assumes "plain_line T k v"
  shows "mtm_lines width (var_summary_line T k v @ s) m =
    (let (l, m) = mtm_line width (k @ CHR '' '' # summary_rest T k v) m; (l', m) = mtm_lines width s m in (l @ l', m))"
proof -
  have "butlast (var_summary_line T k v) = k @ CHR '' '' # summary_rest T k v"
    unfolding summary_line_rest by (simp add: butlast_append)
  then have n: "CHR 0x0A \<notin> set (k @ CHR '' '' # summary_rest T k v)" using assms by (simp add: plain_line_def)
  have "MOOSChomp (var_summary_line T k v @ s) [CHR 0x0A] False = (k @ CHR '' '' # summary_rest T k v, s)"
    using MOOSChomp_piece [OF n, of s] by (simp add: summary_line_rest)
  then show ?thesis
    by (subst mtm_lines.simps) (simp add: summary_line_rest)
qed

lemma mtm_line_entry:
  assumes "plain_line T k v"
  shows "mtm_line width (k @ CHR '' '' # r) m =
    (if map_of (mt_known m) k = Some r \<and> mt_live_only m then ([], m)
     else ([(case map_of (mt_known m) k of None \<Rightarrow> Magenta | Some old \<Rightarrow> if old = r then Plain else Green,
             fit_screen width (k @ CHR '' '' # r))],
           m\<lparr>mt_known := map_set k r (mt_known m)\<rparr>))"
proof -
  have c: "MOOSChomp (k @ CHR '' '' # r) '' '' False = (k, r)"
    using MOOSChomp_piece [of "CHR '' ''" k r] assms by (simp add: plain_line_def)
  show ?thesis by (simp add: mtm_line_def c split: option.split)
qed

text \<open>What is printed of one variable, given the table before.\<close>

definition shown :: "nat \<Rightarrow> (real \<Rightarrow> string) \<Rightarrow> mtm \<Rightarrow> string \<times> db_var \<Rightarrow> (line_colour \<times> string) list" where
  "shown width T m e = (case e of (k, v) \<Rightarrow>
     let r = summary_rest T k v; known = map_of (mt_known m) k in
     if known = Some r \<and> mt_live_only m then []
     else [(case known of None \<Rightarrow> Magenta | Some old \<Rightarrow> if old = r then Plain else Green,
            fit_screen width (k @ CHR '' '' # r))])"

lemma mtm_table:
  assumes "\<forall>(k, v) \<in> set vars. plain_line T k v" "distinct (map fst vars)"
  shows "fst (mtm_lines width (concat (map (\<lambda>(k, v). var_summary_line T k v) vars)) m) = concat (map (shown width T m) vars)
    \<and> map_of (mt_known (snd (mtm_lines width (concat (map (\<lambda>(k, v). var_summary_line T k v) vars)) m))) n
      = (case map_of vars n of None \<Rightarrow> map_of (mt_known m) n | Some v \<Rightarrow> Some (summary_rest T n v))"
  using assms
proof (induction vars arbitrary: m)
  case Nil
  show ?case by (simp add: mtm_lines.simps)
next
  case (Cons e vars)
  obtain k v where e: "e = (k, v)" by (cases e)
  have p: "plain_line T k v" using Cons.prems(1) e by simp
  let ?r = "summary_rest T k v"
  define m1 where "m1 = snd (mtm_line width (k @ CHR '' '' # ?r) m)"
  have f: "fst (mtm_line width (k @ CHR '' '' # ?r) m) = shown width T m (k, v)"
    by (simp add: mtm_line_entry [OF p] shown_def Let_def)
  have k1: "map_of (mt_known m1) n = (if n = k then Some ?r else map_of (mt_known m) n)" "mt_live_only m1 = mt_live_only m" for n
    by (auto simp: m1_def mtm_line_entry [OF p])
  have sh: "shown width T m1 e' = shown width T m e'" if "e' \<in> set vars" for e'
  proof -
    have "fst e' \<in> fst ` set vars" using that by simp
    then have "fst e' \<noteq> k" using Cons.prems(2) e by auto
    then show ?thesis by (cases e') (simp add: shown_def k1)
  qed
  have "concat (map (shown width T m1) vars) = concat (map (shown width T m) vars)"
    by (rule arg_cong [of _ _ concat]) (simp add: sh)
  moreover have "map_of vars k = None" using Cons.prems(2) e by (simp add: map_of_eq_None_iff)
  ultimately show ?case
    using Cons.IH [of m1] Cons.prems e f k1
    by (auto simp: mtm_lines_entry [OF p] case_prod_unfold Let_def m1_def [symmetric] split: option.splits)
qed

text \<open>from the table that the database publishes \<open>mtm\<close> prints the variables whose entry it has not shown
  before, new ones apart from changed ones, all of them unless asked for live ones only; and it
  knows every entry then.\<close>

theorem table_shown:
  assumes "m_sVal M = concat (map (\<lambda>(k, v). var_summary_line T k v) (db_VarMap s))"
    and "\<forall>(k, v) \<in> set (db_VarMap s). plain_line T k v" "map_ok (db_VarMap s)"
  shows "let (ok, l, m') = mtm_OnSummary width M m
    in ok \<and> l = concat (map (shown width T m) (db_VarMap s)) @ [(Plain, [])]
       \<and> (\<forall>n. map_of (mt_known m') n = (case map_of (db_VarMap s) n of
            None \<Rightarrow> map_of (mt_known m) n | Some v \<Rightarrow> Some (summary_rest T n v)))"
  using mtm_table [OF assms(2) map_ok_distinct [OF assms(3)], of width m] assms(1)
  by (auto simp: mtm_OnSummary_def case_prod_unfold Let_def)

definition speed_var :: db_var where
  "speed_var = (new_var ''SPEED'')\<lparr>v_cDataType := MOOS_STRING, v_sVal := ''fast'', v_sWhoChangedMe := ''helm''\<rparr>"

definition speed_line :: string where
  "speed_line = ''SPEED'' @ replicate 16 CHR '' '' @ ''now'' @ replicate 18 CHR '' '' @ ''helm'' @ replicate 17 CHR '' ''
     @ ''0.0 Hz S  fast'' @ [CHR 0x0A]"

lemma speed_summary: "var_summary_line (\<lambda>_. ''now'') ''SPEED'' speed_var = speed_line"
proof -
  have "char_of (48 :: nat) = CHR ''0''" by code_simp
  then have "show_fixed 1 0 = ''0.0''"
    by (simp add: show_fixed_def round_even_def Let_def digits_of.simps)
  then show ?thesis
    by (simp add: var_summary_line_def speed_var_def new_var_def pad_left_def var_value_text_def numeral_eq_Suc
        speed_line_def)
qed

definition speed_db :: db where
  "speed_db = (new_db real 0 False)\<lparr>db_VarMap := [(''SPEED'', speed_var)]\<rparr>"

theorem table_shown_witness:
  "let (ok, l, m') = mtm_OnSummary 80 (msg_string MOOS_NOTIFY ''DB_VARSUMMARY'' speed_line (-1) 1) (new_mtm True)
    in ok \<and> l = concat (map (shown 80 (\<lambda>_. ''now'') (new_mtm True)) (db_VarMap speed_db)) @ [(Plain, [])]
       \<and> (\<forall>n. map_of (mt_known m') n = (case map_of (db_VarMap speed_db) n of
            None \<Rightarrow> map_of (mt_known (new_mtm True)) n | Some v \<Rightarrow> Some (summary_rest (\<lambda>_. ''now'') n v)))"
proof (rule table_shown)
  show "m_sVal (msg_string MOOS_NOTIFY ''DB_VARSUMMARY'' speed_line (-1) 1)
      = concat (map (\<lambda>(k, v). var_summary_line (\<lambda>_. ''now'') k v) (db_VarMap speed_db))"
    by (simp add: speed_db_def speed_summary msg_string_def)
  show "\<forall>(k, v) \<in> set (db_VarMap speed_db). plain_line (\<lambda>_. ''now'') k v"
    by (simp add: speed_db_def plain_line_def speed_summary speed_line_def butlast_append)
  show "map_ok (db_VarMap speed_db)" by (simp add: speed_db_def map_ok_def)
qed

text \<open>A table that has not changed shows nothing of its own in a live display.\<close>

lemma unchanged_not_shown:
  assumes "\<forall>(k, v) \<in> set vars. map_of (mt_known m) k = Some (summary_rest T k v)" "mt_live_only m"
  shows "concat (map (shown width T m) vars) = []"
  using assms by (auto simp: shown_def)

text \<open>A line end in the value of a variable makes another entry of what follows it.\<close>

lemma line_end_in_value:
  "map_of (mt_known (snd (mtm_lines 80 (''X 1'' @ [CHR 0x0A] @ ''Y 2'' @ [CHR 0x0A]) (new_mtm False)))) ''Y'' = Some ''2''"
proof -
  have a: "MOOSChomp (''X 1'' @ [CHR 0x0A] @ ''Y 2'' @ [CHR 0x0A]) [CHR 0x0A] False = (''X 1'', ''Y 2'' @ [CHR 0x0A])"
    using MOOSChomp_piece [of "CHR 0x0A" "''X 1''" "''Y 2'' @ [CHR 0x0A]"] by simp
  have b: "MOOSChomp (''Y 2'' @ [CHR 0x0A]) [CHR 0x0A] False = (''Y 2'', [])"
    using MOOSChomp_piece [of "CHR 0x0A" "''Y 2''" "[]"] by simp
  have c: "MOOSChomp ''X 1'' '' '' False = (''X'', ''1'')" "MOOSChomp ''Y 2'' '' '' False = (''Y'', ''2'')"
    using MOOSChomp_piece [of "CHR '' ''" "''X''" "''1''"] MOOSChomp_piece [of "CHR '' ''" "''Y''" "''2''"] by simp_all
  show ?thesis
    apply (subst mtm_lines.simps, simp only: a prod.case Let_def)
    apply (subst mtm_lines.simps, simp only: b prod.case Let_def)
    apply (subst mtm_lines.simps)
    apply (simp add: mtm_line_def c new_mtm_def)
    done
qed

end
