(* ===== verification/Moos_Time.thy ===== *)
theory Moos_Time
  imports Moos_Vector Moos_App
begin

text \<open>
  The clock of the library and its random numbers (\<open>Utils/MOOSUtilityFunctions.cpp\<close>): the time with
  its warp and its skew, pauses, and the numbers made of \<open>rand\<close>, which is a parameter.

  The two global variables are a record. The clock of the machine is an argument.
\<close>

section \<open>Time\<close>

record moos_clock =
  gdfMOOSTimeWarp :: real
  gdfMOOSSkew :: real

definition new_clock :: moos_clock where
  "new_clock = \<lparr>gdfMOOSTimeWarp = 1, gdfMOOSSkew = 0\<rparr>"

definition SetMOOSSkew :: "real \<Rightarrow> moos_clock \<Rightarrow> moos_clock" where
  "SetMOOSSkew dfSkew c = c\<lparr>gdfMOOSSkew := dfSkew\<rparr>"

definition set_clock_warp :: "real \<Rightarrow> moos_clock \<Rightarrow> bool \<times> moos_clock" where
  "set_clock_warp dfWarp c =
     (if dfWarp > 0 \<and> dfWarp \<le> MAX_TIME_WARP then (True, c\<lparr>gdfMOOSTimeWarp := dfWarp\<rparr>) else (False, c))"

text \<open>\<open>gettimeofday\<close> gives seconds and microseconds, or fails; the assertion that it does not only prints.\<close>

definition MOOSLocalTime :: "(int \<times> int) option \<Rightarrow> bool \<Rightarrow> moos_clock \<Rightarrow> real" where
  "MOOSLocalTime TimeVal bApplyTimeWarping c =
     (let dfT = (case TimeVal of Some (tv_sec, tv_usec) \<Rightarrow> of_int tv_sec + of_int tv_usec / 1000000 | None \<Rightarrow> - 1)
      in if bApplyTimeWarping then dfT * gdfMOOSTimeWarp c else dfT)"

definition ClockTime :: "(int \<times> int) option \<Rightarrow> bool \<Rightarrow> moos_clock \<Rightarrow> real" where
  "ClockTime TimeVal bApplyTimeWarping c = MOOSLocalTime TimeVal bApplyTimeWarping c + gdfMOOSSkew c"

text \<open>What is given to \<open>nanosleep\<close>: seconds and nanoseconds.\<close>

definition MOOSPause :: "int \<Rightarrow> bool \<Rightarrow> moos_clock \<Rightarrow> int \<times> int" where
  "MOOSPause nMS bApplyTimeWarping c =
     (let dfMilliSeconds = of_int nMS;
          dfMilliSeconds = (if bApplyTimeWarping then dfMilliSeconds / gdfMOOSTimeWarp c else dfMilliSeconds)
      in (trunc (dfMilliSeconds / 1000), trunc (fmod dfMilliSeconds 1000 * 1000000)))"

definition clock_set :: "moos_clock \<Rightarrow> bool" where
  "clock_set c \<longleftrightarrow> 0 < gdfMOOSTimeWarp c \<and> gdfMOOSTimeWarp c \<le> MAX_TIME_WARP"

lemma clock_set_new: "clock_set new_clock"
  by (simp add: clock_set_def new_clock_def MAX_TIME_WARP_def)

lemma clock_set_kept:
  "clock_set c \<Longrightarrow> clock_set (SetMOOSSkew s c)" "clock_set c \<Longrightarrow> clock_set (snd (set_clock_warp w c))"
  by (auto simp: clock_set_def SetMOOSSkew_def set_clock_warp_def)

lemma pause_parts:
  assumes "0 \<le> x" "x / 1000 < 2 ^ 31"
  shows "trunc (x / 1000) = \<lfloor>x / 1000\<rfloor>" "trunc (fmod x 1000 * 1000000) = \<lfloor>(x - 1000 * of_int \<lfloor>x / 1000\<rfloor>) * 1000000\<rfloor>"
    "0 \<le> \<lfloor>(x - 1000 * of_int \<lfloor>x / 1000\<rfloor>) * 1000000\<rfloor>" "\<lfloor>(x - 1000 * of_int \<lfloor>x / 1000\<rfloor>) * 1000000\<rfloor> < 10 ^ 9"
proof -
  let ?s = "\<lfloor>x / 1000\<rfloor>" and ?r = "x - 1000 * of_int \<lfloor>x / 1000\<rfloor>"
  have s: "0 \<le> ?s" "?s < 2 ^ 31" using assms by (auto simp: floor_less_iff)
  show "trunc (x / 1000) = ?s" using s assms(1) by (simp add: trunc_def Let_def)
  have "of_int ?s \<le> x / 1000" "x / 1000 < of_int ?s + 1" by linarith+
  then have r: "0 \<le> ?r" "?r < 1000" by linarith+
  have n: "0 \<le> \<lfloor>?r * 1000000\<rfloor>" "\<lfloor>?r * 1000000\<rfloor> < 10 ^ 9" using r by (auto simp: floor_less_iff)
  then show "0 \<le> \<lfloor>?r * 1000000\<rfloor>" "\<lfloor>?r * 1000000\<rfloor> < 10 ^ 9" by simp_all
  have "fmod x 1000 = ?r" using assms(1) by (simp add: fmod_def)
  moreover have "- (2 ^ 31) \<le> \<lfloor>?r * 1000000\<rfloor>" "\<lfloor>?r * 1000000\<rfloor> < 2 ^ 31" using n by simp_all
  ultimately show "trunc (fmod x 1000 * 1000000) = \<lfloor>?r * 1000000\<rfloor>" using r by (simp add: trunc_def Let_def)
qed

text \<open>a pause of n milliseconds asks the machine for a valid time, and the clock with its warp is n
  milliseconds further after a sleep of just that time, up to a nanosecond of the machine.\<close>

theorem pause_in_warped_time:
  assumes "clock_set c" "0 \<le> nMS" "nMS < 2 ^ 31" "gdfMOOSTimeWarp c \<ge> 1 \<or> \<not> warped"
  shows "let (sec, nsec) = MOOSPause nMS warped c; w = (if warped then gdfMOOSTimeWarp c else 1);
             slept = of_int sec + of_int nsec / 10 ^ 9
         in 0 \<le> sec \<and> 0 \<le> nsec \<and> nsec < 10 ^ 9
            \<and> slept * w \<le> of_int nMS / 1000 \<and> of_int nMS / 1000 < (slept + 1 / 10 ^ 9) * w"
proof -
  define w where "w = (if warped then gdfMOOSTimeWarp c else 1)"
  define x where "x = of_int nMS / w"
  have w: "1 \<le> w" using assms(4) by (auto simp: w_def)
  have "real_of_int nMS < real_of_int (2 ^ 31)" using assms(3) by (simp only: of_int_less_iff)
  then have nn: "(0 :: real) \<le> of_int nMS" "of_int nMS < (2 ^ 31 :: real)" using assms(2) by simp_all
  have x0: "0 \<le> x" unfolding x_def using nn(1) w by simp
  have "x \<le> of_int nMS" unfolding x_def using divide_left_mono [OF w nn(1)] w by simp
  then have x1: "x / 1000 < 2 ^ 31" using nn(2) x0 by simp
  define s where "s = \<lfloor>x / 1000\<rfloor>"
  define n where "n = \<lfloor>(x - 1000 * of_int s) * 1000000\<rfloor>"
  have "MOOSPause nMS warped c = (trunc (x / 1000), trunc (fmod x 1000 * 1000000))"
    by (simp add: MOOSPause_def Let_def x_def w_def)
  then have p: "MOOSPause nMS warped c = (s, n)"
    unfolding pause_parts(1,2) [OF x0 x1] s_def n_def .
  have n: "0 \<le> n" "n < 10 ^ 9" using pause_parts(3,4) [OF x0 x1] unfolding s_def n_def .
  have s: "0 \<le> s" using x0 by (simp add: s_def)
  have "of_int n \<le> (x - 1000 * of_int s) * 1000000" "(x - 1000 * of_int s) * 1000000 < of_int n + 1"
    unfolding n_def by linarith+
  then have "of_int s + of_int n / 10 ^ 9 \<le> x / 1000" "x / 1000 < of_int s + of_int n / 10 ^ 9 + 1 / 10 ^ 9" by (simp_all add: field_simps)
  moreover have "x / 1000 * w = of_int nMS / 1000" unfolding x_def using w by simp
  moreover have "0 < w" using w by simp
  ultimately have "(of_int s + of_int n / 10 ^ 9) * w \<le> of_int nMS / 1000"
    "of_int nMS / 1000 < (of_int s + of_int n / 10 ^ 9 + 1 / 10 ^ 9) * w"
    using mult_right_mono [of "of_int s + of_int n / 10 ^ 9" "x / 1000" w]
      mult_strict_right_mono [of "x / 1000" "of_int s + of_int n / 10 ^ 9 + 1 / 10 ^ 9" w] by simp_all
  then show ?thesis unfolding p using s n by (simp add: w_def [symmetric])
qed

section \<open>Random numbers\<close>

text \<open>\<open>rand\<close> gives a number up to \<open>RAND_MAX\<close>.\<close>

definition MOOSUniformRandom :: "nat \<Rightarrow> nat \<Rightarrow> real \<Rightarrow> real \<Rightarrow> real" where
  "MOOSUniformRandom RAND_MAX r dfMin dfMax = (let dfRand = real r / real RAND_MAX in dfRand * (dfMax - dfMin) + dfMin)"

definition MOOSDiscreteUniform :: "nat \<Rightarrow> nat \<Rightarrow> int \<Rightarrow> int \<Rightarrow> int" where
  "MOOSDiscreteUniform RAND_MAX r nMin nMax =
     (let dfVal = MOOSUniformRandom RAND_MAX r (of_int nMin) (of_int nMax); nVal = trunc dfVal
      in if dfVal - of_int nVal > 1 / 2 then nVal + 1 else nVal)"

lemma uniform_in_range:
  assumes "r \<le> RAND_MAX" "0 < RAND_MAX" "a \<le> b"
  shows "a \<le> MOOSUniformRandom RAND_MAX r a b" "MOOSUniformRandom RAND_MAX r a b \<le> b"
proof -
  let ?f = "real r / real RAND_MAX"
  have f: "0 \<le> ?f" "?f \<le> 1" using assms(1,2) by auto
  have "0 \<le> ?f * (b - a)" using f(1) assms(3) by simp
  then show "a \<le> MOOSUniformRandom RAND_MAX r a b" by (simp add: MOOSUniformRandom_def)
  have "?f * (b - a) \<le> 1 * (b - a)" using f(2) assms(3) by (intro mult_right_mono) auto
  then show "MOOSUniformRandom RAND_MAX r a b \<le> b" by (simp add: MOOSUniformRandom_def)
qed

text \<open>A discrete random number is one of the range that is asked for.\<close>

lemma discrete_in_range:
  assumes "r \<le> RAND_MAX" "0 < RAND_MAX" "nMin \<le> nMax" "- (2 ^ 31) \<le> nMin" "nMax < 2 ^ 31"
  shows "nMin \<le> MOOSDiscreteUniform RAND_MAX r nMin nMax \<and> MOOSDiscreteUniform RAND_MAX r nMin nMax \<le> nMax"
proof -
  define x where "x = MOOSUniformRandom RAND_MAX r (of_int nMin) (of_int nMax)"
  have x: "of_int nMin \<le> x" "x \<le> of_int nMax"
    using uniform_in_range [OF assms(1,2), of "of_int nMin" "of_int nMax"] assms(3) by (simp_all add: x_def)
  have fl: "nMin \<le> \<lfloor>x\<rfloor>" "\<lceil>x\<rceil> \<le> nMax" "\<lfloor>x\<rfloor> \<le> \<lceil>x\<rceil>" using x by (simp_all add: le_floor_iff ceiling_le_iff)
  have nx: "\<lfloor>x\<rfloor> \<le> nMax" "nMin \<le> \<lceil>x\<rceil>" using fl by linarith+
  have r: "- (2 ^ 31) \<le> \<lfloor>x\<rfloor> \<and> \<lfloor>x\<rfloor> < 2 ^ 31" "- (2 ^ 31) \<le> \<lceil>x\<rceil> \<and> \<lceil>x\<rceil> < 2 ^ 31"
    using fl assms(4,5) by linarith+
  have t: "trunc x = (if 0 \<le> x then \<lfloor>x\<rfloor> else \<lceil>x\<rceil>)"
    unfolding trunc_def Let_def using r by (cases "0 \<le> x") (simp_all only: if_True if_False simp_thms)
  show ?thesis
  proof (cases "0 \<le> x")
    case True
    have "x - of_int \<lfloor>x\<rfloor> > 1 / 2 \<Longrightarrow> \<lfloor>x\<rfloor> + 1 \<le> \<lceil>x\<rceil>" by linarith
    then show ?thesis using True t fl nx by (auto simp: MOOSDiscreteUniform_def Let_def x_def [symmetric])
  next
    case False
    have "\<not> x - of_int \<lceil>x\<rceil> > 1 / 2" by linarith
    then show ?thesis using False t fl nx by (auto simp: MOOSDiscreteUniform_def Let_def x_def [symmetric])
  qed
qed

text \<open>The polar method: two numbers for each try, until they are in the circle. \<open>None\<close> is a loop that goes
  on after the numbers given.\<close>

fun polar :: "nat \<Rightarrow> nat list \<Rightarrow> (real \<times> real \<times> real \<times> nat list) option" where
  "polar RAND_MAX (r1 # r2 # rs) =
     (let u1 = real r1 / real RAND_MAX; u2 = real r2 / real RAND_MAX; v1 = 2 * u1 - 1; v2 = 2 * u2 - 1;
          s = v1 * v1 + v2 * v2
      in if s > 1 then polar RAND_MAX rs else Some (v1, v2, s, rs))"
| "polar RAND_MAX _ = None"

text \<open>Every second call returns what the one before kept.\<close>

definition MOOSWhiteNoise ::
  "nat \<Rightarrow> real \<Rightarrow> nat list \<times> real option \<Rightarrow> (real \<times> nat list \<times> real option) option" where
  "MOOSWhiteNoise RAND_MAX sg x =
     (case x of
        (rs, None) \<Rightarrow>
          (case polar RAND_MAX rs of
             None \<Rightarrow> None
           | Some (v1, v2, s, rs) \<Rightarrow>
               (let fac = sqrt ((- 2 * ln s) / s) in Some (v2 * fac * sg, rs, Some (v1 * fac))))
      | (rs, Some gset) \<Rightarrow> Some (gset * sg, rs, None))"

lemma odd_not_half: "odd M \<Longrightarrow> 2 * (real r / real M) - 1 \<noteq> 0"
proof
  assume o: "odd M" and z: "2 * (real r / real M) - 1 = 0"
  have m: "real M \<noteq> 0" using o by (cases M) auto
  have "2 * real r = real M" using z m by (simp add: field_simps)
  then have "2 * r = M" by (metis of_nat_eq_iff of_nat_mult of_nat_numeral)
  then show False using o by auto
qed

lemma polar_point:
  "polar M rs = Some (v1, v2, s, rs') \<Longrightarrow> odd M \<Longrightarrow> s = v1 * v1 + v2 * v2 \<and> 0 < s \<and> s \<le> 1"
proof (induction M rs rule: polar.induct)
  case (1 M r1 r2 rs)
  let ?x = "2 * (real r1 / real M) - 1" and ?y = "2 * (real r2 / real M) - 1"
  have pos: "0 < ?x * ?x + ?y * ?y"
    using odd_not_half [OF 1(3), of r1] by (intro add_pos_nonneg) (metis not_real_square_gt_zero, simp)
  show ?case
  proof (cases "?x * ?x + ?y * ?y > 1")
    case True
    then have "polar M rs = Some (v1, v2, s, rs')" using 1(2) by (simp add: Let_def)
    then show ?thesis using 1(1) [OF refl refl refl refl refl True] 1(3) by blast
  next
    case False
    then have "v1 = ?x \<and> v2 = ?y \<and> s = ?x * ?x + ?y * ?y" using 1(2) by (auto simp: Let_def)
    then show ?thesis using pos False by (simp only: not_less simp_thms)
  qed
qed simp_all

text \<open>two calls in a row give the two coordinates of one point: its distance depends only on the
  point of the circle that was drawn, and is a number for every \<open>rand\<close> with an odd maximum.\<close>

theorem noise_in_pairs:
  assumes "odd RAND_MAX" "MOOSWhiteNoise RAND_MAX sg (rs, None) = Some (a, rs', g)"
    and "MOOSWhiteNoise RAND_MAX sg (rs', g) = Some (b, rs'', g')"
  shows "\<exists>v1 v2 s. polar RAND_MAX rs = Some (v1, v2, s, rs') \<and> 0 < s \<and> s \<le> 1 \<and> rs'' = rs' \<and> g' = None
    \<and> a ^ 2 + b ^ 2 = - 2 * ln s * sg ^ 2"
proof -
  obtain v1 v2 s where p: "polar RAND_MAX rs = Some (v1, v2, s, rs')"
    and a: "a = v2 * sqrt ((- 2 * ln s) / s) * sg" and g: "g = Some (v1 * sqrt ((- 2 * ln s) / s))"
    using assms(2) by (auto simp: MOOSWhiteNoise_def Let_def split: option.splits)
  have s: "s = v1 * v1 + v2 * v2" "0 < s" "s \<le> 1" using polar_point [OF p assms(1)] by simp_all
  have b: "b = v1 * sqrt ((- 2 * ln s) / s) * sg" "rs'' = rs'" "g' = None"
    using assms(3) by (simp_all add: MOOSWhiteNoise_def g)
  have f: "sqrt ((- 2 * ln s) / s) ^ 2 = (- 2 * ln s) / s"
    using s(2,3) ln_le_zero_iff [of s] by (intro real_sqrt_pow2 divide_nonneg_pos) simp_all
  have "(v2 * q * sg) ^ 2 + (v1 * q * sg) ^ 2 = (v1 * v1 + v2 * v2) * q ^ 2 * sg ^ 2" for q :: real
    by (simp add: power2_eq_square algebra_simps)
  then have "a ^ 2 + b ^ 2 = (v1 * v1 + v2 * v2) * sqrt ((- 2 * ln s) / s) ^ 2 * sg ^ 2" unfolding a b(1) .
  also have "\<dots> = - 2 * ln s * sg ^ 2" unfolding f s(1) [symmetric] using s(2) by simp
  finally show ?thesis using p s b(2,3) by blast
qed

section \<open>A table of the normal distribution\<close>

text \<open>In units of 1 / 10000.\<close>

definition dfNormInv :: "int list" where
  "dfNormInv = [
    0, - 23263, - 20537, - 18808, - 17507, - 16449, - 15548, - 14758, - 14051, - 13408, - 12816,
    - 12265, - 11750, - 11264, - 10803, - 10364, - 9945, - 9542, - 9154, - 8779, - 8416, - 8064,
    - 7722, - 7388, - 7063, - 6745, - 6433, - 6128, - 5828, - 5534, - 5244, - 4959, - 4677, - 4399,
    - 4125, - 3853, - 3585, - 3319, - 3055, - 2793, - 2533, - 2275, - 2019, - 1764, - 1510, - 1257,
    - 1004, - 753, - 502, - 251, 0, 251, 502, 753, 1004, 1257, 1510, 1764, 2019, 2275, 2533, 2793,
    3055, 3319, 3585, 3853, 4125, 4399, 4677, 4959, 5244, 5534, 5828, 6128, 6433, 6745, 7063, 7388,
    7722, 8064, 8416, 8779, 9154, 9542, 9945, 10364, 10803, 11264, 11750, 12265, 12816, 13408, 14051,
    14758, 15548, 16449, 17507, 18808, 20537, 23263, 0
   ]"

definition MOOSNormalInv :: "real \<Rightarrow> real" where
  "MOOSNormalInv dfArea =
     (if dfArea < 0 then - (10 ^ 60) else if dfArea \<ge> 1 then 10 ^ 60
      else of_int (dfNormInv ! nat (trunc (dfArea * 100))) / 10000)"

lemma table_ascends: "sorted (tl (butlast dfNormInv))"
  by code_simp

lemma table_symmetric: "rev dfNormInv = map uminus dfNormInv"
  by code_simp

lemma hundredths:
  assumes "0 \<le> a" "a < 1"
  shows "trunc (a * 100) = \<lfloor>a * 100\<rfloor>" "0 \<le> \<lfloor>a * 100\<rfloor>" "\<lfloor>a * 100\<rfloor> < 100"
proof -
  show r: "0 \<le> \<lfloor>a * 100\<rfloor>" "\<lfloor>a * 100\<rfloor> < 100" using assms by (auto simp: floor_less_iff)
  then have "- (2 ^ 31) \<le> \<lfloor>a * 100\<rfloor>" "\<lfloor>a * 100\<rfloor> < 2 ^ 31" by simp_all
  then show "trunc (a * 100) = \<lfloor>a * 100\<rfloor>" using assms(1) by (simp add: trunc_def Let_def)
qed

text \<open>From a hundredth on the table ascends.\<close>

lemma normal_inv_mono:
  assumes "1 / 100 \<le> a" "a \<le> b" "b < 1"
  shows "MOOSNormalInv a \<le> MOOSNormalInv b"
proof -
  let ?i = "nat \<lfloor>a * 100\<rfloor>" and ?j = "nat \<lfloor>b * 100\<rfloor>" and ?t = "tl (butlast dfNormInv)"
  have len: "length dfNormInv = 101" by code_simp
  have h: "trunc (a * 100) = \<lfloor>a * 100\<rfloor>" "trunc (b * 100) = \<lfloor>b * 100\<rfloor>" "\<lfloor>b * 100\<rfloor> < 100"
    using hundredths [of a] hundredths [of b] assms by simp_all
  have "1 \<le> \<lfloor>a * 100\<rfloor>" using assms(1) by (simp add: le_floor_iff)
  moreover have "\<lfloor>a * 100\<rfloor> \<le> \<lfloor>b * 100\<rfloor>" using assms(2) by (intro floor_mono) simp
  ultimately have ij: "1 \<le> ?i" "?i \<le> ?j" "?j < 100" using h(3) by linarith+
  have nth: "dfNormInv ! k = ?t ! (k - 1)" if "1 \<le> k" "k < 100" for k
    using that len by (simp add: nth_tl nth_butlast)
  have "?t ! (?i - 1) \<le> ?t ! (?j - 1)"
    using table_ascends ij len by (intro sorted_nth_mono) simp_all
  then have "dfNormInv ! ?i \<le> dfNormInv ! ?j" using nth [of ?i] nth [of ?j] ij by simp
  then show ?thesis using assms h by (simp add: MOOSNormalInv_def)
qed

text \<open>Below a hundredth it gives 0, as for one half.\<close>

lemma normal_inv_low:
  assumes "0 \<le> a" "a < 1 / 100"
  shows "MOOSNormalInv a = 0"
proof -
  have "\<lfloor>a * 100\<rfloor> = 0" using assms by (simp add: floor_eq_iff)
  then show ?thesis using hundredths [of a] assms by (simp add: MOOSNormalInv_def dfNormInv_def)
qed

section \<open>Examples\<close>

theorem pause_in_warped_time_witness:
  "let (sec, nsec) = MOOSPause 2500 True (snd (set_clock_warp 4 new_clock));
       w = (if True then gdfMOOSTimeWarp (snd (set_clock_warp 4 new_clock)) else 1);
       slept = of_int sec + of_int nsec / 10 ^ 9
   in 0 \<le> sec \<and> 0 \<le> nsec \<and> nsec < 10 ^ 9
      \<and> slept * w \<le> of_int 2500 / 1000 \<and> of_int 2500 / 1000 < (slept + 1 / 10 ^ 9) * w"
proof (rule pause_in_warped_time)
  show "clock_set (snd (set_clock_warp 4 new_clock))" by (intro clock_set_kept clock_set_new)
  show "gdfMOOSTimeWarp (snd (set_clock_warp 4 new_clock)) \<ge> 1 \<or> \<not> True"
    by (simp add: set_clock_warp_def MAX_TIME_WARP_def)
qed simp_all

lemma noise_example: "MOOSWhiteNoise 3 1 ([3, 3, 2, 1], None) = Some (- 1 / 3 * sqrt (- 2 * ln (2 / 9) / (2 / 9)), [],
   Some (1 / 3 * sqrt (- 2 * ln (2 / 9) / (2 / 9))))"
  by (simp add: MOOSWhiteNoise_def Let_def)

theorem noise_in_pairs_witness:
  "\<exists>v1 v2 s. polar 3 [3, 3, 2, 1] = Some (v1, v2, s, []) \<and> 0 < s \<and> s \<le> 1 \<and> ([] :: nat list) = [] \<and> (None :: real option) = None
    \<and> (- 1 / 3 * sqrt (- 2 * ln (2 / 9) / (2 / 9))) ^ 2 + (1 / 3 * sqrt (- 2 * ln (2 / 9) / (2 / 9)) * 1) ^ 2
      = - 2 * ln s * 1 ^ 2"
  by (rule noise_in_pairs [OF _ noise_example]) (simp_all add: MOOSWhiteNoise_def)

end
