(* ===== verification/Moos_DBLaunch.thy ===== *)
theory Moos_DBLaunch
  imports Moos_AppConfig Moos_Time Moos_ThreadedProperties
begin

text \<open>
  The start of the database, \<open>CMOOSDB::Run\<close> (\<open>DB/MOOSDB.cpp\<close>): the settings it takes from the mission
  file and the command line, and the server it starts with them.

  \<^item> \<open>db_settings\<close> are the local variables of \<open>Run\<close> and what it sets of the process. The answers of
    GetPot are an argument, the command line being there once \<open>Run\<close> has parsed it.
  \<^item> \<open>db_launch\<close> is how \<open>Run\<close> ends: two flags print something and end the process.
  \<^item> Colours and banners are printing. The build defines \<open>DEFAULT_NO_NAGLE\<close>.
\<close>

section \<open>Settings\<close>

record db_settings =
  g_sCommunityName :: string
  g_clock :: moos_clock
  g_bDisableNameLookUp :: bool
  g_nPort :: int
  g_WebServer :: "(int \<times> int) option"
  g_dfClientTimeout :: real
  g_EventLog :: "string option"
  g_dfWarningLatencyMS :: real
  g_bTCPNoDelay :: bool
  g_bBoost :: bool
  g_bSingleThreaded :: bool
  g_nAuditPort :: int
  g_Sleeper :: sleeper

datatype db_server = Single server | Threaded tserver

datatype db_launch = PrintsVersion | PrintsHelp | Launched db_settings db_server

definition DEFAULT_MOOS_SERVER_PORT :: int where "DEFAULT_MOOS_SERVER_PORT = 9000"

text \<open>A variable with its default is looked up in the mission file, then on the command line.\<close>

definition setting ::
  "(host \<Rightarrow> string \<Rightarrow> file_reader \<Rightarrow> ('a option \<times> file_reader) option)
   \<Rightarrow> (string \<Rightarrow> 'a \<Rightarrow> command_line \<Rightarrow> bool \<times> 'a)
   \<Rightarrow> host \<Rightarrow> command_line \<Rightarrow> string \<Rightarrow> string \<Rightarrow> 'a \<Rightarrow> file_reader \<Rightarrow> ('a \<times> file_reader) option" where
  "setting file cmd h cl sName sVar x R =
     map_option (\<lambda>(v, R). (snd (cmd sVar (keep x v) cl), R)) (file h sName R)"

definition configure_warp :: "command_line \<Rightarrow> real option \<Rightarrow> moos_clock \<Rightarrow> moos_clock" where
  "configure_warp cl v c =
     (let c = (case v of None \<Rightarrow> c | Some w \<Rightarrow> snd (set_clock_warp w c));
          dfWarp = snd (GetVariable_double ''--moos_time_warp'' (keep 1 v) cl)
      in if dfWarp > 0 then snd (set_clock_warp dfWarp c) else c)"

definition db_sleeper :: "command_line \<Rightarrow> string \<Rightarrow> sleeper \<Rightarrow> sleeper" where
  "db_sleeper cl sDBName z =
     (let z = (case GetVariable_string ''--moos_suicide_channel'' [] cl of
                 (True, a) \<Rightarrow> z\<lparr>z_channel := a\<rparr> | (False, _) \<Rightarrow> z);
          z = (case GetVariable_int ''--moos_suicide_port'' 0 cl of
                 (True, n) \<Rightarrow> z\<lparr>z_port := n\<rparr> | (False, _) \<Rightarrow> z);
          z = (case GetVariable_string ''--moos_suicide_phrase'' [] cl of
                 (True, p) \<Rightarrow> z\<lparr>z_pass_phrase := p\<rparr> | (False, _) \<Rightarrow> z)
      in if GetFlag ''--moos_suicide_disable'' [] cl then z else z\<lparr>z_name := sDBName, z_running := True\<rparr>)"

text \<open>The first half of \<open>Run\<close>, up to the version.\<close>

definition first_settings :: "host \<Rightarrow> command_line \<Rightarrow> file_reader \<Rightarrow> (db_settings \<times> file_reader) option" where
  "first_settings h cl R = do {
     (b, R) \<leftarrow> SetFile h (GetFreeParameter 0 ''Mission.moos'' cl) R;
     (sCommunityName, R) \<leftarrow> setting GetValue GetVariable_string h cl ''COMMUNITY'' ''--moos_community'' ''#1'' R;
     (v, R) \<leftarrow> GetValue_double h ''MOOSTimeWarp'' R;
     let clock = configure_warp cl v new_clock;
     (v, R) \<leftarrow> GetValue_bool h ''NoNetwork'' R;
     let bDisableNameLookUp = (if GetFlag ''-d'' ''--dns'' cl then False else keep True v);
     (nPort, R) \<leftarrow> setting GetValue_int GetVariable_int h cl ''SERVERPORT'' ''--moos_port'' DEFAULT_MOOS_SERVER_PORT R;
     (nWebServerPort, R) \<leftarrow> setting GetValue_int GetVariable_int h cl ''WEBSERVERPORT'' ''--webserver_port'' (- 1) R;
     (dfClientTimeout, R) \<leftarrow> setting GetValue_double GetVariable_double h cl ''ClientTimeout'' ''--moos_timeout'' 5 R;
     let log = (case GetVariable_string ''--event_log'' [] cl of (True, f) \<Rightarrow> Some f | (False, _) \<Rightarrow> None);
     (dfWarningLatencyMS, R) \<leftarrow>
       setting GetValue_double GetVariable_double h cl ''WarningLatency'' ''--warning_latency'' 50 R;
     Some (\<lparr>g_sCommunityName = sCommunityName, g_clock = clock, g_bDisableNameLookUp = bDisableNameLookUp,
        g_nPort = nPort, g_WebServer = (if nWebServerPort > 0 then Some (nPort, nWebServerPort) else None),
        g_dfClientTimeout = dfClientTimeout, g_EventLog = log, g_dfWarningLatencyMS = dfWarningLatencyMS,
        g_bTCPNoDelay = True, g_bBoost = False, g_bSingleThreaded = False, g_nAuditPort = 9020,
        g_Sleeper = new_sleeper\<rparr>, R) }"

definition last_settings :: "command_line \<Rightarrow> bool option \<Rightarrow> db_settings \<Rightarrow> db_settings" where
  "last_settings cl v S = S\<lparr>
     g_bTCPNoDelay := (if GetFlag ''--tcpnodelay'' [] cl then True else keep (g_bTCPNoDelay S) v),
     g_bBoost := GetFlag ''--moos_boost'' ''-b'' cl,
     g_bSingleThreaded := GetFlag ''-s'' ''--single_threaded'' cl,
     g_nAuditPort := snd (GetVariable_unsigned ''--audit_port'' (g_nAuditPort S) cl),
     g_Sleeper := db_sleeper cl (''MOOSDB_'' @ g_sCommunityName S) (g_Sleeper S)\<rparr>"

section \<open>The server\<close>

text \<open>The database with its names, and the server over it; \<open>opens\<close> is whether the event log is written.\<close>

definition launched_server :: "db_settings \<Rightarrow> (nat \<Rightarrow> real) \<Rightarrow> real \<Rightarrow> bool \<Rightarrow> server" where
  "launched_server S clock dfStart opens =
     (let db = StartDB (g_sCommunityName S) (new_db clock dfStart (g_EventLog S \<noteq> None \<and> opens))
      in snd (SetClientTimeout (g_dfClientTimeout S) (new_server db))\<lparr>s_sCommunityName := g_sCommunityName S\<rparr>)"

definition log_start :: "db_settings \<Rightarrow> server \<Rightarrow> server" where
  "log_start S s = s\<lparr>s_DB := AddEvent ''DBStart'' ''MOOSDB'' (MOOSFormat (''Port='' @ show_int (g_nPort S))) (s_DB s)\<rparr>"

definition start_server :: "command_line \<Rightarrow> db_settings \<Rightarrow> server \<Rightarrow> db_server" where
  "start_server cl S s =
     (if g_bSingleThreaded S then Single (log_start S s)
      else (let t = SetResponses (snd (GetVariable_string ''--response'' ''0'' cl)) (new_tserver s)
            in Threaded (t\<lparr>t_Base := log_start S (t_Base t)\<rparr>)))"

definition DBRun :: "host \<Rightarrow> getpot \<Rightarrow> (nat \<Rightarrow> real) \<Rightarrow> real \<Rightarrow> bool \<Rightarrow> db_launch option" where
  "DBRun h g clock dfStart opens =
     (let cl = Some g in do {
        (S, R) \<leftarrow> first_settings h cl new_file_reader;
        if GetFlag ''--moos_print_version'' [] cl then Some PrintsVersion
        else do {
          (v, R) \<leftarrow> GetValue_bool h ''tcpnodelay'' R;
          if GetFlag ''-h'' ''--help'' cl then Some PrintsHelp
          else (let S = last_settings cl v S
                in Some (Launched S (start_server cl S (launched_server S clock dfStart opens)))) } })"

section \<open>What the mission file says\<close>

definition file_value :: "host \<Rightarrow> string \<Rightarrow> file_reader \<Rightarrow> string option" where
  "file_value h n R = Option.bind (GetValue h n R) fst"

text \<open>A reader that answers from \<open>says\<close>, now and after every question.\<close>

definition reads :: "host \<Rightarrow> (string \<Rightarrow> string option) \<Rightarrow> file_reader \<Rightarrow> bool" where
  "reads h says R \<longleftrightarrow> settled h R \<and> (\<forall>n. file_value h n R = says n)"

lemma file_value_ready:
  assumes "ready h w R"
  shows "file_value h n R = Option.bind (read_loop h True (value_body n) () (open_at R w w)) (\<lambda>x. found (fst x))"
  using ready_reset [OF assms] ready_open [OF assms]
  by (cases "read_loop h True (value_body n) () (open_at R w w)")
    (simp_all add: file_value_def GetValue_def rewind_open_at split_beta)

lemma reads_value:
  assumes "reads h says R"
  shows "\<exists>R'. GetValue h n R = Some (says n, R') \<and> reads h says R'"
proof (cases "no_file h R")
  case True
  then have "GetValue h n R = Some (None, R)" using no_file_closed [OF True] by (simp add: GetValue_def)
  moreover from this have "says n = None" using assms by (metis bind.bind_lunit file_value_def fst_conv reads_def)
  ultimately show ?thesis using assms by simp
next
  case False
  then obtain w where w: "ready h w R" "lines_fit w" using assms by (auto simp: reads_def settled_def)
  obtain v R' where v: "GetValue h n R = Some (v, R')" "ready h w R'" "same_file R R'"
    using GetValue_same [OF w] by blast
  have "file_value h m R' = file_value h m R" for m
    using file_value_ready [OF v(2)] file_value_ready [OF w(1)] open_at_same [OF v(3)] by simp
  moreover have "file_value h n R = v" using v(1) by (simp add: file_value_def)
  then have "v = says n" using assms by (simp add: reads_def)
  ultimately show ?thesis using assms v w(2) by (auto simp: reads_def settled_def)
qed

definition yields :: "host \<Rightarrow> (string \<Rightarrow> string option) \<Rightarrow> 'a \<Rightarrow> ('a \<times> file_reader) option \<Rightarrow> bool" where
  "yields h says v x \<longleftrightarrow> (\<exists>R. x = Some (v, R) \<and> reads h says R)"

lemma yields_bind:
  "yields h says v x \<Longrightarrow> (\<And>R. reads h says R \<Longrightarrow> yields h says v' (k v R)) \<Longrightarrow>
    yields h says v' (Option.bind x (\<lambda>(v, R). k v R))"
  by (auto simp: yields_def)

lemma yields_Some: "reads h says R \<Longrightarrow> yields h says v (Some (v, R))"
  by (simp add: yields_def)

lemma yields_value:
  assumes "reads h says R"
  shows "yields h says (says n) (GetValue h n R)"
    "yields h says (Option.bind (says n) conv) (GetValue_as conv h n R)"
  using reads_value [OF assms, of n] by (auto simp: yields_def GetValue_as_def)

lemma yields_setting:
  assumes "yields h says v (file h n R)"
  shows "yields h says (snd (cmd var (keep x v) cl)) (setting file cmd h cl n var x R)"
  using assms by (auto simp: yields_def setting_def)

definition mission_value :: "host \<Rightarrow> string \<Rightarrow> string \<Rightarrow> string option" where
  "mission_value h f n = Option.bind (SetFile h f new_file_reader) (\<lambda>(_, R). file_value h n R)"

lemma mission_file_read:
  assumes "h_disk h f = None \<or> (\<exists>w. h_disk h f = Some w \<and> lines_fit w)"
  shows "\<exists>b. yields h (mission_value h f) b (SetFile h f new_file_reader)"
proof -
  have "\<exists>b R. SetFile h f new_file_reader = Some (b, R) \<and> settled h R"
  proof (cases "f \<noteq> [] \<and> h_disk h f \<noteq> None")
    case True
    then obtain w where "f \<noteq> []" "h_disk h f = Some w" "lines_fit w" using assms by auto
    from SetFile_returns [OF this, of new_file_reader] \<open>lines_fit w\<close> show ?thesis by (auto simp: settled_def)
  next
    case False
    then have n: "no_file h (new_file_reader\<lparr>r_sFileName := f\<rparr>)" by (auto simp: no_file_def new_file_reader_def)
    with no_file_closed [OF n] show ?thesis by (auto simp: SetFile_def Let_def settled_def)
  qed
  then show ?thesis by (auto simp: yields_def reads_def mission_value_def)
qed

text \<open>In a file of lines: the first that names it.\<close>

fun said :: "string \<Rightarrow> string list \<Rightarrow> string option" where
  "said n [] = None"
| "said n (l # ls) =
     (case GetTokenValPair l False of
        None \<Rightarrow> said n ls
      | Some (sTok, sVal) \<Rightarrow> if MOOSStrCmp sTok n then Some sVal else said n ls)"

lemma said_of_lines:
  assumes "lines_ok ls"
  shows "Option.bind (read_loop h True (value_body n) () (open_at R w (render ls))) (\<lambda>x. found (fst x))
    = said n (map snd ls)"
  using assms
proof (induction ls)
  case Nil
  have "value_body n [] () = Inl ()" by (simp add: value_body_def GetTokenValPair_def)
  from read_loop_end [of "value_body n", OF this, of h True R w] show ?case by (auto simp: found_def)
next
  case (Cons p ls)
  obtain g l where p: "p = (g, l)" by (cases p)
  show ?case
    using Cons by (auto simp: p read_loop_line value_body_def found_def split: option.split)
qed

lemma mission_value_lines:
  assumes "f \<noteq> []" "h_disk h f = Some (render ls)" "lines_ok ls" "lines_fit (render ls)"
  shows "mission_value h f n = said n (map snd ls)"
proof -
  obtain R where "SetFile h f new_file_reader = Some (True, R)" "ready h (render ls) R"
    using SetFile_returns [OF assms(1,2,4)] by blast
  then show ?thesis
    using file_value_ready [of h "render ls" R n] said_of_lines [OF assms(3), of h n R "render ls"]
    by (simp add: mission_value_def)
qed

section \<open>Settings that are read\<close>

definition overridden :: "getpot \<Rightarrow> (getpot \<Rightarrow> string \<Rightarrow> 'a \<Rightarrow> 'a) \<Rightarrow> string \<Rightarrow> 'a \<Rightarrow> 'a" where
  "overridden g val var x = (if var \<in> set (gp_names g) then val g var x else x)"

lemma get_variable_value: "snd (get_variable val var x (Some g)) = overridden g val var x"
  by (simp add: get_variable_def CommandLineVariableExists_def overridden_def)

lemmas variable_value = get_variable_value [of gp_string, folded GetVariable_string_def]
  get_variable_value [of gp_int, folded GetVariable_int_def]
  get_variable_value [of gp_real, folded GetVariable_double_def]

definition valid_warp :: "real \<Rightarrow> bool" where
  "valid_warp w \<longleftrightarrow> 0 < w \<and> w \<le> MAX_TIME_WARP"

lemma warp_configured:
  "configure_warp (Some g) v new_clock = new_clock\<lparr>gdfMOOSTimeWarp :=
     (let w = overridden g gp_real ''--moos_time_warp'' (keep 1 v)
      in if valid_warp w then w else if valid_warp (keep 1 v) then keep 1 v else 1)\<rparr>"
  by (cases v) (auto simp: configure_warp_def variable_value set_clock_warp_def valid_warp_def keep_def new_clock_def
      Let_def MAX_TIME_WARP_def)

lemma first_settings_read:
  assumes "h_disk h f = None \<or> (\<exists>w. h_disk h f = Some w \<and> lines_fit w)"
    and f: "f = GetFreeParameter 0 ''Mission.moos'' (Some g)" and says: "says = mission_value h f"
  shows "\<exists>S. yields h says S (first_settings h (Some g) new_file_reader)
    \<and> g_sCommunityName S = overridden g gp_string ''--moos_community'' (keep ''#1'' (says ''COMMUNITY''))
    \<and> g_nPort S = overridden g gp_int ''--moos_port'' (keep 9000 (Option.bind (says ''SERVERPORT'') int_of))
    \<and> g_clock S = configure_warp (Some g) (Option.bind (says ''MOOSTimeWarp'') double_of) new_clock
    \<and> g_dfClientTimeout S = overridden g gp_real ''--moos_timeout'' (keep 5 (Option.bind (says ''ClientTimeout'') double_of))
    \<and> g_dfWarningLatencyMS S
      = overridden g gp_real ''--warning_latency'' (keep 50 (Option.bind (says ''WarningLatency'') double_of))
    \<and> g_bTCPNoDelay S \<and> g_Sleeper S = new_sleeper"
proof -
  obtain b where b: "yields h says b (SetFile h f new_file_reader)"
    using mission_file_read [OF assms(1)] says by blast
  show ?thesis
    unfolding first_settings_def f [symmetric] Let_def GetValue_double_def GetValue_int_def GetValue_bool_def
    apply (rule exI, rule conjI)
     apply (rule yields_bind [OF b])
     apply (rule yields_bind, rule yields_setting, rule yields_value(1), assumption)
     apply (rule yields_bind, rule yields_value(2), assumption)
     apply (rule yields_bind, rule yields_value(2), assumption)
     apply (rule yields_bind, rule yields_setting, rule yields_value(2), assumption)+
     apply (rule yields_Some, assumption)
    apply (simp add: variable_value DEFAULT_MOOS_SERVER_PORT_def)
    done
qed

lemma sleeper_runs: "z_running (db_sleeper (Some g) n new_sleeper) = (\<not> gp_search g ''--moos_suicide_disable'')"
  by (simp add: db_sleeper_def GetFlag_def new_sleeper_def Let_def split: prod.split bool.split)

section \<open>The database runs\<close>

text \<open>A server with the names and the time-out of the settings, whose invariants hold.\<close>

definition serves :: "db_settings \<Rightarrow> server \<Rightarrow> bool" where
  "serves S s \<longleftrightarrow> server_ok s \<and> db_ok (s_DB s) \<and> s_sCommunityName s = g_sCommunityName S
     \<and> db_sCommunityName (s_DB s) = g_sCommunityName S \<and> db_sDBName (s_DB s) = ''MOOSDB_'' @ g_sCommunityName S
     \<and> s_dfClientTimeout s = (if g_dfClientTimeout S < 0 then 5 else g_dfClientTimeout S)"

lemma log_start_simps [simp]:
  "server_ok (log_start S s) = server_ok s" "db_ok (s_DB (log_start S s)) = db_ok (s_DB s)"
  "s_sCommunityName (log_start S s) = s_sCommunityName s" "s_dfClientTimeout (log_start S s) = s_dfClientTimeout s"
  "db_sCommunityName (s_DB (log_start S s)) = db_sCommunityName (s_DB s)"
  "db_sDBName (s_DB (log_start S s)) = db_sDBName (s_DB s)"
  "client_fits n th q (log_start S s) = client_fits n th q s"
  by (simp_all add: log_start_def server_ok_def client_fits_def known_def split: option.split)

lemma launched_serves:
  "server_reach (launched_server S clock dfStart opens)"
  "serves S (launched_server S clock dfStart opens)"
proof -
  let ?db = "StartDB (g_sCommunityName S) (new_db clock dfStart (g_EventLog S \<noteq> None \<and> opens))"
  have r: "db_reach ?db" by (rule reach_start)
  show "server_reach (launched_server S clock dfStart opens)"
    unfolding launched_server_def Let_def by (rule sreach_start [OF r])
  show "serves S (launched_server S clock dfStart opens)"
    using db_reach_ok [OF r]
    by (simp add: serves_def launched_server_def Let_def SetClientTimeout_def new_server_def server_ok_def
        StartDB_def LogStartTime_eq)
qed

definition runs_on :: "db_settings \<Rightarrow> db_server \<Rightarrow> bool" where
  "runs_on S sv \<longleftrightarrow>
     (case sv of
        Single s \<Rightarrow> g_bSingleThreaded S \<and> serves S s \<and> (\<exists>s'. server_reach s' \<and> s = log_start S s')
      | Threaded t \<Rightarrow> \<not> g_bSingleThreaded S \<and> t_ok t \<and> serves S (t_Base t)
          \<and> (\<exists>t'. t_reach t' \<and> t = t'\<lparr>t_Base := log_start S (t_Base t')\<rparr>))"

lemma started_runs:
  "runs_on S (start_server cl S (launched_server S clock dfStart opens))"
proof -
  let ?s = "launched_server S clock dfStart opens"
  let ?t = "SetResponses (snd (GetVariable_string ''--response'' ''0'' cl)) (new_tserver ?s)"
  have t: "t_reach ?t" unfolding launched_server_def Let_def by (rule treach_start) (rule reach_start)
  have b: "t_Base ?t = ?s" by (simp add: SetResponses_def new_tserver_def)
  have "t_ok (?t\<lparr>t_Base := log_start S ?s\<rparr>)"
    using conjunct1 [OF t_reach_ok [OF t]] by (simp add: t_ok_def b from_client_def)
  moreover have "serves S (log_start S ?s)" using launched_serves(2) by (simp add: serves_def)
  moreover have "\<exists>s'. server_reach s' \<and> log_start S ?s = log_start S s'"
    using launched_serves(1) by blast
  moreover have "\<exists>t'. t_reach t' \<and> ?t\<lparr>t_Base := log_start S ?s\<rparr> = t'\<lparr>t_Base := log_start S (t_Base t')\<rparr>"
    by (intro exI [of _ ?t] conjI t) (simp add: b)
  ultimately show ?thesis by (simp add: runs_on_def start_server_def Let_def b)
qed

text \<open>C25: a database started on a mission file of ordinary lines, and not asked for help or its version, runs
  with the settings of the command line before those of the mission file before the defaults; a time
  warp that is out of range gives way to the next of them. Its server, of one thread or of many as
  asked, starts as the runs of the other properties do, with the names and the time-out of the settings.\<close>

theorem database_launched:
  assumes "f = GetFreeParameter 0 ''Mission.moos'' (Some g)" "f \<noteq> []" "h_disk h f = Some (render ls)"
    and "lines_ok ls" "lines_fit (render ls)"
    and "\<forall>x \<in> {''--moos_print_version'', ''-h'', ''--help''}. \<not> gp_search g x"
  shows "\<exists>S sv. DBRun h g clock dfStart opens = Some (Launched S sv) \<and> runs_on S sv
    \<and> (let says = (\<lambda>n. said n (map snd ls));
           warp = keep 1 (Option.bind (says ''MOOSTimeWarp'') double_of);
           cmd_warp = overridden g gp_real ''--moos_time_warp'' warp
       in g_sCommunityName S = overridden g gp_string ''--moos_community'' (keep ''#1'' (says ''COMMUNITY''))
        \<and> g_nPort S = overridden g gp_int ''--moos_port'' (keep 9000 (Option.bind (says ''SERVERPORT'') int_of))
        \<and> g_dfClientTimeout S
          = overridden g gp_real ''--moos_timeout'' (keep 5 (Option.bind (says ''ClientTimeout'') double_of))
        \<and> g_bSingleThreaded S = (gp_search g ''-s'' \<or> gp_search g ''--single_threaded'')
        \<and> gdfMOOSTimeWarp (g_clock S) = (if valid_warp cmd_warp then cmd_warp else if valid_warp warp then warp else 1)
        \<and> z_running (g_Sleeper S) = (\<not> gp_search g ''--moos_suicide_disable''))"
proof -
  let ?says = "\<lambda>n. said n (map snd ls)"
  have says: "?says = mission_value h f" using mission_value_lines [OF assms(2-5)] by auto
  have "h_disk h f = None \<or> (\<exists>w. h_disk h f = Some w \<and> lines_fit w)" using assms(3,5) by simp
  from first_settings_read [OF this assms(1) says] obtain S R where
    S: "first_settings h (Some g) new_file_reader = Some (S, R)" and R: "reads h ?says R"
    and set: "g_sCommunityName S = overridden g gp_string ''--moos_community'' (keep ''#1'' (?says ''COMMUNITY''))"
      "g_nPort S = overridden g gp_int ''--moos_port'' (keep 9000 (Option.bind (?says ''SERVERPORT'') int_of))"
      "g_clock S = configure_warp (Some g) (Option.bind (?says ''MOOSTimeWarp'') double_of) new_clock"
      "g_dfClientTimeout S
        = overridden g gp_real ''--moos_timeout'' (keep 5 (Option.bind (?says ''ClientTimeout'') double_of))"
      "g_Sleeper S = new_sleeper"
    by (auto simp: yields_def)
  obtain v R' where v: "GetValue_bool h ''tcpnodelay'' R = Some (v, R')"
    using yields_value(2) [OF R, where n = "''tcpnodelay''" and conv = "\<lambda>s. Some (bool_of s)"]
    by (auto simp: yields_def GetValue_bool_def)
  let ?S = "last_settings (Some g) v S"
  have run: "DBRun h g clock dfStart opens
      = Some (Launched ?S (start_server (Some g) ?S (launched_server ?S clock dfStart opens)))"
    using assms(6) by (simp add: DBRun_def S v GetFlag_def Let_def)
  show ?thesis
    unfolding run Let_def
    by (rule exI [of _ ?S], rule exI, rule conjI, rule refl, rule conjI, rule started_runs)
      (simp add: last_settings_def set GetFlag_def warp_configured sleeper_runs Let_def)
qed

section \<open>Example\<close>

definition lake_lines :: "(string \<times> string) list" where
  "lake_lines = [([], ''Community = lake''), ([], ''ServerPort = 9100''), ([], ''MOOSTimeWarp = 500'')]"

definition lake_host :: host where
  "lake_host = \<lparr>h_disk = (\<lambda>f. if f = ''lake.moos'' then Some (render lake_lines) else None), h_getenv = (\<lambda>n. None)\<rparr>"

definition lake_arguments :: getpot where
  "lake_arguments = \<lparr>gp_search = (\<lambda>x. x \<in> {''lake.moos'', ''--moos_port=9200'', ''--moos_suicide_disable''}),
     gp_names = [''--moos_port''], gp_string = (\<lambda>_ d. d), gp_real = (\<lambda>_ d. d),
     gp_int = (\<lambda>v d. if v = ''--moos_port'' then 9200 else d), gp_follow_string = (\<lambda>_ d. d),
     gp_follow_real = (\<lambda>_ d. d), gp_follow_int = (\<lambda>_ d. d), gp_nominus = [''lake.moos'']\<rparr>"

text \<open>The community of the file, the port of the command line, and no warp of 500.\<close>

theorem database_launched_witness:
  "\<exists>S t. DBRun lake_host lake_arguments real 0 False = Some (Launched S (Threaded t)) \<and> t_ok t
    \<and> db_sDBName (s_DB (t_Base t)) = ''MOOSDB_lake'' \<and> g_nPort S = 9200 \<and> gdfMOOSTimeWarp (g_clock S) = 1
    \<and> s_dfClientTimeout (t_Base t) = 5 \<and> \<not> z_running (g_Sleeper S)"
proof -
  have f: "''lake.moos'' = GetFreeParameter 0 ''Mission.moos'' (Some lake_arguments)"
    by (simp add: GetFreeParameter_def GetFreeParameters_def lake_arguments_def)
  have d: "h_disk lake_host ''lake.moos'' = Some (render lake_lines)" by (simp add: lake_host_def)
  have ok: "lines_ok lake_lines" using gap_Nil by (simp add: lake_lines_def clean_def isspace_def moos_white_def MAXLINESIZE_def)
  have fit: "lines_fit (render lake_lines)" by code_simp
  have s: "said ''COMMUNITY'' (map snd lake_lines) = Some ''lake''"
    "said ''MOOSTimeWarp'' (map snd lake_lines) = Some ''500''" "said ''ClientTimeout'' (map snd lake_lines) = None"
    by code_simp+
  have w: "double_of ''500'' = Some 500" by code_simp
  have "\<forall>x \<in> {''--moos_print_version'', ''-h'', ''--help''}. \<not> gp_search lake_arguments x"
    by (simp add: lake_arguments_def)
  from database_launched [OF f _ d ok fit this, of real 0 False] obtain S sv where
    run: "DBRun lake_host lake_arguments real 0 False = Some (Launched S sv)" "runs_on S sv"
    and S: "g_sCommunityName S = ''lake''" "g_nPort S = 9200" "g_dfClientTimeout S = 5" "\<not> g_bSingleThreaded S"
      "gdfMOOSTimeWarp (g_clock S) = 1" "\<not> z_running (g_Sleeper S)"
    by (auto simp: Let_def s w overridden_def lake_arguments_def keep_def valid_warp_def MAX_TIME_WARP_def)
  then show ?thesis by (cases sv) (auto simp: runs_on_def serves_def)
qed

end
