(* ===== verification/Spec2Isabelle.thy ===== *)
theory Spec2Isabelle
  imports Moos_AppExamples Moos_SkewProps Moos_InstrumentProps Moos_HTTPExamples Moos_Audit Moos_Address
    Moos_Vector Moos_Interp Moos_UmmProps Moos_GtmProps
    Moos_Periodic Moos_AtmProps Moos_Multicast Moos_Monitors Moos_Time Moos_DBLaunch
begin

text \<open>
  A verification development of the MOOS core library, \<open>src/Core/libMOOS\<close>: a publish and subscribe
  system of one database and any number of applications that talk to it over sockets.

  \<^bold>\<open>The program and its parts.\<close> An application (\<open>App/MOOSApp.cpp\<close>) reads its mission file
  (\<open>Utils/MOOSFileReader.cpp\<close>, \<open>Utils/ProcessConfigReader.cpp\<close>) and its command line, and owns a client
  (\<open>Comms/MOOSCommClient.cpp\<close> or \<open>Comms/MOOSAsyncCommClient.cpp\<close>). The client posts messages
  (\<open>Comms/MOOSMsg.cpp\<close>) in packets (\<open>Comms/MOOSCommPkt.cpp\<close>) to the communications server
  (\<open>Comms/MOOSCommServer.cpp\<close>, \<open>Comms/ThreadedCommServer.cpp\<close>), which hands them to the database
  (\<open>DB/MOOSDB.cpp\<close>) by callbacks and returns the mail the database holds. Paths in this development
  are relative to \<open>src/Core/libMOOS\<close>.

  \<^bold>\<open>Theories and sources.\<close> Definitions keep the names of the source; a record has the data members of
  its class with a short prefix.

  \<^item> \<open>Moos_Prelude\<close>: \<open>std::map\<close> as a sorted association list, C strings, white space, lists.
  \<^item> \<open>Moos_Strings\<close>, \<open>Moos_WildCmp\<close>, \<open>Moos_Params\<close>, \<open>Moos_Vector\<close>, \<open>Moos_Time\<close>:
    \<open>Utils/MOOSUtilityFunctions.cpp\<close>;
    \<open>Moos_Numbers\<close> and \<open>Moos_Hex\<close> hold what streams print and read back.
  \<^item> \<open>Moos_Msg\<close>, \<open>Moos_Wire\<close>, \<open>Moos_CommPkt\<close>: messages, their bytes, packets and their passage over a
    socket (\<open>Comms/MOOSMsg.cpp\<close>, \<open>Comms/MOOSCommPkt.cpp\<close>, \<open>Comms/MOOSCommObject.cpp\<close>).
  \<^item> \<open>Moos_DBVar\<close>, \<open>Moos_DB\<close>, \<open>Moos_DBServer\<close>: the variables with their subscribers and filters and every
    handler of the database (\<open>DB/\<close>). \<open>Moos_DBProps\<close>, \<open>Moos_DBSteps\<close>, \<open>Moos_DBRuns\<close>: the invariant
    \<open>db_ok\<close>, the database as a state machine, and the locale \<open>db_invariant\<close> with its interpretations.
    \<open>Moos_DBSpec\<close>, \<open>Moos_DBWild\<close>, \<open>Moos_DBProperties\<close>: an abstract database (the store, the
    subscriptions, the boxes) that the handlers refine, and what holds over runs. \<open>Moos_DBLaunch\<close>:
    how the database starts, from its command line and mission file to its server.
  \<^item> \<open>Moos_CommServer\<close>, \<open>Moos_ServerRuns\<close>: the server of one thread. \<open>Moos_Threaded\<close>,
    \<open>Moos_ThreadedRuns\<close>, \<open>Moos_ThreadedProperties\<close>: the server of many threads, a step relation
    whose steps are the atomic parts of its threads.
  \<^item> \<open>Moos_Client\<close>, \<open>Moos_ClientProps\<close>, \<open>Moos_ClientRuns\<close>, \<open>Moos_ClientProperties\<close>,
    \<open>Moos_Request\<close>: the client; \<open>Moos_Async\<close>, \<open>Moos_AsyncProperties\<close>: the asynchronous one.
  \<^item> \<open>Moos_Queues\<close>: \<open>Utils/SafeList.h\<close>, \<open>Comms/ActiveMailQueue.cpp\<close>,
    \<open>Comms/MessageQueueAccumulator.cpp\<close>; the locale \<open>mail_queue\<close> is what the client of a list
    relies on, interpreted on \<open>SafeList\<close>.
  \<^item> \<open>Moos_FileReader\<close>, \<open>Moos_Config\<close>, \<open>Moos_FileProps\<close>, \<open>Moos_ConfigProperties\<close>: mission files;
    \<open>Moos_CommandLine\<close>, \<open>Moos_Variable\<close>, \<open>Moos_Sleeper\<close>, \<open>Moos_App\<close>, \<open>Moos_AppConfig\<close>,
    \<open>Moos_AppProperties\<close>: applications. The virtual functions of a derived class are a record
    of functions; its state is the type variable.
  \<^item> \<open>Moos_Serial\<close>, \<open>Moos_Instrument\<close>, \<open>Moos_InstrumentProps\<close>: applications with a serial port and
    NMEA sentences (\<open>Utils/MOOSSerialPort.cpp\<close>, \<open>App/MOOSInstrument.cpp\<close>).
  \<^item> \<open>Moos_HTTP\<close>, \<open>Moos_HTTPProps\<close>: a connection of the web server of the database
    (\<open>DB/HTTPConnection.cpp\<close>), from the bytes it receives to the page it sends.
  \<^item> \<open>Moos_Skew\<close>, \<open>Moos_SkewProps\<close>: the filter of clock skews (\<open>Comms/MOOSSkewFilter.cpp\<close>);
    \<open>Moos_Audit\<close>: the records of traffic (\<open>Comms/ServerAudit.cpp\<close>, \<open>Comms/EndToEndAudit.cpp\<close>);
    \<open>Moos_Address\<close>: \<open>Utils/IPV4Address.cpp\<close>; \<open>Moos_Interp\<close>: \<open>Utils/InterpBuffer.h\<close>.
  \<^item> \<open>Moos_Umm\<close>, \<open>Moos_UmmProps\<close>, \<open>Moos_Gtm\<close>, \<open>Moos_GtmProps\<close>, \<open>Moos_Atm\<close>,
    \<open>Moos_AtmProps\<close>: the applications under \<open>src/Core/tools\<close> that publish, subscribe and bounce mail,
    draw who publishes what to whom, and monitor the traffic; \<open>Moos_Monitors\<close>: \<open>mtm\<close>, \<open>mqos\<close>.
  \<^item> \<open>Moos_Thread\<close>, \<open>Moos_ThreadProps\<close>: the object that starts and stops a thread
    (\<open>Utils/MOOSThread.h\<close>), every access to its flags a step; \<open>Moos_Periodic\<close>:
    \<open>Utils/PeriodicEvent.cpp\<close>; \<open>Moos_Multicast\<close>: \<open>Comms/MulticastNode.cpp\<close> and the tool \<open>ktm\<close>.
  \<^item> \<open>Moos_System\<close>, \<open>Moos_AsyncSystem\<close>, \<open>Moos_AppSystem\<close>: the parts together. The theories
    \<open>Moos_Examples\<close>, \<open>Moos_SystemExamples\<close>, \<open>Moos_ThreadedExamples\<close>, \<open>Moos_ConfigExamples\<close>,
    \<open>Moos_AppExamples\<close>, \<open>Moos_HTTPExamples\<close> apply the properties to concrete systems.

  \<^bold>\<open>What is shown.\<close> The database: its handlers keep an invariant and refine the abstract database, types
  never change, mail is delivered in order and once, departed clients get none. The server: names
  are unique, what waits belongs to a live client, whatever the interleaving; synchronous clients
  get one reply for each packet that holds a message. The clients: what they keep when a box
  overflows, what an exchange delivers where. Applications: a published value reaches the derived
  class of every due subscriber; over any turns the mail that arrives is handed over once; \<open>Run\<close> returns as
  it should, with the client closed; configuration returns and reads the
  mission file as it was written. Round trips: parameter strings, messages, packets, statistics,
  addresses, vectors, NMEA sentences, form values. Where the code goes wrong, a theorem states the
  case exactly: an empty packet, a long comment line, a percent sign in a form, a buffer filled
  without an end, a filter cropped or conditioned, a collector configured twice.

  \<^bold>\<open>Effects.\<close> State is passed explicitly. What the outside does is an argument: times, received bytes,
  results of system calls, the mail that arrives while a thread waits. Exceptions, failed
  assertions and accesses outside of a buffer are values. Threads are sequences of steps, an
  interleaving is one sequence of all of them. An exception that no handler catches ends the process:
  no step of the threaded server follows it (\<open>t_bTerminated\<close>), and it is a result of \<open>RunApp\<close>. Closing the
  asynchronous client takes the rounds its two threads still go until they are joined.

  \<^bold>\<open>Numbers.\<close> A \<open>double\<close> is a real: rounding, overflow and NaN are outside of the model. Counters that can
  wrap are words; sizes and lengths that the code casts to \<open>int\<close> are naturals, so that texts and
  lists of \<open>2 ^ 31\<close> elements are outside of the model. Where a cast matters (the pause of an
  application, a length field, ports) its range is written out.

  \<^bold>\<open>Termination and bounds.\<close> Loops that need not end are partial functions into \<open>option\<close>, where \<open>None\<close>
  is the loop that does not return, and each has a theorem that says when it does: the scan of a
  wildcard, the reading of lines, the copy of a mission file, \<open>CropFrontBefore\<close>, \<open>Decode\<close>. The loops
  with a fuel are \<open>cut_telegrams\<close> (a telegram has a character, so the length of the accumulator
  is enough) and \<open>chunks\<close> (a piece has a character); the turns of a thread's loop, such as
  \<open>DoWork\<close>, are the elements of a list. The buffer of a line of a mission file has 2000 characters,
  a formatted string 2047; a serial port has an accumulator of 2000, an in box of 1000; the boxes
  of a client hold what \<open>drop_oldest\<close> and \<open>ditch_half\<close> leave.

  \<^bold>\<open>Not modelled.\<close> Sockets, locks, clocks, the console and processes are system calls, and
  what they return is an argument of the models; so are serial drivers and memory-mapped files.
  GetPot, PocoBits and AppCasting are third-party code, GetPot's answers being a parameter of the
  command line. The listening thread of the web server, the disposal of ended client threads and
  the byte counters of clients are left out, as are overloads for \<open>float\<close>, readers of log files,
  directories and printing. The tests are programs that use the library.
\<close>

end
